(* ===== verification/Prelude.thy ===== *)
theory Prelude
  imports Main "HOL-Library.Word" "HOL-Library.Multiset"
begin

text \<open>
  Shared vocabulary of the development.  Machine integers, the operations of the Qt list
  class that the window manager calls (\<open>QList\<close> keeps its elements by position, an index that
  does not exist is reported as \<open>-1\<close>, an insertion before the front prepends), and the
  generic lemmas every component uses.  Nothing here models a function of the repository.
\<close>

section \<open>Hint collections\<close>

named_theorems qlist_simps \<open>rewriting of the list class operations\<close>
named_theorems qlist_intros \<open>introduction rules for list-shaped invariants\<close>

section \<open>Machine integers\<close>

text \<open>The code's \<open>uint\<close>, wrapping modulo \<open>2^32\<close>.\<close>

type_synonym uint = "32 word"

text \<open>\<open>qBound(lo, v, hi)\<close> is \<open>qMax(lo, qMin(hi, v))\<close>.\<close>

definition qBound :: "'a::linorder \<Rightarrow> 'a \<Rightarrow> 'a \<Rightarrow> 'a" where
  "qBound lo v hi = max lo (min hi v)"

lemma qBound_range: "lo \<le> hi \<Longrightarrow> lo \<le> qBound lo v hi \<and> qBound lo v hi \<le> hi"
  by (auto simp: qBound_def)

lemma qBound_id: "lo \<le> v \<Longrightarrow> v \<le> hi \<Longrightarrow> qBound lo v hi = v"
  by (auto simp: qBound_def max_def min_def)

text \<open>C++ integer division truncates towards zero.\<close>

definition c_div :: "int \<Rightarrow> int \<Rightarrow> int" where
  "c_div a b = sgn a * sgn b * (\<bar>a\<bar> div \<bar>b\<bar>)"

definition c_mod :: "int \<Rightarrow> int \<Rightarrow> int" where
  "c_mod a b = a - c_div a b * b"

lemma c_div_nonneg [simp]: "0 \<le> a \<Longrightarrow> 0 < b \<Longrightarrow> c_div a b = a div b"
  by (cases "a = 0") (auto simp: c_div_def sgn_if)

lemma c_mod_nonneg [simp]: "0 \<le> a \<Longrightarrow> 0 < b \<Longrightarrow> c_mod a b = a mod b"
  by (simp add: c_mod_def minus_div_mult_eq_mod)

section \<open>Qt lists\<close>

definition q_insert :: "int \<Rightarrow> 'a \<Rightarrow> 'a list \<Rightarrow> 'a list" where
  "q_insert i x xs = take (nat i) xs @ x # drop (nat i) xs"

primrec q_indexOf :: "'a \<Rightarrow> 'a list \<Rightarrow> int" where
  "q_indexOf x [] = - 1"
| "q_indexOf x (y # ys) =
     (if y = x then 0 else if q_indexOf x ys < 0 then - 1 else q_indexOf x ys + 1)"

definition q_removeAt :: "int \<Rightarrow> 'a list \<Rightarrow> 'a list" where
  "q_removeAt i xs =
     (if 0 \<le> i \<and> i < int (length xs) then take (nat i) xs @ drop (nat i + 1) xs else xs)"

definition q_move :: "int \<Rightarrow> int \<Rightarrow> 'a list \<Rightarrow> 'a list" where
  "q_move from to xs = q_insert to (xs ! nat from) (q_removeAt from xs)"

text \<open>The loops that scan a list from its end and stop at the first hit.\<close>

definition find_last :: "('a \<Rightarrow> bool) \<Rightarrow> 'a list \<Rightarrow> 'a option" where
  "find_last P xs = find P (rev xs)"

text \<open>
  The position of the last element with a property, \<open>-1\<close> when there is none: the value of
  the index of a loop \<open>for (i = size - 1; i >= 0; --i)\<close> left by \<open>break\<close> at the first hit.
\<close>

definition last_index :: "('a \<Rightarrow> bool) \<Rightarrow> 'a list \<Rightarrow> int" where
  "last_index P xs = (case find (\<lambda>i. P (xs ! i)) (rev [0..<length xs]) of
     None \<Rightarrow> - 1 | Some i \<Rightarrow> int i)"

subsection \<open>Insertion and removal\<close>

lemma set_q_insert [simp]: "set (q_insert i x xs) = insert x (set xs)"
proof -
  have "set (take (nat i) xs) \<union> set (drop (nat i) xs) = set xs"
    by (metis append_take_drop_id set_append)
  then show ?thesis by (auto simp: q_insert_def)
qed

lemma mset_q_insert [simp]: "mset (q_insert i x xs) = add_mset x (mset xs)"
proof -
  have "mset (take (nat i) xs) + mset (drop (nat i) xs) = mset xs"
    by (metis append_take_drop_id mset_append)
  then show ?thesis by (simp add: q_insert_def)
qed

lemma length_q_insert [simp]: "length (q_insert i x xs) = Suc (length xs)"
  by (simp add: q_insert_def)

lemma distinct_q_insert [simp]: "distinct (q_insert i x xs) \<longleftrightarrow> distinct xs \<and> x \<notin> set xs"
proof -
  have "distinct (q_insert i x xs) \<longleftrightarrow> distinct (x # xs)"
    by (rule mset_eq_imp_distinct_iff) simp
  then show ?thesis by auto
qed

lemma q_insert_0 [simp]: "i \<le> 0 \<Longrightarrow> q_insert i x xs = x # xs"
  by (simp add: q_insert_def)

lemma q_insert_length [simp]: "q_insert (int (length xs)) x xs = xs @ [x]"
  by (simp add: q_insert_def)

lemma filter_q_insert:
  "\<not> P x \<Longrightarrow> filter P (q_insert i x xs) = filter P xs"
  unfolding q_insert_def by (metis append_take_drop_id filter.simps(2) filter_append)

lemma removeAll_q_insert [simp]: "removeAll x (q_insert i x xs) = removeAll x xs"
  by (simp add: removeAll_filter_not_eq filter_q_insert)

lemma nth_q_insert:
  assumes "0 \<le> i" "i \<le> int (length xs)" "j < Suc (length xs)"
  shows "q_insert i x xs ! j =
    (if int j < i then xs ! j else if int j = i then x else xs ! (j - 1))"
proof -
  have len: "length (take (nat i) xs) = nat i" using assms by auto
  consider "int j < i" | "int j = i" | "i < int j" by linarith
  then show ?thesis
  proof cases
    case 1
    then have "j < nat i" by linarith
    then show ?thesis using len 1 by (simp add: q_insert_def nth_append)
  next
    case 2
    then have "\<not> j < nat i" "j = nat i" by linarith+
    then show ?thesis using len 2 by (simp add: q_insert_def nth_append)
  next
    case 3
    then obtain k where k: "j - nat i = Suc k"
      by (metis Suc_diff_Suc nat_less_iff assms(1))
    from k have j: "j - 1 = nat i + k" by simp
    have "(drop (nat i) xs) ! k = xs ! (j - 1)"
      unfolding j using assms by (intro nth_drop) auto
    moreover have "\<not> j < nat i" using 3 assms(1) by auto
    ultimately show ?thesis using 3 len k by (simp add: q_insert_def nth_append)
  qed
qed

lemma set_q_removeAt_subset: "set (q_removeAt i xs) \<subseteq> set xs"
  by (auto simp: q_removeAt_def dest: in_set_takeD in_set_dropD)

lemma q_removeAt_mset:
  assumes "0 \<le> i" "i < int (length xs)"
  shows "add_mset (xs ! nat i) (mset (q_removeAt i xs)) = mset xs"
proof -
  have "xs = take (nat i) xs @ xs ! nat i # drop (Suc (nat i)) xs"
    using assms by (intro id_take_nth_drop) auto
  then have "mset xs = mset (take (nat i) xs @ xs ! nat i # drop (Suc (nat i)) xs)"
    by simp
  then show ?thesis using assms by (simp add: q_removeAt_def)
qed

lemma length_q_removeAt:
  "0 \<le> i \<Longrightarrow> i < int (length xs) \<Longrightarrow> length (q_removeAt i xs) = length xs - 1"
  by (auto simp: q_removeAt_def)

lemma mset_q_move:
  "0 \<le> from \<Longrightarrow> from < int (length xs) \<Longrightarrow> mset (q_move from to xs) = mset xs"
  by (simp add: q_move_def q_removeAt_mset)

lemma distinct_q_move:
  "0 \<le> from \<Longrightarrow> from < int (length xs) \<Longrightarrow> distinct (q_move from to xs) = distinct xs"
  by (rule mset_eq_imp_distinct_iff) (rule mset_q_move)

lemma length_q_move:
  "0 \<le> from \<Longrightarrow> from < int (length xs) \<Longrightarrow> length (q_move from to xs) = length xs"
  by (rule mset_eq_length) (rule mset_q_move)

subsection \<open>Searching\<close>

lemma q_indexOf_ge: "- 1 \<le> q_indexOf x xs"
  by (induction xs) auto

lemma q_indexOf_neg_iff [simp]: "q_indexOf x xs < 0 \<longleftrightarrow> x \<notin> set xs"
  by (induction xs) auto

lemma q_indexOf_nonneg_iff: "0 \<le> q_indexOf x xs \<longleftrightarrow> x \<in> set xs"
  using q_indexOf_neg_iff [of x xs] by linarith

lemma q_indexOf_notin [simp]: "x \<notin> set xs \<Longrightarrow> q_indexOf x xs = - 1"
  using q_indexOf_neg_iff [of x xs] q_indexOf_ge [of x xs] by linarith

lemma q_indexOf_in:
  "x \<in> set xs \<Longrightarrow> 0 \<le> q_indexOf x xs \<and> q_indexOf x xs < int (length xs) \<and>
     xs ! nat (q_indexOf x xs) = x"
proof (induction xs)
  case Nil
  then show ?case by simp
next
  case (Cons y ys)
  show ?case
  proof (cases "y = x")
    case True
    then show ?thesis by simp
  next
    case False
    with Cons have IH: "0 \<le> q_indexOf x ys" "q_indexOf x ys < int (length ys)"
      "ys ! nat (q_indexOf x ys) = x" by auto
    then have "nat (q_indexOf x ys + 1) = Suc (nat (q_indexOf x ys))" by simp
    with IH False Cons.prems show ?thesis by simp
  qed
qed

lemma q_indexOf_first:
  "x \<in> set xs \<Longrightarrow> j < nat (q_indexOf x xs) \<Longrightarrow> xs ! j \<noteq> x"
proof (induction xs arbitrary: j)
  case Nil
  then show ?case by simp
next
  case (Cons y ys)
  show ?case
  proof (cases j)
    case 0
    with Cons.prems show ?thesis by (auto split: if_splits)
  next
    case (Suc k)
    with Cons.prems have "y \<noteq> x" "x \<in> set ys" by (auto split: if_splits)
    moreover from this have "0 \<le> q_indexOf x ys" by (simp add: q_indexOf_nonneg_iff)
    ultimately have "k < nat (q_indexOf x ys)" using Cons.prems Suc by auto
    with Cons.IH \<open>x \<in> set ys\<close> Suc show ?thesis by simp
  qed
qed

lemma q_indexOf_append:
  "q_indexOf x (xs @ ys) =
     (if x \<in> set xs then q_indexOf x xs
      else if x \<in> set ys then int (length xs) + q_indexOf x ys else - 1)"
proof (induction xs)
  case Nil
  then show ?case by simp
next
  case (Cons a xs)
  show ?case
    using Cons q_indexOf_nonneg_iff [of x ys] q_indexOf_nonneg_iff [of x xs] by auto
qed

lemma find_last_Some:
  "find_last P xs = Some x \<Longrightarrow> x \<in> set xs \<and> P x"
proof -
  assume "find_last P xs = Some x"
  then have "x \<in> set (rev xs) \<and> P x"
    unfolding find_last_def by (metis find_Some_iff nth_mem)
  then show ?thesis by simp
qed

lemma find_last_None: "find_last P xs = None \<longleftrightarrow> (\<forall>x\<in>set xs. \<not> P x)"
  by (auto simp: find_last_def find_None_iff)

lemma find_last_append [simp]:
  "find_last P (xs @ [x]) = (if P x then Some x else find_last P xs)"
  by (simp add: find_last_def)

lemma find_last_Nil [simp]: "find_last P [] = None"
  by (simp add: find_last_def)

lemma find_last_split:
  "find_last P xs = Some x \<Longrightarrow> \<exists>ys zs. xs = ys @ x # zs \<and> P x \<and> (\<forall>z\<in>set zs. \<not> P z)"
proof (induction xs rule: rev_induct)
  case Nil
  then show ?case by simp
next
  case (snoc a xs)
  show ?case
  proof (cases "P a")
    case True
    with snoc.prems have "x = a" by simp
    with True show ?thesis by force
  next
    case False
    with snoc obtain ys zs where "xs = ys @ x # zs" "P x" "\<forall>z\<in>set zs. \<not> P z" by auto
    then have "xs @ [a] = ys @ x # (zs @ [a]) \<and> P x \<and> (\<forall>z\<in>set (zs @ [a]). \<not> P z)"
      using False by simp
    then show ?thesis by blast
  qed
qed

lemma last_index_range: "- 1 \<le> last_index P xs \<and> last_index P xs < int (length xs)"
  by (auto simp: last_index_def find_Some_iff rev_nth split: option.split)

lemma last_index_neg_iff: "last_index P xs = - 1 \<longleftrightarrow> (\<forall>x\<in>set xs. \<not> P x)"
proof (cases "find (\<lambda>i. P (xs ! i)) (rev [0..<length xs])")
  case None
  then have "\<forall>i < length xs. \<not> P (xs ! i)" by (auto simp: find_None_iff)
  with None show ?thesis by (auto simp: last_index_def in_set_conv_nth)
next
  case (Some i)
  then have "P (xs ! i)" "i \<in> set (rev [0..<length xs])"
    by (metis find_Some_iff, metis find_Some_iff nth_mem)
  then have "xs ! i \<in> set xs" "P (xs ! i)" by auto
  with Some show ?thesis by (auto simp: last_index_def)
qed

lemma last_index_hit: "0 \<le> last_index P xs \<Longrightarrow> P (xs ! nat (last_index P xs))"
proof (cases "find (\<lambda>i. P (xs ! i)) (rev [0..<length xs])")
  case (Some i)
  then have "P (xs ! i)" by (metis find_Some_iff)
  with Some show ?thesis by (simp add: last_index_def)
qed (simp add: last_index_def)

lemma last_index_later:
  assumes "last_index P xs < int j" "j < length xs"
  shows "\<not> P (xs ! j)"
proof (cases "find (\<lambda>i. P (xs ! i)) (rev [0..<length xs])")
  case None
  with assms show ?thesis by (auto simp: find_None_iff)
next
  case (Some i)
  then obtain k where k: "k < length xs" "i = length xs - Suc k"
    "\<forall>l<k. \<not> P (xs ! (length xs - Suc l))"
    by (auto simp: find_Some_iff rev_nth)
  from Some assms(1) have "i < j" by (simp add: last_index_def)
  then have "length xs - Suc j < k" "j = length xs - Suc (length xs - Suc j)"
    using k(1,2) assms(2) by auto
  with k(3) show ?thesis by metis
qed

section \<open>Lists without repetition\<close>

lemma distinct_removeAll_snoc [qlist_intros]: "distinct xs \<Longrightarrow> distinct (removeAll x xs @ [x])"
  by (auto simp: distinct_removeAll)

lemma distinct_removeAll_Cons [qlist_intros]: "distinct xs \<Longrightarrow> distinct (x # removeAll x xs)"
  by (auto simp: distinct_removeAll)

lemma distinct_removeAll_insert [qlist_intros]:
  "distinct xs \<Longrightarrow> distinct (q_insert i x (removeAll x xs))"
  by (auto simp: distinct_removeAll)

lemma mset_removeAll_member:
  "distinct xs \<Longrightarrow> x \<in> set xs \<Longrightarrow> add_mset x (mset (removeAll x xs)) = mset xs"
  by (metis distinct_remove1_removeAll insert_DiffM mset_remove1 set_mset_mset)

text \<open>A fold whose steps may fail.\<close>

primrec foldM :: "('a \<Rightarrow> 's \<Rightarrow> 's option) \<Rightarrow> 'a list \<Rightarrow> 's \<Rightarrow> 's option" where
  "foldM f [] s = Some s"
| "foldM f (x # xs) s = (case f x s of None \<Rightarrow> None | Some s \<Rightarrow> foldM f xs s)"

end
