(* ===== verification/VirtualDesktops.thy ===== *)
theory VirtualDesktops
  imports Prelude
begin

text \<open>
  \<^verbatim>\<open>virtualdesktops.cpp\<close> and \<^verbatim>\<open>virtualdesktops.h\<close>: the grid of virtual desktops
  (\<open>VirtualDesktopGrid\<close>) and the manager of their number, layout and current desktop
  (\<open>VirtualDesktopManager\<close>), with the navigation over the grid.

  Desktop ids are the code's 32-bit \<open>uint\<close>.  \<open>NETRootInfo\<close> is not part of the repository:
  what the manager reads from it is the record \<open>root_info\<close>, and every call that sets
  something on it is an entry of the log, as is every emitted signal.  A call that does not
  return (the navigation and layout loops have no bound of their own) has the value
  \<open>None\<close>; a failed \<open>Q_ASSERT\<close> and a read outside the grid array are the errors below.
\<close>

section \<open>Data\<close>

datatype orientation = Horizontal | Vertical

datatype vd_error = AssertCoords | OutOfRange

record grid =
  grid_width :: int
  grid_height :: int
  grid_cells :: "uint list"

record root_info =
  layout_columns :: int
  layout_rows :: int
  layout_orientation :: orientation
  desktop_name :: "uint \<Rightarrow> string"

record vd_config =
  cfg_number :: "int option"
  cfg_rows :: "int option"
  cfg_names :: "uint \<rightharpoonup> string"
  cfg_synced :: bool

datatype vd_event =
    CurrentChanged uint uint
  | CountChanged uint uint
  | DesktopsRemoved uint
  | LayoutChanged uint uint
  | NavigationWrappingAroundChanged
  | SetNumberOfDesktops uint
  | SetDesktopViewport uint
  | SetDesktopName uint string
  | SetDesktopLayout int int
  | Activate

record manager =
  m_current :: uint
  m_count :: uint
  m_navigationWrapsAround :: bool
  m_grid :: grid
  m_rootInfo :: "root_info option"
  m_config :: "vd_config option"
  s_loadingDesktopSettings :: bool
  i18n_desktop :: "uint \<Rightarrow> string"
  vd_log :: "vd_event list"

definition vd_emit :: "vd_event \<Rightarrow> manager \<Rightarrow> manager" where
  "vd_emit e m = m\<lparr>vd_log := vd_log m @ [e]\<rparr>"

section \<open>The grid\<close>

definition initial_grid :: grid where
  "initial_grid = \<lparr>grid_width = 1, grid_height = 2, grid_cells = [0, 0]\<rparr>"

text \<open>
  One assignment \<open>m_grid[y * width + x] = (desktop <= desktopCount ? desktop++ : 0)\<close>,
  and the two nestings of the loops around it.  The fresh array is filled with \<open>0\<close> here;
  in the code it is uninitialised until the loops have written every cell.
\<close>

definition fillCell :: "uint \<Rightarrow> uint \<Rightarrow> nat \<Rightarrow> nat \<Rightarrow> uint \<times> uint list \<Rightarrow> uint \<times> uint list" where
  "fillCell desktopCount width y x s =
     (case s of (desktop, cells) \<Rightarrow>
        let i = unat (of_nat y * width + of_nat x) in
        if desktop \<le> desktopCount then (desktop + 1, cells[i := desktop])
        else (desktop, cells[i := 0]))"

definition grid_update :: "uint \<Rightarrow> int \<times> int \<Rightarrow> orientation \<Rightarrow> grid" where
  "grid_update desktopCount sz ori =
     (let width = word_of_int (fst sz) :: uint;
          height = word_of_int (snd sz) :: uint;
          blank = replicate (unat (width * height)) 0;
          filled = (case ori of
             Horizontal \<Rightarrow>
               fold (\<lambda>y. fold (\<lambda>x. fillCell desktopCount width y x) [0..<unat width])
                 [0..<unat height] (1, blank)
           | Vertical \<Rightarrow>
               fold (\<lambda>x. fold (\<lambda>y. fillCell desktopCount width y x) [0..<unat height])
                 [0..<unat width] (1, blank))
      in \<lparr>grid_width = fst sz, grid_height = snd sz, grid_cells = snd filled\<rparr>)"

definition grid_read :: "grid \<Rightarrow> int \<Rightarrow> uint option" where
  "grid_read g i =
     (if 0 \<le> i \<and> i < int (length (grid_cells g)) then Some (grid_cells g ! nat i) else None)"

definition gridCoords :: "grid \<Rightarrow> uint \<Rightarrow> int \<times> int" where
  "gridCoords g k =
     (case find (\<lambda>(x, y). grid_read g (y * grid_width g + x) = Some k)
             [(x, y). y \<leftarrow> [0..grid_height g - 1], x \<leftarrow> [0..grid_width g - 1]] of
        None \<Rightarrow> (- 1, - 1)
      | Some c \<Rightarrow> c)"

definition grid_at :: "grid \<Rightarrow> int \<times> int \<Rightarrow> uint option" where
  "grid_at g c =
     (let index = snd c * grid_width g + fst c in
      if index > grid_width g * grid_height g \<or> fst c \<ge> grid_width g \<or> snd c \<ge> grid_height g
      then Some 0 else grid_read g index)"

section \<open>The manager: reads and navigation\<close>

definition initial_manager :: "(uint \<Rightarrow> string) \<Rightarrow> manager" where
  "initial_manager i18n =
     \<lparr>m_current = 0, m_count = 0, m_navigationWrapsAround = False, m_grid = initial_grid,
      m_rootInfo = None, m_config = None, s_loadingDesktopSettings = False,
      i18n_desktop = i18n, vd_log = []\<rparr>"

definition setRootInfo :: "root_info option \<Rightarrow> manager \<Rightarrow> manager" where
  "setRootInfo info m = m\<lparr>m_rootInfo := info\<rparr>"

definition setConfig :: "vd_config option \<Rightarrow> manager \<Rightarrow> manager" where
  "setConfig cfg m = m\<lparr>m_config := cfg\<rparr>"

definition maximum :: uint where
  "maximum = 20"

definition defaultName :: "manager \<Rightarrow> uint \<Rightarrow> string" where
  "defaultName m desktop = i18n_desktop m desktop"

definition vd_name :: "manager \<Rightarrow> uint \<Rightarrow> string" where
  "vd_name m desktop =
     (case m_rootInfo m of None \<Rightarrow> defaultName m desktop | Some r \<Rightarrow> desktop_name r desktop)"

text \<open>
  The four \<open>while (true)\<close> loops differ in how a step moves the coordinates: \<open>Some c\<close> is the
  next place to look at, \<open>None\<close> the \<open>return id\<close> at a border that is not wrapped.
\<close>

partial_function (option) nav_loop ::
  "('c \<Rightarrow> uint option) \<Rightarrow> ('c \<Rightarrow> 'c option) \<Rightarrow> uint \<Rightarrow> 'c \<Rightarrow> (vd_error + uint) option" where
  "nav_loop at step k c =
     (case step c of
        None \<Rightarrow> Some (Inr k)
      | Some c' \<Rightarrow>
          (case at c' of
             None \<Rightarrow> Some (Inl OutOfRange)
           | Some desktop \<Rightarrow>
               if desktop > 0 then Some (Inr desktop) else nav_loop at step k c'))"

declare nav_loop.simps [code]

definition aboveStep :: "grid \<Rightarrow> bool \<Rightarrow> int \<times> int \<Rightarrow> (int \<times> int) option" where
  "aboveStep g wrap c =
     (let y = snd c - 1 in
      if y < 0 then (if wrap then Some (fst c, grid_height g - 1) else None)
      else Some (fst c, y))"

definition rightStep :: "grid \<Rightarrow> bool \<Rightarrow> int \<times> int \<Rightarrow> (int \<times> int) option" where
  "rightStep g wrap c =
     (let x = fst c + 1 in
      if x \<ge> grid_width g then (if wrap then Some (0, snd c) else None)
      else Some (x, snd c))"

definition belowStep :: "grid \<Rightarrow> bool \<Rightarrow> int \<times> int \<Rightarrow> (int \<times> int) option" where
  "belowStep g wrap c =
     (let y = snd c + 1 in
      if y \<ge> grid_height g then (if wrap then Some (fst c, 0) else None)
      else Some (fst c, y))"

definition leftStep :: "grid \<Rightarrow> bool \<Rightarrow> int \<times> int \<Rightarrow> (int \<times> int) option" where
  "leftStep g wrap c =
     (let x = fst c - 1 in
      if x < 0 then (if wrap then Some (grid_width g - 1, snd c) else None)
      else Some (x, snd c))"

definition navigate ::
  "(grid \<Rightarrow> bool \<Rightarrow> int \<times> int \<Rightarrow> (int \<times> int) option) \<Rightarrow> manager \<Rightarrow> uint \<Rightarrow> bool \<Rightarrow>
   (vd_error + uint) option" where
  "navigate stepf m id0 wrap =
     (let k = (if id0 = 0 then m_current m else id0);
          coords = gridCoords (m_grid m) k in
      if fst coords < 0 then Some (Inl AssertCoords)
      else nav_loop (grid_at (m_grid m)) (stepf (m_grid m) wrap) k coords)"

definition above :: "manager \<Rightarrow> uint \<Rightarrow> bool \<Rightarrow> (vd_error + uint) option" where
  "above = navigate aboveStep"

definition toRight :: "manager \<Rightarrow> uint \<Rightarrow> bool \<Rightarrow> (vd_error + uint) option" where
  "toRight = navigate rightStep"

definition below :: "manager \<Rightarrow> uint \<Rightarrow> bool \<Rightarrow> (vd_error + uint) option" where
  "below = navigate belowStep"

definition toLeft :: "manager \<Rightarrow> uint \<Rightarrow> bool \<Rightarrow> (vd_error + uint) option" where
  "toLeft = navigate leftStep"

definition vd_next :: "manager \<Rightarrow> uint \<Rightarrow> bool \<Rightarrow> uint" where
  "vd_next m id0 wrap =
     (let k = (if id0 = 0 then m_current m else id0); desktop = k + 1 in
      if desktop > m_count m then (if wrap then 1 else k) else desktop)"

definition previous :: "manager \<Rightarrow> uint \<Rightarrow> bool \<Rightarrow> uint" where
  "previous m id0 wrap =
     (let k = (if id0 = 0 then m_current m else id0); desktop = k - 1 in
      if desktop = 0 then (if wrap then m_count m else k) else desktop)"

text \<open>The function objects \<open>DesktopAbove\<close>, \<open>DesktopBelow\<close>, \<dots> and \<open>getDesktop\<close>.\<close>

datatype direction = DesktopAbove | DesktopBelow | DesktopLeft | DesktopRight
  | DesktopNext | DesktopPrevious

fun direction_apply :: "manager \<Rightarrow> direction \<Rightarrow> uint \<Rightarrow> bool \<Rightarrow> (vd_error + uint) option" where
  "direction_apply m DesktopAbove desktop wrap = above m desktop wrap"
| "direction_apply m DesktopBelow desktop wrap = below m desktop wrap"
| "direction_apply m DesktopLeft desktop wrap = toLeft m desktop wrap"
| "direction_apply m DesktopRight desktop wrap = toRight m desktop wrap"
| "direction_apply m DesktopNext desktop wrap = Some (Inr (vd_next m desktop wrap))"
| "direction_apply m DesktopPrevious desktop wrap = Some (Inr (previous m desktop wrap))"

definition getDesktop :: "manager \<Rightarrow> direction \<Rightarrow> int \<Rightarrow> bool \<Rightarrow> (vd_error + uint) option" where
  "getDesktop m dir d wrap = direction_apply m dir (word_of_int d) wrap"

section \<open>The manager: changes\<close>

definition setCurrent :: "uint \<Rightarrow> manager \<Rightarrow> manager \<times> bool" where
  "setCurrent newDesktop m =
     (if newDesktop < 1 \<or> newDesktop > m_count m \<or> newDesktop = m_current m then (m, False)
      else let oldDesktop = m_current m in
        (vd_emit (CurrentChanged oldDesktop newDesktop) (m\<lparr>m_current := newDesktop\<rparr>), True))"

text \<open>The loop \<open>while (width * height < m_count)\<close>, in the code's wrapping arithmetic.\<close>

partial_function (option) growLayout ::
  "orientation \<Rightarrow> uint \<Rightarrow> uint \<Rightarrow> uint \<Rightarrow> (uint \<times> uint) option" where
  "growLayout ori cnt width height =
     (if width * height < cnt
      then (case ori of
              Horizontal \<Rightarrow> growLayout ori cnt (width + 1) height
            | Vertical \<Rightarrow> growLayout ori cnt width (height + 1))
      else Some (width, height))"

declare growLayout.simps [code]

definition layoutSize :: "orientation \<Rightarrow> uint \<Rightarrow> uint \<Rightarrow> uint \<Rightarrow> (uint \<times> uint) option" where
  "layoutSize ori cnt width height =
     (if width \<le> 0 \<and> height > 0 then growLayout ori cnt ((cnt + height - 1) div height) height
      else if height \<le> 0 \<and> width > 0 then growLayout ori cnt width ((cnt + width - 1) div width)
      else growLayout ori cnt width height)"

definition setNETDesktopLayout ::
  "orientation \<Rightarrow> uint \<Rightarrow> uint \<Rightarrow> manager \<Rightarrow> manager option" where
  "setNETDesktopLayout ori width height m =
     map_option (\<lambda>(w, h).
         vd_emit (LayoutChanged w h)
           (m\<lparr>m_grid := grid_update (m_count m) (sint w, sint h) ori\<rparr>))
       (layoutSize ori (m_count m) width height)"

definition updateLayout :: "manager \<Rightarrow> manager option" where
  "updateLayout m =
     (let (width, height, ori) = (case m_rootInfo m of
          None \<Rightarrow> (0, 0, Horizontal)
        | Some r \<Rightarrow> (layout_columns r, layout_rows r, layout_orientation r));
          height = (if width = 0 \<and> height = 0 then (if m_count m = 1 then 1 else 2) else height)
      in setNETDesktopLayout ori (word_of_int width) (word_of_int height) m)"

definition updateRootInfo :: "manager \<Rightarrow> manager option" where
  "updateRootInfo m =
     (case m_rootInfo m of
        None \<Rightarrow> updateLayout m
      | Some r \<Rightarrow>
          updateLayout (vd_emit (SetDesktopViewport (m_count m))
            (vd_emit (SetNumberOfDesktops (m_count m)) m)))"

definition handleDesktopsRemoved :: "uint \<Rightarrow> manager \<Rightarrow> manager" where
  "handleDesktopsRemoved previousCount m =
     (let m = (if m_current m > m_count m then fst (setCurrent (m_count m) m) else m)
      in vd_emit (DesktopsRemoved previousCount) m)"

text \<open>One round of the loop of \<open>save\<close> for desktop \<open>i\<close>, on the manager and its config grp.\<close>

definition saveName :: "uint \<Rightarrow> manager \<times> vd_config \<Rightarrow> manager \<times> vd_config" where
  "saveName i mc =
     (case mc of (m, grp) \<Rightarrow>
        let defaultvalue = defaultName m i;
            s0 = vd_name m i;
            s = (if s0 = [] then defaultvalue else s0);
            m = (if s0 = [] \<and> m_rootInfo m \<noteq> None then vd_emit (SetDesktopName i s) m else m);
            currentvalue = (case cfg_names grp i of None \<Rightarrow> [] | Some v \<Rightarrow> v);
            grp = (if s \<noteq> defaultvalue then grp\<lparr>cfg_names := (cfg_names grp)(i \<mapsto> s)\<rparr>
                     else if currentvalue \<noteq> defaultvalue
                       then grp\<lparr>cfg_names := (cfg_names grp)(i := None)\<rparr>
                     else grp)
        in (m, grp))"

definition save :: "manager \<Rightarrow> manager" where
  "save m =
     (if s_loadingDesktopSettings m then m
      else case m_config m of
        None \<Rightarrow> m
      | Some grp \<Rightarrow>
          (let (m, grp) = fold saveName (map of_nat [1..<Suc (unat (m_count m))])
                 (m, grp\<lparr>cfg_number := Some (uint (m_count m))\<rparr>)
           in m\<lparr>m_config := Some (grp\<lparr>cfg_synced := True\<rparr>)\<rparr>))"

definition setCount :: "uint \<Rightarrow> manager \<Rightarrow> manager option" where
  "setCount count0 m =
     (let cnt = qBound 1 count0 maximum in
      if cnt = m_count m then Some m
      else
        let oldCount = m_count m;
            m = m\<lparr>m_count := cnt\<rparr>;
            m = (if oldCount > m_count m then handleDesktopsRemoved oldCount m else m)
        in map_option (\<lambda>m. vd_emit (CountChanged oldCount (m_count m)) (save m))
             (updateRootInfo m))"

text \<open>The loop over the names in \<open>load\<close> runs over the unclamped \<open>int\<close> of the config.\<close>

definition loadName :: "vd_config \<Rightarrow> int \<Rightarrow> manager \<Rightarrow> manager" where
  "loadName grp i m =
     (let k = word_of_int i;
          s = (case cfg_names grp k of None \<Rightarrow> defaultName m k | Some s \<Rightarrow> s)
      in vd_emit (SetDesktopName k s) m)"

definition load :: "manager \<Rightarrow> manager option" where
  "load m0 =
     (let m = m0\<lparr>s_loadingDesktopSettings := True\<rparr> in
      case m_config m of
        None \<Rightarrow> Some m
      | Some grp \<Rightarrow>
          (let n = (case cfg_number grp of None \<Rightarrow> 1 | Some n \<Rightarrow> n) in
           map_option (\<lambda>m.
               let m = (case m_rootInfo m of
                     None \<Rightarrow> m
                   | Some _ \<Rightarrow>
                       let m = fold (loadName grp) [1..n] m;
                           rows0 = (case cfg_rows grp of None \<Rightarrow> 2 | Some r \<Rightarrow> r);
                           rows = qBound 1 rows0 n;
                           columns = c_div n rows;
                           columns = (if c_mod n rows > 0 then columns + 1 else columns)
                       in vd_emit Activate (vd_emit (SetDesktopLayout columns rows) m))
               in m\<lparr>s_loadingDesktopSettings := False\<rparr>)
             (setCount (word_of_int n) m)))"

definition setNavigationWrappingAround :: "bool \<Rightarrow> manager \<Rightarrow> manager" where
  "setNavigationWrappingAround enabled m =
     (if enabled = m_navigationWrapsAround m then m
      else vd_emit NavigationWrappingAroundChanged (m\<lparr>m_navigationWrapsAround := enabled\<rparr>))"

definition moveTo :: "direction \<Rightarrow> bool \<Rightarrow> manager \<Rightarrow> (vd_error + manager) option" where
  "moveTo dir wrap m =
     map_option (map_sum id (\<lambda>d. fst (setCurrent d m))) (direction_apply m dir 0 wrap)"

text \<open>
  \<open>slotSwitchTo\<close> gets the desktop from the data of the triggering action; \<open>None\<close> stands for
  its two early returns, no action or no number in it.  The other slots move in one direction.
\<close>

definition slotSwitchTo :: "uint option \<Rightarrow> manager \<Rightarrow> manager" where
  "slotSwitchTo data m = (case data of None \<Rightarrow> m | Some i \<Rightarrow> fst (setCurrent i m))"

definition slotMove :: "direction \<Rightarrow> manager \<Rightarrow> (vd_error + manager) option" where
  "slotMove dir m = moveTo dir (m_navigationWrapsAround m) m"

subsection \<open>The array the two loops leave behind\<close>

definition fillPos :: "uint \<Rightarrow> nat \<Rightarrow> uint \<times> uint list \<Rightarrow> uint \<times> uint list" where
  "fillPos cnt i s = (case s of (d, cells) \<Rightarrow>
     if d \<le> cnt then (d + 1, cells[i := d]) else (d, cells[i := 0]))"

definition cellval :: "uint \<Rightarrow> nat \<Rightarrow> uint" where
  "cellval cnt k = (if k < unat cnt then of_nat (Suc k) else 0)"

lemma fold_fold_concat:
  "fold (\<lambda>y. fold (f y) xs) ys s = fold (\<lambda>(y, x). f y x) (concat (map (\<lambda>y. map (Pair y) xs) ys)) s"
  by (induction ys arbitrary: s) (simp_all add: fold_map comp_def)

lemma unat_of_nat_less: "k < 2 ^ 32 \<Longrightarrow> unat (of_nat k :: uint) = k"
  by (simp add: unat_of_nat take_bit_nat_eq_self)

lemma counter_le_iff:
  assumes "unat cnt < 2 ^ 32 - 1"
  shows "(of_nat (Suc (min k (unat cnt))) :: uint) \<le> cnt \<longleftrightarrow> k < unat cnt"
proof -
  have "unat (of_nat (Suc (min k (unat cnt))) :: uint) = Suc (min k (unat cnt))"
    using assms by (intro unat_of_nat_less) auto
  then show ?thesis by (auto simp: word_le_nat_alt)
qed

lemma fillPos_fold:
  assumes "unat cnt < 2 ^ 32 - 1" "distinct ps" "\<forall>p\<in>set ps. p < length cells"
  defines "res \<equiv> \<lambda>k cells ps. snd (fold (fillPos cnt) ps (of_nat (Suc (min k (unat cnt))), cells))"
  shows "length (res k cells ps) = length cells \<and>
    (\<forall>i. i \<notin> set ps \<longrightarrow> res k cells ps ! i = cells ! i) \<and>
    (\<forall>j < length ps. res k cells ps ! (ps ! j) = cellval cnt (k + j))"
  using assms(2,3)
proof (induction ps arbitrary: k cells)
  case Nil
  then show ?case by (simp add: res_def)
next
  case (Cons p ps)
  define cells' where "cells' = cells[p := cellval cnt k]"
  have "fillPos cnt p (of_nat (Suc (min k (unat cnt))), cells) =
      (of_nat (Suc (min (Suc k) (unat cnt))), cells')"
    using counter_le_iff [OF assms(1), of k]
    by (auto simp: fillPos_def cells'_def cellval_def min_def)
  then have step: "res k cells (p # ps) = res (Suc k) cells' ps"
    by (simp only: res_def fold.simps comp_def)
  have "\<forall>q\<in>set ps. q < length cells'" "distinct ps" "p \<notin> set ps"
    using Cons.prems by (auto simp: cells'_def)
  note IH = Cons.IH [OF this(2,1), of "Suc k"]
  have "res k cells (p # ps) ! ((p # ps) ! j) = cellval cnt (k + j)" if "j < length (p # ps)" for j
  proof (cases j)
    case 0
    with IH \<open>p \<notin> set ps\<close> Cons.prems show ?thesis by (simp add: step cells'_def)
  next
    case (Suc i)
    with IH that show ?thesis by (simp add: step)
  qed
  with IH show ?case by (auto simp: step cells'_def)
qed

lemma fillPos_fold_mset:
  assumes "unat cnt < 2 ^ 32 - 1" "distinct ps" "set ps = {..<n}"
  shows "mset (snd (fold (fillPos cnt) ps (1, replicate n 0))) = mset (map (cellval cnt) [0..<n])"
    and "length (snd (fold (fillPos cnt) ps (1, replicate n 0))) = n"
proof -
  define cells where "cells = snd (fold (fillPos cnt) ps (1, replicate n 0))"
  have lt: "\<forall>p\<in>set ps. p < length (replicate n (0 :: uint))" using assms(3) by auto
  have cells: "cells = snd (fold (fillPos cnt) ps (of_nat (Suc (min 0 (unat cnt))), replicate n 0))"
    by (simp add: cells_def)
  have "length cells = length (replicate n (0 :: uint)) \<and>
      (\<forall>j < length ps. cells ! (ps ! j) = cellval cnt (0 + j))"
    unfolding cells using fillPos_fold [OF assms(1,2) lt, of 0] by blast
  then have res: "length cells = n" "\<forall>j < length ps. cells ! (ps ! j) = cellval cnt j"
    by simp_all
  have len: "length ps = n"
    using distinct_card [OF assms(2)] assms(3) by simp
  have "set [0..<n] = set ps" by (simp only: assms(3) set_upt atLeast0LessThan)
  then have "mset [0..<n] = mset ps"
    by (simp only: set_eq_iff_mset_eq_distinct [OF distinct_upt assms(2)])
  have "mset cells = mset (map ((!) cells) [0..<n])"
    using map_nth [of cells] unfolding res(1) by (rule arg_cong [OF sym])
  also have "\<dots> = mset (map ((!) cells) ps)" using \<open>mset [0..<n] = mset ps\<close> by simp
  also have "map ((!) cells) ps = map (cellval cnt) [0..<n]"
    using res(2) len by (intro nth_equalityI) auto
  finally show "mset (snd (fold (fillPos cnt) ps (1, replicate n 0))) =
      mset (map (cellval cnt) [0..<n])" by (simp add: cells_def)
  show "length (snd (fold (fillPos cnt) ps (1, replicate n 0))) = n"
    using res(1) by (simp add: cells_def)
qed

lemma count_cellval:
  assumes "unat cnt \<le> n" "1 \<le> d" "d \<le> cnt"
  shows "count (mset (map (cellval cnt) [0..<n])) d = 1"
proof -
  have d: "1 \<le> unat d" "unat d \<le> unat cnt"
    using assms(2,3) by (simp_all add: word_le_nat_alt)
  have eq: "cellval cnt k = d \<longleftrightarrow> k = unat d - 1" if "k < n" for k
  proof (cases "k < unat cnt")
    case True
    have "Suc k < 2 ^ 32" using True unsigned_less [of cnt, where ?'a = nat] by simp
    then have "unat (of_nat (Suc k) :: uint) = Suc k" by (rule unat_of_nat_less)
    with True d show ?thesis by (auto simp: cellval_def word_unat_eq_iff)
  next
    case False
    with d assms(2) show ?thesis by (auto simp: cellval_def)
  qed
  have "count (mset (map (cellval cnt) [0..<n])) d =
      length (filter (\<lambda>y. y = d) (map (cellval cnt) [0..<n]))"
    by (metis count_conv_size_mset mset_filter size_mset)
  also have "\<dots> = card {k. k < n \<and> cellval cnt k = d}"
    unfolding length_filter_conv_card by (rule arg_cong [where f = card]) auto
  also have "{k. k < n \<and> cellval cnt k = d} = {unat d - 1}"
    using eq d assms(1) by auto
  finally show ?thesis by simp
qed

subsection \<open>Well-formed grids\<close>

text \<open>
  What every reader of the grid relies on: the array covers the rectangle, every desktop
  stands in exactly one cell, and the other cells are empty.
\<close>

definition grid_wf :: "uint \<Rightarrow> grid \<Rightarrow> bool" where
  "grid_wf cnt g \<longleftrightarrow>
     0 < grid_width g \<and> 0 < grid_height g \<and> grid_width g * grid_height g < 2 ^ 31 \<and>
     int (length (grid_cells g)) = grid_width g * grid_height g \<and>
     (\<forall>d. 1 \<le> d \<and> d \<le> cnt \<longrightarrow> count (mset (grid_cells g)) d = 1) \<and>
     (\<forall>d \<in> set (grid_cells g). d \<le> cnt)"

lemma grid_wf_dims:
  assumes "grid_wf cnt g"
  shows "0 < grid_width g" "0 < grid_height g"
    "int (length (grid_cells g)) = grid_width g * grid_height g"
    "grid_width g * grid_height g < 2 ^ 31"
  using assms unfolding grid_wf_def by blast+

lemma grid_wf_cells:
  assumes "grid_wf cnt g"
  shows "1 \<le> d \<Longrightarrow> d \<le> cnt \<Longrightarrow> count (mset (grid_cells g)) d = 1"
    and "d \<in> set (grid_cells g) \<Longrightarrow> d \<le> cnt"
  using assms unfolding grid_wf_def by blast+

lemma grid_index_bound:
  fixes x y w h :: int
  assumes "0 \<le> x" "x < w" "0 \<le> y" "y < h"
  shows "0 \<le> y * w + x" "y * w + x < w * h"
proof -
  show "0 \<le> y * w + x" using assms by simp
  have "(y + 1) * w \<le> h * w" using assms by (intro mult_right_mono) auto
  then show "y * w + x < w * h" using assms by (simp add: algebra_simps)
qed

lemma grid_index_inj:
  fixes x y x' y' w :: int
  assumes "0 \<le> x" "x < w" "0 \<le> x'" "x' < w" "y * w + x = y' * w + x'"
  shows "x = x' \<and> y = y'"
proof -
  have "w \<noteq> 0" using assms(1,2) by simp
  then have "(y * w + x) div w = y" "(y' * w + x') div w = y'"
    using assms(1-4) by (simp_all add: div_pos_pos_trivial)
  with assms(5) have "y = y'" by metis
  with assms(5) show ?thesis by simp
qed

lemma grid_at_inside:
  assumes "grid_wf cnt g" "0 \<le> x" "x < grid_width g" "0 \<le> y" "y < grid_height g"
  shows "grid_at g (x, y) = Some (grid_cells g ! nat (y * grid_width g + x))"
    and "grid_at g (x, y) = Some d \<Longrightarrow> d \<in> set (grid_cells g)"
proof -
  note b = grid_index_bound [OF assms(2-5)]
  show *: "grid_at g (x, y) = Some (grid_cells g ! nat (y * grid_width g + x))"
    using b assms(3,5) grid_wf_dims(3) [OF assms(1)] by (simp add: grid_at_def grid_read_def Let_def)
  show "d \<in> set (grid_cells g)" if "grid_at g (x, y) = Some d"
  proof -
    have "nat (y * grid_width g + x) < length (grid_cells g)"
      using b grid_wf_dims(3) [OF assms(1)] by linarith
    then have "grid_cells g ! nat (y * grid_width g + x) \<in> set (grid_cells g)" by (rule nth_mem)
    with that * show ?thesis by simp
  qed
qed

lemma count_as_card: "count (mset xs) d = card {k. k < length xs \<and> xs ! k = d}"
  unfolding count_conv_size_mset mset_filter [symmetric] size_mset length_filter_conv_card ..

lemma count_one_unique:
  assumes "count (mset xs) d = 1" "i < length xs" "j < length xs" "xs ! i = d" "xs ! j = d"
  shows "i = j"
proof (rule ccontr)
  assume "i \<noteq> j"
  have "card {k. k < length xs \<and> xs ! k = d} = 1"
    using assms(1) unfolding count_as_card .
  moreover have "card {i, j} \<le> card {k. k < length xs \<and> xs ! k = d}"
    using assms by (intro card_mono) auto
  ultimately show False using \<open>i \<noteq> j\<close> by simp
qed

lemma grid_cell_unique:
  assumes "grid_wf cnt g" "1 \<le> d" "d \<le> cnt"
    "0 \<le> x" "x < grid_width g" "0 \<le> y" "y < grid_height g" "grid_at g (x, y) = Some d"
    "0 \<le> x'" "x' < grid_width g" "0 \<le> y'" "y' < grid_height g" "grid_at g (x', y') = Some d"
  shows "(x, y) = (x', y')"
proof -
  let ?i = "y * grid_width g + x" and ?j = "y' * grid_width g + x'"
  note bi = grid_index_bound [OF assms(4-7)] and bj = grid_index_bound [OF assms(9-12)]
  have c: "grid_cells g ! nat ?i = d" "grid_cells g ! nat ?j = d"
    using grid_at_inside(1) [OF assms(1,4-7)] grid_at_inside(1) [OF assms(1,9-12)] assms(8,13)
    by simp_all
  have l: "nat ?i < length (grid_cells g)" "nat ?j < length (grid_cells g)"
    using bi bj grid_wf_dims(3) [OF assms(1)] by linarith+
  have "nat ?i = nat ?j"
    by (rule count_one_unique [OF grid_wf_cells(1) [OF assms(1-3)] l c])
  then have "?i = ?j" using bi bj by linarith
  then show ?thesis using grid_index_inj assms(4,5,9,10) by blast
qed

lemma find_unique:
  "c \<in> set cs \<Longrightarrow> P c \<Longrightarrow> (\<And>c'. c' \<in> set cs \<Longrightarrow> P c' \<Longrightarrow> c' = c) \<Longrightarrow> find P cs = Some c"
proof (induction cs)
  case (Cons a cs)
  show ?case
  proof (cases "P a")
    case True
    have "a = c" by (rule Cons.prems(3)) (simp_all add: True)
    with True show ?thesis by simp
  next
    case False
    then have "a \<noteq> c" using Cons.prems(2) by blast
    then have "c \<in> set cs" using Cons.prems(1) by simp
    then have "find P cs = Some c"
      by (rule Cons.IH [OF _ Cons.prems(2)]) (simp add: Cons.prems(3))
    with False show ?thesis by simp
  qed
qed simp

lemma grid_read_at:
  assumes "grid_wf cnt g" "0 \<le> x" "x < grid_width g" "0 \<le> y" "y < grid_height g"
  shows "grid_read g (y * grid_width g + x) = grid_at g (x, y)"
  using grid_index_bound [OF assms(2-5)] assms(3,5) by (simp add: grid_at_def Let_def)

lemma gridCoords_at:
  assumes "grid_wf cnt g" "1 \<le> d" "d \<le> cnt"
    "0 \<le> x" "x < grid_width g" "0 \<le> y" "y < grid_height g" "grid_at g (x, y) = Some d"
  shows "gridCoords g d = (x, y)"
proof -
  let ?cs = "[(x, y). y \<leftarrow> [0..grid_height g - 1], x \<leftarrow> [0..grid_width g - 1]]"
  let ?P = "\<lambda>(x, y). grid_read g (y * grid_width g + x) = Some d"
  have "find ?P ?cs = Some (x, y)"
  proof (rule find_unique)
    show "(x, y) \<in> set ?cs" using assms(4-7) by (simp add: image_iff)
    show "?P (x, y)" using assms by (simp add: grid_read_at)
    fix c assume "c \<in> set ?cs" and P: "?P c"
    then obtain x' y' where c: "c = (x', y')" "0 \<le> x'" "x' < grid_width g" "0 \<le> y'" "y' < grid_height g"
      by auto
    with P assms(1) have "grid_at g (x', y') = Some d" by (simp add: grid_read_at)
    with c grid_cell_unique [OF assms] show "c = (x, y)" by simp
  qed
  then show ?thesis by (simp add: gridCoords_def)
qed

lemma gridCoords_inside:
  assumes "grid_wf cnt g" "1 \<le> d" "d \<le> cnt"
  obtains x y where "gridCoords g d = (x, y)" "0 \<le> x" "x < grid_width g" "0 \<le> y"
    "y < grid_height g" "grid_at g (x, y) = Some d"
proof -
  have "count (mset (grid_cells g)) d \<noteq> 0" using grid_wf_cells(1) [OF assms] by simp
  then have "d \<in> set (grid_cells g)" unfolding count_mset_0_iff by simp
  then obtain i where i: "i < length (grid_cells g)" "grid_cells g ! i = d"
    by (auto simp: in_set_conv_nth)
  let ?w = "grid_width g"
  let ?x = "int i mod ?w" and ?y = "int i div ?w"
  note w = grid_wf_dims(1,2) [OF assms(1)]
  have iw: "int i < grid_height g * ?w"
    using i(1) grid_wf_dims(3) [OF assms(1)] by (simp add: mult.commute)
  have y: "?y < grid_height g"
  proof (rule ccontr)
    assume "\<not> ?y < grid_height g"
    then have "grid_height g * ?w \<le> ?y * ?w" using w by (intro mult_right_mono) auto
    also have "\<dots> \<le> int i" using w by (simp add: minus_mod_eq_div_mult [symmetric])
    finally show False using iw by simp
  qed
  have xy: "0 \<le> ?x" "?x < ?w" "0 \<le> ?y" using w by (simp_all add: pos_imp_zdiv_nonneg_iff)
  have "?y * ?w + ?x = int i" by simp
  then have at: "grid_at g (?x, ?y) = Some d"
    using grid_at_inside(1) [OF assms(1) xy y] i(2) by simp
  from gridCoords_at [OF assms xy y at] xy y at that show ?thesis by blast
qed

subsection \<open>The rebuilt grid is well-formed\<close>

lemma nat_index_bound:
  fixes x y w h :: nat
  assumes "x < w" "y < h"
  shows "y * w + x < w * h"
proof -
  have "Suc y * w \<le> h * w" using assms by (intro mult_right_mono) auto
  then show ?thesis using assms by (simp add: algebra_simps)
qed

lemma nat_index_inj:
  fixes x y x' y' w :: nat
  assumes "x < w" "x' < w" "y * w + x = y' * w + x'"
  shows "x = x' \<and> y = y'"
  using grid_index_inj [of "int x" "int w" "int x'" "int y" "int y'"] assms
  by (metis of_nat_0_le_iff of_nat_add of_nat_eq_iff of_nat_less_iff of_nat_mult)

text \<open>Either nesting of the loops visits every index of the array once.\<close>

lemma positions_ok:
  assumes "distinct cs" "set cs = {..<w} \<times> {..<h}"
  shows "distinct (map (\<lambda>(x, y). y * w + x) cs)"
    and "set (map (\<lambda>(x, y). y * w + x) cs) = {..<w * (h::nat)}"
proof -
  let ?f = "\<lambda>(x, y). y * w + x"
  have inj: "inj_on ?f ({..<w} \<times> {..<h})"
    by (rule inj_onI) (auto dest: nat_index_inj)
  then show "distinct (map ?f cs)" using assms by (simp add: distinct_map)
  have "?f ` ({..<w} \<times> {..<h}) \<subseteq> {..<w * h}" by (auto simp: nat_index_bound)
  moreover have "card (?f ` ({..<w} \<times> {..<h})) = card {..<w * h}"
    by (simp add: card_image [OF inj] card_cartesian_product)
  ultimately have "?f ` ({..<w} \<times> {..<h}) = {..<w * h}" by (intro card_subset_eq) auto
  then show "set (map ?f cs) = {..<w * h}" using assms(2) by simp
qed

lemma fillCell_fillPos:
  assumes "x < unat width" "y < unat height" "unat width * unat height < 2 ^ 32"
  shows "fillCell cnt width y x s = fillPos cnt (y * unat width + x) s"
proof -
  have "y * unat width + x < 2 ^ 32"
    using nat_index_bound [OF assms(1,2)] assms(3) by linarith
  then have "unat (of_nat (y * unat width + x) :: uint) = y * unat width + x"
    by (rule unat_of_nat_less)
  moreover have "of_nat y * width + of_nat x = (of_nat (y * unat width + x) :: uint)"
    unfolding of_nat_add of_nat_mult by (rule arg_cong2 [where f = plus]) simp_all
  ultimately have "unat (of_nat y * width + of_nat x :: uint) = y * unat width + x" by metis
  then show ?thesis by (simp add: fillCell_def fillPos_def Let_def split: prod.split)
qed

lemma fold_fillCell:
  assumes "unat width * unat height < 2 ^ 32" "set cs \<subseteq> {..<unat width} \<times> {..<unat height}"
  shows "fold (\<lambda>(x, y). fillCell cnt width y x) cs s =
    fold (fillPos cnt) (map (\<lambda>(x, y). y * unat width + x) cs) s"
  using assms(2)
proof (induction cs arbitrary: s)
  case (Cons c cs)
  obtain x y where c: "c = (x, y)" by (cases c)
  with Cons.prems have "x < unat width" "y < unat height" by auto
  with c Cons assms(1) show ?case by (simp add: fillCell_fillPos)
qed simp

lemma fold_nested_horizontal:
  "fold (\<lambda>y. fold (\<lambda>x. F y x) xs) ys s = fold (\<lambda>(x, y). F y x) (map (\<lambda>(y, x). (x, y)) (List.product ys xs)) s"
proof -
  have "fold (\<lambda>y. fold (\<lambda>x. F y x) xs) ys s = fold (\<lambda>(y, x). F y x) (List.product ys xs) s"
    by (simp only: fold_fold_concat product_concat_map)
  then show ?thesis by (simp add: fold_map comp_def split_def)
qed

lemma fold_nested_vertical:
  "fold (\<lambda>x. fold (\<lambda>y. F y x) ys) xs s = fold (\<lambda>(x, y). F y x) (List.product xs ys) s"
  using fold_fold_concat [of "\<lambda>x y. F y x" ys xs s] by (simp add: product_concat_map)

definition grid_orders :: "orientation \<Rightarrow> nat \<Rightarrow> nat \<Rightarrow> (nat \<times> nat) list" where
  "grid_orders ori w h = (case ori of
     Horizontal \<Rightarrow> map (\<lambda>(y, x). (x, y)) (List.product [0..<h] [0..<w])
   | Vertical \<Rightarrow> List.product [0..<w] [0..<h])"

lemma grid_orders_ok:
  "distinct (grid_orders ori w h)" "set (grid_orders ori w h) = {..<w} \<times> {..<h}"
  by (auto simp: grid_orders_def distinct_map distinct_product inj_on_def image_iff
      split: orientation.split)

lemma sint_small:
  assumes "unat w < 2 ^ 31"
  shows "sint (w :: uint) = int (unat w)"
proof -
  have "int (unat w) < int (2 ^ 31)" using assms unfolding of_nat_less_iff .
  then have "uint w < 2 ^ 31" by simp
  moreover have "- (2 ^ 31) \<le> uint w" by (rule order_trans [OF _ uint_ge_0]) simp
  ultimately have "signed_take_bit 31 (uint w) = uint w" by (intro signed_take_bit_int_eq_self)
  then show ?thesis by (simp add: sint_uint)
qed

lemma grid_update_fold:
  fixes width height :: uint
  assumes "unat width * unat height < 2 ^ 31" "0 < unat width" "0 < unat height"
  shows "grid_update cnt (sint width, sint height) ori =
    \<lparr>grid_width = int (unat width), grid_height = int (unat height),
     grid_cells = snd (fold (fillPos cnt)
       (map (\<lambda>(x, y). y * unat width + x) (grid_orders ori (unat width) (unat height)))
       (1, replicate (unat width * unat height) 0))\<rparr>"
proof -
  have "unat width \<le> unat width * unat height" "unat height \<le> unat width * unat height"
    using assms(2,3) by simp_all
  then have "unat width < 2 ^ 31" "unat height < 2 ^ 31" using assms(1) by linarith+
  note s = this [THEN sint_small]
  have "unat width * unat height < 2 ^ LENGTH(32)" using assms(1) by simp
  then have l: "unat (width * height) = unat width * unat height" unfolding unat_mult_lem .
  have "fold (\<lambda>(x, y). fillCell cnt width y x) (grid_orders ori (unat width) (unat height)) c =
      fold (fillPos cnt) (map (\<lambda>(x, y). y * unat width + x) (grid_orders ori (unat width) (unat height))) c" for c
    using assms(1) by (intro fold_fillCell [where height = height]) (simp_all add: grid_orders_ok)
  moreover have "(case ori of
             Horizontal \<Rightarrow> fold (\<lambda>y. fold (\<lambda>x. fillCell cnt width y x) [0..<unat width]) [0..<unat height]
           | Vertical \<Rightarrow> fold (\<lambda>x. fold (\<lambda>y. fillCell cnt width y x) [0..<unat height]) [0..<unat width]) c =
      fold (\<lambda>(x, y). fillCell cnt width y x) (grid_orders ori (unat width) (unat height)) c" for c
    by (cases ori)
      (simp only: grid_orders_def orientation.case fold_nested_horizontal,
       simp only: grid_orders_def orientation.case fold_nested_vertical)
  ultimately show ?thesis
    using s l by (cases ori) (simp_all add: grid_update_def Let_def)
qed

lemma grid_update_wf:
  fixes width height :: uint
  assumes "0 < unat width" "0 < unat height" "unat width * unat height < 2 ^ 31"
    "unat cnt \<le> unat width * unat height"
  shows "grid_wf cnt (grid_update cnt (sint width, sint height) ori)"
proof -
  let ?n = "unat width * unat height"
  let ?ps = "map (\<lambda>(x, y). y * unat width + x) (grid_orders ori (unat width) (unat height))"
  let ?cells = "snd (fold (fillPos cnt) ?ps (1, replicate ?n 0))"
  have ps: "distinct ?ps" "set ?ps = {..<?n}"
    by (rule positions_ok [OF grid_orders_ok])+
  have c: "unat cnt < 2 ^ 32 - 1" using assms(3,4) by simp
  note cells = fillPos_fold_mset [OF c ps]
  have "count (mset ?cells) d = 1" if "1 \<le> d" "d \<le> cnt" for d
    unfolding cells(1) using assms(4) that by (rule count_cellval)
  moreover have "d \<le> cnt" if "d \<in> set ?cells" for d
  proof -
    from that have "d \<in> set_mset (mset ?cells)" by simp
    then obtain k where "d = cellval cnt k" unfolding cells(1) by auto
    then show ?thesis
    proof (cases "k < unat cnt")
      case True
      then have "unat (of_nat (Suc k) :: uint) = Suc k" using c by (intro unat_of_nat_less) auto
      with True \<open>d = cellval cnt k\<close> show ?thesis by (simp add: cellval_def word_le_nat_alt)
    qed (simp add: cellval_def)
  qed
  moreover have "0 < int (unat width)" "0 < int (unat height)"
    unfolding of_nat_0_less_iff using assms(1,2) by blast+
  moreover have "int ?n < int (2 ^ 31)" using assms(3) unfolding of_nat_less_iff .
  ultimately show ?thesis
    unfolding grid_update_fold [OF assms(3,1,2)] grid_wf_def
    using assms(1,2) cells(2) by simp
qed

section \<open>Layout: the grid always holds every desktop\<close>

lemma unat_plus_small:
  fixes a b :: uint
  assumes "unat a + unat b < 2 ^ 32"
  shows "unat (a + b) = unat a + unat b"
  using assms unat_add_lem [of a b] by simp

lemma unat_mult_small:
  fixes a b :: uint
  assumes "unat a * unat b < 2 ^ 32"
  shows "unat (a * b) = unat a * unat b"
  using assms unat_mult_lem [of a b] by simp

lemma growLayout_step:
  "growLayout ori cnt w h =
     (if w * h < cnt
      then (case ori of Horizontal \<Rightarrow> growLayout ori cnt (w + 1) h
            | Vertical \<Rightarrow> growLayout ori cnt w (h + 1))
      else Some (w, h))"
  by (rule growLayout.simps)

definition layout_fits :: "uint \<Rightarrow> uint \<Rightarrow> uint \<Rightarrow> bool" where
  "layout_fits cnt w h \<longleftrightarrow> 0 < unat w \<and> 0 < unat h \<and> unat w \<le> 32767 \<and> unat h \<le> 32767 \<and>
     unat cnt \<le> unat w * unat h"

lemma growLayout_fits:
  assumes "unat cnt \<le> 20" "0 < unat w" "0 < unat h" "unat w \<le> 32767" "unat h \<le> 32767"
  shows "\<exists>w' h'. growLayout ori cnt w h = Some (w', h') \<and> layout_fits cnt w' h'"
  using assms
proof (induction "(20 - unat w) + (20 - unat h)" arbitrary: w h rule: less_induct)
  case less
  have "unat w * unat h \<le> 32767 * 32767" using less.prems by (intro mult_le_mono) auto
  then have wh: "unat (w * h) = unat w * unat h" by (intro unat_mult_small) simp
  show ?case
  proof (cases "w * h < cnt")
    case False
    then have "unat cnt \<le> unat w * unat h" using wh by (simp add: word_less_nat_alt not_less)
    with less.prems False show ?thesis
      by (subst growLayout_step) (simp add: layout_fits_def)
  next
    case True
    then have lt: "unat w * unat h < 20" using wh less.prems(1) by (simp add: word_less_nat_alt)
    have "unat w \<le> unat w * unat h" "unat h \<le> unat w * unat h" using less.prems by simp_all
    with lt have small: "unat w < 20" "unat h < 20" by linarith+
    have up: "unat (w + 1) = unat w + 1" "unat (h + 1) = unat h + 1"
      using small by (simp_all add: unat_plus_small)
    show ?thesis
    proof (cases ori)
      case Horizontal
      have "\<exists>w' h'. growLayout ori cnt (w + 1) h = Some (w', h') \<and> layout_fits cnt w' h'"
        by (rule less.hyps) (use less.prems small up in simp_all)
      with True Horizontal show ?thesis by (subst growLayout_step) simp
    next
      case Vertical
      have "\<exists>w' h'. growLayout ori cnt w (h + 1) = Some (w', h') \<and> layout_fits cnt w' h'"
        by (rule less.hyps) (use less.prems small up in simp_all)
      with True Vertical show ?thesis by (subst growLayout_step) simp
    qed
  qed
qed

lemma ceil_div_bounds:
  fixes a b :: nat
  assumes "1 \<le> a" "1 \<le> b"
  shows "1 \<le> (a + b - 1) div b" "(a + b - 1) div b \<le> a"
proof -
  have "b div b \<le> (a + b - 1) div b" using assms by (intro div_le_mono) auto
  then show "1 \<le> (a + b - 1) div b" using assms by simp
  have "(a + b - 1) \<le> a * b"
    using assms by (cases a; cases b) (auto simp: algebra_simps)
  then have "(a + b - 1) div b \<le> (a * b) div b" by (rule div_le_mono)
  then show "(a + b - 1) div b \<le> a" using assms by simp
qed

lemma ceil_div_word:
  fixes a b :: uint
  assumes "1 \<le> unat a" "1 \<le> unat b" "unat a \<le> 20" "unat b \<le> 32767"
  shows "1 \<le> unat ((a + b - 1) div b)" "unat ((a + b - 1) div b) \<le> 20"
proof -
  have ab: "unat (a + b) = unat a + unat b" using assms by (intro unat_plus_small) simp
  then have "(1 :: uint) \<le> a + b" using assms by (simp add: word_le_nat_alt)
  then have "unat (a + b - 1) = unat a + unat b - 1"
    using unat_sub_if_size [of "a + b" 1] ab by (simp add: word_le_nat_alt)
  then have eq: "unat ((a + b - 1) div b) = (unat a + unat b - 1) div unat b"
    by (simp add: unat_div)
  show "1 \<le> unat ((a + b - 1) div b)" "unat ((a + b - 1) div b) \<le> 20"
    unfolding eq using ceil_div_bounds [OF assms(1,2)] assms(3) by linarith+
qed

lemma layoutSize_fits:
  assumes "1 \<le> unat cnt" "unat cnt \<le> 20" "unat w \<le> 32767" "unat h \<le> 32767" "w \<noteq> 0 \<or> h \<noteq> 0"
  shows "\<exists>w' h'. layoutSize ori cnt w h = Some (w', h') \<and> layout_fits cnt w' h'"
proof -
  have pos: "0 < unat v \<longleftrightarrow> v \<noteq> 0" for v :: uint by (simp add: unat_gt_0)
  consider "w = 0" "h \<noteq> 0" | "h = 0" "w \<noteq> 0" | "w \<noteq> 0" "h \<noteq> 0" using assms(5) by blast
  then show ?thesis
  proof cases
    case 1
    have "1 \<le> unat h" using 1 pos [of h] by linarith
    note c = ceil_div_word [OF assms(1) this assms(2,4)]
    from 1 have "layoutSize ori cnt w h = growLayout ori cnt ((cnt + h - 1) div h) h"
      by (simp add: layoutSize_def word_neq_0_conv)
    moreover have "\<exists>w' h'. growLayout ori cnt ((cnt + h - 1) div h) h = Some (w', h') \<and>
        layout_fits cnt w' h'"
      by (rule growLayout_fits) (use assms c \<open>1 \<le> unat h\<close> in linarith)+
    ultimately show ?thesis by simp
  next
    case 2
    have "1 \<le> unat w" using 2 pos [of w] by linarith
    note c = ceil_div_word [OF assms(1) this assms(2,3)]
    from 2 have "layoutSize ori cnt w h = growLayout ori cnt w ((cnt + w - 1) div w)"
      by (simp add: layoutSize_def word_neq_0_conv)
    moreover have "\<exists>w' h'. growLayout ori cnt w ((cnt + w - 1) div w) = Some (w', h') \<and>
        layout_fits cnt w' h'"
      by (rule growLayout_fits) (use assms c \<open>1 \<le> unat w\<close> in linarith)+
    ultimately show ?thesis by simp
  next
    case 3
    then have "layoutSize ori cnt w h = growLayout ori cnt w h" by (simp add: layoutSize_def)
    moreover have "\<exists>w' h'. growLayout ori cnt w h = Some (w', h') \<and> layout_fits cnt w' h'"
      by (rule growLayout_fits) (use assms 3 pos in auto)
    ultimately show ?thesis by simp
  qed
qed

lemma layout_fits_grid:
  assumes "layout_fits cnt w h"
  shows "grid_wf cnt (grid_update cnt (sint w, sint h) ori)"
proof (rule grid_update_wf)
  have "unat w * unat h \<le> 32767 * 32767"
    using assms by (intro mult_le_mono) (auto simp: layout_fits_def)
  then show "unat w * unat h < 2 ^ 31" by simp
qed (use assms in \<open>auto simp: layout_fits_def\<close>)

text \<open>What the root window says of the layout: at most \<open>32767\<close> rows and columns.\<close>

definition root_ok :: "root_info option \<Rightarrow> bool" where
  "root_ok info = (case info of None \<Rightarrow> True
     | Some r \<Rightarrow> 0 \<le> layout_columns r \<and> layout_columns r \<le> 32767 \<and>
                0 \<le> layout_rows r \<and> layout_rows r \<le> 32767)"

lemma unat_word_of_int_small:
  assumes "0 \<le> i" "i \<le> 32767"
  shows "unat (word_of_int i :: uint) = nat i"
proof -
  have "uint (word_of_int i :: uint) = i"
    using assms by (simp add: uint_word_of_int)
  then show ?thesis by (metis nat_uint_eq)
qed

lemma updateLayout_fits:
  assumes "root_ok (m_rootInfo m)" "1 \<le> unat (m_count m)" "unat (m_count m) \<le> 20"
  shows "\<exists>w h ori. updateLayout m =
      Some (vd_emit (LayoutChanged w h) (m\<lparr>m_grid := grid_update (m_count m) (sint w, sint h) ori\<rparr>)) \<and>
      layout_fits (m_count m) w h"
proof -
  obtain c r ori where cr: "(case m_rootInfo m of None \<Rightarrow> (0, 0, Horizontal)
        | Some r \<Rightarrow> (layout_columns r, layout_rows r, layout_orientation r)) = (c, r, ori)"
      "0 \<le> c" "c \<le> 32767" "0 \<le> r" "r \<le> 32767"
    using assms(1) by (cases "m_rootInfo m") (auto simp: root_ok_def)
  define r' where "r' = (if c = 0 \<and> r = 0 then (if m_count m = 1 then 1 else 2) else r)"
  have r': "0 \<le> r'" "r' \<le> 32767" "c \<noteq> 0 \<or> r' \<noteq> 0" using cr by (auto simp: r'_def)
  note uc = unat_word_of_int_small [OF cr(2,3)] and ur = unat_word_of_int_small [OF r'(1,2)]
  have "word_of_int c \<noteq> (0 :: uint) \<or> word_of_int r' \<noteq> (0 :: uint)"
    using r' cr(2) uc ur by (metis nat_0_iff unat_eq_zero order_antisym)
  moreover have "unat (word_of_int c :: uint) \<le> 32767" "unat (word_of_int r' :: uint) \<le> 32767"
    unfolding uc ur using cr r' by simp_all
  ultimately obtain w h where "layoutSize ori (m_count m) (word_of_int c) (word_of_int r') = Some (w, h)"
      "layout_fits (m_count m) w h"
    using layoutSize_fits [OF assms(2,3)] by blast
  moreover have "updateLayout m = setNETDesktopLayout ori (word_of_int c) (word_of_int r') m"
    unfolding updateLayout_def cr(1) r'_def by simp
  ultimately show ?thesis by (auto simp: setNETDesktopLayout_def)
qed

section \<open>The manager's invariant\<close>

text \<open>
  At most \<open>maximum\<close> desktops, the current one among them (\<open>0\<close> before the first switch), and
  the grid laid out for exactly them as soon as a count was set.
\<close>

definition vd_inv :: "manager \<Rightarrow> bool" where
  "vd_inv m \<longleftrightarrow> m_count m \<le> maximum \<and> m_current m \<le> m_count m \<and>
     (m_count m \<noteq> 0 \<longrightarrow> grid_wf (m_count m) (m_grid m))"

lemma vd_emit_sel [simp]:
  "m_current (vd_emit e m) = m_current m" "m_count (vd_emit e m) = m_count m"
  "m_grid (vd_emit e m) = m_grid m" "m_rootInfo (vd_emit e m) = m_rootInfo m"
  "m_config (vd_emit e m) = m_config m" "i18n_desktop (vd_emit e m) = i18n_desktop m"
  "m_navigationWrapsAround (vd_emit e m) = m_navigationWrapsAround m"
  "s_loadingDesktopSettings (vd_emit e m) = s_loadingDesktopSettings m"
  "vd_log (vd_emit e m) = vd_log m @ [e]"
  by (simp_all add: vd_emit_def)

lemma vd_inv_emit [simp]: "vd_inv (vd_emit e m) = vd_inv m"
  by (simp add: vd_inv_def)

lemma vd_inv_initial: "vd_inv (initial_manager i18n)"
  by (simp add: vd_inv_def initial_manager_def maximum_def)

lemma setCurrent_inv: "vd_inv m \<Longrightarrow> vd_inv (fst (setCurrent d m))"
  by (auto simp: setCurrent_def vd_inv_def Let_def not_less)

lemma setCurrent_sel [simp]:
  "m_count (fst (setCurrent d m)) = m_count m" "m_grid (fst (setCurrent d m)) = m_grid m"
  "m_rootInfo (fst (setCurrent d m)) = m_rootInfo m"
  "m_config (fst (setCurrent d m)) = m_config m"
  "s_loadingDesktopSettings (fst (setCurrent d m)) = s_loadingDesktopSettings m"
  by (auto simp: setCurrent_def Let_def)

text \<open>The fields that writing the configuration leaves alone.\<close>

definition vd_core :: "manager \<Rightarrow> uint \<times> uint \<times> bool \<times> grid \<times> root_info option \<times> bool" where
  "vd_core m = (m_current m, m_count m, m_navigationWrapsAround m, m_grid m, m_rootInfo m,
     s_loadingDesktopSettings m)"

lemma vd_core_emit [simp]: "vd_core (vd_emit e m) = vd_core m"
  by (simp add: vd_core_def)

lemma saveName_core: "vd_core (fst (saveName i mc)) = vd_core (fst mc)"
  by (cases mc) (auto simp: saveName_def Let_def)

lemma fold_saveName_core: "vd_core (fst (fold saveName is mc)) = vd_core (fst mc)"
  by (induction "is" arbitrary: mc) (simp_all add: saveName_core)

lemma save_core: "vd_core (save m) = vd_core m"
proof (cases "m_config m")
  case (Some g)
  let ?r = "fold saveName (map of_nat [1..<Suc (unat (m_count m))])
              (m, g\<lparr>cfg_number := Some (uint (m_count m))\<rparr>)"
  have "vd_core (fst ?r) = vd_core m" by (simp add: fold_saveName_core)
  then have "vd_core ((fst ?r)\<lparr>m_config := c\<rparr>) = vd_core m" for c
    by (simp add: vd_core_def)
  with Some show ?thesis by (simp add: save_def case_prod_beta Let_def)
qed (simp add: save_def)

lemma save_sel [simp]:
  "m_current (save m) = m_current m" "m_count (save m) = m_count m" "m_grid (save m) = m_grid m"
  "m_rootInfo (save m) = m_rootInfo m"
  "s_loadingDesktopSettings (save m) = s_loadingDesktopSettings m"
  using save_core [of m] by (simp_all add: vd_core_def)

lemma handleDesktopsRemoved_eq:
  assumes "1 \<le> m_count m"
  shows "handleDesktopsRemoved p m =
    (if m_current m > m_count m
     then vd_emit (DesktopsRemoved p) (vd_emit (CurrentChanged (m_current m) (m_count m))
            (m\<lparr>m_current := m_count m\<rparr>))
     else vd_emit (DesktopsRemoved p) m)"
  using assms by (auto simp: handleDesktopsRemoved_def setCurrent_def Let_def not_less)

lemma qBound_maximum: "1 \<le> qBound 1 n maximum" "qBound 1 n maximum \<le> maximum"
  using qBound_range [of 1 maximum n] by (simp_all add: maximum_def)

lemma desktop_count_bounds:
  "1 \<le> c \<Longrightarrow> c \<le> maximum \<Longrightarrow> 1 \<le> unat c \<and> unat c \<le> 20"
  by (simp add: maximum_def word_le_nat_alt)

text \<open>What \<open>setCount\<close> does when the number changes, in terms of its final state.\<close>

lemma updateRootInfo_fits:
  assumes "root_ok (m_rootInfo m)" "1 \<le> m_count m" "m_count m \<le> maximum"
  obtains m' where "updateRootInfo m = Some m'" "m_count m' = m_count m" "m_current m' = m_current m"
    "m_rootInfo m' = m_rootInfo m" "s_loadingDesktopSettings m' = s_loadingDesktopSettings m"
    "m_config m' = m_config m" "grid_wf (m_count m) (m_grid m')"
    "\<exists>w h. vd_log m' = vd_log m @ (if m_rootInfo m = None then []
        else [SetNumberOfDesktops (m_count m), SetDesktopViewport (m_count m)]) @ [LayoutChanged w h]"
proof -
  note b = desktop_count_bounds [OF assms(2,3)]
  define m1 where "m1 = (if m_rootInfo m = None then m else vd_emit (SetDesktopViewport (m_count m))
            (vd_emit (SetNumberOfDesktops (m_count m)) m))"
  have u: "updateRootInfo m = updateLayout m1"
    by (simp add: updateRootInfo_def m1_def split: option.split)
  have sel: "m_rootInfo m1 = m_rootInfo m" "m_count m1 = m_count m" "m_current m1 = m_current m"
    "s_loadingDesktopSettings m1 = s_loadingDesktopSettings m" "m_config m1 = m_config m"
    by (simp_all add: m1_def)
  have "root_ok (m_rootInfo m1)" "1 \<le> unat (m_count m1)" "unat (m_count m1) \<le> 20"
    using assms(1) b by (simp_all add: sel)
  then obtain w h ori where "updateLayout m1 =
      Some (vd_emit (LayoutChanged w h) (m1\<lparr>m_grid := grid_update (m_count m1) (sint w, sint h) ori\<rparr>))"
      "layout_fits (m_count m1) w h"
    using updateLayout_fits by blast
  note wh = this
  show ?thesis
    by (rule that [OF wh(1) [folded u]])
      (simp_all add: sel layout_fits_grid [OF wh(2) [unfolded sel]], simp_all add: m1_def)
qed

text \<open>The state in which \<open>setCount\<close> calls \<open>updateRootInfo\<close>.\<close>

definition countStored :: "uint \<Rightarrow> manager \<Rightarrow> manager" where
  "countStored c m = (if m_count m > c then handleDesktopsRemoved (m_count m) (m\<lparr>m_count := c\<rparr>)
     else m\<lparr>m_count := c\<rparr>)"

lemma setCount_changed:
  "qBound 1 n maximum \<noteq> m_count m \<Longrightarrow>
   setCount n m = map_option (\<lambda>m'. vd_emit (CountChanged (m_count m) (m_count m')) (save m'))
     (updateRootInfo (countStored (qBound 1 n maximum) m))"
  by (simp add: setCount_def countStored_def Let_def)

lemma setCount_result:
  assumes "vd_inv m" "root_ok (m_rootInfo m)"
  obtains m' where "setCount n m = Some m'" "m_count m' = qBound 1 n maximum"
    "m_current m' = min (m_current m) (qBound 1 n maximum)" "vd_inv m'"
    "m_rootInfo m' = m_rootInfo m" "s_loadingDesktopSettings m' = s_loadingDesktopSettings m"
proof -
  let ?c = "qBound 1 n maximum"
  note cb = qBound_maximum [of n]
  show thesis
  proof (cases "?c = m_count m")
    case True
    then have "m_current m = min (m_current m) ?c" using assms(1) by (simp add: vd_inv_def)
    with True assms(1) show thesis by (intro that [of m]) (auto simp: setCount_def)
  next
    case False
    define m2 where "m2 = countStored ?c m"
    have m2: "m_count m2 = ?c" "m_current m2 = min (m_current m) ?c" "m_rootInfo m2 = m_rootInfo m"
      "s_loadingDesktopSettings m2 = s_loadingDesktopSettings m"
      using cb assms(1) by (auto simp: m2_def countStored_def handleDesktopsRemoved_eq vd_inv_def min_def)
    have "root_ok (m_rootInfo m2)" "1 \<le> m_count m2" "m_count m2 \<le> maximum"
      using assms(2) cb by (simp_all add: m2)
    then obtain m3 where m3: "updateRootInfo m2 = Some m3" "m_count m3 = m_count m2"
      "m_current m3 = m_current m2" "m_rootInfo m3 = m_rootInfo m2"
      "s_loadingDesktopSettings m3 = s_loadingDesktopSettings m2" "grid_wf (m_count m2) (m_grid m3)"
      by (rule updateRootInfo_fits)
    have "setCount n m = Some (vd_emit (CountChanged (m_count m) (m_count m3)) (save m3))"
      unfolding setCount_changed [OF False] m2_def [symmetric] by (simp add: m3(1))
    then show thesis
      by (rule that) (use m2 m3 cb in \<open>simp_all add: vd_inv_def\<close>)
  qed
qed

lemma setCount_inv:
  assumes "vd_inv m" "root_ok (m_rootInfo m)"
  shows "\<exists>m'. setCount n m = Some m' \<and> vd_inv m' \<and> m_count m' = qBound 1 n maximum \<and>
     m_current m' = min (m_current m) (qBound 1 n maximum)"
  using setCount_result [OF assms, of n] by metis

text \<open>The signals of a change of the number of desktops, in their order.\<close>

lemma setCount_signals:
  assumes "vd_inv m" "m_rootInfo m = None" "m_config m = None" "setCount n m = Some m'"
    "m_count m' \<noteq> m_count m"
  shows "\<exists>w h. vd_log m' = vd_log m @
      (if m_count m' < m_count m
       then (if m_count m' < m_current m then [CurrentChanged (m_current m) (m_count m')] else []) @
            [DesktopsRemoved (m_count m)]
       else []) @ [LayoutChanged w h, CountChanged (m_count m) (m_count m')]"
proof -
  let ?c = "qBound 1 n maximum"
  note cb = qBound_maximum [of n]
  have ne: "?c \<noteq> m_count m"
    using assms(4,5) by (auto simp: setCount_def)
  define m2 where "m2 = countStored ?c m"
  have m2: "m_count m2 = ?c" "m_rootInfo m2 = None" "m_config m2 = None"
    "vd_log m2 = vd_log m @ (if ?c < m_count m
       then (if ?c < m_current m then [CurrentChanged (m_current m) ?c] else []) @
            [DesktopsRemoved (m_count m)]
       else [])"
    using cb assms(2,3) by (auto simp: m2_def countStored_def handleDesktopsRemoved_eq)
  have "root_ok (m_rootInfo m2)" "1 \<le> m_count m2" "m_count m2 \<le> maximum"
    using cb m2 by (simp_all add: root_ok_def)
  then obtain m3 where m3: "updateRootInfo m2 = Some m3" "m_count m3 = m_count m2" "m_config m3 = m_config m2"
    "\<exists>w h. vd_log m3 = vd_log m2 @ (if m_rootInfo m2 = None then []
        else [SetNumberOfDesktops (m_count m2), SetDesktopViewport (m_count m2)]) @ [LayoutChanged w h]"
    by (rule updateRootInfo_fits)
  then have "setCount n m = Some (vd_emit (CountChanged (m_count m) (m_count m3)) (save m3))"
    unfolding setCount_changed [OF ne] m2_def [symmetric] by (simp add: m3(1))
  moreover have "save m3 = m3" using m3(3) m2(3) by (simp add: save_def)
  ultimately have "m' = vd_emit (CountChanged (m_count m) ?c) m3" using assms(4) m3(2) m2(1) by simp
  with m3(2,4) m2 show ?thesis by auto
qed

section \<open>Navigation: one line of the grid\<close>

text \<open>
  A row or a column of the grid, as the navigation sees it: \<open>place c i\<close> is the position
  \<open>i\<close> of the line through \<open>c\<close>, and \<open>fwd\<close> and \<open>bwd\<close> are the two ways a loop moves along it.
  Rows and columns are interpretations, so each fact about searching a line is proved once.
\<close>

locale grid_line =
  fixes size_of :: "grid \<Rightarrow> int"
    and coord :: "int \<times> int \<Rightarrow> int"
    and place :: "int \<times> int \<Rightarrow> int \<Rightarrow> int \<times> int"
    and fwd bwd :: "grid \<Rightarrow> bool \<Rightarrow> int \<times> int \<Rightarrow> (int \<times> int) option"
  assumes coord_place: "coord (place c i) = i"
    and place_coord: "place c (coord c) = c"
    and place_place: "place (place c i) j = place c j"
    and fwd_step: "fwd g wrap c =
      (if size_of g \<le> coord c + 1 then if wrap then Some (place c 0) else None
       else Some (place c (coord c + 1)))"
    and bwd_step: "bwd g wrap c =
      (if coord c - 1 < 0 then if wrap then Some (place c (size_of g - 1)) else None
       else Some (place c (coord c - 1)))"
    and line_inside: "grid_wf n g \<Longrightarrow> 1 \<le> d \<Longrightarrow> d \<le> n \<Longrightarrow>
      0 \<le> coord (gridCoords g d) \<and> coord (gridCoords g d) < size_of g \<and>
      grid_at g (gridCoords g d) = Some d"
    and line_cells: "grid_wf n g \<Longrightarrow> 1 \<le> d \<Longrightarrow> d \<le> n \<Longrightarrow> 0 \<le> i \<Longrightarrow> i < size_of g \<Longrightarrow>
      \<exists>e. grid_at g (place (gridCoords g d) i) = Some e \<and> e \<le> n \<and>
          (1 \<le> e \<longrightarrow> gridCoords g e = place (gridCoords g d) i)"
begin

lemma fwd_wrap:
  assumes "0 \<le> i" "i < size_of g"
  shows "fwd g True (place c i) = Some (place c ((i + 1) mod size_of g))"
proof (cases "size_of g \<le> i + 1")
  case True
  then have "i + 1 = size_of g" using assms by linarith
  then show ?thesis by (simp add: fwd_step coord_place place_place)
next
  case False
  with assms show ?thesis by (simp add: fwd_step coord_place place_place)
qed

lemma bwd_wrap:
  assumes "0 \<le> i" "i < size_of g"
  shows "bwd g True (place c i) = Some (place c ((i + - 1) mod size_of g))"
proof (cases "i = 0")
  case True
  then show ?thesis using assms by (simp add: bwd_step coord_place place_place zmod_minus1)
next
  case False
  with assms show ?thesis by (simp add: bwd_step coord_place place_place)
qed

lemma loop_shift:
  assumes "\<And>i. 0 \<le> i \<Longrightarrow> i < N \<Longrightarrow> step (place c i) = Some (place c ((i + s) mod N))"
    and "0 < N" "0 \<le> i" "i < N" "0 < k"
    and "\<And>m. 0 < m \<Longrightarrow> m < k \<Longrightarrow> at (place c ((i + s * int m) mod N)) = Some 0"
    and "at (place c ((i + s * int k) mod N)) = Some e" "0 < (e :: uint)"
  shows "nav_loop at step q (place c i) = Some (Inr e)"
  using assms(3-7)
proof (induction k arbitrary: i)
  case 0
  then show ?case by simp
next
  case (Suc k)
  let ?j = "(i + s) mod N"
  have st: "step (place c i) = Some (place c ?j)" using Suc.prems assms(1) by blast
  have j: "0 \<le> ?j" "?j < N" using assms(2) by simp_all
  have shift: "(?j + s * int m) mod N = (i + s * int (Suc m)) mod N" for m
  proof -
    have "(?j + s * int m) mod N = (i + s + s * int m) mod N" by (rule mod_add_left_eq)
    also have "i + s + s * int m = i + s * int (Suc m)" by (simp add: algebra_simps)
    finally show ?thesis .
  qed
  show ?case
  proof (cases "k = 0")
    case True
    with Suc.prems st assms(8) show ?thesis by (subst nav_loop.simps) simp
  next
    case False
    then have "at (place c ?j) = Some 0" using Suc.prems(4) [of 1] by simp
    moreover have "nav_loop at step q (place c ?j) = Some (Inr e)"
    proof (rule Suc.IH [OF j])
      show "0 < k" using False by simp
      show "at (place c ((?j + s * int m) mod N)) = Some 0" if "0 < m" "m < k" for m
        unfolding shift using that by (intro Suc.prems(4)) auto
      show "at (place c ((?j + s * int k) mod N)) = Some e"
        unfolding shift by (rule Suc.prems(5))
    qed
    ultimately show ?thesis using st by (subst nav_loop.simps) simp
  qed
qed

text \<open>With wrapping, the first occupied cell in either direction is found, and comes back.\<close>

lemma shift_search:
  assumes "grid_wf n g" "1 \<le> d" "d \<le> n" "s = 1 \<or> s = - 1"
    and step: "\<And>i c. 0 \<le> i \<Longrightarrow> i < size_of g \<Longrightarrow>
      step (place c i) = Some (place c ((i + s) mod size_of g))"
    and ret: "\<And>i c. 0 \<le> i \<Longrightarrow> i < size_of g \<Longrightarrow>
      ret (place c i) = Some (place c ((i + - s) mod size_of g))"
  shows "\<exists>e. nav_loop (grid_at g) step d (gridCoords g d) = Some (Inr e) \<and> 1 \<le> e \<and> e \<le> n \<and>
    nav_loop (grid_at g) ret e (gridCoords g e) = Some (Inr d)"
proof -
  let ?N = "size_of g" and ?c = "gridCoords g d"
  let ?i = "coord ?c"
  let ?p = "\<lambda>m. (?i + s * int m) mod ?N"
  note in_line = line_inside [OF assms(1-3)]
  have N: "0 < ?N" using in_line by linarith
  have c: "?c = place ?c ?i" by (simp add: place_coord)
  have cells: "\<exists>e. grid_at g (place ?c (?p m)) = Some e \<and> e \<le> n \<and>
      (1 \<le> e \<longrightarrow> gridCoords g e = place ?c (?p m))" for m
    using N by (intro line_cells [OF assms(1-3)]) simp_all
  define occ where "occ m \<longleftrightarrow> 0 < m \<and> grid_at g (place ?c (?p m)) \<noteq> Some 0" for m
  have "(?i + s * ?N) mod ?N = ?i" using in_line by simp
  then have "grid_at g (place ?c (?p (nat ?N))) = Some d"
    using in_line N c by simp
  then have "occ (nat ?N)" using N assms(2) by (auto simp: occ_def)
  then obtain k where k: "occ k" "\<And>m. m < k \<Longrightarrow> \<not> occ m"
    by (metis LeastI not_less_Least)
  obtain e where e: "grid_at g (place ?c (?p k)) = Some e" "e \<le> n"
      "1 \<le> e \<longrightarrow> gridCoords g e = place ?c (?p k)"
    using cells by blast
  have epos: "0 < e" using k(1) e(1) by (auto simp: occ_def word_neq_0_conv)
  then have e1: "1 \<le> e" by (simp add: word_le_nat_alt word_less_nat_alt Suc_le_eq)
  have empty: "grid_at g (place ?c (?p m)) = Some 0" if "0 < m" "m < k" for m
    using k(2) [OF that(2)] that(1) by (simp add: occ_def)
  have go: "nav_loop (grid_at g) step d (place ?c ?i) = Some (Inr e)"
    by (rule loop_shift [where k = k and s = s and N = ?N])
      (use step N in_line k(1) empty e(1) epos in \<open>auto simp: occ_def\<close>)
  let ?j = "?p k"
  have jm: "(?j + - s * int m) mod ?N = ?p (k - m)" if "m \<le> k" for m
  proof -
    have "(?j + - s * int m) mod ?N = (?i + s * int k + - s * int m) mod ?N"
      by (rule mod_add_left_eq)
    also have "?i + s * int k + - s * int m = ?i + s * int (k - m)"
      using that by (simp add: algebra_simps)
    finally show ?thesis .
  qed
  have "0 < d" using assms(2) by (simp add: word_le_nat_alt word_less_nat_alt)
  then have "nav_loop (grid_at g) ret e (place ?c ?j) = Some (Inr d)"
  proof (rule loop_shift [where k = k and s = "- s" and N = ?N, rotated -1])
    show "grid_at g (place ?c ((?j + - s * int k) mod ?N)) = Some d"
      using jm [of k] in_line c by simp
    show "grid_at g (place ?c ((?j + - s * int m) mod ?N)) = Some 0" if "0 < m" "m < k" for m
      using jm [of m] empty [of "k - m"] that by simp
  qed (use ret N k(1) in \<open>auto simp: occ_def\<close>)
  moreover have "gridCoords g e = place ?c ?j" using e(3) e1 by simp
  ultimately show ?thesis using go c e1 e(2) by metis
qed

lemma fwd_then_bwd:
  assumes "grid_wf n g" "1 \<le> d" "d \<le> n"
  shows "\<exists>e. nav_loop (grid_at g) (fwd g True) d (gridCoords g d) = Some (Inr e) \<and> 1 \<le> e \<and> e \<le> n \<and>
    nav_loop (grid_at g) (bwd g True) e (gridCoords g e) = Some (Inr d)"
  by (rule shift_search [OF assms, where s = 1]) (simp_all only: fwd_wrap bwd_wrap simp_thms)

lemma bwd_then_fwd:
  assumes "grid_wf n g" "1 \<le> d" "d \<le> n"
  shows "\<exists>e. nav_loop (grid_at g) (bwd g True) d (gridCoords g d) = Some (Inr e) \<and> 1 \<le> e \<and> e \<le> n \<and>
    nav_loop (grid_at g) (fwd g True) e (gridCoords g e) = Some (Inr d)"
  by (rule shift_search [OF assms, where s = "- 1"])
    (simp_all only: fwd_wrap bwd_wrap minus_minus simp_thms)

text \<open>Without wrapping, the loop stops at the border at the latest.\<close>

lemma fwd_border:
  assumes "grid_wf n g" "1 \<le> d" "d \<le> n" "0 \<le> i" "i < size_of g"
  shows "\<exists>e. nav_loop (grid_at g) (fwd g False) d (place (gridCoords g d) i) = Some (Inr e) \<and> 1 \<le> e \<and> e \<le> n"
  using assms(4,5)
proof (induction "nat (size_of g - i)" arbitrary: i rule: less_induct)
  case less
  let ?c = "gridCoords g d"
  show ?case
  proof (cases "size_of g \<le> i + 1")
    case True
    with assms(2,3) show ?thesis
      by (subst nav_loop.simps) (simp add: fwd_step coord_place)
  next
    case False
    then obtain e where e: "grid_at g (place ?c (i + 1)) = Some e" "e \<le> n"
      using line_cells [OF assms(1-3), of "i + 1"] less.prems by auto
    have IH: "\<exists>e. nav_loop (grid_at g) (fwd g False) d (place ?c (i + 1)) = Some (Inr e) \<and> 1 \<le> e \<and> e \<le> n"
      using less.prems False by (intro less.hyps) auto
    show ?thesis
    proof (cases "0 < e")
      case True
      then have "1 \<le> e" by (simp add: word_le_nat_alt word_less_nat_alt Suc_le_eq)
      with True False e show ?thesis
        by (subst nav_loop.simps) (simp add: fwd_step coord_place place_place)
    next
      case zero: False
      with IH False e show ?thesis
        by (subst nav_loop.simps) (simp add: fwd_step coord_place place_place)
    qed
  qed
qed

lemma bwd_border:
  assumes "grid_wf n g" "1 \<le> d" "d \<le> n" "0 \<le> i" "i < size_of g"
  shows "\<exists>e. nav_loop (grid_at g) (bwd g False) d (place (gridCoords g d) i) = Some (Inr e) \<and> 1 \<le> e \<and> e \<le> n"
  using assms(4,5)
proof (induction "nat i" arbitrary: i rule: less_induct)
  case less
  let ?c = "gridCoords g d"
  show ?case
  proof (cases "i - 1 < 0")
    case True
    with assms(2,3) show ?thesis
      by (subst nav_loop.simps) (simp add: bwd_step coord_place)
  next
    case False
    then obtain e where e: "grid_at g (place ?c (i - 1)) = Some e" "e \<le> n"
      using line_cells [OF assms(1-3), of "i - 1"] less.prems by auto
    have IH: "\<exists>e. nav_loop (grid_at g) (bwd g False) d (place ?c (i - 1)) = Some (Inr e) \<and> 1 \<le> e \<and> e \<le> n"
      using less.prems False by (intro less.hyps) auto
    show ?thesis
    proof (cases "0 < e")
      case True
      then have "1 \<le> e" by (simp add: word_le_nat_alt word_less_nat_alt Suc_le_eq)
      with True False e show ?thesis
        by (subst nav_loop.simps) (simp add: bwd_step coord_place place_place)
    next
      case zero: False
      with IH False e show ?thesis
        by (subst nav_loop.simps) (simp add: bwd_step coord_place place_place)
    qed
  qed
qed

lemma fwd_total:
  assumes "grid_wf n g" "1 \<le> d" "d \<le> n"
  shows "\<exists>e. nav_loop (grid_at g) (fwd g wrap) d (gridCoords g d) = Some (Inr e) \<and> 1 \<le> e \<and> e \<le> n"
  using fwd_then_bwd [OF assms] fwd_border [OF assms, of "coord (gridCoords g d)"]
    line_inside [OF assms] by (cases wrap) (auto simp: place_coord)

lemma bwd_total:
  assumes "grid_wf n g" "1 \<le> d" "d \<le> n"
  shows "\<exists>e. nav_loop (grid_at g) (bwd g wrap) d (gridCoords g d) = Some (Inr e) \<and> 1 \<le> e \<and> e \<le> n"
  using bwd_then_fwd [OF assms] bwd_border [OF assms, of "coord (gridCoords g d)"]
    line_inside [OF assms] by (cases wrap) (auto simp: place_coord)

end

lemma grid_cell_in_line:
  assumes "grid_wf n g" "0 \<le> x" "x < grid_width g" "0 \<le> y" "y < grid_height g"
  shows "\<exists>e. grid_at g (x, y) = Some e \<and> e \<le> n \<and> (1 \<le> e \<longrightarrow> gridCoords g e = (x, y))"
proof -
  obtain e where e: "grid_at g (x, y) = Some e" "e \<in> set (grid_cells g)"
    using grid_at_inside [OF assms] by metis
  with grid_wf_cells(2) [OF assms(1)] gridCoords_at [OF assms(1) _ _ assms(2-5)]
  show ?thesis by blast
qed

interpretation row: grid_line grid_width fst "\<lambda>c i. (i, snd c)" rightStep leftStep
proof unfold_locales
  fix n g and d :: uint and i :: int
  assume wf: "grid_wf n g" "1 \<le> d" "d \<le> n"
  obtain x y where xy: "gridCoords g d = (x, y)" "0 \<le> x" "x < grid_width g" "0 \<le> y"
      "y < grid_height g" "grid_at g (x, y) = Some d" using gridCoords_inside [OF wf] .
  then show "0 \<le> fst (gridCoords g d) \<and> fst (gridCoords g d) < grid_width g \<and>
      grid_at g (gridCoords g d) = Some d" by simp
  assume "0 \<le> i" "i < grid_width g"
  from grid_cell_in_line [OF wf(1) this xy(4,5)] xy(1)
  show "\<exists>e. grid_at g (i, snd (gridCoords g d)) = Some e \<and> e \<le> n \<and>
      (1 \<le> e \<longrightarrow> gridCoords g e = (i, snd (gridCoords g d)))" by simp
qed (auto simp: rightStep_def leftStep_def Let_def)

interpretation col: grid_line grid_height snd "\<lambda>c i. (fst c, i)" belowStep aboveStep
proof unfold_locales
  fix n g and d :: uint and i :: int
  assume wf: "grid_wf n g" "1 \<le> d" "d \<le> n"
  obtain x y where xy: "gridCoords g d = (x, y)" "0 \<le> x" "x < grid_width g" "0 \<le> y"
      "y < grid_height g" "grid_at g (x, y) = Some d" using gridCoords_inside [OF wf] .
  then show "0 \<le> snd (gridCoords g d) \<and> snd (gridCoords g d) < grid_height g \<and>
      grid_at g (gridCoords g d) = Some d" by simp
  assume "0 \<le> i" "i < grid_height g"
  from grid_cell_in_line [OF wf(1) xy(2,3) this] xy(1)
  show "\<exists>e. grid_at g (fst (gridCoords g d), i) = Some e \<and> e \<le> n \<and>
      (1 \<le> e \<longrightarrow> gridCoords g e = (fst (gridCoords g d), i))" by simp
qed (auto simp: belowStep_def aboveStep_def Let_def)

section \<open>Properties of the virtual desktop manager\<close>

lemma navigate_at:
  assumes "grid_wf n (m_grid m)" "1 \<le> d" "d \<le> n"
  shows "navigate stepf m d wrap =
    nav_loop (grid_at (m_grid m)) (stepf (m_grid m) wrap) d (gridCoords (m_grid m) d)"
proof -
  have "\<not> fst (gridCoords (m_grid m) d) < 0" using row.line_inside [OF assms] by simp
  moreover have "d \<noteq> 0" using assms(2) by auto
  ultimately show ?thesis by (simp add: navigate_def Let_def)
qed

lemmas navigation = above_def below_def toLeft_def toRight_def

text \<open>The states the proofs below run on: four desktops in two rows, the first one current.\<close>

definition sample_manager :: manager where
  "sample_manager = (initial_manager (\<lambda>_. ''Desktop''))\<lparr>m_count := 4, m_current := 1,
     m_grid := grid_update 4 (2, 2) Horizontal\<rparr>"

lemma sample_grid_wf: "grid_wf 4 (grid_update 4 (2, 2) Horizontal)"
proof -
  have "layout_fits 4 2 2" by (simp add: layout_fits_def)
  then have "grid_wf 4 (grid_update 4 (sint (2 :: uint), sint (2 :: uint)) Horizontal)"
    by (rule layout_fits_grid)
  then show ?thesis by simp
qed

text \<open>C33: From every existing desktop, each of the four directional moves returns, with or
  without wrapping, and the desktop it returns exists: no loop runs forever, no read leaves the
  grid array, no assertion fails.\<close>

theorem navigation_total:
  assumes "vd_inv m" "1 \<le> d" "d \<le> m_count m"
    and "dir \<in> {DesktopAbove, DesktopBelow, DesktopLeft, DesktopRight}"
  shows "\<exists>e. direction_apply m dir d wrap = Some (Inr e) \<and> 1 \<le> e \<and> e \<le> m_count m"
proof -
  have "m_count m \<noteq> 0" using assms(2,3) by auto
  then have wf: "grid_wf (m_count m) (m_grid m)" using assms(1) by (simp add: vd_inv_def)
  show ?thesis
    using assms(4) row.fwd_total [OF wf assms(2,3)] row.bwd_total [OF wf assms(2,3)]
      col.fwd_total [OF wf assms(2,3)] col.bwd_total [OF wf assms(2,3)]
    by (auto simp: navigation navigate_at [OF wf assms(2,3)])
qed

theorem navigation_total_witness:
  "\<exists>e. direction_apply sample_manager DesktopLeft 3 False = Some (Inr e) \<and> 1 \<le> e \<and> e \<le> 4"
  using navigation_total [of sample_manager 3 DesktopLeft False] sample_grid_wf
  by (simp add: sample_manager_def initial_manager_def vd_inv_def maximum_def)

text \<open>C34: With wrapping, moving right and then left comes back to the desktop it started
  from, as do left and right, down and up, up and down, whatever cells of the grid are empty.\<close>

theorem navigation_inverse:
  assumes "vd_inv m" "1 \<le> d" "d \<le> m_count m"
    and "(dir, dir') \<in> {(DesktopRight, DesktopLeft), (DesktopLeft, DesktopRight),
      (DesktopBelow, DesktopAbove), (DesktopAbove, DesktopBelow)}"
  shows "\<exists>e. direction_apply m dir d True = Some (Inr e) \<and>
    direction_apply m dir' e True = Some (Inr d)"
proof -
  have "m_count m \<noteq> 0" using assms(2,3) by auto
  then have wf: "grid_wf (m_count m) (m_grid m)" using assms(1) by (simp add: vd_inv_def)
  have there: "\<exists>e. navigate f m d True = Some (Inr e) \<and> navigate b m e True = Some (Inr d)"
    if "\<exists>e. nav_loop (grid_at (m_grid m)) (f (m_grid m) True) d (gridCoords (m_grid m) d) = Some (Inr e) \<and>
      1 \<le> e \<and> e \<le> m_count m \<and>
      nav_loop (grid_at (m_grid m)) (b (m_grid m) True) e (gridCoords (m_grid m) e) = Some (Inr d)" for f b
    using that navigate_at [OF wf assms(2,3)] navigate_at [OF wf] by metis
  show ?thesis
    using assms(4) there [of rightStep leftStep, OF row.fwd_then_bwd [OF wf assms(2,3)]]
      there [of leftStep rightStep, OF row.bwd_then_fwd [OF wf assms(2,3)]]
      there [of belowStep aboveStep, OF col.fwd_then_bwd [OF wf assms(2,3)]]
      there [of aboveStep belowStep, OF col.bwd_then_fwd [OF wf assms(2,3)]]
    by (auto simp: navigation)
qed

theorem navigation_inverse_witness:
  "\<exists>e. direction_apply sample_manager DesktopRight 2 True = Some (Inr e) \<and>
    direction_apply sample_manager DesktopLeft e True = Some (Inr 2)"
  using navigation_inverse [of sample_manager 2 DesktopRight DesktopLeft] sample_grid_wf
  by (simp add: sample_manager_def initial_manager_def vd_inv_def maximum_def)

text \<open>Laying out up to twenty desktops in a grid with room for them gives a grid in which
  \<open>gridCoords\<close> finds every desktop inside the grid and \<open>at\<close> of these coordinates is the desktop
  again; coordinates of the other cells read as no desktop.\<close>

lemma grid_layout_roundtrip:
  assumes "layout_fits cnt w h" "1 \<le> d" "d \<le> cnt" "g = grid_update cnt (sint w, sint h) ori"
  shows "grid_at g (gridCoords g d) = Some d \<and>
    (\<forall>x\<in>{0..<grid_width g}. \<forall>y\<in>{0..<grid_height g}.
       \<exists>e. grid_at g (x, y) = Some e \<and> e \<le> cnt \<and> (1 \<le> e \<longrightarrow> gridCoords g e = (x, y)))"
proof -
  have wf: "grid_wf cnt g" unfolding assms(4) by (rule layout_fits_grid [OF assms(1)])
  with row.line_inside [OF wf assms(2,3)] grid_cell_in_line [OF wf] show ?thesis by auto
qed

lemma grid_layout_roundtrip_witness:
  "grid_at (grid_update 4 (2, 3) Vertical) (gridCoords (grid_update 4 (2, 3) Vertical) 4) = Some 4"
proof -
  have "layout_fits 4 2 3" by (simp add: layout_fits_def)
  then show ?thesis using grid_layout_roundtrip [of 4 2 3 4 _ Vertical] by simp
qed


text \<open>C35: Asked for any number of desktops, \<open>setCount\<close> returns with the number clamped to
  1..20, the current desktop clamped to it, and a grid laid out for exactly this number: the
  layout loop ends for every root window layout of up to 32767 rows and columns.\<close>

theorem setCount_correct:
  assumes "vd_inv m" "root_ok (m_rootInfo m)"
  shows "\<exists>m'. setCount n m = Some m' \<and> vd_inv m' \<and> m_count m' = max 1 (min 20 n) \<and>
     m_current m' = min (m_current m) (max 1 (min 20 n))"
  using setCount_inv [OF assms, of n] by (simp add: qBound_def maximum_def)

theorem setCount_correct_witness:
  "\<exists>m'. setCount 2 sample_manager = Some m' \<and> vd_inv m' \<and> m_count m' = 2 \<and> m_current m' = 1"
  using setCount_correct [of sample_manager 2] sample_grid_wf
  by (simp add: sample_manager_def initial_manager_def vd_inv_def maximum_def root_ok_def
    min_def max_def)

text \<open>The signals of a change of the number of desktops come in one order: when desktops
  vanish, first the switch away from a vanished current desktop, then \<open>desktopsRemoved\<close> with the
  old number; then the new layout; \<open>countChanged\<close> last, when count, current and grid are new.\<close>

lemma setCount_signal_order:
  assumes "vd_inv m" "m_rootInfo m = None" "m_config m = None" "setCount n m = Some m'"
    "m_count m' \<noteq> m_count m"
  shows "\<exists>w h. vd_log m' = vd_log m @
      (if m_count m' < m_count m
       then (if m_count m' < m_current m then [CurrentChanged (m_current m) (m_count m')] else []) @
            [DesktopsRemoved (m_count m)]
       else []) @ [LayoutChanged w h, CountChanged (m_count m) (m_count m')]"
  using assms by (rule setCount_signals)

lemma setCount_signal_order_witness:
  "\<exists>m' w h. setCount 2 (sample_manager\<lparr>m_current := 3\<rparr>) = Some m' \<and>
     vd_log m' = [CurrentChanged 3 2, DesktopsRemoved 4, LayoutChanged w h, CountChanged 4 2]"
proof -
  let ?m = "sample_manager\<lparr>m_current := 3\<rparr>"
  have m: "vd_inv ?m" "root_ok (m_rootInfo ?m)" "m_rootInfo ?m = None" "m_config ?m = None"
      "m_count ?m = 4" "m_current ?m = 3" "vd_log ?m = []"
    using sample_grid_wf
    by (simp_all add: sample_manager_def initial_manager_def vd_inv_def maximum_def root_ok_def)
  have two: "qBound 1 2 maximum = (2 :: uint)" by (simp add: qBound_def maximum_def min_def max_def)
  obtain m' where m': "setCount 2 ?m = Some m'" "m_count m' = 2"
    using setCount_inv [OF m(1,2), of 2] two by metis
  then show ?thesis
    using setCount_signal_order [OF m(1,3,4) m'(1)] m(5-7) by auto
qed

text \<open>The name that is in effect for a desktop, and reading it back from the configuration.\<close>

definition effective_name :: "manager \<Rightarrow> uint \<Rightarrow> string" where
  "effective_name m i = (if vd_name m i = [] then defaultName m i else vd_name m i)"

definition stored_name :: "manager \<Rightarrow> vd_config \<Rightarrow> uint \<Rightarrow> string" where
  "stored_name m grp i = (case cfg_names grp i of None \<Rightarrow> defaultName m i | Some s \<Rightarrow> s)"

lemma effective_name_emit [simp]:
  "effective_name (vd_emit e m) = effective_name m" "stored_name (vd_emit e m) = stored_name m"
  by (simp_all add: fun_eq_iff effective_name_def stored_name_def vd_name_def defaultName_def cong: option.case_cong)

lemma saveName_names:
  assumes "saveName i (m, grp) = (m', grp')"
  shows "stored_name m grp' i = effective_name m i" "j \<noteq> i \<Longrightarrow> cfg_names grp' j = cfg_names grp j"
    "cfg_number grp' = cfg_number grp" "effective_name m' = effective_name m"
    "stored_name m' = stored_name m"
  using assms
  by (auto simp: saveName_def Let_def stored_name_def effective_name_def split: if_splits option.splits)

lemma fold_saveName_names:
  assumes "fold saveName is (m, grp) = (m', grp')" "distinct is"
  shows "(\<forall>i\<in>set is. stored_name m grp' i = effective_name m i) \<and> cfg_number grp' = cfg_number grp \<and>
    (\<forall>i. i \<notin> set is \<longrightarrow> cfg_names grp' i = cfg_names grp i)"
  using assms
proof (induction "is" arbitrary: m grp)
  case (Cons i "is")
  obtain m1 grp1 where s: "saveName i (m, grp) = (m1, grp1)" by fastforce
  note n = saveName_names [OF s]
  have IH: "(\<forall>i\<in>set is. stored_name m1 grp' i = effective_name m1 i) \<and> cfg_number grp' = cfg_number grp1 \<and>
    (\<forall>i. i \<notin> set is \<longrightarrow> cfg_names grp' i = cfg_names grp1 i)"
    using Cons.prems s by (intro Cons.IH) auto
  then have "stored_name m grp' i = stored_name m grp1 i"
    using Cons.prems(2) by (simp add: stored_name_def)
  with IH n Cons.prems(2) show ?case by auto
qed simp

lemma desktop_ids:
  assumes "n < 2 ^ 32"
  shows "distinct (map of_nat [1..<Suc n] :: uint list)"
    "unat i \<le> n \<Longrightarrow> 1 \<le> i \<Longrightarrow> i \<in> set (map of_nat [1..<Suc n] :: uint list)"
proof -
  have "inj_on (of_nat :: nat \<Rightarrow> uint) {1..<Suc n}"
    by (rule inj_on_inverseI [where g = unat]) (use assms in \<open>auto intro: unat_of_nat_less\<close>)
  then show "distinct (map of_nat [1..<Suc n] :: uint list)"
    by (simp only: distinct_map distinct_upt set_upt simp_thms)
  assume "unat i \<le> n" "1 \<le> i"
  then have "unat i \<in> {1..<Suc n}" "of_nat (unat i) = i" by (simp_all add: word_le_nat_alt)
  then show "i \<in> set (map of_nat [1..<Suc n] :: uint list)" by (metis image_eqI set_map set_upt)
qed

text \<open>What \<open>save\<close> writes is what \<open>load\<close> reads back: for every desktop the stored group gives
  the name in effect, default names included although they are not stored, and the number of
  desktops.\<close>

lemma save_load_roundtrip:
  assumes "m_config m = Some grp" "\<not> s_loadingDesktopSettings m"
    "1 \<le> i" "i \<le> m_count m" "i18n_desktop m' = i18n_desktop m"
  shows "\<exists>grp'. m_config (save m) = Some grp' \<and> cfg_number grp' = Some (uint (m_count m)) \<and>
    loadName grp' (uint i) m' = vd_emit (SetDesktopName i (effective_name m i)) m'"
proof -
  let ?is = "map of_nat [1..<Suc (unat (m_count m))] :: uint list"
  let ?g0 = "grp\<lparr>cfg_number := Some (uint (m_count m))\<rparr>"
  obtain m1 g1 where f: "fold saveName ?is (m, ?g0) = (m1, g1)" by fastforce
  have "unat (m_count m) < 2 ^ 32" using unsigned_less [of "m_count m", where ?'a = nat] by simp
  note ids = desktop_ids [OF this]
  have "i \<in> set ?is" using assms(3,4) by (intro ids(2)) (simp_all add: word_le_nat_alt)
  with fold_saveName_names [OF f ids(1)]
  have "stored_name m g1 i = effective_name m i" "cfg_number g1 = Some (uint (m_count m))" by auto
  moreover have "m_config (save m) = Some (g1\<lparr>cfg_synced := True\<rparr>)"
    using assms(1,2) f by (simp add: save_def)
  ultimately show ?thesis
    using assms(5) by (simp add: loadName_def stored_name_def defaultName_def cong: option.case_cong)
qed

lemma save_load_roundtrip_witness:
  "\<exists>grp'. m_config (save (sample_manager\<lparr>m_config := Some
       \<lparr>cfg_number = None, cfg_rows = None, cfg_names = Map.empty, cfg_synced = False\<rparr>\<rparr>)) = Some grp' \<and>
    cfg_number grp' = Some 4 \<and>
    loadName grp' 3 sample_manager = vd_emit (SetDesktopName 3 ''Desktop'') sample_manager"
  using save_load_roundtrip [of "sample_manager\<lparr>m_config := Some
       \<lparr>cfg_number = None, cfg_rows = None, cfg_names = Map.empty, cfg_synced = False\<rparr>\<rparr>" _ 3 sample_manager]
  by (simp add: sample_manager_def initial_manager_def effective_name_def vd_name_def defaultName_def)

text \<open>Without a configuration \<open>load\<close> only raises the flag that it is loading and never lowers
  it; from then on \<open>save\<close> writes nothing, whatever configuration is set later.\<close>

lemma load_without_config_blocks_save:
  assumes "m_config m = None"
  shows "\<exists>m'. load m = Some m' \<and> (\<forall>cfg. save (setConfig cfg m') = setConfig cfg m')"
  using assms by (simp add: load_def save_def setConfig_def)

lemma load_without_config_blocks_save_witness:
  "\<exists>m'. load sample_manager = Some m' \<and> (\<forall>cfg. save (setConfig cfg m') = setConfig cfg m')"
  by (rule load_without_config_blocks_save) (simp add: sample_manager_def initial_manager_def)

lemma growLayout_stuck:
  assumes "growLayout Horizontal cnt w 0 = Some r"
  shows "cnt = 0"
proof -
  have "Horizontal = Horizontal \<longrightarrow> (0 :: uint) = 0 \<longrightarrow> cnt = 0"
    by (rule growLayout.raw_induct [where P = "\<lambda>ori cnt w h r. ori = Horizontal \<longrightarrow> h = 0 \<longrightarrow> cnt = 0",
        OF _ assms])
      (auto split: if_splits simp: word_gt_0)
  then show ?thesis by simp
qed

text \<open>The layout computation does not return when the root window reports a negative number
  of columns and no rows: read as \<open>uint\<close> the columns wrap the ceiling division to zero rows, and
  the loop that widens the grid multiplies by zero forever.\<close>

lemma layout_overflow_hangs:
  assumes "m_rootInfo m = Some r" "layout_columns r = - 1" "layout_rows r = 0"
    "layout_orientation r = Horizontal" "m_count m = 2"
  shows "updateLayout m = None"
proof -
  have "growLayout Horizontal 2 (- 1) 0 = None" using growLayout_stuck [of 2 "- 1"]
    by (cases "growLayout Horizontal 2 (- 1) 0") auto
  then show ?thesis
    using assms by (simp add: updateLayout_def setNETDesktopLayout_def layoutSize_def)
qed

lemma layout_overflow_hangs_witness:
  "updateLayout (sample_manager\<lparr>m_count := 2, m_rootInfo := Some \<lparr>layout_columns = - 1,
     layout_rows = 0, layout_orientation = Horizontal, desktop_name = (\<lambda>_. [])\<rparr>\<rparr>) = None"
  by (rule layout_overflow_hangs [where r = "\<lparr>layout_columns = - 1,
     layout_rows = 0, layout_orientation = Horizontal, desktop_name = (\<lambda>_. [])\<rparr>"]) simp_all

end
