(* ===== verification/Clients.thy ===== *)
theory Clients
  imports Prelude
begin

text \<open>
  The windows the window manager keeps: what \<open>Toplevel\<close>, \<open>AbstractClient\<close> and the X11 \<open>Client\<close>
  store about a window and the questions the other components ask of it
  (\<^verbatim>\<open>toplevel.h\<close>, \<^verbatim>\<open>abstract_client.cpp\<close>, \<^verbatim>\<open>client.h\<close>, \<^verbatim>\<open>client.cpp\<close>, the enumerations of
  \<^verbatim>\<open>utils.h\<close>), and the part of \<open>Workspace\<close> these questions read.

  A pointer to a window is a number and the store \<open>cl\<close> maps it to the window's fields, so that
  an operation that changes a shared window is seen through every list that holds the pointer.
  The session is an X11 one: a managed window is a \<open>Client\<close>, and \<open>qobject_cast\<close> tells it from
  a \<open>Deleted\<close> by \<open>kind\<close>.  What the X server and the rules answer about a window are fields.
\<close>

section \<open>Enumerations\<close>

datatype window_type =
    NET_Unknown | NET_Normal | NET_Desktop | NET_Dock | NET_Toolbar | NET_Menu | NET_Dialog
  | NET_Override | NET_TopMenu | NET_Utility | NET_Splash | NET_DropdownMenu | NET_PopupMenu
  | NET_Tooltip | NET_Notification | NET_ComboBox | NET_DNDIcon | NET_OnScreenDisplay

datatype layer =
    UnknownLayer | DesktopLayer | BelowLayer | NormalLayer | DockLayer | AboveLayer
  | NotificationLayer | ActiveLayer | OnScreenDisplayLayer | UnmanagedLayer

datatype ShadeMode = ShadeNone | ShadeNormal | ShadeHover | ShadeActivated

datatype window_kind = AClient | ADeleted

text \<open>The numbers of the enumerators; layers are compared by them.\<close>

primrec layer_num :: "layer \<Rightarrow> int" where
  "layer_num UnknownLayer = - 1"
| "layer_num DesktopLayer = 0"
| "layer_num BelowLayer = 1"
| "layer_num NormalLayer = 2"
| "layer_num DockLayer = 3"
| "layer_num AboveLayer = 4"
| "layer_num NotificationLayer = 5"
| "layer_num ActiveLayer = 6"
| "layer_num OnScreenDisplayLayer = 7"
| "layer_num UnmanagedLayer = 8"

lemma layer_num_inject [simp]: "layer_num a = layer_num b \<longleftrightarrow> a = b"
  by (cases a; cases b) simp_all

instantiation layer :: linorder
begin

definition less_eq_layer :: "layer \<Rightarrow> layer \<Rightarrow> bool" where
  "a \<le> b \<longleftrightarrow> layer_num a \<le> layer_num b"

definition less_layer :: "layer \<Rightarrow> layer \<Rightarrow> bool" where
  "a < b \<longleftrightarrow> layer_num a < layer_num b"

instance
  by standard (auto simp: less_eq_layer_def less_layer_def)

end

text \<open>The loop \<open>for (Layer lay = FirstLayer; lay < NumLayers; ++lay)\<close> runs over these.\<close>

definition layers :: "layer list" where
  "layers = [DesktopLayer, BelowLayer, NormalLayer, DockLayer, AboveLayer, NotificationLayer,
     ActiveLayer, OnScreenDisplayLayer, UnmanagedLayer]"

lemma layers_sorted: "sorted layers" "distinct layers"
  by (simp_all add: layers_def less_eq_layer_def)

lemma layers_all: "l \<in> set layers \<longleftrightarrow> l \<noteq> UnknownLayer"
  by (cases l) (simp_all add: layers_def)

section \<open>Windows\<close>

type_synonym win = nat
type_synonym xid = nat

text \<open>\<open>XCB_WINDOW_NONE\<close>, and \<open>NET::OnAllDesktops\<close> (\<open>-1\<close>).\<close>

definition WINDOW_NONE :: xid where
  "WINDOW_NONE = 0"

definition OnAllDesktops :: int where
  "OnAllDesktops = - 1"

record rect =
  rx1 :: int
  ry1 :: int
  rx2 :: int
  ry2 :: int

record toplevel =
  kind :: window_kind
  window :: xid
  info_type :: window_type
  geom :: rect
  t_screen :: int
  m_desktop :: int
  activities :: "string list"
  resource_class :: string
  t_pid :: int
  hostName :: string
  wmClientLeader :: xid
  windowRole :: string
  m_layer :: layer

record client = toplevel +
  m_minimized :: bool
  m_shade_mode :: ShadeMode
  is_hidden :: bool
  hidden_preview :: bool
  tab_group :: "nat option"
  m_keepAbove :: bool
  m_keepBelow :: bool
  m_modal :: bool
  m_demandsAttention :: bool
  m_active :: bool
  is_fullscreen :: bool
  wants_input :: bool
  user_time_support :: bool
  m_transientForId :: xid
  m_originalTransientForId :: xid
  m_transientFor :: "win option"
  m_transients :: "win list"
  in_group :: "nat option"
  groupLeader :: xid
  sm_stacking_order :: int
  placement_hint :: bool
  inputId :: xid
  frameId :: xid
  checkType :: "window_type \<Rightarrow> window_type"
  checkKeepAbove :: "bool \<Rightarrow> bool"
  checkKeepBelow :: "bool \<Rightarrow> bool"
  checkFSP :: "int \<Rightarrow> int"
  m_userTime :: uint

text \<open>A window group (\<^verbatim>\<open>group.h\<close>).\<close>

record win_group =
  gr_members :: "win list"
  leader_wid :: xid
  leader_client :: "win option"
  refcount :: int
  group_time :: uint

text \<open>
  The part of the workspace the components below share: the store of windows, the groups and
  the current tab of each tab group, the client lists and stacking orders, the counters that
  block restacking, and what other singletons report (desktop, activity, screens, options).
  \<open>calls\<close> logs the calls that leave the modelled components.
\<close>

datatype call =
    StackingOrderChanged
  | RestackWindows "xid list"
  | SetClientList "xid list"
  | SetClientListStacking "xid list"
  | CheckInputWindowStacking
  | DemandAttention win bool
  | CancelAutoRaise win
  | UpdateMouseGrab win
  | SetTransientForProperty win xid
  | SetKeepAboveState win bool
  | SetKeepBelowState win bool
  | UpdateWindowRules win string
  | KeepAboveChanged win bool
  | KeepBelowChanged win bool
  | UpdateTabGroupStates win
  | SyntheticConfigureNotify win
  | GroupAdded nat
  | UpdateClientLayer win
  | ResetUpdateToolWindowsTimer
  | ActivateClient win

record world =
  cl :: "win \<Rightarrow> client"
  grp :: "nat \<Rightarrow> win_group"
  groups :: "nat list"
  tab_current :: "nat \<Rightarrow> win"
  clients :: "win list"
  desktops :: "win list"
  unmanaged :: "win list"
  root_window :: xid
  stacking_order :: "win list"
  unconstrained_stacking_order :: "win list"
  x_stacking :: "win list"
  x_stacking_dirty :: bool
  force_restacking :: bool
  block_stacking_updates :: int
  blocked_propagating_new_clients :: bool
  active_client :: "win option"
  most_recently_raised :: "win option"
  should_get_focus :: "win list"
  showing_desktop :: bool
  current_desktop :: uint
  current_activity :: "string option"
  current_screen :: int
  screen_geometry :: "int \<Rightarrow> rect"
  separate_screen_focus :: bool
  calls :: "call list"

definition upd_cl :: "win \<Rightarrow> (client \<Rightarrow> client) \<Rightarrow> 'a world_scheme \<Rightarrow> 'a world_scheme" where
  "upd_cl c f w = w\<lparr>cl := (cl w)(c := f (cl w c))\<rparr>"

definition do_call :: "call \<Rightarrow> 'a world_scheme \<Rightarrow> 'a world_scheme" where
  "do_call e w = w\<lparr>calls := calls w @ [e]\<rparr>"

section \<open>Questions about one window\<close>

definition isClient :: "'a world_scheme \<Rightarrow> win \<Rightarrow> bool" where
  "isClient w c = (kind (cl w c) = AClient)"

definition isTransient :: "'a world_scheme \<Rightarrow> win \<Rightarrow> bool" where
  "isTransient w c = (m_transientForId (cl w c) \<noteq> WINDOW_NONE)"

definition groupTransient :: "'a world_scheme \<Rightarrow> win \<Rightarrow> bool" where
  "groupTransient w c = (m_transientForId (cl w c) = root_window w)"

definition wasOriginallyGroupTransient :: "'a world_scheme \<Rightarrow> win \<Rightarrow> bool" where
  "wasOriginallyGroupTransient w c = (m_originalTransientForId (cl w c) = root_window w)"

text \<open>\<open>Client::windowType\<close> asks the rules and guesses a type for untyped windows.\<close>

definition windowType :: "'a world_scheme \<Rightarrow> win \<Rightarrow> window_type" where
  "windowType w c =
     (if \<not> isClient w c then info_type (cl w c)
      else let wt = checkType (cl w c) (info_type (cl w c)) in
        if wt = NET_Unknown then (if isTransient w c then NET_Dialog else NET_Normal) else wt)"

definition isDesktop :: "'a world_scheme \<Rightarrow> win \<Rightarrow> bool" where
  "isDesktop w c = (windowType w c = NET_Desktop)"

definition isDock :: "'a world_scheme \<Rightarrow> win \<Rightarrow> bool" where
  "isDock w c = (windowType w c = NET_Dock)"

definition isToolbar :: "'a world_scheme \<Rightarrow> win \<Rightarrow> bool" where
  "isToolbar w c = (windowType w c = NET_Toolbar)"

definition isSplash :: "'a world_scheme \<Rightarrow> win \<Rightarrow> bool" where
  "isSplash w c = (windowType w c = NET_Splash)"

definition isUtility :: "'a world_scheme \<Rightarrow> win \<Rightarrow> bool" where
  "isUtility w c = (windowType w c = NET_Utility)"

definition isDialog :: "'a world_scheme \<Rightarrow> win \<Rightarrow> bool" where
  "isDialog w c = (windowType w c = NET_Dialog)"

definition isNormalWindow :: "'a world_scheme \<Rightarrow> win \<Rightarrow> bool" where
  "isNormalWindow w c = (windowType w c = NET_Normal)"

definition isNotification :: "'a world_scheme \<Rightarrow> win \<Rightarrow> bool" where
  "isNotification w c = (windowType w c = NET_Notification)"

definition isOnScreenDisplay :: "'a world_scheme \<Rightarrow> win \<Rightarrow> bool" where
  "isOnScreenDisplay w c = (windowType w c = NET_OnScreenDisplay)"

definition isOnAllDesktops :: "'a world_scheme \<Rightarrow> win \<Rightarrow> bool" where
  "isOnAllDesktops w c = (m_desktop (cl w c) = OnAllDesktops)"

definition isOnDesktop :: "'a world_scheme \<Rightarrow> win \<Rightarrow> int \<Rightarrow> bool" where
  "isOnDesktop w c d = (m_desktop (cl w c) = d \<or> isOnAllDesktops w c)"

text \<open>The parameter is an \<open>int\<close>: the current desktop, a \<open>uint\<close>, is converted.\<close>

definition isOnCurrentDesktop :: "'a world_scheme \<Rightarrow> win \<Rightarrow> bool" where
  "isOnCurrentDesktop w c = isOnDesktop w c (sint (current_desktop w))"

definition isOnAllActivities :: "'a world_scheme \<Rightarrow> win \<Rightarrow> bool" where
  "isOnAllActivities w c = (activities (cl w c) = [])"

definition isOnActivity :: "'a world_scheme \<Rightarrow> win \<Rightarrow> string \<Rightarrow> bool" where
  "isOnActivity w c a = (activities (cl w c) = [] \<or> a \<in> set (activities (cl w c)))"

text \<open>\<open>None\<close>: there is no activities singleton.\<close>

definition isOnCurrentActivity :: "'a world_scheme \<Rightarrow> win \<Rightarrow> bool" where
  "isOnCurrentActivity w c =
     (case current_activity w of None \<Rightarrow> True | Some a \<Rightarrow> isOnActivity w c a)"

definition isMinimized :: "'a world_scheme \<Rightarrow> win \<Rightarrow> bool" where
  "isMinimized w c = m_minimized (cl w c)"

definition isShade :: "'a world_scheme \<Rightarrow> win \<Rightarrow> bool" where
  "isShade w c = (m_shade_mode (cl w c) = ShadeNormal)"

definition isShown :: "'a world_scheme \<Rightarrow> win \<Rightarrow> bool \<Rightarrow> bool" where
  "isShown w c shaded_is_shown =
     (\<not> isMinimized w c \<and> (\<not> isShade w c \<or> shaded_is_shown) \<and> \<not> is_hidden (cl w c) \<and>
      (case tab_group (cl w c) of None \<Rightarrow> True | Some t \<Rightarrow> tab_current w t = c))"

definition wantsTabFocus :: "'a world_scheme \<Rightarrow> win \<Rightarrow> bool" where
  "wantsTabFocus w c = ((isNormalWindow w c \<or> isDialog w c) \<and> wants_input (cl w c))"

definition isSpecialWindow :: "'a world_scheme \<Rightarrow> win \<Rightarrow> bool" where
  "isSpecialWindow w c =
     (isDesktop w c \<or> isDock w c \<or> isSplash w c \<or> isToolbar w c \<or> isNotification w c \<or>
      isOnScreenDisplay w c)"

text \<open>\<open>QRect::intersects\<close>: a null rectangle meets nothing, a side of negative length is swapped.\<close>

definition null_rect :: "rect \<Rightarrow> bool" where
  "null_rect a = (rx2 a = rx1 a - 1 \<and> ry2 a = ry1 a - 1)"

definition side :: "int \<Rightarrow> int \<Rightarrow> int \<times> int" where
  "side p q = (if q - p + 1 < 0 then (q, p) else (p, q))"

definition intersects :: "rect \<Rightarrow> rect \<Rightarrow> bool" where
  "intersects a b =
     (let (l1, r1) = side (rx1 a) (rx2 a); (l2, r2) = side (rx1 b) (rx2 b);
          (t1, b1) = side (ry1 a) (ry2 a); (t2, b2) = side (ry1 b) (ry2 b)
      in \<not> null_rect a \<and> \<not> null_rect b \<and> l1 \<le> r2 \<and> l2 \<le> r1 \<and> t1 \<le> b2 \<and> t2 \<le> b1)"

definition isOnScreen :: "'a world_scheme \<Rightarrow> win \<Rightarrow> int \<Rightarrow> bool" where
  "isOnScreen w c s = intersects (screen_geometry w s) (geom (cl w c))"

section \<open>Layers\<close>

definition mostRecentlyActivatedClient :: "'a world_scheme \<Rightarrow> win option" where
  "mostRecentlyActivatedClient w =
     (if should_get_focus w \<noteq> [] then Some (last (should_get_focus w)) else active_client w)"

text \<open>The members of the window's group; a managed window is always in one.\<close>

definition group_members :: "'a world_scheme \<Rightarrow> win \<Rightarrow> win list" where
  "group_members w c =
     (case in_group (cl w c) of None \<Rightarrow> [] | Some g \<Rightarrow> gr_members (grp w g))"

definition belongsToDesktop :: "'a world_scheme \<Rightarrow> win \<Rightarrow> bool" where
  "belongsToDesktop w c = (\<exists>m\<in>set (group_members w c). isDesktop w m)"

definition isActiveFullScreen :: "'a world_scheme \<Rightarrow> win \<Rightarrow> bool" where
  "isActiveFullScreen w c =
     (is_fullscreen (cl w c) \<and>
      (case mostRecentlyActivatedClient w of
         None \<Rightarrow> False
       | Some ac \<Rightarrow>
           ac = c \<or> t_screen (cl w ac) \<noteq> t_screen (cl w c) \<or>
           isClient w ac \<and> in_group (cl w c) = in_group (cl w ac)))"

definition layerForDock :: "'a world_scheme \<Rightarrow> win \<Rightarrow> layer" where
  "layerForDock w c =
     (if m_keepBelow (cl w c) then NormalLayer
      else if m_keepAbove (cl w c) then AboveLayer
      else DockLayer)"

definition belongsToLayer :: "'a world_scheme \<Rightarrow> win \<Rightarrow> layer" where
  "belongsToLayer w c =
     (if isDesktop w c then (if showing_desktop w then AboveLayer else DesktopLayer)
      else if isSplash w c then NormalLayer
      else if isDock w c then
        (if showing_desktop w then NotificationLayer else layerForDock w c)
      else if isOnScreenDisplay w c then OnScreenDisplayLayer
      else if isNotification w c then NotificationLayer
      else if showing_desktop w \<and> belongsToDesktop w c then AboveLayer
      else if m_keepBelow (cl w c) then BelowLayer
      else if isActiveFullScreen w c then ActiveLayer
      else if m_keepAbove (cl w c) then AboveLayer
      else NormalLayer)"

text \<open>\<open>layer()\<close> computes the layer of a client once and keeps it; a deleted window has the one
  it was deleted with.\<close>

definition layer_value :: "'a world_scheme \<Rightarrow> win \<Rightarrow> layer" where
  "layer_value w c =
     (if isClient w c \<and> m_layer (cl w c) = UnknownLayer then belongsToLayer w c
      else m_layer (cl w c))"

definition read_layer :: "win \<Rightarrow> 'a world_scheme \<Rightarrow> layer \<times> 'a world_scheme" where
  "read_layer c w = (layer_value w c, upd_cl c (\<lambda>r. r\<lparr>m_layer := layer_value w c\<rparr>) w)"

section \<open>Facts\<close>

lemma upd_cl_sel [simp]:
  "cl (upd_cl c f w) = (cl w)(c := f (cl w c))" "grp (upd_cl c f w) = grp w"
  "groups (upd_cl c f w) = groups w" "tab_current (upd_cl c f w) = tab_current w"
  "clients (upd_cl c f w) = clients w" "desktops (upd_cl c f w) = desktops w"
  "root_window (upd_cl c f w) = root_window w"
  "stacking_order (upd_cl c f w) = stacking_order w"
  "unconstrained_stacking_order (upd_cl c f w) = unconstrained_stacking_order w"
  "block_stacking_updates (upd_cl c f w) = block_stacking_updates w"
  "blocked_propagating_new_clients (upd_cl c f w) = blocked_propagating_new_clients w"
  "force_restacking (upd_cl c f w) = force_restacking w"
  "active_client (upd_cl c f w) = active_client w"
  "most_recently_raised (upd_cl c f w) = most_recently_raised w"
  "should_get_focus (upd_cl c f w) = should_get_focus w"
  "showing_desktop (upd_cl c f w) = showing_desktop w"
  "current_desktop (upd_cl c f w) = current_desktop w"
  "current_activity (upd_cl c f w) = current_activity w"
  "current_screen (upd_cl c f w) = current_screen w"
  "screen_geometry (upd_cl c f w) = screen_geometry w"
  "separate_screen_focus (upd_cl c f w) = separate_screen_focus w"
  "calls (upd_cl c f w) = calls w"
  by (simp_all add: upd_cl_def)

lemma do_call_sel [simp]:
  "cl (do_call e w) = cl w" "grp (do_call e w) = grp w"
  "groups (do_call e w) = groups w" "tab_current (do_call e w) = tab_current w"
  "clients (do_call e w) = clients w" "desktops (do_call e w) = desktops w"
  "root_window (do_call e w) = root_window w"
  "stacking_order (do_call e w) = stacking_order w"
  "unconstrained_stacking_order (do_call e w) = unconstrained_stacking_order w"
  "block_stacking_updates (do_call e w) = block_stacking_updates w"
  "blocked_propagating_new_clients (do_call e w) = blocked_propagating_new_clients w"
  "force_restacking (do_call e w) = force_restacking w"
  "active_client (do_call e w) = active_client w"
  "most_recently_raised (do_call e w) = most_recently_raised w"
  "should_get_focus (do_call e w) = should_get_focus w"
  "showing_desktop (do_call e w) = showing_desktop w"
  "current_desktop (do_call e w) = current_desktop w"
  "current_activity (do_call e w) = current_activity w"
  "current_screen (do_call e w) = current_screen w"
  "screen_geometry (do_call e w) = screen_geometry w"
  "separate_screen_focus (do_call e w) = separate_screen_focus w"
  "calls (do_call e w) = calls w @ [e]"
  by (simp_all add: do_call_def)

lemma belongsToLayer_known: "belongsToLayer w c \<noteq> UnknownLayer"
  by (simp add: belongsToLayer_def layerForDock_def)

section \<open>A session to evaluate examples on\<close>

text \<open>An ordinary window of its own group \<open>0\<close>, and a session with no windows managed.\<close>

definition plain_client :: client where
  "plain_client =
     \<lparr>kind = AClient, window = 1, info_type = NET_Normal,
      geom = \<lparr>rx1 = 0, ry1 = 0, rx2 = 99, ry2 = 99\<rparr>, t_screen = 0, m_desktop = 1,
      activities = [], resource_class = [], t_pid = 1, hostName = [], wmClientLeader = 1,
      windowRole = [], m_layer = UnknownLayer,
      m_minimized = False, m_shade_mode = ShadeNone, is_hidden = False, hidden_preview = False,
      tab_group = None, m_keepAbove = False, m_keepBelow = False, m_modal = False,
      m_demandsAttention = False, m_active = False, is_fullscreen = False, wants_input = True,
      user_time_support = False, m_transientForId = 0, m_originalTransientForId = 0,
      m_transientFor = None, m_transients = [], in_group = Some 0, groupLeader = 0,
      sm_stacking_order = - 1, placement_hint = False, inputId = 0, frameId = 1,
      checkType = id, checkKeepAbove = id, checkKeepBelow = id, checkFSP = id,
      m_userTime = 0\<rparr>"

definition empty_session :: world where
  "empty_session =
     \<lparr>cl = (\<lambda>c. plain_client\<lparr>window := c, frameId := c + 100, wmClientLeader := c, in_group := Some c\<rparr>),
      grp = (\<lambda>g. \<lparr>gr_members = [g], leader_wid = 0, leader_client = None, refcount = 0, group_time = 0\<rparr>), groups = [],
      tab_current = (\<lambda>_. 0), clients = [], desktops = [], unmanaged = [], root_window = 1000,
      stacking_order = [], unconstrained_stacking_order = [], x_stacking = [],
      x_stacking_dirty = True, force_restacking = False, block_stacking_updates = 0,
      blocked_propagating_new_clients = False, active_client = None, most_recently_raised = None,
      should_get_focus = [], showing_desktop = False, current_desktop = 1, current_activity = None,
      current_screen = 0, screen_geometry = (\<lambda>_. \<lparr>rx1 = 0, ry1 = 0, rx2 = 999, ry2 = 999\<rparr>),
      separate_screen_focus = False, calls = []\<rparr>"

end
