(* ===== verification/Transiency.thy ===== *)
theory Transiency
  imports Clients "HOL-Library.Monad_Syntax"
begin

text \<open>
  The relation between a window and its main windows (\<^verbatim>\<open>group.cpp\<close>): who is transient for whom,
  directly or through others, the main windows of a window, the modal dialog above it, and
  whether two windows belong to the same application.

  \<open>hasTransientInternal\<close> follows pointers of windows that may form a cycle and stops at a window
  it has seen; its model has fuel, the number of windows known plus two, and the fuel is shown
  to be enough.  The loops that walk \<open>transientFor()\<close> without a guard are partial: \<open>None\<close> says
  that the call does not return.
\<close>

section \<open>Transient for a window\<close>

text \<open>A loop that hands the set of windows it has seen from one round to the next.\<close>

primrec any_thread :: "('a \<Rightarrow> 's \<Rightarrow> (bool \<times> 's) option) \<Rightarrow> 'a list \<Rightarrow> 's \<Rightarrow> (bool \<times> 's) option" where
  "any_thread f [] s = Some (False, s)"
| "any_thread f (x # xs) s =
     (case f x s of
        None \<Rightarrow> None
      | Some (b, s') \<Rightarrow> if b then Some (True, s') else any_thread f xs s')"

text \<open>\<open>dynamic_cast<const Client*>(c->transientFor())\<close>.\<close>

definition transientForClient :: "'a world_scheme \<Rightarrow> win \<Rightarrow> win option" where
  "transientForClient w c =
     (case m_transientFor (cl w c) of
        None \<Rightarrow> None
      | Some t \<Rightarrow> if isClient w t then Some t else None)"

primrec hasTransientInternal ::
  "nat \<Rightarrow> 'a world_scheme \<Rightarrow> win \<Rightarrow> win \<Rightarrow> bool \<Rightarrow> win list \<Rightarrow> (bool \<times> win list) option" where
  "hasTransientInternal 0 w this c indirect seen = None"
| "hasTransientInternal (Suc n) w this c indirect seen =
     (case transientForClient w c of
        Some t \<Rightarrow>
          if t = this then Some (True, seen)
          else if \<not> indirect then Some (False, seen)
          else if c \<in> set seen then Some (False, seen)
          else hasTransientInternal n w this t indirect (seen @ [c])
      | None \<Rightarrow>
          if \<not> isTransient w c then Some (False, seen)
          else if in_group (cl w this) \<noteq> in_group (cl w c) then Some (False, seen)
          else if c \<in> set (m_transients (cl w this)) then Some (True, seen)
          else if \<not> indirect then Some (False, seen)
          else if this \<in> set seen then Some (False, seen)
          else any_thread (\<lambda>d. hasTransientInternal n w d c indirect)
                 (filter (isClient w) (m_transients (cl w this))) (seen @ [this]))"

text \<open>The windows \<open>Workspace::findClient\<close> searches.\<close>

definition known_windows :: "'a world_scheme \<Rightarrow> win list" where
  "known_windows w = clients w @ desktops w"

definition hasTransient :: "'a world_scheme \<Rightarrow> win \<Rightarrow> win \<Rightarrow> bool \<Rightarrow> bool" where
  "hasTransient w this c indirect =
     (isClient w c \<and>
      (case hasTransientInternal (length (known_windows w) + 2) w this c indirect [] of
         None \<Rightarrow> False
       | Some (b, _) \<Rightarrow> b))"

definition mainClients :: "'a world_scheme \<Rightarrow> win \<Rightarrow> win list" where
  "mainClients w c =
     (if \<not> isTransient w c then []
      else case m_transientFor (cl w c) of
        Some t \<Rightarrow> [t]
      | None \<Rightarrow> filter (\<lambda>m. hasTransient w m c False) (group_members w c))"

text \<open>\<open>findModal\<close> recurses through the lists of transients without a guard.\<close>

primrec first_option :: "('a \<Rightarrow> 'b option option) \<Rightarrow> 'a list \<Rightarrow> 'b option option" where
  "first_option f [] = Some None"
| "first_option f (x # xs) =
     (case f x of None \<Rightarrow> None | Some (Some r) \<Rightarrow> Some (Some r) | Some None \<Rightarrow> first_option f xs)"

primrec findModal :: "nat \<Rightarrow> 'a world_scheme \<Rightarrow> win \<Rightarrow> bool \<Rightarrow> win option option" where
  "findModal 0 w c allow_itself = None"
| "findModal (Suc n) w c allow_itself =
     (case first_option (\<lambda>t. findModal n w t True) (m_transients (cl w c)) of
        None \<Rightarrow> None
      | Some (Some r) \<Rightarrow> Some (Some r)
      | Some None \<Rightarrow> Some (if m_modal (cl w c) \<and> allow_itself then Some c else None))"

section \<open>The same application\<close>

definition resourceMatch :: "'a world_scheme \<Rightarrow> win \<Rightarrow> win \<Rightarrow> bool" where
  "resourceMatch w c1 c2 = (resource_class (cl w c1) = resource_class (cl w c2))"

text \<open>\<open>while (t = c->transientFor()) c = t;\<close>\<close>

partial_function (option) transientRoot :: "'a world_scheme \<Rightarrow> win \<Rightarrow> win option" where
  "transientRoot w c =
     (case transientForClient w c of None \<Rightarrow> Some c | Some t \<Rightarrow> transientRoot w t)"

declare transientRoot.simps [code]

definition sameRole :: "'a world_scheme \<Rightarrow> win \<Rightarrow> win \<Rightarrow> bool \<Rightarrow> bool" where
  "sameRole w c1 c2 active_hack =
     (if CHR ''#'' \<in> set (windowRole (cl w c1)) \<and> CHR ''#'' \<in> set (windowRole (cl w c2))
      then if \<not> active_hack then c1 = c2
           else if \<not> m_active (cl w c1) \<and> \<not> m_active (cl w c2) then c1 = c2
           else True
      else True)"

definition sameAppWindowRoleMatch :: "'a world_scheme \<Rightarrow> win \<Rightarrow> win \<Rightarrow> bool \<Rightarrow> bool option" where
  "sameAppWindowRoleMatch w c1 c2 active_hack =
     (let same_group = (\<lambda>a b. in_group (cl w a) = in_group (cl w b)) in
      do {
        r1 \<leftarrow> (if isTransient w c1 then transientRoot w c1 else Some c1);
        if isTransient w c1 \<and> groupTransient w r1 then Some (same_group r1 c2)
        else do {
          r2 \<leftarrow> (if isTransient w c2 then transientRoot w c2 else Some c2);
          if isTransient w c2 \<and> groupTransient w r2 then Some (same_group r1 r2)
          else Some (sameRole w r1 r2 active_hack)
        }
      })"

definition belongToSameApplication :: "'a world_scheme \<Rightarrow> win \<Rightarrow> win \<Rightarrow> bool \<Rightarrow> bool option" where
  "belongToSameApplication w c1 c2 active_hack =
     (let leader = (\<lambda>c. wmClientLeader (cl w c));
          leaders_set = (leader c1 \<noteq> window (cl w c1) \<and> leader c2 \<noteq> window (cl w c2))
      in
      if c1 = c2 then Some True
      else if isTransient w c1 \<and> hasTransient w c2 c1 True then Some True
      else if isTransient w c2 \<and> hasTransient w c1 c2 True then Some True
      else if in_group (cl w c1) = in_group (cl w c2) then Some True
      else if leader c1 = leader c2 \<and> leaders_set then Some True
      else if t_pid (cl w c1) \<noteq> t_pid (cl w c2) \<or> hostName (cl w c1) \<noteq> hostName (cl w c2)
      then Some False
      else if leader c1 \<noteq> leader c2 \<and> leaders_set then Some False
      else if \<not> resourceMatch w c1 c2 then Some False
      else do {
        same_role \<leftarrow> sameAppWindowRoleMatch w c1 c2 active_hack;
        Some (same_role \<and> \<not> (t_pid (cl w c1) = 0 \<or> t_pid (cl w c2) = 0))
      })"

text \<open>\<open>AbstractClient::belongToSameApplication\<close>, which calls the first window's virtual
  \<open>belongsToSameApplication\<close>.\<close>

definition belongsToSameApplication :: "'a world_scheme \<Rightarrow> win \<Rightarrow> win \<Rightarrow> bool option" where
  "belongsToSameApplication w c other =
     (if \<not> isClient w other then Some False else belongToSameApplication w c other False)"

section \<open>Changing the list of transients\<close>

definition removeTransientFromList :: "win \<Rightarrow> win \<Rightarrow> 'a world_scheme \<Rightarrow> 'a world_scheme" where
  "removeTransientFromList this c = upd_cl this (\<lambda>r. r\<lparr>m_transients := removeAll c (m_transients r)\<rparr>)"

text \<open>\<open>None\<close>: one of the two assertions fails.\<close>

definition addTransient :: "win \<Rightarrow> win \<Rightarrow> 'a world_scheme \<Rightarrow> 'a world_scheme option" where
  "addTransient this c w =
     (if c \<in> set (m_transients (cl w this)) \<or> c = this then None
      else Some (upd_cl this (\<lambda>r. r\<lparr>m_transients := m_transients r @ [c]\<rparr>) w))"

text \<open>
  \<open>AbstractClient::removeTransient\<close>, then what \<open>Client::removeTransient\<close> adds: its last call,
  \<open>setTransient(XCB_WINDOW_NONE)\<close>, returns at once, the id has just been set to this value.
\<close>

definition removeTransientBase :: "win \<Rightarrow> win \<Rightarrow> 'a world_scheme \<Rightarrow> 'a world_scheme" where
  "removeTransientBase this c w =
     (let w = upd_cl this (\<lambda>r. r\<lparr>m_transients := removeAll c (m_transients r)\<rparr>) w in
      if m_transientFor (cl w c) = Some this
      then upd_cl c (\<lambda>r. r\<lparr>m_transientFor := None\<rparr>) w else w)"

definition removeTransient :: "win \<Rightarrow> win \<Rightarrow> 'a world_scheme \<Rightarrow> 'a world_scheme" where
  "removeTransient this c w =
     (let w = removeTransientBase this c w in
      if m_transientFor (cl w c) = Some this \<and> isClient w c
      then upd_cl c (\<lambda>r. r\<lparr>m_transientForId := WINDOW_NONE, m_transientFor := None\<rparr>) w else w)"

section \<open>The search for main windows ends\<close>

text \<open>A set of windows that is closed under the pointers the search follows.\<close>

definition closed_windows :: "'a world_scheme \<Rightarrow> win set \<Rightarrow> bool" where
  "closed_windows w U \<longleftrightarrow> finite U \<and>
     (\<forall>c\<in>U. set (m_transients (cl w c)) \<subseteq> U \<and>
        (\<forall>t. m_transientFor (cl w c) = Some t \<longrightarrow> t \<in> U))"

lemma closed_windowsD:
  assumes "closed_windows w U" "c \<in> U"
  shows "t \<in> set (m_transients (cl w c)) \<Longrightarrow> t \<in> U" "transientForClient w c = Some t \<Longrightarrow> t \<in> U"
  using assms by (auto simp: closed_windows_def transientForClient_def split: option.splits if_splits)

lemma any_thread_total:
  assumes "\<And>x s. x \<in> set xs \<Longrightarrow> set s0 \<subseteq> set s \<Longrightarrow> \<exists>b s'. f x s = Some (b, s') \<and> set s \<subseteq> set s'"
    and "set s0 \<subseteq> set s"
  shows "\<exists>b s'. any_thread f xs s = Some (b, s') \<and> set s \<subseteq> set s'"
  using assms
proof (induction xs arbitrary: s)
  case Nil
  have "any_thread f [] s = Some (False, s) \<and> set s \<subseteq> set s" by simp
  then show ?case by blast
next
  case (Cons x xs)
  obtain b s' where f: "f x s = Some (b, s')" "set s \<subseteq> set s'"
    using Cons.prems by (metis list.set_intros(1))
  have "\<exists>b s''. any_thread f xs s' = Some (b, s'') \<and> set s' \<subseteq> set s''"
    by (rule Cons.IH) (use Cons.prems f in auto)
  with f show ?case by (cases b) auto
qed

lemma card_diff_snoc:
  assumes "finite U" "x \<in> U" "x \<notin> set seen" "card (U - set seen) < Suc n"
  shows "card (U - set (seen @ [x])) < n"
proof -
  have "U - set (seen @ [x]) = (U - set seen) - {x}" by auto
  moreover have "card ((U - set seen) - {x}) < card (U - set seen)"
    by (rule card_Diff1_less) (use assms in auto)
  ultimately show ?thesis using assms(4) by simp
qed

lemma hasTransientInternal_step:
  assumes "transientForClient w c = Some t"
    and "c \<notin> set seen \<Longrightarrow> \<exists>b s. hasTransientInternal n w this t indirect (seen @ [c]) = Some (b, s) \<and>
        set (seen @ [c]) \<subseteq> set s"
  shows "\<exists>b s. hasTransientInternal (Suc n) w this c indirect seen = Some (b, s) \<and> set seen \<subseteq> set s"
proof (cases "t = this \<or> \<not> indirect \<or> c \<in> set seen")
  case True
  then have "hasTransientInternal (Suc n) w this c indirect seen = Some (t = this, seen)"
    using assms(1) by auto
  then show ?thesis by blast
next
  case False
  then have "hasTransientInternal (Suc n) w this c indirect seen =
      hasTransientInternal n w this t indirect (seen @ [c])" using assms(1) by simp
  with assms(2) False show ?thesis by (metis Un_subset_iff set_append)
qed

lemma hasTransientInternal_down:
  assumes "transientForClient w c = None"
    and "this \<notin> set seen \<Longrightarrow> \<exists>b s. any_thread (\<lambda>d. hasTransientInternal n w d c indirect)
           (filter (isClient w) (m_transients (cl w this))) (seen @ [this]) = Some (b, s) \<and>
        set (seen @ [this]) \<subseteq> set s"
  shows "\<exists>b s. hasTransientInternal (Suc n) w this c indirect seen = Some (b, s) \<and> set seen \<subseteq> set s"
proof (cases "isTransient w c \<and> in_group (cl w this) = in_group (cl w c) \<and>
    c \<notin> set (m_transients (cl w this)) \<and> indirect \<and> this \<notin> set seen")
  case True
  then have "hasTransientInternal (Suc n) w this c indirect seen =
      any_thread (\<lambda>d. hasTransientInternal n w d c indirect)
           (filter (isClient w) (m_transients (cl w this))) (seen @ [this])" using assms(1) by simp
  with assms(2) True show ?thesis by (metis Un_subset_iff set_append)
next
  case False
  then have "hasTransientInternal (Suc n) w this c indirect seen = Some (True, seen) \<or>
      hasTransientInternal (Suc n) w this c indirect seen = Some (False, seen)"
    using assms(1) by auto
  then show ?thesis by blast
qed

lemma hasTransientInternal_total:
  assumes "closed_windows w U" "this \<in> U" "c \<in> U" "card (U - set seen) < n"
  shows "\<exists>b s. hasTransientInternal n w this c indirect seen = Some (b, s) \<and> set seen \<subseteq> set s"
  using assms(2-4)
proof (induction n arbitrary: this c seen)
  case 0
  then show ?case by simp
next
  case (Suc n)
  have fin: "finite U" using assms(1) by (simp add: closed_windows_def)
  show ?case
  proof (cases "transientForClient w c")
    case (Some t)
    have "\<exists>b s. hasTransientInternal n w this t indirect (seen @ [c]) = Some (b, s) \<and>
        set (seen @ [c]) \<subseteq> set s" if "c \<notin> set seen"
      by (rule Suc.IH [OF Suc.prems(1) closed_windowsD(2) [OF assms(1) Suc.prems(2) Some]
            card_diff_snoc [OF fin Suc.prems(2) that Suc.prems(3)]])
    with Some show ?thesis by (rule hasTransientInternal_step)
  next
    case None
    let ?f = "\<lambda>d. hasTransientInternal n w d c indirect"
    have "\<exists>b s. any_thread ?f (filter (isClient w) (m_transients (cl w this))) (seen @ [this]) = Some (b, s) \<and>
        set (seen @ [this]) \<subseteq> set s" if new: "this \<notin> set seen"
    proof (rule any_thread_total [where ?s0.0 = "seen @ [this]"])
      fix x s
      assume x: "x \<in> set (filter (isClient w) (m_transients (cl w this)))"
        and s: "set (seen @ [this]) \<subseteq> set s"
      have "card (U - set s) \<le> card (U - set (seen @ [this]))"
        using fin s by (intro card_mono) auto
      then have "card (U - set s) < n"
        using card_diff_snoc [OF fin Suc.prems(1) new Suc.prems(3)] by linarith
      then show "\<exists>b s'. hasTransientInternal n w x c indirect s = Some (b, s') \<and> set s \<subseteq> set s'"
        using x closed_windowsD(1) [OF assms(1) Suc.prems(1)] Suc.prems(2) by (intro Suc.IH) simp_all
    qed simp
    with None show ?thesis by (rule hasTransientInternal_down)
  qed
qed

text \<open>The windows the manager knows form such a set, and the fuel covers it.\<close>

definition windows_known :: "'a world_scheme \<Rightarrow> bool" where
  "windows_known w \<longleftrightarrow> closed_windows w (set (known_windows w))"

lemma card_clients: "card (set (known_windows w) - set seen) < length (known_windows w) + 2"
proof -
  have "card (set (known_windows w) - set seen) \<le> card (set (known_windows w))" by (intro card_mono) auto
  then show ?thesis using card_length [of "known_windows w"] by linarith
qed

lemma hasTransient_run:
  assumes "windows_known w" "this \<in> set (known_windows w)" "c \<in> set (known_windows w)"
  obtains b s where
    "hasTransientInternal (length (known_windows w) + 2) w this c indirect [] = Some (b, s)"
    "hasTransient w this c indirect \<longleftrightarrow> isClient w c \<and> b"
proof -
  obtain b s where "hasTransientInternal (length (known_windows w) + 2) w this c indirect [] = Some (b, s)"
    using hasTransientInternal_total [OF assms(1) [unfolded windows_known_def] assms(2,3) card_clients]
    by metis
  then show ?thesis by (intro that) (simp_all add: hasTransient_def)
qed

section \<open>What the search finds\<close>

text \<open>Not indirect: one pointer, or one entry in the list of transients.\<close>

lemma hasTransient_direct:
  "hasTransient w this c False \<longleftrightarrow> isClient w c \<and>
     (case transientForClient w c of
        Some t \<Rightarrow> t = this
      | None \<Rightarrow> isTransient w c \<and> in_group (cl w this) = in_group (cl w c) \<and>
                c \<in> set (m_transients (cl w this)))"
  by (auto simp: hasTransient_def numeral_2_eq_2 split: option.split)

text \<open>For a window that is transient for one window, indirectly: the chain of main windows.\<close>

abbreviation main_of :: "'a world_scheme \<Rightarrow> win \<Rightarrow> win \<Rightarrow> bool" where
  "main_of w c t \<equiv> transientForClient w c = Some t"

lemma main_of_closed:
  assumes "(main_of w)\<^sup>+\<^sup>+ c t" "c \<in> S" "\<And>x y. x \<in> S \<Longrightarrow> main_of w x y \<Longrightarrow> y \<in> S \<and> y \<noteq> this"
  shows "t \<in> S \<and> t \<noteq> this"
  using assms(1,2) by (induction rule: tranclp_induct) (use assms(3) in auto)

lemma main_of_shift:
  assumes "main_of w c t" "t \<noteq> this"
  shows "(main_of w)\<^sup>+\<^sup>+ t this \<longleftrightarrow> (main_of w)\<^sup>+\<^sup>+ c this"
proof
  assume "(main_of w)\<^sup>+\<^sup>+ t this"
  with assms(1) show "(main_of w)\<^sup>+\<^sup>+ c this" by (rule tranclp_into_tranclp2)
next
  assume "(main_of w)\<^sup>+\<^sup>+ c this"
  then obtain y where "main_of w c y" "(main_of w)\<^sup>*\<^sup>* y this"
    using tranclpD [of "main_of w" c this] by blast
  with assms have "(main_of w)\<^sup>*\<^sup>* t this" by simp
  with assms(2) show "(main_of w)\<^sup>+\<^sup>+ t this" using rtranclpD [of "main_of w" t this] by blast
qed

lemma hasTransientInternal_chain:
  assumes "hasTransientInternal n w this c True seen = Some (b, s)"
    and "\<forall>x. (main_of w)\<^sup>*\<^sup>* c x \<longrightarrow> transientForClient w x = None \<longrightarrow> \<not> isTransient w x"
    and "\<forall>x\<in>set seen. \<exists>y. main_of w x y \<and> y \<noteq> this \<and> (y \<in> set seen \<or> y = c)"
  shows "b \<longleftrightarrow> (main_of w)\<^sup>+\<^sup>+ c this"
  using assms
proof (induction n arbitrary: c seen)
  case 0
  then show ?case by simp
next
  case (Suc n)
  show ?case
  proof (cases "transientForClient w c")
    case None
    have "\<not> isTransient w c" using Suc.prems(2) None by blast
    with Suc.prems(1) None have "\<not> b" by simp
    moreover have "\<not> (main_of w)\<^sup>+\<^sup>+ c this" using None by (auto dest: tranclpD)
    ultimately show ?thesis by simp
  next
    case (Some t)
    consider "t = this" | "t \<noteq> this" "c \<in> set seen" | "t \<noteq> this" "c \<notin> set seen" by blast
    then show ?thesis
    proof cases
      case 1
      with Suc.prems(1) Some show ?thesis by auto
    next
      case 2
      have "t \<in> insert c (set seen)" if "(main_of w)\<^sup>+\<^sup>+ c t" "t = this" for t
        using main_of_closed [OF that(1), of "insert c (set seen)" this] Suc.prems(3) 2(2) that(2)
        by fastforce
      moreover have "this \<notin> insert c (set seen)" if "(main_of w)\<^sup>+\<^sup>+ c this"
        using main_of_closed [OF that, of "insert c (set seen)" this] Suc.prems(3) 2(2) by fastforce
      ultimately have "\<not> (main_of w)\<^sup>+\<^sup>+ c this" by blast
      with Suc.prems(1) Some 2 show ?thesis by auto
    next
      case 3
      have "\<forall>x. (main_of w)\<^sup>*\<^sup>* t x \<longrightarrow> transientForClient w x = None \<longrightarrow> \<not> isTransient w x"
      proof (intro allI impI)
        fix x
        assume "(main_of w)\<^sup>*\<^sup>* t x" "transientForClient w x = None"
        with converse_rtranclp_into_rtranclp [of "main_of w" c t x] Some Suc.prems(2)
        show "\<not> isTransient w x" by simp
      qed
      moreover have "\<forall>x\<in>set (seen @ [c]). \<exists>y. main_of w x y \<and> y \<noteq> this \<and> (y \<in> set (seen @ [c]) \<or> y = t)"
        using Suc.prems(3) Some 3 by auto
      moreover have "hasTransientInternal n w this t True (seen @ [c]) = Some (b, s)"
        using Suc.prems(1) Some 3 by simp
      ultimately have "b \<longleftrightarrow> (main_of w)\<^sup>+\<^sup>+ t this" by (intro Suc.IH) auto
      moreover have "(main_of w)\<^sup>+\<^sup>+ t this \<longleftrightarrow> (main_of w)\<^sup>+\<^sup>+ c this"
        by (rule main_of_shift [OF Some 3(1)])
      ultimately show ?thesis by simp
    qed
  qed
qed

text \<open>For a group transient, indirectly: a path down the lists of transients of its group.\<close>

inductive leads_to :: "'a world_scheme \<Rightarrow> win \<Rightarrow> win \<Rightarrow> bool" for w c where
  direct: "in_group (cl w x) = in_group (cl w c) \<Longrightarrow> c \<in> set (m_transients (cl w x)) \<Longrightarrow> leads_to w c x"
| step: "in_group (cl w x) = in_group (cl w c) \<Longrightarrow> d \<in> set (m_transients (cl w x)) \<Longrightarrow> isClient w d \<Longrightarrow>
    leads_to w c d \<Longrightarrow> leads_to w c x"

definition searched :: "'a world_scheme \<Rightarrow> win \<Rightarrow> win set \<Rightarrow> win \<Rightarrow> bool" where
  "searched w c S y \<longleftrightarrow> in_group (cl w y) = in_group (cl w c) \<and> c \<notin> set (m_transients (cl w y)) \<and>
     (\<forall>d\<in>set (m_transients (cl w y)). isClient w d \<longrightarrow> d \<in> S \<or> in_group (cl w d) \<noteq> in_group (cl w c))"

lemma searched_mono: "searched w c S y \<Longrightarrow> S \<subseteq> T \<Longrightarrow> searched w c T y"
  by (auto simp: searched_def)

definition dfs_ok :: "'a world_scheme \<Rightarrow> win \<Rightarrow> win list \<Rightarrow> win set \<Rightarrow> win list \<Rightarrow> bool" where
  "dfs_ok w c seen todo s \<longleftrightarrow> set seen \<subseteq> set s \<and>
     (\<forall>x\<in>todo. x \<in> set s \<or> in_group (cl w x) \<noteq> in_group (cl w c)) \<and>
     (\<forall>y\<in>set s - set seen. searched w c (set s) y)"

lemma dfs_ok_trans:
  "dfs_ok w c a T s \<Longrightarrow> dfs_ok w c s T' u \<Longrightarrow> dfs_ok w c a (T \<union> T') u"
  unfolding dfs_ok_def by (blast intro: searched_mono)

lemma any_thread_dfs:
  assumes "\<And>x s b s'. x \<in> set xs \<Longrightarrow> f x s = Some (b, s') \<Longrightarrow>
      (b \<longrightarrow> leads_to w c x) \<and> (\<not> b \<longrightarrow> dfs_ok w c s {x} s')"
    and "any_thread f xs s = Some (b, s')"
  shows "(b \<longrightarrow> (\<exists>x\<in>set xs. leads_to w c x)) \<and> (\<not> b \<longrightarrow> dfs_ok w c s (set xs) s')"
  using assms
proof (induction xs arbitrary: s)
  case Nil
  then show ?case by (auto simp: dfs_ok_def)
next
  case (Cons x xs)
  obtain b1 s1 where f: "f x s = Some (b1, s1)"
    using Cons.prems(2) by (auto split: option.splits)
  note x = Cons.prems(1) [OF _ f, simplified]
  show ?case
  proof (cases b1)
    case True
    with Cons.prems(2) f x show ?thesis by auto
  next
    case False
    with Cons.prems(2) f have "any_thread f xs s1 = Some (b, s')" by simp
    from Cons.IH [OF _ this] Cons.prems(1) x False
    show ?thesis using dfs_ok_trans [of w c s "{x}" s1 "set xs" s'] by fastforce
  qed
qed

lemma hasTransientInternal_dfs:
  assumes "transientForClient w c = None" "isTransient w c"
    and "hasTransientInternal n w x c True seen = Some (b, s)"
  shows "(b \<longrightarrow> leads_to w c x) \<and> (\<not> b \<longrightarrow> dfs_ok w c seen {x} s)"
  using assms(3)
proof (induction n arbitrary: x seen b s)
  case 0
  then show ?case by simp
next
  case (Suc n)
  let ?kids = "filter (isClient w) (m_transients (cl w x))"
  consider "in_group (cl w x) \<noteq> in_group (cl w c)"
    | "in_group (cl w x) = in_group (cl w c)" "c \<in> set (m_transients (cl w x))"
    | "in_group (cl w x) = in_group (cl w c)" "c \<notin> set (m_transients (cl w x))" "x \<in> set seen"
    | "in_group (cl w x) = in_group (cl w c)" "c \<notin> set (m_transients (cl w x))" "x \<notin> set seen"
    by blast
  then show ?case
  proof cases
    case 4
    then have run: "any_thread (\<lambda>d. hasTransientInternal n w d c True) ?kids (seen @ [x]) = Some (b, s)"
      using Suc.prems assms(1,2) by simp
    have res: "(b \<longrightarrow> (\<exists>d\<in>set ?kids. leads_to w c d)) \<and> (\<not> b \<longrightarrow> dfs_ok w c (seen @ [x]) (set ?kids) s)"
      by (rule any_thread_dfs [OF _ run]) (rule Suc.IH)
    have "searched w c (set s) x" if "dfs_ok w c (seen @ [x]) (set ?kids) s"
      using that 4 by (auto simp: dfs_ok_def searched_def)
    with res 4(1) show ?thesis by (auto simp: dfs_ok_def intro: leads_to.step)
  qed (use Suc.prems assms(1,2) in \<open>auto simp: dfs_ok_def intro: leads_to.direct\<close>)
qed

lemma leads_to_searched:
  assumes "leads_to w c x" "\<forall>y\<in>S. searched w c S y"
  shows "x \<notin> S \<and> in_group (cl w x) = in_group (cl w c)"
  using assms(1)
  by (induction) (use assms(2) in \<open>fastforce simp: searched_def\<close>)+

section \<open>Properties of transiency\<close>

text \<open>Window 2 is a dialog of window 1, window 3 a dialog of window 2, window 4 transient for
  the group of window 1.\<close>

definition dialogs_session :: world where
  "dialogs_session = empty_session\<lparr>clients := [1, 2, 3, 4],
     cl := (cl empty_session)
       (1 := (cl empty_session 1)\<lparr>m_transients := [2, 4]\<rparr>,
        2 := (cl empty_session 2)\<lparr>m_transientForId := 1, m_transientFor := Some 1,
               m_transients := [3], in_group := Some 1\<rparr>,
        3 := (cl empty_session 3)\<lparr>m_transientForId := 2, m_transientFor := Some 2, in_group := Some 1\<rparr>,
        4 := (cl empty_session 4)\<lparr>m_transientForId := 1000, in_group := Some 1\<rparr>),
     grp := (grp empty_session)(1 := \<lparr>gr_members = [1, 2, 3, 4], leader_wid = 0, leader_client = None, refcount = 0, group_time = 0\<rparr>)\<rparr>"

lemma dialogs_known: "windows_known dialogs_session"
  by (simp add: windows_known_def known_windows_def closed_windows_def dialogs_session_def empty_session_def plain_client_def)

text \<open>C21: \<open>hasTransient\<close> with indirect search returns, and for a window whose chain of main
  windows ends in an ordinary window it answers exactly whether the chain, followed any number
  of times, passes through this window; chains that run in a circle are covered.\<close>

theorem hasTransient_indirect:
  assumes "windows_known w" "this \<in> set (known_windows w)" "c \<in> set (known_windows w)" "isClient w c"
    and "\<forall>x. (main_of w)\<^sup>*\<^sup>* c x \<longrightarrow> transientForClient w x = None \<longrightarrow> \<not> isTransient w x"
  shows "hasTransient w this c True \<longleftrightarrow> (main_of w)\<^sup>+\<^sup>+ c this"
proof -
  obtain b s where run: "hasTransientInternal (length (known_windows w) + 2) w this c True [] = Some (b, s)"
    "hasTransient w this c True \<longleftrightarrow> isClient w c \<and> b"
    by (rule hasTransient_run [OF assms(1-3)])
  show ?thesis
    using hasTransientInternal_chain [OF run(1) assms(5)] run(2) assms(4) by simp
qed

lemma dialogs_main_of:
  "main_of dialogs_session x t \<longleftrightarrow> x = 2 \<and> t = 1 \<or> x = 3 \<and> t = 2"
  by (auto simp: transientForClient_def isClient_def dialogs_session_def empty_session_def plain_client_def)

theorem hasTransient_indirect_witness: "hasTransient dialogs_session 1 3 True"
proof -
  have reach: "x \<in> {1, 2, 3}" if "(main_of dialogs_session)\<^sup>*\<^sup>* 3 x" for x
    using that by (induction rule: rtranclp_induct) (auto simp: dialogs_main_of)
  have "\<forall>x. (main_of dialogs_session)\<^sup>*\<^sup>* 3 x \<longrightarrow> transientForClient dialogs_session x = None \<longrightarrow>
      \<not> isTransient dialogs_session x"
    by (intro allI impI, drule reach)
      (auto simp: isTransient_def WINDOW_NONE_def transientForClient_def isClient_def
        dialogs_session_def empty_session_def plain_client_def)
  moreover have "(main_of dialogs_session)\<^sup>+\<^sup>+ 3 1"
    by (rule tranclp.trancl_into_trancl [where b = 2]) (auto simp: dialogs_main_of)
  ultimately show ?thesis
    using hasTransient_indirect [OF dialogs_known, of 1 3]
    by (simp add: known_windows_def isClient_def dialogs_session_def empty_session_def plain_client_def)
qed

text \<open>For a group transient \<open>hasTransient\<close> with indirect search returns and answers exactly
  whether a path leads from this window down the lists of transients, through windows of the
  same group, to a window that has it in its list; lists that form circles are covered.\<close>

lemma hasTransient_group:
  assumes "windows_known w" "this \<in> set (known_windows w)" "c \<in> set (known_windows w)" "isClient w c"
    and "transientForClient w c = None" "isTransient w c"
  shows "hasTransient w this c True \<longleftrightarrow> leads_to w c this"
proof -
  obtain b s where run: "hasTransientInternal (length (known_windows w) + 2) w this c True [] = Some (b, s)"
    "hasTransient w this c True \<longleftrightarrow> isClient w c \<and> b"
    by (rule hasTransient_run [OF assms(1-3)])
  note dfs = hasTransientInternal_dfs [OF assms(5,6) run(1)]
  have "b" if "leads_to w c this"
  proof (rule ccontr)
    assume "\<not> b"
    with dfs have ok: "dfs_ok w c [] {this} s" by blast
    then have "\<forall>y\<in>set s. searched w c (set s) y" by (auto simp: dfs_ok_def)
    from leads_to_searched [OF that this] ok show False by (auto simp: dfs_ok_def)
  qed
  with dfs run(2) assms(4) show ?thesis by blast
qed

lemma hasTransient_group_witness: "hasTransient dialogs_session 1 4 True"
proof -
  have "leads_to dialogs_session 4 1"
    by (rule leads_to.direct) (simp_all add: dialogs_session_def empty_session_def plain_client_def)
  then show ?thesis
    using hasTransient_group [OF dialogs_known, of 1 4]
    by (simp add: known_windows_def isClient_def transientForClient_def isTransient_def WINDOW_NONE_def
        dialogs_session_def empty_session_def plain_client_def)
qed

text \<open>Removing a transient from its main window clears the pointer to the main window, yet
  the branch that should also clear \<open>m_transientForId\<close> never runs: the window still counts as
  transient for the id of a window it has no relation to any more.\<close>

lemma removeTransient_keeps_id:
  assumes "m_transientFor (cl w c) = Some this" "c \<noteq> this"
  shows "m_transientFor (cl (removeTransient this c w) c) = None \<and>
    c \<notin> set (m_transients (cl (removeTransient this c w) this)) \<and>
    isTransient (removeTransient this c w) c = isTransient w c \<and>
    mainClients (removeTransient this c w) c =
      filter (\<lambda>m. hasTransient (removeTransient this c w) m c False)
        (if isTransient w c then group_members (removeTransient this c w) c else [])"
  using assms
  by (simp add: removeTransient_def removeTransientBase_def Let_def isTransient_def mainClients_def)

lemma removeTransient_keeps_id_witness:
  "m_transientFor (cl (removeTransient 1 2 dialogs_session) 2) = None \<and>
   isTransient (removeTransient 1 2 dialogs_session) 2"
proof -
  have "m_transientFor (cl dialogs_session 2) = Some 1" "isTransient dialogs_session 2"
    by (simp_all add: dialogs_session_def empty_session_def plain_client_def isTransient_def WINDOW_NONE_def)
  then show ?thesis using removeTransient_keeps_id [of dialogs_session 2 1] by simp
qed

end
