(* ===== verification/FocusChain.thy ===== *)
theory FocusChain
  imports Transiency "HOL-Library.AList"
begin

text \<open>
  \<^verbatim>\<open>focuschain.cpp\<close>: one chain of windows per virtual desktop and one for all, in the order in
  which the windows would get the focus; the next one is at the end.  A chain is changed by
  making a window first (appending it), making it last (prepending it), inserting it next to
  the active window or moving it next to another window of its application.  The hash of the
  chains is an association list: an insertion replaces the chain of its key.
\<close>

section \<open>State\<close>

text \<open>In the enumeration \<open>MakeFirstMinimized\<close> is a second name of \<open>MakeFirst\<close>.\<close>

datatype Change = MakeFirst | MakeLast | Update

abbreviation MakeFirstMinimized :: Change where
  "MakeFirstMinimized \<equiv> MakeFirst"

record focus_chain =
  m_mostRecentlyUsed :: "win list"
  m_desktopFocusChains :: "(uint \<times> win list) list"
  m_separateScreenFocus :: bool
  m_activeClient :: "win option"
  m_currentDesktop :: uint

definition initial_focus_chain :: focus_chain where
  "initial_focus_chain =
     \<lparr>m_mostRecentlyUsed = [], m_desktopFocusChains = [], m_separateScreenFocus = False,
      m_activeClient = None, m_currentDesktop = 0\<rparr>"

text \<open>The loops over \<open>m_desktopFocusChains\<close> change each chain on its own, by its key.\<close>

definition map_chains :: "(uint \<Rightarrow> win list \<Rightarrow> win list) \<Rightarrow> focus_chain \<Rightarrow> focus_chain" where
  "map_chains f fc = fc\<lparr>m_desktopFocusChains := map (\<lambda>(d, chain). (d, f d chain)) (m_desktopFocusChains fc)\<rparr>"

definition setSeparateScreenFocus :: "bool \<Rightarrow> focus_chain \<Rightarrow> focus_chain" where
  "setSeparateScreenFocus enabled fc = fc\<lparr>m_separateScreenFocus := enabled\<rparr>"

definition fc_setActiveClient :: "win option \<Rightarrow> focus_chain \<Rightarrow> focus_chain" where
  "fc_setActiveClient c fc = fc\<lparr>m_activeClient := c\<rparr>"

definition setCurrentDesktop :: "uint \<Rightarrow> uint \<Rightarrow> focus_chain \<Rightarrow> focus_chain" where
  "setCurrentDesktop prev newDesktop fc = fc\<lparr>m_currentDesktop := newDesktop\<rparr>"

section \<open>Changing the chains\<close>

definition fc_remove :: "win \<Rightarrow> focus_chain \<Rightarrow> focus_chain" where
  "fc_remove c fc =
     (let fc = map_chains (\<lambda>_. removeAll c) fc in
      fc\<lparr>m_mostRecentlyUsed := removeAll c (m_mostRecentlyUsed fc)\<rparr>)"

text \<open>The desktop numbers of the two loops of \<open>resize\<close>: \<open>previousSize + 1, \<dots>, newSize\<close> are
  inserted, \<open>previousSize, \<dots>, newSize + 1\<close> removed.  The code's counters are \<open>uint\<close>, with
  \<open>newSize\<close> below its maximum.\<close>

definition resize :: "uint \<Rightarrow> uint \<Rightarrow> focus_chain \<Rightarrow> focus_chain" where
  "resize previousSize newSize fc =
     (let added = map of_nat [Suc (unat previousSize)..<Suc (unat newSize)];
          removed = map of_nat (rev [Suc (unat newSize)..<Suc (unat previousSize)])
      in fc\<lparr>m_desktopFocusChains :=
           fold AList.delete removed
             (fold (\<lambda>i. AList.update i []) added (m_desktopFocusChains fc))\<rparr>)"

definition makeFirstInChain :: "'a world_scheme \<Rightarrow> win \<Rightarrow> win list \<Rightarrow> win list" where
  "makeFirstInChain w c chain0 =
     (let chain = removeAll c chain0 in
      if isMinimized w c
      then let i = last_index (isMinimized w) chain in
        if i \<ge> 0 then q_insert (i + 1) c chain else c # chain
      else chain @ [c])"

definition makeLastInChain :: "win \<Rightarrow> win list \<Rightarrow> win list" where
  "makeLastInChain c chain = c # removeAll c chain"

definition insertClientIntoChain :: "focus_chain \<Rightarrow> win \<Rightarrow> win list \<Rightarrow> win list" where
  "insertClientIntoChain fc c chain =
     (if c \<in> set chain then chain
      else case m_activeClient fc of
        Some a \<Rightarrow>
          if a \<noteq> c \<and> chain \<noteq> [] \<and> last chain = a
          then q_insert (int (length chain) - 1) c chain else chain @ [c]
      | None \<Rightarrow> chain @ [c])"

definition updateClientInChain ::
  "'a world_scheme \<Rightarrow> focus_chain \<Rightarrow> win \<Rightarrow> Change \<Rightarrow> win list \<Rightarrow> win list" where
  "updateClientInChain w fc c change chain =
     (if change = MakeFirst then makeFirstInChain w c chain
      else if change = MakeLast then makeLastInChain c chain
      else insertClientIntoChain fc c chain)"

definition update :: "'a world_scheme \<Rightarrow> win \<Rightarrow> Change \<Rightarrow> focus_chain \<Rightarrow> focus_chain" where
  "update w c change fc =
     (if \<not> wantsTabFocus w c then fc_remove c fc
      else
        let fc' = (if isOnAllDesktops w c
            then map_chains (\<lambda>d chain.
                if d = m_currentDesktop fc \<and> (change = MakeFirst \<or> change = MakeLast)
                then if change = MakeFirst then makeFirstInChain w c chain else makeLastInChain c chain
                else insertClientIntoChain fc c chain) fc
            else map_chains (\<lambda>d chain.
                if isOnDesktop w c (sint d) then updateClientInChain w fc c change chain
                else removeAll c chain) fc)
        in fc'\<lparr>m_mostRecentlyUsed := updateClientInChain w fc c change (m_mostRecentlyUsed fc')\<rparr>)"

text \<open>A null reference is in no chain.  \<open>None\<close> where a test for the same application does not return.\<close>

fun sameApp_last :: "'a world_scheme \<Rightarrow> win \<Rightarrow> win list \<Rightarrow> nat \<Rightarrow> int option" where
  "sameApp_last w ref chain 0 = Some (- 1)"
| "sameApp_last w ref chain (Suc i) =
     do {
       same \<leftarrow> belongsToSameApplication w ref (chain ! i);
       if same then Some (int i) else sameApp_last w ref chain i
     }"

definition moveAfterClientInChain ::
  "'a world_scheme \<Rightarrow> win \<Rightarrow> win option \<Rightarrow> win list \<Rightarrow> win list option" where
  "moveAfterClientInChain w c reference chain =
     (case reference of
        None \<Rightarrow> Some chain
      | Some ref \<Rightarrow>
          if ref \<notin> set chain then Some chain
          else do {
            same \<leftarrow> belongsToSameApplication w ref c;
            let chain = removeAll c chain;
            if same then Some (q_insert (q_indexOf ref chain) c chain)
            else do {
              i \<leftarrow> sameApp_last w ref chain (length chain);
              Some (if i \<ge> 0 then q_insert i c chain else chain)
            }
          })"

primrec each_chain ::
  "(uint \<Rightarrow> win list \<Rightarrow> win list option) \<Rightarrow> (uint \<times> win list) list \<Rightarrow> (uint \<times> win list) list option" where
  "each_chain f [] = Some []"
| "each_chain f (dc # rest) =
     do {
       chain \<leftarrow> f (fst dc) (snd dc);
       rest \<leftarrow> each_chain f rest;
       Some ((fst dc, chain) # rest)
     }"

definition moveAfterClient ::
  "'a world_scheme \<Rightarrow> win \<Rightarrow> win option \<Rightarrow> focus_chain \<Rightarrow> focus_chain option" where
  "moveAfterClient w c reference fc =
     (if \<not> wantsTabFocus w c then Some fc
      else do {
        chains \<leftarrow> each_chain (\<lambda>d chain. if \<not> isOnDesktop w c (sint d) then Some chain
                                 else moveAfterClientInChain w c reference chain)
                    (m_desktopFocusChains fc);
        mru \<leftarrow> moveAfterClientInChain w c reference (m_mostRecentlyUsed fc);
        Some (fc\<lparr>m_desktopFocusChains := chains, m_mostRecentlyUsed := mru\<rparr>)
      })"

section \<open>Reading the chains\<close>

definition getForActivation :: "'a world_scheme \<Rightarrow> focus_chain \<Rightarrow> uint \<Rightarrow> int \<Rightarrow> win option" where
  "getForActivation w fc desktop scr =
     (case map_of (m_desktopFocusChains fc) desktop of
        None \<Rightarrow> None
      | Some chain \<Rightarrow>
          find_last (\<lambda>c. isShown w c False \<and> isOnCurrentActivity w c \<and>
              (\<not> m_separateScreenFocus fc \<or> t_screen (cl w c) = scr)) chain)"

definition getForActivationHere :: "'a world_scheme \<Rightarrow> focus_chain \<Rightarrow> uint \<Rightarrow> win option" where
  "getForActivationHere w fc desktop = getForActivation w fc desktop (current_screen w)"

definition firstMostRecentlyUsed :: "focus_chain \<Rightarrow> win option" where
  "firstMostRecentlyUsed fc =
     (if m_mostRecentlyUsed fc = [] then None else Some (hd (m_mostRecentlyUsed fc)))"

definition nextMostRecentlyUsed :: "focus_chain \<Rightarrow> win \<Rightarrow> win option" where
  "nextMostRecentlyUsed fc ref =
     (let chain = m_mostRecentlyUsed fc; index = q_indexOf ref chain in
      if chain = [] then None
      else if index = - 1 then Some (hd chain)
      else if index = 0 then Some (last chain)
      else Some (chain ! nat (index - 1)))"

definition isUsableFocusCandidate ::
  "'a world_scheme \<Rightarrow> focus_chain \<Rightarrow> win \<Rightarrow> win option \<Rightarrow> bool" where
  "isUsableFocusCandidate w fc c prev =
     (Some c \<noteq> prev \<and> isShown w c False \<and> isOnCurrentDesktop w c \<and> isOnCurrentActivity w c \<and>
      (\<not> m_separateScreenFocus fc \<or>
       isOnScreen w c (case prev of None \<Rightarrow> current_screen w | Some p \<Rightarrow> t_screen (cl w p))))"

definition nextForDesktop :: "'a world_scheme \<Rightarrow> focus_chain \<Rightarrow> win option \<Rightarrow> uint \<Rightarrow> win option" where
  "nextForDesktop w fc ref desktop =
     (case map_of (m_desktopFocusChains fc) desktop of
        None \<Rightarrow> None
      | Some chain \<Rightarrow> find_last (\<lambda>c. isUsableFocusCandidate w fc c ref) chain)"

definition fc_contains :: "focus_chain \<Rightarrow> win \<Rightarrow> bool" where
  "fc_contains fc c = (c \<in> set (m_mostRecentlyUsed fc))"

definition fc_containsOn :: "focus_chain \<Rightarrow> win \<Rightarrow> uint \<Rightarrow> bool" where
  "fc_containsOn fc c desktop =
     (case map_of (m_desktopFocusChains fc) desktop of None \<Rightarrow> False | Some chain \<Rightarrow> c \<in> set chain)"

section \<open>One chain\<close>

text \<open>Every change of a chain keeps it free of repetitions and leaves the other windows in the
  order they had.\<close>

definition others :: "win \<Rightarrow> win list \<Rightarrow> win list" where
  "others c = removeAll c"

lemma others_simps [qlist_simps]:
  "others c (removeAll c xs) = others c xs" "others c (xs @ [c]) = others c xs"
  "others c (c # xs) = others c xs" "others c (q_insert i c xs) = others c xs"
  by (simp_all add: others_def)

definition reorders :: "win \<Rightarrow> win list \<Rightarrow> win list \<Rightarrow> bool" where
  "reorders c chain chain' \<longleftrightarrow> (distinct chain \<longrightarrow> distinct chain') \<and> others c chain' = others c chain"

lemma reorders_refl: "reorders c xs xs"
  by (simp add: reorders_def)

lemma reorders_trans: "reorders c xs ys \<Longrightarrow> reorders c ys zs \<Longrightarrow> reorders c xs zs"
  by (auto simp: reorders_def)

lemma reorders_members: "reorders c xs ys \<Longrightarrow> x \<noteq> c \<Longrightarrow> x \<in> set ys \<longleftrightarrow> x \<in> set xs"
  unfolding reorders_def others_def by (metis DiffE DiffI set_removeAll singletonD)

lemma reorders_removeAll: "reorders c xs (removeAll c xs)"
  by (simp add: reorders_def qlist_simps distinct_removeAll)

lemma reorders_insert: "reorders c xs (q_insert i c (removeAll c xs))"
  by (simp add: reorders_def qlist_simps distinct_removeAll)

lemma reorders_makeLast: "reorders c xs (makeLastInChain c xs)"
  by (simp add: reorders_def makeLastInChain_def qlist_simps distinct_removeAll)

lemma reorders_makeFirst: "reorders c xs (makeFirstInChain w c xs)"
  by (simp add: reorders_def makeFirstInChain_def Let_def qlist_simps distinct_removeAll)

lemma reorders_insertClient: "reorders c xs (insertClientIntoChain fc c xs)"
  by (auto simp: reorders_def insertClientIntoChain_def qlist_simps split: option.split)

lemmas chain_changes =
  reorders_removeAll reorders_makeLast reorders_makeFirst reorders_insertClient

lemma reorders_updateClient: "reorders c xs (updateClientInChain w fc c change xs)"
  by (simp add: updateClientInChain_def chain_changes)

lemma reorders_moveAfter:
  assumes "moveAfterClientInChain w c r xs = Some ys"
  shows "reorders c xs ys"
  using assms reorders_removeAll [of c xs] reorders_insert [of c xs]
  by (auto simp: moveAfterClientInChain_def Let_def reorders_refl bind_eq_Some_conv
      split: option.splits if_splits)

lemma chain_members:
  "c \<in> set (makeFirstInChain w c xs)" "c \<in> set (makeLastInChain c xs)"
  "c \<in> set (insertClientIntoChain fc c xs)" "c \<in> set (updateClientInChain w fc c change xs)"
  by (auto simp: makeFirstInChain_def makeLastInChain_def insertClientIntoChain_def
      updateClientInChain_def Let_def split: option.split)

text \<open>Minimized windows stay behind the others.\<close>

definition minimized_last :: "'a world_scheme \<Rightarrow> win list \<Rightarrow> bool" where
  "minimized_last w chain \<longleftrightarrow> sorted_wrt (\<lambda>a b. isMinimized w b \<longrightarrow> isMinimized w a) chain"

lemma minimized_last_split:
  "minimized_last w chain \<longleftrightarrow>
     (\<exists>ms os. chain = ms @ os \<and> (\<forall>m\<in>set ms. isMinimized w m) \<and> (\<forall>x\<in>set os. \<not> isMinimized w x))"
proof (induction chain)
  case Nil
  then show ?case by (simp add: minimized_last_def)
next
  case (Cons a chain)
  show ?case
  proof
    assume sorted: "minimized_last w (a # chain)"
    then obtain ms os where mo: "chain = ms @ os" "\<forall>m\<in>set ms. isMinimized w m" "\<forall>x\<in>set os. \<not> isMinimized w x"
      using Cons by (auto simp: minimized_last_def)
    show "\<exists>ms os. a # chain = ms @ os \<and> (\<forall>m\<in>set ms. isMinimized w m) \<and> (\<forall>x\<in>set os. \<not> isMinimized w x)"
    proof (cases "isMinimized w a")
      case True
      with mo show ?thesis by (intro exI [of _ "a # ms"] exI [of _ os]) simp
    next
      case False
      with sorted have "\<forall>x\<in>set chain. \<not> isMinimized w x" by (auto simp: minimized_last_def)
      with False show ?thesis by (intro exI [of _ "[]"] exI [of _ "a # chain"]) simp
    qed
  next
    assume "\<exists>ms os. a # chain = ms @ os \<and> (\<forall>m\<in>set ms. isMinimized w m) \<and> (\<forall>x\<in>set os. \<not> isMinimized w x)"
    then obtain ms os where mo: "a # chain = ms @ os" "\<forall>m\<in>set ms. isMinimized w m" "\<forall>x\<in>set os. \<not> isMinimized w x"
      by blast
    show "minimized_last w (a # chain)"
      unfolding mo(1) minimized_last_def sorted_wrt_append
      using mo(2,3) by (auto simp: sorted_wrt_iff_nth_less)
  qed
qed

lemma last_index_split:
  assumes "\<forall>m\<in>set ms. P m" "\<forall>x\<in>set os. \<not> P x"
  shows "last_index P (ms @ os) = int (length ms) - 1"
proof (cases ms rule: rev_cases)
  case Nil
  with assms(2) show ?thesis using last_index_neg_iff [of P os] by simp
next
  case (snoc ys y)
  let ?i = "last_index P (ms @ os)"
  have "P ((ms @ os) ! length ys)" using snoc assms(1) by (simp add: nth_append)
  then have "\<not> ?i < int (length ys)" using last_index_later [of P "ms @ os" "length ys"] snoc by auto
  then have ge: "int (length ys) \<le> ?i" "0 \<le> ?i" by auto
  have "nat ?i < length ms"
  proof (rule ccontr)
    assume "\<not> nat ?i < length ms"
    then have "(ms @ os) ! nat ?i \<in> set os"
      using last_index_range [of P "ms @ os"] ge by (auto simp: nth_append)
    with last_index_hit [OF ge(2)] assms(2) show False by blast
  qed
  with ge snoc show ?thesis by auto
qed

lemma makeFirst_minimized_last:
  assumes "minimized_last w chain"
  shows "minimized_last w (makeFirstInChain w c chain)"
proof -
  obtain ms os where mo: "removeAll c chain = ms @ os" "\<forall>m\<in>set ms. isMinimized w m"
      "\<forall>x\<in>set os. \<not> isMinimized w x"
    using assms unfolding minimized_last_split by (auto 4 4 simp: removeAll_append)
  show ?thesis
  proof (cases "isMinimized w c")
    case True
    have i: "last_index (isMinimized w) (ms @ os) = int (length ms) - 1"
      by (rule last_index_split [OF mo(2,3)])
    have "q_insert (int (length ms)) c (ms @ os) = ms @ c # os" by (simp add: q_insert_def)
    then have "makeFirstInChain w c chain = ms @ c # os"
      using True i by (cases ms) (auto simp: makeFirstInChain_def Let_def mo(1) add.commute)
    with True mo show ?thesis
      unfolding minimized_last_split by (intro exI [of _ "ms @ [c]"] exI [of _ os]) auto
  next
    case False
    with mo show ?thesis
      unfolding minimized_last_split
      by (intro exI [of _ ms] exI [of _ "os @ [c]"]) (auto simp: makeFirstInChain_def Let_def)
  qed
qed

section \<open>All chains\<close>

text \<open>
  What a change for the window \<open>c\<close> may do to the chains: the desktops stay the same, and each
  chain is reordered around \<open>c\<close>.
\<close>

definition chains_ok :: "focus_chain \<Rightarrow> bool" where
  "chains_ok fc \<longleftrightarrow> distinct (map fst (m_desktopFocusChains fc)) \<and> distinct (m_mostRecentlyUsed fc) \<and>
     (\<forall>chain\<in>snd ` set (m_desktopFocusChains fc). distinct chain)"

definition changes_chains :: "win \<Rightarrow> focus_chain \<Rightarrow> focus_chain \<Rightarrow> bool" where
  "changes_chains c fc fc' \<longleftrightarrow>
     list_all2 (\<lambda>(d, chain) (d', chain'). d' = d \<and> reorders c chain chain')
       (m_desktopFocusChains fc) (m_desktopFocusChains fc') \<and>
     reorders c (m_mostRecentlyUsed fc) (m_mostRecentlyUsed fc')"

lemma changes_chains_ok:
  assumes "changes_chains c fc fc'" "chains_ok fc"
  shows "chains_ok fc'"
proof -
  let ?R = "\<lambda>(d, chain) (d', chain'). d' = d \<and> reorders c chain chain'"
  have "list_all2 ?R xs ys \<Longrightarrow> (\<forall>chain\<in>snd ` set xs. distinct chain) \<Longrightarrow>
      map fst ys = map fst xs \<and> (\<forall>chain\<in>snd ` set ys. distinct chain)" for xs ys
    by (induction rule: list_all2_induct) (auto simp: reorders_def)
  with assms show ?thesis unfolding changes_chains_def chains_ok_def by (auto simp: reorders_def)
qed

lemma map_chains_list:
  assumes "\<And>d chain. reorders c chain (f d chain)"
  shows "list_all2 (\<lambda>(d, chain) (d', chain'). d' = d \<and> reorders c chain chain')
    xs (map (\<lambda>(d, chain). (d, f d chain)) xs)"
  using assms by (induction xs) auto

lemma each_chain_list:
  assumes "each_chain f xs = Some ys" "\<And>d chain chain'. f d chain = Some chain' \<Longrightarrow> reorders c chain chain'"
  shows "list_all2 (\<lambda>(d, chain) (d', chain'). d' = d \<and> reorders c chain chain') xs ys"
  using assms(1)
  by (induction xs arbitrary: ys) (auto simp: bind_eq_Some_conv intro: assms(2))

lemma fc_remove_changes: "changes_chains c fc (fc_remove c fc)"
  by (simp add: changes_chains_def fc_remove_def map_chains_def map_chains_list reorders_removeAll)

lemma update_changes: "changes_chains c fc (update w c change fc)"
proof (cases "wantsTabFocus w c")
  case True
  then show ?thesis
    unfolding update_def
    by (auto simp: changes_chains_def map_chains_def Let_def reorders_updateClient chain_changes
        intro!: map_chains_list)
next
  case False
  then show ?thesis by (simp add: update_def fc_remove_changes)
qed

lemma moveAfterClient_changes:
  assumes "moveAfterClient w c r fc = Some fc'"
  shows "changes_chains c fc fc'"
proof (cases "wantsTabFocus w c")
  case True
  with assms obtain chains mru where m:
    "each_chain (\<lambda>d chain. if \<not> isOnDesktop w c (sint d) then Some chain
       else moveAfterClientInChain w c r chain) (m_desktopFocusChains fc) = Some chains"
    "moveAfterClientInChain w c r (m_mostRecentlyUsed fc) = Some mru"
    "fc' = fc\<lparr>m_desktopFocusChains := chains, m_mostRecentlyUsed := mru\<rparr>"
    by (auto simp: moveAfterClient_def bind_eq_Some_conv)
  have "list_all2 (\<lambda>(d, chain) (d', chain'). d' = d \<and> reorders c chain chain')
      (m_desktopFocusChains fc) chains"
    by (rule each_chain_list [OF m(1)])
      (auto simp: reorders_refl intro: reorders_moveAfter split: if_splits)
  with m(2,3) show ?thesis by (simp add: changes_chains_def reorders_moveAfter)
next
  case False
  with assms map_chains_list [of c "\<lambda>_ chain. chain" "m_desktopFocusChains fc"] show ?thesis
    by (simp add: moveAfterClient_def changes_chains_def reorders_refl case_prod_beta)
qed

lemma resize_chains_ok:
  assumes "chains_ok fc"
  shows "chains_ok (resize p n fc)"
proof -
  have upd: "distinct (map fst (fold (\<lambda>i. AList.update i []) is m)) \<and>
      (\<forall>chain\<in>snd ` set (fold (\<lambda>i. AList.update i []) is m). distinct chain)"
    if "distinct (map fst m)" "\<forall>chain\<in>snd ` set m. distinct chain" for "is" and m :: "(uint \<times> win list) list"
    using that
  proof (induction "is" arbitrary: m)
    case (Cons i "is")
    have "set (AList.update i [] m) \<subseteq> insert (i, []) (set m)"
      by (induction m) auto
    then have d: "\<forall>chain\<in>snd ` set (AList.update i [] m). distinct chain" using Cons.prems(2) by auto
    have "distinct (map fst (AList.update i [] m))" using Cons.prems(1) by (rule distinct_update)
    from Cons.IH [OF this d] show ?case by simp
  qed simp
  have del: "distinct (map fst (fold AList.delete is m)) \<and>
      (\<forall>chain\<in>snd ` set (fold AList.delete is m). distinct chain)"
    if "distinct (map fst m)" "\<forall>chain\<in>snd ` set m. distinct chain" for "is" and m :: "(uint \<times> win list) list"
    using that
  proof (induction "is" arbitrary: m)
    case (Cons i "is")
    have "set (AList.delete i m) \<subseteq> set m" by (auto simp: AList.delete_eq)
    then have d: "\<forall>chain\<in>snd ` set (AList.delete i m). distinct chain" using Cons.prems(2) by blast
    have "distinct (map fst (AList.delete i m))" using Cons.prems(1) by (rule distinct_delete)
    from Cons.IH [OF this d] show ?case by simp
  qed simp
  from assms have ok: "distinct (map fst (m_desktopFocusChains fc))" "distinct (m_mostRecentlyUsed fc)"
    "\<forall>chain\<in>snd ` set (m_desktopFocusChains fc). distinct chain" unfolding chains_ok_def by blast+
  note added = upd [OF ok(1,3)]
  note removed = del [OF conjunct1 [OF added] conjunct2 [OF added]]
  show ?thesis
    unfolding chains_ok_def resize_def Let_def using removed ok(2) by simp
qed

section \<open>The states the focus chain goes through\<close>

text \<open>One call of a slot or of \<open>update\<close>, \<open>moveAfterClient\<close>, in any state of the windows.\<close>

inductive fc_step :: "focus_chain \<Rightarrow> focus_chain \<Rightarrow> bool" where
  remove: "fc_step fc (fc_remove c fc)"
| resize: "fc_step fc (resize p n fc)"
| update: "fc_step fc (update (w :: world) c change fc)"
| moveAfter: "moveAfterClient (w :: world) c r fc = Some fc' \<Longrightarrow> fc_step fc fc'"
| separate: "fc_step fc (setSeparateScreenFocus b fc)"
| active: "fc_step fc (fc_setActiveClient a fc)"
| current: "fc_step fc (setCurrentDesktop p n fc)"

inductive fc_reachable :: "focus_chain \<Rightarrow> bool" where
  initial: "fc_reachable initial_focus_chain"
| step: "fc_reachable fc \<Longrightarrow> fc_step fc fc' \<Longrightarrow> fc_reachable fc'"

inductive_cases fc_stepE: "fc_step fc fc'"

lemma fc_step_chains_ok:
  assumes "fc_step fc fc'" "chains_ok fc"
  shows "chains_ok fc'"
  using assms
proof (induction rule: fc_step.induct)
  case update
  then show ?case by (rule changes_chains_ok [OF update_changes])
next
  case moveAfter
  then show ?case using changes_chains_ok [OF moveAfterClient_changes] by blast
next
  case remove
  then show ?case by (rule changes_chains_ok [OF fc_remove_changes])
next
  case resize
  then show ?case by (rule resize_chains_ok)
qed (auto simp: chains_ok_def setSeparateScreenFocus_def fc_setActiveClient_def setCurrentDesktop_def)

lemma fc_reachable_chains_ok: "fc_reachable fc \<Longrightarrow> chains_ok fc"
proof (induction rule: fc_reachable.induct)
  case initial
  then show ?case by (simp add: chains_ok_def initial_focus_chain_def)
next
  case (step fc fc')
  then show ?case by (blast intro: fc_step_chains_ok)
qed

lemma map_of_map_chains:
  "map_of (map (\<lambda>(d, chain). (d, f d chain)) xs) d = map_option (f d) (map_of xs d)"
  by (induction xs) auto

lemma changes_chains_map_of:
  assumes "changes_chains c fc fc'"
  shows "rel_option (reorders c) (map_of (m_desktopFocusChains fc) d) (map_of (m_desktopFocusChains fc') d)"
proof -
  have "list_all2 (\<lambda>(d, chain) (d', chain'). d' = d \<and> reorders c chain chain') xs ys \<Longrightarrow>
      rel_option (reorders c) (map_of xs d) (map_of ys d)" for xs ys
    by (induction rule: list_all2_induct) auto
  with assms show ?thesis by (simp add: changes_chains_def)
qed

section \<open>Walking the most recently used chain\<close>

lemma q_indexOf_nth:
  assumes "distinct xs" "i < length xs"
  shows "q_indexOf (xs ! i) xs = int i"
proof -
  have "xs ! i \<in> set xs" using assms by simp
  note q = q_indexOf_in [OF this]
  then have "nat (q_indexOf (xs ! i) xs) = i"
    using assms nth_eq_iff_index_eq [of xs "nat (q_indexOf (xs ! i) xs)" i] by auto
  with q show ?thesis by auto
qed

lemma nextMostRecentlyUsed_step:
  assumes "distinct (m_mostRecentlyUsed fc)" "i < length (m_mostRecentlyUsed fc)"
  shows "nextMostRecentlyUsed fc (m_mostRecentlyUsed fc ! i) =
    Some (m_mostRecentlyUsed fc ! ((i + length (m_mostRecentlyUsed fc) - 1) mod length (m_mostRecentlyUsed fc)))"
proof -
  let ?xs = "m_mostRecentlyUsed fc"
  have ne: "?xs \<noteq> []" using assms(2) by auto
  show ?thesis
  proof (cases i)
    case 0
    then show ?thesis using ne q_indexOf_nth [OF assms]
      by (simp add: nextMostRecentlyUsed_def Let_def last_conv_nth)
  next
    case (Suc k)
    then have "(i + length ?xs - 1) mod length ?xs = k" using assms(2) by simp
    then show ?thesis using ne q_indexOf_nth [OF assms] Suc
      by (simp add: nextMostRecentlyUsed_def Let_def)
  qed
qed

fun walk_mru :: "focus_chain \<Rightarrow> nat \<Rightarrow> win \<Rightarrow> win option" where
  "walk_mru fc 0 c = Some c"
| "walk_mru fc (Suc n) c = (case nextMostRecentlyUsed fc c of None \<Rightarrow> None | Some d \<Rightarrow> walk_mru fc n d)"

lemma walk_mru_index:
  assumes "distinct (m_mostRecentlyUsed fc)" "i < length (m_mostRecentlyUsed fc)" "k \<le> length (m_mostRecentlyUsed fc)"
  shows "walk_mru fc k (m_mostRecentlyUsed fc ! i) =
    Some (m_mostRecentlyUsed fc ! ((i + length (m_mostRecentlyUsed fc) - k) mod length (m_mostRecentlyUsed fc)))"
  using assms(2,3)
proof (induction k arbitrary: i)
  case 0
  then show ?case by simp
next
  case (Suc k)
  let ?n = "length (m_mostRecentlyUsed fc)"
  let ?j = "(i + ?n - 1) mod ?n"
  have j: "?j < ?n" using Suc.prems(1) by (intro mod_less_divisor) linarith
  have "(?j + ?n - k) mod ?n = (i + ?n - Suc k) mod ?n"
  proof -
    have "(?j + (?n - k)) mod ?n = (i + ?n - 1 + (?n - k)) mod ?n" by (rule mod_add_left_eq)
    also have "i + ?n - 1 + (?n - k) = i + ?n - Suc k + ?n" using Suc.prems by linarith
    also have "(i + ?n - Suc k + ?n) mod ?n = (i + ?n - Suc k) mod ?n" by simp
    finally show ?thesis using Suc.prems by simp
  qed
  with Suc.IH [OF j] Suc.prems nextMostRecentlyUsed_step [OF assms(1) Suc.prems(1)]
  show ?case by simp
qed

section \<open>Properties of the focus chain\<close>

text \<open>C32: In every state the focus chain can reach, no window stands twice in a chain, and no
  desktop has two chains.\<close>

theorem focus_chains_distinct:
  assumes "fc_reachable fc"
  shows "distinct (m_mostRecentlyUsed fc) \<and> distinct (map fst (m_desktopFocusChains fc)) \<and>
    (\<forall>chain\<in>snd ` set (m_desktopFocusChains fc). distinct chain)"
  using fc_reachable_chains_ok [OF assms] unfolding chains_ok_def by blast

theorem focus_chains_distinct_witness:
  "distinct (m_mostRecentlyUsed (update empty_session 5 MakeFirst (resize 0 2 initial_focus_chain)))"
proof -
  have "fc_reachable (update empty_session 5 MakeFirst (resize 0 2 initial_focus_chain))"
    by (rule fc_reachable.step [OF fc_reachable.step [OF fc_reachable.initial fc_step.resize] fc_step.update])
  then show ?thesis using focus_chains_distinct by blast
qed

text \<open>An update for a window leaves every other window in its place relative to the rest, in
  the chain of every desktop and in the most recently used one; a window that wants the focus is
  then exactly in the chains of the desktops it is on, one that does not in no chain.\<close>

lemma update_places:
  "(\<forall>d. rel_option (\<lambda>chain chain'. removeAll c chain' = removeAll c chain \<and>
          (c \<in> set chain' \<longleftrightarrow> wantsTabFocus w c \<and> isOnDesktop w c (sint d)))
       (map_of (m_desktopFocusChains fc) d) (map_of (m_desktopFocusChains (update w c change fc)) d)) \<and>
   removeAll c (m_mostRecentlyUsed (update w c change fc)) = removeAll c (m_mostRecentlyUsed fc) \<and>
   (c \<in> set (m_mostRecentlyUsed (update w c change fc)) \<longleftrightarrow> wantsTabFocus w c)"
proof -
  have rel: "rel_option (reorders c) (map_of (m_desktopFocusChains fc) d)
      (map_of (m_desktopFocusChains (update w c change fc)) d)" for d
    by (rule changes_chains_map_of [OF update_changes])
  have all: "isOnDesktop w c e" if "isOnAllDesktops w c" for e
    using that by (simp add: isOnDesktop_def)
  have mem: "c \<in> set chain' \<longleftrightarrow> wantsTabFocus w c \<and> isOnDesktop w c (sint d)"
    if "map_of (m_desktopFocusChains (update w c change fc)) d = Some chain'" for d chain'
    using that all [of "sint d"]
    by (cases "wantsTabFocus w c"; cases "isOnAllDesktops w c"; cases "isOnDesktop w c (sint d)")
      (auto simp: update_def Let_def fc_remove_def map_chains_def map_of_map_chains chain_members)
  have "rel_option (\<lambda>chain chain'. removeAll c chain' = removeAll c chain \<and>
          (c \<in> set chain' \<longleftrightarrow> wantsTabFocus w c \<and> isOnDesktop w c (sint d)))
       (map_of (m_desktopFocusChains fc) d) (map_of (m_desktopFocusChains (update w c change fc)) d)" for d
    using rel [of d] mem [of d]
    by (cases "map_of (m_desktopFocusChains fc) d"; cases "map_of (m_desktopFocusChains (update w c change fc)) d")
      (auto simp: reorders_def others_def)
  moreover have "reorders c (m_mostRecentlyUsed fc) (m_mostRecentlyUsed (update w c change fc))"
    using update_changes [of c fc w change] by (simp add: changes_chains_def)
  moreover have "c \<in> set (m_mostRecentlyUsed (update w c change fc)) \<longleftrightarrow> wantsTabFocus w c"
    using chain_members by (auto simp: update_def Let_def fc_remove_def)
  ultimately show ?thesis by (auto simp: reorders_def others_def)
qed

text \<open>A window that is made first and is shown is the one the focus goes to next, on every
  desktop it is on: nothing older in the chain gets in its way.\<close>

lemma makeFirst_getForActivation:
  assumes "wantsTabFocus w c" "isOnDesktop w c (sint d)" "isOnAllDesktops w c \<longrightarrow> d = m_currentDesktop fc"
    and "isShown w c False" "isOnCurrentActivity w c"
    and "m_separateScreenFocus fc \<longrightarrow> t_screen (cl w c) = scr"
    and "map_of (m_desktopFocusChains fc) d \<noteq> None"
  shows "getForActivation w (update w c MakeFirst fc) d scr = Some c"
proof -
  have notmin: "\<not> isMinimized w c" using assms(4) by (simp add: isShown_def)
  obtain chain where chain: "map_of (m_desktopFocusChains fc) d = Some chain" using assms(7) by blast
  have "map_of (m_desktopFocusChains (update w c MakeFirst fc)) d = Some (makeFirstInChain w c chain)"
    using assms(1-3) chain
    by (auto simp: update_def Let_def map_chains_def map_of_map_chains updateClientInChain_def)
  moreover have "makeFirstInChain w c chain = removeAll c chain @ [c]"
    using notmin by (simp add: makeFirstInChain_def Let_def)
  moreover have "m_separateScreenFocus (update w c MakeFirst fc) = m_separateScreenFocus fc"
    by (simp add: update_def Let_def map_chains_def fc_remove_def)
  ultimately show ?thesis using assms(4-6) by (simp add: getForActivation_def)
qed

lemma makeFirst_getForActivation_witness:
  "getForActivation empty_session (update empty_session 5 MakeFirst (resize 0 2 initial_focus_chain)) 1 0 = Some 5"
proof (rule makeFirst_getForActivation)
  show "map_of (m_desktopFocusChains (resize 0 2 initial_focus_chain)) 1 \<noteq> None"
    by code_simp
qed (simp_all add: wantsTabFocus_def isNormalWindow_def windowType_def isClient_def isOnDesktop_def
    isOnAllDesktops_def OnAllDesktops_def isShown_def isMinimized_def isShade_def isOnCurrentActivity_def
    resize_def initial_focus_chain_def empty_session_def plain_client_def)

text \<open>Going through the most recently used windows visits the window \<open>k\<close> places before the
  one it started from after \<open>k\<close> steps, around the end of the chain, so that after as many steps
  as there are windows it has visited every one of them once and is back.\<close>

lemma mostRecentlyUsed_cycle:
  assumes "fc_reachable fc" "c \<in> set (m_mostRecentlyUsed fc)"
  shows "walk_mru fc (length (m_mostRecentlyUsed fc)) c = Some c \<and>
    (\<lambda>k. the (walk_mru fc k c)) ` {0..<length (m_mostRecentlyUsed fc)} = set (m_mostRecentlyUsed fc)"
proof -
  let ?xs = "m_mostRecentlyUsed fc"
  let ?n = "length ?xs"
  have dist: "distinct ?xs" using fc_reachable_chains_ok [OF assms(1)] unfolding chains_ok_def by blast
  obtain i where i: "i < ?n" "?xs ! i = c" using assms(2) by (auto simp: in_set_conv_nth)
  note walk = walk_mru_index [OF dist i(1), unfolded i(2)]
  have "\<exists>k\<in>{0..<?n}. the (walk_mru fc k c) = x" if "x \<in> set ?xs" for x
  proof -
    obtain j where j: "j < ?n" "?xs ! j = x" using \<open>x \<in> set ?xs\<close> by (auto simp: in_set_conv_nth)
    define k where "k = (if j \<le> i then i - j else i + ?n - j)"
    have "k < ?n" "(i + ?n - k) mod ?n = j" using i j by (auto simp: k_def)
    then show ?thesis using walk [of k] j(2) by (intro bexI [of _ k]) auto
  qed
  moreover have "the (walk_mru fc k c) \<in> set ?xs" if "k < ?n" for k
  proof -
    have "(i + ?n - k) mod ?n < ?n" using that by (intro mod_less_divisor) linarith
    with walk [of k] that show ?thesis by simp
  qed
  ultimately show ?thesis using walk [of ?n] i by auto
qed

lemma mostRecentlyUsed_cycle_witness:
  "walk_mru (update empty_session 5 MakeFirst initial_focus_chain) 1 5 = Some 5"
proof -
  let ?fc = "update empty_session 5 MakeFirst initial_focus_chain"
  have "fc_reachable ?fc" by (rule fc_reachable.step [OF fc_reachable.initial fc_step.update])
  moreover have "m_mostRecentlyUsed ?fc = [5]"
    by (simp add: update_def wantsTabFocus_def isNormalWindow_def windowType_def isClient_def
        updateClientInChain_def makeFirstInChain_def isMinimized_def Let_def map_chains_def
        isOnAllDesktops_def OnAllDesktops_def initial_focus_chain_def empty_session_def plain_client_def)
  ultimately show ?thesis using mostRecentlyUsed_cycle [of ?fc 5] by simp
qed

end
