(* ===== verification/Stacking.thy ===== *)
theory Stacking
  imports FocusChain "HOL-Library.Multiset_Order"
begin

text \<open>
  \<^verbatim>\<open>layers.cpp\<close>: the stacking order of the windows.  Raising and lowering change the
  unconstrained order; the order shown is computed from it by sorting the windows into layers
  and moving transients above their main windows.  While a blocker is alive the computation is
  put off, and made once when the last blocker goes.

  The loop that moves transients is partial: \<open>None\<close> stands for a call that does not come back,
  because that loop or a walk up the main windows does not end, or because an assertion fails.
\<close>

section \<open>State\<close>

record wm = world +
  focus :: focus_chain
  support_window :: xid
  edge_windows :: "xid list"
  session_saving :: bool
  focusStealingPreventionLevel :: int
  timestampCompare :: "uint \<Rightarrow> uint \<Rightarrow> int"
  attention_chain :: "win list"

datatype RequestSource = FromUnknown | FromApplication | FromTool

section \<open>The constrained order\<close>

text \<open>
  One round of the loop that fills the layers: the window's layer, corrected by the layer its
  group has on its screen so far.  \<open>layer[UnknownLayer]\<close>, which does not exist, is never read.
\<close>

type_synonym minimum_layer = "int \<times> nat option \<Rightarrow> layer option"

definition stackOne ::
  "win \<Rightarrow> 'a wm_scheme \<times> minimum_layer \<times> (layer \<Rightarrow> win list) \<Rightarrow> 'a wm_scheme \<times> minimum_layer \<times> (layer \<Rightarrow> win list)" where
  "stackOne c s =
     (case s of (w, mins, lay) \<Rightarrow>
        let (l, w) = read_layer c w;
            key = (t_screen (cl w c), if isClient w c then in_group (cl w c) else None)
        in case mins key of
             Some m \<Rightarrow>
               let l = (if m = ActiveLayer \<and> l > BelowLayer then ActiveLayer else l)
               in (w, mins(key \<mapsto> l), lay(l := lay l @ [c]))
           | None \<Rightarrow>
               (w, if isClient w c then mins(key \<mapsto> l) else mins, lay(l := lay l @ [c])))"

definition layeredOrder :: "'a wm_scheme \<Rightarrow> 'a wm_scheme \<times> win list" where
  "layeredOrder w =
     (let (w, mins, lay) = fold stackOne (unconstrained_stacking_order w) (w, Map.empty, \<lambda>_. [])
      in (w, concat (map lay layers)))"

definition keepTransientAbove :: "'a world_scheme \<Rightarrow> win \<Rightarrow> win \<Rightarrow> bool" where
  "keepTransientAbove w mainwindow c =
     (if isSplash w c \<and> isDialog w mainwindow then False
      else if isClient w c \<and> isDialog w c \<and> \<not> m_modal (cl w c) \<and> groupTransient w c then False
      else if isDock w mainwindow \<and> \<not> placement_hint (cl w c) then False
      else True)"

text \<open>Is \<open>c2\<close> a window the transient \<open>c\<close> has to stay above, for the two branches of the loop.\<close>

definition above_main :: "'a world_scheme \<Rightarrow> win \<Rightarrow> win \<Rightarrow> bool" where
  "above_main w c2 c =
     (isClient w c2 \<and>
      (if groupTransient w c then group_members w c \<noteq> [] \<and> hasTransient w c2 c True
       else m_transientFor (cl w c) = Some c2) \<and>
      keepTransientAbove w c2 c)"

text \<open>
  The search from the top for the main window, which gives up at the window itself, and the
  loop, which is independent of what a transient and a main window is.
\<close>

definition main_index :: "('c \<Rightarrow> 'c \<Rightarrow> bool) \<Rightarrow> 'c list \<Rightarrow> 'c \<Rightarrow> int" where
  "main_index is_main stacking c =
     (let i2 = last_index (\<lambda>x. x = c \<or> is_main x c) stacking in
      if i2 \<ge> 0 \<and> stacking ! nat i2 = c then - 1 else i2)"

partial_function (option) transientLoop ::
  "('c \<Rightarrow> bool) \<Rightarrow> ('c \<Rightarrow> 'c \<Rightarrow> bool) \<Rightarrow> ('c \<Rightarrow> bool) \<Rightarrow> int \<Rightarrow> 'c list \<Rightarrow> 'c list option" where
  "transientLoop is_transient is_main has_transients i stacking =
     (if i < 0 then Some stacking
      else
        let current = stacking ! nat i in
        if \<not> is_transient current
        then transientLoop is_transient is_main has_transients (i - 1) stacking
        else
          let i2 = main_index is_main stacking current in
          if i2 = - 1
          then transientLoop is_transient is_main has_transients (i - 1) stacking
          else
            let stacking = q_removeAt i stacking;
                i = i - 1;
                i2 = i2 - 1;
                i = (if has_transients current then i2 else i);
                i2 = i2 + 1;
                stacking = q_insert i2 current stacking
            in transientLoop is_transient is_main has_transients i stacking)"

declare transientLoop.simps [code]

definition constrainedStackingOrder :: "'a wm_scheme \<Rightarrow> ('a wm_scheme \<times> win list) option" where
  "constrainedStackingOrder w =
     (let (w, stacking) = layeredOrder w in
      map_option (Pair w)
        (transientLoop (\<lambda>c. isClient w c \<and> isTransient w c) (above_main w)
           (\<lambda>c. m_transients (cl w c) \<noteq> []) (int (length stacking) - 1) stacking))"

section \<open>Putting the order into effect\<close>

definition propagateClients :: "bool \<Rightarrow> 'a wm_scheme \<Rightarrow> 'a wm_scheme" where
  "propagateClients propagate_new_clients w =
     (let order = stacking_order w;
          shown = concat (map (\<lambda>c.
              if \<not> isClient w c \<or> hidden_preview (cl w c) then []
              else (if inputId (cl w c) \<noteq> WINDOW_NONE then [inputId (cl w c)] else []) @ [frameId (cl w c)])
            (rev order));
          kept = concat (map (\<lambda>c.
              if \<not> isClient w c \<or> \<not> hidden_preview (cl w c) then [] else [frameId (cl w c)])
            (rev order));
          w = do_call (RestackWindows (support_window w # edge_windows w @ shown @ kept)) w;
          w = (if propagate_new_clients
               then do_call (SetClientList (map (\<lambda>c. window (cl w c)) (desktops w @ clients w))) w
               else w);
          w = do_call (SetClientListStacking (map (\<lambda>c. window (cl w c)) (filter (isClient w) order))) w
      in w\<lparr>x_stacking_dirty := True\<rparr>)"

definition updateStackingOrder :: "bool \<Rightarrow> 'a wm_scheme \<Rightarrow> 'a wm_scheme option" where
  "updateStackingOrder propagate_new_clients w =
     (if block_stacking_updates w > 0
      then Some (if propagate_new_clients then w\<lparr>blocked_propagating_new_clients := True\<rparr> else w)
      else do {
        (w, new_stacking_order) \<leftarrow> constrainedStackingOrder w;
        let changed = (force_restacking w \<or> new_stacking_order \<noteq> stacking_order w);
        let w = w\<lparr>force_restacking := False, stacking_order := new_stacking_order\<rparr>;
        if changed \<or> propagate_new_clients
        then let w = do_call StackingOrderChanged (propagateClients propagate_new_clients w)
             in Some (case active_client w of None \<Rightarrow> w | Some a \<Rightarrow> do_call (UpdateMouseGrab a) w)
        else Some w
      })"

definition blockStackingUpdates :: "bool \<Rightarrow> 'a wm_scheme \<Rightarrow> 'a wm_scheme option" where
  "blockStackingUpdates block w =
     (if block then
        Some ((if block_stacking_updates w = 0 then w\<lparr>blocked_propagating_new_clients := False\<rparr> else w)
              \<lparr>block_stacking_updates := block_stacking_updates w + 1\<rparr>)
      else
        let w = w\<lparr>block_stacking_updates := block_stacking_updates w - 1\<rparr> in
        if block_stacking_updates w = 0
        then map_option (do_call CheckInputWindowStacking)
               (updateStackingOrder (blocked_propagating_new_clients w) w)
        else Some w)"

text \<open>\<open>StackingUpdatesBlocker\<close>: the rest of the block, between its construction and destruction.\<close>

definition with_blocker :: "('a wm_scheme \<Rightarrow> 'a wm_scheme option) \<Rightarrow> 'a wm_scheme \<Rightarrow> 'a wm_scheme option" where
  "with_blocker f w =
     do {
       w \<leftarrow> blockStackingUpdates True w;
       w \<leftarrow> f w;
       blockStackingUpdates False w
     }"

section \<open>Looking into the order\<close>

definition topClientOnDesktop :: "'a wm_scheme \<Rightarrow> int \<Rightarrow> int \<Rightarrow> bool \<Rightarrow> bool \<Rightarrow> win option" where
  "topClientOnDesktop w desktop scr unconstrained only_normal =
     find_last (\<lambda>c. isClient w c \<and>
         (isOnDesktop w c desktop \<and> isShown w c False \<and> isOnCurrentActivity w c) \<and>
         \<not> (scr \<noteq> - 1 \<and> t_screen (cl w c) \<noteq> scr) \<and>
         (\<not> only_normal \<or> wantsTabFocus w c \<and> \<not> isSpecialWindow w c))
       (if unconstrained then unconstrained_stacking_order w else stacking_order w)"

definition findDesktop :: "'a wm_scheme \<Rightarrow> bool \<Rightarrow> int \<Rightarrow> win option" where
  "findDesktop w topmost desktop =
     (let wanted = (\<lambda>c. isClient w c \<and> isOnDesktop w c desktop \<and> isDesktop w c \<and> isShown w c True)
      in if topmost then find_last wanted (stacking_order w) else find wanted (stacking_order w))"

text \<open>Moves the members that stand in the stacking order behind the others, in that order.\<close>

definition ensureStackingOrderInList :: "win list \<Rightarrow> win list \<Rightarrow> win list" where
  "ensureStackingOrderInList stacking xs =
     (if length xs < 2 then xs
      else fold (\<lambda>c result. if c \<in> set result then removeAll c result @ [c] else result) stacking xs)"

definition ensureStackingOrder :: "'a wm_scheme \<Rightarrow> win list \<Rightarrow> win list" where
  "ensureStackingOrder w xs =
     ensureStackingOrderInList (filter (isClient w) (stacking_order w)) xs"

section \<open>Lowering and raising\<close>

definition lowerOne :: "win \<Rightarrow> 'a wm_scheme \<Rightarrow> 'a wm_scheme" where
  "lowerOne c w =
     w\<lparr>unconstrained_stacking_order := c # removeAll c (unconstrained_stacking_order w)\<rparr>"

definition forget_raised :: "win \<Rightarrow> 'a wm_scheme \<Rightarrow> 'a wm_scheme" where
  "forget_raised c w = (if most_recently_raised w = Some c then w\<lparr>most_recently_raised := None\<rparr> else w)"

text \<open>\<open>lowerClient(c, true)\<close>, which the group is lowered with, and the whole operation.\<close>

definition lowerClientNoGroup :: "win \<Rightarrow> 'a wm_scheme \<Rightarrow> 'a wm_scheme option" where
  "lowerClientNoGroup c w =
     with_blocker (\<lambda>w. Some (forget_raised c (lowerOne c w))) (do_call (CancelAutoRaise c) w)"

definition lowerClient :: "win \<Rightarrow> bool \<Rightarrow> 'a wm_scheme \<Rightarrow> 'a wm_scheme option" where
  "lowerClient c nogroup w =
     with_blocker (\<lambda>w.
         let w = lowerOne c w in
         do {
           w \<leftarrow> (if \<not> nogroup \<and> isTransient w c
                 then let wins = (if isClient w c then ensureStackingOrder w (group_members w c) else [])
                      in foldM (\<lambda>o' w. if o' \<noteq> c then lowerClientNoGroup o' w else Some w) (rev wins) w
                 else Some w);
           Some (forget_raised c w)
         })
       (do_call (CancelAutoRaise c) w)"

primrec sameApp_first :: "'a wm_scheme \<Rightarrow> win \<Rightarrow> int \<Rightarrow> win list \<Rightarrow> int option" where
  "sameApp_first w c i [] = Some (- 1)"
| "sameApp_first w c i (x # xs) =
     (if \<not> isClient w x then sameApp_first w c (i + 1) xs
      else do {
        same \<leftarrow> belongsToSameApplication w x c;
        if same then Some i else sameApp_first w c (i + 1) xs
      })"

definition lowerClientWithinApplication :: "win \<Rightarrow> 'a wm_scheme \<Rightarrow> 'a wm_scheme option" where
  "lowerClientWithinApplication c w =
     with_blocker (\<lambda>w.
         let order = removeAll c (unconstrained_stacking_order w) in
         do {
           i \<leftarrow> sameApp_first w c 0 order;
           Some (w\<lparr>unconstrained_stacking_order :=
             (if i \<ge> 0 then q_insert i c order else c # order)\<rparr>)
         })
       (do_call (CancelAutoRaise c) w)"

text \<open>The main windows, from the nearest one up; the walk may run in a circle.\<close>

partial_function (option) mainsAbove :: "'a wm_scheme \<Rightarrow> win \<Rightarrow> win list option" where
  "mainsAbove w c =
     (case m_transientFor (cl w c) of
        None \<Rightarrow> Some []
      | Some t \<Rightarrow> do { ts \<leftarrow> mainsAbove w t; Some (t # ts) })"

declare mainsAbove.simps [code]

definition raiseOne :: "win \<Rightarrow> 'a wm_scheme \<Rightarrow> 'a wm_scheme" where
  "raiseOne c w =
     (let w = w\<lparr>unconstrained_stacking_order := removeAll c (unconstrained_stacking_order w) @ [c]\<rparr>
      in if \<not> isSpecialWindow w c then w\<lparr>most_recently_raised := Some c\<rparr> else w)"

definition raiseClientNoGroup :: "win \<Rightarrow> 'a wm_scheme \<Rightarrow> 'a wm_scheme option" where
  "raiseClientNoGroup c w =
     with_blocker (\<lambda>w. Some (raiseOne c w)) (do_call (CancelAutoRaise c) w)"

definition raiseClient :: "win \<Rightarrow> bool \<Rightarrow> 'a wm_scheme \<Rightarrow> 'a wm_scheme option" where
  "raiseClient c nogroup w =
     with_blocker (\<lambda>w.
         do {
           w \<leftarrow> (if \<not> nogroup \<and> isTransient w c
                 then do {
                   parents \<leftarrow> mainsAbove w c;
                   foldM raiseClientNoGroup parents w
                 }
                 else Some w);
           Some (raiseOne c w)
         })
       (do_call (CancelAutoRaise c) w)"

text \<open>From the top: stops at the window itself or at a window of its application.\<close>

primrec raise_target :: "'a wm_scheme \<Rightarrow> win \<Rightarrow> win list \<Rightarrow> win option option" where
  "raise_target w c [] = Some None"
| "raise_target w c (x # xs) =
     (if \<not> isClient w x then raise_target w c xs
      else if x = c then Some None
      else do {
        same \<leftarrow> belongsToSameApplication w x c;
        if same then Some (Some x) else raise_target w c xs
      })"

definition raiseClientWithinApplication :: "win \<Rightarrow> 'a wm_scheme \<Rightarrow> 'a wm_scheme option" where
  "raiseClientWithinApplication c w =
     with_blocker (\<lambda>w.
         do {
           target \<leftarrow> raise_target w c (rev (unconstrained_stacking_order w));
           Some (case target of
               None \<Rightarrow> w
             | Some other' \<Rightarrow>
                 let order = removeAll c (unconstrained_stacking_order w)
                 in w\<lparr>unconstrained_stacking_order := q_insert (q_indexOf other' order + 1) c order\<rparr>)
         })
       (do_call (CancelAutoRaise c) w)"

definition raiseOrLowerClient :: "win \<Rightarrow> 'a wm_scheme \<Rightarrow> 'a wm_scheme option" where
  "raiseOrLowerClient c w =
     (let topmost = (case most_recently_raised w of
            Some r \<Rightarrow>
              if r \<in> set (stacking_order w) \<and> isShown w r True \<and> isOnCurrentDesktop w c then Some r
              else None
          | None \<Rightarrow> None);
          topmost = (case topmost of
            Some r \<Rightarrow> Some r
          | None \<Rightarrow>
              topClientOnDesktop w
                (if isOnAllDesktops w c then sint (current_desktop w) else m_desktop (cl w c))
                (if separate_screen_focus w then t_screen (cl w c) else - 1) False True)
      in if Some c = topmost then lowerClient c False w else raiseClient c False w)"

section \<open>Requests of applications\<close>

text \<open>
  The time of the last user action in a window: that of its group when it is later.  A client
  without a group fails the assertion; windows of other kinds have no time.
\<close>

definition userTime :: "'a wm_scheme \<Rightarrow> win \<Rightarrow> uint option" where
  "userTime w c =
     (if \<not> isClient w c then Some 0
      else
        let time = m_userTime (cl w c) in
        if time = 0 then Some 0
        else case in_group (cl w c) of
          None \<Rightarrow> None
        | Some g \<Rightarrow>
            let gt = group_time (grp w g) in
            if time = - 1 \<or> gt \<noteq> - 1 \<and> timestampCompare w gt time > 0 then Some gt else Some time)"

text \<open>\<open>Workspace::allowFullClientRaising\<close> of \<^verbatim>\<open>activation.cpp\<close>.\<close>

definition allowFullClientRaising :: "'a wm_scheme \<Rightarrow> win \<Rightarrow> uint \<Rightarrow> bool option" where
  "allowFullClientRaising w c time =
     (let level = checkFSP (cl w c) (focusStealingPreventionLevel w) in
      if session_saving w \<and> level \<le> 2 then Some True
      else if level = 0 then Some True
      else if level = 4 then Some False
      else case mostRecentlyActivatedClient w of
        None \<Rightarrow> Some True
      | Some ac \<Rightarrow>
          if isDesktop w ac then Some True
          else do {
            same \<leftarrow> (if \<not> isClient w ac then Some False else belongToSameApplication w c ac True);
            if same then Some True
            else if level = 3 then Some False
            else map_option (\<lambda>user_time. timestampCompare w time user_time \<ge> 0) (userTime w ac)
          })"

definition clientAttentionChanged :: "win \<Rightarrow> bool \<Rightarrow> 'a wm_scheme \<Rightarrow> 'a wm_scheme" where
  "clientAttentionChanged c on w =
     w\<lparr>attention_chain := (if on then [c] else []) @ removeAll c (attention_chain w)\<rparr>"

definition demandAttention :: "win \<Rightarrow> bool \<Rightarrow> 'a wm_scheme \<Rightarrow> 'a wm_scheme" where
  "demandAttention c on w =
     (let on = (on \<and> \<not> m_active (cl w c)) in
      if m_demandsAttention (cl w c) = on then w
      else do_call (DemandAttention c on)
             (clientAttentionChanged c on (upd_cl c (\<lambda>r. r\<lparr>m_demandsAttention := on\<rparr>) w)))"

definition raiseClientRequest :: "win \<Rightarrow> RequestSource \<Rightarrow> uint \<Rightarrow> 'a wm_scheme \<Rightarrow> 'a wm_scheme option" where
  "raiseClientRequest c src timestamp w =
     do {
       full \<leftarrow> (if src = FromTool then Some True else allowFullClientRaising w c timestamp);
       if full then raiseClient c False w
       else map_option (demandAttention c True) (raiseClientWithinApplication c w)
     }"

definition lowerClientRequest :: "win \<Rightarrow> RequestSource \<Rightarrow> uint \<Rightarrow> 'a wm_scheme \<Rightarrow> 'a wm_scheme option" where
  "lowerClientRequest c src timestamp w =
     (if src = FromTool \<or> \<not> user_time_support (cl w c) then lowerClient c False w
      else lowerClientWithinApplication c w)"

text \<open>The loop of \<open>restack\<close>: the first window, from below, in the layer of \<open>c\<close> and of the
  application of \<open>below_of\<close>; \<open>layer()\<close> is read, and cached, on the way.\<close>

primrec restack_under :: "win \<Rightarrow> win \<Rightarrow> win list \<Rightarrow> 'a wm_scheme \<Rightarrow> ('a wm_scheme \<times> win option) option" where
  "restack_under c below_of [] w = Some (w, Some below_of)"
| "restack_under c below_of (x # xs) w =
     (if \<not> isClient w x then restack_under c below_of xs w
      else
        let (lx, w) = read_layer x w; (lc, w) = read_layer c w in
        if lx \<noteq> lc then restack_under c below_of xs w
        else do {
          same \<leftarrow> belongsToSameApplication w below_of x;
          if same then Some (w, if c = x then None else Some x) else restack_under c below_of xs w
        })"

definition restack :: "win \<Rightarrow> win \<Rightarrow> bool \<Rightarrow> 'a wm_scheme \<Rightarrow> 'a wm_scheme option" where
  "restack c below_of force w =
     (if below_of \<notin> set (unconstrained_stacking_order w) then None
      else do {
        same \<leftarrow> (if force then Some True else belongsToSameApplication w below_of c);
        (w, below_of') \<leftarrow> (if \<not> force \<and> \<not> same
            then restack_under c below_of (unconstrained_stacking_order w) w else Some (w, Some below_of));
        let w = (case below_of' of
            None \<Rightarrow> w
          | Some u \<Rightarrow>
              let order = removeAll c (unconstrained_stacking_order w)
              in w\<lparr>unconstrained_stacking_order := q_insert (q_indexOf u order) c order\<rparr>);
        if c \<notin> set (unconstrained_stacking_order w) then None
        else do {
          fc \<leftarrow> moveAfterClient w c below_of' (focus w);
          updateStackingOrder False (w\<lparr>focus := fc\<rparr>)
        }
      })"

definition restackClientUnderActive :: "win \<Rightarrow> 'a wm_scheme \<Rightarrow> 'a wm_scheme option" where
  "restackClientUnderActive c w =
     (case active_client w of
        None \<Rightarrow> raiseClient c False w
      | Some a \<Rightarrow>
          if a = c then raiseClient c False w
          else
            let (la, w) = read_layer a w; (lc, w) = read_layer c w in
            if la \<noteq> lc then raiseClient c False w else restack c a False w)"

definition restoreSessionStackingOrder :: "win \<Rightarrow> 'a wm_scheme \<Rightarrow> 'a wm_scheme option" where
  "restoreSessionStackingOrder c w =
     (if sm_stacking_order (cl w c) < 0 then Some w
      else with_blocker (\<lambda>w.
          let order = removeAll c (unconstrained_stacking_order w);
              later = (\<lambda>x. isClient w x \<and> sm_stacking_order (cl w x) > sm_stacking_order (cl w c))
          in Some (w\<lparr>unconstrained_stacking_order :=
               takeWhile (\<lambda>x. \<not> later x) order @ c # dropWhile (\<lambda>x. \<not> later x) order\<rparr>)) w)"

section \<open>Configure requests\<close>

datatype stack_mode = StackAbove | StackBelow | StackTopIf | StackBottomIf | StackOpposite

definition findClientByWindow :: "'a wm_scheme \<Rightarrow> xid \<Rightarrow> win option" where
  "findClientByWindow w x = find (\<lambda>c. window (cl w c) = x) (clients w @ desktops w)"

text \<open>
  The iterator loop of the case \<open>XCB_STACK_MODE_ABOVE\<close>, as indices: it ends at the begin
  (\<open>0\<close>), at the other window (which invalidates the iterator and forces the source), or at a
  relevant window right above the other one.
\<close>

primrec above_scan :: "'a wm_scheme \<Rightarrow> win \<Rightarrow> win \<Rightarrow> win list \<Rightarrow> nat \<Rightarrow> nat \<times> bool" where
  "above_scan w this other' stack 0 = (0, False)"
| "above_scan w this other' stack (Suc i) =
     (let it = stack ! Suc i in
      if it = other' then (0, True)
      else if \<not> (isClient w it \<and> isNormalWindow w it \<and> isShown w it True \<and> isOnCurrentDesktop w it \<and>
                 isOnCurrentActivity w it \<and> isOnScreen w it (t_screen (cl w this)))
      then above_scan w this other' stack i
      else if stack ! i = other' then (Suc i, False)
      else above_scan w this other' stack i)"

definition restackTarget :: "'a wm_scheme \<Rightarrow> win \<Rightarrow> win \<Rightarrow> win option \<times> bool" where
  "restackTarget w this other' =
     (let stack = stacking_order w;
          (it, forced) = above_scan w this other' stack (length stack - 1)
      in (if it \<noteq> 0 \<and> stack ! (it - 1) = other' \<and> isClient w (stack ! it) then Some (stack ! it) else None,
          forced))"

definition finishRestackWindow ::
  "win \<Rightarrow> win option \<Rightarrow> stack_mode \<Rightarrow> RequestSource \<Rightarrow> uint \<Rightarrow> bool \<Rightarrow> 'a wm_scheme \<Rightarrow> 'a wm_scheme option" where
  "finishRestackWindow this other' detail src timestamp send_event w =
     (let (other', src) = (case other' of
            Some x \<Rightarrow>
              if detail = StackAbove
              then let (t, forced) = restackTarget w this x in (t, if forced then FromTool else src)
              else (Some x, src)
          | None \<Rightarrow> (None, src))
      in do {
        w \<leftarrow> (case other' of
               Some x \<Rightarrow> restack this x False w
             | None \<Rightarrow>
                 if detail = StackBelow then lowerClientRequest this src timestamp w
                 else if detail = StackAbove then raiseClientRequest this src timestamp w
                 else Some w);
        Some (if send_event then do_call (SyntheticConfigureNotify this) w else w)
      })"

definition restackWindow ::
  "win \<Rightarrow> xid \<Rightarrow> stack_mode \<Rightarrow> RequestSource \<Rightarrow> uint \<Rightarrow> bool \<Rightarrow> 'a wm_scheme \<Rightarrow> 'a wm_scheme option" where
  "restackWindow this above_window detail src timestamp send_event w =
     (let other' = findClientByWindow w above_window;
          meets = (case other' of None \<Rightarrow> False | Some x \<Rightarrow> intersects (geom (cl w x)) (geom (cl w this)))
      in if detail = StackOpposite then
           (case other' of
              None \<Rightarrow> raiseOrLowerClient this w
            | Some x \<Rightarrow>
                let detail = (case find (\<lambda>y. y = this \<or> y = x) (stacking_order w) of
                      None \<Rightarrow> StackOpposite
                    | Some y \<Rightarrow> if y = this then StackAbove else StackBelow)
                in finishRestackWindow this other' detail src timestamp send_event w)
         else if detail = StackTopIf then
           (if meets then raiseClientRequest this src timestamp w else Some w)
         else if detail = StackBottomIf then
           (if meets then lowerClientRequest this src timestamp w else Some w)
         else finishRestackWindow this other' detail src timestamp send_event w)"

section \<open>The order with the unmanaged windows\<close>

text \<open>The children of the root window as the X server lists them, \<open>None\<close> if it does not answer.\<close>

primrec found_unmanaged :: "'a wm_scheme \<Rightarrow> nat \<Rightarrow> xid list \<Rightarrow> win list" where
  "found_unmanaged w left [] = []"
| "found_unmanaged w left (x # xs) =
     (let hit = find (\<lambda>u. window (cl w u) = x) (unmanaged w);
          left = (if hit = None then left else left - 1)
      in (case hit of None \<Rightarrow> [] | Some u \<Rightarrow> [u]) @
         (if left = 0 then [] else found_unmanaged w left xs))"

definition xStackingOrder :: "xid list option \<Rightarrow> 'a wm_scheme \<Rightarrow> 'a wm_scheme \<times> win list" where
  "xStackingOrder tree w =
     (if \<not> x_stacking_dirty w then (w, x_stacking w)
      else
        let xs = stacking_order w @
            (case tree of None \<Rightarrow> [] | Some ws \<Rightarrow> found_unmanaged w (length (unmanaged w)) ws)
        in (w\<lparr>x_stacking_dirty := False, x_stacking := xs\<rparr>, xs))"

section \<open>Keeping transients above their main windows\<close>

text \<open>
  What the loop needs of the relations it is called with: a main window ranks below its
  transients, only transients have main windows, and a main window has a list of transients.
  The loop then ends, with every transient above all its main windows.
\<close>

locale main_windows =
  fixes good :: "'s \<Rightarrow> bool"
    and trans_of :: "'s \<Rightarrow> 'c \<Rightarrow> bool"
    and is_main :: "'s \<Rightarrow> 'c \<Rightarrow> 'c \<Rightarrow> bool"
    and has_kids :: "'s \<Rightarrow> 'c \<Rightarrow> bool"
  assumes ranked: "good s \<Longrightarrow> \<exists>r :: 'c \<Rightarrow> nat. \<forall>p c. trans_of s c \<longrightarrow> is_main s p c \<longrightarrow> r p < r c"
    and main_kids: "good s \<Longrightarrow> trans_of s c \<Longrightarrow> is_main s p c \<Longrightarrow> has_kids s p"
begin

definition main :: "'s \<Rightarrow> 'c \<Rightarrow> 'c \<Rightarrow> bool" where
  "main s p c \<longleftrightarrow> trans_of s c \<and> is_main s p c"

definition settled :: "'s \<Rightarrow> 'c list \<Rightarrow> bool" where
  "settled s xs \<longleftrightarrow> sorted_wrt (\<lambda>c p. \<not> main s p c) xs"

text \<open>The transients below one of their main windows, weighted by how far they are from the
  highest rank: moving one up may put transients of its own below it, which weigh less.\<close>

abbreviation mains_in :: "'s \<Rightarrow> ('c \<Rightarrow> nat) \<Rightarrow> 'c \<Rightarrow> 'c multiset \<Rightarrow> nat multiset" where
  "mains_in s wt c X \<equiv> image_mset (\<lambda>_. wt c) (filter_mset (\<lambda>p. main s p c) X)"

primrec misplaced :: "'s \<Rightarrow> ('c \<Rightarrow> nat) \<Rightarrow> 'c list \<Rightarrow> nat multiset" where
  "misplaced s wt [] = {#}"
| "misplaced s wt (c # xs) = mains_in s wt c (mset xs) + misplaced s wt xs"

lemma misplaced_append:
  "misplaced s wt (xs @ ys) = misplaced s wt xs + misplaced s wt ys +
     (\<Sum>c\<in>#mset xs. mains_in s wt c (mset ys))"
  by (induction xs) (simp_all add: ac_simps)

lemma misplaced_tail:
  assumes "mset ys = mset zs" "(misplaced s wt ys, misplaced s wt zs) \<in> mult less_than"
  shows "(misplaced s wt (xs @ ys), misplaced s wt (xs @ zs)) \<in> mult less_than"
proof -
  define rest where "rest = misplaced s wt xs + (\<Sum>c\<in>#mset xs. mains_in s wt c (mset zs))"
  have "misplaced s wt (xs @ ys) = misplaced s wt ys + rest"
    and "misplaced s wt (xs @ zs) = misplaced s wt zs + rest"
    by (simp_all add: misplaced_append rest_def assms(1) ac_simps)
  with assms(2) show ?thesis by (simp add: mult_cancel irrefl_on_def)
qed

lemma misplaced_swap:
  assumes "\<And>p x. main s p x \<Longrightarrow> x \<in> set M \<Longrightarrow> wt x < wt p"
    and "\<exists>p\<in>set M. main s p c" "\<forall>p\<in>set C. \<not> main s p c"
  shows "(misplaced s wt (M @ c # C), misplaced s wt (c # M @ C)) \<in> mult less_than"
proof -
  define now where "now = mains_in s wt c (mset M)"
  define below where "below = (\<Sum>x\<in>#mset M. mains_in s wt x {#c#})"
  have none: "mains_in s wt c (mset C) = {#}" using assms(3) by (auto simp: filter_mset_eq_conv)
  have new: "misplaced s wt (M @ c # C) = misplaced s wt (M @ C) + below"
  proof -
    have "(\<Sum>x\<in>#mset M. mains_in s wt x (mset (c # C))) = below + (\<Sum>x\<in>#mset M. mains_in s wt x (mset C))"
      unfolding below_def by (induction M) (simp_all add: ac_simps)
    then show ?thesis by (simp add: misplaced_append none ac_simps)
  qed
  have old: "misplaced s wt (c # M @ C) = misplaced s wt (M @ C) + now"
    by (simp add: none now_def ac_simps)
  have "y < wt c" if "y \<in># below" for y
    using that assms(1) unfolding below_def by (induction M) (auto split: if_splits)
  moreover have "now \<noteq> {#}" using assms(2) by (auto simp: now_def filter_mset_eq_conv)
  moreover have "z = wt c" if "z \<in># now" for z using that by (auto simp: now_def)
  ultimately have "\<forall>y\<in>#below. \<exists>z\<in>#now. (y, z) \<in> less_than"
    by (metis less_than_iff multiset_nonemptyE)
  with \<open>now \<noteq> {#}\<close> show ?thesis unfolding new old by (rule one_step_implies_mult)
qed

lemma main_index_cases:
  assumes "xs = A @ c # Z" "distinct xs"
  obtains "main_index (is_main s) xs c = - 1" "\<forall>p\<in>set Z. \<not> is_main s p c"
  | M p C where "Z = M @ p # C" "main_index (is_main s) xs c = int (length A) + int (length M) + 1"
      "is_main s p c" "\<forall>p\<in>set C. \<not> is_main s p c"
proof -
  let ?Q = "\<lambda>x. x = c \<or> is_main s x c"
  let ?k = "last_index ?Q xs"
  have at: "xs ! length A = c" using assms by simp
  have "\<not> ?k < int (length A)" using last_index_later [of ?Q xs "length A"] at assms by auto
  then have ge: "int (length A) \<le> ?k" "0 \<le> ?k" by simp_all
  have lt: "?k < int (length xs)" using last_index_range [of ?Q xs] by simp
  have hit: "?Q (xs ! nat ?k)" by (rule last_index_hit [OF ge(2)])
  show thesis
  proof (cases "nat ?k = length A")
    case True
    have "\<not> is_main s p c" if p: "p \<in> set Z" for p
    proof -
      obtain j where j: "j < length Z" "Z ! j = p" using p by (auto simp: in_set_conv_nth)
      have "xs ! (length A + Suc j) = p" using j assms(1) by (simp add: nth_append)
      moreover have "\<not> ?Q (xs ! (length A + Suc j))"
        by (rule last_index_later) (use True ge j assms(1) in auto)
      ultimately show ?thesis by simp
    qed
    with True at ge show thesis by (intro that(1)) (auto simp: main_index_def Let_def)
  next
    case False
    define j where "j = nat ?k - Suc (length A)"
    have j: "nat ?k = length A + Suc j" "j < length Z" using False ge lt assms(1) by (auto simp: j_def)
    have p: "xs ! nat ?k = Z ! j" using j assms(1) by (simp add: nth_append)
    have Z: "Z = take j Z @ Z ! j # drop (Suc j) Z" using j(2) by (rule id_take_nth_drop)
    have "Z ! j \<noteq> c" using assms j(2) by auto
    with hit p have main: "is_main s (Z ! j) c" by simp
    have later: "\<not> is_main s q c" if q: "q \<in> set (drop (Suc j) Z)" for q
    proof -
      obtain i where i: "i < length (drop (Suc j) Z)" "drop (Suc j) Z ! i = q"
        using q by (auto simp: in_set_conv_nth)
      have "xs ! (length A + Suc (Suc j + i)) = q" using i assms(1) by (simp add: nth_append)
      moreover have "\<not> ?Q (xs ! (length A + Suc (Suc j + i)))"
        by (rule last_index_later) (use j ge i assms(1) in auto)
      ultimately show ?thesis by simp
    qed
    have "main_index (is_main s) xs c = int (length A) + int (length (take j Z)) + 1"
      using p \<open>Z ! j \<noteq> c\<close> j ge by (auto simp: main_index_def Let_def)
    then show thesis using that(2) [OF Z _ main] later by blast
  qed
qed

lemma settled_Cons: "settled s (c # xs) \<longleftrightarrow> (\<forall>p\<in>set xs. \<not> main s p c) \<and> settled s xs"
  by (simp add: settled_def)

lemma settled_append:
  "settled s (xs @ ys) \<longleftrightarrow> settled s xs \<and> settled s ys \<and> (\<forall>c\<in>set xs. \<forall>p\<in>set ys. \<not> main s p c)"
  by (simp add: settled_def sorted_wrt_append)

text \<open>Putting a transient on top of the topmost of its main windows.\<close>

lemma settled_move:
  assumes "settled s (M @ C)" "\<forall>p\<in>set C. \<not> main s p c" "\<forall>x\<in>set M. \<not> main s c x"
  shows "settled s (M @ c # C)"
  using assms by (auto simp: settled_append settled_Cons)

lemma move_up:
  assumes "xs = A @ c # M @ p # C"
  shows "q_insert (int (length A) + int (length M) + 1) c (q_removeAt (int (length A)) xs) = A @ M @ p # c # C"
proof -
  have "q_removeAt (int (length A)) xs = A @ M @ p # C" using assms by (simp add: q_removeAt_def)
  moreover have "nat (int (length A) + int (length M) + 1) = length (A @ M @ [p])" by simp
  moreover have "A @ M @ p # C = (A @ M @ [p]) @ C" by simp
  ultimately show ?thesis unfolding q_insert_def by (metis append.assoc append_Cons append_Nil append_eq_conv_conj)
qed

theorem loop_settles:
  assumes "good s" "distinct xs" "i < int (length xs)" "- 1 \<le> i" "settled s (drop (nat (i + 1)) xs)"
  shows "\<exists>ys. transientLoop (trans_of s) (is_main s) (has_kids s) i xs = Some ys \<and> mset ys = mset xs \<and>
    settled s ys \<and> filter (\<lambda>c. \<not> trans_of s c) ys = filter (\<lambda>c. \<not> trans_of s c) xs"
proof -
  obtain r where r: "\<forall>p c. trans_of s c \<longrightarrow> is_main s p c \<longrightarrow> r p < (r c :: nat)" using ranked [OF assms(1)] by blast
  define wt where "wt c = Max (r ` set xs) - r c" for c
  have wt: "wt x < wt p" if "main s p x" "x \<in> set xs" for p x
  proof -
    have "r x \<le> Max (r ` set xs)" using that(2) by simp
    moreover have "r p < r x" using that(1) r by (simp add: main_def)
    ultimately show ?thesis by (simp add: wt_def)
  qed
  define meas where "meas = inv_image (mult less_than <*lex*> less_than)
    (\<lambda>(i :: int, zs). (misplaced s wt zs, nat (i + 1)))"
  have "wf meas" unfolding meas_def by (intro wf_inv_image wf_lex_prod wf_mult wf_less_than)
  have "\<exists>ys. transientLoop (trans_of s) (is_main s) (has_kids s) (fst iz) (snd iz) = Some ys \<and>
      mset ys = mset xs \<and> settled s ys \<and>
      filter (\<lambda>c. \<not> trans_of s c) ys = filter (\<lambda>c. \<not> trans_of s c) (snd iz)"
    if "mset (snd iz) = mset xs" "fst iz < int (length xs)" "- 1 \<le> fst iz"
      "settled s (drop (nat (fst iz + 1)) (snd iz))" for iz
    using \<open>wf meas\<close> that
  proof (induction iz rule: wf_induct_rule)
    case (less iz)
    obtain i zs where iz: "iz = (i, zs)" by (cases iz)
    note prems = less.prems [unfolded iz fst_conv snd_conv]
    have len: "length zs = length xs" and dist: "distinct zs"
      using prems(1) assms(2) mset_eq_length mset_eq_imp_distinct_iff by blast+
    show ?case
    proof (cases "i < 0")
      case True
      then have "i = - 1" using prems(3) by simp
      with prems iz show ?thesis by (subst transientLoop.simps) simp
    next
      case False
      define A where "A = take (nat i) zs"
      define c where "c = zs ! nat i"
      define Z where "Z = drop (Suc (nat i)) zs"
      have i: "nat i < length zs" using False prems(2) len by simp
      have zs: "zs = A @ c # Z" unfolding A_def c_def Z_def using i by (rule id_take_nth_drop)
      have A: "int (length A) = i" using False i by (simp add: A_def)
      have setZ: "settled s Z" using prems(4) False by (simp add: Z_def nat_add_distrib)
      have stay: ?thesis if "\<forall>p\<in>set Z. \<not> main s p c"
        "transientLoop (trans_of s) (is_main s) (has_kids s) i zs =
         transientLoop (trans_of s) (is_main s) (has_kids s) (i - 1) zs"
      proof -
        have "((i - 1, zs), iz) \<in> meas" using False by (simp add: meas_def iz)
        moreover have "settled s (drop (nat i) zs)"
        proof -
          have "drop (nat i) zs = c # Z"
            unfolding c_def Z_def by (rule Cons_nth_drop_Suc [OF i, symmetric])
          with that(1) setZ show ?thesis by (simp add: settled_Cons)
        qed
        moreover have "nat (i - 1 + 1) = nat i" "i - 1 < int (length xs)" "- 1 \<le> i - 1"
          using False prems(2) by simp_all
        ultimately show ?thesis
          using less.IH [of "(i - 1, zs)", unfolded fst_conv snd_conv] prems(1) that(2)
          unfolding iz fst_conv snd_conv by (simp only:)
      qed
      show ?thesis
      proof (cases "trans_of s c")
        case False
        then have "\<forall>p\<in>set Z. \<not> main s p c" by (simp add: main_def)
        then show ?thesis
          using False \<open>\<not> i < 0\<close> by (rule_tac stay) (simp, subst transientLoop.simps, simp add: c_def Let_def)
      next
        case trans: True
        show ?thesis
        proof (rule main_index_cases [OF zs dist, of s])
          assume "main_index (is_main s) zs c = - 1" "\<forall>p\<in>set Z. \<not> is_main s p c"
          then show ?thesis
            using trans \<open>\<not> i < 0\<close>
            by (intro stay) (simp add: main_def, subst transientLoop.simps, simp add: c_def Let_def)
        next
          fix M p C
          assume Z: "Z = M @ p # C" and idx: "main_index (is_main s) zs c = int (length A) + int (length M) + 1"
            and p: "is_main s p c" and C: "\<forall>p\<in>set C. \<not> is_main s p c"
          define new where "new = A @ M @ p # c # C"
          define i' where "i' = (if has_kids s c then i + int (length M) else i - 1)"
          have new: "q_insert (int (length A) + int (length M) + 1) c (q_removeAt i zs) = new"
            unfolding new_def A [symmetric] by (rule move_up) (simp add: zs Z)
          have step: "transientLoop (trans_of s) (is_main s) (has_kids s) i zs =
              transientLoop (trans_of s) (is_main s) (has_kids s) i' new"
            using \<open>\<not> i < 0\<close> trans new idx A
            by (subst transientLoop.simps) (simp add: c_def [symmetric] Let_def i'_def ac_simps)
          have mset: "mset new = mset zs" by (simp add: new_def zs Z)
          have inZ: "main s p c" using p trans by (simp add: main_def)
          have "(misplaced s wt ((M @ [p]) @ c # C), misplaced s wt (c # (M @ [p]) @ C)) \<in> mult less_than"
          proof (rule misplaced_swap)
            have "set zs = set xs" using prems(1) by (metis set_mset_mset)
            then show "wt x < wt q" if "main s q x" "x \<in> set (M @ [p])" for q x
              using wt [OF that(1)] that(2) zs Z by auto
          qed (use inZ C in \<open>auto simp: main_def\<close>)
          then have "(misplaced s wt new, misplaced s wt zs) \<in> mult less_than"
            unfolding new_def zs Z
            using misplaced_tail [of "M @ p # c # C" "c # M @ p # C" s wt A] by simp
          then have "((i', new), iz) \<in> meas" by (simp add: meas_def iz)
          moreover have "settled s (drop (nat (i' + 1)) new)"
          proof (cases "has_kids s c")
            case True
            then have "nat (i' + 1) = length (A @ M @ [p])" using A \<open>\<not> i < 0\<close> by (simp add: i'_def nat_eq_iff)
            moreover have "new = (A @ M @ [p]) @ c # C" by (simp add: new_def)
            ultimately have "drop (nat (i' + 1)) new = c # C" by (metis append_eq_conv_conj)
            moreover have "settled s C" using setZ Z by (simp add: settled_append settled_Cons)
            ultimately show ?thesis using C by (simp add: settled_Cons main_def)
          next
            case False
            then have "nat (i' + 1) = length A" using A by (simp add: i'_def nat_eq_iff)
            then have "drop (nat (i' + 1)) new = (M @ [p]) @ c # C" by (simp add: new_def)
            moreover have "\<forall>x\<in>set (M @ [p]). \<not> main s c x"
              using False main_kids [OF assms(1)] by (auto simp: main_def)
            then have "settled s ((M @ [p]) @ c # C)"
              using setZ C by (intro settled_move) (auto simp: Z main_def)
            ultimately show ?thesis by simp
          qed
          moreover have "i' < int (length xs)" "- 1 \<le> i'"
            using A \<open>\<not> i < 0\<close> zs Z len by (auto simp: i'_def)
          moreover have "filter (\<lambda>c. \<not> trans_of s c) new = filter (\<lambda>c. \<not> trans_of s c) zs"
            using trans by (simp add: new_def zs Z)
          ultimately show ?thesis
            using less.IH [of "(i', new)"] mset prems(1) step iz by simp
        qed
      qed
    qed
  qed
  from this [of "(i, xs)"] assms show ?thesis by simp
qed

end

section \<open>Reading layers changes nothing else\<close>

definition cached :: "'a wm_scheme \<Rightarrow> 'a wm_scheme \<Rightarrow> bool" where
  "cached w w' \<longleftrightarrow> (\<exists>f. w' = w\<lparr>cl := \<lambda>c. (cl w c)\<lparr>m_layer := f c\<rparr>\<rparr> \<and>
     (\<forall>c. f c = m_layer (cl w c) \<or> f c = layer_value w c))"

lemma cached_refl: "cached w w"
  unfolding cached_def by (rule exI [of _ "\<lambda>c. m_layer (cl w c)"]) simp

text \<open>The questions asked of windows do not look at the cache.\<close>

named_theorems cache_simps \<open>what a cached layer does not change\<close>

lemma cached_fields [cache_simps]:
  "kind (r\<lparr>m_layer := l\<rparr>) = kind r" "m_transientForId (r\<lparr>m_layer := l\<rparr>) = m_transientForId r"
  "m_transientFor (r\<lparr>m_layer := l\<rparr>) = m_transientFor r" "m_transients (r\<lparr>m_layer := l\<rparr>) = m_transients r"
  "in_group (r\<lparr>m_layer := l\<rparr>) = in_group r"
  for r :: client
  by simp_all

lemma cached_queries [cache_simps]:
  fixes w :: "'a wm_scheme"
  defines "w' f \<equiv> w\<lparr>cl := \<lambda>c. (cl w c)\<lparr>m_layer := f c\<rparr>\<rparr>"
  shows "isClient (w' f) = isClient w" "isTransient (w' f) = isTransient w"
    "groupTransient (w' f) = groupTransient w" "windowType (w' f) = windowType w"
    "transientForClient (w' f) = transientForClient w" "group_members (w' f) = group_members w"
    "mostRecentlyActivatedClient (w' f) = mostRecentlyActivatedClient w"
  by (simp_all add: w'_def fun_eq_iff isClient_def isTransient_def groupTransient_def windowType_def
      transientForClient_def group_members_def mostRecentlyActivatedClient_def cong: option.case_cong)

lemma cached_hasTransientInternal [cache_simps]:
  fixes w :: "'a wm_scheme"
  shows "hasTransientInternal n (w\<lparr>cl := \<lambda>c. (cl w c)\<lparr>m_layer := f c\<rparr>\<rparr>) = hasTransientInternal n w"
proof (induction n)
  case 0
  then show ?case by (simp add: fun_eq_iff)
next
  case (Suc n)
  show ?case by (intro ext) (simp add: Suc cache_simps cong: if_cong option.case_cong)
qed

lemma cached_types [cache_simps]:
  fixes w :: "'a wm_scheme"
  defines "w' f \<equiv> w\<lparr>cl := \<lambda>c. (cl w c)\<lparr>m_layer := f c\<rparr>\<rparr>"
  shows "hasTransient (w' f) = hasTransient w" "isDialog (w' f) = isDialog w" "isDock (w' f) = isDock w"
    "isSplash (w' f) = isSplash w" "isDesktop (w' f) = isDesktop w"
    "isOnScreenDisplay (w' f) = isOnScreenDisplay w" "isNotification (w' f) = isNotification w"
  by (simp_all add: w'_def fun_eq_iff hasTransient_def known_windows_def isDialog_def isDock_def isSplash_def isDesktop_def
      isOnScreenDisplay_def isNotification_def cache_simps)

lemma cached_above_main [cache_simps]:
  fixes w :: "'a wm_scheme"
  shows "above_main (w\<lparr>cl := \<lambda>c. (cl w c)\<lparr>m_layer := f c\<rparr>\<rparr>) = above_main w"
  by (simp add: fun_eq_iff above_main_def keepTransientAbove_def cache_simps)

lemma cached_belongsToLayer [cache_simps]:
  fixes w :: "'a wm_scheme"
  shows "belongsToLayer (w\<lparr>cl := \<lambda>c. (cl w c)\<lparr>m_layer := f c\<rparr>\<rparr>) = belongsToLayer w"
  by (simp add: fun_eq_iff belongsToLayer_def layerForDock_def belongsToDesktop_def isActiveFullScreen_def
      cache_simps cong: option.case_cong)

lemma cached_layer_value:
  assumes "cached w w'"
  shows "layer_value w' = layer_value w"
proof -
  obtain f where f: "w' = w\<lparr>cl := \<lambda>c. (cl w c)\<lparr>m_layer := f c\<rparr>\<rparr>"
    "\<forall>c. f c = m_layer (cl w c) \<or> f c = layer_value w c" using assms by (auto simp: cached_def)
  have "layer_value w' c = layer_value w c" for c
    using f(2) [rule_format, of c] belongsToLayer_known [of w c]
    by (auto simp: f(1) layer_value_def cache_simps)
  then show ?thesis by (simp add: fun_eq_iff)
qed

lemma cached_read_layer:
  assumes "cached w w'"
  shows "cached w (snd (read_layer c w'))" "fst (read_layer c w') = layer_value w c"
proof -
  obtain f where f: "w' = w\<lparr>cl := \<lambda>c. (cl w c)\<lparr>m_layer := f c\<rparr>\<rparr>"
    "\<forall>c. f c = m_layer (cl w c) \<or> f c = layer_value w c" using assms by (auto simp: cached_def)
  have "snd (read_layer c w') = w\<lparr>cl := \<lambda>d. (cl w d)\<lparr>m_layer := (f(c := layer_value w c)) d\<rparr>\<rparr>"
    by (simp add: read_layer_def upd_cl_def cached_layer_value [OF assms]) (simp add: f(1) fun_eq_iff)
  then show "cached w (snd (read_layer c w'))" using f(2) unfolding cached_def by fastforce
  show "fst (read_layer c w') = layer_value w c"
    by (simp add: read_layer_def cached_layer_value [OF assms])
qed

lemma cached_sel:
  assumes "cached w w'"
  shows "t_screen (cl w' c) = t_screen (cl w c)" "isClient w' c = isClient w c"
    "in_group (cl w' c) = in_group (cl w c)" "isTransient w' = isTransient w" "above_main w' = above_main w"
    "m_transients (cl w' c) = m_transients (cl w c)" "isClient w' = isClient w"
    "unconstrained_stacking_order w' = unconstrained_stacking_order w" "stacking_order w' = stacking_order w"
    "force_restacking w' = force_restacking w" "focus w' = focus w"
    "block_stacking_updates w' = block_stacking_updates w"
  using assms by (auto simp: cached_def cache_simps)

section \<open>The layers\<close>

text \<open>
  The layer a window is put in: its own, but that of active full screen windows when it is above the below
  layer and the nearest window below it of its group and screen is in that layer (a group counts from its
  first managed window on).
\<close>

definition stack_key :: "'a wm_scheme \<Rightarrow> win \<Rightarrow> int \<times> nat option" where
  "stack_key w c = (t_screen (cl w c), if isClient w c then in_group (cl w c) else None)"

text \<open>The windows among \<open>xs\<close> with a key, once one of them is managed.\<close>

definition companions :: "'a wm_scheme \<Rightarrow> int \<times> nat option \<Rightarrow> win list \<Rightarrow> win list" where
  "companions w key xs =
     (let ds = filter (\<lambda>d. stack_key w d = key) xs in if \<exists>d\<in>set ds. isClient w d then ds else [])"

definition layer_above :: "'a wm_scheme \<Rightarrow> (win \<Rightarrow> layer) \<Rightarrow> win list \<Rightarrow> win \<Rightarrow> layer" where
  "layer_above w placed xs c =
     (let ds = companions w (stack_key w c) xs in
      if BelowLayer < layer_value w c \<and> ds \<noteq> [] \<and> placed (last ds) = ActiveLayer then ActiveLayer else layer_value w c)"

definition placement_of :: "'a wm_scheme \<Rightarrow> win list \<Rightarrow> (win \<Rightarrow> layer) \<Rightarrow> bool" where
  "placement_of w xs placed \<longleftrightarrow> (\<forall>i<length xs. placed (xs ! i) = layer_above w placed (take i xs) (xs ! i))"

definition stack_inv ::
  "'a wm_scheme \<Rightarrow> win list \<Rightarrow> 'a wm_scheme \<times> minimum_layer \<times> (layer \<Rightarrow> win list) \<Rightarrow> (win \<Rightarrow> layer) \<Rightarrow> bool" where
  "stack_inv w xs s placed \<longleftrightarrow> cached w (fst s) \<and> placement_of w xs placed \<and>
     (\<forall>key. fst (snd s) key = (let ds = companions w key xs in if ds = [] then None else Some (placed (last ds)))) \<and>
     (\<forall>l. snd (snd s) l = filter (\<lambda>c. placed c = l) xs)"

lemma companions_subset: "set (companions w key xs) \<subseteq> set xs"
  by (auto simp: companions_def Let_def)

lemma companions_snoc:
  "companions w key (xs @ [c]) =
     (if stack_key w c = key \<and> (companions w key xs \<noteq> [] \<or> isClient w c) then filter (\<lambda>d. stack_key w d = key) xs @ [c]
      else companions w key xs)"
proof -
  have "companions w key xs \<noteq> [] \<longleftrightarrow> (\<exists>d\<in>set xs. stack_key w d = key \<and> isClient w d)"
    by (auto simp: companions_def Let_def filter_empty_conv)
  then show ?thesis by (auto simp: companions_def Let_def)
qed

lemma layer_above_cong:
  assumes "\<And>d. d \<in> set xs \<Longrightarrow> p d = q d"
  shows "layer_above w p xs c = layer_above w q xs c"
proof -
  have "p (last (companions w key xs)) = q (last (companions w key xs))" if "companions w key xs \<noteq> []" for key
    using last_in_set [OF that] companions_subset [of w key xs] by (intro assms) blast
  then show ?thesis by (simp add: layer_above_def Let_def cong: conj_cong)
qed

lemma placement_of_snoc:
  assumes "placement_of w xs placed" "c \<notin> set xs"
  shows "placement_of w (xs @ [c]) (placed(c := layer_above w placed xs c))"
  unfolding placement_of_def
proof (intro allI impI)
  fix i
  let ?p = "placed(c := layer_above w placed xs c)"
  assume i: "i < length (xs @ [c])"
  have same: "?p d = placed d" if "d \<in> set xs" for d using assms(2) that by auto
  have layer: "layer_above w ?p (take i xs) e = layer_above w placed (take i xs) e" for e
    by (rule layer_above_cong) (use same in_set_takeD in metis)
  show "?p ((xs @ [c]) ! i) = layer_above w ?p (take i (xs @ [c])) ((xs @ [c]) ! i)"
  proof (cases "i < length xs")
    case True
    then have "placed (xs ! i) = layer_above w placed (take i xs) (xs ! i)" using assms(1) by (simp add: placement_of_def)
    with True show ?thesis using layer same [of "xs ! i"] by (simp add: nth_append)
  next
    case False
    then have "i = length xs" using i by simp
    then show ?thesis using layer [of c] by simp
  qed
qed

lemma stackOne_inv:
  assumes "stack_inv w xs s placed" "c \<notin> set xs"
  shows "\<exists>placed'. stack_inv w (xs @ [c]) (stackOne c s) placed'"
proof -
  obtain w' mins lay where s: "s = (w', mins, lay)" by (cases s)
  have inv: "cached w w'" "placement_of w xs placed"
    "\<And>key. mins key = (let ds = companions w key xs in if ds = [] then None else Some (placed (last ds)))"
    "\<And>l. lay l = filter (\<lambda>c. placed c = l) xs"
    using assms(1) unfolding stack_inv_def s fst_conv snd_conv by blast+
  define w1 where "w1 = snd (read_layer c w')"
  have w1: "read_layer c w' = (layer_value w c, w1)" "cached w w1"
    using cached_read_layer [OF inv(1), of c] by (auto simp: w1_def prod_eq_iff)
  have key: "(t_screen (cl w1 c), if isClient w1 c then in_group (cl w1 c) else None) = stack_key w c"
    by (simp add: stack_key_def cached_sel [OF w1(2)])
  define l where "l = layer_above w placed xs c"
  define mins' where "mins' = (if mins (stack_key w c) \<noteq> None \<or> isClient w c then mins(stack_key w c \<mapsto> l) else mins)"
  have step: "stackOne c s = (w1, mins', lay(l := lay l @ [c]))"
    by (simp only: stackOne_def s prod.case w1(1) Let_def key)
      (auto simp: l_def mins'_def cached_sel [OF w1(2)] inv(3) layer_above_def Let_def split: option.split)
  have other: "(placed(c := l)) d = placed d" if "d \<in> set xs" for d using assms(2) that by auto
  have lasts: "(placed(c := l)) (last (companions w k xs)) = placed (last (companions w k xs))" if "companions w k xs \<noteq> []" for k
    using last_in_set [OF that] companions_subset [of w k xs] by (intro other) blast
  have "mins' k = (let ds = companions w k (xs @ [c]) in if ds = [] then None else Some ((placed(c := l)) (last ds)))" for k
    by (cases "companions w k xs = []") (use lasts [of k] in \<open>auto simp: mins'_def inv(3) companions_snoc Let_def split: if_splits\<close>)
  moreover have "(lay(l := lay l @ [c])) k = filter (\<lambda>d. (placed(c := l)) d = k) (xs @ [c])" for k
  proof -
    have "filter (\<lambda>d. (placed(c := l)) d = k) xs = filter (\<lambda>d. placed d = k) xs"
      by (rule filter_cong) (use other in auto)
    then show ?thesis by (simp add: inv(4))
  qed
  moreover have "placement_of w (xs @ [c]) (placed(c := l))"
    unfolding l_def by (rule placement_of_snoc [OF inv(2) assms(2)])
  ultimately have "stack_inv w (xs @ [c]) (stackOne c s) (placed(c := l))"
    using w1(2) by (simp add: stack_inv_def step)
  then show ?thesis by blast
qed

lemma fold_stackOne_inv:
  assumes "distinct xs"
  shows "\<exists>placed. stack_inv w xs (fold stackOne xs (w, Map.empty, \<lambda>_. [])) placed"
  using assms
proof (induction xs rule: rev_induct)
  case Nil
  then show ?case by (simp add: stack_inv_def cached_refl placement_of_def companions_def)
next
  case (snoc c xs)
  then obtain placed where "stack_inv w xs (fold stackOne xs (w, Map.empty, \<lambda>_. [])) placed" by auto
  from stackOne_inv [OF this, of c] snoc.prems show ?case by simp
qed

lemma concat_filter_sort:
  fixes f :: "'a \<Rightarrow> 'b :: linorder"
  assumes "sorted ls" "distinct ls" "\<forall>x\<in>set xs. f x \<in> set ls"
  shows "concat (map (\<lambda>l. filter (\<lambda>x. f x = l) xs) ls) = sort_key f xs"
proof (rule sym, rule properties_for_sort_key)
  have part: "filter (\<lambda>x. f x = k) (concat (map (\<lambda>l. filter (\<lambda>x. f x = l) xs) ls)) =
      (if k \<in> set ls then filter (\<lambda>x. f x = k) xs else [])" for k
    using assms(2)
  proof (induction ls)
    case (Cons l ls)
    have "filter (\<lambda>x. f x = k) (filter (\<lambda>x. f x = l) xs) = (if k = l then filter (\<lambda>x. f x = k) xs else [])"
      by (auto simp: filter_empty_conv intro: filter_cong)
    with Cons show ?case by auto
  qed simp
  show "mset (concat (map (\<lambda>l. filter (\<lambda>x. f x = l) xs) ls)) = mset xs"
  proof (rule multiset_eqI)
    fix x
    have c: "count (mset ys) x = count (mset (filter (\<lambda>y. f y = f x) ys)) x" for ys by simp
    show "count (mset (concat (map (\<lambda>l. filter (\<lambda>x. f x = l) xs) ls))) x = count (mset xs) x"
    proof (cases "x \<in> set xs")
      case True
      then show ?thesis using assms(3) by (subst c, subst (2) c) (simp only: part if_True)
    next
      case False
      then have "x \<notin> set (concat (map (\<lambda>l. filter (\<lambda>x. f x = l) xs) ls))" by auto
      with False show ?thesis by (metis count_eq_zero_iff set_mset_mset)
    qed
  qed
  show "filter (\<lambda>x. f k = f x) (concat (map (\<lambda>l. filter (\<lambda>x. f x = l) xs) ls)) = filter (\<lambda>x. f k = f x) xs"
    if "k \<in> set (concat (map (\<lambda>l. filter (\<lambda>x. f x = l) xs) ls))" for k
    using part [of "f k"] that by (auto simp: eq_commute)
  show "sorted (map f (concat (map (\<lambda>l. filter (\<lambda>x. f x = l) xs) ls)))"
    using assms(1)
  proof (induction ls)
    case (Cons a ls)
    then show ?case using sorted_map_same [of f "\<lambda>_. a" xs] by (auto simp: sorted_append)
  qed simp
qed

text \<open>Every window of the order has a layer: a deleted window was not deleted without one.\<close>

definition layers_known :: "'a wm_scheme \<Rightarrow> bool" where
  "layers_known w \<longleftrightarrow> (\<forall>c\<in>set (unconstrained_stacking_order w). layer_value w c \<noteq> UnknownLayer)"

lemma layeredOrder_sorted:
  assumes "distinct (unconstrained_stacking_order w)" "layers_known w"
  shows "\<exists>w' placed. layeredOrder w = (w', sort_key placed (unconstrained_stacking_order w)) \<and>
    cached w w' \<and> placement_of w (unconstrained_stacking_order w) placed"
proof -
  let ?xs = "unconstrained_stacking_order w"
  obtain w' mins lay where f: "fold stackOne ?xs (w, Map.empty, \<lambda>_. []) = (w', mins, lay)"
    by (cases "fold stackOne ?xs (w, Map.empty, \<lambda>_. [])")
  obtain placed where "stack_inv w ?xs (w', mins, lay) placed"
    using fold_stackOne_inv [OF assms(1), of w] f by auto
  then have inv: "cached w w'" "placement_of w ?xs placed" "lay = (\<lambda>l. filter (\<lambda>c. placed c = l) ?xs)"
    by (auto simp: stack_inv_def)
  have "placed c \<in> set layers" if c: "c \<in> set ?xs" for c
  proof -
    obtain i where "i < length ?xs" "?xs ! i = c" using c by (auto simp: in_set_conv_nth)
    with inv(2) have "placed c = layer_value w c \<or> placed c = ActiveLayer"
      by (auto simp: placement_of_def layer_above_def Let_def)
    with assms(2) c show ?thesis by (auto simp: layers_known_def layers_all)
  qed
  then have "concat (map lay layers) = sort_key placed ?xs"
    unfolding inv(3) using layers_sorted by (intro concat_filter_sort) auto
  with f inv show ?thesis by (auto simp: layeredOrder_def)
qed

section \<open>Consistent transients\<close>

text \<open>
  Every window knows its transients, and following the lists of transients never leads back:
  a window ranks below its transients.
\<close>

definition transients_ok :: "'a wm_scheme \<Rightarrow> bool" where
  "transients_ok w \<longleftrightarrow>
     (\<forall>c t. m_transientFor (cl w c) = Some t \<longrightarrow> c \<in> set (m_transients (cl w t))) \<and>
     (\<exists>r :: win \<Rightarrow> nat. \<forall>p. \<forall>c\<in>set (m_transients (cl w p)). r p < r c)"

lemma any_thread_hit:
  "any_thread f xs s = Some (True, s') \<Longrightarrow> \<exists>x\<in>set xs. \<exists>s s'. f x s = Some (True, s')"
proof (induction xs arbitrary: s)
  case (Cons x xs)
  obtain b s1 where f: "f x s = Some (b, s1)" using Cons.prems by (auto split: option.splits)
  show ?case
  proof (cases b)
    case True
    with f show ?thesis by auto
  next
    case False
    with Cons f show ?thesis by fastforce
  qed
qed simp

lemma hasTransientInternal_rank:
  assumes "\<forall>c t. m_transientFor (cl w c) = Some t \<longrightarrow> c \<in> set (m_transients (cl w t))"
    and "\<forall>p. \<forall>c\<in>set (m_transients (cl w p)). (r p :: nat) < r c"
    and "hasTransientInternal n w this c indirect seen = Some (True, s)"
  shows "r this < r c \<and> m_transients (cl w this) \<noteq> []"
  using assms(3)
proof (induction n arbitrary: this c seen s)
  case 0
  then show ?case by simp
next
  case (Suc n)
  show ?case
  proof (cases "transientForClient w c")
    case (Some t)
    then have "m_transientFor (cl w c) = Some t" by (auto simp: transientForClient_def split: option.splits if_splits)
    then have t: "c \<in> set (m_transients (cl w t))" using assms(1) by blast
    then have "r t < r c" using assms(2) by blast
    show ?thesis
    proof (cases "t = this")
      case True
      with t \<open>r t < r c\<close> show ?thesis by auto
    next
      case False
      with Suc.prems Some have "hasTransientInternal n w this t indirect (seen @ [c]) = Some (True, s)"
        by (simp split: if_splits)
      from Suc.IH [OF this] \<open>r t < r c\<close> show ?thesis by simp
    qed
  next
    case None
    show ?thesis
    proof (cases "c \<in> set (m_transients (cl w this))")
      case True
      with assms(2) show ?thesis by auto
    next
      case False
      with Suc.prems None have "any_thread (\<lambda>d. hasTransientInternal n w d c indirect)
          (filter (isClient w) (m_transients (cl w this))) (seen @ [this]) = Some (True, s)"
        by (simp split: if_splits)
      then obtain d s1 s2 where "d \<in> set (m_transients (cl w this))"
          "hasTransientInternal n w d c indirect s1 = Some (True, s2)"
        using any_thread_hit by fastforce
      with Suc.IH assms(2) show ?thesis by (metis empty_iff empty_set less_trans)
    qed
  qed
qed

lemma above_main_rank:
  assumes "\<forall>c t. m_transientFor (cl w c) = Some t \<longrightarrow> c \<in> set (m_transients (cl w t))"
    and "\<forall>p. \<forall>c\<in>set (m_transients (cl w p)). (r p :: nat) < r c" "above_main w p c"
  shows "r p < r c \<and> m_transients (cl w p) \<noteq> []"
proof (cases "groupTransient w c")
  case True
  with assms(3) have "hasTransient w p c True" by (simp add: above_main_def)
  moreover define n where "n = length (known_windows w) + 2"
  ultimately obtain s where "hasTransientInternal n w p c True [] = Some (True, s)"
    unfolding hasTransient_def n_def [symmetric] by (auto split: option.splits)
  from hasTransientInternal_rank [OF assms(1,2) this] show ?thesis .
next
  case False
  with assms(3) have "m_transientFor (cl w c) = Some p" by (simp add: above_main_def)
  then have "c \<in> set (m_transients (cl w p))" using assms(1) by blast
  with assms(2) show ?thesis by auto
qed

interpretation above: main_windows transients_ok "\<lambda>w c. isClient w c \<and> isTransient w c" above_main
  "\<lambda>w c. m_transients (cl w c) \<noteq> []"
proof unfold_locales
  fix w :: "'a wm_scheme"
  assume ok: "transients_ok w"
  then obtain r where r: "\<forall>p. \<forall>c\<in>set (m_transients (cl w p)). (r p :: nat) < r c"
    by (auto simp: transients_ok_def)
  have links: "\<forall>c t. m_transientFor (cl w c) = Some t \<longrightarrow> c \<in> set (m_transients (cl w t))"
    using ok by (simp add: transients_ok_def)
  show "\<exists>r :: win \<Rightarrow> nat. \<forall>p c. isClient w c \<and> isTransient w c \<longrightarrow> above_main w p c \<longrightarrow> r p < r c"
    by (rule exI [of _ r]) (use above_main_rank [OF links r] in simp)
  show "m_transients (cl w p) \<noteq> []" if "above_main w p c" for p c
    using above_main_rank [OF links r that] by blast
qed

lemma cached_transients_ok:
  assumes "cached w w'" "transients_ok w"
  shows "transients_ok w'"
proof -
  obtain f where "w' = w\<lparr>cl := \<lambda>c. (cl w c)\<lparr>m_layer := f c\<rparr>\<rparr>" using assms(1) by (auto simp: cached_def)
  with assms(2) show ?thesis by (simp add: transients_ok_def)
qed

text \<open>The order as a whole.\<close>

lemma constrained_result:
  assumes "distinct (unconstrained_stacking_order w)" "layers_known w" "transients_ok w"
  obtains w' order placed where "constrainedStackingOrder w = Some (w', order)" "cached w w'"
    "mset order = mset (unconstrained_stacking_order w)"
    "placement_of w (unconstrained_stacking_order w) placed"
    "filter (\<lambda>c. \<not> (isClient w c \<and> isTransient w c)) order =
       sort_key placed (filter (\<lambda>c. \<not> (isClient w c \<and> isTransient w c)) (unconstrained_stacking_order w))"
    "above.settled w order"
proof -
  let ?xs = "unconstrained_stacking_order w"
  obtain w' placed where l: "layeredOrder w = (w', sort_key placed ?xs)" "cached w w'" "placement_of w ?xs placed"
    using layeredOrder_sorted [OF assms(1,2)] by blast
  have ok: "transients_ok w'" by (rule cached_transients_ok [OF l(2) assms(3)])
  let ?ys = "sort_key placed ?xs"
  have "distinct ?ys" using assms(1) by (simp add: distinct_sort)
  moreover have "above.settled w' (drop (nat (int (length ?ys) - 1 + 1)) ?ys)" by (simp add: above.settled_def)
  ultimately obtain zs where zs: "transientLoop (\<lambda>c. isClient w' c \<and> isTransient w' c) (above_main w')
        (\<lambda>c. m_transients (cl w' c) \<noteq> []) (int (length ?ys) - 1) ?ys = Some zs" "mset zs = mset ?ys"
      "above.settled w' zs"
      "filter (\<lambda>c. \<not> (isClient w' c \<and> isTransient w' c)) zs = filter (\<lambda>c. \<not> (isClient w' c \<and> isTransient w' c)) ?ys"
    using above.loop_settles [OF ok, of ?ys "int (length ?ys) - 1"] by auto
  note same = cached_sel [OF l(2)]
  show ?thesis
  proof (rule that)
    show "constrainedStackingOrder w = Some (w', zs)"
      using zs(1) by (simp add: constrainedStackingOrder_def l(1))
    show "above.settled w zs" using zs(3) by (simp add: above.settled_def above.main_def same)
    show "filter (\<lambda>c. \<not> (isClient w c \<and> isTransient w c)) zs =
       sort_key placed (filter (\<lambda>c. \<not> (isClient w c \<and> isTransient w c)) ?xs)"
      using zs(4) by (simp add: same filter_sort)
  qed (use l zs(2) in simp_all)
qed

section \<open>What an operation on the order leaves alone\<close>

text \<open>The fields the questions about windows read; the operations keep them.\<close>

definition window_state ::
  "'a wm_scheme \<Rightarrow> (win \<Rightarrow> client) \<times> (nat \<Rightarrow> win_group) \<times> bool \<times> win option \<times> win list \<times> xid \<times> win list \<times> win list" where
  "window_state w = (cl w, grp w, showing_desktop w, active_client w, should_get_focus w, root_window w, clients w, desktops w)"

lemma window_state_cl: "window_state v = window_state w \<Longrightarrow> cl v = cl w"
  by (simp add: window_state_def)

lemma window_state_queries:
  assumes "window_state v = window_state w"
  shows "isClient v = isClient w" "isTransient v = isTransient w" "groupTransient v = groupTransient w"
    "windowType v = windowType w" "transientForClient v = transientForClient w"
    "group_members v = group_members w" "mostRecentlyActivatedClient v = mostRecentlyActivatedClient w"
  using assms
  by (simp_all add: window_state_def fun_eq_iff isClient_def isTransient_def groupTransient_def windowType_def
      transientForClient_def group_members_def mostRecentlyActivatedClient_def cong: option.case_cong)

lemma window_state_hasTransient:
  assumes "window_state v = window_state w"
  shows "hasTransient v = hasTransient w"
proof -
  have "hasTransientInternal n v = hasTransientInternal n w" for n
  proof (induction n)
    case 0
    then show ?case by (simp add: fun_eq_iff)
  next
    case (Suc n)
    show ?case
      by (intro ext) (simp add: Suc window_state_queries [OF assms] window_state_cl [OF assms]
          cong: if_cong option.case_cong)
  qed
  moreover have "known_windows v = known_windows w"
    using assms by (simp add: window_state_def known_windows_def)
  ultimately show ?thesis by (simp add: fun_eq_iff hasTransient_def window_state_queries [OF assms])
qed

lemma window_state_types:
  assumes "window_state v = window_state w"
  shows "isDesktop v = isDesktop w" "isSplash v = isSplash w" "isDock v = isDock w" "isDialog v = isDialog w"
    "isOnScreenDisplay v = isOnScreenDisplay w" "isNotification v = isNotification w"
  by (simp_all add: fun_eq_iff isDesktop_def isSplash_def isDock_def isDialog_def isOnScreenDisplay_def
      isNotification_def window_state_queries [OF assms])

lemma window_state_above_main:
  assumes "window_state v = window_state w"
  shows "above_main v = above_main w"
  by (simp add: fun_eq_iff above_main_def keepTransientAbove_def window_state_queries [OF assms]
      window_state_types [OF assms] window_state_hasTransient [OF assms] window_state_cl [OF assms])

lemma window_state_layer:
  assumes "window_state v = window_state w"
  shows "layer_value v = layer_value w"
proof -
  have sd: "showing_desktop v = showing_desktop w" using assms by (simp add: window_state_def)
  have fs: "isActiveFullScreen v = isActiveFullScreen w"
    by (intro ext) (simp add: isActiveFullScreen_def window_state_queries [OF assms] window_state_cl [OF assms]
        cong: option.case_cong)
  have bd: "belongsToDesktop v = belongsToDesktop w"
    by (intro ext) (simp add: belongsToDesktop_def window_state_queries [OF assms] window_state_types [OF assms])
  have ld: "layerForDock v = layerForDock w"
    by (intro ext) (simp add: layerForDock_def window_state_cl [OF assms])
  have "belongsToLayer v = belongsToLayer w"
    by (intro ext) (simp only: belongsToLayer_def window_state_types [OF assms] window_state_cl [OF assms] sd fs bd ld)
  then show ?thesis
    by (intro ext) (simp only: layer_value_def window_state_queries [OF assms] window_state_cl [OF assms])
qed

lemma window_state_transients:
  assumes "window_state v = window_state w"
  shows "transients_ok v = transients_ok w"
  by (simp only: transients_ok_def window_state_cl [OF assms])

lemma window_state_simps [simp]:
  "window_state (w\<lparr>unconstrained_stacking_order := u\<rparr>) = window_state w"
  "window_state (w\<lparr>block_stacking_updates := n\<rparr>) = window_state w"
  "window_state (w\<lparr>blocked_propagating_new_clients := b\<rparr>) = window_state w"
  "window_state (w\<lparr>most_recently_raised := m\<rparr>) = window_state w"
  "window_state (do_call e w) = window_state w"
  by (simp_all add: window_state_def do_call_def)

text \<open>What the order needs to be computable: no window twice, a layer for each, transients that
  are consistent.\<close>

definition stack_ok :: "'a wm_scheme \<Rightarrow> bool" where
  "stack_ok w \<longleftrightarrow> distinct (unconstrained_stacking_order w) \<and> layers_known w \<and> transients_ok w"

lemma stack_ok_perm:
  assumes "stack_ok w" "window_state v = window_state w"
    and "mset (unconstrained_stacking_order v) = mset (unconstrained_stacking_order w)"
  shows "stack_ok v"
proof -
  have "distinct (unconstrained_stacking_order v)"
    using assms(1) mset_eq_imp_distinct_iff [OF assms(3)] unfolding stack_ok_def by blast
  moreover have "layers_known v"
    using assms(1) mset_eq_setD [OF assms(3)]
    unfolding stack_ok_def layers_known_def window_state_layer [OF assms(2)] by blast
  moreover have "transients_ok v"
    using assms(1) window_state_transients [OF assms(2)] unfolding stack_ok_def by blast
  ultimately show ?thesis unfolding stack_ok_def by blast
qed

section \<open>Blocking\<close>

text \<open>Inside another blocker a block only counts; the outermost one computes the order.\<close>

lemma with_blocker_nested:
  assumes "0 < block_stacking_updates w"
    and "f (w\<lparr>block_stacking_updates := block_stacking_updates w + 1\<rparr>) = Some v"
    and "block_stacking_updates v = block_stacking_updates w + 1"
  shows "with_blocker f w = Some (v\<lparr>block_stacking_updates := block_stacking_updates w\<rparr>)"
  using assms by (simp add: with_blocker_def blockStackingUpdates_def)

definition blocked :: "'a wm_scheme \<Rightarrow> 'a wm_scheme" where
  "blocked w = w\<lparr>blocked_propagating_new_clients := False, block_stacking_updates := 1\<rparr>"

definition order_current :: "'a wm_scheme \<Rightarrow> 'a wm_scheme \<Rightarrow> bool" where
  "order_current v w \<longleftrightarrow> mset (stacking_order w) = mset (unconstrained_stacking_order w) \<and>
     sorted_wrt (\<lambda>c p. \<not> (isClient v c \<and> isTransient v c \<and> above_main v p c)) (stacking_order w)"

lemma propagateClients_sel:
  "stacking_order (propagateClients b w) = stacking_order w"
  "unconstrained_stacking_order (propagateClients b w) = unconstrained_stacking_order w"
  "block_stacking_updates (propagateClients b w) = block_stacking_updates w"
  "most_recently_raised (propagateClients b w) = most_recently_raised w"
  by (simp_all add: propagateClients_def Let_def)

lemma updateStackingOrder_unblocked:
  assumes "stack_ok w" "block_stacking_updates w \<le> 0"
  shows "\<exists>v. updateStackingOrder b w = Some v \<and> order_current w v \<and>
    unconstrained_stacking_order v = unconstrained_stacking_order w \<and>
    block_stacking_updates v = block_stacking_updates w \<and>
    most_recently_raised v = most_recently_raised w"
proof -
  obtain w' order where o': "constrainedStackingOrder w = Some (w', order)" "cached w w'"
    "mset order = mset (unconstrained_stacking_order w)" "above.settled w order"
    by (rule constrained_result [of w]) (use assms(1) in \<open>simp_all add: stack_ok_def\<close>)
  from o'(2) obtain f where f: "w' = w\<lparr>cl := \<lambda>c. (cl w c)\<lparr>m_layer := f c\<rparr>\<rparr>" by (auto simp: cached_def)
  have "order_current w v \<and> unconstrained_stacking_order v = unconstrained_stacking_order w \<and>
      block_stacking_updates v = block_stacking_updates w \<and> most_recently_raised v = most_recently_raised w"
    if "stacking_order v = order" "unconstrained_stacking_order v = unconstrained_stacking_order w'"
      "block_stacking_updates v = block_stacking_updates w'" "most_recently_raised v = most_recently_raised w'" for v
    using that o'(3,4) unfolding order_current_def above.settled_def above.main_def by (simp add: f)
  note good = this
  have "block_stacking_updates w' \<le> 0" using assms(2) by (simp add: f)
  have "\<exists>v. updateStackingOrder b w = Some v \<and> stacking_order v = order \<and>
      unconstrained_stacking_order v = unconstrained_stacking_order w' \<and>
      block_stacking_updates v = block_stacking_updates w' \<and> most_recently_raised v = most_recently_raised w'"
    using assms(2) by (simp add: updateStackingOrder_def o'(1) Let_def propagateClients_sel split: option.split)
  then show ?thesis using good by blast
qed

lemma with_blocker_outer:
  assumes "block_stacking_updates w = 0" "f (blocked w) = Some v" "block_stacking_updates v = 1" "stack_ok v"
  shows "\<exists>w'. with_blocker f w = Some w' \<and> block_stacking_updates w' = 0 \<and> order_current v w' \<and>
    unconstrained_stacking_order w' = unconstrained_stacking_order v \<and>
    most_recently_raised w' = most_recently_raised v"
proof -
  let ?v = "v\<lparr>block_stacking_updates := 0\<rparr>"
  have "stack_ok ?v" by (rule stack_ok_perm [OF assms(4)]) simp_all
  then obtain v' where v': "updateStackingOrder (blocked_propagating_new_clients v) ?v = Some v'"
      "order_current ?v v'" "unconstrained_stacking_order v' = unconstrained_stacking_order v"
      "block_stacking_updates v' = 0" "most_recently_raised v' = most_recently_raised v"
    using updateStackingOrder_unblocked [of ?v] by auto
  have "order_current v v'"
    using v'(2) window_state_queries [of ?v v] window_state_above_main [of ?v v] by (simp add: order_current_def)
  moreover have "with_blocker f w = Some (do_call CheckInputWindowStacking v')"
    using assms(1-3) v'(1) by (simp add: with_blocker_def blockStackingUpdates_def blocked_def)
  ultimately show ?thesis using v' by (simp add: order_current_def)
qed

section \<open>Raising and lowering\<close>

text \<open>Moving a window to the top or the bottom of a list.\<close>

definition to_top :: "win \<Rightarrow> win list \<Rightarrow> win list" where
  "to_top c xs = removeAll c xs @ [c]"

definition to_bottom :: "win \<Rightarrow> win list \<Rightarrow> win list" where
  "to_bottom c xs = c # removeAll c xs"

lemma mset_to_top: "distinct xs \<Longrightarrow> c \<in> set xs \<Longrightarrow> mset (to_top c xs) = mset xs"
  by (simp add: to_top_def mset_removeAll_member)

lemma mset_to_bottom: "distinct xs \<Longrightarrow> c \<in> set xs \<Longrightarrow> mset (to_bottom c xs) = mset xs"
  by (simp add: to_bottom_def mset_removeAll_member)

lemma mset_fold_perm:
  assumes "\<And>x xs. distinct xs \<Longrightarrow> x \<in> set xs \<Longrightarrow> mset (f x xs) = mset xs"
    and "distinct xs" "set cs \<subseteq> set xs"
  shows "mset (fold f cs xs) = mset xs"
  using assms(2,3)
proof (induction cs arbitrary: xs)
  case (Cons c cs)
  then have m: "mset (f c xs) = mset xs" by (intro assms(1)) auto
  then have "distinct (f c xs)" "set (f c xs) = set xs"
    using Cons.prems(1) by (metis mset_eq_imp_distinct_iff, metis mset_eq_setD)
  with Cons m show ?case by simp
qed simp

lemma raiseOne_sel [simp]:
  "unconstrained_stacking_order (raiseOne c w) = to_top c (unconstrained_stacking_order w)"
  "window_state (raiseOne c w) = window_state w"
  "block_stacking_updates (raiseOne c w) = block_stacking_updates w"
  "stacking_order (raiseOne c w) = stacking_order w"
  by (simp_all add: raiseOne_def to_top_def Let_def)

lemma lowerOne_sel [simp]:
  "unconstrained_stacking_order (forget_raised c (lowerOne d w)) = to_bottom d (unconstrained_stacking_order w)"
  "window_state (forget_raised c (lowerOne d w)) = window_state w"
  "block_stacking_updates (forget_raised c (lowerOne d w)) = block_stacking_updates w"
  "stacking_order (forget_raised c (lowerOne d w)) = stacking_order w"
  by (simp_all add: forget_raised_def lowerOne_def to_bottom_def)

lemma raiseClientNoGroup_nested:
  assumes "0 < block_stacking_updates w"
  shows "\<exists>v. raiseClientNoGroup c w = Some v \<and> window_state v = window_state w \<and>
    block_stacking_updates v = block_stacking_updates w \<and>
    unconstrained_stacking_order v = to_top c (unconstrained_stacking_order w) \<and>
    stacking_order v = stacking_order w"
  unfolding raiseClientNoGroup_def by (subst with_blocker_nested) (use assms in auto)

lemma lowerClientNoGroup_nested:
  assumes "0 < block_stacking_updates w"
  shows "\<exists>v. lowerClientNoGroup c w = Some v \<and> window_state v = window_state w \<and>
    block_stacking_updates v = block_stacking_updates w \<and>
    unconstrained_stacking_order v = to_bottom c (unconstrained_stacking_order w) \<and>
    stacking_order v = stacking_order w"
  unfolding lowerClientNoGroup_def by (subst with_blocker_nested) (use assms in auto)

lemma foldM_nested:
  assumes "\<And>c w. 0 < block_stacking_updates w \<Longrightarrow> \<exists>v. f c w = Some v \<and> window_state v = window_state w \<and>
      block_stacking_updates v = block_stacking_updates w \<and>
      unconstrained_stacking_order v = g c (unconstrained_stacking_order w) \<and>
      stacking_order v = stacking_order w"
    and "0 < block_stacking_updates w"
  shows "\<exists>v. foldM f cs w = Some v \<and> window_state v = window_state w \<and>
    block_stacking_updates v = block_stacking_updates w \<and>
    unconstrained_stacking_order v = fold g cs (unconstrained_stacking_order w) \<and>
    stacking_order v = stacking_order w"
  using assms(2)
proof (induction cs arbitrary: w)
  case (Cons c cs)
  obtain v where v: "f c w = Some v" "window_state v = window_state w"
    "block_stacking_updates v = block_stacking_updates w"
    "unconstrained_stacking_order v = g c (unconstrained_stacking_order w)" "stacking_order v = stacking_order w"
    using assms(1) [OF Cons.prems] by blast
  from Cons.IH [of v] Cons.prems v show ?case by simp
qed simp

text \<open>The walk up the main windows ends at consistent transients.\<close>

lemma mainsAbove_total:
  fixes w :: "'a wm_scheme"
  assumes "transients_ok w"
  shows "\<exists>ts. (\<forall>v :: 'a wm_scheme. cl v = cl w \<longrightarrow> mainsAbove v c = Some ts) \<and>
    (\<forall>S. (\<forall>x t. x \<in> S \<longrightarrow> m_transientFor (cl w x) = Some t \<longrightarrow> t \<in> S) \<longrightarrow> c \<in> S \<longrightarrow> set ts \<subseteq> S)"
proof -
  obtain r where r: "\<forall>p. \<forall>c\<in>set (m_transients (cl w p)). (r p :: nat) < r c"
    "\<forall>c t. m_transientFor (cl w c) = Some t \<longrightarrow> c \<in> set (m_transients (cl w t))"
    using assms by (auto simp: transients_ok_def)
  show ?thesis
  proof (induction "r c" arbitrary: c rule: less_induct)
    case less
    show ?case
    proof (cases "m_transientFor (cl w c)")
      case None
      then have "\<forall>v :: 'a wm_scheme. cl v = cl w \<longrightarrow> mainsAbove v c = Some []" by (subst mainsAbove.simps) simp
      then show ?thesis by (intro exI [of _ "[]"]) simp
    next
      case (Some t)
      with r have "r t < r c" by blast
      from less [OF this] obtain ts where ts: "\<forall>v :: 'a wm_scheme. cl v = cl w \<longrightarrow> mainsAbove v t = Some ts"
        "\<forall>S. (\<forall>x t. x \<in> S \<longrightarrow> m_transientFor (cl w x) = Some t \<longrightarrow> t \<in> S) \<longrightarrow> t \<in> S \<longrightarrow> set ts \<subseteq> S" by blast
      have "\<forall>v :: 'a wm_scheme. cl v = cl w \<longrightarrow> mainsAbove v c = Some (t # ts)"
        by (subst mainsAbove.simps) (simp add: Some ts(1))
      moreover have "set (t # ts) \<subseteq> S"
        if S: "\<forall>x t. x \<in> S \<longrightarrow> m_transientFor (cl w x) = Some t \<longrightarrow> t \<in> S" "c \<in> S" for S
        using ts(2) [rule_format, of S] S Some by auto
      ultimately show ?thesis by blast
    qed
  qed
qed

text \<open>Every main window of a window in the order is in the order.\<close>

definition mains_managed :: "'a wm_scheme \<Rightarrow> bool" where
  "mains_managed w \<longleftrightarrow> (\<forall>x t. x \<in> set (unconstrained_stacking_order w) \<longrightarrow>
     m_transientFor (cl w x) = Some t \<longrightarrow> t \<in> set (unconstrained_stacking_order w))"

lemma raiseClient_order:
  fixes w :: "'a wm_scheme"
  assumes "block_stacking_updates w = 0" "stack_ok w" "mains_managed w" "c \<in> set (unconstrained_stacking_order w)"
  shows "\<exists>parents w'. mainsAbove w c = Some parents \<and> raiseClient c False w = Some w' \<and>
    unconstrained_stacking_order w' =
      to_top c (fold to_top (if isTransient w c then parents else []) (unconstrained_stacking_order w)) \<and>
    mset (unconstrained_stacking_order w') = mset (unconstrained_stacking_order w) \<and>
    order_current w w' \<and> block_stacking_updates w' = 0"
proof -
  let ?xs = "unconstrained_stacking_order w"
  have "transients_ok w" using assms(2) by (simp add: stack_ok_def)
  from mainsAbove_total [OF this, of c] obtain ts where ts: "\<And>v :: 'a wm_scheme. cl v = cl w \<Longrightarrow> mainsAbove v c = Some ts"
    "\<And>S. (\<forall>x t. x \<in> S \<longrightarrow> m_transientFor (cl w x) = Some t \<longrightarrow> t \<in> S) \<Longrightarrow> c \<in> S \<Longrightarrow> set ts \<subseteq> S"
    by blast
  have sub: "set ts \<subseteq> set ?xs" using assms(3,4) by (intro ts(2)) (auto simp: mains_managed_def)
  define parents where "parents = (if isTransient w c then ts else [])"
  let ?u = "blocked (do_call (CancelAutoRaise c) w)"
  have u: "window_state ?u = window_state w" "unconstrained_stacking_order ?u = ?xs" "block_stacking_updates ?u = 1"
    by (simp_all add: blocked_def)
  have main: "mainsAbove ?u c = Some ts" by (rule ts(1)) (simp add: blocked_def)
  obtain v where v: "foldM raiseClientNoGroup parents ?u = Some v" "window_state v = window_state ?u"
    "block_stacking_updates v = block_stacking_updates ?u"
    "unconstrained_stacking_order v = fold to_top parents (unconstrained_stacking_order ?u)"
    using foldM_nested [where f = raiseClientNoGroup and g = to_top, OF raiseClientNoGroup_nested, of ?u parents] u(3)
    by auto
  define f where "f w = do {
           w \<leftarrow> (if \<not> False \<and> isTransient w c
                 then do { parents \<leftarrow> mainsAbove w c; foldM raiseClientNoGroup parents w } else Some w);
           Some (raiseOne c w) }" for w :: "'a wm_scheme"
  have f: "f ?u = Some (raiseOne c v)"
    using v(1) main by (auto simp: f_def parents_def window_state_queries [OF u(1)])
  have dist: "distinct ?xs" using assms(2) by (simp add: stack_ok_def)
  have m: "mset (fold to_top parents ?xs) = mset ?xs"
    using dist sub by (intro mset_fold_perm [of to_top]) (auto simp: mset_to_top parents_def)
  then have "distinct (fold to_top parents ?xs)" "c \<in> set (fold to_top parents ?xs)"
    using dist assms(4) by (metis mset_eq_imp_distinct_iff, metis mset_eq_setD)
  with m have perm: "mset (to_top c (fold to_top parents ?xs)) = mset ?xs" by (simp add: mset_to_top)
  have ok: "stack_ok (raiseOne c v)" by (rule stack_ok_perm [OF assms(2)]) (simp_all add: v u perm)
  obtain w' where w': "with_blocker f (do_call (CancelAutoRaise c) w) = Some w'" "block_stacking_updates w' = 0"
    "order_current (raiseOne c v) w'" "unconstrained_stacking_order w' = unconstrained_stacking_order (raiseOne c v)"
    using with_blocker_outer [where f = f and v = "raiseOne c v", OF _ f _ ok] assms(1) v(3) u(3) by auto
  have st: "window_state (raiseOne c v) = window_state w" by (simp add: v u)
  have "order_current w w'"
    using w'(3) by (simp add: order_current_def window_state_queries [OF st] window_state_above_main [OF st])
  moreover have "raiseClient c False w = Some w'" using w'(1) by (simp add: raiseClient_def f_def [abs_def])
  ultimately show ?thesis
    using ts(1) [of w] w'(2,4) perm by (simp add: v u parents_def)
qed

section \<open>Ordering a list of windows\<close>

lemma ensure_step:
  assumes "distinct done'" "distinct rest" "set rest \<inter> set done' = {}" "c \<notin> set done'"
  shows "(if c \<in> set (rest @ done') then removeAll c (rest @ done') @ [c] else rest @ done') =
    removeAll c rest @ (done' @ (if c \<in> set rest then [c] else []))"
  using assms by auto

lemma ensureStackingOrderInList_eq:
  assumes "distinct xs" "distinct stacking"
  shows "ensureStackingOrderInList stacking xs =
    filter (\<lambda>c. c \<notin> set stacking) xs @ filter (\<lambda>c. c \<in> set xs) stacking"
proof -
  let ?f = "\<lambda>c result. if c \<in> set result then removeAll c result @ [c] else result"
  have loop: "fold ?f stacking xs = filter (\<lambda>c. c \<notin> set stacking) xs @ filter (\<lambda>c. c \<in> set xs) stacking"
    using assms(2)
  proof (induction stacking rule: rev_induct)
    case (snoc c cs)
    let ?rest = "filter (\<lambda>c. c \<notin> set cs) xs"
    let ?done = "filter (\<lambda>c. c \<in> set xs) cs"
    have "set ?rest \<inter> set ?done = {}" "distinct ?done" "distinct ?rest" "c \<notin> set ?done"
      using snoc.prems assms(1) by auto
    note step = ensure_step [OF this(2,3,1,4)]
    have "fold ?f (cs @ [c]) xs = removeAll c ?rest @ (?done @ (if c \<in> set ?rest then [c] else []))"
      using step snoc by simp
    also have "removeAll c ?rest = filter (\<lambda>x. x \<notin> set (cs @ [c])) xs"
      by (auto simp: removeAll_filter_not_eq intro: filter_cong)
    finally show ?case using snoc.prems by auto
  qed simp
  show ?thesis
  proof (cases "length xs < 2")
    case True
    then have "xs = [] \<or> (\<exists>x. xs = [x])" by (cases xs) auto
    moreover have "filter (\<lambda>c. c = x) stacking = (if x \<in> set stacking then [x] else [])" for x
      using assms(2) by (induction stacking) (auto simp: filter_empty_conv)
    ultimately show ?thesis using True by (auto simp: ensureStackingOrderInList_def)
  next
    case False
    with loop show ?thesis by (simp add: ensureStackingOrderInList_def)
  qed
qed

lemma lowerClient_order:
  fixes w :: "'a wm_scheme"
  assumes "block_stacking_updates w = 0" "stack_ok w" "c \<in> set (unconstrained_stacking_order w)"
    and "set (group_members w c) \<subseteq> set (unconstrained_stacking_order w)"
  shows "\<exists>w'. lowerClient c False w = Some w' \<and>
    unconstrained_stacking_order w' =
      fold to_bottom (if isTransient w c \<and> isClient w c
          then filter (\<lambda>x. x \<noteq> c) (rev (ensureStackingOrder w (group_members w c))) else [])
        (to_bottom c (unconstrained_stacking_order w)) \<and>
    mset (unconstrained_stacking_order w') = mset (unconstrained_stacking_order w) \<and>
    order_current w w' \<and> block_stacking_updates w' = 0 \<and> most_recently_raised w' \<noteq> Some c"
proof -
  let ?xs = "unconstrained_stacking_order w"
  let ?u = "blocked (do_call (CancelAutoRaise c) w)"
  let ?u1 = "lowerOne c ?u"
  have u1: "window_state ?u1 = window_state w" "unconstrained_stacking_order ?u1 = to_bottom c ?xs"
    "block_stacking_updates ?u1 = 1" "stacking_order ?u1 = stacking_order w"
    by (simp_all add: blocked_def lowerOne_def to_bottom_def)
  define wins where "wins = (if isTransient w c \<and> isClient w c
      then ensureStackingOrder w (group_members w c) else [])"
  have members: "set wins \<subseteq> set ?xs"
  proof -
    have "set (ensureStackingOrderInList s xs) = set xs" for s xs
    proof -
      have "set (fold (\<lambda>c result. if c \<in> set result then removeAll c result @ [c] else result) s ys) = set ys" for ys
        by (induction s arbitrary: ys) auto
      then show ?thesis by (simp add: ensureStackingOrderInList_def)
    qed
    then show ?thesis using assms(4) by (auto simp: wins_def ensureStackingOrder_def)
  qed
  have skip: "foldM (\<lambda>o' w. if o' \<noteq> c then lowerClientNoGroup o' w else Some w) ws v =
      foldM lowerClientNoGroup (filter (\<lambda>x. x \<noteq> c) ws) v" for ws v
    by (induction ws arbitrary: v) (auto split: option.split)
  obtain v where v: "foldM lowerClientNoGroup (filter (\<lambda>x. x \<noteq> c) (rev wins)) ?u1 = Some v"
    "window_state v = window_state ?u1" "block_stacking_updates v = block_stacking_updates ?u1"
    "unconstrained_stacking_order v = fold to_bottom (filter (\<lambda>x. x \<noteq> c) (rev wins)) (unconstrained_stacking_order ?u1)"
    using foldM_nested [where f = lowerClientNoGroup and g = to_bottom, OF lowerClientNoGroup_nested,
        of ?u1 "filter (\<lambda>x. x \<noteq> c) (rev wins)"] u1(3) by auto
  define f where "f w = (let w = lowerOne c w in
         do {
           w \<leftarrow> (if \<not> False \<and> isTransient w c
                 then let wins = (if isClient w c then ensureStackingOrder w (group_members w c) else [])
                      in foldM (\<lambda>o' w. if o' \<noteq> c then lowerClientNoGroup o' w else Some w) (rev wins) w
                 else Some w);
           Some (forget_raised c w)
         })" for w :: "'a wm_scheme"
  have order: "ensureStackingOrder ?u1 = ensureStackingOrder w"
    by (simp add: fun_eq_iff ensureStackingOrder_def u1(4) window_state_queries [OF u1(1)])
  have f: "f ?u = Some (forget_raised c v)"
  proof (cases "isTransient w c")
    case True
    then have "f ?u = Option.bind (foldM (\<lambda>o' w. if o' \<noteq> c then lowerClientNoGroup o' w else Some w) (rev wins) ?u1)
        (\<lambda>w. Some (forget_raised c w))"
      by (simp add: f_def wins_def order window_state_queries [OF u1(1)] Let_def)
    with v(1) show ?thesis by (simp add: skip)
  next
    case False
    then have "f ?u = Some (forget_raised c ?u1)"
      by (simp add: f_def window_state_queries [OF u1(1)] Let_def)
    moreover have "v = ?u1" using v(1) False by (simp add: wins_def)
    ultimately show ?thesis by simp
  qed
  have dist: "distinct ?xs" using assms(2) by (simp add: stack_ok_def)
  have mb: "mset (to_bottom c ?xs) = mset ?xs" using dist assms(3) by (rule mset_to_bottom)
  then have "distinct (to_bottom c ?xs)" "set (to_bottom c ?xs) = set ?xs"
    using dist by (metis mset_eq_imp_distinct_iff, metis mset_eq_setD)
  then have perm: "mset (fold to_bottom (filter (\<lambda>x. x \<noteq> c) (rev wins)) (to_bottom c ?xs)) = mset ?xs"
    using members by (subst mset_fold_perm [of to_bottom]) (auto simp: mset_to_bottom mb)
  have sel: "unconstrained_stacking_order (forget_raised c v) = unconstrained_stacking_order v"
    "window_state (forget_raised c v) = window_state v" "block_stacking_updates (forget_raised c v) = block_stacking_updates v"
    "most_recently_raised (forget_raised c v) \<noteq> Some c"
    by (simp_all add: forget_raised_def)
  have ok: "stack_ok (forget_raised c v)"
    by (rule stack_ok_perm [OF assms(2)]) (simp_all add: sel v u1 perm)
  obtain w' where w': "with_blocker f (do_call (CancelAutoRaise c) w) = Some w'" "block_stacking_updates w' = 0"
    "order_current (forget_raised c v) w'" "unconstrained_stacking_order w' = unconstrained_stacking_order (forget_raised c v)"
    "most_recently_raised w' = most_recently_raised (forget_raised c v)"
    using with_blocker_outer [where f = f and v = "forget_raised c v", OF _ f _ ok] assms(1) v(3) u1(3) by (auto simp: sel)
  have st: "window_state (forget_raised c v) = window_state w" by (simp add: sel v u1)
  have "order_current w w'"
    using w'(3) by (simp add: order_current_def window_state_queries [OF st] window_state_above_main [OF st])
  moreover have "lowerClient c False w = Some w'" using w'(1) by (simp add: lowerClient_def f_def [abs_def])
  ultimately show ?thesis
    using w'(2,4,5) perm sel by (auto simp: v u1 wins_def)
qed

section \<open>Properties of the stacking order\<close>

text \<open>The dialogs of \<open>dialogs_session\<close>, stacked with the dialogs at the bottom.\<close>

definition dialogs_wm :: wm where
  "dialogs_wm = world.extend dialogs_session
     \<lparr>focus = initial_focus_chain, support_window = 0, edge_windows = [], session_saving = False,
      focusStealingPreventionLevel = 1, timestampCompare = (\<lambda>a b. uint a - uint b), attention_chain = []\<rparr>
   \<lparr>unconstrained_stacking_order := [3, 2, 4, 1]\<rparr>"

lemma dialogs_wm_sel:
  "cl dialogs_wm = cl dialogs_session" "unconstrained_stacking_order dialogs_wm = [3, 2, 4, 1]"
  "block_stacking_updates dialogs_wm = 0"
  by (simp_all add: dialogs_wm_def world.defs dialogs_session_def empty_session_def)

lemma dialogs_stack_ok: "stack_ok dialogs_wm"
proof -
  let ?r = "\<lambda>c. if c = 2 \<or> c = 4 then 1 else if c = 3 then 2 else (0 :: nat)"
  have rank: "\<forall>p. \<forall>c\<in>set (m_transients (cl dialogs_wm p)). ?r p < ?r c"
    by (simp add: dialogs_wm_sel dialogs_session_def empty_session_def plain_client_def)
  have links: "\<forall>c t. m_transientFor (cl dialogs_wm c) = Some t \<longrightarrow> c \<in> set (m_transients (cl dialogs_wm t))"
    by (simp add: dialogs_wm_sel dialogs_session_def empty_session_def plain_client_def)
  have "transients_ok dialogs_wm"
    unfolding transients_ok_def by (rule conjI [OF links exI [of _ ?r]]) (rule rank)
  moreover have "layers_known dialogs_wm"
    using belongsToLayer_known [of dialogs_wm]
    by (auto simp: layers_known_def layer_value_def isClient_def dialogs_wm_sel dialogs_session_def
        empty_session_def plain_client_def)
  ultimately show ?thesis by (simp add: stack_ok_def dialogs_wm_sel)
qed

text \<open>C1: For a stacking order without repetitions and consistent transients the computation of
  the constrained order returns; the result has exactly the windows of the unconstrained order,
  and no transient stands below a window it has to be kept above, however deep transients of
  transients are nested and whatever group transients there are.\<close>

theorem constrained_order_correct:
  assumes "distinct (unconstrained_stacking_order w)" "layers_known w" "transients_ok w"
  shows "\<exists>w' order. constrainedStackingOrder w = Some (w', order) \<and>
    mset order = mset (unconstrained_stacking_order w) \<and>
    sorted_wrt (\<lambda>lower upper. \<not> (isClient w lower \<and> isTransient w lower \<and> above_main w upper lower)) order"
proof -
  obtain w' order where "constrainedStackingOrder w = Some (w', order)"
    "mset order = mset (unconstrained_stacking_order w)" "above.settled w order"
    by (rule constrained_result [OF assms])
  then show ?thesis by (auto simp: above.settled_def above.main_def)
qed

theorem constrained_order_correct_witness:
  "\<exists>w' order. constrainedStackingOrder dialogs_wm = Some (w', order) \<and> set order = {1, 2, 3, 4}"
proof -
  obtain w' order where o': "constrainedStackingOrder dialogs_wm = Some (w', order)"
    "mset order = mset (unconstrained_stacking_order dialogs_wm)"
    using constrained_order_correct [of dialogs_wm] dialogs_stack_ok by (auto simp: stack_ok_def)
  have "set order = {1, 2, 3, 4}" using mset_eq_setD [OF o'(2)] by (auto simp: dialogs_wm_sel)
  with o'(1) show ?thesis by blast
qed

text \<open>C2: In the constrained order the windows that are not transient are sorted by layer, and
  windows of one layer keep the order they were raised in.  The layer is exactly this (\<open>placement_of\<close>):
  a window above the below layer counts as active full screen when the nearest window of its group on its
  screen that was raised before it does, and every other window is in its own layer.\<close>

theorem constrained_order_layers:
  assumes "distinct (unconstrained_stacking_order w)" "layers_known w" "transients_ok w"
  shows "\<exists>w' order placed. constrainedStackingOrder w = Some (w', order) \<and>
    filter (\<lambda>c. \<not> (isClient w c \<and> isTransient w c)) order =
      sort_key placed (filter (\<lambda>c. \<not> (isClient w c \<and> isTransient w c)) (unconstrained_stacking_order w)) \<and>
    placement_of w (unconstrained_stacking_order w) placed"
proof -
  obtain w' order placed where "constrainedStackingOrder w = Some (w', order)"
    "placement_of w (unconstrained_stacking_order w) placed"
    "filter (\<lambda>c. \<not> (isClient w c \<and> isTransient w c)) order =
       sort_key placed (filter (\<lambda>c. \<not> (isClient w c \<and> isTransient w c)) (unconstrained_stacking_order w))"
    by (rule constrained_result [OF assms])
  then show ?thesis by blast
qed

theorem constrained_order_layers_witness:
  "\<exists>w' order. constrainedStackingOrder dialogs_wm = Some (w', order) \<and>
    filter (\<lambda>c. \<not> (isClient dialogs_wm c \<and> isTransient dialogs_wm c)) order = [1]"
proof -
  have "filter (\<lambda>c. \<not> (isClient dialogs_wm c \<and> isTransient dialogs_wm c)) [3, 2, 4, 1] = [1]"
    by (simp add: isClient_def isTransient_def WINDOW_NONE_def dialogs_wm_sel dialogs_session_def
        empty_session_def plain_client_def)
  then show ?thesis
    using constrained_order_layers [of dialogs_wm] dialogs_stack_ok by (auto simp: stack_ok_def dialogs_wm_sel)
qed

text \<open>C7: Raising a window returns and leaves the unconstrained order with the same windows: first
  the main windows it is transient for come to the top, the nearest first, then the window
  itself, the others keeping their order; and the order shown is up to date with it.\<close>

theorem raiseClient_correct:
  assumes "block_stacking_updates w = 0" "stack_ok w" "mains_managed w" "c \<in> set (unconstrained_stacking_order w)"
  shows "\<exists>parents w'. mainsAbove w c = Some parents \<and> raiseClient c False w = Some w' \<and>
    unconstrained_stacking_order w' = fold (\<lambda>x xs. removeAll x xs @ [x])
      ((if isTransient w c then parents else []) @ [c]) (unconstrained_stacking_order w) \<and>
    mset (unconstrained_stacking_order w') = mset (unconstrained_stacking_order w) \<and>
    mset (stacking_order w') = mset (unconstrained_stacking_order w') \<and>
    sorted_wrt (\<lambda>lower upper. \<not> (isClient w lower \<and> isTransient w lower \<and> above_main w upper lower)) (stacking_order w')"
proof -
  have top: "to_top = (\<lambda>x xs. removeAll x xs @ [x])" by (simp add: fun_eq_iff to_top_def)
  show ?thesis using raiseClient_order [OF assms] by (auto simp: order_current_def top)
qed

theorem raiseClient_correct_witness:
  "\<exists>w'. raiseClient 3 False dialogs_wm = Some w' \<and> last (unconstrained_stacking_order w') = 3"
proof -
  have "mains_managed dialogs_wm"
    by (simp add: mains_managed_def dialogs_wm_sel dialogs_session_def empty_session_def plain_client_def)
  then show ?thesis
    using raiseClient_correct [of dialogs_wm 3] dialogs_stack_ok by (auto simp: dialogs_wm_sel)
qed

text \<open>C8: Lowering a window returns; it goes to the bottom, and when it is a transient the other
  windows of its group go below it, in their stacking order; no window is lost, it is no longer
  the most recently raised one, and the order shown is up to date.\<close>

theorem lowerClient_correct:
  assumes "block_stacking_updates w = 0" "stack_ok w" "c \<in> set (unconstrained_stacking_order w)"
    and "set (group_members w c) \<subseteq> set (unconstrained_stacking_order w)"
  shows "\<exists>w'. lowerClient c False w = Some w' \<and>
    unconstrained_stacking_order w' = fold (\<lambda>x xs. x # removeAll x xs)
      (c # (if isTransient w c \<and> isClient w c
          then filter (\<lambda>x. x \<noteq> c) (rev (ensureStackingOrder w (group_members w c))) else []))
      (unconstrained_stacking_order w) \<and>
    mset (unconstrained_stacking_order w') = mset (unconstrained_stacking_order w) \<and>
    mset (stacking_order w') = mset (unconstrained_stacking_order w') \<and>
    most_recently_raised w' \<noteq> Some c"
proof -
  have bot: "to_bottom = (\<lambda>x xs. x # removeAll x xs)" by (simp add: fun_eq_iff to_bottom_def)
  show ?thesis using lowerClient_order [OF assms] by (auto simp: order_current_def bot)
qed

theorem lowerClient_correct_witness:
  "\<exists>w'. lowerClient 1 False dialogs_wm = Some w' \<and> unconstrained_stacking_order w' = [1, 3, 2, 4]"
proof -
  have "\<not> isTransient dialogs_wm 1" "set (group_members dialogs_wm 1) \<subseteq> {1, 2, 3, 4}"
    by (simp_all add: isTransient_def group_members_def WINDOW_NONE_def dialogs_wm_def world.defs
        dialogs_session_def empty_session_def plain_client_def)
  then show ?thesis
    using lowerClient_correct [of dialogs_wm 1] dialogs_stack_ok by (auto simp: dialogs_wm_sel)
qed

text \<open>Bringing a list of windows into stacking order keeps the windows that are not stacked in
  front, in their order, and has the others in the order of the stack.\<close>

lemma ensureStackingOrder_correct:
  assumes "distinct xs" "distinct (stacking_order w)"
  shows "ensureStackingOrder w xs =
    filter (\<lambda>c. c \<notin> set (stacking_order w) \<or> \<not> isClient w c) xs @
    filter (\<lambda>c. isClient w c \<and> c \<in> set xs) (stacking_order w)"
proof -
  have "distinct (filter (isClient w) (stacking_order w))" using assms(2) by simp
  from ensureStackingOrderInList_eq [OF assms(1) this] show ?thesis
    by (auto simp: ensureStackingOrder_def conj_commute intro: filter_cong)
qed

lemma ensureStackingOrder_correct_witness:
  "ensureStackingOrder (dialogs_wm\<lparr>stacking_order := [3, 1, 2]\<rparr>) [1, 2, 4, 3] = [4, 3, 1, 2]"
proof -
  have c: "isClient (dialogs_wm\<lparr>stacking_order := s\<rparr>) c" for s c
    by (simp add: isClient_def dialogs_wm_sel dialogs_session_def empty_session_def plain_client_def)
  then show ?thesis
    using ensureStackingOrder_correct [of "[1, 2, 4, 3]" "dialogs_wm\<lparr>stacking_order := [3, 1, 2]\<rparr>"] by simp
qed

end
