(* ===== verification/WindowGroups.thy ===== *)
theory WindowGroups
  imports Transiency
begin

text \<open>
  Window groups (\<open>Group\<close> and \<open>Workspace::findGroup\<close>, \<open>findClientLeaderGroup\<close> of \<^verbatim>\<open>group.cpp\<close>)
  and how a window gets its group and its main window: the check of \<open>WM_TRANSIENT_FOR\<close>, the
  change of the relation, the group it follows from it, and what is undone when a window goes.

  A group is deleted when it has no members and nobody holds a reference; the model then takes it
  off the list of groups, and a pointer to it is a number that is not in that list.  \<open>None\<close> stands
  for an assertion that fails, a null group that is used, or a loop that does not end.

  \<open>updateClientLayer\<close>, \<open>resetUpdateToolWindowsTimer\<close> and \<open>activateClient\<close> are logged as calls: they
  change nothing the operations here read again.
\<close>

section \<open>State\<close>

record group_world = world +
  managed :: "win \<Rightarrow> bool"
  check_active_modal :: bool
  next_group :: nat
  x_parent :: "xid \<Rightarrow> xid option"

definition upd_grp :: "nat \<Rightarrow> (win_group \<Rightarrow> win_group) \<Rightarrow> 'a world_scheme \<Rightarrow> 'a world_scheme" where
  "upd_grp g f w = w\<lparr>grp := (grp w)(g := f (grp w g))\<rparr>"

text \<open>\<open>findClient(Predicate::WindowMatch, x)\<close>: the clients, then the desktops.\<close>

definition findClient :: "'a world_scheme \<Rightarrow> xid \<Rightarrow> win option" where
  "findClient w x = find (\<lambda>c. window (cl w c) = x) (known_windows w)"

section \<open>Groups\<close>

definition newGroup :: "xid \<Rightarrow> group_world \<Rightarrow> nat \<times> group_world" where
  "newGroup leader w =
     (let g = next_group w;
          new = \<lparr>gr_members = [], leader_wid = leader,
                 leader_client = (if leader \<noteq> WINDOW_NONE then findClient w leader else None),
                 refcount = 0, group_time = - 1\<rparr>;
          w = do_call (GroupAdded g) (w\<lparr>next_group := g + 1, grp := (grp w)(g := new)\<rparr>)
      in (g, w\<lparr>groups := groups w @ [g]\<rparr>))"

definition removeGroup :: "nat \<Rightarrow> 'a world_scheme \<Rightarrow> 'a world_scheme" where
  "removeGroup g w = w\<lparr>groups := removeAll g (groups w)\<rparr>"

definition delete_if_empty :: "nat \<Rightarrow> 'a world_scheme \<Rightarrow> 'a world_scheme" where
  "delete_if_empty g w =
     (if refcount (grp w g) = 0 \<and> gr_members (grp w g) = [] then removeGroup g w else w)"

definition addMember :: "nat \<Rightarrow> win \<Rightarrow> 'a world_scheme \<Rightarrow> 'a world_scheme" where
  "addMember g c = upd_grp g (\<lambda>r. r\<lparr>gr_members := gr_members r @ [c]\<rparr>)"

definition removeMember :: "nat \<Rightarrow> win \<Rightarrow> 'a world_scheme \<Rightarrow> 'a world_scheme option" where
  "removeMember g c w =
     (if c \<notin> set (gr_members (grp w g)) then None
      else Some (delete_if_empty g (upd_grp g (\<lambda>r. r\<lparr>gr_members := removeAll c (gr_members r)\<rparr>) w)))"

definition ref_group :: "nat \<Rightarrow> 'a world_scheme \<Rightarrow> 'a world_scheme" where
  "ref_group g = upd_grp g (\<lambda>r. r\<lparr>refcount := refcount r + 1\<rparr>)"

definition deref_group :: "nat \<Rightarrow> 'a world_scheme \<Rightarrow> 'a world_scheme" where
  "deref_group g w = delete_if_empty g (upd_grp g (\<lambda>r. r\<lparr>refcount := refcount r - 1\<rparr>) w)"

definition gotLeader :: "nat \<Rightarrow> win \<Rightarrow> 'a world_scheme \<Rightarrow> 'a world_scheme option" where
  "gotLeader g c w =
     (if window (cl w c) \<noteq> leader_wid (grp w g) then None
      else Some (upd_grp g (\<lambda>r. r\<lparr>leader_client := Some c\<rparr>) w))"

definition lostLeader :: "nat \<Rightarrow> 'a world_scheme \<Rightarrow> 'a world_scheme option" where
  "lostLeader g w =
     (if (case leader_client (grp w g) of None \<Rightarrow> False | Some l \<Rightarrow> l \<in> set (gr_members (grp w g)))
      then None
      else let w = upd_grp g (\<lambda>r. r\<lparr>leader_client := None\<rparr>) w
           in Some (if gr_members (grp w g) = [] then removeGroup g w else w))"

definition findGroup :: "'a world_scheme \<Rightarrow> xid \<Rightarrow> nat option option" where
  "findGroup w leader =
     (if leader = WINDOW_NONE then None
      else Some (find (\<lambda>g. leader_wid (grp w g) = leader) (groups w)))"

section \<open>Transients that follow the group\<close>

text \<open>\<open>Client::addTransient\<close>; the flag is a static member.\<close>

definition client_addTransient :: "win \<Rightarrow> win \<Rightarrow> group_world \<Rightarrow> group_world option" where
  "client_addTransient this c w =
     do {
       w \<leftarrow> addTransient this c w;
       Some (if mostRecentlyActivatedClient w = Some this \<and> m_modal (cl w c)
             then w\<lparr>check_active_modal := True\<rparr> else w)
     }"

definition removeTransient_from :: "win \<Rightarrow> win list \<Rightarrow> 'a world_scheme \<Rightarrow> 'a world_scheme" where
  "removeTransient_from this ms = fold (\<lambda>m. removeTransient m this) ms"

definition removeFromMainClients :: "win \<Rightarrow> group_world \<Rightarrow> group_world option" where
  "removeFromMainClients this w =
     (let w = (case m_transientFor (cl w this) of None \<Rightarrow> w | Some t \<Rightarrow> removeTransient t this w)
      in if groupTransient w this
         then do {
           g \<leftarrow> in_group (cl w this);
           Some (removeTransient_from this (gr_members (grp w g)) w)
         }
         else Some w)"

text \<open>
  The loops that walk a list of transients and start over after each removal; \<open>i\<close> is where the
  iterator stands.
\<close>

definition foreign_transient :: "'a world_scheme \<Rightarrow> win \<Rightarrow> win \<Rightarrow> bool" where
  "foreign_transient w this c =
     (isClient w c \<and> groupTransient w c \<and> in_group (cl w c) \<noteq> in_group (cl w this))"

lemma removeAll_nth_shorter: "i < length xs \<Longrightarrow> length (removeAll (xs ! i) xs) < length xs"
  unfolding removeAll_filter_not_eq by (rule length_filter_less [OF nth_mem]) simp_all

function dropForeign :: "win \<Rightarrow> nat \<Rightarrow> group_world \<Rightarrow> group_world" where
  "dropForeign this i w =
     (let ts = m_transients (cl w this) in
      if i \<ge> length ts then w
      else if foreign_transient w this (ts ! i)
      then dropForeign this 0 (removeTransientFromList this (ts ! i) w)
      else dropForeign this (i + 1) w)"
  by pat_completeness auto

termination
  by (relation "measures [\<lambda>(this, i, w). length (m_transients (cl w this)),
      \<lambda>(this, i, w). length (m_transients (cl w this)) - i]")
    (simp_all add: removeTransientFromList_def removeAll_nth_shorter)

lemma removeTransient_list:
  "m_transients (cl (removeTransient m c w) d) =
     (if d = m then removeAll c (m_transients (cl w m)) else m_transients (cl w d))"
  by (simp add: removeTransient_def removeTransientBase_def Let_def)

function dropTransients :: "win \<Rightarrow> nat \<Rightarrow> group_world \<Rightarrow> group_world" where
  "dropTransients this i w =
     (let ts = m_transients (cl w this) in
      if i \<ge> length ts then w
      else if m_transientFor (cl w (ts ! i)) = Some this
      then dropTransients this 0 (removeTransient this (ts ! i) w)
      else dropTransients this (i + 1) w)"
  by pat_completeness auto

termination
  by (relation "measures [\<lambda>(this, i, w). length (m_transients (cl w this)),
      \<lambda>(this, i, w). length (m_transients (cl w this)) - i]")
    (simp_all add: removeTransient_list removeAll_nth_shorter)

declare dropForeign.simps [simp del] dropTransients.simps [simp del]

text \<open>
  \<open>checkGroupTransients\<close>.  The walk up the main windows of \<open>it2\<close> does not stop when it has found
  \<open>it1\<close>: the \<open>continue\<close> is that of the inner loop.
\<close>

partial_function (option) walkMains ::
    "win \<Rightarrow> win \<Rightarrow> win option \<Rightarrow> group_world \<Rightarrow> group_world option" where
  "walkMains it1 it2 pos w =
     (case pos of
        None \<Rightarrow> Some w
      | Some c \<Rightarrow>
          let w = (if c = it1 then removeTransientFromList it2 it1 w else w)
          in walkMains it1 it2 (m_transientFor (cl w c)) w)"

declare walkMains.simps [code]

definition unlink_mutual :: "win \<Rightarrow> win \<Rightarrow> group_world \<Rightarrow> group_world" where
  "unlink_mutual it1 it2 w =
     (if groupTransient w it2 \<and> hasTransient w it1 it2 True \<and> hasTransient w it2 it1 True
      then removeTransientFromList it2 it1 w else w)"

definition unlink_indirect :: "win \<Rightarrow> win \<Rightarrow> win \<Rightarrow> group_world \<Rightarrow> group_world" where
  "unlink_indirect it1 it2 it3 w =
     (if it1 = it2 \<or> it2 = it3 \<or> it1 = it3 then w
      else if hasTransient w it2 it1 False \<and> hasTransient w it3 it1 False
      then let w = (if hasTransient w it2 it3 True then removeTransientFromList it2 it1 w else w)
           in (if hasTransient w it3 it2 True then removeTransientFromList it3 it1 w else w)
      else w)"

definition check_pair :: "win list \<Rightarrow> win \<Rightarrow> win \<Rightarrow> group_world \<Rightarrow> group_world option" where
  "check_pair members it1 it2 w =
     (if it1 = it2 then Some w
      else do {
        w \<leftarrow> walkMains it1 it2 (m_transientFor (cl w it2)) w;
        let w = unlink_mutual it1 it2 w;
        Some (fold (unlink_indirect it1 it2) members w)
      })"

definition checkGroupTransients :: "win \<Rightarrow> group_world \<Rightarrow> group_world option" where
  "checkGroupTransients this w =
     do {
       g \<leftarrow> in_group (cl w this);
       let members = gr_members (grp w g);
       foldM (\<lambda>it1 w. if \<not> groupTransient w it1 then Some w
                      else foldM (check_pair members it1) members w) members w
     }"

text \<open>\<open>findModal\<close> is a recursion without a guard; a window is reached only once in lists that do not
  form a circle, so that the number of windows known is enough fuel there.\<close>

definition checkActiveModal :: "group_world \<Rightarrow> group_world option" where
  "checkActiveModal w =
     (case mostRecentlyActivatedClient w of
        None \<Rightarrow> Some w
      | Some check_modal \<Rightarrow>
          if isClient w check_modal \<and> check_active_modal w
          then do {
            new_modal \<leftarrow> findModal (length (known_windows w) + 1) w check_modal True;
            (case new_modal of
               Some m \<Rightarrow>
                 if isClient w m \<and> m \<noteq> check_modal
                 then if \<not> managed w m then Some w
                      else Some ((do_call (ActivateClient m) w)\<lparr>check_active_modal := False\<rparr>)
                 else Some (w\<lparr>check_active_modal := False\<rparr>)
             | None \<Rightarrow> Some (w\<lparr>check_active_modal := False\<rparr>))
          }
          else Some w)"

section \<open>The group of a window\<close>

text \<open>Out of the group it is in, if any, and into the group \<open>g\<close>.\<close>

definition leaveGroup :: "win \<Rightarrow> group_world \<Rightarrow> group_world option" where
  "leaveGroup this w =
     (case in_group (cl w this) of None \<Rightarrow> Some w | Some g \<Rightarrow> removeMember g this w)"

definition enterGroup :: "win \<Rightarrow> nat \<Rightarrow> group_world \<Rightarrow> group_world" where
  "enterGroup this g w = addMember g this (upd_cl this (\<lambda>r. r\<lparr>in_group := Some g\<rparr>) w)"

definition moveToGroup :: "win \<Rightarrow> nat \<Rightarrow> group_world \<Rightarrow> group_world option" where
  "moveToGroup this g w =
     (if in_group (cl w this) = Some g then Some w
      else do { w \<leftarrow> leaveGroup this w; Some (enterGroup this g w) })"

text \<open>What follows the change: the lists of transients are brought in line with the group.\<close>

definition becomeGroupTransient :: "win \<Rightarrow> nat option \<Rightarrow> nat \<Rightarrow> group_world \<Rightarrow> group_world option" where
  "becomeGroupTransient this old_group g w =
     (let w = (case old_group of None \<Rightarrow> w
               | Some old \<Rightarrow> removeTransient_from this (gr_members (grp w old)) w)
      in foldM (\<lambda>m. client_addTransient m this) (takeWhile (\<lambda>m. m \<noteq> this) (gr_members (grp w g))) w)"

definition addSplash :: "win \<Rightarrow> win \<Rightarrow> group_world \<Rightarrow> group_world option" where
  "addSplash this m w =
     (if \<not> isSplash w m then Some w
      else if \<not> groupTransient w m then Some w
      else if m = this \<or> hasTransient w this m True then Some w
      else client_addTransient this m w)"

definition regroupTransients :: "win \<Rightarrow> nat option \<Rightarrow> group_world \<Rightarrow> group_world option" where
  "regroupTransients this old_group w =
     do {
       let w = dropForeign this 0 w;
       g \<leftarrow> in_group (cl w this);
       w \<leftarrow> (if groupTransient w this then becomeGroupTransient this old_group g w else Some w);
       foldM (addSplash this) (gr_members (grp w g)) w
     }"

definition finishCheckGroup :: "win \<Rightarrow> nat option \<Rightarrow> bool \<Rightarrow> group_world \<Rightarrow> group_world option" where
  "finishCheckGroup this old_group force w =
     do {
       w \<leftarrow> (if in_group (cl w this) \<noteq> old_group \<or> force
             then regroupTransients this old_group w else Some w);
       let w = (case old_group of None \<Rightarrow> w | Some g \<Rightarrow> deref_group g w);
       w \<leftarrow> checkGroupTransients this w;
       w \<leftarrow> checkActiveModal w;
       Some (do_call (UpdateClientLayer this) w)
     }"

definition holdGroup :: "nat option \<Rightarrow> group_world \<Rightarrow> group_world" where
  "holdGroup old_group w = (case old_group of None \<Rightarrow> w | Some g \<Rightarrow> ref_group g w)"

text \<open>\<open>checkGroup\<close> with a group to set, and its caller \<open>changeClientLeaderGroup\<close>.\<close>

definition checkGroup_set :: "win \<Rightarrow> nat \<Rightarrow> bool \<Rightarrow> group_world \<Rightarrow> group_world option" where
  "checkGroup_set this g force w =
     (let old_group = in_group (cl w this) in
      do {
        w \<leftarrow> moveToGroup this g (holdGroup old_group w);
        finishCheckGroup this old_group force w
      })"

definition changeClientLeaderGroup :: "win \<Rightarrow> nat \<Rightarrow> group_world \<Rightarrow> group_world option" where
  "changeClientLeaderGroup this gr w =
     (if m_transientFor (cl w this) \<noteq> None then Some w
      else if groupLeader (cl w this) \<noteq> WINDOW_NONE then Some w
      else checkGroup_set this gr False w)"

definition leaderGroup_step ::
    "win \<Rightarrow> win \<Rightarrow> nat option \<times> group_world \<Rightarrow> (nat option \<times> group_world) option" where
  "leaderGroup_step c x s =
     (let (found, w) = s in
      if x = c then Some (found, w)
      else if wmClientLeader (cl w x) \<noteq> wmClientLeader (cl w c) then Some (found, w)
      else case found of
        None \<Rightarrow> Some (in_group (cl w x), w)
      | Some g \<Rightarrow>
          if in_group (cl w x) = Some g then Some (found, w)
          else do {
            h \<leftarrow> in_group (cl w x);
            w \<leftarrow> foldM (\<lambda>tmp w. if tmp \<noteq> c then changeClientLeaderGroup tmp g w else Some w)
                   (gr_members (grp w h)) w;
            Some (found, w)
          })"

definition findClientLeaderGroup :: "win \<Rightarrow> group_world \<Rightarrow> (nat option \<times> group_world) option" where
  "findClientLeaderGroup c w = foldM (leaderGroup_step c) (clients w) (None, w)"

text \<open>\<open>checkGroup\<close> without: the group leader's group, that of the main window, or one of the same
  client leader; a new one if there is none.\<close>

definition orNewGroup :: "nat option \<Rightarrow> xid \<Rightarrow> group_world \<Rightarrow> nat \<times> group_world" where
  "orNewGroup g leader w = (case g of Some g \<Rightarrow> (g, w) | None \<Rightarrow> newGroup leader w)"

definition groupOfLeader :: "win \<Rightarrow> group_world \<Rightarrow> group_world option" where
  "groupOfLeader this w =
     do {
       found \<leftarrow> findGroup w (groupLeader (cl w this));
       let wanted = (case transientForClient w this of
             None \<Rightarrow> found
           | Some t \<Rightarrow> if in_group (cl w t) \<noteq> found then in_group (cl w t) else found);
       let (g, w) = orNewGroup wanted (groupLeader (cl w this)) w;
       moveToGroup this g w
     }"

definition groupOfMain :: "win \<Rightarrow> win \<Rightarrow> group_world \<Rightarrow> group_world option" where
  "groupOfMain this t w = do { g \<leftarrow> in_group (cl w t); moveToGroup this g w }"

definition groupOfTransient :: "win \<Rightarrow> group_world \<Rightarrow> group_world option" where
  "groupOfTransient this w =
     do {
       (found, w) \<leftarrow> findClientLeaderGroup this w;
       let (g, w) = orNewGroup found WINDOW_NONE w;
       moveToGroup this g w
     }"

definition groupOfClientLeader :: "win \<Rightarrow> group_world \<Rightarrow> group_world option" where
  "groupOfClientLeader this w =
     do {
       (found, w) \<leftarrow> findClientLeaderGroup this w;
       w \<leftarrow> (case in_group (cl w this) of
               Some g \<Rightarrow>
                 if in_group (cl w this) \<noteq> found
                 then do { w \<leftarrow> removeMember g this w; Some (upd_cl this (\<lambda>r. r\<lparr>in_group := None\<rparr>) w) }
                 else Some w
             | None \<Rightarrow> Some w);
       let (g, w) = orNewGroup found WINDOW_NONE w;
       Some (if in_group (cl w this) \<noteq> Some g then enterGroup this g w else w)
     }"

definition chooseGroup :: "win \<Rightarrow> group_world \<Rightarrow> group_world option" where
  "chooseGroup this w =
     (if groupLeader (cl w this) \<noteq> WINDOW_NONE then groupOfLeader this w
      else case transientForClient w this of
        Some t \<Rightarrow> groupOfMain this t w
      | None \<Rightarrow> if groupTransient w this then groupOfTransient this w else groupOfClientLeader this w)"

definition checkGroup :: "win \<Rightarrow> nat option \<Rightarrow> bool \<Rightarrow> group_world \<Rightarrow> group_world option" where
  "checkGroup this set_group force w =
     (case set_group of
        Some g \<Rightarrow> checkGroup_set this g force w
      | None \<Rightarrow>
          let old_group = in_group (cl w this) in
          do {
            w \<leftarrow> chooseGroup this (holdGroup old_group w);
            finishCheckGroup this old_group force w
          })"

section \<open>The main window of a window\<close>

text \<open>\<open>findClient\<close> with the assertion that it finds one, \<open>setTransientFor\<close>, \<open>setTransient\<close>.\<close>

definition setTransientFor :: "win \<Rightarrow> win option \<Rightarrow> 'a world_scheme \<Rightarrow> 'a world_scheme" where
  "setTransientFor this t w =
     (if t = Some this then w
      else if m_transientFor (cl w this) = t then w
      else upd_cl this (\<lambda>r. r\<lparr>m_transientFor := t\<rparr>) w)"

definition attachTo :: "win \<Rightarrow> group_world \<Rightarrow> (win option \<times> group_world) option" where
  "attachTo this w =
     (if isTransient w this \<and> \<not> groupTransient w this
      then do {
        t \<leftarrow> findClient w (m_transientForId (cl w this));
        w \<leftarrow> client_addTransient t this w;
        Some (Some t, w)
      }
      else Some (None, w))"

definition setTransient :: "win \<Rightarrow> xid \<Rightarrow> group_world \<Rightarrow> group_world option" where
  "setTransient this new_id w =
     (if new_id = m_transientForId (cl w this) then Some w
      else do {
        w \<leftarrow> removeFromMainClients this w;
        (t, w) \<leftarrow> attachTo this (upd_cl this (\<lambda>r. r\<lparr>m_transientForId := new_id\<rparr>) w);
        w \<leftarrow> checkGroup this None True (setTransientFor this t w);
        Some (do_call ResetUpdateToolWindowsTimer (do_call (UpdateClientLayer this) w))
      })"

text \<open>\<open>verifyTransientFor\<close>: the nearest ancestor of the window in the X tree that is managed, and
  the loop detection, with its counter.\<close>

partial_function (option) managedAncestor :: "group_world \<Rightarrow> xid \<Rightarrow> xid option" where
  "managedAncestor w x =
     (if x \<noteq> WINDOW_NONE \<and> x \<noteq> root_window w \<and> findClient w x = None
      then case x_parent w x of None \<Rightarrow> Some x | Some p \<Rightarrow> managedAncestor w p
      else Some x)"

partial_function (option) detectLoop ::
    "group_world \<Rightarrow> win \<Rightarrow> int \<Rightarrow> xid \<Rightarrow> xid \<Rightarrow> xid option" where
  "detectLoop w this n loop_pos new =
     (if loop_pos \<noteq> WINDOW_NONE \<and> loop_pos \<noteq> root_window w
      then case findClient w loop_pos of
             None \<Rightarrow> Some new
           | Some pos \<Rightarrow>
               detectLoop w this (n - 1) (m_transientForId (cl w pos))
                 (if n - 1 = 0 \<or> pos = this then root_window w else new)
      else Some new)"

declare managedAncestor.simps [code] detectLoop.simps [code]

definition fix_property :: "win \<Rightarrow> xid \<Rightarrow> group_world \<Rightarrow> group_world" where
  "fix_property this x w =
     (if x \<noteq> m_originalTransientForId (cl w this)
      then do_call (SetTransientForProperty (window (cl w this)) x) w else w)"

definition verifyTransientFor :: "win \<Rightarrow> xid \<Rightarrow> bool \<Rightarrow> group_world \<Rightarrow> (xid \<times> group_world) option" where
  "verifyTransientFor this new set_property w =
     (let prop = new;
          new = (if isSplash w this \<and> new = WINDOW_NONE then root_window w else new)
      in
      if new = WINDOW_NONE \<and> \<not> set_property then Some (WINDOW_NONE, w)
      else
        let prop = (if new = WINDOW_NONE then root_window w else prop);
            new = (if new = WINDOW_NONE then root_window w else new);
            itself = (new = window (cl w this));
            prop = (if itself then root_window w else prop);
            before_search = (if itself then root_window w else new)
        in do {
          found \<leftarrow> managedAncestor w before_search;
          let prop = (if findClient w found \<noteq> None \<and> found \<noteq> before_search then found else prop);
          let new = (if findClient w found \<noteq> None then found else before_search);
          new \<leftarrow> detectLoop w this 20 new new;
          let new = (if new \<noteq> root_window w \<and> findClient w new = None then root_window w else new);
          Some (new, fix_property this prop w)
        })"

definition readTransientProperty :: "win \<Rightarrow> xid option \<Rightarrow> group_world \<Rightarrow> group_world option" where
  "readTransientProperty this property w =
     (let original = (case property of None \<Rightarrow> WINDOW_NONE | Some x \<Rightarrow> x) in
      do {
        (new, w) \<leftarrow> verifyTransientFor this original (property \<noteq> None)
                     (upd_cl this (\<lambda>r. r\<lparr>m_originalTransientForId := original\<rparr>) w);
        setTransient this new w
      })"

definition checkTransient :: "win \<Rightarrow> xid \<Rightarrow> group_world \<Rightarrow> group_world option" where
  "checkTransient this x w =
     (if m_originalTransientForId (cl w this) \<noteq> x then Some w
      else do { (new, w) \<leftarrow> verifyTransientFor this x True w; setTransient this new w })"

text \<open>\<open>Workspace::checkTransients\<close>, when a window has been mapped.\<close>

definition checkTransients :: "xid \<Rightarrow> group_world \<Rightarrow> group_world option" where
  "checkTransients x w = foldM (\<lambda>c. checkTransient c x) (clients w) w"

section \<open>A window goes\<close>

definition cleanGrouping :: "win \<Rightarrow> group_world \<Rightarrow> group_world option" where
  "cleanGrouping this w =
     do {
       w \<leftarrow> removeFromMainClients this w;
       let w = dropTransients this 0 w;
       g \<leftarrow> in_group (cl w this);
       let members = gr_members (grp w g);
       w \<leftarrow> removeMember g this w;
       let w = removeTransient_from this members (upd_cl this (\<lambda>r. r\<lparr>in_group := None\<rparr>) w);
       Some (upd_cl this (\<lambda>r. r\<lparr>m_transientForId := WINDOW_NONE\<rparr>) w)
     }"

section \<open>A window comes\<close>

text \<open>
  What \<open>manage\<close> and \<open>addClient\<close> do to the groups and main windows of a window that is mapped, and
  \<open>removeClient\<close> of one that goes; \<open>property\<close> is its \<open>WM_TRANSIENT_FOR\<close>.
\<close>

definition manage_groups :: "win \<Rightarrow> xid option \<Rightarrow> group_world \<Rightarrow> group_world option" where
  "manage_groups this property w =
     do { w \<leftarrow> checkGroup this None False w; readTransientProperty this property w }"

definition addClient_groups :: "win \<Rightarrow> group_world \<Rightarrow> group_world option" where
  "addClient_groups c w =
     do {
       found \<leftarrow> findGroup w (window (cl w c));
       w \<leftarrow> (case found of None \<Rightarrow> Some w | Some g \<Rightarrow> gotLeader g c w);
       let w = (if isDesktop w c then w\<lparr>desktops := desktops w @ [c]\<rparr> else w\<lparr>clients := clients w @ [c]\<rparr>);
       w \<leftarrow> checkActiveModal w;
       checkTransients (window (cl w c)) w
     }"

definition removeClient_groups :: "win \<Rightarrow> group_world \<Rightarrow> group_world option" where
  "removeClient_groups c w =
     (if c \<notin> set (known_windows w) then None
      else let w = w\<lparr>clients := removeAll c (clients w), desktops := removeAll c (desktops w)\<rparr>
           in do {
             found \<leftarrow> findGroup w (window (cl w c));
             (case found of None \<Rightarrow> Some w | Some g \<Rightarrow> lostLeader g w)
           })"

end
