(* ===== verification/GroupFacts.thy ===== *)
theory GroupFacts
  imports WindowGroups
begin

text \<open>
  What keeps the groups and the lists of transients consistent: the state it needs, and that the
  operations of \<^verbatim>\<open>WindowGroups\<close> keep it and do not run into an assertion.
\<close>

section \<open>The consistent state\<close>

abbreviation lists :: "'a world_scheme \<Rightarrow> win \<Rightarrow> win list" where
  "lists w \<equiv> \<lambda>c. m_transients (cl w c)"

abbreviation mains :: "'a world_scheme \<Rightarrow> win \<Rightarrow> win option" where
  "mains w \<equiv> \<lambda>c. m_transientFor (cl w c)"

abbreviation group_of :: "'a world_scheme \<Rightarrow> win \<Rightarrow> nat option" where
  "group_of w \<equiv> \<lambda>c. in_group (cl w c)"

lemma upd_cl_group_sel [simp]:
  "check_active_modal (upd_cl c f w) = check_active_modal w" "next_group (upd_cl c f w) = next_group w"
  "x_parent (upd_cl c f w) = x_parent w" "managed (upd_cl c f w) = managed w"
  by (simp_all add: upd_cl_def)

text \<open>The walk up the main windows ends.\<close>

inductive ends :: "(win \<Rightarrow> win option) \<Rightarrow> win \<Rightarrow> bool" for f where
  top: "f c = None \<Longrightarrow> ends f c"
| up: "f c = Some m \<Longrightarrow> ends f m \<Longrightarrow> ends f c"

text \<open>Members and groups, where \<open>hold\<close> says how many references to a group are held.\<close>

definition members_ok :: "(nat \<Rightarrow> nat) \<Rightarrow> group_world \<Rightarrow> bool" where
  "members_ok hold w \<longleftrightarrow>
     (\<forall>g c. c \<in> set (gr_members (grp w g)) \<longleftrightarrow> in_group (cl w c) = Some g) \<and>
     (\<forall>g. distinct (gr_members (grp w g))) \<and> distinct (groups w) \<and>
     (\<forall>g. g \<in> set (groups w) \<longleftrightarrow> gr_members (grp w g) \<noteq> [] \<or> hold g > 0) \<and>
     (\<forall>g\<in>set (groups w). g < next_group w \<and> refcount (grp w g) = int (hold g))"

text \<open>A window is on the list of its main window, or, as a group transient, of others of its
  group; \<open>G\<close> says which group a window counts for.\<close>

definition lists_ok :: "(win \<Rightarrow> nat option) \<Rightarrow> group_world \<Rightarrow> bool" where
  "lists_ok G w \<longleftrightarrow>
     (\<forall>m. G m \<noteq> None \<longrightarrow> distinct (lists w m) \<and>
        (\<forall>c\<in>set (lists w m). G c \<noteq> None \<and> c \<noteq> m \<and>
           (mains w c = Some m \<or> mains w c = None \<and> groupTransient w c \<and> G c = G m)))"

definition mains_ok :: "(win \<Rightarrow> nat option) \<Rightarrow> group_world \<Rightarrow> bool" where
  "mains_ok G w \<longleftrightarrow>
     (\<forall>c m. mains w c = Some m \<longrightarrow> G c \<noteq> None \<and> G m \<noteq> None \<and> c \<in> set (lists w m) \<and>
        m_transientForId (cl w c) = window (cl w m) \<and> window (cl w m) \<noteq> root_window w) \<and>
     (\<forall>c. ends (mains w) c)"

text \<open>The windows known are in groups and are X11 clients; the root window is none of them.  No
  window is modal, the search for a modal dialog is not part of this.\<close>

definition session_ok :: "group_world \<Rightarrow> bool" where
  "session_ok w \<longleftrightarrow>
     (\<forall>c. in_group (cl w c) \<noteq> None \<longrightarrow> isClient w c) \<and>
     root_window w \<noteq> WINDOW_NONE \<and> (\<forall>c. \<not> m_modal (cl w c)) \<and> \<not> check_active_modal w"

definition grouping_ok :: "group_world \<Rightarrow> bool" where
  "grouping_ok w \<longleftrightarrow>
     members_ok (\<lambda>_. 0) w \<and> lists_ok (group_of w) w \<and> mains_ok (group_of w) w \<and> session_ok w"

lemma group_transient_top: "mains_ok G w \<Longrightarrow> groupTransient w c \<Longrightarrow> mains w c = None"
  by (cases "mains w c") (auto simp: mains_ok_def groupTransient_def)

section \<open>Changing nothing but the lists of transients\<close>

definition with_lists :: "(win \<Rightarrow> win list) \<Rightarrow> group_world \<Rightarrow> group_world" where
  "with_lists L w = w\<lparr>cl := \<lambda>c. (cl w c)\<lparr>m_transients := L c\<rparr>\<rparr>"

lemma with_lists_sel [simp]:
  "cl (with_lists L w) c = (cl w c)\<lparr>m_transients := L c\<rparr>" "grp (with_lists L w) = grp w"
  "groups (with_lists L w) = groups w" "root_window (with_lists L w) = root_window w"
  "clients (with_lists L w) = clients w" "desktops (with_lists L w) = desktops w"
  "active_client (with_lists L w) = active_client w" "should_get_focus (with_lists L w) = should_get_focus w"
  "next_group (with_lists L w) = next_group w"
  "check_active_modal (with_lists L w) = check_active_modal w"
  "with_lists K (with_lists L w) = with_lists K w"
  by (simp_all add: with_lists_def)

lemma with_lists_id: "with_lists (lists w) w = w"
  by (cases w) (simp add: with_lists_def)

lemma with_lists_triv [simp]: "with_lists ((lists w)(m := lists w m)) w = w"
  using with_lists_id [of w] by (simp add: fun_upd_idem)

lemma with_lists_queries [simp]:
  "groupTransient (with_lists L w) = groupTransient w" "isTransient (with_lists L w) = isTransient w"
  "isClient (with_lists L w) = isClient w"
  "mostRecentlyActivatedClient (with_lists L w) = mostRecentlyActivatedClient w"
  by (simp_all add: fun_eq_iff groupTransient_def isTransient_def isClient_def mostRecentlyActivatedClient_def)

lemma foreign_with_lists [simp]: "foreign_transient (with_lists L w) = foreign_transient w"
  by (simp add: fun_eq_iff foreign_transient_def)

lemma removeTransientFromList_lists:
  "removeTransientFromList m c w = with_lists ((lists w)(m := removeAll c (lists w m))) w"
  unfolding removeTransientFromList_def upd_cl_def with_lists_def
  by (rule arg_cong [where f = "\<lambda>x. w\<lparr>cl := x\<rparr>"]) (simp add: fun_eq_iff)

lemma removeTransient_lists:
  assumes "mains w c \<noteq> Some m"
  shows "removeTransient m c w = with_lists ((lists w)(m := removeAll c (lists w m))) w"
proof -
  have "removeTransient m c w = removeTransientFromList m c w"
    using assms
    by (cases "c = m") (simp_all add: removeTransient_def removeTransientBase_def removeTransientFromList_def Let_def)
  then show ?thesis by (simp add: removeTransientFromList_lists)
qed

lemma client_addTransient_lists:
  assumes "c \<notin> set (lists w m)" "c \<noteq> m" "\<not> m_modal (cl w c)"
  shows "client_addTransient m c w = Some (with_lists ((lists w)(m := lists w m @ [c])) w)"
proof -
  have "upd_cl m (\<lambda>r. r\<lparr>m_transients := m_transients r @ [c]\<rparr>) w =
      with_lists ((lists w)(m := lists w m @ [c])) w"
    unfolding upd_cl_def with_lists_def
    by (rule arg_cong [where f = "\<lambda>x. w\<lparr>cl := x\<rparr>"]) (simp add: fun_eq_iff)
  with assms show ?thesis by (simp add: client_addTransient_def addTransient_def)
qed

definition relists :: "group_world \<Rightarrow> group_world \<Rightarrow> bool" where
  "relists w v \<longleftrightarrow> v = with_lists (lists v) w"

lemma relists_refl [simp]: "relists w w"
  by (simp add: relists_def with_lists_id)

lemma relists_with [simp]: "relists w (with_lists L w)"
  by (simp add: relists_def)

lemma relists_trans [trans]: "relists u v \<Longrightarrow> relists v w \<Longrightarrow> relists u w"
  unfolding relists_def by (metis with_lists_sel(11))

lemma relists_frame:
  assumes "relists w v"
  shows "mains v = mains w" "group_of v = group_of w" "grp v = grp w" "groups v = groups w"
    "groupTransient v = groupTransient w" "isClient v = isClient w" "root_window v = root_window w"
    "next_group v = next_group w" "check_active_modal v = check_active_modal w"
    "m_modal (cl v c) = m_modal (cl w c)" "m_transientForId (cl v c) = m_transientForId (cl w c)"
    "window (cl v c) = window (cl w c)" "clients v = clients w" "desktops v = desktops w"
    "mostRecentlyActivatedClient v = mostRecentlyActivatedClient w"
proof -
  from assms have v: "v = with_lists (lists v) w" by (simp add: relists_def)
  show "mains v = mains w" "group_of v = group_of w" "grp v = grp w" "groups v = groups w"
    "groupTransient v = groupTransient w" "isClient v = isClient w" "root_window v = root_window w"
    "next_group v = next_group w" "check_active_modal v = check_active_modal w"
    "m_modal (cl v c) = m_modal (cl w c)" "m_transientForId (cl v c) = m_transientForId (cl w c)"
    "window (cl v c) = window (cl w c)" "clients v = clients w" "desktops v = desktops w"
    "mostRecentlyActivatedClient v = mostRecentlyActivatedClient w"
    by (subst v; simp)+
qed

text \<open>Only group transients are taken off lists.\<close>

definition thinner :: "group_world \<Rightarrow> group_world \<Rightarrow> bool" where
  "thinner w v \<longleftrightarrow> relists w v \<and>
     (\<forall>m. set (lists v m) \<subseteq> set (lists w m) \<and> (distinct (lists w m) \<longrightarrow> distinct (lists v m)) \<and>
        (\<forall>c\<in>set (lists w m). \<not> groupTransient w c \<longrightarrow> c \<in> set (lists v m)))"

lemma thinner_refl [simp]: "thinner w w"
  by (simp add: thinner_def)

lemma thinner_relists: "thinner w v \<Longrightarrow> relists w v"
  by (simp add: thinner_def)

lemmas thinner_frame = relists_frame [OF thinner_relists]

lemma thinner_trans [trans]:
  assumes "thinner u v" "thinner v w"
  shows "thinner u w"
  using assms relists_trans [OF thinner_relists [OF assms(1)] thinner_relists [OF assms(2)]]
    thinner_frame(5) [OF assms(1)]
  by (simp add: thinner_def) (meson subset_trans)

lemma thinner_remove:
  assumes "groupTransient w c"
  shows "thinner w (removeTransientFromList m c w)"
proof -
  have "lists (removeTransientFromList m c w) = (lists w)(m := removeAll c (lists w m))"
    by (simp add: removeTransientFromList_lists fun_eq_iff)
  with assms show ?thesis
    unfolding thinner_def by (auto simp: removeTransientFromList_lists distinct_removeAll)
qed

lemma foldM_thinner:
  assumes "\<And>x v. x \<in> set xs \<Longrightarrow> thinner w v \<Longrightarrow> \<exists>v'. f x v = Some v' \<and> thinner v v'" "thinner w u"
  shows "\<exists>v. foldM f xs u = Some v \<and> thinner w v"
  using assms
proof (induction xs arbitrary: u)
  case (Cons x xs)
  obtain v where v: "f x u = Some v" "thinner u v" using Cons.prems by (meson list.set_intros(1))
  have "\<exists>v'. foldM f xs v = Some v' \<and> thinner w v'"
    by (rule Cons.IH) (use Cons.prems v thinner_trans in auto)
  with v show ?case by simp
qed simp

lemma fold_thinner:
  assumes "\<And>x v. x \<in> set xs \<Longrightarrow> thinner w v \<Longrightarrow> thinner v (f x v)" "thinner w u"
  shows "thinner w (fold f xs u)"
  using assms
proof (induction xs arbitrary: u)
  case (Cons x xs)
  have "thinner w (fold f xs (f x u))"
    by (rule Cons.IH) (use Cons.prems thinner_trans in auto)
  then show ?case by simp
qed simp

lemma unlink_thinner:
  assumes "groupTransient w it1"
  shows "thinner w (unlink_mutual it1 it2 w)" "thinner w (unlink_indirect it1 it2 it3 w)"
proof -
  show "thinner w (unlink_mutual it1 it2 w)"
    using thinner_remove [OF assms] by (simp add: unlink_mutual_def)
  define v where "v = (if hasTransient w it2 it3 True then removeTransientFromList it2 it1 w else w)"
  have v: "thinner w v" using thinner_remove [OF assms] by (simp add: v_def)
  then have "groupTransient v it1" using thinner_frame(5) [OF v] assms by simp
  then have "thinner w (if hasTransient v it3 it2 True then removeTransientFromList it3 it1 v else v)"
    using thinner_trans [OF v thinner_remove] v by simp
  then show "thinner w (unlink_indirect it1 it2 it3 w)"
    by (simp add: unlink_indirect_def v_def [symmetric] Let_def)
qed

lemma walkMains_thinner:
  assumes "ends f pos" "f = mains w" "groupTransient w it1"
  shows "\<exists>v. walkMains it1 it2 (Some pos) w = Some v \<and> thinner w v"
  using assms
proof (induction arbitrary: w rule: ends.induct)
  case (top c)
  define v where "v = (if c = it1 then removeTransientFromList it2 it1 w else w)"
  have v: "thinner w v" using thinner_remove [OF top.prems(2)] by (simp add: v_def)
  have "mains v c = None" using thinner_frame(1) [OF v] top by metis
  then have "walkMains it1 it2 (Some c) w = Some v"
    by (simp add: walkMains.simps [of _ _ "Some c"] v_def [symmetric] walkMains.simps [of _ _ None])
  with v show ?case by blast
next
  case (up c m)
  define v where "v = (if c = it1 then removeTransientFromList it2 it1 w else w)"
  have v: "thinner w v" using thinner_remove [OF up.prems(2)] by (simp add: v_def)
  have m: "mains v c = Some m" using thinner_frame(1) [OF v] up by metis
  have "\<exists>u. walkMains it1 it2 (Some m) v = Some u \<and> thinner v u"
    by (rule up.IH) (use thinner_frame [OF v] up.prems in auto)
  moreover have "walkMains it1 it2 (Some c) w = walkMains it1 it2 (Some m) v"
    using m by (subst walkMains.simps) (simp add: v_def [symmetric] Let_def)
  ultimately show ?case using thinner_trans [OF v] by auto
qed

lemma check_pair_thinner:
  assumes "\<forall>c. ends (mains w) c" "groupTransient w it1"
  shows "\<exists>v. check_pair ms it1 it2 w = Some v \<and> thinner w v"
proof (cases "it1 = it2")
  case False
  obtain u where u: "walkMains it1 it2 (mains w it2) w = Some u" "thinner w u"
  proof (cases "mains w it2")
    case None
    then show ?thesis using that by (simp add: walkMains.simps)
  next
    case (Some pos)
    have "\<exists>v. walkMains it1 it2 (Some pos) w = Some v \<and> thinner w v"
      by (rule walkMains_thinner [OF _ refl assms(2)]) (use assms(1) in blast)
    then show ?thesis using that Some by auto
  qed
  have gt: "groupTransient v it1" if "thinner w v" for v
    using thinner_frame(5) [OF that] assms(2) by simp
  define v where "v = unlink_mutual it1 it2 u"
  have v: "thinner w v" using thinner_trans [OF u(2) unlink_thinner(1) [OF gt [OF u(2)]]] by (simp add: v_def)
  have "thinner w (fold (unlink_indirect it1 it2) ms v)"
    by (rule fold_thinner [OF unlink_thinner(2) v]) (rule gt)
  with u(1) False show ?thesis by (simp add: check_pair_def v_def)
qed (simp add: check_pair_def)

lemma checkGroupTransients_thinner:
  assumes "\<forall>c. ends (mains w) c" "in_group (cl w this) = Some g"
  shows "\<exists>v. checkGroupTransients this w = Some v \<and> thinner w v"
proof -
  let ?ms = "gr_members (grp w g)"
  have inner: "\<exists>v'. foldM (check_pair ?ms it1) ?ms v = Some v' \<and> thinner v v'"
    if "thinner w v" "groupTransient v it1" for it1 v
  proof (rule foldM_thinner)
    fix x u
    assume u: "thinner v u"
    note wu = thinner_trans [OF that(1) u]
    have "\<forall>c. ends (mains u) c" using assms(1) thinner_frame(1) [OF wu] by simp
    moreover have "groupTransient u it1" using that(2) thinner_frame(5) [OF u] by simp
    ultimately show "\<exists>v'. check_pair ?ms it1 x u = Some v' \<and> thinner u v'" by (rule check_pair_thinner)
  qed simp
  have "\<exists>v. foldM (\<lambda>it1 w. if \<not> groupTransient w it1 then Some w else foldM (check_pair ?ms it1) ?ms w) ?ms w =
      Some v \<and> thinner w v"
    by (rule foldM_thinner) (auto intro: inner)
  with assms(2) show ?thesis by (simp add: checkGroupTransients_def Let_def)
qed

lemma thinner_ok:
  assumes "thinner w v" "lists_ok G w" "mains_ok G w"
  shows "lists_ok G v" "mains_ok G v"
proof -
  note fr = thinner_frame [OF assms(1)]
  have t: "mains v c = mains w c" for c using fun_cong [OF fr(1)] .
  have "distinct (lists v m) \<and> (\<forall>c\<in>set (lists v m). G c \<noteq> None \<and> c \<noteq> m \<and>
      (mains w c = Some m \<or> mains w c = None \<and> groupTransient w c \<and> G c = G m))" if "G m \<noteq> None" for m
  proof -
    have "set (lists v m) \<subseteq> set (lists w m)" "distinct (lists w m) \<Longrightarrow> distinct (lists v m)"
      using assms(1) by (simp_all add: thinner_def)
    with assms(2) that show ?thesis unfolding lists_ok_def by blast
  qed
  then show "lists_ok G v" unfolding lists_ok_def fr(5) t by blast
  have "c \<in> set (lists v m)" if "mains w c = Some m" for c m
  proof -
    have "\<not> groupTransient w c" using group_transient_top [OF assms(3)] that by auto
    moreover have "c \<in> set (lists w m)" using assms(3) that by (simp add: mains_ok_def)
    ultimately show ?thesis using assms(1) by (simp add: thinner_def)
  qed
  moreover have e: "mains v c = mains w c" for c using fun_cong [OF fr(1)] .
  moreover have "G c \<noteq> None \<and> G m \<noteq> None \<and> m_transientForId (cl w c) = window (cl w m) \<and>
      window (cl w m) \<noteq> root_window w" if "mains w c = Some m" for c m
    using assms(3) that unfolding mains_ok_def by blast
  moreover have "ends (mains w) c" for c
    using assms(3) unfolding mains_ok_def by blast
  ultimately show "mains_ok G v" unfolding mains_ok_def fr(7,11,12) fr(1) e by blast
qed

section \<open>Bringing the lists in line with a new group\<close>

lemma dropForeign_lists:
  assumes "\<forall>c\<in>set (take i (lists w this)). \<not> foreign_transient w this c"
  shows "dropForeign this i w =
    with_lists ((lists w)(this := filter (\<lambda>c. \<not> foreign_transient w this c) (lists w this))) w"
  using assms
proof (induction this i w rule: dropForeign.induct)
  case (1 this i w)
  let ?ts = "lists w this" and ?P = "\<lambda>c. \<not> foreign_transient w this c"
  consider (stop) "i \<ge> length ?ts" | (drop) "i < length ?ts" "foreign_transient w this (?ts ! i)"
    | (keep) "i < length ?ts" "\<not> foreign_transient w this (?ts ! i)" by linarith
  then show ?case
  proof cases
    case stop
    then have "filter ?P ?ts = ?ts" using "1.prems" by (simp add: filter_id_conv)
    with stop show ?thesis by (subst dropForeign.simps) (simp add: with_lists_id)
  next
    case drop
    define K where "K = (lists w)(this := removeAll (?ts ! i) ?ts)"
    have v: "removeTransientFromList this (?ts ! i) w = with_lists K w"
      by (simp add: K_def removeTransientFromList_lists)
    have "filter ?P (K this) = filter ?P ?ts"
      unfolding K_def fun_upd_same removeAll_filter_not_eq filter_filter
      using drop(2) by (intro filter_cong) auto
    then have "K(this := filter ?P (K this)) = (lists w)(this := filter ?P ?ts)" by (simp add: K_def)
    moreover have "dropForeign this 0 (with_lists K w) = with_lists (K(this := filter ?P (K this))) w"
      using "1.IH"(1) [OF refl] drop unfolding v by (simp add: fun_upd_def)
    moreover have "dropForeign this i w = dropForeign this 0 (with_lists K w)"
      using drop by (subst dropForeign.simps) (simp only: v Let_def not_le if_not_P if_P)
    ultimately show ?thesis by (simp only:)
  next
    case keep
    then have "take (i + 1) ?ts = take i ?ts @ [?ts ! i]" by (simp add: take_Suc_conv_app_nth)
    with keep "1.prems" have "dropForeign this (i + 1) w = with_lists ((lists w)(this := filter ?P ?ts)) w"
      by (intro "1.IH"(2)) auto
    with keep show ?thesis by (subst dropForeign.simps) simp
  qed
qed

lemma removeTransient_from_lists:
  assumes "mains w this = None"
  shows "removeTransient_from this ms w =
    with_lists (\<lambda>m. if m \<in> set ms then removeAll this (lists w m) else lists w m) w"
  using assms
proof (induction ms arbitrary: w)
  case Nil
  then show ?case by (simp add: removeTransient_from_def with_lists_id)
next
  case (Cons m ms)
  define v where "v = with_lists ((lists w)(m := removeAll this (lists w m))) w"
  have "removeTransient m this w = v" using Cons.prems by (simp add: removeTransient_lists v_def)
  then have "removeTransient_from this (m # ms) w = removeTransient_from this ms v"
    by (simp add: removeTransient_from_def)
  also have "\<dots> = with_lists (\<lambda>k. if k \<in> set ms then removeAll this (lists v k) else lists v k) v"
    by (rule Cons.IH) (use Cons.prems in \<open>simp add: v_def\<close>)
  also have "\<dots> = with_lists (\<lambda>k. if k \<in> set (m # ms) then removeAll this (lists w k) else lists w k) w"
    unfolding v_def with_lists_sel(11) by (rule arg_cong [where f = "\<lambda>L. with_lists L w"]) (auto simp: fun_eq_iff)
  finally show ?case .
qed

lemma addTransients_lists:
  assumes "distinct ms" "\<forall>m\<in>set ms. this \<notin> set (lists w m) \<and> m \<noteq> this" "\<not> m_modal (cl w this)"
  shows "foldM (\<lambda>m. client_addTransient m this) ms w =
    Some (with_lists (\<lambda>m. if m \<in> set ms then lists w m @ [this] else lists w m) w)"
  using assms
proof (induction ms arbitrary: w)
  case (Cons m ms)
  define v where "v = with_lists ((lists w)(m := lists w m @ [this])) w"
  have "client_addTransient m this w = Some v"
    using Cons.prems by (simp add: client_addTransient_lists v_def)
  moreover have "foldM (\<lambda>m. client_addTransient m this) ms v =
      Some (with_lists (\<lambda>k. if k \<in> set ms then lists v k @ [this] else lists v k) v)"
    by (rule Cons.IH) (use Cons.prems in \<open>auto simp: v_def\<close>)
  moreover have "with_lists (\<lambda>k. if k \<in> set ms then lists v k @ [this] else lists v k) v =
      with_lists (\<lambda>k. if k \<in> set (m # ms) then lists w k @ [this] else lists w k) w"
    using Cons.prems(1) unfolding v_def with_lists_sel(11)
    by (intro arg_cong [where f = "\<lambda>L. with_lists L w"]) (auto simp: fun_eq_iff)
  ultimately show ?case by simp
qed (simp add: with_lists_id)

text \<open>A group transient of the window's group on its list is found by the direct search.\<close>

lemma hasTransient_listed:
  assumes "s \<in> set (lists w this)" "isClient w s" "mains w s = None" "groupTransient w s"
    and "in_group (cl w this) = in_group (cl w s)" "root_window w \<noteq> WINDOW_NONE"
  shows "hasTransient w this s True"
proof -
  have "isTransient w s" using assms(4,6) by (simp add: groupTransient_def isTransient_def)
  then have "hasTransientInternal (Suc n) w this s True [] = Some (True, [])" for n
    using assms by (simp add: transientForClient_def)
  then show ?thesis using assms(2) by (simp add: hasTransient_def)
qed

text \<open>Nothing comes onto the list of a window that is in no group.\<close>

definition quiet :: "group_world \<Rightarrow> group_world \<Rightarrow> bool" where
  "quiet w v \<longleftrightarrow>
     (\<forall>m. in_group (cl w m) = None \<longrightarrow> in_group (cl v m) = None \<and> set (lists v m) \<subseteq> set (lists w m))"

lemma quiet_refl [simp]: "quiet w w"
  by (simp add: quiet_def)

lemma quiet_trans [trans]: "quiet u v \<Longrightarrow> quiet v w \<Longrightarrow> quiet u w"
  unfolding quiet_def by (meson subset_trans)

lemma quiet_thinner: "thinner w v \<Longrightarrow> quiet w v"
  unfolding quiet_def using fun_cong [OF thinner_frame(2)] by (simp add: thinner_def)

lemma quiet_with_lists:
  "(\<And>m. in_group (cl w m) = None \<Longrightarrow> set (L m) \<subseteq> set (lists w m)) \<Longrightarrow> quiet w (with_lists L w)"
  by (simp add: quiet_def)

lemma lists_ok_add:
  assumes "lists_ok G w" "\<forall>m\<in>M. c \<notin> set (lists w m) \<and> m \<noteq> c \<and> (G m \<noteq> None \<longrightarrow> G c = G m)"
    and "mains w c = None" "groupTransient w c"
  shows "lists_ok G (with_lists (\<lambda>m. if m \<in> M then lists w m @ [c] else lists w m) w)"
proof -
  have "distinct (lists w m @ [c]) \<and> (\<forall>d\<in>set (lists w m @ [c]). G d \<noteq> None \<and> d \<noteq> m \<and>
      (mains w d = Some m \<or> mains w d = None \<and> groupTransient w d \<and> G d = G m))"
    if "m \<in> M" "G m \<noteq> None" for m
  proof -
    have "distinct (lists w m)" "\<forall>d\<in>set (lists w m). G d \<noteq> None \<and> d \<noteq> m \<and>
        (mains w d = Some m \<or> mains w d = None \<and> groupTransient w d \<and> G d = G m)"
      using assms(1) that(2) unfolding lists_ok_def by blast+
    moreover have "c \<notin> set (lists w m)" "m \<noteq> c" "G c = G m" using assms(2) that by auto
    ultimately show ?thesis using assms(3,4) that(2) by simp
  qed
  with assms(1) show ?thesis unfolding lists_ok_def by simp
qed

lemma mains_ok_more:
  assumes "mains_ok G w" "\<forall>m. set (lists w m) \<subseteq> set (L m)"
  shows "mains_ok G (with_lists L w)"
  using assms unfolding mains_ok_def by simp (meson subset_iff)

lemma addSplash_ok:
  assumes "lists_ok (group_of w) w" "mains_ok (group_of w) w" "session_ok w"
    and "in_group (cl w this) = in_group (cl w m)" "in_group (cl w m) \<noteq> None"
  shows "\<exists>v. addSplash this m w = Some v \<and> relists w v \<and> quiet w v \<and>
    lists_ok (group_of w) v \<and> mains_ok (group_of w) v"
proof (cases "isSplash w m \<and> groupTransient w m \<and> m \<noteq> this \<and> \<not> hasTransient w this m True")
  case False
  then have "addSplash this m w = Some w" by (auto simp: addSplash_def)
  with assms show ?thesis by simp
next
  case True
  have top: "mains w m = None" using group_transient_top [OF assms(2)] True by blast
  have new: "m \<notin> set (lists w this)"
    using hasTransient_listed [OF _ _ top] True assms(3-5) by (auto simp: session_ok_def)
  let ?L = "\<lambda>k. if k \<in> {this} then lists w k @ [m] else lists w k"
  have "(lists w)(this := lists w this @ [m]) = ?L" by auto
  then have "addSplash this m w = Some (with_lists ?L w)"
    using True new assms(3) client_addTransient_lists [OF new]
    by (simp add: addSplash_def session_ok_def)
  moreover have "lists_ok (group_of w) (with_lists ?L w)"
    by (rule lists_ok_add [OF assms(1) _ top]) (use True new assms(4) in auto)
  moreover have "mains_ok (group_of w) (with_lists ?L w)"
    by (rule mains_ok_more [OF assms(2)]) auto
  moreover have "quiet w (with_lists ?L w)"
    by (rule quiet_with_lists) (use assms(4,5) in auto)
  ultimately show ?thesis using relists_with by blast
qed

lemma session_ok_relists: "session_ok w \<Longrightarrow> relists w v \<Longrightarrow> session_ok v"
  unfolding session_ok_def
  by (simp only: relists_frame(6,7,9,10) fun_cong [OF relists_frame(2)] simp_thms) blast

lemma addSplashes_ok:
  assumes "lists_ok (group_of w) w" "mains_ok (group_of w) w" "session_ok w"
    and "\<forall>m\<in>set ms. in_group (cl w m) = in_group (cl w this)" "in_group (cl w this) \<noteq> None"
  shows "\<exists>v. foldM (addSplash this) ms w = Some v \<and> relists w v \<and> quiet w v \<and>
    lists_ok (group_of v) v \<and> mains_ok (group_of v) v"
  using assms
proof (induction ms arbitrary: w)
  case Nil
  then show ?case by simp
next
  case (Cons m ms)
  obtain v where v: "addSplash this m w = Some v" "relists w v" "lists_ok (group_of w) v" "mains_ok (group_of w) v"
      "quiet w v"
    using addSplash_ok [OF Cons.prems(1-3), of this m] Cons.prems(4,5) by auto
  note g = relists_frame(2) [OF v(2)]
  have "\<exists>u. foldM (addSplash this) ms v = Some u \<and> relists v u \<and> quiet v u \<and>
      lists_ok (group_of u) u \<and> mains_ok (group_of u) u"
    by (rule Cons.IH) (use v g session_ok_relists [OF Cons.prems(3) v(2)] Cons.prems(4,5) fun_cong [OF g] in auto)
  with v relists_trans [OF v(2)] quiet_trans [OF v(5)] show ?case by auto
qed

lemma lists_ok_change:
  assumes "lists_ok G w" "session_ok w" "G = (group_of w)(this := old)" "in_group (cl w this) = Some g"
    and "old = None \<Longrightarrow> lists w this = []" "\<forall>c\<in>set (lists w this). \<not> foreign_transient w this c"
    and "\<forall>m. in_group (cl w m) \<noteq> None \<longrightarrow> this \<in> set (lists w m) \<longrightarrow> m \<noteq> this \<and> mains w this = Some m"
  shows "lists_ok (group_of w) w"
proof -
  have "distinct (lists w m) \<and> (\<forall>c\<in>set (lists w m). in_group (cl w c) \<noteq> None \<and> c \<noteq> m \<and>
      (mains w c = Some m \<or> mains w c = None \<and> groupTransient w c \<and> in_group (cl w c) = in_group (cl w m)))"
    if m: "in_group (cl w m) \<noteq> None" for m
  proof (cases "m = this \<and> old = None")
    case True
    then show ?thesis using assms(5) by simp
  next
    case False
    then have "G m \<noteq> None" using m assms(3) by auto
    then have l: "distinct (lists w m)" "\<And>c. c \<in> set (lists w m) \<Longrightarrow> G c \<noteq> None \<and> c \<noteq> m \<and>
        (mains w c = Some m \<or> mains w c = None \<and> groupTransient w c \<and> G c = G m)"
      using assms(1) unfolding lists_ok_def by blast+
    have "in_group (cl w c) \<noteq> None \<and> c \<noteq> m \<and>
        (mains w c = Some m \<or> mains w c = None \<and> groupTransient w c \<and> in_group (cl w c) = in_group (cl w m))"
      if c: "c \<in> set (lists w m)" for c
    proof (cases "c = this")
      case True
      then show ?thesis using assms(4,7) m c by auto
    next
      case neq: False
      then have g: "in_group (cl w c) = G c" "isClient w c"
        using assms(2,3) l(2) [OF c] by (auto simp: session_ok_def)
      show ?thesis
      proof (cases "m = this")
        case True
        then show ?thesis
          using assms(6) c l(2) [OF c] g by (auto simp: foreign_transient_def)
      next
        case False
        then show ?thesis using l(2) [OF c] g assms(3) by auto
      qed
    qed
    with l(1) show ?thesis by blast
  qed
  then show ?thesis unfolding lists_ok_def by blast
qed

lemma mains_ok_group: "mains_ok G w \<Longrightarrow> (\<And>c. G c \<noteq> None \<Longrightarrow> H c \<noteq> None) \<Longrightarrow> mains_ok H w"
  unfolding mains_ok_def by blast

lemma thinner_with_lists:
  assumes "\<And>m. set (L m) \<subseteq> set (lists w m)" "\<And>m. distinct (lists w m) \<Longrightarrow> distinct (L m)"
    and "\<And>m c. c \<in> set (lists w m) \<Longrightarrow> \<not> groupTransient w c \<Longrightarrow> c \<in> set (L m)"
  shows "thinner w (with_lists L w)"
  using assms by (simp add: thinner_def)

lemma foreign_group_transient: "foreign_transient w this c \<Longrightarrow> groupTransient w c"
  by (simp add: foreign_transient_def)

text \<open>\<open>this\<close> counted for the group \<open>old\<close> and is now in \<open>g\<close>.\<close>

definition changed_group :: "win \<Rightarrow> nat option \<Rightarrow> nat \<Rightarrow> group_world \<Rightarrow> bool" where
  "changed_group this old g w \<longleftrightarrow>
     lists_ok ((group_of w)(this := old)) w \<and> mains_ok ((group_of w)(this := old)) w \<and> session_ok w \<and>
     in_group (cl w this) = Some g \<and> (old = None \<longrightarrow> lists w this = []) \<and>
     (\<forall>g c. c \<in> set (gr_members (grp w g)) \<longleftrightarrow> in_group (cl w c) = Some g) \<and>
     (\<forall>g. distinct (gr_members (grp w g)))"

lemma regroup_removed:
  assumes "changed_group this old g w" "groupTransient w this"
    and "\<forall>c\<in>set (lists w this). \<not> foreign_transient w this c"
  defines "ms \<equiv> (case old of None \<Rightarrow> [] | Some h \<Rightarrow> gr_members (grp w h))"
  defines "v \<equiv> with_lists (\<lambda>m. if m \<in> set ms then removeAll this (lists w m) else lists w m) w"
  shows "lists_ok (group_of v) v" "mains_ok (group_of v) v"
    "in_group (cl v m) \<noteq> None \<Longrightarrow> this \<notin> set (lists v m)" "thinner w v"
proof -
  let ?G = "(group_of w)(this := old)"
  note ch = assms(1) [unfolded changed_group_def]
  have top: "mains w this = None" using group_transient_top ch assms(2) by blast
  have th: "thinner w v" unfolding v_def
    by (rule thinner_with_lists) (use assms(2) in \<open>auto simp: distinct_removeAll\<close>)
  then show "thinner w v" .
  note fr = thinner_frame [OF th]
  have G: "?G = (group_of v)(this := old)" by (simp only: fr)
  have ok: "lists_ok ?G v" "mains_ok ?G v" using thinner_ok [OF th] ch by blast+
  have gone: "this \<notin> set (lists v m)" if m: "in_group (cl w m) \<noteq> None" for m
  proof (cases "?G m = None")
    case True
    then have "m = this" "lists w this = []" using m ch by (auto split: if_splits)
    then show ?thesis by (simp add: v_def)
  next
    case False
    show ?thesis
    proof
      assume t: "this \<in> set (lists v m)"
      have "this \<noteq> m \<and> (mains v this = Some m \<or> ?G this = ?G m)"
        using ok(1) False t unfolding lists_ok_def by blast
      moreover have "mains v this = None" using top by (simp add: v_def)
      ultimately have "old = in_group (cl w m)" by (auto split: if_splits)
      then have "m \<in> set ms" using m ch by (auto simp: ms_def)
      with t show False by (simp add: v_def)
    qed
  qed
  then show "in_group (cl v m) \<noteq> None \<Longrightarrow> this \<notin> set (lists v m)" by (simp add: v_def)
  have se: "session_ok v" using session_ok_relists ch thinner_relists [OF th] by blast
  show "lists_ok (group_of v) v"
    by (rule lists_ok_change [OF ok(1) se G])
      (use ch gone assms(3) in \<open>auto simp: v_def\<close>)
  show "mains_ok (group_of v) v"
    by (rule mains_ok_group [OF ok(2)]) (use ch in \<open>auto simp: v_def split: if_splits\<close>)
qed

lemma becomeGroupTransient_ok:
  assumes "changed_group this old g w" "groupTransient w this"
    and "\<forall>c\<in>set (lists w this). \<not> foreign_transient w this c"
  shows "\<exists>v. becomeGroupTransient this old g w = Some v \<and> relists w v \<and> quiet w v \<and>
    lists_ok (group_of v) v \<and> mains_ok (group_of v) v"
proof -
  note ch = assms(1) [unfolded changed_group_def]
  have top: "mains w this = None" using group_transient_top ch assms(2) by blast
  define ms where "ms = (case old of None \<Rightarrow> [] | Some h \<Rightarrow> gr_members (grp w h))"
  define v where "v = with_lists (\<lambda>m. if m \<in> set ms then removeAll this (lists w m) else lists w m) w"
  note ok = regroup_removed [OF assms, folded ms_def, folded v_def]
  define tw where "tw = takeWhile (\<lambda>m. m \<noteq> this) (gr_members (grp w g))"
  have tw: "distinct tw" using ch by (simp add: tw_def)
  have tws: "m \<noteq> this \<and> in_group (cl w m) = Some g" if "m \<in> set tw" for m
    using set_takeWhileD [OF that [unfolded tw_def]] ch by blast
  have vs: "in_group (cl v m) = in_group (cl w m)" "m_modal (cl v m) = m_modal (cl w m)"
    "mains v m = mains w m" "groupTransient v m = groupTransient w m" for m
    by (simp_all add: v_def)
  have new: "\<forall>m\<in>set tw. this \<notin> set (lists v m) \<and> m \<noteq> this" using tws ok(3) by (simp add: vs)
  define u where "u = with_lists (\<lambda>m. if m \<in> set tw then lists v m @ [this] else lists v m) v"
  have v: "(case old of None \<Rightarrow> w | Some h \<Rightarrow> removeTransient_from this (gr_members (grp w h)) w) = v"
    using removeTransient_from_lists [OF top]
    by (cases old) (simp_all add: v_def ms_def with_lists_id)
  have "foldM (\<lambda>m. client_addTransient m this) tw v = Some u"
    unfolding u_def
    by (rule addTransients_lists [OF tw new]) (use ch in \<open>simp add: vs session_ok_def\<close>)
  then have "becomeGroupTransient this old g w = Some u"
    unfolding becomeGroupTransient_def Let_def v by (simp add: v_def tw_def)
  moreover have "lists_ok (group_of v) u" unfolding u_def
    by (rule lists_ok_add [OF ok(1)]) (use new tws ch top assms(2) in \<open>simp_all add: vs\<close>)
  moreover have "mains_ok (group_of v) u" unfolding u_def
    by (rule mains_ok_more [OF ok(2)]) auto
  moreover have "relists w u" using relists_trans [OF thinner_relists [OF ok(4)]] by (simp add: u_def)
  moreover have "quiet v u" unfolding u_def
    by (rule quiet_with_lists) (use tws in \<open>auto simp: vs\<close>)
  then have "quiet w u" by (rule quiet_trans [OF quiet_thinner [OF ok(4)]])
  ultimately show ?thesis by (auto simp: u_def)
qed

lemma regroupTransients_ok:
  assumes "changed_group this old g w"
  shows "\<exists>v. regroupTransients this old w = Some v \<and> relists w v \<and> quiet w v \<and>
    lists_ok (group_of v) v \<and> mains_ok (group_of v) v"
proof -
  let ?G = "(group_of w)(this := old)"
  note ch = assms [unfolded changed_group_def]
  define u where "u = with_lists ((lists w)(this := filter (\<lambda>c. \<not> foreign_transient w this c) (lists w this))) w"
  have drop: "dropForeign this 0 w = u" unfolding u_def by (rule dropForeign_lists) simp
  have th: "thinner w u" unfolding u_def
    by (rule thinner_with_lists) (auto dest: foreign_group_transient)
  note fr = thinner_frame [OF th]
  have se: "session_ok u" using session_ok_relists ch thinner_relists [OF th] by blast
  have G: "?G = (group_of u)(this := old)" by (simp only: fr)
  have ok: "lists_ok ?G u" "mains_ok ?G u" using thinner_ok [OF th] ch by blast+
  have g: "in_group (cl u m) = in_group (cl w m)" "mains u m = mains w m" for m by (simp_all add: u_def)
  have chu: "changed_group this old g u"
    using ok se ch unfolding changed_group_def G by (simp add: u_def)
  have nf: "\<forall>c\<in>set (lists u this). \<not> foreign_transient u this c" by (simp add: u_def)
  obtain v where v: "(if groupTransient u this then becomeGroupTransient this old g u else Some u) = Some v"
    "relists u v" "lists_ok (group_of v) v" "mains_ok (group_of v) v" "quiet u v"
  proof (cases "groupTransient u this")
    case True
    then show ?thesis using that becomeGroupTransient_ok [OF chu True nf] by auto
  next
    case False
    have "m \<noteq> this \<and> mains u this = Some m"
      if "in_group (cl u m) \<noteq> None" "this \<in> set (lists u m)" for m
    proof -
      have "?G m \<noteq> None" using that ch by (auto simp: u_def split: if_splits)
      with ok(1) that(2) have "this \<noteq> m \<and> (mains u this = Some m \<or> groupTransient u this)"
        unfolding lists_ok_def by blast
      with False show ?thesis by simp
    qed
    then have "\<forall>m. in_group (cl u m) \<noteq> None \<longrightarrow> this \<in> set (lists u m) \<longrightarrow> m \<noteq> this \<and> mains u this = Some m"
      by blast
    moreover have "in_group (cl u this) = Some g" "old = None \<Longrightarrow> lists u this = []"
      using ch by (simp_all add: u_def)
    ultimately have "lists_ok (group_of u) u"
      using lists_ok_change [OF ok(1) se G _ _ nf] by blast
    moreover have "mains_ok (group_of u) u"
      by (rule mains_ok_group [OF ok(2)]) (use ch in \<open>auto simp: g split: if_splits\<close>)
    ultimately show ?thesis using that False by auto
  qed
  note frv = relists_frame [OF v(2)]
  have iv: "in_group (cl v m) = in_group (cl w m)" for m using fun_cong [OF frv(2)] g by simp
  have gv: "grp v = grp w" by (simp only: frv fr)
  have "\<exists>x. foldM (addSplash this) (gr_members (grp v g)) v = Some x \<and> relists v x \<and> quiet v x \<and>
      lists_ok (group_of x) x \<and> mains_ok (group_of x) x"
    by (rule addSplashes_ok [OF v(3,4) session_ok_relists [OF se v(2)]]) (use ch in \<open>auto simp: iv gv\<close>)
  then obtain x where x: "foldM (addSplash this) (gr_members (grp v g)) v = Some x" "relists v x" "quiet v x"
      "lists_ok (group_of x) x" "mains_ok (group_of x) x" by blast
  have "regroupTransients this old w = foldM (addSplash this) (gr_members (grp v g)) v"
    using v(1) ch by (simp add: regroupTransients_def drop g)
  with x relists_trans [OF relists_trans [OF thinner_relists [OF th] v(2)] x(2)]
    quiet_trans [OF quiet_trans [OF quiet_thinner [OF th] v(5)] x(3)]
  show ?thesis by auto
qed

section \<open>The members of the groups\<close>

lemma members_ok_relists:
  assumes "members_ok hold w" "relists w v"
  shows "members_ok hold v"
proof -
  have "in_group (cl v c) = in_group (cl w c)" for c using fun_cong [OF relists_frame(2) [OF assms(2)]] .
  then show ?thesis using assms(1) unfolding members_ok_def relists_frame(3,4,8) [OF assms(2)] by simp
qed

lemma upd_grp_sel [simp]:
  "cl (upd_grp g f w) = cl w" "grp (upd_grp g f w) = (grp w)(g := f (grp w g))"
  "groups (upd_grp g f w) = groups w" "root_window (upd_grp g f w) = root_window w"
  "clients (upd_grp g f w) = clients w" "desktops (upd_grp g f w) = desktops w"
  "next_group (upd_grp g f w) = next_group w"
  "check_active_modal (upd_grp g f w) = check_active_modal w"
  "mostRecentlyActivatedClient (upd_grp g f w) = mostRecentlyActivatedClient w"
  by (simp_all add: upd_grp_def mostRecentlyActivatedClient_def)

lemma delete_if_empty_sel [simp]:
  "cl (delete_if_empty g w) = cl w" "grp (delete_if_empty g w) = grp w"
  "root_window (delete_if_empty g w) = root_window w"
  "clients (delete_if_empty g w) = clients w" "desktops (delete_if_empty g w) = desktops w"
  "next_group (delete_if_empty g w) = next_group w"
  "check_active_modal (delete_if_empty g w) = check_active_modal w"
  "groups (delete_if_empty g w) =
     (if refcount (grp w g) = 0 \<and> gr_members (grp w g) = [] then removeAll g (groups w) else groups w)"
  by (simp_all add: delete_if_empty_def removeGroup_def)

lemma members_okD:
  assumes "members_ok hold w"
  shows "c \<in> set (gr_members (grp w g)) \<longleftrightarrow> in_group (cl w c) = Some g"
    and "distinct (gr_members (grp w g))"
    and "distinct (groups w)"
    and "g \<in> set (groups w) \<longleftrightarrow> gr_members (grp w g) \<noteq> [] \<or> hold g > 0"
    and "g \<in> set (groups w) \<Longrightarrow> g < next_group w"
    and "g \<in> set (groups w) \<Longrightarrow> refcount (grp w g) = int (hold g)"
proof -
  note m = assms [unfolded members_ok_def]
  show "c \<in> set (gr_members (grp w g)) \<longleftrightarrow> in_group (cl w c) = Some g"
    by (rule m [THEN conjunct1, THEN spec, THEN spec])
  show "distinct (gr_members (grp w g))"
    by (rule m [THEN conjunct2, THEN conjunct1, THEN spec])
  show "distinct (groups w)"
    by (rule m [THEN conjunct2, THEN conjunct2, THEN conjunct1])
  show "g \<in> set (groups w) \<longleftrightarrow> gr_members (grp w g) \<noteq> [] \<or> hold g > 0"
    by (rule m [THEN conjunct2, THEN conjunct2, THEN conjunct2, THEN conjunct1, THEN spec])
  note last = m [THEN conjunct2, THEN conjunct2, THEN conjunct2, THEN conjunct2]
  show "g \<in> set (groups w) \<Longrightarrow> g < next_group w"
    "g \<in> set (groups w) \<Longrightarrow> refcount (grp w g) = int (hold g)"
    using last by blast+
qed

lemma members_okI:
  assumes "\<And>g c. c \<in> set (gr_members (grp w g)) \<longleftrightarrow> in_group (cl w c) = Some g"
    and "\<And>g. distinct (gr_members (grp w g))" "distinct (groups w)"
    and "\<And>g. g \<in> set (groups w) \<longleftrightarrow> gr_members (grp w g) \<noteq> [] \<or> hold g > 0"
    and "\<And>g. g \<in> set (groups w) \<Longrightarrow> g < next_group w"
    and "\<And>g. g \<in> set (groups w) \<Longrightarrow> refcount (grp w g) = int (hold g)"
  shows "members_ok hold w"
  unfolding members_ok_def by (intro conjI allI ballI) (fact assms)+

lemma ref_group_ok:
  assumes "members_ok hold w" "g \<in> set (groups w)"
  shows "members_ok (hold(g := hold g + 1)) (ref_group g w)"
proof (rule members_okI)
  note ok = members_okD [OF assms(1)]
  fix h c
  show "c \<in> set (gr_members (grp (ref_group g w) h)) \<longleftrightarrow> in_group (cl (ref_group g w) c) = Some h"
    "distinct (gr_members (grp (ref_group g w) h))"
    using ok(1,2) by (simp_all add: ref_group_def)
  show "distinct (groups (ref_group g w))" using ok(3) by (simp add: ref_group_def)
  show "h \<in> set (groups (ref_group g w)) \<longleftrightarrow>
      gr_members (grp (ref_group g w) h) \<noteq> [] \<or> (hold(g := hold g + 1)) h > 0"
    using ok(4) [of h] assms(2) by (auto simp: ref_group_def)
  show "h \<in> set (groups (ref_group g w)) \<Longrightarrow> h < next_group (ref_group g w)"
    using ok(5) by (simp add: ref_group_def)
  show "h \<in> set (groups (ref_group g w)) \<Longrightarrow>
      refcount (grp (ref_group g w) h) = int ((hold(g := hold g + 1)) h)"
    using ok(6) [of h] by (auto simp: ref_group_def)
qed

lemma deref_group_ok:
  assumes "members_ok hold w" "hold g > 0"
  shows "members_ok (hold(g := hold g - 1)) (deref_group g w)"
proof (rule members_okI)
  note ok = members_okD [OF assms(1)]
  have g: "g \<in> set (groups w)" using ok(4) assms(2) by blast
  then have r: "refcount (grp w g) = int (hold g)" by (rule ok(6))
  fix h c
  show "c \<in> set (gr_members (grp (deref_group g w) h)) \<longleftrightarrow> in_group (cl (deref_group g w) c) = Some h"
    "distinct (gr_members (grp (deref_group g w) h))"
    using ok(1,2) by (simp_all add: deref_group_def)
  show "distinct (groups (deref_group g w))"
    using ok(3) by (simp add: deref_group_def distinct_removeAll)
  show "h \<in> set (groups (deref_group g w)) \<longleftrightarrow>
      gr_members (grp (deref_group g w) h) \<noteq> [] \<or> (hold(g := hold g - 1)) h > 0"
    using ok(4) [of h] r assms(2) g by (auto simp: deref_group_def)
  assume "h \<in> set (groups (deref_group g w))"
  then have h: "h \<in> set (groups w)" by (simp add: deref_group_def split: if_splits)
  then show "h < next_group (deref_group g w)" using ok(5) by (simp add: deref_group_def)
  show "refcount (grp (deref_group g w) h) = int ((hold(g := hold g - 1)) h)"
    using ok(6) [OF h] r assms(2) by (auto simp: deref_group_def)
qed

text \<open>A window leaves its group, and enters another or a new one.\<close>

lemma removeMember_ok:
  assumes "members_ok hold w" "in_group (cl w c) = Some g"
  shows "\<exists>v. removeMember g c w = Some v \<and> members_ok hold (upd_cl c (\<lambda>r. r\<lparr>in_group := None\<rparr>) v) \<and> cl v = cl w"
proof -
  note ok = members_okD [OF assms(1)]
  let ?v = "delete_if_empty g (upd_grp g (\<lambda>r. r\<lparr>gr_members := removeAll c (gr_members r)\<rparr>) w)"
  have g: "g \<in> set (groups w)" "c \<in> set (gr_members (grp w g))" using ok(1) [of c g] ok(4) [of g] assms(2) by auto
  then have r: "refcount (grp w g) = int (hold g)" by (intro ok(6))
  define v where "v = upd_cl c (\<lambda>r. r\<lparr>in_group := None\<rparr>) ?v"
  have v: "in_group (cl v d) = (if d = c then None else in_group (cl w d))"
    "gr_members (grp v h) = (if h = g then removeAll c (gr_members (grp w g)) else gr_members (grp w h))"
    "groups v = (if hold g = 0 \<and> removeAll c (gr_members (grp w g)) = [] then removeAll g (groups w) else groups w)"
    "refcount (grp v h) = refcount (grp w h)" "next_group v = next_group w" for d h
    using r by (simp_all add: v_def upd_cl_def)
  have "members_ok hold v"
  proof (rule members_okI)
    fix h d
    show "d \<in> set (gr_members (grp v h)) \<longleftrightarrow> in_group (cl v d) = Some h"
      using ok(1) [of d h] assms(2) by (auto simp: v)
    show "distinct (gr_members (grp v h))" "distinct (groups v)"
      using ok(2) [of h] ok(2) [of g] ok(3) by (simp_all add: v distinct_removeAll)
    show "h \<in> set (groups v) \<longleftrightarrow> gr_members (grp v h) \<noteq> [] \<or> hold h > 0"
      using ok(4) [of h] g by (auto simp: v)
    assume "h \<in> set (groups v)"
    then have h: "h \<in> set (groups w)" by (simp add: v split: if_splits)
    show "h < next_group v" "refcount (grp v h) = int (hold h)"
      using ok(5,6) [OF h] by (simp_all add: v)
  qed
  with g(2) show ?thesis by (simp add: removeMember_def v_def)
qed

lemma enterGroup_sel [simp]:
  "in_group (cl (enterGroup c g w) d) = (if d = c then Some g else in_group (cl w d))"
  "grp (enterGroup c g w) = (grp w)(g := (grp w g)\<lparr>gr_members := gr_members (grp w g) @ [c]\<rparr>)"
  "groups (enterGroup c g w) = groups w" "next_group (enterGroup c g w) = next_group w"
  by (simp_all add: enterGroup_def addMember_def upd_cl_def)

lemma enterGroup_ok:
  assumes "members_ok hold w" "in_group (cl w c) = None" "g \<in> set (groups w)"
  shows "members_ok hold (enterGroup c g w)"
proof (rule members_okI)
  note ok = members_okD [OF assms(1)]
  fix h d
  show "d \<in> set (gr_members (grp (enterGroup c g w) h)) \<longleftrightarrow> in_group (cl (enterGroup c g w) d) = Some h"
    using ok(1) [of d h] assms(2) by auto
  show "distinct (gr_members (grp (enterGroup c g w) h))"
    using ok(1) [of c g] ok(2) [of h] assms(2) by auto
  show "distinct (groups (enterGroup c g w))" using ok(3) by simp
  show "h \<in> set (groups (enterGroup c g w)) \<longleftrightarrow>
      gr_members (grp (enterGroup c g w) h) \<noteq> [] \<or> hold h > 0"
    using ok(4) [of h] assms(3) by auto
  assume "h \<in> set (groups (enterGroup c g w))"
  then show "h < next_group (enterGroup c g w)" "refcount (grp (enterGroup c g w) h) = int (hold h)"
    using ok(5,6) by auto
qed

lemma enterGroup_new_ok:
  assumes "members_ok hold w" "in_group (cl w c) = None"
  shows "members_ok hold (enterGroup c (fst (newGroup leader w)) (snd (newGroup leader w)))"
proof (rule members_okI)
  note ok = members_okD [OF assms(1)]
  define n where "n = next_group w"
  have fresh: "n \<notin> set (groups w)" using ok(5) by (auto simp: n_def)
  with ok(4) [of n] have empty: "gr_members (grp w n) = []" "hold n = 0" by auto
  define v where "v = enterGroup c (fst (newGroup leader w)) (snd (newGroup leader w))"
  have v: "in_group (cl v d) = (if d = c then Some n else in_group (cl w d))"
    "gr_members (grp v h) = (if h = n then [c] else gr_members (grp w h))"
    "refcount (grp v h) = (if h = n then 0 else refcount (grp w h))"
    "groups v = groups w @ [n]" "next_group v = n + 1" for d h
    by (simp_all add: v_def newGroup_def Let_def n_def do_call_def)
  fix h d
  show "d \<in> set (gr_members (grp v h)) \<longleftrightarrow> in_group (cl v d) = Some h"
    using ok(1) [of d h] ok(1) [of d n] empty(1) assms(2) by (auto simp: v)
  show "distinct (gr_members (grp v h))" "distinct (groups v)"
    using ok(2) [of h] ok(3) fresh by (simp_all add: v)
  show "h \<in> set (groups v) \<longleftrightarrow> gr_members (grp v h) \<noteq> [] \<or> hold h > 0"
    using ok(4) [of h] by (auto simp: v)
  assume "h \<in> set (groups v)"
  then show "h < next_group v" "refcount (grp v h) = int (hold h)"
    using ok(5,6) [of h] empty(2) fresh by (auto simp: v n_def)
qed

text \<open>Whatever happens to the groups, the windows keep all else.\<close>

definition core :: "client \<Rightarrow> client" where
  "core r = r\<lparr>m_transients := [], in_group := None\<rparr>"

definition same_windows :: "group_world \<Rightarrow> group_world \<Rightarrow> bool" where
  "same_windows w v \<longleftrightarrow>
     (\<forall>c. core (cl v c) = core (cl w c)) \<and>
     root_window v = root_window w \<and> clients v = clients w \<and> desktops v = desktops w \<and>
     check_active_modal v = check_active_modal w"

lemma same_windows_refl [simp]: "same_windows w w"
  by (simp add: same_windows_def)

lemma same_windows_trans [trans]: "same_windows u v \<Longrightarrow> same_windows v w \<Longrightarrow> same_windows u w"
  by (simp add: same_windows_def)

lemma same_windows_with_lists [simp]: "same_windows w (with_lists L w)"
  by (simp add: same_windows_def core_def)

lemma same_windows_relists: "relists w v \<Longrightarrow> same_windows w v"
  unfolding relists_def by (metis same_windows_with_lists)

lemma core_sel:
  assumes "core r = core q"
  shows "m_transientFor r = m_transientFor q" "m_transientForId r = m_transientForId q"
    "window r = window q" "m_modal r = m_modal q" "wmClientLeader r = wmClientLeader q"
    "groupLeader r = groupLeader q" "kind r = kind q"
    "m_originalTransientForId r = m_originalTransientForId q"
  using arg_cong [OF assms, of m_transientFor] arg_cong [OF assms, of m_transientForId]
    arg_cong [OF assms, of window] arg_cong [OF assms, of m_modal] arg_cong [OF assms, of wmClientLeader]
    arg_cong [OF assms, of groupLeader] arg_cong [OF assms, of kind]
    arg_cong [OF assms, of m_originalTransientForId]
  by (simp_all add: core_def)

lemma same_windows_sel:
  assumes "same_windows w v"
  shows "mains v c = mains w c" "m_transientForId (cl v c) = m_transientForId (cl w c)"
    "window (cl v c) = window (cl w c)" "m_modal (cl v c) = m_modal (cl w c)"
    "wmClientLeader (cl v c) = wmClientLeader (cl w c)" "groupLeader (cl v c) = groupLeader (cl w c)"
    "m_originalTransientForId (cl v c) = m_originalTransientForId (cl w c)"
    "groupTransient v c = groupTransient w c" "isClient v c = isClient w c"
    "isTransient v c = isTransient w c" "transientForClient v c = transientForClient w c"
proof -
  have c: "core (cl v d) = core (cl w d)" for d using assms unfolding same_windows_def by blast
  show "mains v c = mains w c" "m_transientForId (cl v c) = m_transientForId (cl w c)"
    "window (cl v c) = window (cl w c)" "m_modal (cl v c) = m_modal (cl w c)"
    "wmClientLeader (cl v c) = wmClientLeader (cl w c)" "groupLeader (cl v c) = groupLeader (cl w c)"
    "m_originalTransientForId (cl v c) = m_originalTransientForId (cl w c)"
    by (simp_all add: core_sel [OF c])
  have "root_window v = root_window w" using assms by (simp add: same_windows_def)
  then show "groupTransient v c = groupTransient w c" "isClient v c = isClient w c"
    "isTransient v c = isTransient w c" "transientForClient v c = transientForClient w c"
    by (simp_all add: groupTransient_def isClient_def isTransient_def transientForClient_def core_sel [OF c] split: option.split)
qed

lemma session_ok_same:
  assumes "session_ok w" "same_windows w v" "\<And>c. in_group (cl v c) \<noteq> None \<Longrightarrow> isClient w c"
  shows "session_ok v"
proof -
  note e = same_windows_sel [OF assms(2)]
  have "root_window v = root_window w" "check_active_modal v = check_active_modal w"
    using assms(2) by (simp_all add: same_windows_def)
  with assms(1,3) show ?thesis unfolding session_ok_def by (simp add: e(4,9))
qed

section \<open>The checks after a change\<close>

text \<open>\<open>this\<close> has left the group \<open>old\<close> it counts for, or has not yet.\<close>

definition in_transit :: "(nat \<Rightarrow> nat) \<Rightarrow> win \<Rightarrow> nat option \<Rightarrow> group_world \<Rightarrow> bool" where
  "in_transit hold this old w \<longleftrightarrow>
     members_ok hold w \<and> lists_ok ((group_of w)(this := old)) w \<and>
     mains_ok ((group_of w)(this := old)) w \<and> session_ok w \<and> (old = None \<longrightarrow> lists w this = []) \<and>
     (\<forall>g. old = Some g \<longrightarrow> hold g > 0)"

definition settled :: "(nat \<Rightarrow> nat) \<Rightarrow> group_world \<Rightarrow> bool" where
  "settled hold w \<longleftrightarrow>
     members_ok hold w \<and> lists_ok (group_of w) w \<and> mains_ok (group_of w) w \<and> session_ok w"

definition released :: "nat option \<Rightarrow> (nat \<Rightarrow> nat) \<Rightarrow> nat \<Rightarrow> nat" where
  "released old hold = (case old of None \<Rightarrow> hold | Some g \<Rightarrow> hold(g := hold g - 1))"

definition held :: "nat option \<Rightarrow> (nat \<Rightarrow> nat) \<Rightarrow> nat \<Rightarrow> nat" where
  "held old hold = (case old of None \<Rightarrow> hold | Some g \<Rightarrow> hold(g := hold g + 1))"

lemma released_held [simp]: "released old (held old hold) = hold"
  by (cases old) (simp_all add: released_def held_def)

lemma same_windows_grp [simp]:
  "same_windows w (upd_grp g f w)" "same_windows w (delete_if_empty g w)" "same_windows w (deref_group g w)"
  "same_windows w (ref_group g w)" "same_windows w (do_call e w)"
  by (simp_all add: same_windows_def deref_group_def ref_group_def do_call_def)

lemma same_lists_ok:
  assumes "cl v = cl w" "root_window v = root_window w"
  shows "lists_ok G v = lists_ok G w" "mains_ok G v = mains_ok G w"
  using assms by (simp_all add: lists_ok_def mains_ok_def groupTransient_def)

lemma same_session_ok:
  assumes "cl v = cl w" "root_window v = root_window w" "check_active_modal v = check_active_modal w"
  shows "session_ok v = session_ok w"
  using assms by (simp add: session_ok_def isClient_def)

lemma deref_group_sel [simp]:
  "cl (deref_group g w) = cl w" "root_window (deref_group g w) = root_window w"
  "check_active_modal (deref_group g w) = check_active_modal w"
  "gr_members (grp (deref_group g w) h) = gr_members (grp w h)"
  by (simp_all add: deref_group_def)

lemma do_call_members [simp]: "members_ok hold (do_call e w) = members_ok hold w"
  by (simp add: members_ok_def do_call_def)

lemma do_call_group_sel [simp]:
  "check_active_modal (do_call e w) = check_active_modal w" "next_group (do_call e w) = next_group w"
  by (simp_all add: do_call_def)

lemma settled_call [simp]: "settled hold (do_call e w) = settled hold w"
  by (simp add: settled_def same_lists_ok [of "do_call e w" w] same_session_ok [of "do_call e w" w])

lemma finishCheckGroup_ok:
  assumes tr: "in_transit hold this old w" and g: "in_group (cl w this) = Some g"
  shows "\<exists>v. finishCheckGroup this old force w = Some v \<and> settled (released old hold) v \<and>
    group_of v = group_of w \<and> same_windows w v \<and> quiet w v"
proof -
  note t = tr [unfolded in_transit_def]
  note mem = t [THEN conjunct1]
  obtain u where u: "(if in_group (cl w this) \<noteq> old \<or> force then regroupTransients this old w else Some w) = Some u"
    "relists w u" "lists_ok (group_of u) u" "mains_ok (group_of u) u" "quiet w u"
  proof (cases "in_group (cl w this) \<noteq> old \<or> force")
    case True
    have "changed_group this old g w"
      using t g members_okD(1,2) [OF mem] unfolding changed_group_def by blast
    from regroupTransients_ok [OF this] True that show ?thesis by auto
  next
    case False
    then have "(group_of w)(this := old) = group_of w" by auto
    then show ?thesis using that False t by auto
  qed
  note fu = relists_frame [OF u(2)]
  define v where "v = (case old of None \<Rightarrow> u | Some h \<Rightarrow> deref_group h u)"
  have v: "cl v = cl u" "root_window v = root_window u" "check_active_modal v = check_active_modal u"
    by (simp_all add: v_def split: option.split)
  have mv: "members_ok (released old hold) v"
    using members_ok_relists [OF mem u(2)] deref_group_ok t
    by (cases old) (simp_all add: v_def released_def)
  have lv: "lists_ok (group_of v) v" "mains_ok (group_of v) v"
    using u(3,4) by (simp_all add: v same_lists_ok [OF v(1,2)])
  have sv: "session_ok v"
    using session_ok_relists [OF _ u(2)] t by (simp add: same_session_ok [OF v])
  have gv: "group_of v = group_of w" using fu(2) by (simp add: v)
  then have gt: "in_group (cl v this) = Some g" using fun_cong [OF gv, of this] g by simp
  have "\<forall>c. ends (mains v) c" using lv(2) by (simp add: mains_ok_def)
  from checkGroupTransients_thinner [OF this gt] obtain x where
    x: "checkGroupTransients this v = Some x" "thinner v x" by blast
  note fx = thinner_frame [OF x(2)]
  have sx: "session_ok x" by (rule session_ok_relists [OF sv thinner_relists [OF x(2)]])
  then have "checkActiveModal x = Some x"
    by (simp add: checkActiveModal_def session_ok_def split: option.split)
  then have run: "finishCheckGroup this old force w = Some (do_call (UpdateClientLayer this) x)"
    using u(1) x(1) by (simp add: finishCheckGroup_def v_def)
  have "settled (released old hold) x"
    unfolding settled_def fx(2)
    using members_ok_relists [OF mv thinner_relists [OF x(2)]] thinner_ok [OF x(2) lv] sx by blast
  moreover have "same_windows w v"
    using same_windows_relists [OF u(2)] v by (simp add: v_def split: option.splits)
      (meson same_windows_grp(3) same_windows_trans)
  then have "same_windows w x"
    using same_windows_trans same_windows_relists [OF thinner_relists [OF x(2)]] by blast
  moreover have "quiet w (do_call (UpdateClientLayer this) x)"
    using quiet_trans [OF u(5), of x] quiet_thinner [OF x(2)] v(1) by (simp add: quiet_def)
  ultimately show ?thesis
    using run same_windows_trans [OF _ same_windows_grp(5)] gv fx(2) by auto
qed

section \<open>Finding the group\<close>

text \<open>Only the group of one window differs.\<close>

definition only_group :: "win \<Rightarrow> nat option \<Rightarrow> group_world \<Rightarrow> group_world \<Rightarrow> bool" where
  "only_group this g w v \<longleftrightarrow>
     cl v = (cl w)(this := (cl w this)\<lparr>in_group := g\<rparr>) \<and> root_window v = root_window w \<and>
     clients v = clients w \<and> desktops v = desktops w \<and> check_active_modal v = check_active_modal w"

lemma only_group_facts:
  assumes "only_group this g w v"
  shows "group_of v = (group_of w)(this := g)" "lists v = lists w" "same_windows w v"
    "lists_ok G v = lists_ok G w" "mains_ok G v = mains_ok G w"
proof -
  have c: "cl v = (cl w)(this := (cl w this)\<lparr>in_group := g\<rparr>)" and r: "root_window v = root_window w"
    using assms by (simp_all add: only_group_def)
  show "group_of v = (group_of w)(this := g)" "lists v = lists w" by (auto simp: c)
  show "same_windows w v" using assms by (auto simp: only_group_def same_windows_def core_def)
  have m: "mains v = mains w" "groupTransient v = groupTransient w"
    by (auto simp: fun_eq_iff c r groupTransient_def)
  have i: "m_transientForId (cl v x) = m_transientForId (cl w x)" "window (cl v x) = window (cl w x)"
    "mains v x = mains w x" "lists v x = lists w x" for x
    by (auto simp: c)
  show "lists_ok G v = lists_ok G w" "mains_ok G v = mains_ok G w"
    unfolding lists_ok_def mains_ok_def m by (simp_all add: i r)
qed

lemma transit_only_group:
  assumes "in_transit hold this old w" "only_group this g w v" "members_ok hold v" "isClient w this"
  shows "in_transit hold this old v"
proof -
  have "(group_of v)(this := old) = (group_of w)(this := old)"
    by (simp add: only_group_facts(1) [OF assms(2)])
  moreover have "session_ok v"
  proof (rule session_ok_same [OF _ only_group_facts(3) [OF assms(2)]])
    show "session_ok w" using assms(1) by (simp add: in_transit_def)
    fix c
    assume "in_group (cl v c) \<noteq> None"
    then show "isClient w c"
      using assms(1,4) fun_cong [OF only_group_facts(1) [OF assms(2)], of c]
      by (auto simp: session_ok_def in_transit_def split: if_splits)
  qed
  moreover have "lists v this = lists w this" using fun_cong [OF only_group_facts(2) [OF assms(2)]] .
  ultimately show ?thesis
    using assms(1,3) by (simp add: in_transit_def only_group_facts(4,5) [OF assms(2)])
qed

lemma leave_enter:
  "enterGroup c g (upd_cl c (\<lambda>r. r\<lparr>in_group := h\<rparr>) w) = enterGroup c g w"
  by (simp add: enterGroup_def upd_cl_def)

text \<open>Leaving the group: the state in between, where the window is in none.\<close>

lemma leaveGroup_ok:
  assumes "members_ok hold w"
  shows "\<exists>v. leaveGroup this w = Some v \<and> members_ok hold (upd_cl this (\<lambda>r. r\<lparr>in_group := None\<rparr>) v) \<and>
    cl v = cl w \<and> root_window v = root_window w \<and> clients v = clients w \<and> desktops v = desktops w \<and>
    check_active_modal v = check_active_modal w \<and>
    (\<forall>g\<in>set (groups w). in_group (cl w this) \<noteq> Some g \<longrightarrow> g \<in> set (groups v))"
proof (cases "in_group (cl w this)")
  case None
  have "upd_cl this (\<lambda>r. r\<lparr>in_group := None\<rparr>) w = w"
    using None by (cases w, cases "cl w this") (auto simp: upd_cl_def fun_upd_idem)
  with None assms show ?thesis by (simp add: leaveGroup_def)
next
  case (Some h)
  obtain v where "removeMember h this w = Some v" "members_ok hold (upd_cl this (\<lambda>r. r\<lparr>in_group := None\<rparr>) v)" "cl v = cl w"
    using removeMember_ok [OF assms Some] by blast
  then show ?thesis using Some by (auto simp: leaveGroup_def removeMember_def split: if_splits)
qed

lemma moveToGroup_ok:
  assumes "in_transit hold this (in_group (cl w this)) w" "g \<in> set (groups w)" "isClient w this"
  shows "\<exists>v. moveToGroup this g w = Some v \<and> in_transit hold this (in_group (cl w this)) v \<and>
    only_group this (Some g) w v"
proof (cases "in_group (cl w this) = Some g")
  case True
  have "only_group this (Some g) w w" using True by (cases "cl w this") (auto simp: only_group_def fun_upd_idem)
  with True assms(1) show ?thesis by (simp add: moveToGroup_def)
next
  case False
  have "members_ok hold w" using assms(1) by (simp add: in_transit_def)
  from leaveGroup_ok [OF this, of this] False assms(2) obtain v where
    v: "leaveGroup this w = Some v" "members_ok hold (upd_cl this (\<lambda>r. r\<lparr>in_group := None\<rparr>) v)"
      "cl v = cl w" "root_window v = root_window w" "clients v = clients w" "desktops v = desktops w"
      "check_active_modal v = check_active_modal w" "g \<in> set (groups v)" by auto
  have ok: "members_ok hold (enterGroup this g v)"
    using enterGroup_ok [OF v(2), of this g] v(8) by (simp add: leave_enter)
  have og: "only_group this (Some g) w (enterGroup this g v)"
    using v by (simp add: only_group_def enterGroup_def addMember_def upd_cl_def)
  show ?thesis
    using v(1) False og transit_only_group [OF assms(1) og ok assms(3)] by (simp add: moveToGroup_def)
qed

lemma newGroup_leave:
  assumes "members_ok hold w"
  shows "leaveGroup this (snd (newGroup leader w)) =
    map_option (\<lambda>v. snd (newGroup leader v)) (leaveGroup this w)"
    and "leaveGroup this w = Some v \<Longrightarrow> next_group v = next_group w"
proof -
  show "leaveGroup this w = Some v \<Longrightarrow> next_group v = next_group w"
    by (auto simp: leaveGroup_def removeMember_def split: option.splits if_splits)
  have fresh: "next_group w \<notin> set (groups w)" using members_okD(5) [OF assms] by blast
  have ne: "h \<noteq> next_group w" if "in_group (cl w this) = Some h" for h
    using members_okD(1,4) [OF assms] fresh that by (metis empty_iff empty_set)
  show "leaveGroup this (snd (newGroup leader w)) =
    map_option (\<lambda>v. snd (newGroup leader v)) (leaveGroup this w)"
  proof (cases "in_group (cl w this)")
    case None
    then show ?thesis by (simp add: leaveGroup_def newGroup_def Let_def)
  next
    case (Some h)
    then show ?thesis using ne [OF Some] fresh
      by (simp add: leaveGroup_def newGroup_def Let_def removeMember_def delete_if_empty_def removeGroup_def
          upd_grp_def findClient_def known_windows_def do_call_def fun_upd_twist)
  qed
qed

lemma newGroup_sel [simp]:
  "cl (snd (newGroup l w)) = cl w" "root_window (snd (newGroup l w)) = root_window w"
  "clients (snd (newGroup l w)) = clients w" "desktops (snd (newGroup l w)) = desktops w"
  "check_active_modal (snd (newGroup l w)) = check_active_modal w"
  "fst (newGroup l w) = next_group w"
  by (simp_all add: newGroup_def Let_def)

lemma moveToNewGroup_ok:
  assumes "in_transit hold this (in_group (cl w this)) w" "isClient w this"
  defines "n \<equiv> next_group w"
  shows "\<exists>v. moveToGroup this n (snd (newGroup leader w)) = Some v \<and>
    in_transit hold this (in_group (cl w this)) v \<and> only_group this (Some n) w v"
proof -
  have mem: "members_ok hold w" using assms(1) by (simp add: in_transit_def)
  have "n \<notin> set (groups w)" using members_okD(5) [OF mem] by (auto simp: n_def)
  then have ne: "in_group (cl w this) \<noteq> Some n"
    using members_okD(1,4) [OF mem] by (metis empty_iff empty_set)
  obtain v where v: "leaveGroup this w = Some v" "members_ok hold (upd_cl this (\<lambda>r. r\<lparr>in_group := None\<rparr>) v)"
      "cl v = cl w" "root_window v = root_window w" "clients v = clients w" "desktops v = desktops w"
      "check_active_modal v = check_active_modal w"
    using leaveGroup_ok [OF mem, of this] by blast
  have nv: "next_group v = n" using newGroup_leave(2) [OF mem v(1)] by (simp add: n_def)
  define x where "x = enterGroup this n (snd (newGroup leader v))"
  have "findClient (upd_cl this (\<lambda>r. r\<lparr>in_group := None\<rparr>) v) leader = findClient v leader"
    unfolding findClient_def known_windows_def upd_cl_sel
    by (rule arg_cong [where f = "\<lambda>p. find p (clients v @ desktops v)"]) auto
  then have "snd (newGroup leader (upd_cl this (\<lambda>r. r\<lparr>in_group := None\<rparr>) v)) =
      upd_cl this (\<lambda>r. r\<lparr>in_group := None\<rparr>) (snd (newGroup leader v))"
    by (simp add: newGroup_def Let_def upd_cl_def do_call_def)
  then have "enterGroup this n (snd (newGroup leader (upd_cl this (\<lambda>r. r\<lparr>in_group := None\<rparr>) v))) = x"
    by (simp add: x_def leave_enter)
  moreover have "next_group (upd_cl this (\<lambda>r. r\<lparr>in_group := None\<rparr>) v) = n" by (simp add: upd_cl_def nv)
  ultimately have ok: "members_ok hold x"
    using enterGroup_new_ok [OF v(2), of this leader] by simp
  have og: "only_group this (Some n) w x"
    using v(3-7) by (simp add: only_group_def x_def enterGroup_def addMember_def upd_cl_def)
  have "moveToGroup this n (snd (newGroup leader w)) = Some x"
    using ne newGroup_leave(1) [OF mem, of this leader] v(1) by (simp add: moveToGroup_def x_def)
  with og transit_only_group [OF assms(1) og ok assms(2)] show ?thesis by blast
qed

lemma orNewGroup_move_ok:
  assumes "in_transit hold this (in_group (cl w this)) w" "isClient w this"
    and "\<And>g. found = Some g \<Longrightarrow> g \<in> set (groups w)"
  shows "\<exists>g v. (let (g, u) = orNewGroup found leader w in moveToGroup this g u) = Some v \<and>
    in_transit hold this (in_group (cl w this)) v \<and> only_group this (Some g) w v \<and> (found \<noteq> None \<longrightarrow> found = Some g)"
proof (cases found)
  case None
  then have "(let (g, u) = orNewGroup found leader w in moveToGroup this g u) =
      moveToGroup this (next_group w) (snd (newGroup leader w))"
    by (simp add: orNewGroup_def case_prod_beta)
  then show ?thesis using moveToNewGroup_ok [OF assms(1,2), of leader] None by auto
next
  case (Some g)
  then show ?thesis using moveToGroup_ok [OF assms(1) assms(3) [OF Some] assms(2)] by (auto simp: orNewGroup_def)
qed

section \<open>Checking the group of a window\<close>

lemma holdGroup_sel [simp]:
  "cl (holdGroup old w) = cl w" "root_window (holdGroup old w) = root_window w"
  "clients (holdGroup old w) = clients w" "desktops (holdGroup old w) = desktops w"
  "check_active_modal (holdGroup old w) = check_active_modal w" "groups (holdGroup old w) = groups w"
  by (simp_all add: holdGroup_def ref_group_def split: option.split)

lemma same_windows_hold [simp]: "same_windows w (holdGroup old w)"
  by (simp add: same_windows_def)

lemma grouped_alive: "members_ok hold w \<Longrightarrow> in_group (cl w c) = Some g \<Longrightarrow> g \<in> set (groups w)"
  using members_okD(1,4) by (metis empty_iff empty_set)

lemma hold_settled:
  assumes "settled hold w" "old = None \<or> (\<exists>c. in_group (cl w c) = old)"
  shows "settled (held old hold) (holdGroup old w)"
proof -
  have "members_ok (held old hold) (holdGroup old w)"
    using assms ref_group_ok grouped_alive
    by (cases old) (auto simp: settled_def held_def holdGroup_def)
  then show ?thesis
    using assms(1) same_lists_ok [of "holdGroup old w" w] same_session_ok [of "holdGroup old w" w]
    by (simp add: settled_def)
qed

lemma settled_transit:
  assumes "settled hold w" "in_group (cl w this) = None \<Longrightarrow> lists w this = []"
    and "\<And>g. in_group (cl w this) = Some g \<Longrightarrow> hold g > 0"
  shows "in_transit hold this (in_group (cl w this)) w"
proof -
  have "(group_of w)(this := in_group (cl w this)) = group_of w" by auto
  with assms show ?thesis by (simp add: in_transit_def settled_def)
qed

lemma quiet_only_group:
  assumes "only_group this g w v" "in_group (cl w this) \<noteq> None"
  shows "quiet w v"
  using assms fun_cong [OF only_group_facts(1) [OF assms(1)]] fun_cong [OF only_group_facts(2) [OF assms(1)]]
  by (auto simp: quiet_def split: if_splits)

lemma checkGroup_set_ok:
  assumes "settled hold w" "in_group (cl w this) \<noteq> None" "g \<in> set (groups w)"
  shows "\<exists>v. checkGroup_set this g force w = Some v \<and> settled hold v \<and>
    group_of v = (group_of w)(this := Some g) \<and> same_windows w v \<and> quiet w v"
proof -
  let ?old = "in_group (cl w this)" and ?w = "holdGroup (in_group (cl w this)) w"
  have "settled (held ?old hold) ?w" by (rule hold_settled [OF assms(1)]) blast
  then have tr: "in_transit (held ?old hold) this (in_group (cl ?w this)) ?w"
    by (rule settled_transit) (use assms(2) in \<open>auto simp: held_def\<close>)
  have "isClient ?w this" using assms(1,2) by (simp add: settled_def session_ok_def isClient_def)
  from moveToGroup_ok [OF tr _ this, of g] assms(3) obtain u where
    u: "moveToGroup this g ?w = Some u" "in_transit (held ?old hold) this ?old u" "only_group this (Some g) ?w u"
    by auto
  note gu = only_group_facts(1) [OF u(3)]
  have "in_group (cl u this) = Some g" using fun_cong [OF gu, of this] by simp
  from finishCheckGroup_ok [OF u(2) this, of force] obtain v where
    v: "finishCheckGroup this ?old force u = Some v" "settled hold v" "group_of v = group_of u"
      "same_windows u v" "quiet u v" by auto
  have "quiet ?w u" by (rule quiet_only_group [OF u(3)]) (use assms(2) in simp)
  then have "quiet w v" using quiet_trans [OF _ v(5)] by (simp add: quiet_def)
  moreover have "same_windows w v"
    using same_windows_trans [OF same_windows_trans [OF same_windows_hold only_group_facts(3) [OF u(3)]] v(4)] .
  ultimately show ?thesis
    using u(1) v gu by (simp add: checkGroup_set_def Let_def)
qed

text \<open>While the groups of one client leader are merged.\<close>

definition merging :: "(nat \<Rightarrow> nat) \<Rightarrow> win \<Rightarrow> group_world \<Rightarrow> nat option \<times> group_world \<Rightarrow> bool" where
  "merging hold c w s \<longleftrightarrow>
     settled hold (snd s) \<and> same_windows w (snd s) \<and> quiet w (snd s) \<and>
     in_group (cl (snd s) c) = in_group (cl w c) \<and>
     (\<forall>x. in_group (cl w x) \<noteq> None \<longrightarrow> in_group (cl (snd s) x) \<noteq> None) \<and>
     (\<forall>g. fst s = Some g \<longrightarrow> (\<exists>x. in_group (cl (snd s) x) = Some g))"

lemma merging_member:
  assumes "merging hold c w (Some g, u)" "in_group (cl w tmp) \<noteq> None" "tmp \<noteq> c"
  shows "\<exists>v. changeClientLeaderGroup tmp g u = Some v \<and> merging hold c w (Some g, v)"
proof (cases "mains u tmp \<noteq> None \<or> groupLeader (cl u tmp) \<noteq> WINDOW_NONE")
  case True
  with assms(1) show ?thesis by (auto simp: changeClientLeaderGroup_def)
next
  case False
  note m = assms(1) [unfolded merging_def fst_conv snd_conv]
  have g: "g \<in> set (groups u)" using m grouped_alive unfolding settled_def by blast
  have "in_group (cl u tmp) \<noteq> None" using m assms(2) by blast
  from checkGroup_set_ok [OF _ this g, of hold False] m obtain v where
    v: "checkGroup_set tmp g False u = Some v" "settled hold v" "group_of v = (group_of u)(tmp := Some g)"
      "same_windows u v" "quiet u v" by blast
  have gv: "in_group (cl v x) = (if x = tmp then Some g else in_group (cl u x))" for x
    using fun_cong [OF v(3), of x] by simp
  have "merging hold c w (Some g, v)"
    unfolding merging_def fst_conv snd_conv
    using v(2) same_windows_trans [OF _ v(4)] quiet_trans [OF _ v(5)] m assms(3) by (auto simp: gv)
  with False v(1) show ?thesis by (simp add: changeClientLeaderGroup_def)
qed

lemma foldM_invariant:
  assumes "\<And>x s. x \<in> set xs \<Longrightarrow> P s \<Longrightarrow> \<exists>t. f x s = Some t \<and> P t" "P s"
  shows "\<exists>t. foldM f xs s = Some t \<and> P t"
  using assms
proof (induction xs arbitrary: s)
  case (Cons x xs)
  obtain t where t: "f x s = Some t" "P t" using Cons.prems by (meson list.set_intros(1))
  have "\<exists>r. foldM f xs t = Some r \<and> P r" by (rule Cons.IH) (use Cons.prems t in auto)
  with t show ?case by simp
qed simp

lemma findClientLeaderGroup_ok:
  assumes "settled hold w" "\<forall>x\<in>set (clients w). x \<noteq> c \<longrightarrow> in_group (cl w x) \<noteq> None"
  shows "\<exists>s. findClientLeaderGroup c w = Some s \<and> merging hold c w s"
  unfolding findClientLeaderGroup_def
proof (rule foldM_invariant)
  show "merging hold c w (None, w)" using assms(1) by (simp add: merging_def)
  fix x s
  assume x: "x \<in> set (clients w)" and s: "merging hold c w s"
  obtain found u where su: "s = (found, u)" by fastforce
  note m = s [unfolded merging_def su fst_conv snd_conv]
  show "\<exists>t. leaderGroup_step c x s = Some t \<and> merging hold c w t"
  proof (cases "x = c \<or> wmClientLeader (cl u x) \<noteq> wmClientLeader (cl u c)")
    case True
    with s show ?thesis by (auto simp: leaderGroup_step_def su)
  next
    case False
    then have "in_group (cl w x) \<noteq> None" using assms(2) x by blast
    then obtain h where h: "in_group (cl u x) = Some h" using m by blast
    show ?thesis
    proof (cases found)
      case None
      have "merging hold c w (Some h, u)" using m h by (auto simp: merging_def)
      with None False h show ?thesis by (simp add: leaderGroup_step_def su)
    next
      case (Some g)
      have su': "merging hold c w (Some g, u)" using s by (simp add: su Some)
      have grouped: "in_group (cl w tmp) \<noteq> None" if "tmp \<in> set (gr_members (grp u h))" for tmp
      proof -
        have "in_group (cl u tmp) = Some h"
          using that m members_okD(1) unfolding settled_def by blast
        then show ?thesis using m unfolding quiet_def by (metis option.distinct(1))
      qed
      have "\<exists>v. foldM (\<lambda>tmp w. if tmp \<noteq> c then changeClientLeaderGroup tmp g w else Some w)
          (gr_members (grp u h)) u = Some v \<and> merging hold c w (Some g, v)"
        by (rule foldM_invariant [where P = "\<lambda>v. merging hold c w (Some g, v)"])
          (use merging_member grouped su' in auto)
      with Some False h s show ?thesis by (auto simp: leaderGroup_step_def su)
    qed
  qed
qed

lemma moveToGroup_other:
  "in_group (cl w this) \<noteq> Some g \<Longrightarrow>
   moveToGroup this g w = map_option (enterGroup this g) (leaveGroup this w)"
  by (cases "leaveGroup this w") (simp_all add: moveToGroup_def)

text \<open>The branch for windows that are not transient leaves the old group before it makes a new one;
  the others do it in the other order, with the same result.\<close>

lemma groupOfClientLeader_move:
  assumes "findClientLeaderGroup this w = Some (found, u)" "members_ok hold u"
  shows "groupOfClientLeader this w = (let (g, u) = orNewGroup found WINDOW_NONE u in moveToGroup this g u)"
proof -
  define out where "out = (\<lambda>v :: group_world. upd_cl this (\<lambda>r. r\<lparr>in_group := None\<rparr>) v)"
  have fresh: "in_group (cl u this) \<noteq> Some (next_group u)"
    using grouped_alive [OF assms(2)] members_okD(5) [OF assms(2)] by blast
  have new: "newGroup l (out v) = (next_group v, out (snd (newGroup l v)))" for l v
  proof -
    have "findClient (out v) l = findClient v l"
      unfolding findClient_def known_windows_def out_def upd_cl_sel
      by (rule arg_cong [where f = "\<lambda>p. find p (clients v @ desktops v)"]) auto
    then show ?thesis by (simp add: newGroup_def Let_def out_def upd_cl_def do_call_def)
  qed
  have enter: "enterGroup this g (out v) = enterGroup this g v" for g v
    by (simp add: out_def leave_enter)
  show ?thesis
  proof (cases "in_group (cl u this)")
    case None
    then have l: "leaveGroup this v = Some v" if "cl v = cl u" for v using that by (simp add: leaveGroup_def)
    show ?thesis using assms(1) None fresh
      by (cases found) (simp_all add: groupOfClientLeader_def orNewGroup_def case_prod_beta moveToGroup_other l)
  next
    case (Some h)
    show ?thesis
    proof (cases "found = Some h")
      case True
      then show ?thesis using assms(1) Some by (simp add: groupOfClientLeader_def orNewGroup_def moveToGroup_def)
    next
      case False
      then have "groupOfClientLeader this w =
          map_option (\<lambda>v. let (g, v) = orNewGroup found WINDOW_NONE (out v) in enterGroup this g v) (removeMember h this u)"
        using assms(1) Some
        by (cases "removeMember h this u")
          (auto simp: groupOfClientLeader_def out_def upd_cl_def orNewGroup_def case_prod_beta split: option.split)
      moreover have lu: "leaveGroup this u = removeMember h this u" using Some by (simp add: leaveGroup_def)
      moreover have nv: "next_group v = next_group u" if "removeMember h this u = Some v" for v
        using that by (auto simp: removeMember_def split: if_splits)
      moreover have "(let (g, x) = orNewGroup found WINDOW_NONE u in moveToGroup this g x) =
          map_option (\<lambda>v. let (g, v) = orNewGroup found WINDOW_NONE (out v) in enterGroup this g v) (removeMember h this u)"
      proof (cases found)
        case (Some g)
        then have "in_group (cl u this) \<noteq> Some g" using False \<open>in_group (cl u this) = Some h\<close> by simp
        with Some lu show ?thesis
          by (simp add: orNewGroup_def moveToGroup_other enter cong: option.map_cong)
      next
        case None
        have "moveToGroup this (next_group u) (snd (newGroup WINDOW_NONE u)) =
            map_option (enterGroup this (next_group u)) (leaveGroup this (snd (newGroup WINDOW_NONE u)))"
          using fresh by (simp add: moveToGroup_other)
        also have "\<dots> = map_option (\<lambda>v. enterGroup this (next_group u) (snd (newGroup WINDOW_NONE v))) (removeMember h this u)"
          by (simp add: newGroup_leave(1) [OF assms(2)] lu option.map_comp comp_def)
        also have "\<dots> = map_option (\<lambda>v. enterGroup this (next_group v) (snd (newGroup WINDOW_NONE v))) (removeMember h this u)"
          using nv by (cases "removeMember h this u") simp_all
        finally show ?thesis using None by (simp add: orNewGroup_def case_prod_beta new enter)
      qed
      ultimately show ?thesis by simp
    qed
  qed
qed

lemma main_in_group:
  assumes "settled hold w" "transientForClient w this = Some t"
  shows "t \<noteq> this" "in_group (cl w t) \<noteq> None" "in_group (cl w this) \<noteq> None"
proof -
  have m: "mains w this = Some t" using assms(2) by (auto simp: transientForClient_def split: option.splits if_splits)
  have ok: "in_group (cl w this) \<noteq> None \<and> in_group (cl w t) \<noteq> None \<and> this \<in> set (lists w t)"
    using assms(1) m unfolding settled_def mains_ok_def by blast
  then show "in_group (cl w t) \<noteq> None" "in_group (cl w this) \<noteq> None" by simp_all
  show "t \<noteq> this" using assms(1) ok unfolding settled_def lists_ok_def by blast
qed

definition choosable :: "(nat \<Rightarrow> nat) \<Rightarrow> win \<Rightarrow> group_world \<Rightarrow> bool" where
  "choosable hold this w \<longleftrightarrow>
     settled hold w \<and> isClient w this \<and> (in_group (cl w this) = None \<longrightarrow> lists w this = []) \<and>
     (\<forall>g. in_group (cl w this) = Some g \<longrightarrow> hold g > 0) \<and>
     (\<forall>x\<in>set (clients w). x \<noteq> this \<longrightarrow> in_group (cl w x) \<noteq> None)"

definition chosen :: "(nat \<Rightarrow> nat) \<Rightarrow> win \<Rightarrow> group_world \<Rightarrow> group_world \<Rightarrow> bool" where
  "chosen hold this w v \<longleftrightarrow>
     in_transit hold this (in_group (cl w this)) v \<and> in_group (cl v this) \<noteq> None \<and> same_windows w v \<and>
     (\<forall>x. in_group (cl w x) \<noteq> None \<longrightarrow> in_group (cl v x) \<noteq> None) \<and>
     (\<forall>t. transientForClient w this = Some t \<longrightarrow> in_group (cl v this) = in_group (cl v t))"

lemma chosen_move:
  assumes "settled hold w" "transientForClient w this = None \<or> transientForClient w this = Some t \<and> in_group (cl w t) = Some g"
    and "in_transit hold this (in_group (cl w this)) v" "only_group this (Some g) w v"
  shows "chosen hold this w v"
proof -
  have gv: "in_group (cl v x) = (if x = this then Some g else in_group (cl w x))" for x
    using fun_cong [OF only_group_facts(1) [OF assms(4)], of x] by simp
  have "in_group (cl v this) = in_group (cl v t')" if "transientForClient w this = Some t'" for t'
    using main_in_group(1) [OF assms(1) that] assms(2) that by (auto simp: gv)
  with assms(3) only_group_facts(3) [OF assms(4)] show ?thesis by (simp add: chosen_def gv)
qed

lemma groupOfTransient_ok:
  assumes "choosable hold this w" "transientForClient w this = None"
  shows "\<exists>v. groupOfTransient this w = Some v \<and> chosen hold this w v"
    and "groupOfClientLeader this w = groupOfTransient this w"
proof -
  note ch = assms(1) [unfolded choosable_def]
  from findClientLeaderGroup_ok [of hold w this] ch obtain found u where
    u: "findClientLeaderGroup this w = Some (found, u)" "merging hold this w (found, u)" by fastforce
  note m = u(2) [unfolded merging_def fst_conv snd_conv]
  have mem: "members_ok hold u" using m by (simp add: settled_def)
  show "groupOfClientLeader this w = groupOfTransient this w"
    using groupOfClientLeader_move [OF u(1) mem] u(1) by (simp add: groupOfTransient_def)
  have "lists u this = []" if "in_group (cl u this) = None"
  proof -
    have none: "in_group (cl w this) = None" using that m by simp
    then have "set (lists u this) \<subseteq> set (lists w this)" using m unfolding quiet_def by blast
    with none ch show ?thesis by simp
  qed
  then have tr: "in_transit hold this (in_group (cl u this)) u"
    by (rule settled_transit [rotated]) (use m ch in auto)
  have "isClient u this" using m ch same_windows_sel(9) by metis
  from orNewGroup_move_ok [OF tr this, of found WINDOW_NONE] m grouped_alive [OF mem] obtain g v where
    v: "(let (g, u) = orNewGroup found WINDOW_NONE u in moveToGroup this g u) = Some v"
      "in_transit hold this (in_group (cl u this)) v" "only_group this (Some g) u v" by blast
  have gv: "in_group (cl v x) = (if x = this then Some g else in_group (cl u x))" for x
    using fun_cong [OF only_group_facts(1) [OF v(3)], of x] by simp
  have "same_windows w v" using m same_windows_trans [OF _ only_group_facts(3) [OF v(3)]] by blast
  then have "chosen hold this w v" using v(2) m assms(2) by (auto simp: chosen_def gv)
  then show "\<exists>v. groupOfTransient this w = Some v \<and> chosen hold this w v"
    using u(1) v(1) by (simp add: groupOfTransient_def)
qed

lemma chooseGroup_ok:
  assumes "choosable hold this w"
  shows "\<exists>v. chooseGroup this w = Some v \<and> chosen hold this w v"
proof -
  note ch = assms [unfolded choosable_def]
  have mem: "members_ok hold w" using ch by (simp add: settled_def)
  have tr: "in_transit hold this (in_group (cl w this)) w"
    by (rule settled_transit) (use ch in auto)
  have cl: "isClient w this" using ch by blast
  consider (leader) "groupLeader (cl w this) \<noteq> WINDOW_NONE"
    | (main) t where "groupLeader (cl w this) = WINDOW_NONE" "transientForClient w this = Some t"
    | (other) "groupLeader (cl w this) = WINDOW_NONE" "transientForClient w this = None" by (cases "transientForClient w this") auto
  then show ?thesis
  proof cases
    case leader
    define found where "found = find (\<lambda>g. leader_wid (grp w g) = groupLeader (cl w this)) (groups w)"
    define wanted where "wanted = (case transientForClient w this of
        None \<Rightarrow> found | Some t \<Rightarrow> if in_group (cl w t) \<noteq> found then in_group (cl w t) else found)"
    have alive: "g \<in> set (groups w)" if "wanted = Some g" for g
    proof (cases "transientForClient w this")
      case None
      then show ?thesis using that by (auto simp: wanted_def found_def find_Some_iff in_set_conv_nth)
    next
      case (Some t)
      then have "in_group (cl w t) = Some g" using that by (auto simp: wanted_def split: if_splits)
      then show ?thesis by (rule grouped_alive [OF mem])
    qed
    from orNewGroup_move_ok [OF tr cl alive, where leader = "groupLeader (cl w this)"] obtain g v where
      v: "(let (g, u) = orNewGroup wanted (groupLeader (cl w this)) w in moveToGroup this g u) = Some v"
        "in_transit hold this (in_group (cl w this)) v" "only_group this (Some g) w v"
        "wanted \<noteq> None \<longrightarrow> wanted = Some g" by blast
    have "transientForClient w this = None \<or> transientForClient w this = Some t \<and> in_group (cl w t) = Some g"
      if "t = the (transientForClient w this)" for t
      using that v(4) main_in_group(2) [of hold w this t] ch
      by (cases "transientForClient w this") (auto simp: wanted_def split: if_splits)
    then have "chosen hold this w v" using chosen_move [OF _ _ v(2,3)] ch by blast
    moreover have "chooseGroup this w = Some v"
    proof -
      have "findGroup w (groupLeader (cl w this)) = Some found"
        using leader by (simp add: findGroup_def found_def)
      with leader v(1) show ?thesis
        by (simp add: chooseGroup_def groupOfLeader_def wanted_def)
    qed
    ultimately show ?thesis by blast
  next
    case main
    obtain g where g: "in_group (cl w t) = Some g" using main_in_group(2) [OF _ main(2)] ch by blast
    from moveToGroup_ok [OF tr grouped_alive [OF mem g] cl] obtain v where
      v: "moveToGroup this g w = Some v" "in_transit hold this (in_group (cl w this)) v" "only_group this (Some g) w v"
      by blast
    have "chosen hold this w v" by (rule chosen_move [OF _ _ v(2,3)]) (use ch main g in auto)
    with v(1) main g show ?thesis by (simp add: chooseGroup_def groupOfMain_def)
  next
    case other
    then show ?thesis using groupOfTransient_ok [OF assms other(2)] by (simp add: chooseGroup_def)
  qed
qed

lemma checkGroup_ok:
  assumes "grouping_ok w" "isClient w this" "in_group (cl w this) = None \<Longrightarrow> lists w this = []"
    and "\<forall>x\<in>set (clients w). x \<noteq> this \<longrightarrow> in_group (cl w x) \<noteq> None"
  shows "\<exists>v. checkGroup this None force w = Some v \<and> grouping_ok v \<and> same_windows w v \<and>
    in_group (cl v this) \<noteq> None \<and> (\<forall>x. in_group (cl w x) \<noteq> None \<longrightarrow> in_group (cl v x) \<noteq> None) \<and>
    (\<forall>t. transientForClient v this = Some t \<longrightarrow> in_group (cl v this) = in_group (cl v t))"
proof -
  let ?old = "in_group (cl w this)" and ?w = "holdGroup (in_group (cl w this)) w"
  have "settled (\<lambda>_. 0) w" using assms(1) by (simp add: grouping_ok_def settled_def)
  then have "settled (held ?old (\<lambda>_. 0)) ?w" by (rule hold_settled) blast
  then have "choosable (held ?old (\<lambda>_. 0)) this ?w"
    using assms(2-4) by (auto simp: choosable_def held_def isClient_def)
  from chooseGroup_ok [OF this] obtain u where
    u: "chooseGroup this ?w = Some u" "chosen (held ?old (\<lambda>_. 0)) this ?w u" by blast
  note c = u(2) [unfolded chosen_def]
  obtain g where g: "in_group (cl u this) = Some g" using c by blast
  have "in_transit (held ?old (\<lambda>_. 0)) this ?old u" using c by simp
  from finishCheckGroup_ok [OF this g, of force] obtain v where
    v: "finishCheckGroup this ?old force u = Some v" "settled (\<lambda>_. 0) v" "group_of v = group_of u" "same_windows u v"
    by auto
  have sw: "same_windows w v" using same_windows_trans [OF same_windows_trans [OF same_windows_hold] v(4)] c by blast
  have gv: "in_group (cl v x) = in_group (cl u x)" for x using fun_cong [OF v(3)] .
  have "transientForClient v this = transientForClient ?w this"
    using same_windows_sel(11) [OF sw, of this] same_windows_sel(11) [OF same_windows_hold, of _ w this] by simp
  then have "\<forall>t. transientForClient v this = Some t \<longrightarrow> in_group (cl v this) = in_group (cl v t)"
    using c by (simp add: gv)
  moreover have "grouping_ok v" using v(2) by (simp add: grouping_ok_def settled_def)
  moreover have "\<forall>x. in_group (cl w x) \<noteq> None \<longrightarrow> in_group (cl v x) \<noteq> None" using c by (simp add: gv)
  ultimately show ?thesis
    using u(1) v(1) sw g by (simp add: checkGroup_def Let_def gv)
qed

end
