(* ===== verification/MainWindows.thy ===== *)
theory MainWindows
  imports GroupFacts
begin

text \<open>
  Who may become the main window of a window: the check of \<open>WM_TRANSIENT_FOR\<close> (\<open>verifyTransientFor\<close>)
  returns and keeps the walk up the main windows finite, and a session whose groups, lists and
  main windows are consistent stays so when a property changes and when a window goes.  The last
  section has the two ways in which the code fails to do so.
\<close>

section \<open>Checking the property\<close>

text \<open>The step from a window id to the id of the main window of the managed window it names.\<close>

definition next_id :: "group_world \<Rightarrow> xid \<Rightarrow> xid option" where
  "next_id w x =
     (if x = WINDOW_NONE \<or> x = root_window w then None
      else map_option (\<lambda>p. m_transientForId (cl w p)) (findClient w x))"

text \<open>Main windows are managed under their window id.\<close>

definition mains_known :: "group_world \<Rightarrow> bool" where
  "mains_known w \<longleftrightarrow>
     (\<forall>c m. mains w c = Some m \<longrightarrow> findClient w (window (cl w m)) = Some m \<and> window (cl w m) \<noteq> WINDOW_NONE)"

definition reaches :: "(win \<Rightarrow> win option) \<Rightarrow> win \<Rightarrow> win \<Rightarrow> bool" where
  "reaches f x y \<longleftrightarrow> (\<lambda>a b. f a = Some b)\<^sup>*\<^sup>* x y"

lemma reaches_refl [simp]: "reaches f x x"
  by (simp add: reaches_def)

lemma reaches_up: "f x = Some m \<Longrightarrow> reaches f m y \<Longrightarrow> reaches f x y"
  unfolding reaches_def by (rule converse_rtranclp_into_rtranclp)

lemma reaches_stop: "f b = None \<Longrightarrow> reaches f b y \<Longrightarrow> y = b"
  unfolding reaches_def by (erule converse_rtranclpE) simp_all

lemma ends_no_cycle: "ends f a \<Longrightarrow> f a = Some b \<Longrightarrow> \<not> reaches f b a"
proof (induction arbitrary: b rule: ends.induct)
  case (up a m)
  have "b = m" using up.hyps(1) up.prems by simp
  moreover have False if r: "reaches f m a"
  proof (cases "f m")
    case None
    then show False using reaches_stop [of f m a] r up.hyps(1) by simp
  next
    case (Some m')
    have "m \<noteq> a \<Longrightarrow> reaches f m' a"
      using r Some unfolding reaches_def by (auto elim: converse_rtranclpE)
    moreover have "m = a \<Longrightarrow> reaches f m' a" using Some up.hyps(1) by simp
    ultimately have "reaches f m' m"
      using up.hyps(1) unfolding reaches_def by (blast intro: rtranclp.rtrancl_into_rtrancl)
    with up.IH [OF Some] show False by contradiction
  qed
  ultimately show ?case by blast
qed simp

lemma detectLoop_result:
  assumes "ends f pos" "f = next_id w"
  shows "\<exists>r. detectLoop w this n pos new = Some r \<and> (r = new \<or> r = root_window w) \<and>
    (r \<noteq> root_window w \<longrightarrow> (\<forall>q. reaches f pos q \<longrightarrow> f q \<noteq> None \<longrightarrow> findClient w q \<noteq> Some this))"
  using assms
proof (induction arbitrary: n new rule: ends.induct)
  case (top pos)
  then have "detectLoop w this n pos new = Some new"
    by (subst detectLoop.simps) (auto simp: next_id_def split: option.split)
  moreover have "q = pos" if "reaches f pos q" for q
    using that top.hyps unfolding reaches_def by (auto elim: converse_rtranclpE)
  then have "f q = None" if "reaches f pos q" for q using that top.hyps by blast
  ultimately show ?case by (intro exI [of _ new]) auto
next
  case (up pos nxt)
  obtain p where p: "findClient w pos = Some p" "nxt = m_transientForId (cl w p)"
    "pos \<noteq> WINDOW_NONE" "pos \<noteq> root_window w"
    using up.hyps(1) up.prems by (auto simp: next_id_def split: if_splits)
  define new' where "new' = (if n - 1 = 0 \<or> p = this then root_window w else new)"
  have run: "detectLoop w this n pos new = detectLoop w this (n - 1) nxt new'"
    using p by (subst detectLoop.simps) (simp add: new'_def)
  from up.IH [OF up.prems, of "n - 1" new'] obtain r where
    r: "detectLoop w this (n - 1) nxt new' = Some r" "r = new' \<or> r = root_window w"
      "r \<noteq> root_window w \<longrightarrow> (\<forall>q. reaches f nxt q \<longrightarrow> f q \<noteq> None \<longrightarrow> findClient w q \<noteq> Some this)" by blast
  have "r = new \<or> r = root_window w" using r(2) by (auto simp: new'_def split: if_splits)
  moreover have "findClient w q \<noteq> Some this"
    if "r \<noteq> root_window w" "reaches f pos q" "f q \<noteq> None" for q
  proof (cases "q = pos")
    case True
    then show ?thesis using that(1) r(2) p(1) by (auto simp: new'_def split: if_splits)
  next
    case False
    then have "reaches f nxt q"
      using that(2) up.hyps(1) unfolding reaches_def by (auto elim: converse_rtranclpE)
    then show ?thesis using r(3) that by blast
  qed
  ultimately show ?case using run r(1) by auto
qed

text \<open>The managed windows on the way up are those the ids name.\<close>

lemma main_path_ids:
  assumes "reaches (mains w) t y" "findClient w (window (cl w t)) = Some t" "mains_known w" "mains_ok G w"
    "window (cl w t) \<noteq> WINDOW_NONE" "window (cl w t) \<noteq> root_window w"
  shows "reaches (next_id w) (window (cl w t)) (window (cl w y)) \<and> findClient w (window (cl w y)) = Some y \<and>
    window (cl w y) \<noteq> WINDOW_NONE \<and> window (cl w y) \<noteq> root_window w"
  using assms(1) unfolding reaches_def
proof (induction rule: rtranclp_induct)
  case base
  then show ?case using assms by simp
next
  case (step y z)
  have "m_transientForId (cl w y) = window (cl w z)" "window (cl w z) \<noteq> root_window w"
    using assms(4) step.hyps(2) unfolding mains_ok_def by blast+
  moreover have "findClient w (window (cl w z)) = Some z" "window (cl w z) \<noteq> WINDOW_NONE"
    using assms(3) step.hyps(2) unfolding mains_known_def by blast+
  moreover have "next_id w (window (cl w y)) = Some (m_transientForId (cl w y))"
    using step.IH by (simp add: next_id_def)
  ultimately show ?case using step.IH by (auto intro: rtranclp.rtrancl_into_rtrancl)
qed

lemma findClient_window: "findClient w x = Some t \<Longrightarrow> window (cl w t) = x \<and> t \<in> set (known_windows w)"
  by (auto simp: findClient_def find_Some_iff in_set_conv_nth)

text \<open>What a window may become transient for: the way up from it does not lead back.\<close>

definition main_allowed :: "group_world \<Rightarrow> win \<Rightarrow> xid \<Rightarrow> bool" where
  "main_allowed w this x \<longleftrightarrow>
     x = WINDOW_NONE \<or> x = root_window w \<or>
     (\<exists>t. findClient w x = Some t) \<and> (\<forall>q. reaches (next_id w) x q \<longrightarrow> findClient w q \<noteq> Some this)"

text \<open>The windows of the X server are a tree, so that the way to the root ends.\<close>

definition x_step :: "group_world \<Rightarrow> xid \<Rightarrow> xid option" where
  "x_step w x =
     (if x \<noteq> WINDOW_NONE \<and> x \<noteq> root_window w \<and> findClient w x = None then x_parent w x else None)"

lemma managedAncestor_result:
  assumes "ends f x" "f = x_step w"
  shows "\<exists>r. managedAncestor w x = Some r"
  using assms
proof (induction rule: ends.induct)
  case (top x)
  then show ?case by (subst managedAncestor.simps) (auto simp: x_step_def split: option.split)
next
  case (up x p)
  then have "managedAncestor w x = managedAncestor w p"
    by (subst managedAncestor.simps) (auto simp: x_step_def split: if_splits)
  with up show ?case by simp
qed

lemma detectLoop_allowed:
  assumes "\<forall>x. ends (next_id w) x" "findClient w WINDOW_NONE = None" "findClient w (root_window w) = None"
  shows "\<exists>r. detectLoop w this n x x = Some r \<and>
    main_allowed w this (if r \<noteq> root_window w \<and> findClient w r = None then root_window w else r)"
proof -
  obtain r where r: "detectLoop w this n x x = Some r" "r = x \<or> r = root_window w"
    "r \<noteq> root_window w \<longrightarrow> (\<forall>q. reaches (next_id w) x q \<longrightarrow> next_id w q \<noteq> None \<longrightarrow> findClient w q \<noteq> Some this)"
    using detectLoop_result [OF assms(1) [rule_format] refl] by blast
  have "findClient w q \<noteq> Some this" if "r \<noteq> root_window w" "reaches (next_id w) x q" for q
  proof (cases "next_id w q")
    case None
    then show ?thesis using assms(2,3) by (auto simp: next_id_def split: if_splits)
  next
    case (Some y)
    then show ?thesis using r(3) that by auto
  qed
  then show ?thesis using r(1,2) by (auto simp: main_allowed_def)
qed

lemma main_allowed_mains:
  assumes "main_allowed w this x" "findClient w x = Some t" "mains_known w" "mains_ok G w"
    "x \<noteq> WINDOW_NONE" "x \<noteq> root_window w"
  shows "\<not> reaches (mains w) t this"
proof
  assume "reaches (mains w) t this"
  moreover have "window (cl w t) = x" using findClient_window [OF assms(2)] by blast
  ultimately have "reaches (next_id w) x (window (cl w this))" "findClient w (window (cl w this)) = Some this"
    using main_path_ids [OF _ _ assms(3,4), of t this] assms(2,5,6) by auto
  then show False using assms(1,5,6) by (auto simp: main_allowed_def)
qed

text \<open>What the check of the property returns.\<close>

lemma verifyTransientFor_result:
  assumes "\<forall>x. ends (next_id w) x" "\<forall>x. ends (x_step w) x"
    and "findClient w WINDOW_NONE = None" "findClient w (root_window w) = None"
  shows "\<exists>r p. verifyTransientFor this new set_property w = Some (r, if p = None then w else do_call (SetTransientForProperty (window (cl w this)) (the p)) w) \<and>
    main_allowed w this r"
proof (cases "(if isSplash w this \<and> new = WINDOW_NONE then root_window w else new) = WINDOW_NONE \<and> \<not> set_property")
  case True
  then have "verifyTransientFor this new set_property w = Some (WINDOW_NONE, w)"
    unfolding verifyTransientFor_def Let_def by (rule if_P)
  moreover have "main_allowed w this WINDOW_NONE" by (simp add: main_allowed_def)
  ultimately show ?thesis by (intro exI [of _ WINDOW_NONE] exI [of _ None]) simp
next
  case False
  define new1 where "new1 = (if isSplash w this \<and> new = WINDOW_NONE then root_window w else new)"
  define prop2 where "prop2 = (if new1 = WINDOW_NONE then root_window w else new)"
  define new2 where "new2 = (if new1 = WINDOW_NONE then root_window w else new1)"
  define prop3 where "prop3 = (if new2 = window (cl w this) then root_window w else prop2)"
  define before where "before = (if new2 = window (cl w this) then root_window w else new2)"
  obtain found where found: "managedAncestor w before = Some found"
    using managedAncestor_result [OF assms(2) [rule_format] refl] by blast
  define prop4 where "prop4 = (if findClient w found \<noteq> None \<and> found \<noteq> before then found else prop3)"
  define new4 where "new4 = (if findClient w found \<noteq> None then found else before)"
  obtain r where r: "detectLoop w this 20 new4 new4 = Some r"
    "main_allowed w this (if r \<noteq> root_window w \<and> findClient w r = None then root_window w else r)"
    using detectLoop_allowed [OF assms(1,3,4)] by blast
  have "verifyTransientFor this new set_property w =
      Some (if r \<noteq> root_window w \<and> findClient w r = None then root_window w else r, fix_property this prop4 w)"
    unfolding verifyTransientFor_def Let_def new1_def [symmetric]
    using False unfolding new1_def [symmetric]
    by (simp only: if_not_P if_False prop2_def [symmetric] new2_def [symmetric] prop3_def [symmetric]
        before_def [symmetric] found prop4_def [symmetric] new4_def [symmetric] r(1) Option.bind.simps)
  with r(2) show ?thesis
    by (intro exI [of _ "if r \<noteq> root_window w \<and> findClient w r = None then root_window w else r"]
        exI [of _ "if prop4 \<noteq> m_originalTransientForId (cl w this) then Some prop4 else None"])
      (simp add: fix_property_def)
qed

section \<open>Changing the main window\<close>

definition relations_ok :: "group_world \<Rightarrow> bool" where
  "relations_ok w \<longleftrightarrow>
     grouping_ok w \<and> mains_known w \<and> (\<forall>x. ends (next_id w) x) \<and>
     findClient w WINDOW_NONE = None \<and> findClient w (root_window w) = None \<and>
     (\<forall>x\<in>set (known_windows w). in_group (cl w x) \<noteq> None \<and> findClient w (window (cl w x)) = Some x)"

lemma ends_avoiding:
  assumes "ends f x" "\<And>y. reaches f x y \<Longrightarrow> g y = f y"
  shows "ends g x"
  using assms
proof (induction rule: ends.induct)
  case (top x)
  then show ?case by (intro ends.top) simp
next
  case (up x m)
  have "g y = f y" if "reaches f m y" for y
    using up.prems that reaches_up [of f x m y] up.hyps(1) by blast
  then have "ends g m" by (rule up.IH)
  moreover have "g x = Some m" using up.prems [of x] up.hyps(1) by simp
  ultimately show ?case by (rule ends.up [rotated])
qed

lemma ends_updated:
  assumes "\<forall>x. ends f x" "\<And>y. g y \<noteq> f y \<Longrightarrow> y = a" "g a = None \<or> (\<exists>b. g a = Some b \<and> \<not> reaches f b a)"
  shows "ends g x"
proof -
  have a: "ends g a"
  proof (cases "g a")
    case None
    then show ?thesis by (rule ends.top)
  next
    case (Some b)
    then have "\<not> reaches f b a" using assms(3) by auto
    then have "ends g b" using ends_avoiding [OF assms(1) [rule_format]] assms(2) by metis
    with Some show ?thesis by (rule ends.up [of g a b])
  qed
  have "ends f x" using assms(1) by blast
  then show ?thesis
  proof (induction rule: ends.induct)
    case (top x)
    show ?case
    proof (cases "x = a")
      case False
      then have "g x = None" using assms(2) top by metis
      then show ?thesis by (rule ends.top)
    qed (simp add: a)
  next
    case (up x m)
    show ?case
    proof (cases "x = a")
      case True
      then show ?thesis using a by simp
    next
      case False
      then have "g x = Some m" using assms(2) up.hyps(1) by metis
      then show ?thesis using up.IH by (rule ends.up [of g x m])
    qed
  qed
qed

text \<open>First the window is taken off all lists; then its id and main window change, and it comes
  onto the list of its main window: all of this changes lists and the two fields of the window.\<close>

definition relink :: "(win \<Rightarrow> win list) \<Rightarrow> win \<Rightarrow> xid \<Rightarrow> win option \<Rightarrow> group_world \<Rightarrow> group_world" where
  "relink L this x t w = w\<lparr>cl := \<lambda>c.
     if c = this then (cl w c)\<lparr>m_transients := L c, m_transientForId := x, m_transientFor := t\<rparr>
     else (cl w c)\<lparr>m_transients := L c\<rparr>\<rparr>"

lemma relink_sel [simp]:
  "lists (relink L this x t w) c = L c"
  "mains (relink L this x t w) c = (if c = this then t else mains w c)"
  "m_transientForId (cl (relink L this x t w) c) = (if c = this then x else m_transientForId (cl w c))"
  "in_group (cl (relink L this x t w) c) = in_group (cl w c)"
  "window (cl (relink L this x t w) c) = window (cl w c)"
  "m_modal (cl (relink L this x t w) c) = m_modal (cl w c)"
  "kind (cl (relink L this x t w) c) = kind (cl w c)"
  "m_originalTransientForId (cl (relink L this x t w) c) = m_originalTransientForId (cl w c)"
  "grp (relink L this x t w) = grp w" "groups (relink L this x t w) = groups w"
  "root_window (relink L this x t w) = root_window w" "clients (relink L this x t w) = clients w"
  "desktops (relink L this x t w) = desktops w" "next_group (relink L this x t w) = next_group w"
  "check_active_modal (relink L this x t w) = check_active_modal w"
  "x_parent (relink L this x t w) = x_parent w"
  "mostRecentlyActivatedClient (relink L this x t w) = mostRecentlyActivatedClient w"
  by (simp_all add: relink_def mostRecentlyActivatedClient_def)

lemma relink_queries [simp]:
  "isClient (relink L this x t w) = isClient w"
  "findClient (relink L this x t w) = findClient w"
  "known_windows (relink L this x t w) = known_windows w"
  by (simp_all add: fun_eq_iff isClient_def findClient_def known_windows_def)

lemma relink_relink [simp]: "relink K this y s (relink L this x t w) = relink K this y s w"
  by (auto simp: relink_def intro!: arg_cong [where f = "\<lambda>c. w\<lparr>cl := c\<rparr>"])

lemma relink_with_lists: "with_lists K (relink L this x t w) = relink K this x t w"
  by (auto simp: relink_def with_lists_def intro!: arg_cong [where f = "\<lambda>c. w\<lparr>cl := c\<rparr>"])

lemma relink_same: "relink L this (m_transientForId (cl w this)) (mains w this) w = with_lists L w"
  by (auto simp: relink_def with_lists_def intro!: arg_cong [where f = "\<lambda>c. w\<lparr>cl := c\<rparr>"])

lemma relink_id: "upd_cl this (\<lambda>r. r\<lparr>m_transientForId := y\<rparr>) (relink L this x t w) = relink L this y t w"
  by (auto simp: relink_def upd_cl_def intro!: arg_cong [where f = "\<lambda>c. w\<lparr>cl := c\<rparr>"])

lemma relink_for: "upd_cl this (\<lambda>r. r\<lparr>m_transientFor := s\<rparr>) (relink L this x t w) = relink L this x s w"
  by (auto simp: relink_def upd_cl_def intro!: arg_cong [where f = "\<lambda>c. w\<lparr>cl := c\<rparr>"])

text \<open>The lists of the session with one window taken off.\<close>

definition off_lists :: "win \<Rightarrow> group_world \<Rightarrow> (win \<Rightarrow> win list) \<Rightarrow> bool" where
  "off_lists this w L \<longleftrightarrow>
     (\<forall>m. L m = lists w m \<or> L m = removeAll this (lists w m)) \<and>
     (\<forall>m. in_group (cl w m) \<noteq> None \<longrightarrow> this \<notin> set (L m))"

lemma removeFromMainClients_off:
  assumes "grouping_ok w" "in_group (cl w this) \<noteq> None"
  shows "\<exists>L. removeFromMainClients this w = Some (relink L this (m_transientForId (cl w this)) None w) \<and>
    off_lists this w L"
proof -
  have lok: "lists_ok (group_of w) w" and mok: "mains_ok (group_of w) w" and mem: "members_ok (\<lambda>_. 0) w"
    using assms(1) by (simp_all add: grouping_ok_def)
  show ?thesis
  proof (cases "mains w this")
    case (Some t)
    define L where "L = (lists w)(t := removeAll this (lists w t))"
    have ng: "\<not> groupTransient w this" using group_transient_top [OF mok] Some by fastforce
    have "t \<noteq> this"
      using lok mok Some assms(2) unfolding lists_ok_def mains_ok_def by (metis option.distinct(1))
    then have r: "removeTransient t this w = relink L this (m_transientForId (cl w this)) None w"
      using Some by (auto simp: removeTransient_def removeTransientBase_def upd_cl_def relink_def L_def
          intro!: arg_cong [where f = "\<lambda>c. w\<lparr>cl := c\<rparr>"])
    have "this \<notin> set (lists w m)" if "in_group (cl w m) \<noteq> None" "m \<noteq> t" for m
      using lok Some that unfolding lists_ok_def by fastforce
    then have "off_lists this w L" by (auto simp: off_lists_def L_def)
    moreover have "\<not> groupTransient (relink L this (m_transientForId (cl w this)) None w) this"
      using ng by (simp add: groupTransient_def)
    ultimately show ?thesis using Some r by (auto simp: removeFromMainClients_def)
  next
    case None
    note same = relink_same [of _ this w, unfolded None]
    show ?thesis
    proof (cases "groupTransient w this")
      case False
      have "off_lists this w (lists w)"
        using lok None False unfolding off_lists_def lists_ok_def by fastforce
      moreover have "removeFromMainClients this w = Some w" using None False by (simp add: removeFromMainClients_def)
      ultimately show ?thesis
        using same [of "lists w"] with_lists_id [of w] by (intro exI [of _ "lists w"]) simp
    next
      case True
      obtain g where g: "in_group (cl w this) = Some g" using assms(2) by blast
      define L where "L = (\<lambda>m. if m \<in> set (gr_members (grp w g)) then removeAll this (lists w m) else lists w m)"
      have "this \<notin> set (L m)" if m: "in_group (cl w m) \<noteq> None" for m
      proof
        assume "this \<in> set (L m)"
        then have "this \<in> set (lists w m)" "m \<notin> set (gr_members (grp w g))" by (auto simp: L_def split: if_splits)
        moreover then have "in_group (cl w this) = in_group (cl w m)"
          using lok m None unfolding lists_ok_def by fastforce
        ultimately show False using g members_okD(1) [OF mem, of m g] by simp
      qed
      then have "off_lists this w L" by (auto simp: off_lists_def L_def)
      moreover have "removeFromMainClients this w = Some (with_lists L w)"
        using None True g removeTransient_from_lists [OF None, of "gr_members (grp w g)"]
        by (simp add: removeFromMainClients_def L_def)
      ultimately show ?thesis using same [of L] by (intro exI [of _ L]) simp
    qed
  qed
qed

lemma groupTransient_relink:
  "groupTransient (relink L this x t w) c = (if c = this then x = root_window w else groupTransient w c)"
  by (simp add: groupTransient_def)

lemma relink_ok:
  assumes ok: "relations_ok w" and off: "off_lists this w L" and g: "in_group (cl w this) \<noteq> None"
    and x: "main_allowed w this x"
    and t: "t = (if x = WINDOW_NONE \<or> x = root_window w then None else findClient w x)"
  defines "K \<equiv> (case t of None \<Rightarrow> L | Some m \<Rightarrow> L(m := L m @ [this]))"
  defines "v \<equiv> relink K this x t w"
  shows "relations_ok v"
proof -
  note o = ok [unfolded relations_ok_def]
  note gok = o [THEN conjunct1, unfolded grouping_ok_def]
  have mk: "mains_known w" using o by blast
  have mok: "mains_ok (group_of w) w" and lok: "lists_ok (group_of w) w" and se: "session_ok w" using gok by blast+
  have tm: "findClient w x = Some m \<and> window (cl w m) = x \<and> in_group (cl w m) \<noteq> None \<and>
      x \<noteq> WINDOW_NONE \<and> x \<noteq> root_window w \<and> \<not> reaches (mains w) m this" if "t = Some m" for m
  proof -
    have f: "findClient w x = Some m" "x \<noteq> WINDOW_NONE" "x \<noteq> root_window w"
      using that t by (auto split: if_splits)
    then show ?thesis
      using findClient_window [OF f(1)] o main_allowed_mains [OF x f(1) mk mok f(2,3)] by blast
  qed
  have sub: "set (L m) \<subseteq> set (lists w m)" "distinct (lists w m) \<Longrightarrow> distinct (L m)"
    "c \<in> set (lists w m) \<Longrightarrow> c \<noteq> this \<Longrightarrow> c \<in> set (L m)" for m c
  proof -
    have "L m = lists w m \<or> L m = removeAll this (lists w m)" using off unfolding off_lists_def by blast
    then show "set (L m) \<subseteq> set (lists w m)" "distinct (lists w m) \<Longrightarrow> distinct (L m)"
      "c \<in> set (lists w m) \<Longrightarrow> c \<noteq> this \<Longrightarrow> c \<in> set (L m)"
      by (auto simp: distinct_removeAll)
  qed
  have gv: "group_of v = group_of w" by (auto simp: v_def)
  have mem: "members_ok (\<lambda>_. 0) v" using gok unfolding members_ok_def v_def by simp
  have K: "lists v m = (if t = Some m then L m @ [this] else L m)" for m
    by (auto simp: v_def K_def split: option.split)
  have gt: "groupTransient v c = groupTransient w c" if "c \<noteq> this" for c
    using that by (simp add: v_def groupTransient_relink)
  have mv: "mains v c = (if c = this then t else mains w c)" for c by (simp add: v_def)
  have old: "c \<noteq> this \<and> in_group (cl v c) \<noteq> None \<and> c \<noteq> m \<and>
      (mains v c = Some m \<or> mains v c = None \<and> groupTransient v c \<and> in_group (cl v c) = in_group (cl v m))"
    if m: "in_group (cl w m) \<noteq> None" and c: "c \<in> set (L m)" for c m
  proof -
    have "c \<noteq> this" using off m c unfolding off_lists_def by blast
    moreover have "in_group (cl w c) \<noteq> None \<and> c \<noteq> m \<and>
      (mains w c = Some m \<or> mains w c = None \<and> groupTransient w c \<and> in_group (cl w c) = in_group (cl w m))"
      using lok m sub(1) c unfolding lists_ok_def by blast
    ultimately show ?thesis using gt by (simp add: mv) (simp add: v_def)
  qed
  have "lists_ok (group_of v) v"
    unfolding lists_ok_def
  proof (intro allI impI)
    fix m
    assume "in_group (cl v m) \<noteq> None"
    then have m: "in_group (cl w m) \<noteq> None" by (simp add: v_def)
    have d: "distinct (L m)" using lok m sub(2) unfolding lists_ok_def by blast
    have nt: "this \<notin> set (L m)" using off m unfolding off_lists_def by blast
    have th: "in_group (cl v this) \<noteq> None \<and> this \<noteq> m \<and> mains v this = Some m" if "t = Some m"
      using tm [OF that] that g by (auto simp: mv v_def)
    show "distinct (lists v m) \<and> (\<forall>c\<in>set (lists v m). in_group (cl v c) \<noteq> None \<and> c \<noteq> m \<and>
        (mains v c = Some m \<or> mains v c = None \<and> groupTransient v c \<and> in_group (cl v c) = in_group (cl v m)))"
      using d nt th old [OF m] unfolding K by auto
  qed
  moreover have "mains_ok (group_of v) v"
    unfolding mains_ok_def
  proof (intro conjI allI impI)
    have "ends (mains v) c" for c
    proof (rule ends_updated [where f = "mains w" and a = this])
      show "\<forall>x. ends (mains w) x" using mok unfolding mains_ok_def by blast
      show "mains v y \<noteq> mains w y \<Longrightarrow> y = this" for y by (simp add: mv split: if_splits)
      show "mains v this = None \<or> (\<exists>b. mains v this = Some b \<and> \<not> reaches (mains w) b this)"
        using tm by (cases t) (simp_all add: mv)
    qed
    then show "ends (mains v) c" for c .
    fix c m
    assume cm: "mains v c = Some m"
    have "in_group (cl v c) \<noteq> None \<and> in_group (cl v m) \<noteq> None \<and> c \<in> set (lists v m) \<and>
          m_transientForId (cl v c) = window (cl v m) \<and> window (cl v m) \<noteq> root_window v"
    proof (cases "c = this")
      case True
      then have tt: "t = Some m" using cm by (simp add: mv)
      show ?thesis using tm [OF tt] tt True g unfolding K by (auto simp: v_def)
    next
      case False
      then have "mains w c = Some m" using cm by (simp add: mv)
      then have "in_group (cl w c) \<noteq> None \<and> in_group (cl w m) \<noteq> None \<and> c \<in> set (lists w m) \<and>
          m_transientForId (cl w c) = window (cl w m) \<and> window (cl w m) \<noteq> root_window w"
        using mok unfolding mains_ok_def by blast
      then show ?thesis using sub(3) False unfolding K by (auto simp: v_def)
    qed
    then show "in_group (cl v c) \<noteq> None" "in_group (cl v m) \<noteq> None" "c \<in> set (lists v m)"
      "m_transientForId (cl v c) = window (cl v m)" "window (cl v m) \<noteq> root_window v" by blast+
  qed
  moreover have "session_ok v" using se unfolding session_ok_def by (simp add: v_def)
  ultimately have gr: "grouping_ok v" using mem by (simp add: grouping_ok_def)
  have "mains_known v"
    using mk tm unfolding mains_known_def mv by (auto simp: v_def split: if_splits)
  moreover have "ends (next_id v) y" for y
  proof (rule ends_updated [where f = "next_id w" and a = "window (cl w this)"])
    show "\<forall>x. ends (next_id w) x" using o by blast
    have nv: "next_id v z = (if findClient w z = Some this \<and> z \<noteq> WINDOW_NONE \<and> z \<noteq> root_window w then Some x
        else next_id w z)" for z
      by (cases "findClient w z") (auto simp: next_id_def v_def)
    show "next_id v z \<noteq> next_id w z \<Longrightarrow> z = window (cl w this)" for z
      using findClient_window [of w z this] by (simp add: nv split: if_splits)
    show "next_id v (window (cl w this)) = None \<or>
        (\<exists>b. next_id v (window (cl w this)) = Some b \<and> \<not> reaches (next_id w) b (window (cl w this)))"
    proof (cases "findClient w (window (cl w this)) = Some this \<and> window (cl w this) \<noteq> WINDOW_NONE \<and>
        window (cl w this) \<noteq> root_window w")
      case True
      have stop: "\<not> reaches (next_id w) b (window (cl w this))" if "b = WINDOW_NONE \<or> b = root_window w" for b
        using reaches_stop [of "next_id w" b "window (cl w this)"] that True by (auto simp: next_id_def)
      have "\<not> reaches (next_id w) x (window (cl w this))"
        using x True stop by (auto simp: main_allowed_def)
      then show ?thesis using True by (simp add: nv)
    next
      case False
      have "next_id v (window (cl w this)) = next_id w (window (cl w this))" unfolding nv using False by (rule if_not_P)
      moreover have "\<not> reaches (next_id w) b a" if "next_id w a = Some b" for a b
        using ends_no_cycle [of "next_id w" a b] that o by blast
      ultimately show ?thesis by (cases "next_id w (window (cl w this))") auto
    qed
  qed
  then have "\<forall>y. ends (next_id v) y" by blast
  moreover have "findClient v = findClient w" "root_window v = root_window w" "known_windows v = known_windows w"
    "in_group (cl v c) = in_group (cl w c)" "window (cl v c) = window (cl w c)" for c
    by (simp_all add: v_def)
  ultimately show ?thesis
    using gr o unfolding relations_ok_def by simp
qed

lemma findClient_same: "same_windows w v \<Longrightarrow> findClient v = findClient w"
proof -
  assume s: "same_windows w v"
  have "window (cl v c) = window (cl w c)" for c by (rule same_windows_sel(3) [OF s])
  moreover have "known_windows v = known_windows w" using s by (simp add: same_windows_def known_windows_def)
  ultimately show ?thesis by (simp add: fun_eq_iff findClient_def)
qed

lemma relations_same:
  assumes "relations_ok w" "grouping_ok v" "same_windows w v"
    and "\<forall>x. in_group (cl w x) \<noteq> None \<longrightarrow> in_group (cl v x) \<noteq> None"
  shows "relations_ok v"
proof -
  note e = same_windows_sel [OF assms(3)] findClient_same [OF assms(3)]
  have r: "root_window v = root_window w" "known_windows v = known_windows w"
    using assms(3) by (simp_all add: same_windows_def known_windows_def)
  have "next_id v = next_id w" by (simp add: fun_eq_iff next_id_def e r)
  moreover have "mains_known v = mains_known w" by (simp add: mains_known_def e)
  ultimately show ?thesis using assms(1,2,4) by (simp add: relations_ok_def e r)
qed

lemma relations_call: "relations_ok w \<Longrightarrow> relations_ok (do_call e w)"
proof (rule relations_same [OF _ _ same_windows_grp(5)])
  assume "relations_ok w"
  then show "grouping_ok (do_call e w)"
    using settled_call [of "\<lambda>_. 0" e w] by (simp add: relations_ok_def grouping_ok_def settled_def)
qed simp_all

lemma setTransient_ok:
  assumes ok: "relations_ok w" and g: "in_group (cl w this) \<noteq> None" and x: "main_allowed w this x"
  shows "\<exists>v. setTransient this x w = Some v \<and> relations_ok v \<and> m_transientForId (cl v this) = x \<and>
    (x \<noteq> m_transientForId (cl w this) \<longrightarrow>
      mains v this = (if x = WINDOW_NONE \<or> x = root_window w then None else findClient w x) \<and>
      (\<forall>t. mains v this = Some t \<longrightarrow> in_group (cl v this) = in_group (cl v t)))"
proof (cases "x = m_transientForId (cl w this)")
  case True
  then have "setTransient this x w = Some w" by (simp add: setTransient_def)
  with ok True show ?thesis by simp
next
  case False
  note o = ok [unfolded relations_ok_def]
  have gok: "grouping_ok w" using o by blast
  obtain L where L: "removeFromMainClients this w = Some (relink L this (m_transientForId (cl w this)) None w)"
    "off_lists this w L" using removeFromMainClients_off [OF gok g] by blast
  define t where "t = (if x = WINDOW_NONE \<or> x = root_window w then None else findClient w x)"
  define K where "K = (case t of None \<Rightarrow> L | Some m \<Rightarrow> L(m := L m @ [this]))"
  define u where "u = relink K this x t w"
  have uok: "relations_ok u" unfolding u_def K_def by (rule relink_ok [OF ok L(2) g x t_def])
  have attach: "attachTo this (relink L this x None w) = Some (t, relink K this x None w)"
  proof (cases "x = WINDOW_NONE \<or> x = root_window w")
    case True
    then show ?thesis
      by (auto simp: attachTo_def isTransient_def groupTransient_def t_def K_def)
  next
    case rel: False
    obtain m where m: "findClient w x = Some m" using x rel by (auto simp: main_allowed_def)
    have mm: "t = Some m" using rel m by (simp add: t_def)
    have "in_group (cl w m) \<noteq> None" using o findClient_window [OF m] by blast
    then have "this \<notin> set (L m)" using L(2) unfolding off_lists_def by blast
    moreover have "m \<noteq> this" using x m rel unfolding main_allowed_def by (metis reaches_refl)
    moreover have "\<not> m_modal (cl w this)" using gok by (simp add: grouping_ok_def session_ok_def)
    ultimately have "client_addTransient m this (relink L this x None w) =
        Some (with_lists ((lists (relink L this x None w))(m := L m @ [this])) (relink L this x None w))"
      using client_addTransient_lists [of this "relink L this x None w" m] by simp
    moreover have "(lists (relink L this x None w))(m := L m @ [this]) = K"
      by (auto simp: K_def mm)
    ultimately have "client_addTransient m this (relink L this x None w) = Some (relink K this x None w)"
      by (simp add: relink_with_lists)
    then show ?thesis using rel m mm by (simp add: attachTo_def isTransient_def groupTransient_def)
  qed
  have nts: "t \<noteq> Some this"
    using x unfolding t_def main_allowed_def by (metis option.distinct(1) reaches_refl)
  have st: "setTransientFor this t (relink K this x None w) = u"
    using nts by (cases t) (simp_all add: setTransientFor_def u_def relink_for)
  have gu: "grouping_ok u" "\<forall>y\<in>set (known_windows u). in_group (cl u y) \<noteq> None"
    using uok by (simp_all add: relations_ok_def)
  have ug: "in_group (cl u y) = in_group (cl w y)" for y by (simp add: u_def)
  have cu: "isClient u this" using gu(1) g ug by (simp add: grouping_ok_def session_ok_def)
  from checkGroup_ok [OF gu(1) cu, of True] g ug gu(2) obtain v where
    v: "checkGroup this None True u = Some v" "grouping_ok v" "same_windows u v" "in_group (cl v this) \<noteq> None"
      "\<forall>y. in_group (cl u y) \<noteq> None \<longrightarrow> in_group (cl v y) \<noteq> None"
      "\<forall>t. transientForClient v this = Some t \<longrightarrow> in_group (cl v this) = in_group (cl v t)"
    by (auto simp: known_windows_def)
  have vok: "relations_ok v" by (rule relations_same [OF uok v(2,3,5)])
  note e = same_windows_sel [OF v(3)]
  have "setTransient this x w = Some (do_call ResetUpdateToolWindowsTimer (do_call (UpdateClientLayer this) v))"
    using False L(1) attach st v(1) by (simp add: setTransient_def relink_id)
  moreover have "mains v this = t" "m_transientForId (cl v this) = x" by (simp_all add: e(1,2)) (simp_all add: u_def)
  moreover have "in_group (cl v this) = in_group (cl v m)" if "t = Some m" for m
  proof -
    have mm: "mains v this = Some m" using that \<open>mains v this = t\<close> by simp
    have "mains_ok (group_of v) v" "session_ok v" using v(2) by (simp_all add: grouping_ok_def)
    then have "isClient v m" using mm unfolding mains_ok_def session_ok_def by blast
    then have "transientForClient v this = Some m" using mm by (simp add: transientForClient_def)
    then show ?thesis using v(6) by blast
  qed
  moreover have "relations_ok (do_call ResetUpdateToolWindowsTimer (do_call (UpdateClientLayer this) v))"
    by (intro relations_call vok)
  ultimately show ?thesis by (simp add: t_def)
qed

lemma original_id_ok:
  fixes w :: group_world and this :: win and x :: xid
  assumes "relations_ok w"
  defines "v \<equiv> upd_cl this (\<lambda>r. r\<lparr>m_originalTransientForId := x\<rparr>) w"
  shows "relations_ok v" "in_group (cl v c) = in_group (cl w c)" "x_step v = x_step w"
    "m_transientForId (cl v c) = m_transientForId (cl w c)" "root_window v = root_window w" "findClient v = findClient w"
proof -
  have s: "lists v = lists w" "mains v = mains w" "group_of v = group_of w" "grp v = grp w" "groups v = groups w"
    "next_group v = next_group w" "check_active_modal v = check_active_modal w" "x_parent v = x_parent w"
    "root_window v = root_window w" "known_windows v = known_windows w"
    by (auto simp: v_def known_windows_def upd_cl_def)
  have p: "in_group (cl v c) = in_group (cl w c)" "m_transientForId (cl v c) = m_transientForId (cl w c)"
    "window (cl v c) = window (cl w c)" "m_modal (cl v c) = m_modal (cl w c)" "kind (cl v c) = kind (cl w c)"
    "lists v c = lists w c" "mains v c = mains w c" for c
    by (auto simp: v_def)
  have q: "groupTransient v = groupTransient w" "isClient v = isClient w" "findClient v = findClient w"
    by (simp_all add: fun_eq_iff groupTransient_def isClient_def findClient_def p s)
  have "grouping_ok v = grouping_ok w"
    unfolding grouping_ok_def members_ok_def lists_ok_def mains_ok_def session_ok_def s p q by simp
  moreover have "mains_known v = mains_known w" "next_id v = next_id w"
    by (simp_all add: mains_known_def next_id_def fun_eq_iff p q s)
  ultimately show "relations_ok v" using assms(1) by (simp add: relations_ok_def s p q)
  show "in_group (cl v c) = in_group (cl w c)" "x_step v = x_step w"
    "m_transientForId (cl v c) = m_transientForId (cl w c)" "root_window v = root_window w" "findClient v = findClient w"
    by (simp_all add: p q s x_step_def fun_eq_iff)
qed

lemma main_allowed_call [simp]: "main_allowed (do_call e w) = main_allowed w"
proof -
  have "findClient (do_call e w) = findClient w" by (rule findClient_same) simp
  moreover from this have "next_id (do_call e w) = next_id w" by (simp add: fun_eq_iff next_id_def)
  ultimately show ?thesis unfolding main_allowed_def by (intro ext) simp
qed

lemma verify_set_ok:
  assumes "relations_ok w" "\<forall>x. ends (x_step w) x" "in_group (cl w this) \<noteq> None"
  shows "\<exists>v. (do { (new, w) \<leftarrow> verifyTransientFor this x set_property w; setTransient this new w }) = Some v \<and>
    relations_ok v \<and>
    (mains v this = None \<or> m_transientForId (cl v this) = m_transientForId (cl w this) \<or>
     in_group (cl v this) = in_group (cl v (the (mains v this))))"
proof -
  note o = assms(1) [unfolded relations_ok_def]
  have ids: "\<forall>x. ends (next_id w) x" "findClient w WINDOW_NONE = None" "findClient w (root_window w) = None"
    using o by blast+
  obtain r p where r: "verifyTransientFor this x set_property w =
      Some (r, if p = None then w else do_call (SetTransientForProperty (window (cl w this)) (the p)) w)"
    "main_allowed w this r"
    using verifyTransientFor_result [OF ids(1) assms(2) ids(2,3)] by blast
  define u where "u = (if p = None then w else do_call (SetTransientForProperty (window (cl w this)) (the p)) w)"
  have "relations_ok u" "in_group (cl u this) \<noteq> None" "main_allowed u this r"
    using assms(1,3) r(2) by (simp_all add: u_def relations_call)
  from setTransient_ok [OF this] obtain v where v: "setTransient this r u = Some v" "relations_ok v"
    "m_transientForId (cl v this) = r" "r \<noteq> m_transientForId (cl u this) \<longrightarrow>
      (\<forall>t. mains v this = Some t \<longrightarrow> in_group (cl v this) = in_group (cl v t))" by blast
  have "m_transientForId (cl u this) = m_transientForId (cl w this)" by (simp add: u_def)
  with v r(1) show ?thesis by (auto simp: u_def [symmetric])
qed

section \<open>A window goes\<close>

definition release_transients :: "win \<Rightarrow> group_world \<Rightarrow> group_world" where
  "release_transients this w = w\<lparr>cl := \<lambda>c. (cl w c)
     \<lparr>m_transients := (if c = this then filter (\<lambda>d. mains w d \<noteq> Some this) (lists w c) else lists w c),
      m_transientFor := (if mains w c = Some this \<and> c \<in> set (lists w this) then None else mains w c)\<rparr>\<rparr>"

lemma release_nothing:
  assumes "\<forall>c\<in>set (lists w this). mains w c \<noteq> Some this"
  shows "release_transients this w = w"
proof -
  have "filter (\<lambda>d. mains w d \<noteq> Some this) (lists w this) = lists w this" using assms by (simp add: filter_id_conv)
  moreover have "(if mains w c = Some this \<and> c \<in> set (lists w this) then None else mains w c) = mains w c" for c
    using assms by auto
  ultimately have "cl (release_transients this w) = cl w" by (auto simp: release_transients_def)
  then show ?thesis by (cases w) (simp add: release_transients_def)
qed

lemma release_one:
  assumes "c \<in> set (lists w this)" "mains w c = Some this"
  shows "release_transients this (removeTransient this c w) = release_transients this w"
proof -
  define v where "v = removeTransient this c w"
  have v: "v = upd_cl c (\<lambda>r. r\<lparr>m_transientFor := None\<rparr>)
      (upd_cl this (\<lambda>r. r\<lparr>m_transients := removeAll c (m_transients r)\<rparr>) w)"
    using assms(2)
    by (cases "c = this") (simp_all add: v_def removeTransient_def removeTransientBase_def Let_def)
  have l: "lists v d = (if d = this then removeAll c (lists w this) else lists w d)" for d by (simp add: v)
  have m: "mains v d = (if d = c then None else mains w d)" for d by (simp add: v)
  have e: "(cl v d)\<lparr>m_transients := A, m_transientFor := B\<rparr> = (cl w d)\<lparr>m_transients := A, m_transientFor := B\<rparr>"
    for d A B by (simp add: v)
  have f: "filter (\<lambda>d. mains v d \<noteq> Some this) (lists v this) = filter (\<lambda>d. mains w d \<noteq> Some this) (lists w this)"
    using assms(2) unfolding l m removeAll_filter_not_eq filter_filter by (simp, intro filter_cong) auto
  have g: "(if mains v d = Some this \<and> d \<in> set (lists v this) then None else mains v d) =
      (if mains w d = Some this \<and> d \<in> set (lists w this) then None else mains w d)" for d
    unfolding l m using assms by (cases "d = c") simp_all
  have h: "(if d = this then filter (\<lambda>x. mains v x \<noteq> Some this) (lists v d) else lists v d) =
      (if d = this then filter (\<lambda>x. mains w x \<noteq> Some this) (lists w d) else lists w d)" for d
    using f by (simp add: l)
  have "cl (release_transients this v) d = cl (release_transients this w) d" for d
  proof -
    have "cl (release_transients this v) d = (cl v d)
        \<lparr>m_transients := (if d = this then filter (\<lambda>x. mains v x \<noteq> Some this) (lists v d) else lists v d),
         m_transientFor := (if mains v d = Some this \<and> d \<in> set (lists v this) then None else mains v d)\<rparr>"
      unfolding release_transients_def by simp
    also have "\<dots> = cl (release_transients this w) d"
      unfolding h g e release_transients_def by simp
    finally show ?thesis .
  qed
  then have "cl (release_transients this v) = cl (release_transients this w)" by (rule ext)
  then show ?thesis unfolding v_def [symmetric] by (simp add: release_transients_def v upd_cl_def)
qed

lemma dropTransients_release:
  assumes "\<forall>c\<in>set (take i (lists w this)). mains w c \<noteq> Some this"
  shows "dropTransients this i w = release_transients this w"
  using assms
proof (induction this i w rule: dropTransients.induct)
  case (1 this i w)
  let ?ts = "lists w this"
  consider (stop) "i \<ge> length ?ts" | (drop) "i < length ?ts" "mains w (?ts ! i) = Some this"
    | (keep) "i < length ?ts" "mains w (?ts ! i) \<noteq> Some this" by linarith
  then show ?case
  proof cases
    case stop
    then show ?thesis using "1.prems" by (subst dropTransients.simps) (simp add: release_nothing)
  next
    case drop
    then have "dropTransients this 0 (removeTransient this (?ts ! i) w) =
        release_transients this (removeTransient this (?ts ! i) w)" using "1.IH"(1) [OF refl] by simp
    moreover have "dropTransients this i w = dropTransients this 0 (removeTransient this (?ts ! i) w)"
      using drop by (subst dropTransients.simps) (simp only: Let_def not_le if_not_P if_P)
    ultimately show ?thesis using release_one [OF nth_mem [OF drop(1)] drop(2)] by simp
  next
    case keep
    then have "take (i + 1) ?ts = take i ?ts @ [?ts ! i]" by (simp add: take_Suc_conv_app_nth)
    with keep "1.prems" have "dropTransients this (i + 1) w = release_transients this w"
      by (intro "1.IH"(2)) auto
    with keep show ?thesis by (subst dropTransients.simps) simp
  qed
qed

text \<open>\<open>removeClient\<close> takes the window off the lists of windows afterwards.\<close>

definition forget_window :: "win \<Rightarrow> group_world \<Rightarrow> group_world" where
  "forget_window this w =
     w\<lparr>clients := removeAll this (clients w), desktops := removeAll this (desktops w)\<rparr>"

lemma forget_window_sel [simp]:
  "cl (forget_window this w) = cl w" "grp (forget_window this w) = grp w" "groups (forget_window this w) = groups w"
  "root_window (forget_window this w) = root_window w" "next_group (forget_window this w) = next_group w"
  "check_active_modal (forget_window this w) = check_active_modal w"
  "known_windows (forget_window this w) = removeAll this (known_windows w)"
  by (simp_all add: forget_window_def known_windows_def)

lemma find_removeAll: "find P xs = r \<Longrightarrow> r \<noteq> Some a \<Longrightarrow> find P (removeAll a xs) = r"
  by (induction xs) (auto split: if_splits)

lemma ends_fewer: "ends f x \<Longrightarrow> (\<And>y. g y = f y \<or> g y = None) \<Longrightarrow> ends g x"
proof (induction rule: ends.induct)
  case (up x m)
  then have gm: "ends g m" by blast
  show ?case
  proof (cases "g x")
    case None
    then show ?thesis by (rule ends.top)
  next
    case (Some a)
    then have "g x = Some m" using up.prems [of x] up.hyps(1) by simp
    then show ?thesis using gm by (rule ends.up [of g x m])
  qed
qed (metis ends.top)

text \<open>What is left of the session, seen from the session before.\<close>

lemma cleanGrouping_state:
  assumes ok: "relations_ok w" and g: "in_group (cl w this) = Some g"
  shows "\<exists>v. cleanGrouping this w = Some v \<and> members_ok (\<lambda>_. 0) v \<and>
    group_of v = (group_of w)(this := None) \<and>
    (\<forall>c. mains v c = (if c = this \<or> mains w c = Some this then None else mains w c)) \<and>
    (\<forall>c. m_transientForId (cl v c) = (if c = this then WINDOW_NONE else m_transientForId (cl w c))) \<and>
    (\<forall>c. window (cl v c) = window (cl w c) \<and> kind (cl v c) = kind (cl w c) \<and> m_modal (cl v c) = m_modal (cl w c)) \<and>
    (\<forall>m. in_group (cl w m) \<noteq> None \<longrightarrow> m \<noteq> this \<longrightarrow> this \<notin> set (lists v m) \<and>
      (lists v m = lists w m \<or> lists v m = removeAll this (lists w m))) \<and>
    root_window v = root_window w \<and> known_windows v = known_windows w \<and> clients v = clients w \<and>
    desktops v = desktops w \<and> check_active_modal v = check_active_modal w"
proof -
  have gok: "grouping_ok w" using ok by (simp add: relations_ok_def)
  have mem: "members_ok (\<lambda>_. 0) w" and mok: "mains_ok (group_of w) w" and lok: "lists_ok (group_of w) w"
    using gok by (simp_all add: grouping_ok_def)
  obtain L where L: "removeFromMainClients this w = Some (relink L this (m_transientForId (cl w this)) None w)"
    "off_lists this w L" using removeFromMainClients_off [OF gok, of this] g by auto
  define u where "u = relink L this (m_transientForId (cl w this)) None w"
  define r where "r = release_transients this u"
  have drop: "dropTransients this 0 u = r" unfolding r_def by (rule dropTransients_release) simp
  have ru: "mains r c = (if mains u c = Some this \<and> c \<in> set (lists u this) then None else mains u c)"
    "lists r c = (if c = this then filter (\<lambda>d. mains u d \<noteq> Some this) (lists u c) else lists u c)"
    "in_group (cl r c) = in_group (cl u c)" "m_transientForId (cl r c) = m_transientForId (cl u c)"
    "window (cl r c) = window (cl u c)" "kind (cl r c) = kind (cl u c)" "m_modal (cl r c) = m_modal (cl u c)"
    "grp r = grp u" "groups r = groups u" "next_group r = next_group u" "root_window r = root_window u"
    "clients r = clients u" "desktops r = desktops u" "check_active_modal r = check_active_modal u" for c
    by (simp_all add: r_def release_transients_def)
  have inl: "c \<in> set (L this)" if "mains w c = Some this" "c \<noteq> this" for c
  proof -
    have "c \<in> set (lists w this)" using mok that(1) unfolding mains_ok_def by blast
    moreover have "L this = lists w this \<or> L this = removeAll this (lists w this)"
      using L(2) unfolding off_lists_def by blast
    ultimately show ?thesis using that(2) by auto
  qed
  have mr: "mains r c = (if c = this \<or> mains w c = Some this then None else mains w c)" for c
    using inl [of c] by (simp add: ru(1)) (simp add: u_def)
  have gr: "in_group (cl r c) = in_group (cl w c)" for c by (simp add: ru(3)) (simp add: u_def)
  have memr: "members_ok (\<lambda>_. 0) r" using mem unfolding members_ok_def gr ru(8-10) by (simp add: u_def)
  have g2: "in_group (cl r this) = Some g" using g by (simp add: gr)
  obtain s where s: "removeMember g this r = Some s" "cl s = cl r"
    "members_ok (\<lambda>_. 0) (upd_cl this (\<lambda>r. r\<lparr>in_group := None\<rparr>) s)" using removeMember_ok [OF memr g2] by blast
  define y where "y = upd_cl this (\<lambda>r. r\<lparr>in_group := None\<rparr>) s"
  have sf: "root_window s = root_window r" "clients s = clients r" "desktops s = desktops r"
    "check_active_modal s = check_active_modal r"
    using s(1) by (auto simp: removeMember_def split: if_splits)
  have ycl: "mains y c = mains r c" "lists y c = lists r c" "in_group (cl y c) = (if c = this then None else in_group (cl r c))"
    "m_transientForId (cl y c) = m_transientForId (cl r c)" "window (cl y c) = window (cl r c)"
    "kind (cl y c) = kind (cl r c)" "m_modal (cl y c) = m_modal (cl r c)" for c
    by (simp_all add: y_def s(2))
  define ms where "ms = gr_members (grp r g)"
  have "mains y this = None" by (simp add: ycl mr)
  note rt = removeTransient_from_lists [OF this, of ms]
  define z where "z = with_lists (\<lambda>m. if m \<in> set ms then removeAll this (lists y m) else lists y m) y"
  have run: "cleanGrouping this w = Some (upd_cl this (\<lambda>r. r\<lparr>m_transientForId := WINDOW_NONE\<rparr>) z)"
    using L(1) g2 s(1) rt
    by (simp add: cleanGrouping_def u_def [symmetric] drop Let_def ms_def [symmetric] y_def [symmetric] z_def)
  have "members_ok (\<lambda>_. 0) z"
    using members_ok_relists [OF s(3) [folded y_def]] by (simp add: z_def)
  then have memv: "members_ok (\<lambda>_. 0) (upd_cl this (\<lambda>r. r\<lparr>m_transientForId := WINDOW_NONE\<rparr>) z)"
    unfolding members_ok_def by (simp add: upd_cl_def)
  have lz: "this \<notin> set (lists z m) \<and> (lists z m = lists w m \<or> lists z m = removeAll this (lists w m))"
    if "in_group (cl w m) \<noteq> None" "m \<noteq> this" for m
  proof -
    have "this \<notin> set (L m)" "L m = lists w m \<or> L m = removeAll this (lists w m)"
      using L(2) that(1) unfolding off_lists_def by blast+
    moreover have "lists z m = (if m \<in> set ms then removeAll this (L m) else L m)"
      using that(2) by (simp add: z_def ycl ru(2)) (simp add: u_def)
    ultimately show ?thesis by (auto simp: removeAll_id)
  qed
  show ?thesis
    by (rule exI [of _ "upd_cl this (\<lambda>r. r\<lparr>m_transientForId := WINDOW_NONE\<rparr>) z"])
      (use run memv lz in \<open>auto simp: z_def ycl gr mr ru u_def s(2) sf known_windows_def y_def fun_eq_iff\<close>)
qed

text \<open>
  The session without \<open>this\<close>: it is in no group, on no list and nobody's main window, the others
  are as they were.
\<close>

definition without_window :: "win \<Rightarrow> group_world \<Rightarrow> group_world \<Rightarrow> bool" where
  "without_window this w x \<longleftrightarrow>
     (\<forall>c. in_group (cl x c) = (if c = this then None else in_group (cl w c))) \<and>
     (\<forall>c. mains x c = (if c = this \<or> mains w c = Some this then None else mains w c)) \<and>
     (\<forall>c. m_transientForId (cl x c) = (if c = this then WINDOW_NONE else m_transientForId (cl w c))) \<and>
     (\<forall>c. window (cl x c) = window (cl w c) \<and> kind (cl x c) = kind (cl w c) \<and> m_modal (cl x c) = m_modal (cl w c)) \<and>
     (\<forall>m. in_group (cl w m) \<noteq> None \<longrightarrow> m \<noteq> this \<longrightarrow> this \<notin> set (lists x m) \<and>
       (lists x m = lists w m \<or> lists x m = removeAll this (lists w m))) \<and>
     root_window x = root_window w \<and> known_windows x = removeAll this (known_windows w) \<and>
     check_active_modal x = check_active_modal w"

lemma without_windowD:
  assumes "without_window this w x"
  shows "in_group (cl x c) = (if c = this then None else in_group (cl w c))"
    "mains x c = (if c = this \<or> mains w c = Some this then None else mains w c)"
    "m_transientForId (cl x c) = (if c = this then WINDOW_NONE else m_transientForId (cl w c))"
    "window (cl x c) = window (cl w c)" "kind (cl x c) = kind (cl w c)" "m_modal (cl x c) = m_modal (cl w c)"
    "root_window x = root_window w" "known_windows x = removeAll this (known_windows w)"
    "check_active_modal x = check_active_modal w"
  using assms unfolding without_window_def by blast+

lemma without_window_list:
  assumes "without_window this w x" "in_group (cl w m) \<noteq> None" "m \<noteq> this"
  shows "this \<notin> set (lists x m) \<and> (lists x m = lists w m \<or> lists x m = removeAll this (lists w m))"
  using assms unfolding without_window_def by blast

lemma without_window_lists_ok:
  assumes wd: "without_window this w x" and ok: "lists_ok (group_of w) w"
  shows "lists_ok (group_of x) x"
  unfolding lists_ok_def
proof (intro allI impI)
  fix d
  assume "in_group (cl x d) \<noteq> None"
  then have d: "in_group (cl w d) \<noteq> None" "d \<noteq> this" by (auto simp: without_windowD [OF wd] split: if_splits)
  have lw: "distinct (lists w d)" "\<And>c. c \<in> set (lists w d) \<Longrightarrow> in_group (cl w c) \<noteq> None \<and> c \<noteq> d \<and>
      (mains w c = Some d \<or> mains w c = None \<and> groupTransient w c \<and> in_group (cl w c) = in_group (cl w d))"
    using ok d(1) unfolding lists_ok_def by blast+
  note ld = without_window_list [OF wd d]
  have "in_group (cl x c) \<noteq> None \<and> c \<noteq> d \<and>
      (mains x c = Some d \<or> mains x c = None \<and> groupTransient x c \<and> in_group (cl x c) = in_group (cl x d))"
    if "c \<in> set (lists x d)" for c
  proof -
    have c: "c \<noteq> this" "c \<in> set (lists w d)" using that ld by auto
    then have "groupTransient x c = groupTransient w c" by (simp add: groupTransient_def without_windowD [OF wd])
    then show ?thesis using lw(2) [OF c(2)] d(2) c(1) by (auto simp: without_windowD [OF wd])
  qed
  moreover have "distinct (lists x d)" using lw(1) ld by (auto simp: distinct_removeAll)
  ultimately show "distinct (lists x d) \<and> (\<forall>c\<in>set (lists x d). in_group (cl x c) \<noteq> None \<and> c \<noteq> d \<and>
      (mains x c = Some d \<or> mains x c = None \<and> groupTransient x c \<and> in_group (cl x c) = in_group (cl x d)))"
    by blast
qed

lemma without_window_main:
  assumes wd: "without_window this w x" and ok: "mains_ok (group_of w) w" and m: "mains x c = Some d"
  shows "mains w c = Some d" "c \<noteq> this" "d \<noteq> this" "in_group (cl w c) \<noteq> None" "in_group (cl w d) \<noteq> None"
    "c \<in> set (lists w d)" "m_transientForId (cl w c) = window (cl w d)" "window (cl w d) \<noteq> root_window w"
proof -
  show *: "mains w c = Some d" "c \<noteq> this" "d \<noteq> this" using m by (auto simp: without_windowD [OF wd] split: if_splits)
  show "in_group (cl w c) \<noteq> None" "in_group (cl w d) \<noteq> None" "c \<in> set (lists w d)"
    "m_transientForId (cl w c) = window (cl w d)" "window (cl w d) \<noteq> root_window w"
    using ok *(1) unfolding mains_ok_def by blast+
qed

lemma without_window_mains_ok:
  assumes wd: "without_window this w x" and ok: "mains_ok (group_of w) w"
  shows "mains_ok (group_of x) x"
  unfolding mains_ok_def
proof (intro conjI allI impI)
  fix c d
  assume "mains x c = Some d"
  note o = without_window_main [OF wd ok this]
  show "in_group (cl x c) \<noteq> None" "in_group (cl x d) \<noteq> None" using o by (simp_all add: without_windowD [OF wd])
  show "c \<in> set (lists x d)" using without_window_list [OF wd, of d] o by auto
  show "m_transientForId (cl x c) = window (cl x d)" "window (cl x d) \<noteq> root_window x"
    using o by (simp_all add: without_windowD [OF wd])
next
  fix c
  have "ends (mains w) c" using ok unfolding mains_ok_def by blast
  then show "ends (mains x) c" by (rule ends_fewer) (simp add: without_windowD(2) [OF wd])
qed

lemma without_window_find:
  assumes wd: "without_window this w x" and ok: "\<forall>p\<in>set (known_windows w). findClient w (window (cl w p)) = Some p"
  shows "findClient x q = (if findClient w q = Some this then None else findClient w q)"
proof (cases "findClient w q = Some this")
  case True
  have "p = this" if "p \<in> set (known_windows w)" "window (cl w p) = q" for p
    using ok that True by auto
  then have "find (\<lambda>c. window (cl x c) = q) (removeAll this (known_windows w)) = None"
    by (auto simp: find_None_iff without_windowD [OF wd])
  then show ?thesis using True by (simp add: findClient_def without_windowD [OF wd])
next
  case False
  then show ?thesis using find_removeAll [OF refl, of "\<lambda>c. window (cl w c) = q" "known_windows w" this]
    by (simp add: findClient_def without_windowD [OF wd])
qed

lemma without_window_relations_ok:
  assumes wd: "without_window this w x" and ok: "relations_ok w" and mem: "members_ok (\<lambda>_. 0) x"
  shows "relations_ok x"
proof -
  note o = ok [unfolded relations_ok_def]
  note gok = o [THEN conjunct1, unfolded grouping_ok_def]
  have known: "\<forall>p\<in>set (known_windows w). findClient w (window (cl w p)) = Some p" using o by blast
  note fc = without_window_find [OF wd known]
  have mok: "mains_ok (group_of w) w" using gok by blast
  have "session_ok x"
    using gok unfolding session_ok_def isClient_def by (simp add: without_windowD [OF wd])
  moreover have "lists_ok (group_of x) x" using gok by (intro without_window_lists_ok [OF wd]) blast
  ultimately have "grouping_ok x"
    using without_window_mains_ok [OF wd mok] mem by (simp add: grouping_ok_def)
  moreover have "mains_known x"
    unfolding mains_known_def
  proof (intro allI impI)
    fix c d
    assume "mains x c = Some d"
    note o' = without_window_main [OF wd mok this]
    have "findClient w (window (cl w d)) = Some d \<and> window (cl w d) \<noteq> WINDOW_NONE"
      using o o'(1) unfolding mains_known_def by blast
    then show "findClient x (window (cl x d)) = Some d \<and> window (cl x d) \<noteq> WINDOW_NONE"
      using o'(3) by (simp add: fc without_windowD [OF wd])
  qed
  moreover have "ends (next_id x) q" for q
  proof (rule ends_fewer)
    show "ends (next_id w) q" using o by blast
    show "next_id x y = next_id w y \<or> next_id x y = None" for y
      by (cases "findClient w y") (auto simp: next_id_def fc without_windowD [OF wd])
  qed
  moreover have "\<forall>p\<in>set (known_windows x). in_group (cl x p) \<noteq> None \<and> findClient x (window (cl x p)) = Some p"
    using o by (auto simp: fc without_windowD [OF wd])
  ultimately show ?thesis
    using o by (simp add: relations_ok_def fc without_windowD [OF wd])
qed

text \<open>C4: Taking a window out of the grouping when it goes (\<open>cleanGrouping\<close>) runs into no assertion and
  leaves groups, lists of transients and main windows consistent: the window is in no group, on
  no list and nobody's main window any more.\<close>

theorem cleanGrouping_keeps_relations:
  assumes "relations_ok w" "in_group (cl w this) \<noteq> None"
  shows "\<exists>v. cleanGrouping this w = Some v \<and> relations_ok (forget_window this v) \<and>
    in_group (cl v this) = None \<and>
    (\<forall>m. mains v m \<noteq> Some this) \<and> (\<forall>m. in_group (cl v m) \<noteq> None \<longrightarrow> this \<notin> set (lists v m))"
proof -
  obtain g where g: "in_group (cl w this) = Some g" using assms(2) by blast
  from cleanGrouping_state [OF assms(1) g] obtain v where v: "cleanGrouping this w = Some v" "members_ok (\<lambda>_. 0) v"
    "group_of v = (group_of w)(this := None)"
    "\<forall>c. mains v c = (if c = this \<or> mains w c = Some this then None else mains w c)"
    "\<forall>c. m_transientForId (cl v c) = (if c = this then WINDOW_NONE else m_transientForId (cl w c))"
    "\<forall>c. window (cl v c) = window (cl w c) \<and> kind (cl v c) = kind (cl w c) \<and> m_modal (cl v c) = m_modal (cl w c)"
    "\<forall>m. in_group (cl w m) \<noteq> None \<longrightarrow> m \<noteq> this \<longrightarrow> this \<notin> set (lists v m) \<and>
      (lists v m = lists w m \<or> lists v m = removeAll this (lists w m))"
    "root_window v = root_window w" "known_windows v = known_windows w"
    "check_active_modal v = check_active_modal w" by (elim exE conjE)
  note run = v(1) and mem = v(2)
  have "in_group (cl v c) = (if c = this then None else in_group (cl w c))" for c
    using fun_cong [OF v(3), of c] by simp
  then have wd: "without_window this w (forget_window this v)"
    unfolding without_window_def forget_window_sel using v(4-) by (intro conjI) simp_all
  have "members_ok (\<lambda>_. 0) (forget_window this v)" using mem by (simp add: members_ok_def)
  then have "relations_ok (forget_window this v)" by (rule without_window_relations_ok [OF wd assms(1)])
  moreover have "mains v d \<noteq> Some this" for d using without_windowD(2) [OF wd, of d] by simp
  moreover have "this \<notin> set (lists v d)" if "in_group (cl v d) \<noteq> None" for d
    using without_window_list [OF wd, of d] without_windowD(1) [OF wd, of d] that by (simp split: if_splits)
  ultimately show ?thesis using run without_windowD(1) [OF wd, of this] by simp
qed

section \<open>Where the code fails\<close>

text \<open>The loop detection does not leave a loop it has detected.\<close>

lemma detectLoop_stuck:
  assumes "\<forall>q\<in>S. q \<noteq> WINDOW_NONE \<and> q \<noteq> root_window w \<and>
      (\<exists>p. findClient w q = Some p \<and> m_transientForId (cl w p) \<in> S)" "pos \<in> S"
  shows "detectLoop w this n pos new = None"
proof (cases "detectLoop w this n pos new")
  case (Some r)
  let ?P = "\<lambda>w' this n pos new r. w' = w \<longrightarrow> pos \<notin> S"
  have step: "?P w' this n pos new r"
    if IH: "\<And>w' this n pos new r. detect w' this n pos new = Some r \<Longrightarrow> ?P w' this n pos new r"
      and body: "(if pos \<noteq> WINDOW_NONE \<and> pos \<noteq> root_window w'
        then case findClient w' pos of None \<Rightarrow> Some new
          | Some p \<Rightarrow> detect w' this (n - 1) (m_transientForId (cl w' p))
              (if n - 1 = 0 \<or> p = this then root_window w' else new)
        else Some new) = Some r" for detect w' this n pos new r
  proof (intro impI notI)
    assume w: "w' = w" and pos: "pos \<in> S"
    with assms(1) obtain p where p: "findClient w pos = Some p" "m_transientForId (cl w p) \<in> S"
      "pos \<noteq> WINDOW_NONE" "pos \<noteq> root_window w" by blast
    then have "detect w' this (n - 1) (m_transientForId (cl w p))
        (if n - 1 = 0 \<or> p = this then root_window w else new) = Some r"
      using body unfolding w by simp
    then show False using IH p(2) w by blast
  qed
  have "?P w this n pos new r"
    by (rule detectLoop.raw_induct [where P = ?P, OF step Some])
  with assms(2) show ?thesis by blast
qed simp

text \<open>A dialog whose main window was withdrawn keeps the id of it (\<open>removeTransient\<close> does not clear
  it).  If the window comes back as a transient of the dialog, the two ids are a loop, and the
  check whether the window that came back is the main window of the dialog does not return.\<close>

lemma stale_main_loops:
  assumes "m_originalTransientForId (cl w this) = x" "m_transientForId (cl w this) = x"
    and "findClient w x = Some p" "m_transientForId (cl w p) = window (cl w this)"
    and "findClient w (window (cl w this)) = Some this"
    and "x \<noteq> WINDOW_NONE" "x \<noteq> root_window w" "window (cl w this) \<noteq> WINDOW_NONE"
    "window (cl w this) \<noteq> root_window w" "x \<noteq> window (cl w this)"
  shows "checkTransient this x w = None"
proof -
  have "detectLoop w this 20 x x = None"
    by (rule detectLoop_stuck [where S = "{x, window (cl w this)}"]) (use assms in auto)
  moreover have "managedAncestor w x = Some x"
    using assms(3) by (subst managedAncestor.simps) simp
  ultimately have "verifyTransientFor this x True w = None"
    using assms(3,6,7,10) by (simp add: verifyTransientFor_def Let_def)
  then show ?thesis using assms(1) by (simp add: checkTransient_def)
qed

text \<open>\<open>findModal\<close> does not end on lists of transients that lead back to the window.\<close>

lemma findModal_circle:
  assumes "\<forall>c\<in>S. \<exists>t ts. lists w c = t # ts \<and> t \<in> S" "c \<in> S"
  shows "findModal n w c allow_itself = None"
  using assms(2)
proof (induction n arbitrary: c allow_itself)
  case (Suc n)
  obtain t ts where t: "lists w c = t # ts" "t \<in> S" using assms(1) Suc.prems by blast
  then show ?case using Suc.IH [OF t(2)] by simp
qed simp

section \<open>Sessions to evaluate\<close>

text \<open>A session without windows, and what becomes of it when windows are mapped: \<open>c\<close> is the new
  client, of the X window \<open>x\<close> with the group leader \<open>leader\<close>.\<close>

definition bare_session :: group_world where
  "bare_session = world.extend
     (empty_session\<lparr>cl := \<lambda>_. plain_client\<lparr>in_group := None\<rparr>,
        grp := \<lambda>_. \<lparr>gr_members = [], leader_wid = 0, leader_client = None, refcount = 0, group_time = 0\<rparr>\<rparr>)
     \<lparr>managed = \<lambda>_. True, check_active_modal = False, next_group = 0, x_parent = \<lambda>_. None\<rparr>"

definition map_window :: "win \<Rightarrow> xid \<Rightarrow> xid \<Rightarrow> xid option \<Rightarrow> group_world \<Rightarrow> group_world option" where
  "map_window c x leader property w =
     do {
       w \<leftarrow> manage_groups c property
         (upd_cl c (\<lambda>_. plain_client\<lparr>window := x, wmClientLeader := x, in_group := None, groupLeader := leader\<rparr>) w);
       addClient_groups c w
     }"

definition unmap_window :: "win \<Rightarrow> group_world \<Rightarrow> group_world option" where
  "unmap_window c w = do { w \<leftarrow> cleanGrouping c w; removeClient_groups c w }"

text \<open>A main window and its dialog; the main window is withdrawn; it is managed again, now as a
  transient of the dialog.\<close>

definition withdrawn :: "group_world option" where
  "withdrawn = do {
     w \<leftarrow> map_window 1 11 0 None bare_session;
     w \<leftarrow> map_window 2 12 0 (Some 11) w;
     w \<leftarrow> unmap_window 1 w;
     manage_groups 3 (Some 12)
       (upd_cl 3 (\<lambda>_. plain_client\<lparr>window := 11, wmClientLeader := 11, in_group := None\<rparr>) w)
   }"

text \<open>Four windows of one group, as mapping them one after the other leaves them: \<open>2\<close> and \<open>4\<close> are
  group transients and \<open>3\<close> is a dialog of \<open>2\<close>.\<close>

definition four_windows :: group_world where
  "four_windows = bare_session\<lparr>
     cl := (\<lambda>c.
       if c = 1 then plain_client\<lparr>window := 11, groupLeader := 50, m_transients := [2]\<rparr>
       else if c = 2 then plain_client\<lparr>window := 12, groupLeader := 50, m_transients := [3],
         m_transientForId := 1000, m_originalTransientForId := 1000\<rparr>
       else if c = 3 then plain_client\<lparr>window := 13, groupLeader := 50, m_transients := [4],
         m_transientForId := 12, m_originalTransientForId := 12, m_transientFor := Some 2\<rparr>
       else if c = 4 then plain_client\<lparr>window := 14, groupLeader := 50,
         m_transientForId := 1000, m_originalTransientForId := 1000\<rparr>
       else plain_client\<lparr>in_group := None\<rparr>),
     grp := (\<lambda>g. \<lparr>gr_members = if g = 0 then [1, 2, 3, 4] else [], leader_wid = if g = 0 then 50 else 0,
       leader_client = None, refcount = 0, group_time = 0\<rparr>),
     groups := [0], next_group := 1, clients := [1, 2, 3, 4]\<rparr>"

text \<open>A dialog alone in its group.\<close>

definition one_window :: group_world where
  "one_window = bare_session\<lparr>
     cl := (\<lambda>c. plain_client\<lparr>window := 11, in_group := if c = 1 then Some 0 else None\<rparr>),
     grp := (\<lambda>g. \<lparr>gr_members = if g = 0 then [1] else [], leader_wid = 0, leader_client = None,
       refcount = 0, group_time = 0\<rparr>),
     groups := [0], next_group := 1, clients := [1]\<rparr>"

lemma one_window_sel:
  "lists one_window c = []" "mains one_window c = None" "window (cl one_window c) = 11"
  "in_group (cl one_window c) = (if c = 1 then Some 0 else None)" "m_transientForId (cl one_window c) = 0"
  "m_modal (cl one_window c) = False" "kind (cl one_window c) = AClient"
  "gr_members (grp one_window g) = (if g = 0 then [1] else [])" "refcount (grp one_window g) = 0"
  "groups one_window = [0]" "next_group one_window = 1" "clients one_window = [1]" "desktops one_window = []"
  "root_window one_window = 1000" "check_active_modal one_window = False" "x_parent one_window = (\<lambda>_. None)"
  by (simp_all add: one_window_def bare_session_def empty_session_def plain_client_def world.defs)

lemma one_window_ok: "relations_ok one_window" "ends (x_step one_window) x"
proof -
  have f: "findClient one_window q = (if q = 11 then Some 1 else None)" for q
    by (auto simp: findClient_def known_windows_def one_window_sel)
  have n: "next_id one_window q = (if q = 11 then Some 0 else None)" for q
    by (simp add: next_id_def f one_window_sel WINDOW_NONE_def)
  have "ends (next_id one_window) 0" by (rule ends.top) (simp add: n)
  then have "ends (next_id one_window) q" for q
    by (cases "q = 11") (auto intro: ends.intros simp: n)
  then have e: "\<forall>q. ends (next_id one_window) q" by blast
  have "members_ok (\<lambda>_. 0) one_window" by (rule members_okI) (auto simp: one_window_sel split: if_splits)
  then show "relations_ok one_window"
    using e unfolding relations_ok_def grouping_ok_def lists_ok_def mains_ok_def mains_known_def one_window_sel(1,2)
    by (auto simp: session_ok_def isClient_def one_window_sel(3-)
        WINDOW_NONE_def f known_windows_def intro: ends.top)
  show "ends (x_step one_window) x" by (rule ends.top) (simp add: x_step_def one_window_sel)
qed

text \<open>C3: When the \<open>WM_TRANSIENT_FOR\<close> property of a managed window changes, to any value, the check of
  the property returns, no assertion fails, and groups, lists of transients and main windows stay
  consistent; the walk up the main windows still ends for every window, and a window that got a
  main window is in the group of it.  The session has no stale id and no modal window.\<close>

theorem readTransientProperty_keeps_relations:
  assumes "relations_ok w" "\<forall>x. ends (x_step w) x" "in_group (cl w this) \<noteq> None"
  shows "\<exists>v. readTransientProperty this property w = Some v \<and> relations_ok v \<and>
    (\<forall>c. ends (mains v) c) \<and>
    (mains v this = None \<or> m_transientForId (cl v this) = m_transientForId (cl w this) \<or>
     in_group (cl v this) = in_group (cl v (the (mains v this))))"
proof -
  define x where "x = (case property of None \<Rightarrow> WINDOW_NONE | Some x \<Rightarrow> x)"
  define u where "u = upd_cl this (\<lambda>r. r\<lparr>m_originalTransientForId := x\<rparr>) w"
  note u = original_id_ok [OF assms(1), of this x, folded u_def]
  have "\<forall>x. ends (x_step u) x" "in_group (cl u this) \<noteq> None" using assms(2,3) by (simp_all add: u)
  from verify_set_ok [OF u(1) this, of x "property \<noteq> None"] obtain v where
    v: "readTransientProperty this property w = Some v" "relations_ok v"
      "mains v this = None \<or> m_transientForId (cl v this) = m_transientForId (cl w this) \<or>
       in_group (cl v this) = in_group (cl v (the (mains v this)))"
    by (auto simp: readTransientProperty_def x_def [symmetric] u_def [symmetric] u(4))
  then have "\<forall>c. ends (mains v) c" by (simp add: relations_ok_def grouping_ok_def mains_ok_def)
  with v show ?thesis by blast
qed

theorem readTransientProperty_keeps_relations_witness:
  "\<exists>v. readTransientProperty 1 (Some 1000) one_window = Some v \<and> relations_ok v"
proof -
  have "in_group (cl one_window 1) \<noteq> None" by (simp add: one_window_sel)
  from readTransientProperty_keeps_relations [OF one_window_ok(1) _ this, of "Some 1000"] one_window_ok(2)
  show ?thesis by blast
qed

theorem cleanGrouping_keeps_relations_witness:
  "\<exists>v. cleanGrouping 1 one_window = Some v \<and> relations_ok (forget_window 1 v)"
proof -
  have "in_group (cl one_window 1) \<noteq> None" by (simp add: one_window_sel)
  from cleanGrouping_keeps_relations [OF one_window_ok(1) this] show ?thesis by blast
qed

text \<open>C6: A dialog keeps the id of a main window that was withdrawn.  When that window comes back as
  a transient of the dialog, \<open>checkTransient\<close> does not return: the loop detection of
  \<open>verifyTransientFor\<close> notices the loop, and goes on around it.\<close>

theorem returning_main_window_hangs:
  assumes "m_originalTransientForId (cl w this) = x" "m_transientForId (cl w this) = x"
    and "findClient w x = Some p" "m_transientForId (cl w p) = window (cl w this)"
    and "findClient w (window (cl w this)) = Some this"
    and "x \<notin> {WINDOW_NONE, root_window w, window (cl w this)}"
    "window (cl w this) \<notin> {WINDOW_NONE, root_window w}"
  shows "checkTransient this x w = None"
  by (rule stale_main_loops) (use assms in auto)

lemma withdrawn_state:
  "map_option (\<lambda>w. (map (\<lambda>c. (window (cl w c), m_transientForId (cl w c), m_originalTransientForId (cl w c))) [2, 3],
     clients w, desktops w, root_window w)) withdrawn = Some ([(12, 11, 11), (11, 12, 12)], [2], [], 1000)"
  by code_simp

theorem returning_main_window_hangs_witness:
  "\<exists>w. withdrawn = Some w \<and> checkTransients 11 (w\<lparr>clients := clients w @ [3]\<rparr>) = None"
proof -
  obtain w where w: "withdrawn = Some w" "clients w = [2]" "desktops w = []" "root_window w = 1000"
    "window (cl w 2) = 12" "m_transientForId (cl w 2) = 11" "m_originalTransientForId (cl w 2) = 11"
    "window (cl w 3) = 11" "m_transientForId (cl w 3) = 12"
    using withdrawn_state by auto
  let ?w = "w\<lparr>clients := clients w @ [3]\<rparr>"
  have "checkTransient 2 11 ?w = None"
    by (rule returning_main_window_hangs [where p = 3])
      (simp_all add: w findClient_def known_windows_def WINDOW_NONE_def)
  then have "checkTransients 11 ?w = None" by (simp add: checkTransients_def w(2))
  with w(1) show ?thesis by blast
qed

lemma four_windows_sel:
  "lists four_windows c = (if c = 1 then [2] else if c = 2 then [3] else if c = 3 then [4] else [])"
  "mains four_windows c = (if c = 3 then Some 2 else None)"
  "window (cl four_windows c) = (if c \<in> {1, 2, 3, 4} then c + 10 else 1)"
  "in_group (cl four_windows c) = (if c \<in> {1, 2, 3, 4} then Some 0 else None)"
  "m_transientForId (cl four_windows c) = (if c = 2 \<or> c = 4 then 1000 else if c = 3 then 12 else 0)"
  "m_modal (cl four_windows c) = False" "kind (cl four_windows c) = AClient"
  "gr_members (grp four_windows g) = (if g = 0 then [1, 2, 3, 4] else [])" "refcount (grp four_windows g) = 0"
  "groups four_windows = [0]" "next_group four_windows = 1" "clients four_windows = [1, 2, 3, 4]"
  "desktops four_windows = []" "root_window four_windows = 1000" "check_active_modal four_windows = False"
  "x_parent four_windows = (\<lambda>_. None)"
  by (simp_all add: four_windows_def bare_session_def empty_session_def plain_client_def world.defs)

lemma four_windows_ok: "relations_ok four_windows"
proof -
  have f: "findClient four_windows q = (if q \<in> {11, 12, 13, 14} then Some (q - 10) else None)" for q
    by (auto simp: findClient_def known_windows_def four_windows_sel)
  have n: "next_id four_windows q = (if q = 13 then Some 12 else if q \<in> {12, 14} then Some 1000
      else if q = 11 then Some 0 else None)" for q
    by (auto simp: next_id_def f four_windows_sel WINDOW_NONE_def)
  have e: "ends (next_id four_windows) q" for q
  proof -
    have t: "ends (next_id four_windows) 0" "ends (next_id four_windows) 1000" by (rule ends.top, simp add: n)+
    then have "ends (next_id four_windows) 12" by (intro ends.up [of "next_id four_windows" 12 1000]) (simp_all add: n)
    then show ?thesis using t by (cases "next_id four_windows q") (auto intro: ends.intros simp: n split: if_splits)
  qed
  have m: "ends (mains four_windows) c" for c
  proof -
    have "ends (mains four_windows) 2" by (rule ends.top) (simp add: four_windows_sel)
    then show ?thesis by (cases "c = 3") (auto intro: ends.intros simp: four_windows_sel)
  qed
  have "members_ok (\<lambda>_. 0) four_windows" by (rule members_okI) (auto simp: four_windows_sel split: if_splits)
  moreover have "lists_ok (group_of four_windows) four_windows"
    unfolding lists_ok_def groupTransient_def four_windows_sel by auto
  moreover have "mains_ok (group_of four_windows) four_windows"
    unfolding mains_ok_def using m by (auto simp: four_windows_sel)
  moreover have "session_ok four_windows"
    by (auto simp: session_ok_def isClient_def four_windows_sel WINDOW_NONE_def)
  moreover have "mains_known four_windows"
    by (auto simp: mains_known_def f four_windows_sel WINDOW_NONE_def)
  ultimately show ?thesis
    using e unfolding relations_ok_def grouping_ok_def
    by (auto simp: f known_windows_def four_windows_sel WINDOW_NONE_def)
qed

lemma four_windows_step:
  "map_option (\<lambda>w. map (\<lambda>c. m_transients (cl w c)) [1, 2, 3, 4]) (readTransientProperty 1 (Some 14) four_windows) =
   Some [[2], [3], [4], [1]]"
  by code_simp

text \<open>C5: \<open>checkGroupTransients\<close> does not keep the lists of transients free of circles: in a consistent
  session of four windows of one group, one change of a property leads to lists that go round
  through all four, and \<open>findModal\<close> does not end on any of them, whatever its fuel.\<close>

theorem group_transients_in_a_circle:
  "relations_ok four_windows \<and>
   (\<exists>w. readTransientProperty 1 (Some 14) four_windows = Some w \<and>
     (\<forall>n. findModal n w 1 True = None \<and> findModal n w 2 True = None \<and>
       findModal n w 3 True = None \<and> findModal n w 4 True = None))"
proof -
  obtain w where w: "readTransientProperty 1 (Some 14) four_windows = Some w"
    "lists w 1 = [2]" "lists w 2 = [3]" "lists w 3 = [4]" "lists w 4 = [1]"
    using four_windows_step by auto
  have "\<forall>c\<in>{1, 2, 3, 4}. \<exists>t ts. lists w c = t # ts \<and> t \<in> {1, 2, 3, 4}" using w by auto
  note circle = findModal_circle [OF this]
  have "findModal n w 1 True = None \<and> findModal n w 2 True = None \<and>
      findModal n w 3 True = None \<and> findModal n w 4 True = None" for n
    by (intro conjI circle) simp_all
  then have "\<forall>n. findModal n w 1 True = None \<and> findModal n w 2 True = None \<and>
      findModal n w 3 True = None \<and> findModal n w 4 True = None" by (rule allI)
  then show ?thesis using w(1) four_windows_ok by (intro conjI exI [of _ w])
qed

end
