(* ===== verification/PlacementPolicy.thy ===== *)
theory PlacementPolicy
  imports Prelude
begin

text \<open>
  The placement policies (\<open>Placement::Policy\<close> of \<^verbatim>\<open>placement.h\<close>) and the names they have in
  configuration files (\<open>policyFromString\<close> and \<open>policyToString\<close> of \<^verbatim>\<open>placement.cpp\<close>).  The window
  rules store a policy, the placement itself (theory \<open>Placement\<close>) follows one.
\<close>

datatype Policy =
    NoPlacement | Default | Unknown | Random | Smart | Cascade | Centered | ZeroCornered
  | UnderMouse | OnMainWindow | Maximizing

definition policyFromString :: "string \<Rightarrow> bool \<Rightarrow> Policy" where
  "policyFromString policy no_special =
     (if policy = ''NoPlacement'' then NoPlacement
      else if policy = ''Default'' \<and> \<not> no_special then Default
      else if policy = ''Random'' then Random
      else if policy = ''Cascade'' then Cascade
      else if policy = ''Centered'' then Centered
      else if policy = ''ZeroCornered'' then ZeroCornered
      else if policy = ''UnderMouse'' then UnderMouse
      else if policy = ''OnMainWindow'' \<and> \<not> no_special then OnMainWindow
      else if policy = ''Maximizing'' then Maximizing
      else Smart)"

primrec policyToString :: "Policy \<Rightarrow> string" where
  "policyToString NoPlacement = ''NoPlacement''"
| "policyToString Default = ''Default''"
| "policyToString Unknown = ''XXX should never see''"
| "policyToString Random = ''Random''"
| "policyToString Smart = ''Smart''"
| "policyToString Cascade = ''Cascade''"
| "policyToString Centered = ''Centered''"
| "policyToString ZeroCornered = ''ZeroCornered''"
| "policyToString UnderMouse = ''UnderMouse''"
| "policyToString OnMainWindow = ''OnMainWindow''"
| "policyToString Maximizing = ''Maximizing''"

text \<open>Reading back a written policy; \<open>Smart\<close> stands in for what the reader does not accept.\<close>

lemma policy_read_write:
  "policyFromString (policyToString p) no_special =
     (if p = Unknown \<or> no_special \<and> (p = Default \<or> p = OnMainWindow) then Smart else p)"
  by (cases p) (simp_all add: policyFromString_def)

lemma policyFromString_known: "policyFromString s b \<noteq> Unknown"
  by (simp add: policyFromString_def)

end
