(* ===== verification/Rules.thy ===== *)
theory Rules
  imports Clients PlacementPolicy "HOL-Library.Sublist" "HOL-Library.Monad_Syntax"
begin

text \<open>
  The window rules (\<^verbatim>\<open>rules.h\<close>, \<^verbatim>\<open>rules.cpp\<close>): the settings of a rule with how far each
  is to be applied, their reading from and writing to a configuration group, the matching of
  a window, the values the rules of a window impose, what they remember of it, and the book
  that owns them.

  Qt and the configuration library are parameters (record \<open>library\<close>): the coding of values as
  configuration entries, lower case and Latin-1 conversion, regular expressions, the search
  for a colour scheme file, the parser of a rule sent by message and the test of a window type
  against a mask.
\<close>

section \<open>The libraries the rules rest on\<close>

type_synonym point = "int \<times> int"
type_synonym qsize = "int \<times> int"
type_synonym 'e cfg = "string \<rightharpoonup> 'e"

record 'e library =
  wrStr :: "string \<Rightarrow> 'e"
  rdStr :: "'e \<Rightarrow> string option"
  wrBytes :: "string \<Rightarrow> 'e"
  wrInt :: "int \<Rightarrow> 'e"
  rdInt :: "'e \<Rightarrow> int option"
  wrUint :: "uint \<Rightarrow> 'e"
  rdUint :: "'e \<Rightarrow> uint option"
  wrBool :: "bool \<Rightarrow> 'e"
  rdBool :: "'e \<Rightarrow> bool option"
  wrPoint :: "point \<Rightarrow> 'e"
  rdPoint :: "'e \<Rightarrow> point option"
  wrSize :: "qsize \<Rightarrow> 'e"
  rdSize :: "'e \<Rightarrow> qsize option"
  toLower :: "string \<Rightarrow> string"
  toLatin1 :: "string \<Rightarrow> string"
  fromUtf8 :: "string \<Rightarrow> string"
  regExpFinds :: "string \<Rightarrow> string \<Rightarrow> bool"
  locate :: "string \<Rightarrow> string"
  parseRules :: "string \<Rightarrow> 'e cfg"
  typeMatchesMask :: "window_type \<Rightarrow> uint \<Rightarrow> bool"

text \<open>
  What the configuration library documents: an entry reads back as the value written.  Bytes (a \<open>QByteArray\<close>,
  \<open>wrBytes\<close>) are stored as they are, while the text of an entry is read as UTF-8: only ASCII bytes read back
  as the same text.
\<close>

definition ascii :: "string \<Rightarrow> bool" where
  "ascii s \<longleftrightarrow> (\<forall>c\<in>set s. of_char c < (128 :: nat))"

definition codec_ok :: "'e library \<Rightarrow> bool" where
  "codec_ok L \<longleftrightarrow>
     (\<forall>x. rdStr L (wrStr L x) = Some x) \<and> (\<forall>x. ascii x \<longrightarrow> rdStr L (wrBytes L x) = Some x) \<and>
     (\<forall>x. rdInt L (wrInt L x) = Some x) \<and>
     (\<forall>x. rdUint L (wrUint L x) = Some x) \<and> (\<forall>x. rdBool L (wrBool L x) = Some x) \<and>
     (\<forall>x. rdPoint L (wrPoint L x) = Some x) \<and> (\<forall>x. rdSize L (wrSize L x) = Some x)"

definition readEntry :: "('e \<Rightarrow> 'a option) \<Rightarrow> 'e cfg \<Rightarrow> string \<Rightarrow> 'a \<Rightarrow> 'a" where
  "readEntry rd cfg key dflt =
     (case cfg key of
        None \<Rightarrow> dflt
      | Some e \<Rightarrow> (case rd e of None \<Rightarrow> dflt | Some v \<Rightarrow> v))"

text \<open>\<open>writeEntry\<close> and \<open>deleteEntry\<close> calls in order, the latter with \<open>None\<close>.\<close>

primrec writeEntries :: "(string \<times> 'e option) list \<Rightarrow> 'e cfg \<Rightarrow> 'e cfg" where
  "writeEntries [] cfg = cfg"
| "writeEntries (e # es) cfg = writeEntries es (cfg(fst e := snd e))"

text \<open>\<open>QSize()\<close>, \<open>QSize::isEmpty\<close>, \<open>QSize::isValid\<close> and \<open>invalidPoint\<close>.\<close>

definition noSize :: qsize where
  "noSize = (- 1, - 1)"

definition size_isEmpty :: "qsize \<Rightarrow> bool" where
  "size_isEmpty s = (fst s < 1 \<or> snd s < 1)"

definition size_isValid :: "qsize \<Rightarrow> bool" where
  "size_isValid s = (0 \<le> fst s \<and> 0 \<le> snd s)"

definition invalidPoint :: point where
  "invalidPoint = (- 2147483648, - 2147483648)"

text \<open>\<open>QFileInfo(path).baseName()\<close>: the file name up to its first dot.\<close>

definition baseName :: "string \<Rightarrow> string" where
  "baseName path =
     takeWhile (\<lambda>c. c \<noteq> CHR ''.'') (rev (takeWhile (\<lambda>c. c \<noteq> CHR ''/'') (rev path)))"

section \<open>A rule\<close>

text \<open>\<open>SetRule\<close> and \<open>ForceRule\<close> share the enumerators of an anonymous enumeration.\<close>

datatype rule = Unused | DontAffect | Force | Apply | Remember | ApplyNow | ForceTemporarily

primrec rule_num :: "rule \<Rightarrow> int" where
  "rule_num Unused = 0"
| "rule_num DontAffect = 1"
| "rule_num Force = 2"
| "rule_num Apply = 3"
| "rule_num Remember = 4"
| "rule_num ApplyNow = 5"
| "rule_num ForceTemporarily = 6"

datatype StringMatch = UnimportantMatch | ExactMatch | SubstringMatch | RegExpMatch

primrec match_num :: "StringMatch \<Rightarrow> int" where
  "match_num UnimportantMatch = 0"
| "match_num ExactMatch = 1"
| "match_num SubstringMatch = 2"
| "match_num RegExpMatch = 3"

text \<open>
  A setting is the value \<open>var\<close> with its \<open>varrule\<close>; a text to match comes with its kind of
  match.  A mask of window types is the word of \<open>NET::WindowTypes\<close>.
\<close>

type_synonym 'a setting = "'a \<times> rule"
type_synonym pattern = "string \<times> StringMatch"

record rules =
  temporary_state :: int
  r_description :: string
  r_wmclass :: pattern
  r_wmclasscomplete :: bool
  r_windowrole :: pattern
  r_title :: pattern
  r_clientmachine :: pattern
  r_types :: uint
  r_placement :: "Policy setting"
  r_position :: "point setting"
  r_size :: "qsize setting"
  r_minsize :: "qsize setting"
  r_maxsize :: "qsize setting"
  r_opacityactive :: "int setting"
  r_opacityinactive :: "int setting"
  r_ignoregeometry :: "bool setting"
  r_desktop :: "int setting"
  r_screen :: "int setting"
  r_activity :: "string setting"
  r_type :: "window_type setting"
  r_maximizevert :: "bool setting"
  r_maximizehoriz :: "bool setting"
  r_minimize :: "bool setting"
  r_shade :: "bool setting"
  r_skiptaskbar :: "bool setting"
  r_skippager :: "bool setting"
  r_skipswitcher :: "bool setting"
  r_above :: "bool setting"
  r_below :: "bool setting"
  r_fullscreen :: "bool setting"
  r_noborder :: "bool setting"
  r_decocolor :: "string setting"
  r_blockcompositing :: "bool setting"
  r_fsplevel :: "int setting"
  r_fpplevel :: "int setting"
  r_acceptfocus :: "bool setting"
  r_closeable :: "bool setting"
  r_autogroup :: "bool setting"
  r_autogroupfg :: "bool setting"
  r_autogroupid :: "string setting"
  r_strictgeometry :: "bool setting"
  r_shortcut :: "string setting"
  r_disableglobalshortcuts :: "bool setting"

section \<open>Reading a rule\<close>

definition readSetRule :: "'e library \<Rightarrow> 'e cfg \<Rightarrow> string \<Rightarrow> rule" where
  "readSetRule L cfg key =
     (let v = readEntry (rdInt L) cfg key 0 in
      if v = 1 then DontAffect else if v = 2 then Force else if v = 3 then Apply
      else if v = 4 then Remember else if v = 5 then ApplyNow else if v = 6 then ForceTemporarily
      else Unused)"

definition readForceRule :: "'e library \<Rightarrow> 'e cfg \<Rightarrow> string \<Rightarrow> rule" where
  "readForceRule L cfg key =
     (let v = readEntry (rdInt L) cfg key 0 in
      if v = 1 then DontAffect else if v = 2 then Force else if v = 6 then ForceTemporarily
      else Unused)"

text \<open>\<open>NET::Normal\<close> is 0 and \<open>NET::Splash\<close> 9; \<open>type_num\<close> is the cast of the writer.\<close>

primrec type_num :: "window_type \<Rightarrow> int" where
  "type_num NET_Unknown = - 1"
| "type_num NET_Normal = 0"
| "type_num NET_Desktop = 1"
| "type_num NET_Dock = 2"
| "type_num NET_Toolbar = 3"
| "type_num NET_Menu = 4"
| "type_num NET_Dialog = 5"
| "type_num NET_Override = 6"
| "type_num NET_TopMenu = 7"
| "type_num NET_Utility = 8"
| "type_num NET_Splash = 9"
| "type_num NET_DropdownMenu = 10"
| "type_num NET_PopupMenu = 11"
| "type_num NET_Tooltip = 12"
| "type_num NET_Notification = 13"
| "type_num NET_ComboBox = 14"
| "type_num NET_DNDIcon = 15"
| "type_num NET_OnScreenDisplay = 16"

definition readType :: "'e library \<Rightarrow> 'e cfg \<Rightarrow> string \<Rightarrow> window_type" where
  "readType L cfg key =
     (let v = readEntry (rdInt L) cfg key 0 in
      if v = 0 then NET_Normal else if v = 1 then NET_Desktop else if v = 2 then NET_Dock
      else if v = 3 then NET_Toolbar else if v = 4 then NET_Menu else if v = 5 then NET_Dialog
      else if v = 6 then NET_Override else if v = 7 then NET_TopMenu
      else if v = 8 then NET_Utility else if v = 9 then NET_Splash else NET_Unknown)"

definition readDecoColor :: "'e library \<Rightarrow> 'e cfg \<Rightarrow> string" where
  "readDecoColor L cfg =
     (let themeName = readEntry (rdStr L) cfg ''decocolor'' [] in
      if themeName = [] then []
      else locate L (''color-schemes/'' @ themeName @ ''.colors''))"

definition limit0to4 :: "int \<Rightarrow> int" where
  "limit0to4 i = max 0 (min 4 i)"

text \<open>
  \<open>READ_MATCH_STRING\<close>: the enumeration has no negative enumerator and is compared as an
  unsigned number, so a negative entry is above the last kind.
\<close>

definition readMatch :: "'e library \<Rightarrow> (string \<Rightarrow> string) \<Rightarrow> 'e cfg \<Rightarrow> string \<Rightarrow> pattern" where
  "readMatch L func cfg key =
     (func (readEntry (rdStr L) cfg key []),
      let v = min 3 (word_of_int (readEntry (rdInt L) cfg (key @ ''match'') 0) :: uint) in
      if v = 0 then UnimportantMatch else if v = 1 then ExactMatch
      else if v = 2 then SubstringMatch else RegExpMatch)"

text \<open>\<open>READ_SET_RULE\<close> and \<open>READ_FORCE_RULE\<close>.\<close>

definition readSet ::
    "'e library \<Rightarrow> ('e \<Rightarrow> 'a option) \<Rightarrow> 'e cfg \<Rightarrow> string \<Rightarrow> 'a \<Rightarrow> 'a setting" where
  "readSet L rd cfg key dflt = (readEntry rd cfg key dflt, readSetRule L cfg (key @ ''rule''))"

definition readForce ::
    "'e library \<Rightarrow> ('e \<Rightarrow> 'a option) \<Rightarrow> 'e cfg \<Rightarrow> string \<Rightarrow> 'a \<Rightarrow> 'a setting" where
  "readForce L rd cfg key dflt = (readEntry rd cfg key dflt, readForceRule L cfg (key @ ''rule''))"

definition readOpacity :: "'e library \<Rightarrow> 'e cfg \<Rightarrow> string \<Rightarrow> int setting" where
  "readOpacity L cfg key =
     (let s = readForce L (rdInt L) cfg key 0
      in if fst s < 0 \<or> fst s > 100 then (100, snd s) else s)"

definition AllTypesMask :: uint where
  "AllTypesMask = - 1"

definition readFromCfg :: "'e library \<Rightarrow> 'e cfg \<Rightarrow> rules" where
  "readFromCfg L cfg =
     \<lparr>temporary_state = 0,
      r_description =
        (let d = readEntry (rdStr L) cfg ''Description'' [] in
         if d = [] then readEntry (rdStr L) cfg ''description'' [] else d),
      r_wmclass = readMatch L (toLatin1 L \<circ> toLower L) cfg ''wmclass'',
      r_wmclasscomplete = readEntry (rdBool L) cfg ''wmclasscomplete'' False,
      r_windowrole = readMatch L (toLatin1 L) cfg ''windowrole'',
      r_title = readMatch L (\<lambda>s. s) cfg ''title'',
      r_clientmachine = readMatch L (toLatin1 L \<circ> toLower L) cfg ''clientmachine'',
      r_types = readEntry (rdUint L) cfg ''types'' AllTypesMask,
      r_placement = (policyFromString (readEntry (rdStr L) cfg ''placement'' []) False,
         readForceRule L cfg ''placementrule''),
      r_position = readSet L (rdPoint L) cfg ''position'' invalidPoint,
      r_size = (let s = readSet L (rdSize L) cfg ''size'' noSize
         in if size_isEmpty (fst s) \<and> snd s \<noteq> Remember then (fst s, Unused) else s),
      r_minsize = (let s = readForce L (rdSize L) cfg ''minsize'' noSize
         in if \<not> size_isValid (fst s) then ((1, 1), snd s) else s),
      r_maxsize = (let s = readForce L (rdSize L) cfg ''maxsize'' noSize
         in if size_isEmpty (fst s) then ((32767, 32767), snd s) else s),
      r_opacityactive = readOpacity L cfg ''opacityactive'',
      r_opacityinactive = readOpacity L cfg ''opacityinactive'',
      r_ignoregeometry = readSet L (rdBool L) cfg ''ignoregeometry'' False,
      r_desktop = readSet L (rdInt L) cfg ''desktop'' 0,
      r_screen = readSet L (rdInt L) cfg ''screen'' 0,
      r_activity = readSet L (rdStr L) cfg ''activity'' [],
      r_type = (let t = readType L cfg ''type''
         in (t, if t \<noteq> NET_Unknown then readForceRule L cfg ''typerule'' else Unused)),
      r_maximizevert = readSet L (rdBool L) cfg ''maximizevert'' False,
      r_maximizehoriz = readSet L (rdBool L) cfg ''maximizehoriz'' False,
      r_minimize = readSet L (rdBool L) cfg ''minimize'' False,
      r_shade = readSet L (rdBool L) cfg ''shade'' False,
      r_skiptaskbar = readSet L (rdBool L) cfg ''skiptaskbar'' False,
      r_skippager = readSet L (rdBool L) cfg ''skippager'' False,
      r_skipswitcher = readSet L (rdBool L) cfg ''skipswitcher'' False,
      r_above = readSet L (rdBool L) cfg ''above'' False,
      r_below = readSet L (rdBool L) cfg ''below'' False,
      r_fullscreen = readSet L (rdBool L) cfg ''fullscreen'' False,
      r_noborder = readSet L (rdBool L) cfg ''noborder'' False,
      r_decocolor = (let d = readDecoColor L cfg
         in (d, if d = [] then Unused else readForceRule L cfg ''decocolorrule'')),
      r_blockcompositing = readForce L (rdBool L) cfg ''blockcompositing'' False,
      r_fsplevel = (limit0to4 (readEntry (rdInt L) cfg ''fsplevel'' 0), readForceRule L cfg ''fsplevelrule''),
      r_fpplevel = (limit0to4 (readEntry (rdInt L) cfg ''fpplevel'' 0), readForceRule L cfg ''fpplevelrule''),
      r_acceptfocus = readForce L (rdBool L) cfg ''acceptfocus'' False,
      r_closeable = readForce L (rdBool L) cfg ''closeable'' False,
      r_autogroup = readForce L (rdBool L) cfg ''autogroup'' False,
      r_autogroupfg = readForce L (rdBool L) cfg ''autogroupfg'' True,
      r_autogroupid = readForce L (rdStr L) cfg ''autogroupid'' [],
      r_strictgeometry = readForce L (rdBool L) cfg ''strictgeometry'' False,
      r_shortcut = readSet L (rdStr L) cfg ''shortcut'' [],
      r_disableglobalshortcuts = readForce L (rdBool L) cfg ''disableglobalshortcuts'' False\<rparr>"

text \<open>\<open>Rules(str, temporary)\<close> parses the text of a message as a configuration file.\<close>

definition Rules_message :: "'e library \<Rightarrow> string \<Rightarrow> bool \<Rightarrow> rules" where
  "Rules_message L str temporary =
     (let r = (readFromCfg L (parseRules L str))\<lparr>temporary_state := if temporary then 2 else 0\<rparr>
      in if r_description r = [] then r\<lparr>r_description := ''temporary''\<rparr> else r)"

section \<open>Writing a rule\<close>

text \<open>\<open>WRITE_MATCH_STRING\<close>; \<open>WRITE_SET_RULE\<close> and \<open>WRITE_FORCE_RULE\<close>, which are alike.\<close>

definition writeMatch ::
    "'e library \<Rightarrow> (string \<Rightarrow> 'e) \<Rightarrow> string \<Rightarrow> pattern \<Rightarrow> bool \<Rightarrow> (string \<times> 'e option) list" where
  "writeMatch L wr key p force =
     (if fst p \<noteq> [] \<or> force
      then [(key, Some (wr (fst p))), (key @ ''match'', Some (wrInt L (match_num (snd p))))]
      else [(key, None), (key @ ''match'', None)])"

definition writeSetting ::
    "'e library \<Rightarrow> ('a \<Rightarrow> 'e) \<Rightarrow> string \<Rightarrow> 'a setting \<Rightarrow> (string \<times> 'e option) list" where
  "writeSetting L wr key s =
     (if snd s \<noteq> Unused
      then [(key, Some (wr (fst s))), (key @ ''rule'', Some (wrInt L (rule_num (snd s))))]
      else [(key, None), (key @ ''rule'', None)])"

definition colorToString :: "string \<Rightarrow> string" where
  "colorToString value = (if suffix ''.colors'' value then baseName value else value)"

definition rules_entries :: "'e library \<Rightarrow> rules \<Rightarrow> (string \<times> 'e option) list" where
  "rules_entries L r =
     [(''Description'', Some (wrStr L (r_description r)))] @
     writeMatch L (wrBytes L) ''wmclass'' (r_wmclass r) True @
     [(''wmclasscomplete'', Some (wrBool L (r_wmclasscomplete r)))] @
     writeMatch L (wrBytes L) ''windowrole'' (r_windowrole r) False @
     writeMatch L (wrStr L) ''title'' (r_title r) False @
     writeMatch L (wrBytes L) ''clientmachine'' (r_clientmachine r) False @
     [(''types'', if r_types r \<noteq> AllTypesMask then Some (wrUint L (r_types r)) else None)] @
     writeSetting L (wrStr L \<circ> policyToString) ''placement'' (r_placement r) @
     writeSetting L (wrPoint L) ''position'' (r_position r) @
     writeSetting L (wrSize L) ''size'' (r_size r) @
     writeSetting L (wrSize L) ''minsize'' (r_minsize r) @
     writeSetting L (wrSize L) ''maxsize'' (r_maxsize r) @
     writeSetting L (wrInt L) ''opacityactive'' (r_opacityactive r) @
     writeSetting L (wrInt L) ''opacityinactive'' (r_opacityinactive r) @
     writeSetting L (wrBool L) ''ignoregeometry'' (r_ignoregeometry r) @
     writeSetting L (wrInt L) ''desktop'' (r_desktop r) @
     writeSetting L (wrInt L) ''screen'' (r_screen r) @
     writeSetting L (wrStr L) ''activity'' (r_activity r) @
     writeSetting L (wrInt L \<circ> type_num) ''type'' (r_type r) @
     writeSetting L (wrBool L) ''maximizevert'' (r_maximizevert r) @
     writeSetting L (wrBool L) ''maximizehoriz'' (r_maximizehoriz r) @
     writeSetting L (wrBool L) ''minimize'' (r_minimize r) @
     writeSetting L (wrBool L) ''shade'' (r_shade r) @
     writeSetting L (wrBool L) ''skiptaskbar'' (r_skiptaskbar r) @
     writeSetting L (wrBool L) ''skippager'' (r_skippager r) @
     writeSetting L (wrBool L) ''skipswitcher'' (r_skipswitcher r) @
     writeSetting L (wrBool L) ''above'' (r_above r) @
     writeSetting L (wrBool L) ''below'' (r_below r) @
     writeSetting L (wrBool L) ''fullscreen'' (r_fullscreen r) @
     writeSetting L (wrBool L) ''noborder'' (r_noborder r) @
     writeSetting L (wrStr L \<circ> colorToString) ''decocolor'' (r_decocolor r) @
     writeSetting L (wrBool L) ''blockcompositing'' (r_blockcompositing r) @
     writeSetting L (wrInt L) ''fsplevel'' (r_fsplevel r) @
     writeSetting L (wrInt L) ''fpplevel'' (r_fpplevel r) @
     writeSetting L (wrBool L) ''acceptfocus'' (r_acceptfocus r) @
     writeSetting L (wrBool L) ''closeable'' (r_closeable r) @
     writeSetting L (wrBool L) ''autogroup'' (r_autogroup r) @
     writeSetting L (wrBool L) ''autogroupfg'' (r_autogroupfg r) @
     writeSetting L (wrStr L) ''autogroupid'' (r_autogroupid r) @
     writeSetting L (wrBool L) ''strictgeometry'' (r_strictgeometry r) @
     writeSetting L (wrStr L) ''shortcut'' (r_shortcut r) @
     writeSetting L (wrBool L) ''disableglobalshortcuts'' (r_disableglobalshortcuts r)"

definition rules_write :: "'e library \<Rightarrow> rules \<Rightarrow> 'e cfg \<Rightarrow> 'e cfg" where
  "rules_write L r cfg = writeEntries (rules_entries L r) cfg"

section \<open>What a rule affects\<close>

definition rules_isEmpty :: "rules \<Rightarrow> bool" where
  "rules_isEmpty r \<longleftrightarrow>
     snd (r_placement r) = Unused \<and>
     snd (r_position r) = Unused \<and>
     snd (r_size r) = Unused \<and>
     snd (r_minsize r) = Unused \<and>
     snd (r_maxsize r) = Unused \<and>
     snd (r_opacityactive r) = Unused \<and>
     snd (r_opacityinactive r) = Unused \<and>
     snd (r_ignoregeometry r) = Unused \<and>
     snd (r_desktop r) = Unused \<and>
     snd (r_screen r) = Unused \<and>
     snd (r_activity r) = Unused \<and>
     snd (r_type r) = Unused \<and>
     snd (r_maximizevert r) = Unused \<and>
     snd (r_maximizehoriz r) = Unused \<and>
     snd (r_minimize r) = Unused \<and>
     snd (r_shade r) = Unused \<and>
     snd (r_skiptaskbar r) = Unused \<and>
     snd (r_skippager r) = Unused \<and>
     snd (r_skipswitcher r) = Unused \<and>
     snd (r_above r) = Unused \<and>
     snd (r_below r) = Unused \<and>
     snd (r_fullscreen r) = Unused \<and>
     snd (r_noborder r) = Unused \<and>
     snd (r_decocolor r) = Unused \<and>
     snd (r_blockcompositing r) = Unused \<and>
     snd (r_fsplevel r) = Unused \<and>
     snd (r_fpplevel r) = Unused \<and>
     snd (r_acceptfocus r) = Unused \<and>
     snd (r_closeable r) = Unused \<and>
     snd (r_autogroup r) = Unused \<and>
     snd (r_autogroupfg r) = Unused \<and>
     snd (r_autogroupid r) = Unused \<and>
     snd (r_strictgeometry r) = Unused \<and>
     snd (r_shortcut r) = Unused \<and>
     snd (r_disableglobalshortcuts r) = Unused"

text \<open>\<open>DISCARD_USED_SET_RULE\<close> and \<open>DISCARD_USED_FORCE_RULE\<close>.\<close>

definition discardSet :: "bool \<Rightarrow> 'a setting \<Rightarrow> 'a setting" where
  "discardSet withdrawn s =
     (if snd s = ApplyNow \<or> withdrawn \<and> snd s = ForceTemporarily then (fst s, Unused) else s)"

definition discardForce :: "bool \<Rightarrow> 'a setting \<Rightarrow> 'a setting" where
  "discardForce withdrawn s =
     (if withdrawn \<and> snd s = ForceTemporarily then (fst s, Unused) else s)"

definition rules_discardUsed :: "bool \<Rightarrow> rules \<Rightarrow> rules" where
  "rules_discardUsed withdrawn r = r\<lparr>
     r_placement := discardForce withdrawn (r_placement r),
     r_position := discardSet withdrawn (r_position r),
     r_size := discardSet withdrawn (r_size r),
     r_minsize := discardForce withdrawn (r_minsize r),
     r_maxsize := discardForce withdrawn (r_maxsize r),
     r_opacityactive := discardForce withdrawn (r_opacityactive r),
     r_opacityinactive := discardForce withdrawn (r_opacityinactive r),
     r_ignoregeometry := discardSet withdrawn (r_ignoregeometry r),
     r_desktop := discardSet withdrawn (r_desktop r),
     r_screen := discardSet withdrawn (r_screen r),
     r_activity := discardSet withdrawn (r_activity r),
     r_type := discardForce withdrawn (r_type r),
     r_maximizevert := discardSet withdrawn (r_maximizevert r),
     r_maximizehoriz := discardSet withdrawn (r_maximizehoriz r),
     r_minimize := discardSet withdrawn (r_minimize r),
     r_shade := discardSet withdrawn (r_shade r),
     r_skiptaskbar := discardSet withdrawn (r_skiptaskbar r),
     r_skippager := discardSet withdrawn (r_skippager r),
     r_skipswitcher := discardSet withdrawn (r_skipswitcher r),
     r_above := discardSet withdrawn (r_above r),
     r_below := discardSet withdrawn (r_below r),
     r_fullscreen := discardSet withdrawn (r_fullscreen r),
     r_noborder := discardSet withdrawn (r_noborder r),
     r_decocolor := discardForce withdrawn (r_decocolor r),
     r_blockcompositing := discardForce withdrawn (r_blockcompositing r),
     r_fsplevel := discardForce withdrawn (r_fsplevel r),
     r_fpplevel := discardForce withdrawn (r_fpplevel r),
     r_acceptfocus := discardForce withdrawn (r_acceptfocus r),
     r_closeable := discardForce withdrawn (r_closeable r),
     r_autogroup := discardForce withdrawn (r_autogroup r),
     r_autogroupfg := discardForce withdrawn (r_autogroupfg r),
     r_autogroupid := discardForce withdrawn (r_autogroupid r),
     r_strictgeometry := discardForce withdrawn (r_strictgeometry r),
     r_shortcut := discardSet withdrawn (r_shortcut r),
     r_disableglobalshortcuts := discardForce withdrawn (r_disableglobalshortcuts r)\<rparr>"

section \<open>Matching a window\<close>

text \<open>\<open>MaximizeMode\<close>: the flags \<open>MaximizeVertical\<close> and \<open>MaximizeHorizontal\<close>.\<close>

datatype MaximizeMode = Maximize (maxVert: bool) (maxHoriz: bool)

text \<open>What the rules read of a window.\<close>

record ruled =
  w_windowType :: window_type
  w_resourceClass :: string
  w_resourceName :: string
  w_windowRole :: string
  w_hostName :: string
  w_isLocal :: bool
  w_caption :: string
  w_managed :: bool
  w_fullScreen :: bool
  w_maximizeMode :: MaximizeMode
  w_pos :: point
  w_size :: qsize
  w_desktop :: int
  w_screen :: int
  w_activities :: "string list"
  w_minimized :: bool
  w_shadeMode :: ShadeMode
  w_skipTaskbar :: bool
  w_skipPager :: bool
  w_skipSwitcher :: bool
  w_keepAbove :: bool
  w_keepBelow :: bool
  w_noBorder :: bool

definition matchType :: "'e library \<Rightarrow> rules \<Rightarrow> window_type \<Rightarrow> bool" where
  "matchType L r match_type =
     (if r_types r \<noteq> AllTypesMask
      then typeMatchesMask L (if match_type = NET_Unknown then NET_Normal else match_type) (r_types r)
      else True)"

text \<open>The three tests that follow one another for every text; \<open>conv\<close> is \<open>QString::fromUtf8\<close>
  where the text is a byte array.\<close>

definition text_matches ::
    "'e library \<Rightarrow> (string \<Rightarrow> string) \<Rightarrow> pattern \<Rightarrow> string \<Rightarrow> bool" where
  "text_matches L conv p s =
     (if snd p = RegExpMatch \<and> \<not> regExpFinds L (conv (fst p)) (conv s) then False
      else if snd p = ExactMatch \<and> fst p \<noteq> s then False
      else if snd p = SubstringMatch \<and> \<not> sublist (fst p) s then False
      else True)"

definition matchWMClass :: "'e library \<Rightarrow> rules \<Rightarrow> string \<Rightarrow> string \<Rightarrow> bool" where
  "matchWMClass L r match_class match_name =
     (if snd (r_wmclass r) \<noteq> UnimportantMatch
      then let cwmclass = (if r_wmclasscomplete r then match_name @ '' '' @ match_class
                           else match_class)
           in text_matches L (fromUtf8 L) (r_wmclass r) cwmclass
      else True)"

definition matchRole :: "'e library \<Rightarrow> rules \<Rightarrow> string \<Rightarrow> bool" where
  "matchRole L r match_role =
     (if snd (r_windowrole r) \<noteq> UnimportantMatch
      then text_matches L (fromUtf8 L) (r_windowrole r) match_role else True)"

definition matchTitle :: "'e library \<Rightarrow> rules \<Rightarrow> string \<Rightarrow> bool" where
  "matchTitle L r match_title =
     (if snd (r_title r) \<noteq> UnimportantMatch
      then text_matches L (\<lambda>s. s) (r_title r) match_title else True)"

declare conj_cong [fundef_cong]

function matchClientMachine :: "'e library \<Rightarrow> rules \<Rightarrow> string \<Rightarrow> bool \<Rightarrow> bool" where
  "matchClientMachine L r match_machine is_local =
     (if snd (r_clientmachine r) \<noteq> UnimportantMatch
      then if match_machine \<noteq> ''localhost'' \<and> is_local \<and> matchClientMachine L r ''localhost'' True
           then True
           else text_matches L (fromUtf8 L) (r_clientmachine r) match_machine
      else True)"
  by pat_completeness auto

termination
  by (relation "measure (\<lambda>(L, r, m, l). if m = ''localhost'' then 0 else 1)") auto

declare matchClientMachine.simps [simp del]

text \<open>
  \<open>match\<close>, and whether it connects the window's caption to a new evaluation of its rules.
\<close>

definition rules_match :: "'e library \<Rightarrow> rules \<Rightarrow> ruled \<Rightarrow> bool \<times> bool" where
  "rules_match L r c =
     (if \<not> matchType L r (w_windowType c) then (False, False)
      else if \<not> matchWMClass L r (w_resourceClass c) (w_resourceName c) then (False, False)
      else if \<not> matchRole L r (w_windowRole c) then (False, False)
      else if \<not> matchClientMachine L r (w_hostName c) (w_isLocal c) then (False, False)
      else let connects = (snd (r_title r) \<noteq> UnimportantMatch) in
        if \<not> matchTitle L r (w_caption c) then (False, connects) else (True, connects))"

section \<open>Remembering a window\<close>

datatype RuleType =
    Position | Size | Desktop | MaximizeVert | MaximizeHoriz | Minimize | Shade | SkipTaskbar
  | SkipPager | SkipSwitcher | Above | Below | Fullscreen | NoBorder | OpacityActive
  | OpacityInactive | Activity | Screen

text \<open>\<open>if NOW_REMEMBER\<close>: the setting after, and whether its value changed.\<close>

definition now_remember :: "bool \<Rightarrow> 'a \<Rightarrow> 'a setting \<Rightarrow> 'a setting \<times> bool" where
  "now_remember selected new s =
     (if selected \<and> snd s = Remember then ((new, snd s), fst s \<noteq> new) else (s, False))"

primrec join_comma :: "string list \<Rightarrow> string" where
  "join_comma [] = []"
| "join_comma (x # xs) = (if xs = [] then x else x @ '','' @ join_comma xs)"

text \<open>Position and size are not taken in a direction in which the window is maximised.\<close>

definition not_maximized :: "MaximizeMode \<Rightarrow> int \<times> int \<Rightarrow> int \<times> int \<Rightarrow> int \<times> int" where
  "not_maximized mode old new =
     (if maxHoriz mode then fst old else fst new, if maxVert mode then snd old else snd new)"

definition rules_update :: "ruled \<Rightarrow> RuleType set \<Rightarrow> rules \<Rightarrow> rules \<times> bool" where
  "rules_update c sel r =
     (let mode = w_maximizeMode c; full = w_fullScreen c;
          new_pos = not_maximized mode (fst (r_position r)) (w_pos c);
          new_size = not_maximized mode (fst (r_size r)) (w_size c);
          (position, u1) = now_remember (Position \<in> sel \<and> \<not> full) new_pos (r_position r);
          (size, u2) = now_remember (Size \<in> sel \<and> \<not> full) new_size (r_size r);
          (desktop, u3) = now_remember (Desktop \<in> sel) (w_desktop c) (r_desktop r);
          (screen, u4) = now_remember (Screen \<in> sel) (w_screen c) (r_screen r);
          (activity, u5) = now_remember (Activity \<in> sel) (join_comma (w_activities c)) (r_activity r);
          (maximizevert, u6) = now_remember (MaximizeVert \<in> sel) (maxVert mode) (r_maximizevert r);
          (maximizehoriz, u7) = now_remember (MaximizeHoriz \<in> sel) (maxHoriz mode) (r_maximizehoriz r);
          (minimize, u8) = now_remember (Minimize \<in> sel) (w_minimized c) (r_minimize r);
          (shade, u9) = now_remember (Shade \<in> sel) (w_shadeMode c \<noteq> ShadeNone) (r_shade r);
          (skiptaskbar, u10) = now_remember (SkipTaskbar \<in> sel) (w_skipTaskbar c) (r_skiptaskbar r);
          (skippager, u11) = now_remember (SkipPager \<in> sel) (w_skipPager c) (r_skippager r);
          (skipswitcher, u12) = now_remember (SkipSwitcher \<in> sel) (w_skipSwitcher c) (r_skipswitcher r);
          (keepabove, u13) = now_remember (Above \<in> sel) (w_keepAbove c) (r_above r);
          (keepbelow, u14) = now_remember (Below \<in> sel) (w_keepBelow c) (r_below r);
          (fullscreen, u15) = now_remember (Fullscreen \<in> sel) full (r_fullscreen r);
          (noborder, u16) = now_remember (NoBorder \<in> sel) (w_noBorder c) (r_noborder r)
      in (r\<lparr>r_position := position, r_size := size, r_desktop := desktop, r_screen := screen,
            r_activity := activity, r_maximizevert := maximizevert,
            r_maximizehoriz := maximizehoriz, r_minimize := minimize, r_shade := shade,
            r_skiptaskbar := skiptaskbar, r_skippager := skippager,
            r_skipswitcher := skipswitcher, r_above := keepabove, r_below := keepbelow,
            r_fullscreen := fullscreen, r_noborder := noborder\<rparr>,
          u1 \<or> u2 \<or> u3 \<or> u4 \<or> u5 \<or> u6 \<or> u7 \<or> u8 \<or> u9 \<or> u10 \<or> u11 \<or> u12 \<or> u13 \<or> u14 \<or>
          u15 \<or> u16))"

section \<open>Imposing values\<close>

definition checkSetRule :: "rule \<Rightarrow> bool \<Rightarrow> bool" where
  "checkSetRule rule init =
     (if rule_num rule > rule_num DontAffect
      then if rule = Force \<or> rule = ApplyNow \<or> rule = ForceTemporarily \<or> init then True else False
      else False)"

definition checkForceRule :: "rule \<Rightarrow> bool" where
  "checkForceRule rule = (rule = Force \<or> rule = ForceTemporarily)"

definition checkSetStop :: "rule \<Rightarrow> bool" where
  "checkSetStop rule = (rule \<noteq> Unused)"

definition checkForceStop :: "rule \<Rightarrow> bool" where
  "checkForceStop rule = (rule \<noteq> Unused)"

text \<open>\<open>APPLY_RULE\<close> and \<open>APPLY_FORCE_RULE\<close>: the new value of the argument and the result.\<close>

definition apply_rule :: "(rules \<Rightarrow> 'a setting) \<Rightarrow> bool \<Rightarrow> rules \<Rightarrow> 'a \<Rightarrow> 'a \<times> bool" where
  "apply_rule var init r arg =
     (if checkSetRule (snd (var r)) init then fst (var r) else arg, checkSetStop (snd (var r)))"

definition apply_force_rule :: "(rules \<Rightarrow> 'a setting) \<Rightarrow> rules \<Rightarrow> 'a \<Rightarrow> 'a \<times> bool" where
  "apply_force_rule var r arg =
     (if checkForceRule (snd (var r)) then fst (var r) else arg, checkForceStop (snd (var r)))"

definition applyPosition :: "bool \<Rightarrow> rules \<Rightarrow> point \<Rightarrow> point \<times> bool" where
  "applyPosition init r pos =
     (if fst (r_position r) \<noteq> invalidPoint \<and> checkSetRule (snd (r_position r)) init
      then fst (r_position r) else pos, checkSetStop (snd (r_position r)))"

definition applySize :: "bool \<Rightarrow> rules \<Rightarrow> qsize \<Rightarrow> qsize \<times> bool" where
  "applySize init r s =
     (if size_isValid (fst (r_size r)) \<and> checkSetRule (snd (r_size r)) init
      then fst (r_size r) else s, checkSetStop (snd (r_size r)))"

text \<open>\<open>QRect(pos, size)\<close>, \<open>topLeft\<close> and \<open>size\<close> of a rectangle with inclusive corners.\<close>

definition mk_rect :: "point \<Rightarrow> qsize \<Rightarrow> rect" where
  "mk_rect p s = \<lparr>rx1 = fst p, ry1 = snd p, rx2 = fst p + fst s - 1, ry2 = snd p + snd s - 1\<rparr>"

definition topLeft :: "rect \<Rightarrow> point" where
  "topLeft a = (rx1 a, ry1 a)"

definition rect_size :: "rect \<Rightarrow> qsize" where
  "rect_size a = (rx2 a - rx1 a + 1, ry2 a - ry1 a + 1)"

definition applyGeometry :: "bool \<Rightarrow> rules \<Rightarrow> rect \<Rightarrow> rect \<times> bool" where
  "applyGeometry init r a =
     (let (p, moved) = applyPosition init r (topLeft a);
          (s, resized) = applySize init r (rect_size a);
          a1 = (if moved then mk_rect p (rect_size a) else a);
          a2 = (if resized then mk_rect (topLeft a1) s else a1)
      in (a2, moved \<or> resized))"

definition applyMaximizeHoriz :: "bool \<Rightarrow> rules \<Rightarrow> MaximizeMode \<Rightarrow> MaximizeMode \<times> bool" where
  "applyMaximizeHoriz init r mode =
     (if checkSetRule (snd (r_maximizehoriz r)) init
      then Maximize (maxVert mode) (fst (r_maximizehoriz r)) else mode,
      checkSetStop (snd (r_maximizehoriz r)))"

definition applyMaximizeVert :: "bool \<Rightarrow> rules \<Rightarrow> MaximizeMode \<Rightarrow> MaximizeMode \<times> bool" where
  "applyMaximizeVert init r mode =
     (if checkSetRule (snd (r_maximizevert r)) init
      then Maximize (fst (r_maximizevert r)) (maxHoriz mode) else mode,
      checkSetStop (snd (r_maximizevert r)))"

definition applyShade :: "bool \<Rightarrow> rules \<Rightarrow> ShadeMode \<Rightarrow> ShadeMode \<times> bool" where
  "applyShade init r sh =
     (if checkSetRule (snd (r_shade r)) init
      then let sh1 = (if \<not> fst (r_shade r) then ShadeNone else sh)
           in if fst (r_shade r) \<and> sh1 = ShadeNone then ShadeNormal else sh1
      else sh, checkSetStop (snd (r_shade r)))"

text \<open>The loop of \<open>CHECK_RULE\<close> and \<open>CHECK_FORCE_RULE\<close> over the rules of a window.\<close>

primrec check_rule :: "(rules \<Rightarrow> 'a \<Rightarrow> 'a \<times> bool) \<Rightarrow> rules list \<Rightarrow> 'a \<Rightarrow> 'a" where
  "check_rule apply_to [] arg = arg"
| "check_rule apply_to (r # rs) arg =
     (let (ret, stop) = apply_to r arg in if stop then ret else check_rule apply_to rs ret)"

text \<open>One check for every setting that is applied as it is.\<close>

definition wr_checkPlacement :: "rules list \<Rightarrow> Policy \<Rightarrow> Policy" where
  "wr_checkPlacement rs arg = check_rule (apply_force_rule r_placement) rs arg"

definition wr_checkMinSize :: "rules list \<Rightarrow> qsize \<Rightarrow> qsize" where
  "wr_checkMinSize rs arg = check_rule (apply_force_rule r_minsize) rs arg"

definition wr_checkMaxSize :: "rules list \<Rightarrow> qsize \<Rightarrow> qsize" where
  "wr_checkMaxSize rs arg = check_rule (apply_force_rule r_maxsize) rs arg"

definition wr_checkOpacityActive :: "rules list \<Rightarrow> int \<Rightarrow> int" where
  "wr_checkOpacityActive rs arg = check_rule (apply_force_rule r_opacityactive) rs arg"

definition wr_checkOpacityInactive :: "rules list \<Rightarrow> int \<Rightarrow> int" where
  "wr_checkOpacityInactive rs arg = check_rule (apply_force_rule r_opacityinactive) rs arg"

definition wr_checkIgnoreGeometry :: "rules list \<Rightarrow> bool \<Rightarrow> bool \<Rightarrow> bool" where
  "wr_checkIgnoreGeometry rs arg init = check_rule (apply_rule r_ignoregeometry init) rs arg"

definition wr_checkDesktop :: "rules list \<Rightarrow> int \<Rightarrow> bool \<Rightarrow> int" where
  "wr_checkDesktop rs arg init = check_rule (apply_rule r_desktop init) rs arg"

definition wr_checkActivity :: "rules list \<Rightarrow> string \<Rightarrow> bool \<Rightarrow> string" where
  "wr_checkActivity rs arg init = check_rule (apply_rule r_activity init) rs arg"

definition wr_checkType :: "rules list \<Rightarrow> window_type \<Rightarrow> window_type" where
  "wr_checkType rs arg = check_rule (apply_force_rule r_type) rs arg"

definition wr_checkMinimize :: "rules list \<Rightarrow> bool \<Rightarrow> bool \<Rightarrow> bool" where
  "wr_checkMinimize rs arg init = check_rule (apply_rule r_minimize init) rs arg"

definition wr_checkSkipTaskbar :: "rules list \<Rightarrow> bool \<Rightarrow> bool \<Rightarrow> bool" where
  "wr_checkSkipTaskbar rs arg init = check_rule (apply_rule r_skiptaskbar init) rs arg"

definition wr_checkSkipPager :: "rules list \<Rightarrow> bool \<Rightarrow> bool \<Rightarrow> bool" where
  "wr_checkSkipPager rs arg init = check_rule (apply_rule r_skippager init) rs arg"

definition wr_checkSkipSwitcher :: "rules list \<Rightarrow> bool \<Rightarrow> bool \<Rightarrow> bool" where
  "wr_checkSkipSwitcher rs arg init = check_rule (apply_rule r_skipswitcher init) rs arg"

definition wr_checkKeepAbove :: "rules list \<Rightarrow> bool \<Rightarrow> bool \<Rightarrow> bool" where
  "wr_checkKeepAbove rs arg init = check_rule (apply_rule r_above init) rs arg"

definition wr_checkKeepBelow :: "rules list \<Rightarrow> bool \<Rightarrow> bool \<Rightarrow> bool" where
  "wr_checkKeepBelow rs arg init = check_rule (apply_rule r_below init) rs arg"

definition wr_checkFullScreen :: "rules list \<Rightarrow> bool \<Rightarrow> bool \<Rightarrow> bool" where
  "wr_checkFullScreen rs arg init = check_rule (apply_rule r_fullscreen init) rs arg"

definition wr_checkNoBorder :: "rules list \<Rightarrow> bool \<Rightarrow> bool \<Rightarrow> bool" where
  "wr_checkNoBorder rs arg init = check_rule (apply_rule r_noborder init) rs arg"

definition wr_checkDecoColor :: "rules list \<Rightarrow> string \<Rightarrow> string" where
  "wr_checkDecoColor rs arg = check_rule (apply_force_rule r_decocolor) rs arg"

definition wr_checkBlockCompositing :: "rules list \<Rightarrow> bool \<Rightarrow> bool" where
  "wr_checkBlockCompositing rs arg = check_rule (apply_force_rule r_blockcompositing) rs arg"

definition wr_checkFSP :: "rules list \<Rightarrow> int \<Rightarrow> int" where
  "wr_checkFSP rs arg = check_rule (apply_force_rule r_fsplevel) rs arg"

definition wr_checkFPP :: "rules list \<Rightarrow> int \<Rightarrow> int" where
  "wr_checkFPP rs arg = check_rule (apply_force_rule r_fpplevel) rs arg"

definition wr_checkAcceptFocus :: "rules list \<Rightarrow> bool \<Rightarrow> bool" where
  "wr_checkAcceptFocus rs arg = check_rule (apply_force_rule r_acceptfocus) rs arg"

definition wr_checkCloseable :: "rules list \<Rightarrow> bool \<Rightarrow> bool" where
  "wr_checkCloseable rs arg = check_rule (apply_force_rule r_closeable) rs arg"

definition wr_checkAutogrouping :: "rules list \<Rightarrow> bool \<Rightarrow> bool" where
  "wr_checkAutogrouping rs arg = check_rule (apply_force_rule r_autogroup) rs arg"

definition wr_checkAutogroupInForeground :: "rules list \<Rightarrow> bool \<Rightarrow> bool" where
  "wr_checkAutogroupInForeground rs arg = check_rule (apply_force_rule r_autogroupfg) rs arg"

definition wr_checkAutogroupById :: "rules list \<Rightarrow> string \<Rightarrow> string" where
  "wr_checkAutogroupById rs arg = check_rule (apply_force_rule r_autogroupid) rs arg"

definition wr_checkStrictGeometry :: "rules list \<Rightarrow> bool \<Rightarrow> bool" where
  "wr_checkStrictGeometry rs arg = check_rule (apply_force_rule r_strictgeometry) rs arg"

definition wr_checkShortcut :: "rules list \<Rightarrow> string \<Rightarrow> bool \<Rightarrow> string" where
  "wr_checkShortcut rs arg init = check_rule (apply_rule r_shortcut init) rs arg"

definition wr_checkDisableGlobalShortcuts :: "rules list \<Rightarrow> bool \<Rightarrow> bool" where
  "wr_checkDisableGlobalShortcuts rs arg = check_rule (apply_force_rule r_disableglobalshortcuts) rs arg"

text \<open>The checks with a rule of their own.\<close>

definition wr_checkPosition :: "rules list \<Rightarrow> point \<Rightarrow> bool \<Rightarrow> point" where
  "wr_checkPosition rs pos init = check_rule (applyPosition init) rs pos"

definition wr_checkSize :: "rules list \<Rightarrow> qsize \<Rightarrow> bool \<Rightarrow> qsize" where
  "wr_checkSize rs s init = check_rule (applySize init) rs s"

definition wr_checkGeometry :: "rules list \<Rightarrow> rect \<Rightarrow> bool \<Rightarrow> rect" where
  "wr_checkGeometry rs a init =
     mk_rect (wr_checkPosition rs (topLeft a) init) (wr_checkSize rs (rect_size a) init)"

definition wr_checkShade :: "rules list \<Rightarrow> ShadeMode \<Rightarrow> bool \<Rightarrow> ShadeMode" where
  "wr_checkShade rs sh init = check_rule (applyShade init) rs sh"

definition wr_checkMaximizeVert :: "rules list \<Rightarrow> MaximizeMode \<Rightarrow> bool \<Rightarrow> MaximizeMode" where
  "wr_checkMaximizeVert rs mode init = check_rule (applyMaximizeVert init) rs mode"

definition wr_checkMaximizeHoriz :: "rules list \<Rightarrow> MaximizeMode \<Rightarrow> bool \<Rightarrow> MaximizeMode" where
  "wr_checkMaximizeHoriz rs mode init = check_rule (applyMaximizeHoriz init) rs mode"

definition wr_checkMaximize :: "rules list \<Rightarrow> MaximizeMode \<Rightarrow> bool \<Rightarrow> MaximizeMode" where
  "wr_checkMaximize rs mode init =
     Maximize (maxVert (wr_checkMaximizeVert rs mode init)) (maxHoriz (wr_checkMaximizeHoriz rs mode init))"

text \<open>\<open>screens\<close> is the number of screens there are.\<close>

definition wr_checkScreen :: "int \<Rightarrow> rules list \<Rightarrow> int \<Rightarrow> bool \<Rightarrow> int" where
  "wr_checkScreen screens rs screen init =
     (if rs = [] then screen
      else let ret = check_rule (apply_rule r_screen init) rs screen
           in if ret \<ge> screens then screen else ret)"

end
