(* ===== verification/RuleStorage.thy ===== *)
theory RuleStorage
  imports Rules
begin

text \<open>
  Rules in configuration files: what a rule written to a group and read back is
  (\<open>readFromCfg\<close> and \<open>write\<close> of theory \<open>Rules\<close>), setting by setting.
\<close>

section \<open>Writing a rule and reading it back\<close>

lemma writeEntries_other: "k \<notin> fst ` set es \<Longrightarrow> writeEntries es cfg k = cfg k"
  by (induction es arbitrary: cfg) auto

lemma writeEntries_entry:
  "distinct (map fst es) \<Longrightarrow> (k, v) \<in> set es \<Longrightarrow> writeEntries es cfg k = v"
proof (induction es arbitrary: cfg)
  case (Cons e es)
  show ?case
  proof (cases "(k, v) = e")
    case True
    then have "k \<notin> fst ` set es" using Cons.prems(1) by (auto simp: image_iff)
    then show ?thesis using True by (auto simp: writeEntries_other)
  next
    case False
    then show ?thesis using Cons by auto
  qed
qed simp

lemma map_fst_writeMatch [simp]: "map fst (writeMatch L wr key p force) = [key, key @ ''match'']"
  by (simp add: writeMatch_def)

lemma map_fst_writeSetting [simp]: "map fst (writeSetting L wr key s) = [key, key @ ''rule'']"
  by (simp add: writeSetting_def)

definition rules_keys :: "string list" where
  "rules_keys =
     [''Description'', ''wmclass'', ''wmclassmatch'', ''wmclasscomplete'', ''windowrole'',
      ''windowrolematch'', ''title'', ''titlematch'', ''clientmachine'', ''clientmachinematch'',
      ''types''] @
     concat (map (\<lambda>k. [k, k @ ''rule''])
      [''placement'', ''position'', ''size'', ''minsize'', ''maxsize'', ''opacityactive'',
       ''opacityinactive'', ''ignoregeometry'', ''desktop'', ''screen'', ''activity'', ''type'',
       ''maximizevert'', ''maximizehoriz'', ''minimize'', ''shade'', ''skiptaskbar'',
       ''skippager'', ''skipswitcher'', ''above'', ''below'', ''fullscreen'', ''noborder'',
       ''decocolor'', ''blockcompositing'', ''fsplevel'', ''fpplevel'', ''acceptfocus'',
       ''closeable'', ''autogroup'', ''autogroupfg'', ''autogroupid'', ''strictgeometry'',
       ''shortcut'', ''disableglobalshortcuts''])"

lemma rules_entries_keys: "map fst (rules_entries L r) = rules_keys"
  by (simp add: rules_entries_def rules_keys_def)

lemma rules_keys_distinct: "distinct rules_keys"
  by code_simp

lemma rules_write_entry:
  "(k, v) \<in> set (rules_entries L r) \<Longrightarrow> rules_write L r cfg k = v"
  unfolding rules_write_def
  by (rule writeEntries_entry) (simp_all add: rules_entries_keys rules_keys_distinct)

lemma rules_write_other: "k \<notin> set rules_keys \<Longrightarrow> rules_write L r cfg k = cfg k"
  unfolding rules_write_def
  by (rule writeEntries_other) (metis rules_entries_keys set_map)

lemma readEntry_None [simp]: "cfg key = None \<Longrightarrow> readEntry rd cfg key d = d"
  by (simp add: readEntry_def)

lemma readEntry_Some: "cfg key = Some e \<Longrightarrow> rd e = Some v \<Longrightarrow> readEntry rd cfg key d = v"
  by (simp add: readEntry_def)

text \<open>How far a setting is applied is stored as a number; a setting that only forces knows
  fewer of them.\<close>

locale rule_storage =
  fixes readRule :: "'e library \<Rightarrow> 'e cfg \<Rightarrow> string \<Rightarrow> rule"
    and admissible :: "rule \<Rightarrow> bool"
  assumes read_number: "codec_ok L \<Longrightarrow> cfg key = Some (wrInt L (rule_num x)) \<Longrightarrow> admissible x \<Longrightarrow>
      readRule L cfg key = x"
    and read_none: "cfg key = None \<Longrightarrow> readRule L cfg key = Unused"
    and read_admissible: "admissible (readRule L cfg key)"
begin

lemma setting_read_back:
  assumes "codec_ok L" "admissible (snd s)" "snd s \<noteq> Unused \<Longrightarrow> rd (wr (fst s)) = Some v"
    and sub: "set (writeSetting L wr key s) \<subseteq> set (rules_entries L r)"
  shows "readEntry rd (rules_write L r cfg) key d = (if snd s = Unused then d else v)"
    and "readRule L (rules_write L r cfg) (key @ ''rule'') = snd s"
proof -
  have w: "(k, e) \<in> set (writeSetting L wr key s) \<Longrightarrow> rules_write L r cfg k = e" for k e
    using sub rules_write_entry by (metis subsetD)
  show "readEntry rd (rules_write L r cfg) key d = (if snd s = Unused then d else v)"
  proof (cases "snd s = Unused")
    case True
    then have "rules_write L r cfg key = None" by (intro w) (simp add: writeSetting_def)
    then show ?thesis using True by simp
  next
    case False
    then have "rules_write L r cfg key = Some (wr (fst s))"
      by (intro w) (simp add: writeSetting_def)
    then show ?thesis using False assms(3) by (simp add: readEntry_Some)
  qed
  show "readRule L (rules_write L r cfg) (key @ ''rule'') = snd s"
  proof (cases "snd s = Unused")
    case True
    then have "rules_write L r cfg (key @ ''rule'') = None"
      by (intro w) (simp add: writeSetting_def)
    then show ?thesis using True by (simp add: read_none)
  next
    case False
    then have "rules_write L r cfg (key @ ''rule'') = Some (wrInt L (rule_num (snd s)))"
      by (intro w) (simp add: writeSetting_def)
    then show ?thesis using assms(1,2) read_number by blast
  qed
qed

end

definition force_admissible :: "rule \<Rightarrow> bool" where
  "force_admissible x \<longleftrightarrow> x \<in> {Unused, DontAffect, Force, ForceTemporarily}"

lemma rdInt_wrInt: "codec_ok L \<Longrightarrow> rdInt L (wrInt L x) = Some x"
  by (simp add: codec_ok_def)

interpretation set_storage: rule_storage readSetRule "\<lambda>_. True"
proof unfold_locales
  fix L :: "'a library" and cfg :: "'a cfg" and key x
  assume "codec_ok L" "cfg key = Some (wrInt L (rule_num x))"
  then show "readSetRule L cfg key = x"
    by (cases x) (simp_all add: readSetRule_def readEntry_Some rdInt_wrInt)
qed (simp_all add: readSetRule_def)

interpretation force_storage: rule_storage readForceRule force_admissible
proof unfold_locales
  fix L :: "'a library" and cfg :: "'a cfg" and key x
  assume "codec_ok L" "cfg key = Some (wrInt L (rule_num x))" "force_admissible x"
  then show "readForceRule L cfg key = x"
    by (cases x) (simp_all add: readForceRule_def readEntry_Some rdInt_wrInt force_admissible_def)
qed (simp_all add: readForceRule_def force_admissible_def Let_def)

text \<open>
  What a stored rule loses: the value of a setting that is not used, and the kind of match of
  an empty text other than the window class.
\<close>

definition forget :: "'a \<Rightarrow> 'a setting \<Rightarrow> 'a setting" where
  "forget d s = (if snd s = Unused then (d, Unused) else s)"

definition forget_match :: "pattern \<Rightarrow> pattern" where
  "forget_match p = (if fst p = [] then ([], UnimportantMatch) else p)"

definition forget_unused :: "rules \<Rightarrow> rules" where
  "forget_unused r = r\<lparr>
     r_windowrole := forget_match (r_windowrole r),
     r_title := forget_match (r_title r),
     r_clientmachine := forget_match (r_clientmachine r),
     r_placement := forget Smart (r_placement r),
     r_position := forget invalidPoint (r_position r),
     r_size := forget noSize (r_size r),
     r_minsize := forget (1, 1) (r_minsize r),
     r_maxsize := forget (32767, 32767) (r_maxsize r),
     r_opacityactive := forget 0 (r_opacityactive r),
     r_opacityinactive := forget 0 (r_opacityinactive r),
     r_ignoregeometry := forget False (r_ignoregeometry r),
     r_desktop := forget 0 (r_desktop r),
     r_screen := forget 0 (r_screen r),
     r_activity := forget [] (r_activity r),
     r_type := forget NET_Normal (r_type r),
     r_maximizevert := forget False (r_maximizevert r),
     r_maximizehoriz := forget False (r_maximizehoriz r),
     r_minimize := forget False (r_minimize r),
     r_shade := forget False (r_shade r),
     r_skiptaskbar := forget False (r_skiptaskbar r),
     r_skippager := forget False (r_skippager r),
     r_skipswitcher := forget False (r_skipswitcher r),
     r_above := forget False (r_above r),
     r_below := forget False (r_below r),
     r_fullscreen := forget False (r_fullscreen r),
     r_noborder := forget False (r_noborder r),
     r_decocolor := forget [] (r_decocolor r),
     r_blockcompositing := forget False (r_blockcompositing r),
     r_fsplevel := forget 0 (r_fsplevel r),
     r_fpplevel := forget 0 (r_fpplevel r),
     r_acceptfocus := forget False (r_acceptfocus r),
     r_closeable := forget False (r_closeable r),
     r_autogroup := forget False (r_autogroup r),
     r_autogroupfg := forget True (r_autogroupfg r),
     r_autogroupid := forget [] (r_autogroupid r),
     r_strictgeometry := forget False (r_strictgeometry r),
     r_shortcut := forget [] (r_shortcut r),
     r_disableglobalshortcuts := forget False (r_disableglobalshortcuts r)\<rparr>"

text \<open>What the readers guarantee, so that writing and reading again changes nothing else.\<close>

definition stable_text :: "(string \<Rightarrow> string) \<Rightarrow> pattern \<Rightarrow> bool" where
  "stable_text conv p \<longleftrightarrow> conv (fst p) = fst p"

text \<open>The patterns that are bytes in the program are written as they are and read as UTF-8.\<close>

definition ascii_patterns :: "rules \<Rightarrow> bool" where
  "ascii_patterns r \<longleftrightarrow> ascii (fst (r_wmclass r)) \<and> ascii (fst (r_windowrole r)) \<and> ascii (fst (r_clientmachine r))"

definition readable :: "'e library \<Rightarrow> rules \<Rightarrow> bool" where
  "readable L r \<longleftrightarrow>
     temporary_state r = 0 \<and> stable_text (toLatin1 L \<circ> toLower L) (r_wmclass r) \<and>
     stable_text (toLatin1 L) (r_windowrole r) \<and>
     stable_text (toLatin1 L \<circ> toLower L) (r_clientmachine r) \<and> ascii_patterns r \<and>
     fst (r_placement r) \<noteq> Unknown \<and>
     (size_isEmpty (fst (r_size r)) \<longrightarrow> snd (r_size r) = Unused \<or> snd (r_size r) = Remember) \<and>
     size_isValid (fst (r_minsize r)) \<and> \<not> size_isEmpty (fst (r_maxsize r)) \<and>
     fst (r_opacityactive r) \<in> {0..100} \<and> fst (r_opacityinactive r) \<in> {0..100} \<and>
     (fst (r_type r) = NET_Unknown \<longrightarrow> snd (r_type r) = Unused) \<and>
     type_num (fst (r_type r)) \<le> 9 \<and>
     (snd (r_decocolor r) \<noteq> Unused \<longrightarrow>
        (\<exists>name. name \<noteq> [] \<and> colorToString (fst (r_decocolor r)) = name \<and>
           fst (r_decocolor r) \<noteq> [] \<and>
           locate L (''color-schemes/'' @ name @ ''.colors'') = fst (r_decocolor r))) \<and>
     fst (r_fsplevel r) \<in> {0..4} \<and> fst (r_fpplevel r) \<in> {0..4} \<and>
     (\<forall>x\<in>{snd (r_placement r), snd (r_minsize r), snd (r_maxsize r), snd (r_opacityactive r), snd (r_opacityinactive r), snd (r_type r), snd (r_decocolor r), snd (r_blockcompositing r), snd (r_fsplevel r), snd (r_fpplevel r), snd (r_acceptfocus r), snd (r_closeable r), snd (r_autogroup r), snd (r_autogroupfg r), snd (r_autogroupid r), snd (r_strictgeometry r), snd (r_disableglobalshortcuts r)}. force_admissible x)"

lemma block_in_entries:
  "set (writeSetting L (wrStr L \<circ> policyToString) ''placement'' (r_placement r)) \<subseteq> set (rules_entries L r)"
  "set (writeSetting L (wrPoint L) ''position'' (r_position r)) \<subseteq> set (rules_entries L r)"
  "set (writeSetting L (wrSize L) ''size'' (r_size r)) \<subseteq> set (rules_entries L r)"
  "set (writeSetting L (wrSize L) ''minsize'' (r_minsize r)) \<subseteq> set (rules_entries L r)"
  "set (writeSetting L (wrSize L) ''maxsize'' (r_maxsize r)) \<subseteq> set (rules_entries L r)"
  "set (writeSetting L (wrInt L) ''opacityactive'' (r_opacityactive r)) \<subseteq> set (rules_entries L r)"
  "set (writeSetting L (wrInt L) ''opacityinactive'' (r_opacityinactive r)) \<subseteq> set (rules_entries L r)"
  "set (writeSetting L (wrBool L) ''ignoregeometry'' (r_ignoregeometry r)) \<subseteq> set (rules_entries L r)"
  "set (writeSetting L (wrInt L) ''desktop'' (r_desktop r)) \<subseteq> set (rules_entries L r)"
  "set (writeSetting L (wrInt L) ''screen'' (r_screen r)) \<subseteq> set (rules_entries L r)"
  "set (writeSetting L (wrStr L) ''activity'' (r_activity r)) \<subseteq> set (rules_entries L r)"
  "set (writeSetting L (wrInt L \<circ> type_num) ''type'' (r_type r)) \<subseteq> set (rules_entries L r)"
  "set (writeSetting L (wrBool L) ''maximizevert'' (r_maximizevert r)) \<subseteq> set (rules_entries L r)"
  "set (writeSetting L (wrBool L) ''maximizehoriz'' (r_maximizehoriz r)) \<subseteq> set (rules_entries L r)"
  "set (writeSetting L (wrBool L) ''minimize'' (r_minimize r)) \<subseteq> set (rules_entries L r)"
  "set (writeSetting L (wrBool L) ''shade'' (r_shade r)) \<subseteq> set (rules_entries L r)"
  "set (writeSetting L (wrBool L) ''skiptaskbar'' (r_skiptaskbar r)) \<subseteq> set (rules_entries L r)"
  "set (writeSetting L (wrBool L) ''skippager'' (r_skippager r)) \<subseteq> set (rules_entries L r)"
  "set (writeSetting L (wrBool L) ''skipswitcher'' (r_skipswitcher r)) \<subseteq> set (rules_entries L r)"
  "set (writeSetting L (wrBool L) ''above'' (r_above r)) \<subseteq> set (rules_entries L r)"
  "set (writeSetting L (wrBool L) ''below'' (r_below r)) \<subseteq> set (rules_entries L r)"
  "set (writeSetting L (wrBool L) ''fullscreen'' (r_fullscreen r)) \<subseteq> set (rules_entries L r)"
  "set (writeSetting L (wrBool L) ''noborder'' (r_noborder r)) \<subseteq> set (rules_entries L r)"
  "set (writeSetting L (wrStr L \<circ> colorToString) ''decocolor'' (r_decocolor r)) \<subseteq> set (rules_entries L r)"
  "set (writeSetting L (wrBool L) ''blockcompositing'' (r_blockcompositing r)) \<subseteq> set (rules_entries L r)"
  "set (writeSetting L (wrInt L) ''fsplevel'' (r_fsplevel r)) \<subseteq> set (rules_entries L r)"
  "set (writeSetting L (wrInt L) ''fpplevel'' (r_fpplevel r)) \<subseteq> set (rules_entries L r)"
  "set (writeSetting L (wrBool L) ''acceptfocus'' (r_acceptfocus r)) \<subseteq> set (rules_entries L r)"
  "set (writeSetting L (wrBool L) ''closeable'' (r_closeable r)) \<subseteq> set (rules_entries L r)"
  "set (writeSetting L (wrBool L) ''autogroup'' (r_autogroup r)) \<subseteq> set (rules_entries L r)"
  "set (writeSetting L (wrBool L) ''autogroupfg'' (r_autogroupfg r)) \<subseteq> set (rules_entries L r)"
  "set (writeSetting L (wrStr L) ''autogroupid'' (r_autogroupid r)) \<subseteq> set (rules_entries L r)"
  "set (writeSetting L (wrBool L) ''strictgeometry'' (r_strictgeometry r)) \<subseteq> set (rules_entries L r)"
  "set (writeSetting L (wrStr L) ''shortcut'' (r_shortcut r)) \<subseteq> set (rules_entries L r)"
  "set (writeSetting L (wrBool L) ''disableglobalshortcuts'' (r_disableglobalshortcuts r)) \<subseteq> set (rules_entries L r)"
  unfolding rules_entries_def set_append by blast+

lemma codec_values:
  assumes "codec_ok L"
  shows "rdStr L (wrStr L x) = Some x" "ascii x \<Longrightarrow> rdStr L (wrBytes L x) = Some x" "rdInt L (wrInt L i) = Some i"
    "rdUint L (wrUint L u) = Some u" "rdBool L (wrBool L b) = Some b"
    "rdPoint L (wrPoint L p) = Some p" "rdSize L (wrSize L z) = Some z"
  using assms unfolding codec_ok_def by blast+

lemma readSet_back:
  assumes "codec_ok L" "\<And>x. rd (wr x) = Some x"
    "set (writeSetting L wr key s) \<subseteq> set (rules_entries L r)"
  shows "readSet L rd (rules_write L r cfg) key d = forget d s"
  using set_storage.setting_read_back [OF assms(1) TrueI _ assms(3), where rd = rd and v = "fst s"] assms(2)
  by (cases s) (simp add: readSet_def forget_def)

lemma readForce_back:
  assumes "codec_ok L" "force_admissible (snd s)" "\<And>x. rd (wr x) = Some x"
    "set (writeSetting L wr key s) \<subseteq> set (rules_entries L r)"
  shows "readForce L rd (rules_write L r cfg) key d = forget d s"
  using force_storage.setting_read_back [OF assms(1,2) _ assms(4), where rd = rd and v = "fst s"] assms(3)
  by (cases s) (simp add: readForce_def forget_def)

lemma readMatch_back:
  assumes "codec_ok L" "func (fst p) = fst p" "func [] = []" "rdStr L (wr (fst p)) = Some (fst p)"
    and sub: "set (writeMatch L wr key p force) \<subseteq> set (rules_entries L r)"
  shows "readMatch L func (rules_write L r cfg) key = (if force then p else forget_match p)"
proof -
  have w: "(k, e) \<in> set (writeMatch L wr key p force) \<Longrightarrow> rules_write L r cfg k = e" for k e
    using sub rules_write_entry by (metis subsetD)
  show ?thesis
  proof (cases "fst p \<noteq> [] \<or> force")
    case True
    then have "rules_write L r cfg key = Some (wr (fst p))"
      "rules_write L r cfg (key @ ''match'') = Some (wrInt L (match_num (snd p)))"
      by (intro w; simp add: writeMatch_def)+
    then have "readEntry (rdStr L) (rules_write L r cfg) key [] = fst p"
      "readEntry (rdInt L) (rules_write L r cfg) (key @ ''match'') 0 = match_num (snd p)"
      using assms(1,4) by (simp_all add: readEntry_Some codec_values)
    then show ?thesis using True assms(2)
      by (cases p; cases "snd p") (auto simp: readMatch_def forget_match_def min_def word_le_nat_alt)
  next
    case False
    then have "rules_write L r cfg key = None" "rules_write L r cfg (key @ ''match'') = None"
      by (intro w; simp add: writeMatch_def)+
    then show ?thesis using False assms(3) by (simp add: readMatch_def forget_match_def)
  qed
qed

lemma plain_settings_back:
  assumes "codec_ok L"
  shows
    "readSet L (rdPoint L) (rules_write L r cfg) ''position'' invalidPoint = forget invalidPoint (r_position r)"
    "readSet L (rdBool L) (rules_write L r cfg) ''ignoregeometry'' False = forget False (r_ignoregeometry r)"
    "readSet L (rdInt L) (rules_write L r cfg) ''desktop'' 0 = forget 0 (r_desktop r)"
    "readSet L (rdInt L) (rules_write L r cfg) ''screen'' 0 = forget 0 (r_screen r)"
    "readSet L (rdStr L) (rules_write L r cfg) ''activity'' [] = forget [] (r_activity r)"
    "readSet L (rdBool L) (rules_write L r cfg) ''maximizevert'' False = forget False (r_maximizevert r)"
    "readSet L (rdBool L) (rules_write L r cfg) ''maximizehoriz'' False = forget False (r_maximizehoriz r)"
    "readSet L (rdBool L) (rules_write L r cfg) ''minimize'' False = forget False (r_minimize r)"
    "readSet L (rdBool L) (rules_write L r cfg) ''shade'' False = forget False (r_shade r)"
    "readSet L (rdBool L) (rules_write L r cfg) ''skiptaskbar'' False = forget False (r_skiptaskbar r)"
    "readSet L (rdBool L) (rules_write L r cfg) ''skippager'' False = forget False (r_skippager r)"
    "readSet L (rdBool L) (rules_write L r cfg) ''skipswitcher'' False = forget False (r_skipswitcher r)"
    "readSet L (rdBool L) (rules_write L r cfg) ''above'' False = forget False (r_above r)"
    "readSet L (rdBool L) (rules_write L r cfg) ''below'' False = forget False (r_below r)"
    "readSet L (rdBool L) (rules_write L r cfg) ''fullscreen'' False = forget False (r_fullscreen r)"
    "readSet L (rdBool L) (rules_write L r cfg) ''noborder'' False = forget False (r_noborder r)"
    "readSet L (rdStr L) (rules_write L r cfg) ''shortcut'' [] = forget [] (r_shortcut r)"
proof -
  show "readSet L (rdPoint L) (rules_write L r cfg) ''position'' invalidPoint = forget invalidPoint (r_position r)"
    by (rule readSet_back [where wr = "wrPoint L", OF assms]) (simp_all add: assms codec_values block_in_entries)
  show "readSet L (rdBool L) (rules_write L r cfg) ''ignoregeometry'' False = forget False (r_ignoregeometry r)"
    by (rule readSet_back [where wr = "wrBool L", OF assms]) (simp_all add: assms codec_values block_in_entries)
  show "readSet L (rdInt L) (rules_write L r cfg) ''desktop'' 0 = forget 0 (r_desktop r)"
    by (rule readSet_back [where wr = "wrInt L", OF assms]) (simp_all add: assms codec_values block_in_entries)
  show "readSet L (rdInt L) (rules_write L r cfg) ''screen'' 0 = forget 0 (r_screen r)"
    by (rule readSet_back [where wr = "wrInt L", OF assms]) (simp_all add: assms codec_values block_in_entries)
  show "readSet L (rdStr L) (rules_write L r cfg) ''activity'' [] = forget [] (r_activity r)"
    by (rule readSet_back [where wr = "wrStr L", OF assms]) (simp_all add: assms codec_values block_in_entries)
  show "readSet L (rdBool L) (rules_write L r cfg) ''maximizevert'' False = forget False (r_maximizevert r)"
    by (rule readSet_back [where wr = "wrBool L", OF assms]) (simp_all add: assms codec_values block_in_entries)
  show "readSet L (rdBool L) (rules_write L r cfg) ''maximizehoriz'' False = forget False (r_maximizehoriz r)"
    by (rule readSet_back [where wr = "wrBool L", OF assms]) (simp_all add: assms codec_values block_in_entries)
  show "readSet L (rdBool L) (rules_write L r cfg) ''minimize'' False = forget False (r_minimize r)"
    by (rule readSet_back [where wr = "wrBool L", OF assms]) (simp_all add: assms codec_values block_in_entries)
  show "readSet L (rdBool L) (rules_write L r cfg) ''shade'' False = forget False (r_shade r)"
    by (rule readSet_back [where wr = "wrBool L", OF assms]) (simp_all add: assms codec_values block_in_entries)
  show "readSet L (rdBool L) (rules_write L r cfg) ''skiptaskbar'' False = forget False (r_skiptaskbar r)"
    by (rule readSet_back [where wr = "wrBool L", OF assms]) (simp_all add: assms codec_values block_in_entries)
  show "readSet L (rdBool L) (rules_write L r cfg) ''skippager'' False = forget False (r_skippager r)"
    by (rule readSet_back [where wr = "wrBool L", OF assms]) (simp_all add: assms codec_values block_in_entries)
  show "readSet L (rdBool L) (rules_write L r cfg) ''skipswitcher'' False = forget False (r_skipswitcher r)"
    by (rule readSet_back [where wr = "wrBool L", OF assms]) (simp_all add: assms codec_values block_in_entries)
  show "readSet L (rdBool L) (rules_write L r cfg) ''above'' False = forget False (r_above r)"
    by (rule readSet_back [where wr = "wrBool L", OF assms]) (simp_all add: assms codec_values block_in_entries)
  show "readSet L (rdBool L) (rules_write L r cfg) ''below'' False = forget False (r_below r)"
    by (rule readSet_back [where wr = "wrBool L", OF assms]) (simp_all add: assms codec_values block_in_entries)
  show "readSet L (rdBool L) (rules_write L r cfg) ''fullscreen'' False = forget False (r_fullscreen r)"
    by (rule readSet_back [where wr = "wrBool L", OF assms]) (simp_all add: assms codec_values block_in_entries)
  show "readSet L (rdBool L) (rules_write L r cfg) ''noborder'' False = forget False (r_noborder r)"
    by (rule readSet_back [where wr = "wrBool L", OF assms]) (simp_all add: assms codec_values block_in_entries)
  show "readSet L (rdStr L) (rules_write L r cfg) ''shortcut'' [] = forget [] (r_shortcut r)"
    by (rule readSet_back [where wr = "wrStr L", OF assms]) (simp_all add: assms codec_values block_in_entries)
qed

lemma plain_force_settings_back:
  assumes "codec_ok L" "readable L r"
  shows
    "readForce L (rdBool L) (rules_write L r cfg) ''blockcompositing'' False = forget False (r_blockcompositing r)"
    "readForce L (rdBool L) (rules_write L r cfg) ''acceptfocus'' False = forget False (r_acceptfocus r)"
    "readForce L (rdBool L) (rules_write L r cfg) ''closeable'' False = forget False (r_closeable r)"
    "readForce L (rdBool L) (rules_write L r cfg) ''autogroup'' False = forget False (r_autogroup r)"
    "readForce L (rdBool L) (rules_write L r cfg) ''autogroupfg'' True = forget True (r_autogroupfg r)"
    "readForce L (rdStr L) (rules_write L r cfg) ''autogroupid'' [] = forget [] (r_autogroupid r)"
    "readForce L (rdBool L) (rules_write L r cfg) ''strictgeometry'' False = forget False (r_strictgeometry r)"
    "readForce L (rdBool L) (rules_write L r cfg) ''disableglobalshortcuts'' False = forget False (r_disableglobalshortcuts r)"
proof -
  have "\<forall>x\<in>{snd (r_placement r), snd (r_minsize r), snd (r_maxsize r), snd (r_opacityactive r), snd (r_opacityinactive r), snd (r_type r), snd (r_decocolor r), snd (r_blockcompositing r), snd (r_fsplevel r), snd (r_fpplevel r), snd (r_acceptfocus r), snd (r_closeable r), snd (r_autogroup r), snd (r_autogroupfg r), snd (r_autogroupid r), snd (r_strictgeometry r), snd (r_disableglobalshortcuts r)}. force_admissible x"
    using assms(2) by (simp add: readable_def)
  note a = this [simplified]
  show "readForce L (rdBool L) (rules_write L r cfg) ''blockcompositing'' False = forget False (r_blockcompositing r)"
    by (rule readForce_back [where wr = "wrBool L", OF assms(1)]) (simp_all add: a assms(1) codec_values block_in_entries)
  show "readForce L (rdBool L) (rules_write L r cfg) ''acceptfocus'' False = forget False (r_acceptfocus r)"
    by (rule readForce_back [where wr = "wrBool L", OF assms(1)]) (simp_all add: a assms(1) codec_values block_in_entries)
  show "readForce L (rdBool L) (rules_write L r cfg) ''closeable'' False = forget False (r_closeable r)"
    by (rule readForce_back [where wr = "wrBool L", OF assms(1)]) (simp_all add: a assms(1) codec_values block_in_entries)
  show "readForce L (rdBool L) (rules_write L r cfg) ''autogroup'' False = forget False (r_autogroup r)"
    by (rule readForce_back [where wr = "wrBool L", OF assms(1)]) (simp_all add: a assms(1) codec_values block_in_entries)
  show "readForce L (rdBool L) (rules_write L r cfg) ''autogroupfg'' True = forget True (r_autogroupfg r)"
    by (rule readForce_back [where wr = "wrBool L", OF assms(1)]) (simp_all add: a assms(1) codec_values block_in_entries)
  show "readForce L (rdStr L) (rules_write L r cfg) ''autogroupid'' [] = forget [] (r_autogroupid r)"
    by (rule readForce_back [where wr = "wrStr L", OF assms(1)]) (simp_all add: a assms(1) codec_values block_in_entries)
  show "readForce L (rdBool L) (rules_write L r cfg) ''strictgeometry'' False = forget False (r_strictgeometry r)"
    by (rule readForce_back [where wr = "wrBool L", OF assms(1)]) (simp_all add: a assms(1) codec_values block_in_entries)
  show "readForce L (rdBool L) (rules_write L r cfg) ''disableglobalshortcuts'' False = forget False (r_disableglobalshortcuts r)"
    by (rule readForce_back [where wr = "wrBool L", OF assms(1)]) (simp_all add: a assms(1) codec_values block_in_entries)
qed

text \<open>The libraries as documented: codings, conversions that can be repeated, and a search that
  returns nothing or a path that ends in the relative path asked for.\<close>

definition library_ok :: "'e library \<Rightarrow> bool" where
  "library_ok L \<longleftrightarrow> codec_ok L \<and>
     (\<forall>s. toLatin1 L (toLower L (toLatin1 L (toLower L s))) = toLatin1 L (toLower L s)) \<and>
     (\<forall>s. toLatin1 L (toLatin1 L s) = toLatin1 L s) \<and> toLatin1 L [] = [] \<and> toLower L [] = [] \<and>
     (\<forall>f. locate L f = [] \<or> suffix (''/'' @ f) (locate L f))"

text \<open>A name of a colour scheme that \<open>baseName\<close> gives bk.\<close>

definition plain_name :: "string \<Rightarrow> bool" where
  "plain_name n \<longleftrightarrow> CHR ''.'' \<notin> set n \<and> CHR ''/'' \<notin> set n"

lemma takeWhile_stops:
  assumes "\<And>x. x \<in> set xs \<Longrightarrow> P x" "\<not> P y"
  shows "takeWhile P (xs @ y # ys) = xs"
  using assms by (induction xs) auto

lemma colorToString_located:
  assumes "plain_name n" "suffix (''/color-schemes/'' @ n @ ''.colors'') path"
  shows "colorToString path = n"
proof -
  obtain pre where path: "path = pre @ ''/color-schemes/'' @ n @ ''.colors''"
    using assms(2) by (auto simp: suffix_def)
  have r: "rev path = rev (n @ ''.colors'') @ CHR ''/'' # rev (pre @ ''/color-schemes'')"
    by (simp add: path)
  have "takeWhile (\<lambda>c. c \<noteq> CHR ''/'') (rev path) = rev (n @ ''.colors'')"
    unfolding r by (rule takeWhile_stops) (use assms(1) in \<open>auto simp: plain_name_def\<close>)
  then have "baseName path = takeWhile (\<lambda>c. c \<noteq> CHR ''.'') (n @ ''.colors'')"
    by (simp add: baseName_def)
  also have "\<dots> = n"
  proof -
    have "takeWhile (\<lambda>c. c \<noteq> CHR ''.'') (n @ CHR ''.'' # ''colors'') = n"
      by (rule takeWhile_stops) (use assms(1) in \<open>auto simp: plain_name_def\<close>)
    then show ?thesis by simp
  qed
  finally show ?thesis by (simp add: colorToString_def path suffix_def)
qed

lemma type_num_readType:
  "cfg key = Some (wrInt L (type_num t)) \<Longrightarrow> codec_ok L \<Longrightarrow> t \<noteq> NET_Unknown \<Longrightarrow>
   type_num t \<le> 9 \<Longrightarrow> readType L cfg key = t"
  by (cases t) (simp_all add: readType_def readEntry_Some rdInt_wrInt)

lemma readType_value: "readType L cfg key = t \<Longrightarrow> type_num t \<le> 9"
  by (auto simp: readType_def Let_def split: if_splits)

lemma readable_force:
  assumes "readable L r"
  shows
    "force_admissible (snd (r_placement r))"
    "force_admissible (snd (r_minsize r))"
    "force_admissible (snd (r_maxsize r))"
    "force_admissible (snd (r_opacityactive r))"
    "force_admissible (snd (r_opacityinactive r))"
    "force_admissible (snd (r_type r))"
    "force_admissible (snd (r_decocolor r))"
    "force_admissible (snd (r_blockcompositing r))"
    "force_admissible (snd (r_fsplevel r))"
    "force_admissible (snd (r_fpplevel r))"
    "force_admissible (snd (r_acceptfocus r))"
    "force_admissible (snd (r_closeable r))"
    "force_admissible (snd (r_autogroup r))"
    "force_admissible (snd (r_autogroupfg r))"
    "force_admissible (snd (r_autogroupid r))"
    "force_admissible (snd (r_strictgeometry r))"
    "force_admissible (snd (r_disableglobalshortcuts r))"
proof -
  have a: "\<forall>x\<in>{snd (r_placement r), snd (r_minsize r), snd (r_maxsize r), snd (r_opacityactive r), snd (r_opacityinactive r), snd (r_type r), snd (r_decocolor r), snd (r_blockcompositing r), snd (r_fsplevel r), snd (r_fpplevel r), snd (r_acceptfocus r), snd (r_closeable r), snd (r_autogroup r), snd (r_autogroupfg r), snd (r_autogroupid r), snd (r_strictgeometry r), snd (r_disableglobalshortcuts r)}. force_admissible x"
    using assms by (simp add: readable_def)
  show "force_admissible (snd (r_placement r))" by (rule bspec [OF a]) simp
  show "force_admissible (snd (r_minsize r))" by (rule bspec [OF a]) simp
  show "force_admissible (snd (r_maxsize r))" by (rule bspec [OF a]) simp
  show "force_admissible (snd (r_opacityactive r))" by (rule bspec [OF a]) simp
  show "force_admissible (snd (r_opacityinactive r))" by (rule bspec [OF a]) simp
  show "force_admissible (snd (r_type r))" by (rule bspec [OF a]) simp
  show "force_admissible (snd (r_decocolor r))" by (rule bspec [OF a]) simp
  show "force_admissible (snd (r_blockcompositing r))" by (rule bspec [OF a]) simp
  show "force_admissible (snd (r_fsplevel r))" by (rule bspec [OF a]) simp
  show "force_admissible (snd (r_fpplevel r))" by (rule bspec [OF a]) simp
  show "force_admissible (snd (r_acceptfocus r))" by (rule bspec [OF a]) simp
  show "force_admissible (snd (r_closeable r))" by (rule bspec [OF a]) simp
  show "force_admissible (snd (r_autogroup r))" by (rule bspec [OF a]) simp
  show "force_admissible (snd (r_autogroupfg r))" by (rule bspec [OF a]) simp
  show "force_admissible (snd (r_autogroupid r))" by (rule bspec [OF a]) simp
  show "force_admissible (snd (r_strictgeometry r))" by (rule bspec [OF a]) simp
  show "force_admissible (snd (r_disableglobalshortcuts r))" by (rule bspec [OF a]) simp
qed

lemma limited_settings_back:
  assumes "codec_ok L" "readable L r"
  shows "readOpacity L (rules_write L r cfg) ''opacityactive'' = forget 0 (r_opacityactive r)"
    "readOpacity L (rules_write L r cfg) ''opacityinactive'' = forget 0 (r_opacityinactive r)"
    "(limit0to4 (readEntry (rdInt L) (rules_write L r cfg) ''fsplevel'' 0),
      readForceRule L (rules_write L r cfg) ''fsplevelrule'') = forget 0 (r_fsplevel r)"
    "(limit0to4 (readEntry (rdInt L) (rules_write L r cfg) ''fpplevel'' 0),
      readForceRule L (rules_write L r cfg) ''fpplevelrule'') = forget 0 (r_fpplevel r)"
proof -
  have b: "fst (r_opacityactive r) \<in> {0..100}" "fst (r_opacityinactive r) \<in> {0..100}"
    "fst (r_fsplevel r) \<in> {0..4}" "fst (r_fpplevel r) \<in> {0..4}"
    using assms(2) by (simp_all add: readable_def)
  note bk = readForce_back [where wr = "wrInt L" and rd = "rdInt L" and cfg = cfg and d = "0", OF assms(1)]
  have o1: "readForce L (rdInt L) (rules_write L r cfg) ''opacityactive'' 0 = forget 0 (r_opacityactive r)"
    and o2: "readForce L (rdInt L) (rules_write L r cfg) ''opacityinactive'' 0 = forget 0 (r_opacityinactive r)"
    and f1: "readForce L (rdInt L) (rules_write L r cfg) ''fsplevel'' 0 = forget 0 (r_fsplevel r)"
    and f2: "readForce L (rdInt L) (rules_write L r cfg) ''fpplevel'' 0 = forget 0 (r_fpplevel r)"
    by (rule bk; simp add: readable_force [OF assms(2)] codec_values assms(1) block_in_entries)+
  show "readOpacity L (rules_write L r cfg) ''opacityactive'' = forget 0 (r_opacityactive r)"
    using b(1) by (auto simp: readOpacity_def o1 forget_def Let_def)
  show "readOpacity L (rules_write L r cfg) ''opacityinactive'' = forget 0 (r_opacityinactive r)"
    using b(2) by (auto simp: readOpacity_def o2 forget_def Let_def)
  show "(limit0to4 (readEntry (rdInt L) (rules_write L r cfg) ''fsplevel'' 0),
      readForceRule L (rules_write L r cfg) ''fsplevelrule'') = forget 0 (r_fsplevel r)"
    using f1 b(3) by (cases "r_fsplevel r") (auto simp: readForce_def forget_def limit0to4_def split: if_splits)
  show "(limit0to4 (readEntry (rdInt L) (rules_write L r cfg) ''fpplevel'' 0),
      readForceRule L (rules_write L r cfg) ''fpplevelrule'') = forget 0 (r_fpplevel r)"
    using f2 b(4) by (cases "r_fpplevel r") (auto simp: readForce_def forget_def limit0to4_def split: if_splits)
qed

lemma size_settings_back:
  assumes "codec_ok L" "readable L r"
  shows "(let s = readSet L (rdSize L) (rules_write L r cfg) ''size'' noSize
          in if size_isEmpty (fst s) \<and> snd s \<noteq> Remember then (fst s, Unused) else s) = forget noSize (r_size r)"
    "(let s = readForce L (rdSize L) (rules_write L r cfg) ''minsize'' noSize
      in if \<not> size_isValid (fst s) then ((1, 1), snd s) else s) = forget (1, 1) (r_minsize r)"
    "(let s = readForce L (rdSize L) (rules_write L r cfg) ''maxsize'' noSize
      in if size_isEmpty (fst s) then ((32767, 32767), snd s) else s) = forget (32767, 32767) (r_maxsize r)"
proof -
  have b: "size_isEmpty (fst (r_size r)) \<Longrightarrow> snd (r_size r) = Unused \<or> snd (r_size r) = Remember"
    "size_isValid (fst (r_minsize r))" "\<not> size_isEmpty (fst (r_maxsize r))"
    using assms(2) by (simp_all add: readable_def)
  have s: "readSet L (rdSize L) (rules_write L r cfg) ''size'' noSize = forget noSize (r_size r)"
    by (rule readSet_back [where wr = "wrSize L", OF assms(1)])
      (simp_all add: assms(1) codec_values block_in_entries)
  have m: "readForce L (rdSize L) (rules_write L r cfg) ''minsize'' noSize = forget noSize (r_minsize r)"
    by (rule readForce_back [where wr = "wrSize L", OF assms(1)])
      (simp_all add: assms(1) codec_values block_in_entries readable_force [OF assms(2)])
  have x: "readForce L (rdSize L) (rules_write L r cfg) ''maxsize'' noSize = forget noSize (r_maxsize r)"
    by (rule readForce_back [where wr = "wrSize L", OF assms(1)])
      (simp_all add: assms(1) codec_values block_in_entries readable_force [OF assms(2)])
  show "(let s = readSet L (rdSize L) (rules_write L r cfg) ''size'' noSize
          in if size_isEmpty (fst s) \<and> snd s \<noteq> Remember then (fst s, Unused) else s) = forget noSize (r_size r)"
    using b(1) unfolding s Let_def forget_def by (auto simp: size_isEmpty_def noSize_def)
  show "(let s = readForce L (rdSize L) (rules_write L r cfg) ''minsize'' noSize
      in if \<not> size_isValid (fst s) then ((1, 1), snd s) else s) = forget (1, 1) (r_minsize r)"
    using b(2) unfolding m Let_def forget_def by (auto simp: size_isValid_def noSize_def)
  show "(let s = readForce L (rdSize L) (rules_write L r cfg) ''maxsize'' noSize
      in if size_isEmpty (fst s) then ((32767, 32767), snd s) else s) = forget (32767, 32767) (r_maxsize r)"
    using b(3) unfolding x Let_def forget_def by (auto simp: size_isEmpty_def noSize_def)
qed

lemma placement_back:
  assumes "codec_ok L" "readable L r"
  shows "(policyFromString (readEntry (rdStr L) (rules_write L r cfg) ''placement'' []) False,
      readForceRule L (rules_write L r cfg) ''placementrule'') = forget Smart (r_placement r)"
proof -
  let ?W = "rules_write L r cfg"
  note bk = force_storage.setting_read_back [OF assms(1) readable_force(1) [OF assms(2)],
      where wr = "wrStr L \<circ> policyToString" and rd = "rdStr L" and cfg = cfg and key = "''placement''"
        and r = r and v = "policyToString (fst (r_placement r))"]
  have e: "readEntry (rdStr L) ?W ''placement'' [] =
      (if snd (r_placement r) = Unused then [] else policyToString (fst (r_placement r)))"
    and rl: "readForceRule L ?W ''placementrule'' = snd (r_placement r)"
    using bk by (simp_all add: assms(1) codec_values block_in_entries)
  have "fst (r_placement r) \<noteq> Unknown" using assms(2) by (simp add: readable_def)
  then have "policyFromString (policyToString (fst (r_placement r))) False = fst (r_placement r)"
    by (simp add: policy_read_write)
  moreover have "policyFromString [] False = Smart" by (simp add: policyFromString_def)
  ultimately show ?thesis unfolding e rl forget_def by (cases "r_placement r") simp
qed

lemma type_back:
  assumes "codec_ok L" "readable L r"
  shows "(let t = readType L (rules_write L r cfg) ''type''
      in (t, if t \<noteq> NET_Unknown then readForceRule L (rules_write L r cfg) ''typerule'' else Unused)) =
    forget NET_Normal (r_type r)"
proof -
  let ?W = "rules_write L r cfg"
  have rl: "readForceRule L ?W ''typerule'' = snd (r_type r)"
    using force_storage.setting_read_back(2) [OF assms(1) readable_force(6) [OF assms(2)],
      where wr = "wrInt L \<circ> type_num" and rd = "rdInt L" and cfg = cfg and key = "''type''"
        and r = r and v = "type_num (fst (r_type r))"]
    by (simp add: assms(1) codec_values block_in_entries)
  have sub: "set (writeSetting L (wrInt L \<circ> type_num) ''type'' (r_type r)) \<subseteq> set (rules_entries L r)"
    by (rule block_in_entries)
  show ?thesis
  proof (cases "snd (r_type r) = Unused")
    case True
    then have "(''type'', None) \<in> set (rules_entries L r)"
      using sub by (simp add: writeSetting_def)
    then have "?W ''type'' = None" by (rule rules_write_entry)
    then show ?thesis using True rl by (simp add: forget_def readType_def)
  next
    case False
    then have "(''type'', Some (wrInt L (type_num (fst (r_type r))))) \<in> set (rules_entries L r)"
      using sub by (simp add: writeSetting_def)
    then have "?W ''type'' = Some (wrInt L (type_num (fst (r_type r))))" by (rule rules_write_entry)
    moreover have "fst (r_type r) \<noteq> NET_Unknown" "type_num (fst (r_type r)) \<le> 9"
      using assms(2) False by (auto simp: readable_def)
    ultimately have "readType L ?W ''type'' = fst (r_type r)"
      using assms(1) by (intro type_num_readType)
    then show ?thesis using False rl \<open>fst (r_type r) \<noteq> NET_Unknown\<close>
      by (cases "r_type r") (simp add: forget_def)
  qed
qed

lemma decocolor_back:
  assumes "codec_ok L" "readable L r"
  shows "(let d = readDecoColor L (rules_write L r cfg)
      in (d, if d = [] then Unused else readForceRule L (rules_write L r cfg) ''decocolorrule'')) =
    forget [] (r_decocolor r)"
proof -
  let ?W = "rules_write L r cfg"
  note bk = force_storage.setting_read_back [OF assms(1) readable_force(7) [OF assms(2)],
      where wr = "wrStr L \<circ> colorToString" and rd = "rdStr L" and cfg = cfg and key = "''decocolor''"
        and r = r and v = "colorToString (fst (r_decocolor r))"]
  have e: "readEntry (rdStr L) ?W ''decocolor'' [] =
      (if snd (r_decocolor r) = Unused then [] else colorToString (fst (r_decocolor r)))"
    and rl: "readForceRule L ?W ''decocolorrule'' = snd (r_decocolor r)"
    using bk by (simp_all add: assms(1) codec_values block_in_entries)
  show ?thesis
  proof (cases "snd (r_decocolor r) = Unused")
    case True
    then show ?thesis by (simp add: readDecoColor_def e forget_def)
  next
    case False
    then obtain name where "name \<noteq> []" "colorToString (fst (r_decocolor r)) = name"
        "fst (r_decocolor r) \<noteq> []"
        "locate L (''color-schemes/'' @ name @ ''.colors'') = fst (r_decocolor r)"
      using assms(2) by (auto simp: readable_def)
    then show ?thesis using False rl
      by (cases "r_decocolor r") (simp add: readDecoColor_def e forget_def Let_def)
  qed
qed

lemma matches_in_entries:
  "set (writeMatch L (wrBytes L) ''wmclass'' (r_wmclass r) True) \<subseteq> set (rules_entries L r)"
  "set (writeMatch L (wrBytes L) ''windowrole'' (r_windowrole r) False) \<subseteq> set (rules_entries L r)"
  "set (writeMatch L (wrStr L) ''title'' (r_title r) False) \<subseteq> set (rules_entries L r)"
  "set (writeMatch L (wrBytes L) ''clientmachine'' (r_clientmachine r) False) \<subseteq> set (rules_entries L r)"
  unfolding rules_entries_def set_append by blast+

lemma matches_back:
  assumes "library_ok L" "readable L r"
  shows "readMatch L (toLatin1 L \<circ> toLower L) (rules_write L r cfg) ''wmclass'' = r_wmclass r"
    "readMatch L (toLatin1 L) (rules_write L r cfg) ''windowrole'' = forget_match (r_windowrole r)"
    "readMatch L (\<lambda>s. s) (rules_write L r cfg) ''title'' = forget_match (r_title r)"
    "readMatch L (toLatin1 L \<circ> toLower L) (rules_write L r cfg) ''clientmachine'' =
       forget_match (r_clientmachine r)"
proof -
  have c: "codec_ok L" "toLatin1 L [] = []" "toLower L [] = []"
    using assms(1) by (simp_all add: library_ok_def)
  have t: "stable_text (toLatin1 L \<circ> toLower L) (r_wmclass r)" "stable_text (toLatin1 L) (r_windowrole r)"
    "stable_text (toLatin1 L \<circ> toLower L) (r_clientmachine r)"
    using assms(2) by (simp_all add: readable_def)
  have "ascii (fst (r_wmclass r))" "ascii (fst (r_windowrole r))" "ascii (fst (r_clientmachine r))"
    using assms(2) by (simp_all add: readable_def ascii_patterns_def)
  note bytes = this [THEN codec_values(2) [OF c(1)]]
  show "readMatch L (toLatin1 L \<circ> toLower L) (rules_write L r cfg) ''wmclass'' = r_wmclass r"
    using readMatch_back [OF c(1) _ _ bytes(1) matches_in_entries(1), where func = "toLatin1 L \<circ> toLower L"] t(1) c
    by (simp add: stable_text_def)
  show "readMatch L (toLatin1 L) (rules_write L r cfg) ''windowrole'' = forget_match (r_windowrole r)"
    using readMatch_back [OF c(1) _ _ bytes(2) matches_in_entries(2), where func = "toLatin1 L"] t(2) c
    by (simp add: stable_text_def)
  show "readMatch L (\<lambda>s. s) (rules_write L r cfg) ''title'' = forget_match (r_title r)"
    using readMatch_back [OF c(1) _ _ codec_values(1) [OF c(1)] matches_in_entries(3), where func = "\<lambda>s. s"] by simp
  show "readMatch L (toLatin1 L \<circ> toLower L) (rules_write L r cfg) ''clientmachine'' =
       forget_match (r_clientmachine r)"
    using readMatch_back [OF c(1) _ _ bytes(3) matches_in_entries(4), where func = "toLatin1 L \<circ> toLower L"] t(3) c
    by (simp add: stable_text_def)
qed

lemma single_entries_back:
  assumes "codec_ok L"
  shows "readEntry (rdStr L) (rules_write L r Map.empty) ''Description'' [] = r_description r"
    "readEntry (rdStr L) (rules_write L r Map.empty) ''description'' [] = []"
    "readEntry (rdBool L) (rules_write L r cfg) ''wmclasscomplete'' False = r_wmclasscomplete r"
    "readEntry (rdUint L) (rules_write L r cfg) ''types'' AllTypesMask = r_types r"
proof -
  have "(''Description'', Some (wrStr L (r_description r))) \<in> set (rules_entries L r)"
    "(''wmclasscomplete'', Some (wrBool L (r_wmclasscomplete r))) \<in> set (rules_entries L r)"
    "(''types'', if r_types r \<noteq> AllTypesMask then Some (wrUint L (r_types r)) else None) \<in> set (rules_entries L r)"
    unfolding rules_entries_def set_append by simp_all
  note w = this [THEN rules_write_entry]
  have "rules_write L r Map.empty ''description'' = None"
    by (subst rules_write_other) (simp_all add: rules_keys_def)
  then show "readEntry (rdStr L) (rules_write L r Map.empty) ''description'' [] = []" by simp
  show "readEntry (rdStr L) (rules_write L r Map.empty) ''Description'' [] = r_description r"
    "readEntry (rdBool L) (rules_write L r cfg) ''wmclasscomplete'' False = r_wmclasscomplete r"
    using w assms by (simp_all add: readEntry_Some codec_values)
  show "readEntry (rdUint L) (rules_write L r cfg) ''types'' AllTypesMask = r_types r"
    using w(3) assms by (cases "r_types r = AllTypesMask") (simp_all add: readEntry_Some codec_values)
qed

text \<open>A stored rule comes back without what is not stored.\<close>

lemma read_write_readable:
  assumes "library_ok L" "readable L r"
  shows "readFromCfg L (rules_write L r Map.empty) = forget_unused r"
proof -
  have c: "codec_ok L" using assms(1) by (simp add: library_ok_def)
  have t: "temporary_state r = 0" using assms(2) by (simp add: readable_def)
  show ?thesis
    unfolding readFromCfg_def matches_back [OF assms] single_entries_back [OF c]
      plain_settings_back [OF c] plain_force_settings_back [OF c assms(2)]
      limited_settings_back [OF c assms(2)] size_settings_back [OF c assms(2)]
      placement_back [OF c assms(2)] type_back [OF c assms(2)] decocolor_back [OF c assms(2)]
    by (rule rules.equality) (simp_all add: forget_unused_def t)
qed

lemma readFromCfg_readable:
  assumes "library_ok L"
    and "plain_name (readEntry (rdStr L) cfg ''decocolor'' [])" "ascii_patterns (readFromCfg L cfg)"
  shows "readable L (readFromCfg L cfg)"
proof -
  have adm: "force_admissible (readForceRule L cfg k)" for k by (rule force_storage.read_admissible)
  have unused: "force_admissible Unused" by (simp add: force_admissible_def)
  have conv: "toLatin1 L (toLower L (toLatin1 L (toLower L s))) = toLatin1 L (toLower L s)"
    "toLatin1 L (toLatin1 L s) = toLatin1 L s" for s
    using assms(1) by (simp_all add: library_ok_def)
  let ?n = "readEntry (rdStr L) cfg ''decocolor'' []"
  have deco: "\<exists>name. name \<noteq> [] \<and> colorToString (readDecoColor L cfg) = name \<and>
      readDecoColor L cfg \<noteq> [] \<and> locate L (''color-schemes/'' @ name @ ''.colors'') = readDecoColor L cfg"
    if "readDecoColor L cfg \<noteq> []"
  proof -
    have n: "?n \<noteq> []" using that by (auto simp: readDecoColor_def)
    then have d: "readDecoColor L cfg = locate L (''color-schemes/'' @ ?n @ ''.colors'')"
      by (simp add: readDecoColor_def Let_def)
    have "suffix (''/'' @ ''color-schemes/'' @ ?n @ ''.colors'') (readDecoColor L cfg)"
      using assms(1) that unfolding d library_ok_def by blast
    then have "colorToString (readDecoColor L cfg) = ?n"
      using assms(2) by (intro colorToString_located) simp_all
    then show ?thesis using n that d by auto
  qed
  have fp: "policyFromString s b \<noteq> Unknown" for s b by (rule policyFromString_known)
  have ty: "type_num (readType L cfg k) \<le> 9" for k by (rule readType_value) simp
  let ?r = "readFromCfg L cfg"
  have m: "stable_text (toLatin1 L \<circ> toLower L) (r_wmclass ?r)" "stable_text (toLatin1 L) (r_windowrole ?r)"
    "stable_text (toLatin1 L \<circ> toLower L) (r_clientmachine ?r)"
    by (simp_all add: readFromCfg_def readMatch_def stable_text_def conv)
  have z: "size_isEmpty (fst (r_size ?r)) \<longrightarrow> snd (r_size ?r) = Unused \<or> snd (r_size ?r) = Remember"
    "size_isValid (fst (r_minsize ?r))" "\<not> size_isEmpty (fst (r_maxsize ?r))"
    by (simp_all add: readFromCfg_def Let_def size_isEmpty_def size_isValid_def)
  have v: "fst (r_opacityactive ?r) \<in> {0..100}" "fst (r_opacityinactive ?r) \<in> {0..100}"
    "fst (r_fsplevel ?r) \<in> {0..4}" "fst (r_fpplevel ?r) \<in> {0..4}"
    by (simp_all add: readFromCfg_def readOpacity_def limit0to4_def Let_def)
  have y: "fst (r_type ?r) = NET_Unknown \<longrightarrow> snd (r_type ?r) = Unused" "type_num (fst (r_type ?r)) \<le> 9"
    by (simp_all add: readFromCfg_def Let_def ty)
  have d: "snd (r_decocolor ?r) \<noteq> Unused \<longrightarrow> (\<exists>name. name \<noteq> [] \<and>
      colorToString (fst (r_decocolor ?r)) = name \<and> fst (r_decocolor ?r) \<noteq> [] \<and>
      locate L (''color-schemes/'' @ name @ ''.colors'') = fst (r_decocolor ?r))"
    using deco by (simp add: readFromCfg_def Let_def)
  have f: "force_admissible (snd (r_placement ?r))"
    "force_admissible (snd (r_minsize ?r))"
    "force_admissible (snd (r_maxsize ?r))"
    "force_admissible (snd (r_opacityactive ?r))"
    "force_admissible (snd (r_opacityinactive ?r))"
    "force_admissible (snd (r_type ?r))"
    "force_admissible (snd (r_decocolor ?r))"
    "force_admissible (snd (r_blockcompositing ?r))"
    "force_admissible (snd (r_fsplevel ?r))"
    "force_admissible (snd (r_fpplevel ?r))"
    "force_admissible (snd (r_acceptfocus ?r))"
    "force_admissible (snd (r_closeable ?r))"
    "force_admissible (snd (r_autogroup ?r))"
    "force_admissible (snd (r_autogroupfg ?r))"
    "force_admissible (snd (r_autogroupid ?r))"
    "force_admissible (snd (r_strictgeometry ?r))"
    "force_admissible (snd (r_disableglobalshortcuts ?r))"
    by (simp_all add: readFromCfg_def readForce_def readOpacity_def Let_def adm unused)
  have p: "temporary_state ?r = 0" "fst (r_placement ?r) \<noteq> Unknown"
    by (simp_all add: readFromCfg_def fp)
  show ?thesis unfolding readable_def using m z v y d p f assms(3) by blast
qed

end
