(* ===== verification/RuleBook.thy ===== *)
theory RuleBook
  imports RuleStorage
begin

text \<open>
  The rules at work: which rule decides what a window gets, what the rules remember of a
  window, and the rule book (\<open>RuleBook\<close> and \<open>WindowRules\<close> of \<^verbatim>\<open>rules.cpp\<close>) with the pointers
  it shares with the windows, its file, its temporary rules and the rules that are used up.
\<close>

section \<open>Which rule decides\<close>

text \<open>
  Both kinds of setting stop the search at the first rule that uses the setting, whether or
  not that rule imposes its value.
\<close>

locale setting_kind =
  fixes imposes :: "rule \<Rightarrow> bool"
    and stops :: "rule \<Rightarrow> bool"
  assumes imposes_used: "imposes x \<Longrightarrow> x \<noteq> Unused"
    and stops_used: "stops x \<longleftrightarrow> x \<noteq> Unused"
begin

lemma decided:
  assumes "\<And>r arg. apply_to r arg = (if imposes (snd (var r)) then f r arg else arg, stops (snd (var r)))"
  shows "check_rule apply_to rs arg =
    (case find (\<lambda>r. snd (var r) \<noteq> Unused) rs of
       None \<Rightarrow> arg | Some r \<Rightarrow> if imposes (snd (var r)) then f r arg else arg)"
proof (induction rs arbitrary: arg)
  case (Cons r rs)
  show ?case
  proof (cases "snd (var r) = Unused")
    case True
    then have "apply_to r arg = (arg, False)"
      using assms imposes_used stops_used by auto
    then show ?thesis using Cons.IH True by simp
  next
    case False
    then show ?thesis using assms stops_used by simp
  qed
qed simp

end

text \<open>When a setting is imposed: forcing ones always, the others on a window's first mapping.\<close>

definition in_force :: "bool \<Rightarrow> rule \<Rightarrow> bool" where
  "in_force init x \<longleftrightarrow>
     x \<in> {Force, ApplyNow, ForceTemporarily} \<or> init \<and> x \<in> {Apply, Remember}"

lemma checkSetRule_in_force: "checkSetRule x init = in_force init x"
  by (cases x) (simp_all add: checkSetRule_def in_force_def)

interpretation set_kind: setting_kind "\<lambda>x. checkSetRule x init" checkSetStop for init
  by unfold_locales (auto simp: checkSetRule_def checkSetStop_def)

interpretation force_kind: setting_kind checkForceRule checkForceStop
  by unfold_locales (auto simp: checkForceRule_def checkForceStop_def)

definition deciding :: "(rules \<Rightarrow> 'a setting) \<Rightarrow> rules list \<Rightarrow> rules option" where
  "deciding var rs = find (\<lambda>r. snd (var r) \<noteq> Unused) rs"

text \<open>The value a list of rules should give a setting.\<close>

definition imposed :: "(rules \<Rightarrow> 'a setting) \<Rightarrow> (rule \<Rightarrow> bool) \<Rightarrow> rules list \<Rightarrow> 'a \<Rightarrow> 'a" where
  "imposed var active rs arg =
     (case deciding var rs of
        None \<Rightarrow> arg
      | Some r \<Rightarrow> if active (snd (var r)) then fst (var r) else arg)"

text \<open>The same for a setting some values of which are no values.\<close>

definition valid_imposed ::
    "(rules \<Rightarrow> 'a setting) \<Rightarrow> ('a \<Rightarrow> bool) \<Rightarrow> (rule \<Rightarrow> bool) \<Rightarrow> rules list \<Rightarrow> 'a \<Rightarrow> 'a" where
  "valid_imposed var valid active rs arg =
     (case deciding var rs of
        None \<Rightarrow> arg
      | Some r \<Rightarrow> if valid (fst (var r)) \<and> active (snd (var r)) then fst (var r) else arg)"

lemma check_valid:
  assumes "\<And>r arg. apply_to r arg =
    (if valid (fst (var r)) \<and> in_force init (snd (var r)) then fst (var r) else arg, checkSetStop (snd (var r)))"
  shows "check_rule apply_to rs arg = valid_imposed var valid (in_force init) rs arg"
  by (induction rs arbitrary: arg)
    (auto simp: assms valid_imposed_def deciding_def checkSetStop_def in_force_def)

lemma check_set: "check_rule (apply_rule var init) rs arg = imposed var (in_force init) rs arg"
  unfolding imposed_def deciding_def checkSetRule_in_force [symmetric]
  by (rule set_kind.decided) (simp add: apply_rule_def)

lemma check_force:
  "check_rule (apply_force_rule var) rs arg = imposed var (\<lambda>x. x = Force \<or> x = ForceTemporarily) rs arg"
  unfolding imposed_def deciding_def checkForceRule_def [symmetric]
  by (rule force_kind.decided) (simp add: apply_force_rule_def)

text \<open>C16: For every setting, the first rule of the window that uses it decides alone: it imposes its
  value when it is forced, used now, or initial on a first mapping, and otherwise (a rule that
  says not to affect the setting included) leaves the window's own value; later rules are
  not looked at.  This holds for the settings that are applied as they are and for the checks with a
  rule of their own: shade, maximizing, position and size (an invalid value of the deciding rule leaves the
  window's, and no other rule is asked), geometry, which puts the two together, and screen (a screen that
  does not exist is not taken).\<close>

theorem checks_decided_by_first_rule:
  "check_rule (apply_rule var init) rs arg = imposed var (in_force init) rs arg \<and>
   check_rule (apply_force_rule fvar) rs farg = imposed fvar (\<lambda>x. x = Force \<or> x = ForceTemporarily) rs farg \<and>
   wr_checkShade rs sh init =
     (case deciding r_shade rs of
        None \<Rightarrow> sh
      | Some r \<Rightarrow> if in_force init (snd (r_shade r))
          then if \<not> fst (r_shade r) then ShadeNone else if sh = ShadeNone then ShadeNormal else sh
          else sh) \<and>
   wr_checkMaximize rs mode init =
     Maximize (imposed r_maximizevert (in_force init) rs (maxVert mode))
       (imposed r_maximizehoriz (in_force init) rs (maxHoriz mode)) \<and>
   wr_checkPosition rs pos init = valid_imposed r_position (\<lambda>p. p \<noteq> invalidPoint) (in_force init) rs pos \<and>
   wr_checkSize rs sz init = valid_imposed r_size size_isValid (in_force init) rs sz \<and>
   wr_checkGeometry rs a init =
     mk_rect (valid_imposed r_position (\<lambda>p. p \<noteq> invalidPoint) (in_force init) rs (topLeft a))
       (valid_imposed r_size size_isValid (in_force init) rs (rect_size a)) \<and>
   wr_checkScreen screens rs scr init =
     (let s = imposed r_screen (in_force init) rs scr in if s \<ge> screens then scr else s)"
proof -
  have p: "wr_checkPosition rs q init = valid_imposed r_position (\<lambda>p. p \<noteq> invalidPoint) (in_force init) rs q" for q
    unfolding wr_checkPosition_def
    by (rule check_valid) (simp add: applyPosition_def checkSetRule_in_force)
  have z: "wr_checkSize rs q init = valid_imposed r_size size_isValid (in_force init) rs q" for q
    unfolding wr_checkSize_def by (rule check_valid) (simp add: applySize_def checkSetRule_in_force)
  have scr: "wr_checkScreen screens rs scr init =
      (let s = imposed r_screen (in_force init) rs scr in if s \<ge> screens then scr else s)"
    by (simp add: wr_checkScreen_def check_set imposed_def deciding_def Let_def)
  have s: "wr_checkShade rs sh init = (case deciding r_shade rs of None \<Rightarrow> sh
      | Some r \<Rightarrow> if checkSetRule (snd (r_shade r)) init
          then if \<not> fst (r_shade r) then ShadeNone else if sh = ShadeNone then ShadeNormal else sh
          else sh)"
    unfolding wr_checkShade_def deciding_def
    by (rule set_kind.decided) (simp add: applyShade_def Let_def)
  have v: "wr_checkMaximizeVert rs mode init = (case deciding r_maximizevert rs of None \<Rightarrow> mode
      | Some r \<Rightarrow> if checkSetRule (snd (r_maximizevert r)) init
          then Maximize (fst (r_maximizevert r)) (maxHoriz mode) else mode)"
    unfolding wr_checkMaximizeVert_def deciding_def
    by (rule set_kind.decided) (simp add: applyMaximizeVert_def)
  have h: "wr_checkMaximizeHoriz rs mode init = (case deciding r_maximizehoriz rs of None \<Rightarrow> mode
      | Some r \<Rightarrow> if checkSetRule (snd (r_maximizehoriz r)) init
          then Maximize (maxVert mode) (fst (r_maximizehoriz r)) else mode)"
    unfolding wr_checkMaximizeHoriz_def deciding_def
    by (rule set_kind.decided) (simp add: applyMaximizeHoriz_def)
  have "maxVert (wr_checkMaximizeVert rs mode init) =
      imposed r_maximizevert (in_force init) rs (maxVert mode)"
    by (simp add: v imposed_def checkSetRule_in_force split: option.split)
  moreover have "maxHoriz (wr_checkMaximizeHoriz rs mode init) =
      imposed r_maximizehoriz (in_force init) rs (maxHoriz mode)"
    by (simp add: h imposed_def checkSetRule_in_force split: option.split)
  ultimately show ?thesis
    by (simp add: check_set check_force s wr_checkMaximize_def checkSetRule_in_force p z scr wr_checkGeometry_def
      cong: option.case_cong)
qed

lemma mk_rect_split: "mk_rect (topLeft a) (rect_size a) = a"
  by (simp add: mk_rect_def topLeft_def rect_size_def)

lemma check_rule_single: "check_rule f [r] arg = fst (f r arg)"
  by (cases "f r arg") simp

text \<open>The two ways to impose a geometry agree: one rule applied to a whole rectangle gives what the
  checks of its position and its size give.\<close>

lemma geometry_of_one_rule:
  "fst (applyGeometry init r a) = wr_checkGeometry [r] a init"
proof -
  have tl: "topLeft (mk_rect p s) = p" for p s by (simp add: topLeft_def mk_rect_def)
  have sz: "rect_size (mk_rect p s) = s" for p s by (simp add: rect_size_def mk_rect_def)
  have pos: "snd (applyPosition init r p) = False \<Longrightarrow> fst (applyPosition init r p) = p" for p
    by (cases "snd (r_position r)") (simp_all add: applyPosition_def checkSetStop_def checkSetRule_def)
  have size: "snd (applySize init r s) = False \<Longrightarrow> fst (applySize init r s) = s" for s
    by (cases "snd (r_size r)") (simp_all add: applySize_def checkSetStop_def checkSetRule_def)
  obtain p moved s resized where e: "applyPosition init r (topLeft a) = (p, moved)"
    "applySize init r (rect_size a) = (s, resized)" by (metis surj_pair)
  have "\<not> moved \<Longrightarrow> p = topLeft a" "\<not> resized \<Longrightarrow> s = rect_size a"
    using pos [of "topLeft a"] size [of "rect_size a"] e by auto
  then have "fst (applyGeometry init r a) = mk_rect p s"
    by (cases moved; cases resized)
      (simp_all add: applyGeometry_def e tl mk_rect_split [of a])
  moreover have "wr_checkGeometry [r] a init = mk_rect p s"
    by (simp add: wr_checkGeometry_def wr_checkPosition_def wr_checkSize_def e)
  ultimately show ?thesis by simp
qed

section \<open>What is remembered\<close>

lemma now_remember_value:
  "fst (now_remember b new s) = (if b \<and> snd s = Remember then (new, Remember) else s)"
  "snd (now_remember b new s) \<longleftrightarrow> fst (now_remember b new s) \<noteq> s"
  by (cases s; auto simp: now_remember_def)+

lemma now_remember_again:
  "now_remember b new (fst (now_remember b new s)) = (fst (now_remember b new s), False)"
  by (cases s) (auto simp: now_remember_def)

lemma rules_update_rule:
  "fst (rules_update c sel r) =
     (let mode = w_maximizeMode c; full = w_fullScreen c;
          new_pos = not_maximized mode (fst (r_position r)) (w_pos c);
          new_size = not_maximized mode (fst (r_size r)) (w_size c)
      in r\<lparr>r_position := fst (now_remember (Position \<in> sel \<and> \<not> full) new_pos (r_position r)),
           r_size := fst (now_remember (Size \<in> sel \<and> \<not> full) new_size (r_size r)),
           r_desktop := fst (now_remember (Desktop \<in> sel) (w_desktop c) (r_desktop r)),
           r_screen := fst (now_remember (Screen \<in> sel) (w_screen c) (r_screen r)),
           r_activity := fst (now_remember (Activity \<in> sel) (join_comma (w_activities c)) (r_activity r)),
           r_maximizevert := fst (now_remember (MaximizeVert \<in> sel) (maxVert mode) (r_maximizevert r)),
           r_maximizehoriz := fst (now_remember (MaximizeHoriz \<in> sel) (maxHoriz mode) (r_maximizehoriz r)),
           r_minimize := fst (now_remember (Minimize \<in> sel) (w_minimized c) (r_minimize r)),
           r_shade := fst (now_remember (Shade \<in> sel) (w_shadeMode c \<noteq> ShadeNone) (r_shade r)),
           r_skiptaskbar := fst (now_remember (SkipTaskbar \<in> sel) (w_skipTaskbar c) (r_skiptaskbar r)),
           r_skippager := fst (now_remember (SkipPager \<in> sel) (w_skipPager c) (r_skippager r)),
           r_skipswitcher := fst (now_remember (SkipSwitcher \<in> sel) (w_skipSwitcher c) (r_skipswitcher r)),
           r_above := fst (now_remember (Above \<in> sel) (w_keepAbove c) (r_above r)),
           r_below := fst (now_remember (Below \<in> sel) (w_keepBelow c) (r_below r)),
           r_fullscreen := fst (now_remember (Fullscreen \<in> sel) full (r_fullscreen r)),
           r_noborder := fst (now_remember (NoBorder \<in> sel) (w_noBorder c) (r_noborder r))\<rparr>)"
  by (simp add: rules_update_def Let_def case_prod_unfold)

lemma remembered_fields_unchanged:
  "r\<lparr>r_position := a0, r_size := a1, r_desktop := a2, r_screen := a3, r_activity := a4, r_maximizevert := a5, r_maximizehoriz := a6, r_minimize := a7, r_shade := a8, r_skiptaskbar := a9, r_skippager := a10, r_skipswitcher := a11, r_above := a12, r_below := a13, r_fullscreen := a14, r_noborder := a15\<rparr> = r \<longleftrightarrow>
   a0 = r_position r \<and> a1 = r_size r \<and> a2 = r_desktop r \<and> a3 = r_screen r \<and> a4 = r_activity r \<and> a5 = r_maximizevert r \<and> a6 = r_maximizehoriz r \<and> a7 = r_minimize r \<and> a8 = r_shade r \<and> a9 = r_skiptaskbar r \<and> a10 = r_skippager r \<and> a11 = r_skipswitcher r \<and> a12 = r_above r \<and> a13 = r_below r \<and> a14 = r_fullscreen r \<and> a15 = r_noborder r"
  by (cases r) simp

lemma rules_update_flag: "snd (rules_update c sel r) \<longleftrightarrow> fst (rules_update c sel r) \<noteq> r"
  unfolding rules_update_rule Let_def remembered_fields_unchanged
  by (simp add: rules_update_def Let_def case_prod_unfold now_remember_value(2))

lemma now_remember_snd [simp]: "snd (fst (now_remember b new s)) = snd s"
  by (simp add: now_remember_def)

lemma now_remember_kept: "\<not> (b \<and> snd s = Remember) \<Longrightarrow> fst (now_remember b new s) = s"
  by (auto simp: now_remember_def)

lemma rules_update_again:
  "fst (rules_update c sel (fst (rules_update c sel r))) = fst (rules_update c sel r)"
proof -
  have pos: "fst (now_remember b (not_maximized m (fst s') p) s') = s'"
    if "s' = fst (now_remember b (not_maximized m (fst s) p) s)"
    for b m p and s s' :: "(int \<times> int) setting"
    using that by (cases s) (auto simp: now_remember_def not_maximized_def)
  show ?thesis
    unfolding rules_update_rule Let_def
    by (rule rules.equality) (simp_all add: now_remember_again pos [OF refl])
qed

text \<open>Remembering a window is stable: a second update with the same window changes nothing, a change is
  reported exactly when the rule changed, and a window that is mapped again under the updated
  rule gets the state of the one it remembers (its position and size when it was neither
  maximised nor full screen).\<close>

lemma update_remembers:
  assumes "r' = fst (rules_update c sel r)"
  shows "rules_update c sel r' = (r', False) \<and> (snd (rules_update c sel r) \<longleftrightarrow> r' \<noteq> r) \<and>
    (snd (r_desktop r) = Remember \<and> Desktop \<in> sel \<longrightarrow> wr_checkDesktop [r'] d True = w_desktop c) \<and>
    (snd (r_above r) = Remember \<and> Above \<in> sel \<longrightarrow> wr_checkKeepAbove [r'] b True = w_keepAbove c) \<and>
    (snd (r_minimize r) = Remember \<and> Minimize \<in> sel \<longrightarrow>
      wr_checkMinimize [r'] b True = w_minimized c) \<and>
    (snd (r_position r) = Remember \<and> snd (r_size r) = Remember \<and> {Position, Size} \<subseteq> sel \<and>
      \<not> w_fullScreen c \<and> w_maximizeMode c = Maximize False False \<and> w_pos c \<noteq> invalidPoint \<and>
      size_isValid (w_size c) \<longrightarrow> wr_checkGeometry [r'] a True = mk_rect (w_pos c) (w_size c))"
proof -
  have "fst (rules_update c sel r') = r'" unfolding assms by (rule rules_update_again)
  then have again: "rules_update c sel r' = (r', False)"
    by (metis rules_update_flag prod.collapse)
  have flag: "snd (rules_update c sel r) \<longleftrightarrow> r' \<noteq> r" by (simp add: assms rules_update_flag)
  note sel = assms [unfolded rules_update_rule Let_def]
  have "snd (r_desktop r) = Remember \<and> Desktop \<in> sel \<longrightarrow> wr_checkDesktop [r'] d True = w_desktop c"
    "snd (r_above r) = Remember \<and> Above \<in> sel \<longrightarrow> wr_checkKeepAbove [r'] b True = w_keepAbove c"
    "snd (r_minimize r) = Remember \<and> Minimize \<in> sel \<longrightarrow> wr_checkMinimize [r'] b True = w_minimized c"
    by (simp_all add: sel wr_checkDesktop_def wr_checkKeepAbove_def wr_checkMinimize_def check_rule_single
      apply_rule_def now_remember_def checkSetRule_def)
  moreover have "wr_checkGeometry [r'] a True = mk_rect (w_pos c) (w_size c)"
    if "snd (r_position r) = Remember \<and> snd (r_size r) = Remember \<and> {Position, Size} \<subseteq> sel \<and>
      \<not> w_fullScreen c \<and> w_maximizeMode c = Maximize False False \<and> w_pos c \<noteq> invalidPoint \<and>
      size_isValid (w_size c)"
    using that
    by (simp add: sel wr_checkGeometry_def wr_checkPosition_def wr_checkSize_def check_rule_single
      applyPosition_def applySize_def now_remember_def checkSetRule_def not_maximized_def)
  ultimately show ?thesis using again flag by blast
qed

section \<open>The rule book and the rules of a window\<close>

text \<open>
  Rules are shared: the book and the windows hold pointers to them.  \<open>rule_at\<close> is the store,
  \<open>None\<close> at an address that is not allocated; an operation that follows such a pointer, which
  is undefined behaviour in the code, has no result.  A group of the configuration file is
  \<open>General\<close> or has the number of a rule as its name.
\<close>

datatype cfg_group = General | Numbered nat

record 'e rulebook =
  rule_at :: "nat \<Rightarrow> rules option"
  next_address :: nat
  m_rules :: "nat list"
  client_rules :: "win \<Rightarrow> nat list"
  caption_tracked :: "win \<Rightarrow> bool"
  m_updatesDisabled :: bool
  m_updateTimer :: bool
  cleanup_timers :: nat
  rulesrc :: "cfg_group \<rightharpoonup> 'e cfg"

definition set_rule :: "nat \<Rightarrow> rules option \<Rightarrow> 'e rulebook \<Rightarrow> 'e rulebook" where
  "set_rule p v b = b\<lparr>rule_at := (rule_at b)(p := v)\<rparr>"

definition new_rule :: "rules \<Rightarrow> 'e rulebook \<Rightarrow> nat \<times> 'e rulebook" where
  "new_rule r b = (next_address b, (set_rule (next_address b) (Some r) b)\<lparr>next_address := next_address b + 1\<rparr>)"

text \<open>The rules behind the pointers of a list.\<close>

primrec deref :: "'e rulebook \<Rightarrow> nat list \<Rightarrow> rules list option" where
  "deref b [] = Some []"
| "deref b (p # ps) = do { r \<leftarrow> rule_at b p; rs \<leftarrow> deref b ps; Some (r # rs) }"

definition isTemporary :: "rules \<Rightarrow> bool" where
  "isTemporary r = (temporary_state r > 0)"

text \<open>\<open>discardTemporary\<close>: the rule after, and whether it is to be deleted.\<close>

definition rules_discardTemporary :: "bool \<Rightarrow> rules \<Rightarrow> rules \<times> bool" where
  "rules_discardTemporary force r =
     (if temporary_state r = 0 then (r, False)
      else if force then (r, True)
      else let r' = r\<lparr>temporary_state := temporary_state r - 1\<rparr>
           in (r', temporary_state r' = 0))"

definition requestDiskStorage :: "'e rulebook \<Rightarrow> 'e rulebook" where
  "requestDiskStorage b = b\<lparr>m_updateTimer := True\<rparr>"

text \<open>The loop of \<open>find\<close>: what stays in the book, what matches, and whether the caption of the
  window is tracked.\<close>

primrec find_loop ::
    "'e library \<Rightarrow> ruled \<Rightarrow> bool \<Rightarrow> 'e rulebook \<Rightarrow> nat list \<Rightarrow> (nat list \<times> nat list \<times> bool) option" where
  "find_loop L c ignore_temporary b [] = Some ([], [], False)"
| "find_loop L c ignore_temporary b (p # ps) =
     do {
       r \<leftarrow> rule_at b p;
       (kept, found, tracked) \<leftarrow> find_loop L c ignore_temporary b ps;
       Some (if ignore_temporary \<and> isTemporary r then (p # kept, found, tracked)
             else let (matched, connects) = rules_match L r c in
               if matched
               then (if isTemporary r then kept else p # kept, p # found, connects \<or> tracked)
               else (p # kept, found, connects \<or> tracked))
     }"

text \<open>\<open>setupWindowRules\<close> with the \<open>find\<close> it calls; \<open>win\<close> is the window \<open>c\<close> describes.\<close>

definition setupWindowRules ::
    "'e library \<Rightarrow> win \<Rightarrow> ruled \<Rightarrow> bool \<Rightarrow> 'e rulebook \<Rightarrow> 'e rulebook option" where
  "setupWindowRules L win c ignore_temporary b =
     do {
       (kept, found, tracked) \<leftarrow> find_loop L c ignore_temporary b (m_rules b);
       Some (b\<lparr>m_rules := kept, client_rules := (client_rules b)(win := found),
               caption_tracked := (caption_tracked b)(win := tracked)\<rparr>)
     }"

text \<open>\<open>WindowRules::discardTemporary\<close>, \<open>remove\<close> and \<open>update\<close>.\<close>

primrec discardTemporary_loop :: "nat list \<Rightarrow> 'e rulebook \<Rightarrow> (nat list \<times> 'e rulebook) option" where
  "discardTemporary_loop [] b = Some ([], b)"
| "discardTemporary_loop (p # ps) b =
     do {
       r \<leftarrow> rule_at b p;
       (if snd (rules_discardTemporary True r)
        then discardTemporary_loop ps (set_rule p None b)
        else do { (kept, b') \<leftarrow> discardTemporary_loop ps b; Some (p # kept, b') })
     }"

definition wr_discardTemporary :: "win \<Rightarrow> 'e rulebook \<Rightarrow> 'e rulebook option" where
  "wr_discardTemporary win b =
     do {
       (kept, b') \<leftarrow> discardTemporary_loop (client_rules b win) b;
       Some (b'\<lparr>client_rules := (client_rules b')(win := kept)\<rparr>)
     }"

definition removeRule :: "win \<Rightarrow> nat \<Rightarrow> 'e rulebook \<Rightarrow> 'e rulebook" where
  "removeRule win p b =
     b\<lparr>client_rules := (client_rules b)(win := remove1 p (client_rules b win))\<rparr>"

primrec wr_update_loop ::
    "ruled \<Rightarrow> RuleType set \<Rightarrow> nat list \<Rightarrow> 'e rulebook \<Rightarrow> ('e rulebook \<times> bool) option" where
  "wr_update_loop c sel [] b = Some (b, False)"
| "wr_update_loop c sel (p # ps) b =
     do {
       r \<leftarrow> rule_at b p;
       (b', updated) \<leftarrow> wr_update_loop c sel ps (set_rule p (Some (fst (rules_update c sel r))) b);
       Some (b', snd (rules_update c sel r) \<or> updated)
     }"

definition wr_update :: "win \<Rightarrow> ruled \<Rightarrow> RuleType set \<Rightarrow> 'e rulebook \<Rightarrow> 'e rulebook option" where
  "wr_update win c sel b =
     do {
       (b', updated) \<leftarrow> wr_update_loop c sel (client_rules b win) b;
       Some (if updated then requestDiskStorage b' else b')
     }"

definition updateWindowRules :: "win \<Rightarrow> ruled \<Rightarrow> RuleType set \<Rightarrow> 'e rulebook \<Rightarrow> 'e rulebook option" where
  "updateWindowRules win c sel b =
     (if \<not> w_managed c then Some b
      else if m_updatesDisabled b then Some b
      else wr_update win c sel b)"

definition finishWindowRules :: "win \<Rightarrow> ruled \<Rightarrow> 'e rulebook \<Rightarrow> 'e rulebook option" where
  "finishWindowRules win c b =
     do {
       b' \<leftarrow> updateWindowRules win c UNIV b;
       Some (b'\<lparr>client_rules := (client_rules b')(win := [])\<rparr>)
     }"

text \<open>\<open>wins\<close> is the list of the managed windows.\<close>

primrec update_all :: "(win \<Rightarrow> ruled) \<Rightarrow> win list \<Rightarrow> 'e rulebook \<Rightarrow> 'e rulebook option" where
  "update_all view [] b = Some b"
| "update_all view (c # cs) b =
     do { b' \<leftarrow> updateWindowRules c (view c) UNIV b; update_all view cs b' }"

definition setUpdatesDisabled ::
    "(win \<Rightarrow> ruled) \<Rightarrow> win list \<Rightarrow> bool \<Rightarrow> 'e rulebook \<Rightarrow> 'e rulebook option" where
  "setUpdatesDisabled view wins disable b =
     (let b = b\<lparr>m_updatesDisabled := disable\<rparr>
      in if \<not> disable then update_all view wins b else Some b)"

section \<open>Storage\<close>

text \<open>The loop of \<open>save\<close> from the group number \<open>i\<close>.\<close>

primrec save_loop ::
    "'e library \<Rightarrow> 'e rulebook \<Rightarrow> nat \<Rightarrow> nat list \<Rightarrow> (cfg_group \<rightharpoonup> 'e cfg) \<Rightarrow>
     (cfg_group \<rightharpoonup> 'e cfg) option" where
  "save_loop L b i [] file = Some file"
| "save_loop L b i (p # ps) file =
     do {
       r \<leftarrow> rule_at b p;
       (if isTemporary r then save_loop L b i ps file
        else save_loop L b (i + 1) ps
          (file(Numbered i \<mapsto> rules_write L r (case file (Numbered i) of None \<Rightarrow> Map.empty | Some g \<Rightarrow> g))))
     }"

definition rb_save :: "'e library \<Rightarrow> 'e rulebook \<Rightarrow> 'e rulebook option" where
  "rb_save L b =
     (let b = b\<lparr>m_updateTimer := False\<rparr>;
          file = Map.empty(General \<mapsto> [''count'' \<mapsto> wrInt L (int (length (m_rules b)))])
      in do { file' \<leftarrow> save_loop L b 1 (m_rules b) file; Some (b\<lparr>rulesrc := file'\<rparr>) })"





section \<open>Temporary rules and rules that are used up\<close>

definition temporaryRulesMessage :: "'e library \<Rightarrow> string \<Rightarrow> 'e rulebook \<Rightarrow> 'e rulebook option" where
  "temporaryRulesMessage L message b =
     do {
       rs \<leftarrow> deref b (m_rules b);
       let was_temporary = list_ex isTemporary rs;
       let (p, b) = new_rule (Rules_message L message True) b;
       let b = b\<lparr>m_rules := p # m_rules b\<rparr>;
       Some (if \<not> was_temporary then b\<lparr>cleanup_timers := cleanup_timers b + 1\<rparr> else b)
     }"

text \<open>The loop of \<open>cleanupTemporaryRules\<close>: what stays, and whether a temporary rule does.\<close>

primrec cleanup_loop :: "nat list \<Rightarrow> 'e rulebook \<Rightarrow> (nat list \<times> bool \<times> 'e rulebook) option" where
  "cleanup_loop [] b = Some ([], False, b)"
| "cleanup_loop (p # ps) b =
     do {
       r \<leftarrow> rule_at b p;
       let (r', deleted) = rules_discardTemporary False r;
       (if deleted then cleanup_loop ps (set_rule p None b)
        else do {
          (kept, has_temporary, b') \<leftarrow> cleanup_loop ps (set_rule p (Some r') b);
          Some (p # kept, isTemporary r' \<or> has_temporary, b')
        })
     }"

text \<open>The slot runs when one of the single-shot timers fires.\<close>

definition cleanupTemporaryRules :: "'e rulebook \<Rightarrow> 'e rulebook option" where
  "cleanupTemporaryRules b =
     do {
       (kept, has_temporary, b') \<leftarrow> cleanup_loop (m_rules b) b;
       let b' = b'\<lparr>m_rules := kept, cleanup_timers := cleanup_timers b' - 1\<rparr>;
       Some (if has_temporary then b'\<lparr>cleanup_timers := cleanup_timers b' + 1\<rparr> else b')
     }"

text \<open>The loop of \<open>discardUsed\<close>: what stays in the book, and whether a rule was updated.\<close>

primrec discardUsed_loop ::
    "win \<Rightarrow> bool \<Rightarrow> nat list \<Rightarrow> 'e rulebook \<Rightarrow> (nat list \<times> bool \<times> 'e rulebook) option" where
  "discardUsed_loop win withdrawn [] b = Some ([], False, b)"
| "discardUsed_loop win withdrawn (p # ps) b =
     (if p \<in> set (client_rules b win)
      then do {
        r \<leftarrow> rule_at b p;
        let r' = rules_discardUsed withdrawn r;
        (if rules_isEmpty r'
         then do {
           (kept, _, b') \<leftarrow> discardUsed_loop win withdrawn ps (set_rule p None (removeRule win p b));
           Some (kept, True, b')
         }
         else do {
           (kept, _, b') \<leftarrow> discardUsed_loop win withdrawn ps (set_rule p (Some r') b);
           Some (p # kept, True, b')
         })
      }
      else do {
        (kept, updated, b') \<leftarrow> discardUsed_loop win withdrawn ps b;
        Some (p # kept, updated, b')
      })"

definition rb_discardUsed :: "win \<Rightarrow> bool \<Rightarrow> 'e rulebook \<Rightarrow> 'e rulebook option" where
  "rb_discardUsed win withdrawn b =
     do {
       (kept, updated, b') \<leftarrow> discardUsed_loop win withdrawn (m_rules b) b;
       let b' = b'\<lparr>m_rules := kept\<rparr>;
       Some (if updated then requestDiskStorage b' else b')
     }"

section \<open>The rule book: no dangling pointers\<close>

definition temp_at :: "'e rulebook \<Rightarrow> nat \<Rightarrow> bool" where
  "temp_at b p = (case rule_at b p of None \<Rightarrow> False | Some r \<Rightarrow> isTemporary r)"

text \<open>
  A sound rule book: every pointer leads to a rule, a temporary rule of the book belongs to no
  window and one taken by a window to that window only, and as long as the book has a
  temporary rule a cleanup is scheduled.
\<close>

definition book_ok :: "'e rulebook \<Rightarrow> bool" where
  "book_ok b \<longleftrightarrow>
     distinct (m_rules b) \<and> (\<forall>c. distinct (client_rules b c)) \<and>
     (\<forall>p\<in>set (m_rules b). rule_at b p \<noteq> None) \<and>
     (\<forall>c. \<forall>p\<in>set (client_rules b c). rule_at b p \<noteq> None) \<and>
     (\<forall>p r. rule_at b p = Some r \<longrightarrow> p < next_address b \<and> temporary_state r \<in> {0..2}) \<and>
     (\<forall>p\<in>set (m_rules b). temp_at b p \<longrightarrow> (\<forall>c. p \<notin> set (client_rules b c))) \<and>
     (\<forall>c d p. temp_at b p \<longrightarrow> p \<in> set (client_rules b c) \<longrightarrow> p \<in> set (client_rules b d) \<longrightarrow> c = d) \<and>
     ((\<exists>p\<in>set (m_rules b). temp_at b p) \<longrightarrow> 0 < cleanup_timers b)"

lemma book_okD:
  assumes "book_ok b"
  shows "distinct (m_rules b)" "distinct (client_rules b c)"
    "p \<in> set (m_rules b) \<Longrightarrow> \<exists>r. rule_at b p = Some r"
    "p \<in> set (client_rules b c) \<Longrightarrow> \<exists>r. rule_at b p = Some r"
    "rule_at b p = Some r \<Longrightarrow> p < next_address b"
    "rule_at b p = Some r \<Longrightarrow> temporary_state r \<in> {0..2}"
    "p \<in> set (m_rules b) \<Longrightarrow> temp_at b p \<Longrightarrow> p \<notin> set (client_rules b c)"
    "temp_at b p \<Longrightarrow> p \<in> set (client_rules b c) \<Longrightarrow> p \<in> set (client_rules b d) \<Longrightarrow> c = d"
    "p \<in> set (m_rules b) \<Longrightarrow> temp_at b p \<Longrightarrow> 0 < cleanup_timers b"
  using assms unfolding book_ok_def by (blast | auto)+

lemma set_rule_sel [simp]:
  "rule_at (set_rule p v b) = (rule_at b)(p := v)" "m_rules (set_rule p v b) = m_rules b"
  "client_rules (set_rule p v b) = client_rules b" "next_address (set_rule p v b) = next_address b"
  "cleanup_timers (set_rule p v b) = cleanup_timers b"
  "m_updatesDisabled (set_rule p v b) = m_updatesDisabled b"
  "m_updateTimer (set_rule p v b) = m_updateTimer b" "rulesrc (set_rule p v b) = rulesrc b"
  by (simp_all add: set_rule_def)

lemma requestDiskStorage_sel [simp]:
  "rule_at (requestDiskStorage b) = rule_at b" "m_rules (requestDiskStorage b) = m_rules b"
  "client_rules (requestDiskStorage b) = client_rules b"
  "next_address (requestDiskStorage b) = next_address b"
  "cleanup_timers (requestDiskStorage b) = cleanup_timers b"
  "m_updatesDisabled (requestDiskStorage b) = m_updatesDisabled b"
  by (simp_all add: requestDiskStorage_def)

text \<open>Two books with the same pointers and the same temporary rules.\<close>

definition same_shape :: "'e rulebook \<Rightarrow> 'e rulebook \<Rightarrow> bool" where
  "same_shape b b' \<longleftrightarrow>
     m_rules b' = m_rules b \<and> client_rules b' = client_rules b \<and> next_address b' = next_address b \<and>
     cleanup_timers b' = cleanup_timers b \<and>
     (\<forall>p. map_option temporary_state (rule_at b' p) = map_option temporary_state (rule_at b p))"

lemma same_shape_refl [simp]: "same_shape b b"
  by (simp add: same_shape_def)

lemma same_shape_trans: "same_shape a b \<Longrightarrow> same_shape b c \<Longrightarrow> same_shape a c"
  by (simp add: same_shape_def)

lemma book_ok_shape:
  assumes "same_shape b b'" "book_ok b"
  shows "book_ok b'"
proof -
  have t: "temp_at b' p = temp_at b p" for p
    using assms(1) by (auto simp: same_shape_def temp_at_def isTemporary_def split: option.split
      dest!: spec [of _ p])
  have n: "(rule_at b' p = None) = (rule_at b p = None)" for p
    using assms(1) by (auto simp: same_shape_def dest!: spec [of _ p])
  have s: "\<exists>r0. rule_at b p = Some r0 \<and> temporary_state r0 = temporary_state r"
    if "rule_at b' p = Some r" for p r
    using assms(1) that
    by (cases "rule_at b p") (auto simp: same_shape_def dest!: spec [of _ p])
  have "m_rules b' = m_rules b" "client_rules b' = client_rules b" "next_address b' = next_address b"
    "cleanup_timers b' = cleanup_timers b"
    using assms(1) by (auto simp: same_shape_def)
  moreover have "p < next_address b \<and> temporary_state r \<in> {0..2}" if "rule_at b' p = Some r" for p r
    using s [OF that] book_okD(5,6) [OF assms(2)] by metis
  ultimately show ?thesis
    using assms(2) unfolding book_ok_def by (simp add: t n)
qed

lemma update_keeps_temporary [simp]:
  "temporary_state (fst (rules_update c sel r)) = temporary_state r"
  by (simp add: rules_update_rule Let_def)

lemma wr_update_loop_ok:
  "\<forall>p\<in>set ps. rule_at b p \<noteq> None \<Longrightarrow>
   \<exists>b' u. wr_update_loop c sel ps b = Some (b', u) \<and> same_shape b b' \<and>
     m_updatesDisabled b' = m_updatesDisabled b"
proof (induction ps arbitrary: b)
  case (Cons p ps)
  then obtain r where r: "rule_at b p = Some r" by auto
  let ?b = "set_rule p (Some (fst (rules_update c sel r))) b"
  have sh: "same_shape b ?b" using r by (auto simp: same_shape_def)
  have "\<forall>q\<in>set ps. rule_at ?b q \<noteq> None" using Cons.prems by auto
  from Cons.IH [OF this] obtain b' u where "wr_update_loop c sel ps ?b = Some (b', u)" "same_shape ?b b'"
    "m_updatesDisabled b' = m_updatesDisabled ?b" by blast
  then show ?case using r sh same_shape_trans by auto
qed (auto intro: exI [of _ False])

lemma updateWindowRules_ok:
  assumes "book_ok b"
  shows "\<exists>b'. updateWindowRules win c sel b = Some b' \<and> same_shape b b'"
proof -
  have "\<forall>p\<in>set (client_rules b win). rule_at b p \<noteq> None"
    using book_okD(4) [OF assms] by fastforce
  from wr_update_loop_ok [OF this] obtain b' u where
    "wr_update_loop c sel (client_rules b win) b = Some (b', u)" "same_shape b b'" by blast
  moreover have "same_shape b (requestDiskStorage b')" if "same_shape b b'"
    using that by (simp add: same_shape_def)
  ultimately show ?thesis
    by (cases "w_managed c"; cases "m_updatesDisabled b"; cases u)
      (simp_all add: updateWindowRules_def wr_update_def)
qed

lemma update_all_ok:
  "book_ok b \<Longrightarrow> \<exists>b'. update_all view cs b = Some b' \<and> same_shape b b'"
proof (induction cs arbitrary: b)
  case (Cons c cs)
  from updateWindowRules_ok [OF Cons.prems] obtain b1 where
    b1: "updateWindowRules c (view c) UNIV b = Some b1" "same_shape b b1" by blast
  from Cons.IH [OF book_ok_shape [OF b1(2) Cons.prems]] obtain b2 where
    "update_all view cs b1 = Some b2" "same_shape b1 b2" by blast
  then show ?case using b1 same_shape_trans by auto
qed simp

text \<open>\<open>find\<close> splits the book.\<close>

definition found_at :: "'e library \<Rightarrow> ruled \<Rightarrow> bool \<Rightarrow> 'e rulebook \<Rightarrow> nat \<Rightarrow> bool" where
  "found_at L c ignore_temporary b p =
     (case rule_at b p of
        None \<Rightarrow> False
      | Some r \<Rightarrow> \<not> (ignore_temporary \<and> isTemporary r) \<and> fst (rules_match L r c))"

lemma find_loop_result:
  "\<forall>p\<in>set ps. rule_at b p \<noteq> None \<Longrightarrow>
   \<exists>t. find_loop L c ign b ps =
     Some (filter (\<lambda>p. \<not> (found_at L c ign b p \<and> temp_at b p)) ps, filter (found_at L c ign b) ps, t)"
proof (induction ps)
  case (Cons p ps)
  then obtain t where ih: "find_loop L c ign b ps =
     Some (filter (\<lambda>p. \<not> (found_at L c ign b p \<and> temp_at b p)) ps, filter (found_at L c ign b) ps, t)"
    by auto
  from Cons.prems obtain r where r: "rule_at b p = Some r" by auto
  obtain m k where m: "rules_match L r c = (m, k)" by fastforce
  have f: "found_at L c ign b p = (\<not> (ign \<and> isTemporary r) \<and> m)" "temp_at b p = isTemporary r"
    using r m by (simp_all add: found_at_def temp_at_def)
  show ?case using ih r m f by (cases "ign \<and> isTemporary r"; cases m; cases "isTemporary r") simp_all
qed (auto intro: exI [of _ False])

lemma setupWindowRules_result:
  assumes "book_ok b"
  shows "\<exists>t. setupWindowRules L win c ign b =
    Some (b\<lparr>m_rules := filter (\<lambda>p. \<not> (found_at L c ign b p \<and> temp_at b p)) (m_rules b),
            client_rules := (client_rules b)(win := filter (found_at L c ign b) (m_rules b)),
            caption_tracked := (caption_tracked b)(win := t)\<rparr>)"
proof -
  have "\<forall>p\<in>set (m_rules b). rule_at b p \<noteq> None" using book_okD(3) [OF assms] by fastforce
  from find_loop_result [OF this, of L c ign] obtain t where
    "find_loop L c ign b (m_rules b) =
     Some (filter (\<lambda>p. \<not> (found_at L c ign b p \<and> temp_at b p)) (m_rules b),
       filter (found_at L c ign b) (m_rules b), t)" by blast
  then show ?thesis unfolding setupWindowRules_def by (intro exI [of _ t]) simp
qed

lemma temp_at_sel [simp]:
  "temp_at (b\<lparr>m_rules := x, client_rules := y, caption_tracked := z\<rparr>) = temp_at b"
  "temp_at (b\<lparr>client_rules := y\<rparr>) = temp_at b"
  "temp_at (b\<lparr>m_rules := x\<rparr>) = temp_at b"
  "temp_at (b\<lparr>m_rules := x, cleanup_timers := n\<rparr>) = temp_at b"
  "temp_at (b\<lparr>cleanup_timers := n\<rparr>) = temp_at b"
  by (auto simp: temp_at_def fun_eq_iff)

lemma setupWindowRules_ok:
  assumes "book_ok b" "setupWindowRules L win c ign b = Some b'"
  shows "book_ok b'"
proof -
  obtain t where b': "b' = b\<lparr>m_rules := filter (\<lambda>p. \<not> (found_at L c ign b p \<and> temp_at b p)) (m_rules b),
            client_rules := (client_rules b)(win := filter (found_at L c ign b) (m_rules b)),
            caption_tracked := (caption_tracked b)(win := t)\<rparr>"
    using setupWindowRules_result [OF assms(1), of L win c ign] assms(2) by auto
  note d = book_okD [OF assms(1)]
  have m: "m_rules b' = filter (\<lambda>p. \<not> (found_at L c ign b p \<and> temp_at b p)) (m_rules b)"
    and cr: "client_rules b' e =
      (if e = win then filter (found_at L c ign b) (m_rules b) else client_rules b e)"
    and o: "rule_at b' = rule_at b" "next_address b' = next_address b"
      "cleanup_timers b' = cleanup_timers b" "temp_at b' = temp_at b" for e
    by (simp_all add: b')
  show ?thesis
    unfolding book_ok_def
  proof (intro conjI allI ballI impI)
    show "distinct (m_rules b')" using d(1) by (simp add: m)
    show "distinct (client_rules b' e)" for e using d(1,2) by (simp add: cr)
    show "rule_at b' p \<noteq> None" if "p \<in> set (m_rules b')" for p using that d(3) by (fastforce simp: m o)
    show "rule_at b' p \<noteq> None" if "p \<in> set (client_rules b' e)" for e p
      using that d(3) [of p] d(4) [of p e] by (auto simp: cr o split: if_splits)
    show "p < next_address b'" "temporary_state r \<in> {0..2}" if "rule_at b' p = Some r" for p r
      using that d(5,6) by (simp_all add: o)
    show "p \<notin> set (client_rules b' e)" if "p \<in> set (m_rules b')" "temp_at b' p" for p e
      using that d(7) by (auto simp: m cr o)
    show "e = f" if "temp_at b' p" "p \<in> set (client_rules b' e)" "p \<in> set (client_rules b' f)" for e f p
      using that d(7) [of p] d(8) [of p e f] by (auto simp: cr o split: if_splits)
    show "0 < cleanup_timers b'" if "\<exists>p\<in>set (m_rules b'). temp_at b' p"
      using that d(9) by (auto simp: m o)
  qed
qed

text \<open>Deleting temporary rules of a window.\<close>

lemma discardTemporary_loop_result:
  "distinct ps \<Longrightarrow> \<forall>p\<in>set ps. rule_at b p \<noteq> None \<Longrightarrow>
   \<forall>p r. rule_at b p = Some r \<longrightarrow> 0 \<le> temporary_state r \<Longrightarrow>
   \<exists>b'. discardTemporary_loop ps b = Some (filter (\<lambda>p. \<not> temp_at b p) ps, b') \<and>
     (\<forall>p. rule_at b' p = (if p \<in> set ps \<and> temp_at b p then None else rule_at b p)) \<and>
     m_rules b' = m_rules b \<and> client_rules b' = client_rules b \<and> next_address b' = next_address b \<and>
     cleanup_timers b' = cleanup_timers b"
proof (induction ps arbitrary: b)
  case (Cons p ps)
  from Cons.prems obtain r where r: "rule_at b p = Some r" by auto
  have nn: "0 \<le> temporary_state r" using Cons.prems(3) r by blast
  have t: "temp_at b p = isTemporary r" by (simp add: temp_at_def r)
  show ?case
  proof (cases "isTemporary r")
    case True
    let ?b = "set_rule p None b"
    have tb: "temp_at ?b q = temp_at b q" if "q \<in> set ps" for q
      using that Cons.prems(1) by (auto simp: temp_at_def)
    have p1: "\<forall>q\<in>set ps. rule_at ?b q \<noteq> None" using Cons.prems(1,2) by auto
    have p2: "\<forall>q s. rule_at ?b q = Some s \<longrightarrow> 0 \<le> temporary_state s" using Cons.prems(3) by auto
    obtain b' where b': "discardTemporary_loop ps ?b = Some (filter (\<lambda>p. \<not> temp_at ?b p) ps, b')"
      "\<forall>p. rule_at b' p = (if p \<in> set ps \<and> temp_at ?b p then None else rule_at ?b p)"
      "m_rules b' = m_rules b \<and> client_rules b' = client_rules b \<and> next_address b' = next_address b \<and>
       cleanup_timers b' = cleanup_timers b"
      using Cons.IH [OF _ p1 p2] Cons.prems(1) by auto
    have "filter (\<lambda>p. \<not> temp_at ?b p) ps = filter (\<lambda>p. \<not> temp_at b p) ps"
      by (rule filter_cong) (simp_all add: tb)
    moreover have "rule_at b' q = (if q \<in> set (p # ps) \<and> temp_at b q then None else rule_at b q)" for q
      using b'(2) tb True t by (auto simp: temp_at_def)
    ultimately show ?thesis
      using b' r True t by (simp add: rules_discardTemporary_def isTemporary_def)
  next
    case False
    then have z: "temporary_state r = 0" using nn by (simp add: isTemporary_def)
    obtain b' where "discardTemporary_loop ps b = Some (filter (\<lambda>p. \<not> temp_at b p) ps, b')"
      "\<forall>p. rule_at b' p = (if p \<in> set ps \<and> temp_at b p then None else rule_at b p)"
      "m_rules b' = m_rules b \<and> client_rules b' = client_rules b \<and> next_address b' = next_address b \<and>
       cleanup_timers b' = cleanup_timers b"
      using Cons.IH [of b] Cons.prems by auto
    then show ?thesis using r False t z by (auto simp: rules_discardTemporary_def)
  qed
qed simp

lemma wr_discardTemporary_ok:
  assumes "book_ok b"
  shows "\<exists>b'. wr_discardTemporary win b = Some b' \<and> book_ok b'"
proof -
  note d = book_okD [OF assms]
  have ex: "\<forall>p\<in>set (client_rules b win). rule_at b p \<noteq> None" using d(4) by fastforce
  have nn: "\<forall>p r. rule_at b p = Some r \<longrightarrow> 0 \<le> temporary_state r" using d(6) by fastforce
  obtain b1 where b1: "discardTemporary_loop (client_rules b win) b =
      Some (filter (\<lambda>p. \<not> temp_at b p) (client_rules b win), b1)"
    "\<forall>p. rule_at b1 p = (if p \<in> set (client_rules b win) \<and> temp_at b p then None else rule_at b p)"
    "m_rules b1 = m_rules b" "client_rules b1 = client_rules b" "next_address b1 = next_address b"
    "cleanup_timers b1 = cleanup_timers b"
    using discardTemporary_loop_result [OF d(2) ex nn] by blast
  define b2 where "b2 = b1\<lparr>client_rules := (client_rules b1)(win := filter (\<lambda>p. \<not> temp_at b p) (client_rules b win))\<rparr>"
  have run: "wr_discardTemporary win b = Some b2" by (simp add: wr_discardTemporary_def b1(1) b2_def)
  have cr: "client_rules b2 e = (if e = win then filter (\<lambda>p. \<not> temp_at b p) (client_rules b win)
      else client_rules b e)" for e by (simp add: b1 b2_def)
  have ra: "rule_at b2 p = (if p \<in> set (client_rules b win) \<and> temp_at b p then None else rule_at b p)" for p
    by (simp add: b1(2) b2_def)
  have o: "m_rules b2 = m_rules b" "next_address b2 = next_address b" "cleanup_timers b2 = cleanup_timers b"
    by (simp_all add: b1 b2_def)
  have ta: "temp_at b2 p \<Longrightarrow> temp_at b p" for p
    unfolding temp_at_def ra by (auto split: if_splits)
  have "book_ok b2"
    unfolding book_ok_def
  proof (intro conjI allI ballI impI)
    show "distinct (m_rules b2)" unfolding o by (rule d(1))
    show "distinct (client_rules b2 e)" for e unfolding cr using d(2) by simp
    show "rule_at b2 p \<noteq> None" if "p \<in> set (m_rules b2)" for p
      using that d(3) [of p] d(7) [of p] unfolding ra o by auto
    show "rule_at b2 p \<noteq> None" if "p \<in> set (client_rules b2 e)" for e p
      using that d(4) [of p] d(8) [of p win e] unfolding ra cr by (auto split: if_splits)
    show "p < next_address b2" "temporary_state r \<in> {0..2}" if "rule_at b2 p = Some r" for p r
      using that d(5,6) unfolding ra o by (auto split: if_splits)
    show "p \<notin> set (client_rules b2 e)" if "p \<in> set (m_rules b2)" "temp_at b2 p" for p e
      using that d(7) [of p] ta [of p] unfolding cr o by auto
    show "e = f" if "temp_at b2 p" "p \<in> set (client_rules b2 e)" "p \<in> set (client_rules b2 f)" for e f p
      using that d(8) [of p e f] ta [of p] unfolding cr by (auto split: if_splits)
    show "0 < cleanup_timers b2" if "\<exists>p\<in>set (m_rules b2). temp_at b2 p"
      using that d(9) ta unfolding o by blast
  qed
  then show ?thesis using run by blast
qed

lemma finishWindowRules_ok:
  assumes "book_ok b"
  shows "\<exists>b'. finishWindowRules win c b = Some b' \<and> book_ok b'"
proof -
  obtain b1 where b1: "updateWindowRules win c UNIV b = Some b1" "same_shape b b1"
    using updateWindowRules_ok [OF assms] by blast
  have "book_ok b1" using book_ok_shape [OF b1(2) assms] .
  then have "book_ok (b1\<lparr>client_rules := (client_rules b1)(win := [])\<rparr>)"
    unfolding book_ok_def by (auto split: if_splits)
  then show ?thesis by (simp add: finishWindowRules_def b1(1))
qed

text \<open>A rule sent by message becomes the first of the book.\<close>

lemma deref_result:
  "\<forall>p\<in>set ps. rule_at b p \<noteq> None \<Longrightarrow> deref b ps = Some (map (\<lambda>p. the (rule_at b p)) ps)"
  by (induction ps) auto

lemma temp_list:
  assumes "\<forall>p\<in>set ps. rule_at b p \<noteq> None"
  shows "list_ex isTemporary (map (\<lambda>p. the (rule_at b p)) ps) \<longleftrightarrow> (\<exists>p\<in>set ps. temp_at b p)"
  using assms by (induction ps) (auto simp: temp_at_def)

lemma Rules_message_temporary: "temporary_state (Rules_message L msg True) = 2"
  by (simp add: Rules_message_def Let_def)

lemma temporaryRulesMessage_ok:
  assumes "book_ok b"
  shows "\<exists>b'. temporaryRulesMessage L msg b = Some b' \<and> book_ok b'"
proof -
  note d = book_okD [OF assms]
  have ex: "\<forall>p\<in>set (m_rules b). rule_at b p \<noteq> None" using d(3) by fastforce
  let ?n = "next_address b" and ?r = "Rules_message L msg True"
  have fresh: "rule_at b ?n = None" using d(5) by (cases "rule_at b ?n") auto
  let ?t = "if (\<exists>p\<in>set (m_rules b). temp_at b p) then cleanup_timers b else cleanup_timers b + 1"
  define b2 where "b2 = (snd (new_rule ?r b))\<lparr>m_rules := ?n # m_rules b, cleanup_timers := ?t\<rparr>"
  have run: "temporaryRulesMessage L msg b = Some b2"
    by (simp add: temporaryRulesMessage_def deref_result [OF ex] temp_list [OF ex] new_rule_def Let_def b2_def)
  have ra: "rule_at b2 = (rule_at b)(?n := Some ?r)" by (simp add: new_rule_def b2_def)
  have o: "m_rules b2 = ?n # m_rules b" "next_address b2 = ?n + 1" "cleanup_timers b2 = ?t"
    "client_rules b2 = client_rules b" by (simp_all add: new_rule_def b2_def)
  have nm: "?n \<notin> set (m_rules b)" "?n \<notin> set (client_rules b e)" for e
    using fresh d(3,4) by fastforce+
  have ta: "temp_at b2 p \<longleftrightarrow> p = ?n \<or> temp_at b p" for p
    using fresh by (auto simp: temp_at_def ra isTemporary_def Rules_message_temporary)
  have "book_ok b2"
    unfolding book_ok_def
  proof (intro conjI allI ballI impI)
    show "distinct (m_rules b2)" using d(1) nm by (simp add: o)
    show "distinct (client_rules b2 e)" for e unfolding o by (rule d(2))
    show "rule_at b2 p \<noteq> None" if "p \<in> set (m_rules b2)" for p
      using that d(3) [of p] unfolding ra o by auto
    show "rule_at b2 p \<noteq> None" if "p \<in> set (client_rules b2 e)" for e p
      using that d(4) [of p] unfolding ra o by auto
    show "p < next_address b2" "temporary_state r \<in> {0..2}" if "rule_at b2 p = Some r" for p r
      using that d(5,6) [of p r] unfolding ra o by (auto simp: Rules_message_temporary split: if_splits)
    show "p \<notin> set (client_rules b2 e)" if "p \<in> set (m_rules b2)" "temp_at b2 p" for p e
      using that d(7) [of p] nm unfolding ta o by auto
    show "e = f" if "temp_at b2 p" "p \<in> set (client_rules b2 e)" "p \<in> set (client_rules b2 f)" for e f p
      using that d(8) [of p e f] nm unfolding ta o by auto
    show "0 < cleanup_timers b2" using d(9) unfolding o by auto
  qed
  then show ?thesis using run by blast
qed

text \<open>A cleanup ages the temporary rules of the book.\<close>

definition ages :: "'e rulebook \<Rightarrow> nat \<Rightarrow> int" where
  "ages b p = (case rule_at b p of None \<Rightarrow> 0 | Some r \<Rightarrow> temporary_state r)"

lemma cleanup_loop_result:
  "distinct ps \<Longrightarrow> \<forall>p\<in>set ps. rule_at b p \<noteq> None \<Longrightarrow>
   \<forall>p r. rule_at b p = Some r \<longrightarrow> 0 \<le> temporary_state r \<Longrightarrow>
   \<exists>b' t. cleanup_loop ps b = Some (filter (\<lambda>p. ages b p \<noteq> 1) ps, t, b') \<and>
     (t \<longleftrightarrow> (\<exists>p\<in>set ps. 1 < ages b p)) \<and>
     (\<forall>p. rule_at b' p =
        (if p \<in> set ps \<and> ages b p = 1 then None
         else if p \<in> set ps \<and> 1 < ages b p
           then map_option (\<lambda>r. r\<lparr>temporary_state := temporary_state r - 1\<rparr>) (rule_at b p)
         else rule_at b p)) \<and>
     m_rules b' = m_rules b \<and> client_rules b' = client_rules b \<and> next_address b' = next_address b \<and>
     cleanup_timers b' = cleanup_timers b"
proof (induction ps arbitrary: b)
  case (Cons p ps)
  from Cons.prems obtain r where r: "rule_at b p = Some r" by auto
  have a: "ages b p = temporary_state r" by (simp add: ages_def r)
  have nn: "0 \<le> temporary_state r" using Cons.prems(3) r by blast
  define v where "v = (if temporary_state r = 1 then None
    else if 1 < temporary_state r then Some (r\<lparr>temporary_state := temporary_state r - 1\<rparr>) else Some r)"
  let ?b = "set_rule p v b"
  have ab: "ages ?b q = ages b q" if "q \<in> set ps" for q
    using that Cons.prems(1) by (auto simp: ages_def)
  have p1: "\<forall>q\<in>set ps. rule_at ?b q \<noteq> None" using Cons.prems(1,2) by auto
  have p2: "\<forall>q s. rule_at ?b q = Some s \<longrightarrow> 0 \<le> temporary_state s"
    using Cons.prems(3) nn by (auto simp: v_def split: if_splits)
  obtain b' t where b': "cleanup_loop ps ?b = Some (filter (\<lambda>p. ages ?b p \<noteq> 1) ps, t, b')"
    "t \<longleftrightarrow> (\<exists>p\<in>set ps. 1 < ages ?b p)"
    "\<forall>p. rule_at b' p =
        (if p \<in> set ps \<and> ages ?b p = 1 then None
         else if p \<in> set ps \<and> 1 < ages ?b p
           then map_option (\<lambda>r. r\<lparr>temporary_state := temporary_state r - 1\<rparr>) (rule_at ?b p)
         else rule_at ?b p)"
    "m_rules b' = m_rules b \<and> client_rules b' = client_rules b \<and> next_address b' = next_address b \<and>
     cleanup_timers b' = cleanup_timers b"
    using Cons.IH [OF _ p1 p2] Cons.prems(1) by auto
  have f: "filter (\<lambda>p. ages ?b p \<noteq> 1) ps = filter (\<lambda>p. ages b p \<noteq> 1) ps"
    by (rule filter_cong) (simp_all add: ab)
  have t: "t \<longleftrightarrow> (\<exists>p\<in>set ps. 1 < ages b p)" using b'(2) ab by auto
  have h: "rule_at b' q = (if q \<in> set (p # ps) \<and> ages b q = 1 then None
         else if q \<in> set (p # ps) \<and> 1 < ages b q
           then map_option (\<lambda>r. r\<lparr>temporary_state := temporary_state r - 1\<rparr>) (rule_at b q)
         else rule_at b q)" for q
  proof (cases "q \<in> set ps")
    case True
    then show ?thesis using b'(3) ab Cons.prems(1) by auto
  next
    case False
    then show ?thesis using b'(3) a r by (auto simp: v_def)
  qed
  have step: "cleanup_loop (p # ps) b = Some (filter (\<lambda>p. ages b p \<noteq> 1) (p # ps), t \<or> 1 < ages b p, b')"
    using b'(1) f r a nn
    by (cases "temporary_state r = 0"; cases "temporary_state r = 1")
      (auto simp: rules_discardTemporary_def v_def isTemporary_def Let_def)
  show ?case using step t h b'(4) by auto
qed (auto intro: exI [of _ False])

text \<open>The book after a cleanup.\<close>

lemma temp_ages: "temp_at b p \<longleftrightarrow> 0 < ages b p"
  by (simp add: temp_at_def ages_def isTemporary_def split: option.split)

lemma cleanup_result:
  assumes "book_ok b"
  shows "\<exists>b'. cleanupTemporaryRules b = Some b' \<and> book_ok b' \<and>
    m_rules b' = filter (\<lambda>p. ages b p \<noteq> 1) (m_rules b) \<and> client_rules b' = client_rules b \<and>
    (\<forall>p\<in>set (m_rules b'). ages b' p = (if ages b p = 2 then 1 else 0) \<and>
       (ages b p = 0 \<longrightarrow> rule_at b' p = rule_at b p))"
proof -
  note d = book_okD [OF assms]
  have ex: "\<forall>p\<in>set (m_rules b). rule_at b p \<noteq> None" using d(3) by fastforce
  have nn: "\<forall>p r. rule_at b p = Some r \<longrightarrow> 0 \<le> temporary_state r" using d(6) by fastforce
  have rng: "ages b p \<in> {0..2}" for p
    using d(6) [of p] by (auto simp: ages_def split: option.split)
  then have rng': "ages b p = 0 \<or> ages b p = 1 \<or> ages b p = 2" for p
    by (metis atLeastAtMost_iff eq_neg_iff_add_eq_0 int_one_le_iff_zero_less
      linorder_cases not_less zle_add1_eq_le one_add_one order_antisym order_le_less)
  obtain b1 t where b1: "cleanup_loop (m_rules b) b = Some (filter (\<lambda>p. ages b p \<noteq> 1) (m_rules b), t, b1)"
    "t \<longleftrightarrow> (\<exists>p\<in>set (m_rules b). 1 < ages b p)"
    "\<forall>p. rule_at b1 p =
        (if p \<in> set (m_rules b) \<and> ages b p = 1 then None
         else if p \<in> set (m_rules b) \<and> 1 < ages b p
           then map_option (\<lambda>r. r\<lparr>temporary_state := temporary_state r - 1\<rparr>) (rule_at b p)
         else rule_at b p)"
    "m_rules b1 = m_rules b" "client_rules b1 = client_rules b" "next_address b1 = next_address b"
    "cleanup_timers b1 = cleanup_timers b"
    using cleanup_loop_result [OF d(1) ex nn] by blast
  define b2 where "b2 = b1\<lparr>m_rules := filter (\<lambda>p. ages b p \<noteq> 1) (m_rules b),
    cleanup_timers := cleanup_timers b - 1 + (if t then 1 else 0)\<rparr>"
  have run: "cleanupTemporaryRules b = Some b2"
    by (simp add: cleanupTemporaryRules_def b1(1) b2_def b1(7) Let_def)
  have m: "m_rules b2 = filter (\<lambda>p. ages b p \<noteq> 1) (m_rules b)" by (simp add: b2_def)
  have o: "client_rules b2 = client_rules b" "next_address b2 = next_address b"
    by (simp_all add: b2_def b1)
  have ra: "rule_at b2 p =
        (if p \<in> set (m_rules b) \<and> ages b p = 1 then None
         else if p \<in> set (m_rules b) \<and> 1 < ages b p
           then map_option (\<lambda>r. r\<lparr>temporary_state := temporary_state r - 1\<rparr>) (rule_at b p)
         else rule_at b p)" for p
    using b1(3) by (simp add: b2_def)
  have ag: "ages b2 p = (if p \<in> set (m_rules b) then (if ages b p = 2 then 1 else 0) else ages b p)" for p
    using rng' [of p] ra [of p] by (cases "rule_at b p") (auto simp: ages_def)
  have ta: "temp_at b2 p \<Longrightarrow> temp_at b p" for p
    unfolding temp_ages ag by (auto split: if_splits)
  have shared: "rule_at b2 p = rule_at b p" if "p \<in> set (client_rules b e)" for p e
    using that d(7) [of p e] unfolding temp_ages ra by force
  have "book_ok b2"
    unfolding book_ok_def
  proof (intro conjI allI ballI impI)
    show "distinct (m_rules b2)" using d(1) by (simp add: m)
    show "distinct (client_rules b2 e)" for e unfolding o by (rule d(2))
    show "rule_at b2 p \<noteq> None" if "p \<in> set (m_rules b2)" for p
      using that d(3) [of p] unfolding ra m by auto
    show "rule_at b2 p \<noteq> None" if "p \<in> set (client_rules b2 e)" for e p
      using that d(4) [of p e] shared [of p e] unfolding o by simp
    show "p < next_address b2" if "rule_at b2 p = Some r" for p r
      using that d(5) [of p] unfolding o ra by (auto split: if_splits)
    show "temporary_state r \<in> {0..2}" if "rule_at b2 p = Some r" for p r
    proof -
      have "ages b2 p = temporary_state r" using that by (simp add: ages_def)
      then show ?thesis using ag [of p] rng [of p] by (auto split: if_splits)
    qed
    show "p \<notin> set (client_rules b2 e)" if "p \<in> set (m_rules b2)" "temp_at b2 p" for p e
      using that d(7) [of p] ta [of p] unfolding m o by auto
    show "e = f" if "temp_at b2 p" "p \<in> set (client_rules b2 e)" "p \<in> set (client_rules b2 f)" for e f p
      using that d(8) [of p e f] ta [of p] unfolding o by auto
    show "0 < cleanup_timers b2" if "\<exists>p\<in>set (m_rules b2). temp_at b2 p"
    proof -
      obtain p where "p \<in> set (m_rules b)" "temp_at b2 p" using \<open>\<exists>p\<in>set (m_rules b2). temp_at b2 p\<close> m by auto
      then have t unfolding temp_ages ag b1(2) by (auto split: if_splits intro!: bexI [of _ p])
      then show ?thesis by (simp add: b2_def)
    qed
  qed
  moreover have "ages b2 p = (if ages b p = 2 then 1 else 0) \<and> (ages b p = 0 \<longrightarrow> rule_at b2 p = rule_at b p)"
    if "p \<in> set (m_rules b2)" for p
    using that ag [of p] ra [of p] by (auto simp: m)
  ultimately show ?thesis using run m o by blast
qed

lemma save_loop_result:
  "\<forall>p\<in>set ps. rule_at b p \<noteq> None \<Longrightarrow> \<forall>j\<ge>i. gs (Numbered j) = None \<Longrightarrow>
   nt = filter (\<lambda>r. \<not> isTemporary r) (map (\<lambda>p. the (rule_at b p)) ps) \<Longrightarrow>
   \<exists>gs'. save_loop L b i ps gs = Some gs' \<and> gs' General = gs General \<and>
     (\<forall>j. gs' (Numbered j) =
        (if i \<le> j \<and> j < i + length nt then Some (rules_write L (nt ! (j - i)) Map.empty)
         else gs (Numbered j)))"
proof (induction ps arbitrary: i gs nt)
  case (Cons p ps)
  from Cons.prems(1) obtain r where r: "rule_at b p = Some r" by auto
  let ?nt = "filter (\<lambda>r. \<not> isTemporary r) (map (\<lambda>p. the (rule_at b p)) ps)"
  show ?case
  proof (cases "isTemporary r")
    case True
    then have nt: "nt = ?nt" using Cons.prems(3) r by simp
    have step: "save_loop L b i (p # ps) gs = save_loop L b i ps gs" using r True by simp
    show ?thesis unfolding step by (rule Cons.IH) (use Cons.prems nt in auto)
  next
    case False
    then have nt: "nt = r # ?nt" using Cons.prems(3) r by simp
    let ?gs = "gs(Numbered i \<mapsto> rules_write L r Map.empty)"
    have ps: "\<forall>p\<in>set ps. rule_at b p \<noteq> None" using Cons.prems(1) by simp
    have "\<forall>j\<ge>i + 1. ?gs (Numbered j) = None" using Cons.prems(2) by simp
    then obtain gs' where gs': "save_loop L b (i + 1) ps ?gs = Some gs'"
      "gs' General = ?gs General"
      "\<forall>j. gs' (Numbered j) =
        (if i + 1 \<le> j \<and> j < i + 1 + length ?nt then Some (rules_write L (?nt ! (j - (i + 1))) Map.empty)
         else ?gs (Numbered j))"
      using Cons.IH [OF ps _ refl, of "i + 1" ?gs] by blast
    have "gs' (Numbered j) =
        (if i \<le> j \<and> j < i + length nt then Some (rules_write L (nt ! (j - i)) Map.empty)
         else gs (Numbered j))" for j
    proof (cases "j \<le> i")
      case True
      then show ?thesis using gs'(3) nt by auto
    next
      case False
      then obtain k where k: "j = i + Suc k" by (metis add_Suc_right less_imp_Suc_add not_le)
      then show ?thesis using gs'(3) nt by simp
    qed
    moreover have "gs (Numbered i) = None" using Cons.prems(2) by simp
    ultimately show ?thesis using gs'(1,2) r False by auto
  qed
qed simp

lemma rb_save_ok:
  assumes "book_ok b"
  shows "\<exists>b'. rb_save L b = Some b' \<and> book_ok b'"
proof -
  let ?b = "b\<lparr>m_updateTimer := False\<rparr>"
  have "\<forall>p\<in>set (m_rules b). rule_at ?b p \<noteq> None" using book_okD(3) [OF assms] by fastforce
  then obtain file' where "save_loop L ?b 1 (m_rules b) (Map.empty(General \<mapsto> [''count'' \<mapsto> wrInt L (int (length (m_rules b)))])) = Some file'"
    using save_loop_result [of "m_rules b" ?b 1 "Map.empty(General \<mapsto> [''count'' \<mapsto> wrInt L (int (length (m_rules b)))])" _ L]
    by auto
  then have "rb_save L b = Some (?b\<lparr>rulesrc := file'\<rparr>)" by (simp add: rb_save_def)
  moreover have "book_ok (?b\<lparr>rulesrc := file'\<rparr>)" by (rule book_ok_shape [OF _ assms]) (simp add: same_shape_def)
  ultimately show ?thesis by blast
qed

text \<open>C17: Whatever a sound rule book is asked to do short of a reload and of discarding used rules, it
  never follows a dangling pointer and stays sound: setting up the rules of a window, updating
  and finishing them, dropping a window's temporary rules, receiving a temporary rule,
  cleaning temporary rules up, blocking updates and letting them through again, and saving, which follows
  the pointer of every rule in the book.\<close>

theorem rulebook_operations_safe:
  assumes "book_ok b"
  shows "(\<exists>b'. setupWindowRules L win c ignore_temporary b = Some b' \<and> book_ok b') \<and>
    (\<exists>b'. updateWindowRules win c sel b = Some b' \<and> book_ok b') \<and>
    (\<exists>b'. finishWindowRules win c b = Some b' \<and> book_ok b') \<and>
    (\<exists>b'. wr_discardTemporary win b = Some b' \<and> book_ok b') \<and>
    (\<exists>b'. temporaryRulesMessage L message b = Some b' \<and> book_ok b') \<and>
    (\<exists>b'. cleanupTemporaryRules b = Some b' \<and> book_ok b') \<and>
    (\<exists>b'. setUpdatesDisabled view wins disable b = Some b' \<and> book_ok b') \<and>
    (\<exists>b'. rb_save L b = Some b' \<and> book_ok b')"
proof -
  have "\<exists>b'. setUpdatesDisabled view wins disable b = Some b' \<and> book_ok b'"
  proof -
    have sh: "same_shape b (b\<lparr>m_updatesDisabled := disable\<rparr>)" by (simp add: same_shape_def)
    note ok = book_ok_shape [OF sh assms]
    show ?thesis
      using ok update_all_ok [OF ok, of view wins] book_ok_shape [OF _ ok]
      by (cases disable) (fastforce simp: setUpdatesDisabled_def)+
  qed
  moreover have "\<exists>b'. setupWindowRules L win c ignore_temporary b = Some b' \<and> book_ok b'"
    using setupWindowRules_result [OF assms] setupWindowRules_ok [OF assms] by blast
  moreover have "\<exists>b'. updateWindowRules win c sel b = Some b' \<and> book_ok b'"
    using updateWindowRules_ok [OF assms] book_ok_shape [OF _ assms] by blast
  ultimately show ?thesis
    using finishWindowRules_ok [OF assms] wr_discardTemporary_ok [OF assms]
      temporaryRulesMessage_ok [OF assms] cleanup_result [OF assms] rb_save_ok [OF assms] by blast
qed

text \<open>C19: A window gets, in the order of the book, the rules that match it; a temporary rule it gets
  leaves the book and thereby applies to no later window, every other rule stays.\<close>

theorem find_matching_rules:
  assumes "book_ok b" "setupWindowRules L win c False b = Some b'" "deref b (m_rules b) = Some rs"
  shows "deref b' (client_rules b' win) = Some (filter (\<lambda>r. fst (rules_match L r c)) rs) \<and>
    deref b' (m_rules b') = Some (filter (\<lambda>r. \<not> (fst (rules_match L r c) \<and> isTemporary r)) rs) \<and>
    (\<forall>e. e \<noteq> win \<longrightarrow> client_rules b' e = client_rules b e)"
proof -
  note d = book_okD [OF assms(1)]
  obtain t where b': "b' = b\<lparr>m_rules := filter (\<lambda>p. \<not> (found_at L c False b p \<and> temp_at b p)) (m_rules b),
            client_rules := (client_rules b)(win := filter (found_at L c False b) (m_rules b)),
            caption_tracked := (caption_tracked b)(win := t)\<rparr>"
    using setupWindowRules_result [OF assms(1), of L win c False] assms(2) by auto
  have ex: "\<forall>p\<in>set (m_rules b). rule_at b p \<noteq> None" using d(3) by fastforce
  have rs: "rs = map (\<lambda>p. the (rule_at b p)) (m_rules b)" using deref_result [OF ex] assms(3) by simp
  have 1: "filter (found_at L c False b) (m_rules b) =
      filter ((\<lambda>r. fst (rules_match L r c)) \<circ> (\<lambda>p. the (rule_at b p))) (m_rules b)"
    using ex by (intro filter_cong) (auto simp: found_at_def)
  have 2: "filter (\<lambda>p. \<not> (found_at L c False b p \<and> temp_at b p)) (m_rules b) =
      filter ((\<lambda>r. \<not> (fst (rules_match L r c) \<and> isTemporary r)) \<circ> (\<lambda>p. the (rule_at b p))) (m_rules b)"
    using ex by (intro filter_cong) (auto simp: found_at_def temp_at_def)
  have s: "set (m_rules b') \<subseteq> set (m_rules b)" "set (client_rules b' win) \<subseteq> set (m_rules b)"
    by (auto simp: b')
  have ra: "rule_at b' = rule_at b" by (simp add: b')
  have "deref b' ps = Some (map (\<lambda>p. the (rule_at b p)) ps)" if "set ps \<subseteq> set (m_rules b)" for ps
    using that ex deref_result [of ps b'] ra by auto
  note der = this [OF s(1)] this [OF s(2)]
  have "m_rules b' = filter ((\<lambda>r. \<not> (fst (rules_match L r c) \<and> isTemporary r)) \<circ> (\<lambda>p. the (rule_at b p))) (m_rules b)"
    unfolding 2 [symmetric] by (simp add: b')
  moreover have "client_rules b' win = filter ((\<lambda>r. fst (rules_match L r c)) \<circ> (\<lambda>p. the (rule_at b p))) (m_rules b)"
    unfolding 1 [symmetric] by (simp add: b')
  moreover have "\<forall>e. e \<noteq> win \<longrightarrow> client_rules b' e = client_rules b e" by (simp add: b')
  ultimately show ?thesis using der unfolding rs filter_map by simp
qed

text \<open>C20: A temporary rule that no window took is gone after two cleanups, the first of which schedules
  the second, and the permanent rules of the book are untouched.\<close>

theorem temporary_rules_expire:
  assumes "book_ok b"
  shows "\<exists>b1 b2. cleanupTemporaryRules b = Some b1 \<and> cleanupTemporaryRules b1 = Some b2 \<and>
    ((\<exists>p\<in>set (m_rules b1). temp_at b1 p) \<longrightarrow> 0 < cleanup_timers b1) \<and>
    m_rules b2 = filter (\<lambda>p. \<not> temp_at b p) (m_rules b) \<and>
    (\<forall>p\<in>set (m_rules b2). rule_at b2 p = rule_at b p)"
proof -
  obtain b1 where b1: "cleanupTemporaryRules b = Some b1" "book_ok b1"
    "m_rules b1 = filter (\<lambda>p. ages b p \<noteq> 1) (m_rules b)"
    "\<forall>p\<in>set (m_rules b1). ages b1 p = (if ages b p = 2 then 1 else 0) \<and>
       (ages b p = 0 \<longrightarrow> rule_at b1 p = rule_at b p)"
    using cleanup_result [OF assms] by blast
  obtain b2 where b2: "cleanupTemporaryRules b1 = Some b2" "book_ok b2"
    "m_rules b2 = filter (\<lambda>p. ages b1 p \<noteq> 1) (m_rules b1)"
    "\<forall>p\<in>set (m_rules b2). ages b2 p = (if ages b1 p = 2 then 1 else 0) \<and>
       (ages b1 p = 0 \<longrightarrow> rule_at b2 p = rule_at b1 p)"
    using cleanup_result [OF b1(2)] by blast
  have rng: "ages b p \<in> {0, 1, 2}" for p
    using book_okD(6) [OF assms, of p] by (auto simp: ages_def split: option.split)
  have "m_rules b2 = filter (\<lambda>p. ages b p \<noteq> 1 \<and> ages b1 p \<noteq> 1) (m_rules b)"
    by (simp add: b2(3) b1(3) conj_commute)
  also have "\<dots> = filter (\<lambda>p. \<not> temp_at b p) (m_rules b)"
  proof (rule filter_cong [OF refl])
    fix p assume "p \<in> set (m_rules b)"
    then show "(ages b p \<noteq> 1 \<and> ages b1 p \<noteq> 1) \<longleftrightarrow> \<not> temp_at b p"
      using b1(3,4) rng [of p] by (cases "p \<in> set (m_rules b1)") (auto simp: temp_ages)
  qed
  finally have m: "m_rules b2 = filter (\<lambda>p. \<not> temp_at b p) (m_rules b)" .
  have "rule_at b2 p = rule_at b p" if "p \<in> set (m_rules b2)" for p
  proof -
    have p1: "p \<in> set (m_rules b1)" using that b2(3) by simp
    have z: "ages b p = 0" using that m rng [of p] by (auto simp: temp_ages)
    then show ?thesis using b1(4) b2(4) p1 that by auto
  qed
  moreover have "0 < cleanup_timers b1" if "\<exists>p\<in>set (m_rules b1). temp_at b1 p"
    using that book_okD(9) [OF b1(2)] by blast
  ultimately show ?thesis using b1(1) b2(1) m by blast
qed

section \<open>Rules that are used up\<close>

text \<open>What \<open>discardUsed\<close> makes of the rule at an address, and whether it deletes it.\<close>

definition emptied :: "bool \<Rightarrow> 'e rulebook \<Rightarrow> nat \<Rightarrow> bool" where
  "emptied withdrawn b p =
     (case rule_at b p of None \<Rightarrow> False | Some r \<Rightarrow> rules_isEmpty (rules_discardUsed withdrawn r))"

lemma removeRule_sel [simp]:
  "rule_at (removeRule win p b) = rule_at b" "m_rules (removeRule win p b) = m_rules b"
  "next_address (removeRule win p b) = next_address b"
  "m_updatesDisabled (removeRule win p b) = m_updatesDisabled b"
  "client_rules (removeRule win p b) = (client_rules b)(win := remove1 p (client_rules b win))"
  by (simp_all add: removeRule_def)

lemma discardUsed_loop_result:
  "distinct ps \<Longrightarrow> \<forall>p\<in>set ps. rule_at b p \<noteq> None \<Longrightarrow> distinct (client_rules b win) \<Longrightarrow>
   \<exists>b' u. discardUsed_loop win withdrawn ps b =
       Some (filter (\<lambda>p. \<not> (p \<in> set (client_rules b win) \<and> emptied withdrawn b p)) ps, u, b') \<and>
     (u \<longleftrightarrow> (\<exists>p\<in>set ps. p \<in> set (client_rules b win))) \<and>
     (\<forall>p. rule_at b' p =
        (if p \<in> set ps \<and> p \<in> set (client_rules b win)
         then if emptied withdrawn b p then None
              else map_option (rules_discardUsed withdrawn) (rule_at b p)
         else rule_at b p)) \<and>
     client_rules b' = (client_rules b)(win :=
       filter (\<lambda>p. \<not> (p \<in> set ps \<and> emptied withdrawn b p)) (client_rules b win)) \<and>
     m_rules b' = m_rules b \<and> next_address b' = next_address b \<and>
     m_updatesDisabled b' = m_updatesDisabled b"
proof (induction ps arbitrary: b)
  case (Cons p ps)
  from Cons.prems obtain r where r: "rule_at b p = Some r" by auto
  have e: "emptied withdrawn b p = rules_isEmpty (rules_discardUsed withdrawn r)"
    by (simp add: emptied_def r)
  show ?case
  proof (cases "p \<in> set (client_rules b win)")
    case False
    have p0: "distinct ps" "\<forall>p\<in>set ps. rule_at b p \<noteq> None" "distinct (client_rules b win)"
      using Cons.prems by auto
    obtain b' u where b': "discardUsed_loop win withdrawn ps b =
       Some (filter (\<lambda>p. \<not> (p \<in> set (client_rules b win) \<and> emptied withdrawn b p)) ps, u, b')"
     "u \<longleftrightarrow> (\<exists>p\<in>set ps. p \<in> set (client_rules b win))"
     "\<forall>p. rule_at b' p =
        (if p \<in> set ps \<and> p \<in> set (client_rules b win)
         then if emptied withdrawn b p then None
              else map_option (rules_discardUsed withdrawn) (rule_at b p)
         else rule_at b p)"
     "client_rules b' = (client_rules b)(win :=
       filter (\<lambda>p. \<not> (p \<in> set ps \<and> emptied withdrawn b p)) (client_rules b win))"
     "m_rules b' = m_rules b \<and> next_address b' = next_address b \<and> m_updatesDisabled b' = m_updatesDisabled b"
      using Cons.IH [OF p0] by blast
    have f: "filter (\<lambda>q. \<not> (q \<in> set ps \<and> emptied withdrawn b q)) (client_rules b win) =
        filter (\<lambda>q. \<not> (q \<in> set (p # ps) \<and> emptied withdrawn b q)) (client_rules b win)"
      by (rule filter_cong) (use False in auto)
    show ?thesis
    proof (intro exI conjI)
      show "discardUsed_loop win withdrawn (p # ps) b =
       Some (filter (\<lambda>p. \<not> (p \<in> set (client_rules b win) \<and> emptied withdrawn b p)) (p # ps), u, b')"
        using b'(1) False by simp
      show "u \<longleftrightarrow> (\<exists>p\<in>set (p # ps). p \<in> set (client_rules b win))" using b'(2) False by auto
      show "\<forall>q. rule_at b' q =
        (if q \<in> set (p # ps) \<and> q \<in> set (client_rules b win)
         then if emptied withdrawn b q then None
              else map_option (rules_discardUsed withdrawn) (rule_at b q)
         else rule_at b q)" using b'(3) False by auto
      show "client_rules b' = (client_rules b)(win :=
       filter (\<lambda>q. \<not> (q \<in> set (p # ps) \<and> emptied withdrawn b q)) (client_rules b win))"
        using b'(4) f by simp
    qed (use b'(5) in simp_all)
  next
    case True
    define v where "v = (if emptied withdrawn b p then None else Some (rules_discardUsed withdrawn r))"
    define b1 where "b1 = set_rule p v (if emptied withdrawn b p then removeRule win p b else b)"
    have s1: "rule_at b1 = (rule_at b)(p := v)" "m_rules b1 = m_rules b" "next_address b1 = next_address b"
      "m_updatesDisabled b1 = m_updatesDisabled b"
      "client_rules b1 = (client_rules b)(win :=
         if emptied withdrawn b p then remove1 p (client_rules b win) else client_rules b win)"
      by (simp_all add: b1_def)
    have em: "emptied withdrawn b1 q = emptied withdrawn b q" if "q \<in> set ps" for q
      using that Cons.prems(1) by (auto simp: emptied_def s1)
    have mem: "q \<in> set (client_rules b1 win) \<longleftrightarrow> q \<in> set (client_rules b win)" if "q \<in> set ps" for q
      using that Cons.prems(1,3) by (auto simp: s1)
    have p1: "\<forall>q\<in>set ps. rule_at b1 q \<noteq> None" "distinct (client_rules b1 win)" "distinct ps"
      using Cons.prems by (auto simp: s1)
    obtain b' u where b': "discardUsed_loop win withdrawn ps b1 =
       Some (filter (\<lambda>p. \<not> (p \<in> set (client_rules b1 win) \<and> emptied withdrawn b1 p)) ps, u, b')"
     "\<forall>p. rule_at b' p =
        (if p \<in> set ps \<and> p \<in> set (client_rules b1 win)
         then if emptied withdrawn b1 p then None
              else map_option (rules_discardUsed withdrawn) (rule_at b1 p)
         else rule_at b1 p)"
     "client_rules b' = (client_rules b1)(win :=
       filter (\<lambda>p. \<not> (p \<in> set ps \<and> emptied withdrawn b1 p)) (client_rules b1 win))"
     "m_rules b' = m_rules b1 \<and> next_address b' = next_address b1 \<and> m_updatesDisabled b' = m_updatesDisabled b1"
      using Cons.IH [OF p1(3,1,2)] by blast
    have k: "filter (\<lambda>q. \<not> (q \<in> set (client_rules b1 win) \<and> emptied withdrawn b1 q)) ps =
        filter (\<lambda>q. \<not> (q \<in> set (client_rules b win) \<and> emptied withdrawn b q)) ps"
      by (rule filter_cong) (use em mem in auto)
    have step: "discardUsed_loop win withdrawn (p # ps) b =
       Some (filter (\<lambda>p. \<not> (p \<in> set (client_rules b win) \<and> emptied withdrawn b p)) (p # ps), True, b')"
      using b'(1) True r e unfolding k
      by (cases "emptied withdrawn b p") (simp_all add: b1_def v_def)
    have ra: "rule_at b' q =
        (if q \<in> set (p # ps) \<and> q \<in> set (client_rules b win)
         then if emptied withdrawn b q then None
              else map_option (rules_discardUsed withdrawn) (rule_at b q)
         else rule_at b q)" for q
    proof (cases "q \<in> set ps")
      case True
      then show ?thesis using b'(2) em mem Cons.prems(1) by (auto simp: s1)
    next
      case False
      then show ?thesis using b'(2) True r by (auto simp: s1 v_def)
    qed
    have "filter (\<lambda>q. \<not> (q \<in> set ps \<and> emptied withdrawn b1 q)) (client_rules b1 win) =
        filter (\<lambda>q. \<not> (q \<in> set (p # ps) \<and> emptied withdrawn b q)) (client_rules b win)"
      using Cons.prems(1,3) em by (auto simp: s1 distinct_remove1_removeAll removeAll_filter_not_eq
        intro!: filter_cong)
    then have "client_rules b' = (client_rules b)(win :=
       filter (\<lambda>q. \<not> (q \<in> set (p # ps) \<and> emptied withdrawn b q)) (client_rules b win))"
      using b'(3) by (simp add: s1)
    moreover have "True \<longleftrightarrow> (\<exists>p\<in>set (p # ps). p \<in> set (client_rules b win))" using True by auto
    moreover have "m_rules b' = m_rules b \<and> next_address b' = next_address b \<and>
        m_updatesDisabled b' = m_updatesDisabled b" using b'(4) s1 by simp
    ultimately show ?thesis using step ra by blast
  qed
qed (auto intro: exI [of _ False])

text \<open>C18: When a window is withdrawn (or has used its rules up), a rule that is left without any effect is
  deleted and taken from that window only: another window that has the rule keeps a pointer to
  it, and the next operation that goes through the rules of that window follows it.\<close>

theorem discardUsed_leaves_dangling_pointer:
  assumes "book_ok b" "p \<in> set (m_rules b)" "rule_at b p = Some r"
    and "p \<in> set (client_rules b win)" "p \<in> set (client_rules b other_win)" "win \<noteq> other_win"
    and "rules_isEmpty (rules_discardUsed withdrawn r)"
    and "w_managed c" "\<not> m_updatesDisabled b"
  shows "\<exists>b'. rb_discardUsed win withdrawn b = Some b' \<and> rule_at b' p = None \<and>
    p \<notin> set (client_rules b' win) \<and> p \<in> set (client_rules b' other_win) \<and>
    updateWindowRules other_win c sel b' = None"
proof -
  note d = book_okD [OF assms(1)]
  have ex: "\<forall>p\<in>set (m_rules b). rule_at b p \<noteq> None" using d(3) by fastforce
  have e: "emptied withdrawn b p" using assms(3,7) by (simp add: emptied_def)
  obtain b1 u where b1: "discardUsed_loop win withdrawn (m_rules b) b =
       Some (filter (\<lambda>p. \<not> (p \<in> set (client_rules b win) \<and> emptied withdrawn b p)) (m_rules b), u, b1)"
     "\<forall>p. rule_at b1 p =
        (if p \<in> set (m_rules b) \<and> p \<in> set (client_rules b win)
         then if emptied withdrawn b p then None
              else map_option (rules_discardUsed withdrawn) (rule_at b p)
         else rule_at b p)"
     "client_rules b1 = (client_rules b)(win :=
       filter (\<lambda>q. \<not> (q \<in> set (m_rules b) \<and> emptied withdrawn b q)) (client_rules b win))"
     "m_updatesDisabled b1 = m_updatesDisabled b"
    using discardUsed_loop_result [OF d(1) ex d(2) [of win], of withdrawn] by blast
  define b2 where "b2 = (let b' = b1\<lparr>m_rules :=
      filter (\<lambda>p. \<not> (p \<in> set (client_rules b win) \<and> emptied withdrawn b p)) (m_rules b)\<rparr>
    in if u then requestDiskStorage b' else b')"
  have run: "rb_discardUsed win withdrawn b = Some b2"
    by (simp add: rb_discardUsed_def b1(1) b2_def Let_def)
  have b2: "rule_at b2 = rule_at b1" "client_rules b2 = client_rules b1" "m_updatesDisabled b2 = m_updatesDisabled b1"
    by (simp_all add: b2_def Let_def)
  have gone: "rule_at b2 p = None" using b1(2) b2 assms(2,4) e by simp
  have kept: "p \<in> set (client_rules b2 other_win)" using b1(3) b2 assms(5,6) by simp
  have "wr_update_loop c sel ps b' = None" if "p \<in> set ps" "rule_at b' p = None" for ps and b' :: "'a rulebook"
    using that
  proof (induction ps arbitrary: b')
    case (Cons q qs)
    show ?case
    proof (cases "rule_at b' q")
      case (Some r')
      then have "q \<noteq> p" using Cons.prems(2) by auto
      then have "wr_update_loop c sel qs (set_rule q (Some (fst (rules_update c sel r'))) b') = None"
        using Cons.prems by (intro Cons.IH) auto
      then show ?thesis using Some by simp
    qed simp
  qed simp
  then have "updateWindowRules other_win c sel b2 = None"
    using kept gone assms(8,9) b1(4) b2(3) by (simp add: updateWindowRules_def wr_update_def)
  moreover have "p \<notin> set (client_rules b2 win)" using b1(3) b2 assms(2) e by auto
  ultimately show ?thesis using run gone kept by blast
qed

section \<open>Saving and loading the book\<close>




text \<open>C22: A rule that was read from a configuration group, written to an empty one and read again is the
  same rule without the values of the settings it does not use and without the kind of match of
  an empty role, title or machine (so a rule for windows with an empty role turns into one for
  windows with any role), provided its colour scheme has a name without dot and slash and its patterns
  for the class, the role and the machine are ASCII: these three are written as bytes and read as UTF-8
  (\<open>non_ascii_class_lost\<close> shows a class that does not come back).\<close>

theorem rules_roundtrip:
  assumes "library_ok L" "plain_name (readEntry (rdStr L) cfg ''decocolor'' [])" "ascii_patterns (readFromCfg L cfg)"
  shows "readFromCfg L (rules_write L (readFromCfg L cfg) Map.empty) = forget_unused (readFromCfg L cfg)"
  by (rule read_write_readable [OF assms(1) readFromCfg_readable [OF assms]])

section \<open>Examples\<close>

text \<open>Libraries with typed entries, and a window.  Bytes that are not ASCII are no UTF-8 and read as a replacement.\<close>

datatype entry =
  EStr string | EBytes string | EInt int | EUint uint | EBool bool | EPoint point | ESize qsize

definition example_library :: "entry library" where
  "example_library =
     \<lparr>wrStr = EStr,
      rdStr = (\<lambda>e. case e of
         EStr x \<Rightarrow> Some x
       | EBytes x \<Rightarrow> Some (map (\<lambda>c. if of_char c < (128 :: nat) then c else CHR ''?'') x)
       | _ \<Rightarrow> None),
      wrBytes = EBytes,
      wrInt = EInt, rdInt = (\<lambda>e. case e of EInt x \<Rightarrow> Some x | _ \<Rightarrow> None),
      wrUint = EUint, rdUint = (\<lambda>e. case e of EUint x \<Rightarrow> Some x | _ \<Rightarrow> None),
      wrBool = EBool, rdBool = (\<lambda>e. case e of EBool x \<Rightarrow> Some x | _ \<Rightarrow> None),
      wrPoint = EPoint, rdPoint = (\<lambda>e. case e of EPoint x \<Rightarrow> Some x | _ \<Rightarrow> None),
      wrSize = ESize, rdSize = (\<lambda>e. case e of ESize x \<Rightarrow> Some x | _ \<Rightarrow> None),
      toLower = (\<lambda>s. s), toLatin1 = (\<lambda>s. s), fromUtf8 = (\<lambda>s. s),
      regExpFinds = (\<lambda>p s. sublist p s), locate = (\<lambda>f. ''/usr/share/'' @ f),
      parseRules = (\<lambda>s. Map.empty), typeMatchesMask = (\<lambda>t m. True)\<rparr>"

lemma example_library_ok: "library_ok example_library"
proof -
  have "suffix (''/'' @ f) (''/usr/share/'' @ f)" for f :: string
    unfolding suffix_def by (rule exI [of _ "''/usr/share''"]) simp
  moreover have "map (\<lambda>c. if of_char c < (128 :: nat) then c else CHR ''?'') x = x" if "ascii x" for x
    using that by (intro map_idI) (simp add: ascii_def)
  ultimately show ?thesis by (simp add: library_ok_def codec_ok_def example_library_def)
qed

text \<open>A rule that keeps windows of one class above others and remembers their place, a rule that
  forces a window to be minimised until it is closed, and a temporary rule.\<close>

definition keep_cfg :: "entry cfg" where
  "keep_cfg = [''Description'' \<mapsto> EStr ''editor'', ''wmclass'' \<mapsto> EStr ''edit'',
     ''wmclassmatch'' \<mapsto> EInt 1, ''windowrolematch'' \<mapsto> EInt 1, ''above'' \<mapsto> EBool True,
     ''aboverule'' \<mapsto> EInt 2, ''position'' \<mapsto> EPoint (10, 20), ''positionrule'' \<mapsto> EInt 4,
     ''size'' \<mapsto> ESize (300, 200), ''sizerule'' \<mapsto> EInt 4, ''desktop'' \<mapsto> EInt 2,
     ''decocolor'' \<mapsto> EStr ''Breeze'', ''decocolorrule'' \<mapsto> EInt 2]"

definition example_window :: ruled where
  "example_window =
     \<lparr>w_windowType = NET_Normal, w_resourceClass = ''edit'', w_resourceName = ''edit'',
      w_windowRole = [], w_hostName = ''localhost'', w_isLocal = True, w_caption = ''text'',
      w_managed = True, w_fullScreen = False, w_maximizeMode = Maximize False False,
      w_pos = (50, 60), w_size = (640, 480), w_desktop = 1, w_screen = 0, w_activities = [],
      w_minimized = False, w_shadeMode = ShadeNone, w_skipTaskbar = False, w_skipPager = False,
      w_skipSwitcher = False, w_keepAbove = False, w_keepBelow = False, w_noBorder = False\<rparr>"

definition keep_rule :: rules where
  "keep_rule = readFromCfg example_library keep_cfg"

definition minimize_rule :: rules where
  "minimize_rule = (readFromCfg example_library Map.empty)\<lparr>r_minimize := (True, ForceTemporarily)\<rparr>"

definition message_rule :: rules where
  "message_rule = Rules_message example_library ''wmclass=edit'' True"

text \<open>A book with these rules, of which two windows have the second.\<close>

definition example_book :: "entry rulebook" where
  "example_book =
     \<lparr>rule_at = [0 \<mapsto> keep_rule, 1 \<mapsto> minimize_rule, 2 \<mapsto> message_rule], next_address = 3,
      m_rules = [2, 0, 1], client_rules = (\<lambda>c. if c = 1 \<or> c = 2 then [1] else []),
      caption_tracked = (\<lambda>_. False), m_updatesDisabled = False, m_updateTimer = False,
      cleanup_timers = 1, rulesrc = Map.empty\<rparr>"

lemma example_states:
  "temporary_state keep_rule = 0" "temporary_state minimize_rule = 0" "temporary_state message_rule = 2"
  by (simp_all add: keep_rule_def minimize_rule_def message_rule_def Rules_message_temporary readFromCfg_def)

lemma example_book_ok: "book_ok example_book"
  by (auto simp: book_ok_def example_book_def temp_at_def isTemporary_def example_states split: if_splits)

lemma update_remembers_witness:
  "snd (r_position keep_rule) = Remember \<and>
   wr_checkGeometry [fst (rules_update example_window UNIV keep_rule)] (mk_rect (0, 0) (10, 10)) True =
     mk_rect (50, 60) (640, 480)"
proof -
  have r: "snd (r_position keep_rule) = Remember" "snd (r_size keep_rule) = Remember"
    by (simp_all add: keep_rule_def readFromCfg_def readSet_def readSetRule_def readEntry_def
      keep_cfg_def example_library_def size_isEmpty_def Let_def)
  then show ?thesis
    using update_remembers [OF refl, of example_window UNIV keep_rule 0 False "mk_rect (0, 0) (10, 10)"]
    by (simp add: example_window_def invalidPoint_def size_isValid_def)
qed

lemma rulebook_operations_safe_witness:
  "\<exists>b'. setupWindowRules example_library 3 example_window False example_book = Some b' \<and> book_ok b'"
  using rulebook_operations_safe [OF example_book_ok, of example_library 3 example_window False] by blast

lemma find_matching_rules_witness:
  "\<exists>b' rs. setupWindowRules example_library 3 example_window False example_book = Some b' \<and>
     deref example_book [2, 0, 1] = Some rs \<and>
     deref b' (client_rules b' 3) = Some (filter (\<lambda>r. fst (rules_match example_library r example_window)) rs)"
proof -
  obtain t where s: "setupWindowRules example_library 3 example_window False example_book = Some t"
    using setupWindowRules_result [OF example_book_ok] by blast
  have "deref example_book (m_rules example_book) = Some [message_rule, keep_rule, minimize_rule]"
    by (simp add: example_book_def)
  from find_matching_rules [OF example_book_ok s this] s this show ?thesis
    by (simp add: example_book_def)
qed

lemma temporary_rules_expire_witness:
  "\<exists>b1 b2. cleanupTemporaryRules example_book = Some b1 \<and> cleanupTemporaryRules b1 = Some b2 \<and>
     m_rules b2 = [0, 1]"
proof -
  have "filter (\<lambda>p. \<not> temp_at example_book p) (m_rules example_book) = [0, 1]"
    by (simp add: example_book_def temp_at_def isTemporary_def example_states)
  then show ?thesis using temporary_rules_expire [OF example_book_ok] by force
qed

lemma discardUsed_leaves_dangling_pointer_witness:
  "\<exists>b'. rb_discardUsed 1 True example_book = Some b' \<and> rule_at b' 1 = None \<and>
     updateWindowRules 2 example_window UNIV b' = None"
proof -
  have e: "rules_isEmpty (rules_discardUsed True minimize_rule)"
    by (simp add: minimize_rule_def rules_isEmpty_def rules_discardUsed_def readFromCfg_def
      discardSet_def discardForce_def readSet_def readForce_def readOpacity_def readSetRule_def
      readForceRule_def readDecoColor_def readType_def size_isEmpty_def noSize_def Let_def)
  have b: "1 \<in> set (m_rules example_book)" "rule_at example_book 1 = Some minimize_rule"
    "1 \<in> set (client_rules example_book 1)" "1 \<in> set (client_rules example_book 2)"
    "\<not> m_updatesDisabled example_book"
    by (simp_all add: example_book_def)
  have w: "w_managed example_window" by (simp add: example_window_def)
  have "(1 :: nat) \<noteq> 2" by simp
  from discardUsed_leaves_dangling_pointer [OF example_book_ok b(1,2,3,4) this e w b(5), of UNIV]
  show ?thesis by blast
qed

lemma keep_rule_plain: "plain_name (readEntry (rdStr example_library) keep_cfg ''decocolor'' [])"
  by (simp add: plain_name_def readEntry_def keep_cfg_def example_library_def)

lemma keep_rule_ascii: "ascii_patterns (readFromCfg example_library keep_cfg)"
  by (simp add: ascii_patterns_def ascii_def readFromCfg_def readMatch_def readEntry_def keep_cfg_def example_library_def)

text \<open>The class \<^verbatim>\<open>\xe9\<close> is matched by a rule, but not by the same rule after it was saved and loaded.\<close>

lemma non_ascii_class_lost:
  "r_wmclass (readFromCfg example_library (rules_write example_library
     ((readFromCfg example_library Map.empty)\<lparr>r_wmclass := ([CHR 0xE9], ExactMatch)\<rparr>) Map.empty)) = (''?'', ExactMatch)"
proof -
  let ?r = "(readFromCfg example_library Map.empty)\<lparr>r_wmclass := ([CHR 0xE9], ExactMatch)\<rparr>"
  have w: "rules_write example_library ?r Map.empty ''wmclass'' = Some (EBytes [CHR 0xE9])"
    "rules_write example_library ?r Map.empty ''wmclassmatch'' = Some (EInt 1)"
    by (rule rules_write_entry; simp add: rules_entries_def writeMatch_def example_library_def)+
  then show ?thesis
    by (simp add: readFromCfg_def readMatch_def readEntry_def example_library_def min_def word_le_nat_alt)
qed

lemma rules_roundtrip_witness:
  "readFromCfg example_library (rules_write example_library keep_rule Map.empty) = forget_unused keep_rule \<and>
   snd (r_windowrole keep_rule) = ExactMatch \<and> snd (r_windowrole (forget_unused keep_rule)) = UnimportantMatch"
proof -
  have m: "r_windowrole keep_rule = ([], ExactMatch)"
    by (simp add: keep_rule_def readFromCfg_def readMatch_def readEntry_def keep_cfg_def
      example_library_def min_def word_le_nat_alt Let_def)
  then have "r_windowrole (forget_unused keep_rule) = ([], UnimportantMatch)"
    by (simp add: forget_unused_def forget_match_def)
  moreover have "readFromCfg example_library (rules_write example_library keep_rule Map.empty) =
      forget_unused keep_rule"
    unfolding keep_rule_def by (rule rules_roundtrip [OF example_library_ok keep_rule_plain keep_rule_ascii])
  ultimately show ?thesis using m by simp
qed


end
