(* ===== verification/Rects.thy ===== *)
theory Rects
  imports Rules
begin

text \<open>
  The rectangles of the window manager as the \<open>QRect\<close> of Qt has them: four inclusive corners, so
  that a rectangle is empty when its right edge is left of its left one.  Pixel arithmetic is
  done in unbounded integers; a division truncates towards zero.
\<close>

section \<open>Questions\<close>

definition rwidth :: "rect \<Rightarrow> int" where
  "rwidth a = rx2 a - rx1 a + 1"

definition rheight :: "rect \<Rightarrow> int" where
  "rheight a = ry2 a - ry1 a + 1"

definition no_rect :: rect where
  "no_rect = \<lparr>rx1 = 0, ry1 = 0, rx2 = - 1, ry2 = - 1\<rparr>"

definition rect_isEmpty :: "rect \<Rightarrow> bool" where
  "rect_isEmpty a = (rx1 a > rx2 a \<or> ry1 a > ry2 a)"

definition rect_isValid :: "rect \<Rightarrow> bool" where
  "rect_isValid a = (rx1 a \<le> rx2 a \<and> ry1 a \<le> ry2 a)"

definition rcenter :: "rect \<Rightarrow> point" where
  "rcenter a = (c_div (rx1 a + rx2 a) 2, c_div (ry1 a + ry2 a) 2)"

definition topRight :: "rect \<Rightarrow> point" where
  "topRight a = (rx2 a, ry1 a)"

definition bottomLeft :: "rect \<Rightarrow> point" where
  "bottomLeft a = (rx1 a, ry2 a)"

definition bottomRight :: "rect \<Rightarrow> point" where
  "bottomRight a = (rx2 a, ry2 a)"

text \<open>A side whose ends are swapped is turned round by \<open>contains\<close>; an empty one is not.\<close>

definition proper_side :: "int \<Rightarrow> int \<Rightarrow> int \<times> int" where
  "proper_side p q = (if q < p - 1 then (q, p) else (p, q))"

definition contains_point :: "rect \<Rightarrow> point \<Rightarrow> bool" where
  "contains_point a p =
     (let (l, r) = proper_side (rx1 a) (rx2 a); (t, b) = proper_side (ry1 a) (ry2 a)
      in l \<le> fst p \<and> fst p \<le> r \<and> t \<le> snd p \<and> snd p \<le> b)"

definition contains_rect :: "rect \<Rightarrow> rect \<Rightarrow> bool" where
  "contains_rect a b =
     (let (l1, r1) = side (rx1 a) (rx2 a); (l2, r2) = side (rx1 b) (rx2 b);
          (t1, b1) = side (ry1 a) (ry2 a); (t2, b2) = side (ry1 b) (ry2 b)
      in \<not> null_rect a \<and> \<not> null_rect b \<and> l1 \<le> l2 \<and> r2 \<le> r1 \<and> t1 \<le> t2 \<and> b2 \<le> b1)"

section \<open>Changes\<close>

definition setLeft :: "int \<Rightarrow> rect \<Rightarrow> rect" where
  "setLeft p a = a\<lparr>rx1 := p\<rparr>"

definition setRight :: "int \<Rightarrow> rect \<Rightarrow> rect" where
  "setRight p a = a\<lparr>rx2 := p\<rparr>"

definition setTop :: "int \<Rightarrow> rect \<Rightarrow> rect" where
  "setTop p a = a\<lparr>ry1 := p\<rparr>"

definition setBottom :: "int \<Rightarrow> rect \<Rightarrow> rect" where
  "setBottom p a = a\<lparr>ry2 := p\<rparr>"

definition setWidth :: "int \<Rightarrow> rect \<Rightarrow> rect" where
  "setWidth v a = a\<lparr>rx2 := rx1 a + v - 1\<rparr>"

definition setHeight :: "int \<Rightarrow> rect \<Rightarrow> rect" where
  "setHeight v a = a\<lparr>ry2 := ry1 a + v - 1\<rparr>"

definition setSize :: "qsize \<Rightarrow> rect \<Rightarrow> rect" where
  "setSize s a = setHeight (snd s) (setWidth (fst s) a)"

definition moveLeft :: "int \<Rightarrow> rect \<Rightarrow> rect" where
  "moveLeft p a = a\<lparr>rx1 := p, rx2 := rx2 a + (p - rx1 a)\<rparr>"

definition moveTop :: "int \<Rightarrow> rect \<Rightarrow> rect" where
  "moveTop p a = a\<lparr>ry1 := p, ry2 := ry2 a + (p - ry1 a)\<rparr>"

definition moveRight :: "int \<Rightarrow> rect \<Rightarrow> rect" where
  "moveRight p a = a\<lparr>rx1 := rx1 a + (p - rx2 a), rx2 := p\<rparr>"

definition moveBottom :: "int \<Rightarrow> rect \<Rightarrow> rect" where
  "moveBottom p a = a\<lparr>ry1 := ry1 a + (p - ry2 a), ry2 := p\<rparr>"

definition moveTopLeft :: "point \<Rightarrow> rect \<Rightarrow> rect" where
  "moveTopLeft p a = moveTop (snd p) (moveLeft (fst p) a)"

definition setTopLeft :: "point \<Rightarrow> rect \<Rightarrow> rect" where
  "setTopLeft p a = setTop (snd p) (setLeft (fst p) a)"

definition moveCenter :: "point \<Rightarrow> rect \<Rightarrow> rect" where
  "moveCenter p a =
     (let w = rx2 a - rx1 a; h = ry2 a - ry1 a; x = fst p - c_div w 2; y = snd p - c_div h 2
      in \<lparr>rx1 = x, ry1 = y, rx2 = x + w, ry2 = y + h\<rparr>)"

definition translated :: "point \<Rightarrow> rect \<Rightarrow> rect" where
  "translated p a =
     \<lparr>rx1 = rx1 a + fst p, ry1 = ry1 a + snd p, rx2 = rx2 a + fst p, ry2 = ry2 a + snd p\<rparr>"

definition adjusted :: "int \<Rightarrow> int \<Rightarrow> int \<Rightarrow> int \<Rightarrow> rect \<Rightarrow> rect" where
  "adjusted l t r b a =
     \<lparr>rx1 = rx1 a + l, ry1 = ry1 a + t, rx2 = rx2 a + r, ry2 = ry2 a + b\<rparr>"

text \<open>\<open>intersected\<close> gives the null rectangle when there is nothing in common; \<open>united\<close> leaves out
  a null rectangle.\<close>

definition intersected :: "rect \<Rightarrow> rect \<Rightarrow> rect" where
  "intersected a b =
     (if null_rect a \<or> null_rect b then no_rect
      else let (l1, r1) = side (rx1 a) (rx2 a); (l2, r2) = side (rx1 b) (rx2 b);
               (t1, b1) = side (ry1 a) (ry2 a); (t2, b2) = side (ry1 b) (ry2 b)
           in if l1 > r2 \<or> l2 > r1 \<or> t1 > b2 \<or> t2 > b1 then no_rect
              else \<lparr>rx1 = max l1 l2, ry1 = max t1 t2, rx2 = min r1 r2, ry2 = min b1 b2\<rparr>)"

definition united :: "rect \<Rightarrow> rect \<Rightarrow> rect" where
  "united a b =
     (if null_rect a then b
      else if null_rect b then a
      else let (l1, r1) = side (rx1 a) (rx2 a); (l2, r2) = side (rx1 b) (rx2 b);
               (t1, b1) = side (ry1 a) (ry2 a); (t2, b2) = side (ry1 b) (ry2 b)
           in \<lparr>rx1 = min l1 l2, ry1 = min t1 t2, rx2 = max r1 r2, ry2 = max b1 b2\<rparr>)"

definition manhattanLength :: "point \<Rightarrow> int" where
  "manhattanLength p = \<bar>fst p\<bar> + \<bar>snd p\<bar>"

definition sub_point :: "point \<Rightarrow> point \<Rightarrow> point" where
  "sub_point p q = (fst p - fst q, snd p - snd q)"

definition add_point :: "point \<Rightarrow> point \<Rightarrow> point" where
  "add_point p q = (fst p + fst q, snd p + snd q)"

section \<open>Facts\<close>

named_theorems rect_simps \<open>coordinates of changed rectangles\<close>

lemma moved_coordinates [rect_simps]:
  "rx1 (moveLeft p a) = p" "rx2 (moveLeft p a) = p + rwidth a - 1"
  "ry1 (moveLeft p a) = ry1 a" "ry2 (moveLeft p a) = ry2 a"
  "ry1 (moveTop p a) = p" "ry2 (moveTop p a) = p + rheight a - 1"
  "rx1 (moveTop p a) = rx1 a" "rx2 (moveTop p a) = rx2 a"
  "rx2 (moveRight p a) = p" "rx1 (moveRight p a) = p - rwidth a + 1"
  "ry1 (moveRight p a) = ry1 a" "ry2 (moveRight p a) = ry2 a"
  "ry2 (moveBottom p a) = p" "ry1 (moveBottom p a) = p - rheight a + 1"
  "rx1 (moveBottom p a) = rx1 a" "rx2 (moveBottom p a) = rx2 a"
  by (simp_all add: moveLeft_def moveTop_def moveRight_def moveBottom_def rwidth_def rheight_def)

lemma moved_size [rect_simps]:
  "rwidth (moveLeft p a) = rwidth a" "rheight (moveLeft p a) = rheight a"
  "rwidth (moveTop p a) = rwidth a" "rheight (moveTop p a) = rheight a"
  "rwidth (moveRight p a) = rwidth a" "rheight (moveRight p a) = rheight a"
  "rwidth (moveBottom p a) = rwidth a" "rheight (moveBottom p a) = rheight a"
  "rwidth (moveTopLeft q a) = rwidth a" "rheight (moveTopLeft q a) = rheight a"
  "rwidth (moveCenter q a) = rwidth a" "rheight (moveCenter q a) = rheight a"
  by (simp_all add: moveLeft_def moveTop_def moveRight_def moveBottom_def moveTopLeft_def
    moveCenter_def rwidth_def rheight_def Let_def)

lemma set_coordinates [rect_simps]:
  "rx1 (setLeft p a) = p" "rx2 (setLeft p a) = rx2 a" "ry1 (setLeft p a) = ry1 a" "ry2 (setLeft p a) = ry2 a"
  "rx1 (setRight p a) = rx1 a" "rx2 (setRight p a) = p" "ry1 (setRight p a) = ry1 a" "ry2 (setRight p a) = ry2 a"
  "rx1 (setTop p a) = rx1 a" "rx2 (setTop p a) = rx2 a" "ry1 (setTop p a) = p" "ry2 (setTop p a) = ry2 a"
  "rx1 (setBottom p a) = rx1 a" "rx2 (setBottom p a) = rx2 a" "ry1 (setBottom p a) = ry1 a" "ry2 (setBottom p a) = p"
  "rx1 (setSize s a) = rx1 a" "ry1 (setSize s a) = ry1 a"
  "rx2 (setSize s a) = rx1 a + fst s - 1" "ry2 (setSize s a) = ry1 a + snd s - 1"
  "rx1 (moveTopLeft q a) = fst q" "ry1 (moveTopLeft q a) = snd q"
  "rx2 (moveTopLeft q a) = fst q + rwidth a - 1" "ry2 (moveTopLeft q a) = snd q + rheight a - 1"
  by (simp_all add: setLeft_def setRight_def setTop_def setBottom_def setSize_def setWidth_def
    setHeight_def moveTopLeft_def moveLeft_def moveTop_def rwidth_def rheight_def)

lemma mk_rect_coordinates [rect_simps]:
  "rx1 (mk_rect p s) = fst p" "ry1 (mk_rect p s) = snd p"
  "rwidth (mk_rect p s) = fst s" "rheight (mk_rect p s) = snd s"
  "rx2 (mk_rect p s) = fst p + fst s - 1" "ry2 (mk_rect p s) = snd p + snd s - 1"
  by (simp_all add: mk_rect_def rwidth_def rheight_def)

lemma rect_eqI:
  fixes a b :: rect
  shows "rx1 a = rx1 b \<Longrightarrow> ry1 a = ry1 b \<Longrightarrow> rx2 a = rx2 b \<Longrightarrow> ry2 a = ry2 b \<Longrightarrow> a = b"
  by (rule rect.equality) simp_all

lemma valid_rect_facts:
  assumes "rect_isValid a"
  shows "\<not> null_rect a" "side (rx1 a) (rx2 a) = (rx1 a, rx2 a)" "side (ry1 a) (ry2 a) = (ry1 a, ry2 a)"
    "proper_side (rx1 a) (rx2 a) = (rx1 a, rx2 a)" "proper_side (ry1 a) (ry2 a) = (ry1 a, ry2 a)"
  using assms by (auto simp: rect_isValid_def null_rect_def side_def proper_side_def)

lemma contains_point_valid:
  "rect_isValid a \<Longrightarrow> contains_point a p \<longleftrightarrow>
     rx1 a \<le> fst p \<and> fst p \<le> rx2 a \<and> ry1 a \<le> snd p \<and> snd p \<le> ry2 a"
  by (simp add: contains_point_def valid_rect_facts)

lemma contains_rect_valid:
  "rect_isValid a \<Longrightarrow> rect_isValid b \<Longrightarrow> contains_rect a b \<longleftrightarrow>
     rx1 a \<le> rx1 b \<and> rx2 b \<le> rx2 a \<and> ry1 a \<le> ry1 b \<and> ry2 b \<le> ry2 a"
  by (simp add: contains_rect_def valid_rect_facts)

lemma intersects_valid:
  "rect_isValid a \<Longrightarrow> rect_isValid b \<Longrightarrow> intersects a b \<longleftrightarrow>
     rx1 a \<le> rx2 b \<and> rx1 b \<le> rx2 a \<and> ry1 a \<le> ry2 b \<and> ry1 b \<le> ry2 a"
  by (simp add: intersects_def valid_rect_facts)

lemma intersected_valid:
  "rect_isValid a \<Longrightarrow> rect_isValid b \<Longrightarrow> intersected a b =
     (if intersects a b
      then \<lparr>rx1 = max (rx1 a) (rx1 b), ry1 = max (ry1 a) (ry1 b),
            rx2 = min (rx2 a) (rx2 b), ry2 = min (ry2 a) (ry2 b)\<rparr>
      else no_rect)"
  unfolding intersects_valid by (auto simp: intersected_def valid_rect_facts)

lemma center_inside:
  assumes "rect_isValid a" "0 \<le> rx1 a" "0 \<le> ry1 a"
  shows "contains_point a (rcenter a)"
  using assms by (simp add: contains_point_valid rcenter_def rect_isValid_def) presburger

end
