(* ===== verification/GeometryState.thy ===== *)
theory GeometryState
  imports Rects "HOL-Library.Monad_Syntax"
begin

text \<open>
  The state the geometry of windows depends on: the size hints a client sets
  (\<open>Xcb::GeometryHints\<close> of \<^verbatim>\<open>xcbutils.h\<close>), the fields of a window that \<^verbatim>\<open>geometry.cpp\<close> works
  with, the screens (\<^verbatim>\<open>screens.cpp\<close>, \<^verbatim>\<open>screens_xrandr.cpp\<close>) and the areas of the workspace.
\<close>

section \<open>Size hints\<close>

datatype gravity =
    NorthWestGravity | NorthGravity | NorthEastGravity | WestGravity | CenterGravity
  | EastGravity | SouthWestGravity | SouthGravity | SouthEastGravity | StaticGravity

text \<open>What the property \<open>WM_NORMAL_HINTS\<close> holds: a flag and a value for each hint.  An empty
  property has no flag.\<close>

record size_hints =
  h_minSize :: "qsize option"
  h_maxSize :: "qsize option"
  h_increments :: "qsize option"
  h_aspect :: "(qsize \<times> qsize) option"
  h_baseSize :: "qsize option"
  h_gravity :: "gravity option"

definition INT_MAX :: int where
  "INT_MAX = 2147483647"

definition INT_MIN :: int where
  "INT_MIN = - 2147483648"

definition hasAspect :: "size_hints \<Rightarrow> bool" where
  "hasAspect h = (h_aspect h \<noteq> None)"

definition hasBaseSize :: "size_hints \<Rightarrow> bool" where
  "hasBaseSize h = (h_baseSize h \<noteq> None)"

definition hint_maxSize :: "size_hints \<Rightarrow> qsize" where
  "hint_maxSize h = (case h_maxSize h of
     None \<Rightarrow> (INT_MAX, INT_MAX) | Some s \<Rightarrow> (max (fst s) 1, max (snd s) 1))"

definition hint_baseSize :: "size_hints \<Rightarrow> qsize" where
  "hint_baseSize h = (case h_baseSize h of None \<Rightarrow> (0, 0) | Some s \<Rightarrow> s)"

definition hint_minSize :: "size_hints \<Rightarrow> qsize" where
  "hint_minSize h = (case h_minSize h of None \<Rightarrow> hint_baseSize h | Some s \<Rightarrow> s)"

definition resizeIncrements :: "size_hints \<Rightarrow> qsize" where
  "resizeIncrements h = (case h_increments h of
     None \<Rightarrow> (1, 1) | Some s \<Rightarrow> (max (fst s) 1, max (snd s) 1))"

definition windowGravity :: "size_hints \<Rightarrow> gravity" where
  "windowGravity h = (case h_gravity h of None \<Rightarrow> NorthWestGravity | Some g \<Rightarrow> g)"

definition minAspect :: "size_hints \<Rightarrow> qsize" where
  "minAspect h = (case h_aspect h of
     None \<Rightarrow> (1, INT_MAX) | Some (a, b) \<Rightarrow> (fst a, max (snd a) 1))"

definition maxAspect :: "size_hints \<Rightarrow> qsize" where
  "maxAspect h = (case h_aspect h of
     None \<Rightarrow> (INT_MAX, 1) | Some (a, b) \<Rightarrow> (fst b, max (snd b) 1))"

section \<open>Windows\<close>

datatype Position =
    PositionCenter | PositionLeft | PositionRight | PositionTop | PositionBottom
  | PositionTopLeft | PositionTopRight | PositionBottomLeft | PositionBottomRight

datatype Sizemode = SizemodeAny | SizemodeFixedW | SizemodeFixedH | SizemodeMax

datatype ForceGeometry = NormalGeometrySet | ForceGeometrySet

datatype PendingGeometry = PendingGeometryNone | PendingGeometryNormal | PendingGeometryForced

text \<open>\<open>QuickTileMode\<close>: the flags left, right, top and bottom.\<close>

datatype QuickTileMode = Tile (tLeft: bool) (tRight: bool) (tTop: bool) (tBottom: bool)

definition QuickTileNone :: QuickTileMode where
  "QuickTileNone = Tile False False False False"

definition QuickTileMaximize :: QuickTileMode where
  "QuickTileMaximize = Tile True True True True"

text \<open>A strut: the width at each side of the screen with the start and end of its range.\<close>

record strut =
  left_strut :: "int \<times> int \<times> int"
  right_strut :: "int \<times> int \<times> int"
  top_strut :: "int \<times> int \<times> int"
  bottom_strut :: "int \<times> int \<times> int"

datatype StrutArea = StrutAreaInvalid | StrutAreaTop | StrutAreaRight | StrutAreaBottom | StrutAreaLeft

text \<open>
  The fields of a window beside those of \<open>client\<close>.  \<open>borders\<close> are left, top, right and bottom,
  zero without a decoration; \<open>ext_strut\<close> and \<open>simple_strut\<close> (left, right, top, bottom) are what
  the client's properties say; \<open>w_rules\<close> are the rules the window has; \<open>plugin_borders\<close> is what
  the decoration plugin answers: no decoration, or the borders of one.
\<close>

record geo =
  decorated :: bool
  borders :: "int \<times> int \<times> int \<times> int"
  client_size :: qsize
  hints :: size_hints
  w_rules :: "rules list"
  max_mode :: MaximizeMode
  geom_restore :: rect
  quick_tile_mode :: QuickTileMode
  electric_mode :: QuickTileMode
  electric_maximizing :: bool
  block_geometry :: int
  pending_geometry :: PendingGeometry
  geom_before_block :: rect
  frame_geometry :: rect
  shade_geometry_change :: bool
  move_resize :: bool
  pointer_mode :: Position
  has_sync_counter :: bool
  needs_x_move :: bool
  net_support :: bool
  motif_move :: bool
  motif_resize :: bool
  motif_no_border :: bool
  app_noborder :: bool
  no_border :: bool
  ext_strut :: strut
  simple_strut :: "int \<times> int \<times> int \<times> int"
  placement_pos :: point
  tab_sizes :: "(qsize \<times> qsize) option"
  plugin_borders :: "MaximizeMode \<Rightarrow> (int \<times> int \<times> int \<times> int) option"
  fullscreen_hack :: bool
  geom_fs_restore :: rect
  fullscreen_monitors :: "(int \<times> int \<times> int \<times> int) option"
  resize_geom :: rect
  initial_resize_geom :: rect
  move_resize_screen :: int
  unrestricted_move :: bool
  move_offset :: point
  inverted_offset :: point
  sync_pending :: bool
  button_down :: bool

text \<open>What leaves the modelled part, in order: requests for the X windows of a client, and calls.\<close>

datatype window_state = NetMaxVert | NetMaxHoriz | NetFullScreen

datatype gcall =
    ResizeDecoration win
  | FrameSetGeometry win rect
  | FrameMove win point
  | FrameResize win qsize
  | WrapperSetGeometry win rect
  | ClientSetGeometry win qsize
  | SyntheticConfigure win
  | InputMove win point
  | UpdateShape win
  | UpdateRules win "RuleType list"
  | ScreensSetCurrent win
  | UpdateStackingOrder
  | DiscardWindowPixmap win
  | GeometryShapeChanged win rect
  | AddRepaint win
  | CheckUnredirect
  | TabGroupGeometry win
  | TabGroupBlock win bool
  | TabGroupStates win "string list"
  | GeometryChanged win
  | SetNetState win "window_state list"
  | QuickTileModeChanged win
  | MaximizedStateChanged win MaximizeMode
  | UpdateAllowedActions win
  | DecorationChanged win "string list"
  | GetShadow win
  | UpdateInputWindow win
  | UpdateFrameExtents win
  | UpdateFocusMousePosition point
  | SetWorkArea nat rect
  | OutlineShow rect
  | OutlineHide
  | Elevate win bool
  | UpdateClientLayer win
  | UpdateLayer win
  | SetShade win ShadeMode
  | Untab win
  | SetTabGroup win bool
  | SetClientShown win bool
  | TabAboutToChange win win
  | RequestTabFocus win
  | TabRemoved win win
  | TriggerDecorationRepaint win
  | CloseWindow win
  | RaiseClient win
  | BlockStackingUpdates bool
  | FullScreenSet win bool bool
  | FullScreenChanged win
  | SetFullscreenMonitors win "int \<times> int \<times> int \<times> int"
  | DoResizeSync win rect
  | UpdateCursor win
  | StartUserMovedResized win
  | StepUserMovedResized win rect
  | ScreenEdgesCheck point
  | CheckQuickTilingZones win point
  | LeaveMoveResize win
  | FinishUserMovedResized win

text \<open>
  The workspace: \<open>screens_count\<close> screens with the geometry \<open>screen_geometry\<close>; the work area, the
  areas of the screens and the struts by desktop (entry 0 is not used); the options.
\<close>

record gworld = world +
  geos :: "win \<Rightarrow> geo"
  all_clients :: "win list"
  screens_count :: int
  m_current_screen :: int
  follows_mouse :: bool
  cursor_pos :: point
  display_size :: qsize
  desktop_count :: nat
  workarea :: "rect list"
  screenarea :: "rect list list"
  restrictedmovearea :: "(rect \<times> StrutArea) list list"
  oldrestrictedmovearea :: "(rect \<times> StrutArea) list list"
  oldscreensizes :: "rect list"
  olddisplaysize :: qsize
  is_multihead :: bool
  multihead_screen :: int
  initializing :: bool
  compositing :: bool
  borderSnapZone :: int
  windowSnapZone :: int
  centerSnapZone :: int
  snapOnlyWhenOverlapping :: bool
  borderlessMaximizedWindows :: bool
  electricBorderMaximize :: bool
  legacyFullscreenSupport :: bool
  have_resize_effect :: bool
  startDragDistance :: int
  placement_option :: Policy
  cascading :: "(point \<times> int \<times> int) list"
  random_pos :: point
  gcalls :: "gcall list"

definition upd_geo :: "win \<Rightarrow> (geo \<Rightarrow> geo) \<Rightarrow> gworld \<Rightarrow> gworld" where
  "upd_geo c f w = w\<lparr>geos := (geos w)(c := f (geos w c))\<rparr>"

definition gcall :: "gcall \<Rightarrow> gworld \<Rightarrow> gworld" where
  "gcall e w = w\<lparr>gcalls := gcalls w @ [e]\<rparr>"

definition set_geom :: "win \<Rightarrow> rect \<Rightarrow> gworld \<Rightarrow> gworld" where
  "set_geom c g w = upd_cl c (\<lambda>r. r\<lparr>geom := g\<rparr>) w"

definition geometry :: "gworld \<Rightarrow> win \<Rightarrow> rect" where
  "geometry w c = geom (cl w c)"

definition wx :: "gworld \<Rightarrow> win \<Rightarrow> int" where
  "wx w c = rx1 (geometry w c)"

definition wy :: "gworld \<Rightarrow> win \<Rightarrow> int" where
  "wy w c = ry1 (geometry w c)"

definition wwidth :: "gworld \<Rightarrow> win \<Rightarrow> int" where
  "wwidth w c = rwidth (geometry w c)"

definition wheight :: "gworld \<Rightarrow> win \<Rightarrow> int" where
  "wheight w c = rheight (geometry w c)"

definition wsize :: "gworld \<Rightarrow> win \<Rightarrow> qsize" where
  "wsize w c = rect_size (geometry w c)"

definition borderLeft :: "gworld \<Rightarrow> win \<Rightarrow> int" where
  "borderLeft w c = (if decorated (geos w c) then fst (borders (geos w c)) else 0)"

definition borderTop :: "gworld \<Rightarrow> win \<Rightarrow> int" where
  "borderTop w c = (if decorated (geos w c) then fst (snd (borders (geos w c))) else 0)"

definition borderRight :: "gworld \<Rightarrow> win \<Rightarrow> int" where
  "borderRight w c = (if decorated (geos w c) then fst (snd (snd (borders (geos w c)))) else 0)"

definition borderBottom :: "gworld \<Rightarrow> win \<Rightarrow> int" where
  "borderBottom w c = (if decorated (geos w c) then snd (snd (snd (borders (geos w c)))) else 0)"

definition clientPos :: "gworld \<Rightarrow> win \<Rightarrow> point" where
  "clientPos w c = (borderLeft w c, borderTop w c)"

definition titlebarPosition :: "gworld \<Rightarrow> win \<Rightarrow> Position" where
  "titlebarPosition w c = PositionTop"

definition isResize :: "gworld \<Rightarrow> win \<Rightarrow> bool" where
  "isResize w c = (move_resize (geos w c) \<and> pointer_mode (geos w c) \<noteq> PositionCenter)"

section \<open>Screens\<close>

text \<open>\<open>XRandRScreens::geometry\<close> and \<open>number\<close>, \<open>Screens::intersecting\<close>.  A screen without a valid
  rectangle stands for the whole display.\<close>

definition screens_geometry :: "gworld \<Rightarrow> int \<Rightarrow> rect" where
  "screens_geometry w s =
     (if s \<ge> screens_count w \<or> s < 0 then no_rect
      else if rect_isValid (screen_geometry w s) then screen_geometry w s
      else mk_rect (0, 0) (display_size w))"

definition screen_list :: "gworld \<Rightarrow> int list" where
  "screen_list w = map int [0..<nat (screens_count w)]"

definition corner_distance :: "rect \<Rightarrow> point \<Rightarrow> int" where
  "corner_distance a p =
     min (min (min (manhattanLength (sub_point (topLeft a) p)) (manhattanLength (sub_point (topRight a) p)))
          (manhattanLength (sub_point (bottomRight a) p))) (manhattanLength (sub_point (bottomLeft a) p))"

primrec number_loop :: "gworld \<Rightarrow> point \<Rightarrow> int list \<Rightarrow> int \<Rightarrow> int \<Rightarrow> int" where
  "number_loop w p [] best dist = best"
| "number_loop w p (i # is) best dist =
     (let a = screen_geometry w i in
      if contains_point a p then i
      else let d = corner_distance a p in
        if d < dist then number_loop w p is i d else number_loop w p is best dist)"

definition screen_number :: "gworld \<Rightarrow> point \<Rightarrow> int" where
  "screen_number w p = number_loop w p (screen_list w) 0 INT_MAX"

definition intersecting :: "gworld \<Rightarrow> rect \<Rightarrow> int" where
  "intersecting w r = int (length (filter (\<lambda>i. intersects (screens_geometry w i) r) (screen_list w)))"

definition current_screen_number :: "gworld \<Rightarrow> int" where
  "current_screen_number w =
     (if follows_mouse w then screen_number w (cursor_pos w)
      else case active_client w of
          None \<Rightarrow> m_current_screen w
        | Some c \<Rightarrow> if \<not> isOnScreen w c (m_current_screen w) then t_screen (cl w c) else m_current_screen w)"

definition screens_setCurrent :: "int \<Rightarrow> gworld \<Rightarrow> gworld" where
  "screens_setCurrent s w = (if m_current_screen w = s then w else w\<lparr>m_current_screen := s\<rparr>)"

definition screens_setCurrentClient :: "win \<Rightarrow> gworld \<Rightarrow> gworld" where
  "screens_setCurrentClient c w =
     (if \<not> m_active (cl w c) then w
      else if \<not> isOnScreen w c (m_current_screen w) then screens_setCurrent (t_screen (cl w c)) w
      else w)"

lemma screen_number_range:
  assumes "0 < screens_count w"
  shows "0 \<le> screen_number w p \<and> screen_number w p < screens_count w"
proof -
  have "number_loop w p is best d \<in> insert best (set is)" for "is" best d
    by (induction "is" arbitrary: best d) (auto simp: Let_def)
  then have "screen_number w p \<in> insert 0 (set (screen_list w))"
    unfolding screen_number_def by blast
  then show ?thesis using assms by (auto simp: screen_list_def)
qed

lemma screen_number_contains:
  assumes "\<exists>i\<in>set (screen_list w). contains_point (screen_geometry w i) p"
  shows "contains_point (screen_geometry w (screen_number w p)) p"
proof -
  have "contains_point (screen_geometry w (number_loop w p is best d)) p"
    if "\<exists>i\<in>set is. contains_point (screen_geometry w i) p" for "is" best d
    using that by (induction "is" arbitrary: best d) (auto simp: Let_def)
  then show ?thesis using assms unfolding screen_number_def by blast
qed

end
