(* ===== verification/Areas.thy ===== *)
theory Areas
  imports GeometryState
begin

text \<open>
  Struts and the areas of the workspace (\<^verbatim>\<open>geometry.cpp\<close>, first part): the part of each screen
  that docks leave free, the work area of each desktop, and the queries for them.  The clients
  of the Wayland server, which exist in another session type only, are left out.
\<close>

section \<open>Struts\<close>

definition swidth :: "int \<times> int \<times> int \<Rightarrow> int" where
  "swidth s = fst s"

definition sstart :: "int \<times> int \<times> int \<Rightarrow> int" where
  "sstart s = fst (snd s)"

definition send :: "int \<times> int \<times> int \<Rightarrow> int" where
  "send s = snd (snd s)"

definition win_strut :: "gworld \<Rightarrow> win \<Rightarrow> strut" where
  "win_strut w c =
     (let ext = ext_strut (geos w c); (l, t, r, b) = simple_strut (geos w c);
          dw = fst (display_size w); dh = snd (display_size w)
      in if swidth (left_strut ext) = 0 \<and> swidth (right_strut ext) = 0 \<and> swidth (top_strut ext) = 0 \<and>
            swidth (bottom_strut ext) = 0 \<and> (l \<noteq> 0 \<or> r \<noteq> 0 \<or> t \<noteq> 0 \<or> b \<noteq> 0)
         then \<lparr>left_strut = (if l \<noteq> 0 then (l, 0, dh) else left_strut ext),
               right_strut = (if r \<noteq> 0 then (r, 0, dh) else right_strut ext),
               top_strut = (if t \<noteq> 0 then (t, 0, dw) else top_strut ext),
               bottom_strut = (if b \<noteq> 0 then (b, 0, dw) else bottom_strut ext)\<rparr>
         else ext)"

definition hasStrut :: "gworld \<Rightarrow> win \<Rightarrow> bool" where
  "hasStrut w c =
     (let ext = win_strut w c in
      if swidth (left_strut ext) = 0 \<and> swidth (right_strut ext) = 0 \<and> swidth (top_strut ext) = 0 \<and>
         swidth (bottom_strut ext) = 0 then False else True)"

definition strutRect :: "gworld \<Rightarrow> win \<Rightarrow> StrutArea \<Rightarrow> rect \<times> StrutArea" where
  "strutRect w c area =
     (let s = win_strut w c; dw = fst (display_size w); dh = snd (display_size w)
      in case area of
        StrutAreaTop \<Rightarrow>
          (let t = top_strut s in
           if swidth t \<noteq> 0 then (mk_rect (sstart t, 0) (send t - sstart t, swidth t), StrutAreaTop)
           else (no_rect, StrutAreaInvalid))
      | StrutAreaRight \<Rightarrow>
          (let r = right_strut s in
           if swidth r \<noteq> 0 then (mk_rect (dw - swidth r, sstart r) (swidth r, send r - sstart r), StrutAreaRight)
           else (no_rect, StrutAreaInvalid))
      | StrutAreaBottom \<Rightarrow>
          (let b = bottom_strut s in
           if swidth b \<noteq> 0 then (mk_rect (sstart b, dh - swidth b) (send b - sstart b, swidth b), StrutAreaBottom)
           else (no_rect, StrutAreaInvalid))
      | StrutAreaLeft \<Rightarrow>
          (let l = left_strut s in
           if swidth l \<noteq> 0 then (mk_rect (0, sstart l) (swidth l, send l - sstart l), StrutAreaLeft)
           else (no_rect, StrutAreaInvalid))
      | StrutAreaInvalid \<Rightarrow> (no_rect, StrutAreaInvalid))"

definition strutRects :: "gworld \<Rightarrow> win \<Rightarrow> (rect \<times> StrutArea) list" where
  "strutRects w c =
     [strutRect w c StrutAreaTop, strutRect w c StrutAreaRight, strutRect w c StrutAreaBottom,
      strutRect w c StrutAreaLeft]"

text \<open>A region is a list of disjoint pieces; what a rectangle leaves of another is at most four.\<close>

definition region_minus :: "rect \<Rightarrow> rect \<Rightarrow> rect list" where
  "region_minus a b =
     (if rect_isEmpty a then []
      else if rect_isEmpty b \<or> \<not> intersects a b then [a]
      else let i = intersected a b in
        filter (\<lambda>r. \<not> rect_isEmpty r)
          [\<lparr>rx1 = rx1 a, ry1 = ry1 a, rx2 = rx2 a, ry2 = ry1 i - 1\<rparr>,
           \<lparr>rx1 = rx1 a, ry1 = ry1 i, rx2 = rx1 i - 1, ry2 = ry2 i\<rparr>,
           \<lparr>rx1 = rx2 i + 1, ry1 = ry1 i, rx2 = rx2 a, ry2 = ry2 i\<rparr>,
           \<lparr>rx1 = rx1 a, ry1 = ry2 i + 1, rx2 = rx2 a, ry2 = ry2 a\<rparr>])"

definition hasOffscreenXineramaStrut :: "gworld \<Rightarrow> win \<Rightarrow> bool" where
  "hasOffscreenXineramaStrut w c =
     (let region = filter (\<lambda>r. \<not> rect_isEmpty r) (map fst (strutRects w c));
          left = fold (\<lambda>i rs. concat (map (\<lambda>r. region_minus r (screens_geometry w i)) rs)) (screen_list w) region
      in left \<noteq> [])"

section \<open>Queries\<close>

datatype clientAreaOption =
    PlacementArea | MovementArea | MaximizeArea | MaximizeFullArea | FullScreenArea | WorkArea
  | FullArea | ScreenArea

definition real_desktop :: "gworld \<Rightarrow> int \<Rightarrow> int" where
  "real_desktop w desktop =
     (if desktop = OnAllDesktops \<or> desktop = 0 then uint (current_desktop w) else desktop)"

definition clientArea :: "gworld \<Rightarrow> clientAreaOption \<Rightarrow> int \<Rightarrow> int \<Rightarrow> rect" where
  "clientArea w opt screen desktop =
     (let desktop = real_desktop w desktop;
          screen = (if screen = - 1 then current_screen_number w else screen);
          use = (if is_multihead w then multihead_screen w else screen);
          sarea = (if screenarea w \<noteq> [] \<and> screen < int (length (screenarea w ! nat desktop))
                   then screenarea w ! nat desktop ! nat use else screens_geometry w use);
          warea = (if null_rect (workarea w ! nat desktop)
                   then if is_multihead w then screens_geometry w use else mk_rect (0, 0) (display_size w)
                   else workarea w ! nat desktop)
      in case opt of
           MaximizeArea \<Rightarrow> sarea
         | PlacementArea \<Rightarrow> sarea
         | MaximizeFullArea \<Rightarrow> screens_geometry w use
         | FullScreenArea \<Rightarrow> screens_geometry w use
         | MovementArea \<Rightarrow> screens_geometry w use
         | ScreenArea \<Rightarrow> screens_geometry w use
         | WorkArea \<Rightarrow> if is_multihead w then sarea else warea
         | FullArea \<Rightarrow> mk_rect (0, 0) (display_size w))"

definition clientAreaAt :: "gworld \<Rightarrow> clientAreaOption \<Rightarrow> point \<Rightarrow> int \<Rightarrow> rect" where
  "clientAreaAt w opt p desktop = clientArea w opt (screen_number w p) desktop"

definition clientAreaOf :: "gworld \<Rightarrow> clientAreaOption \<Rightarrow> win \<Rightarrow> rect" where
  "clientAreaOf w opt c = clientAreaAt w opt (rcenter (geometry w c)) (m_desktop (cl w c))"

text \<open>A region of struts, as the list of its rectangles.\<close>

definition restrictedMoveArea :: "gworld \<Rightarrow> int \<Rightarrow> StrutArea \<Rightarrow> rect list" where
  "restrictedMoveArea w desktop area =
     map fst (filter (\<lambda>s. snd s = area \<and> \<not> rect_isEmpty (fst s)) (restrictedmovearea w ! nat (real_desktop w desktop)))"

definition inUpdateClientArea :: "gworld \<Rightarrow> bool" where
  "inUpdateClientArea w = (oldrestrictedmovearea w \<noteq> [])"

definition previousRestrictedMoveArea :: "gworld \<Rightarrow> int \<Rightarrow> StrutArea \<Rightarrow> rect list" where
  "previousRestrictedMoveArea w desktop area =
     map fst (filter (\<lambda>s. snd s = area \<and> \<not> rect_isEmpty (fst s)) (oldrestrictedmovearea w ! nat (real_desktop w desktop)))"

section \<open>Updating the areas\<close>

text \<open>The struts of a window as rectangles, on the sides of the screen the window is on: left,
  right, top and bottom.  For the whole display, the struts at inner borders of screens are none.\<close>

definition strut_areas :: "gworld \<Rightarrow> win \<Rightarrow> rect \<Rightarrow> rect \<Rightarrow> rect \<times> rect \<times> rect \<times> rect" where
  "strut_areas w c desktopArea area =
     (let str = win_strut w c; l = left_strut str; r = right_strut str; t = top_strut str;
          b = bottom_strut str;
          stareaL = mk_rect (0, sstart l) (swidth l, send l - sstart l + 1);
          stareaR = mk_rect (rx2 desktopArea - swidth r + 1, sstart r) (swidth r, send r - sstart r + 1);
          stareaT = mk_rect (sstart t, 0) (send t - sstart t + 1, swidth t);
          stareaB = mk_rect (sstart b, ry2 desktopArea - swidth b + 1) (send b - sstart b + 1, swidth b);
          scr = clientAreaOf w ScreenArea c;
          whole = (area = mk_rect (0, 0) (display_size w));
          stareaL = (if whole \<and> rx1 stareaL < rx1 scr then no_rect else stareaL);
          stareaR = (if whole \<and> rx2 stareaR > rx2 scr then no_rect else stareaR);
          stareaT = (if whole \<and> ry1 stareaT < ry1 scr then no_rect else stareaT);
          stareaB = (if whole \<and> ry2 stareaB < ry2 scr then no_rect else stareaB)
      in (setLeft (max (rx1 stareaL) (rx1 scr)) stareaL, setRight (min (rx2 stareaR) (rx2 scr)) stareaR,
          setTop (max (ry1 stareaT) (ry1 scr)) stareaT, setBottom (min (ry2 stareaB) (ry2 scr)) stareaB))"

text \<open>\<open>adjustedClientArea\<close>: the area without the struts of a window.\<close>

definition adjustedClientArea :: "gworld \<Rightarrow> win \<Rightarrow> rect \<Rightarrow> rect \<Rightarrow> rect" where
  "adjustedClientArea w c desktopArea area =
     (let (stareaL, stareaR, stareaT, stareaB) = strut_areas w c desktopArea area;
          a = area;
          a = (if intersects stareaL area then setLeft (rx2 stareaL + 1) a else a);
          a = (if intersects stareaR area then setRight (rx1 stareaR - 1) a else a);
          a = (if intersects stareaT area then setTop (ry2 stareaT + 1) a else a)
      in if intersects stareaB area then setBottom (ry1 stareaB - 1) a else a)"

text \<open>The new areas being computed: work areas, struts and screen areas by desktop.\<close>

type_synonym areas = "rect list \<times> (rect \<times> StrutArea) list list \<times> rect list list"

definition desktop_area :: "gworld \<Rightarrow> rect" where
  "desktop_area w = fold (\<lambda>i a. united a (screens_geometry w i)) (screen_list w) no_rect"

definition initial_areas :: "gworld \<Rightarrow> areas" where
  "initial_areas w =
     (let n = desktop_count w; scr = map (screens_geometry w) (screen_list w)
      in (no_rect # replicate n (desktop_area w), replicate (n + 1) [], [] # replicate n scr))"

text \<open>What the strut of one window does to the areas of desktop \<open>i\<close>.\<close>

definition add_strut_to :: "gworld \<Rightarrow> win \<Rightarrow> areas \<Rightarrow> nat \<Rightarrow> areas" where
  "add_strut_to w c ar i =
     (let (wa, ma, sa) = ar; da = desktop_area w; r = adjustedClientArea w c da da;
          wa = (if \<not> hasOffscreenXineramaStrut w c then wa[i := intersected (wa ! i) r] else wa);
          ma = ma[i := (ma ! i) @ strutRects w c];
          sa = sa[i := map (\<lambda>s. intersected (sa ! i ! nat s) (adjustedClientArea w c da (screens_geometry w s)))
                         (screen_list w)]
      in (wa, ma, sa))"

definition add_strut :: "gworld \<Rightarrow> win \<Rightarrow> areas \<Rightarrow> areas" where
  "add_strut w c ar =
     (if \<not> hasStrut w c then ar
      else if isOnAllDesktops w c then fold (\<lambda>i ar. add_strut_to w c ar i) [1..<desktop_count w + 1] ar
      else add_strut_to w c ar (nat (m_desktop (cl w c))))"

definition new_areas :: "gworld \<Rightarrow> areas" where
  "new_areas w = fold (add_strut w) (clients w) (initial_areas w)"

definition areas_changed :: "gworld \<Rightarrow> areas \<Rightarrow> bool" where
  "areas_changed w ar =
     (let (wa, ma, sa) = ar in
      list_ex (\<lambda>i. workarea w ! i \<noteq> wa ! i \<or> restrictedmovearea w ! i \<noteq> ma ! i \<or>
                   screenarea w ! i \<noteq> sa ! i) [1..<desktop_count w + 1])"

text \<open>
  \<open>updateClientArea\<close>; \<open>check\<close> is \<open>checkWorkspacePosition\<close>, called for every window, which may
  not return.
\<close>

definition updateClientArea ::
    "(win \<Rightarrow> gworld \<Rightarrow> gworld option) \<Rightarrow> bool \<Rightarrow> gworld \<Rightarrow> gworld option" where
  "updateClientArea check force w =
     (let (wa, ma, sa) = new_areas w;
          changed = (force \<or> screenarea w = [] \<or> areas_changed w (wa, ma, sa))
      in if changed
         then let w1 = w\<lparr>workarea := wa, oldrestrictedmovearea := restrictedmovearea w,
                         restrictedmovearea := ma, screenarea := sa\<rparr>;
                  w2 = fold (\<lambda>i. gcall (SetWorkArea i (wa ! i))) [1..<desktop_count w + 1] w1
              in do {
                w3 \<leftarrow> foldM check (all_clients w2) w2;
                w4 \<leftarrow> foldM check (desktops w3) w3;
                Some (w4\<lparr>oldrestrictedmovearea := []\<rparr>)
              }
         else Some w)"

definition saveOldScreenSizes :: "gworld \<Rightarrow> gworld" where
  "saveOldScreenSizes w =
     w\<lparr>olddisplaysize := display_size w, oldscreensizes := map (screens_geometry w) (screen_list w)\<rparr>"

end
