(* ===== verification/Sizing.thy ===== *)
theory Sizing
  imports Areas
begin

text \<open>
  The size and the geometry of a window (\<^verbatim>\<open>geometry.cpp\<close>, \<^verbatim>\<open>abstract_client.cpp\<close>): the size
  hints of the client, gravity, and the operations that move and resize, with the blocking of
  geometry updates.
\<close>

section \<open>The size of a frame\<close>

text \<open>
  \<open>int(n / d)\<close> on doubles: exact, truncated towards zero; a value that no \<open>int\<close> has, in
  particular for \<open>d = 0\<close>, is undefined in C++ and the smallest \<open>int\<close> on x86.
\<close>

definition int_of_double :: "int \<Rightarrow> int \<Rightarrow> int" where
  "int_of_double n d =
     (let q = c_div n d in if d = 0 \<or> q < INT_MIN \<or> q > INT_MAX then INT_MIN else q)"

text \<open>The aspects and limits that one run of the checks works with.\<close>

record aspects =
  min_aspect :: qsize
  max_aspect :: qsize
  incs :: qsize
  min_dim :: qsize
  max_dim :: qsize

definition multiple_of :: "int \<Rightarrow> int \<Rightarrow> int" where
  "multiple_of inc v = c_div v inc * inc"

definition grow_w :: "aspects \<Rightarrow> qsize \<Rightarrow> qsize" where
  "grow_w a s =
     (let (w, h) = s;
          delta = multiple_of (fst (incs a)) (int_of_double (fst (min_aspect a) * h - w * snd (min_aspect a)) (snd (min_aspect a)))
      in if w + delta \<le> fst (max_dim a) then (w + delta, h) else s)"

definition grow_h :: "aspects \<Rightarrow> qsize \<Rightarrow> qsize" where
  "grow_h a s =
     (let (w, h) = s;
          delta = multiple_of (snd (incs a)) (int_of_double (w * snd (max_aspect a) - h * fst (max_aspect a)) (fst (max_aspect a)))
      in if h + delta \<le> snd (max_dim a) then (w, h + delta) else s)"

definition ASPECT_CHECK_GROW_W :: "aspects \<Rightarrow> qsize \<Rightarrow> qsize" where
  "ASPECT_CHECK_GROW_W a s =
     (if fst (min_aspect a) * snd s > snd (min_aspect a) * fst s then grow_w a s else s)"

definition ASPECT_CHECK_SHRINK_H_GROW_W :: "aspects \<Rightarrow> qsize \<Rightarrow> qsize" where
  "ASPECT_CHECK_SHRINK_H_GROW_W a s =
     (if fst (min_aspect a) * snd s > snd (min_aspect a) * fst s
      then let (w, h) = s;
               delta = multiple_of (snd (incs a)) (int_of_double (h * fst (min_aspect a) - w * snd (min_aspect a)) (fst (min_aspect a)))
           in if h - delta \<ge> snd (min_dim a) then (w, h - delta) else grow_w a s
      else s)"

definition ASPECT_CHECK_GROW_H :: "aspects \<Rightarrow> qsize \<Rightarrow> qsize" where
  "ASPECT_CHECK_GROW_H a s =
     (if fst (max_aspect a) * snd s < snd (max_aspect a) * fst s then grow_h a s else s)"

definition ASPECT_CHECK_SHRINK_W_GROW_H :: "aspects \<Rightarrow> qsize \<Rightarrow> qsize" where
  "ASPECT_CHECK_SHRINK_W_GROW_H a s =
     (if fst (max_aspect a) * snd s < snd (max_aspect a) * fst s
      then let (w, h) = s;
               delta = multiple_of (fst (incs a)) (int_of_double (w * snd (max_aspect a) - fst (max_aspect a) * h) (snd (max_aspect a)))
           in if w - delta \<ge> fst (min_dim a) then (w - delta, h) else grow_h a s
      else s)"

definition aspect_checks :: "Sizemode \<Rightarrow> aspects \<Rightarrow> qsize \<Rightarrow> qsize" where
  "aspect_checks mode a s =
     (case mode of
        SizemodeAny \<Rightarrow> ASPECT_CHECK_GROW_W a (ASPECT_CHECK_SHRINK_W_GROW_H a
          (ASPECT_CHECK_SHRINK_H_GROW_W a (ASPECT_CHECK_GROW_H a s)))
      | SizemodeFixedW \<Rightarrow> ASPECT_CHECK_GROW_W a (ASPECT_CHECK_SHRINK_W_GROW_H a
          (ASPECT_CHECK_SHRINK_H_GROW_W a (ASPECT_CHECK_GROW_H a s)))
      | SizemodeFixedH \<Rightarrow> ASPECT_CHECK_GROW_H a (ASPECT_CHECK_SHRINK_H_GROW_W a
          (ASPECT_CHECK_SHRINK_W_GROW_H a (ASPECT_CHECK_GROW_W a s)))
      | SizemodeMax \<Rightarrow> ASPECT_CHECK_GROW_H a (ASPECT_CHECK_GROW_W a
          (ASPECT_CHECK_SHRINK_W_GROW_H a (ASPECT_CHECK_SHRINK_H_GROW_W a s))))"

definition minSize :: "gworld \<Rightarrow> win \<Rightarrow> qsize" where
  "minSize w c = wr_checkMinSize (w_rules (geos w c)) (hint_minSize (hints (geos w c)))"

definition maxSize :: "gworld \<Rightarrow> win \<Rightarrow> qsize" where
  "maxSize w c = wr_checkMaxSize (w_rules (geos w c)) (hint_maxSize (hints (geos w c)))"

text \<open>A tab group has limits of its own.\<close>

definition min_limit :: "gworld \<Rightarrow> win \<Rightarrow> qsize" where
  "min_limit w c = (case tab_sizes (geos w c) of None \<Rightarrow> minSize w c | Some (lo, hi) \<Rightarrow> lo)"

definition max_limit :: "gworld \<Rightarrow> win \<Rightarrow> qsize" where
  "max_limit w c = (case tab_sizes (geos w c) of None \<Rightarrow> maxSize w c | Some (lo, hi) \<Rightarrow> hi)"

text \<open>The limits in \<open>sizeForClientSize\<close>: a decorated window is no smaller than its decoration.\<close>

definition size_limits :: "gworld \<Rightarrow> win \<Rightarrow> qsize \<times> qsize" where
  "size_limits w c =
     (let lo = min_limit w c;
          bw = max 0 (borderLeft w c + borderRight w c); bh = max 0 (borderTop w c + borderBottom w c)
      in (if decorated (geos w c) then (max (fst lo) bw, max (snd lo) bh) else lo, max_limit w c))"

definition in_limits :: "gworld \<Rightarrow> win \<Rightarrow> qsize \<Rightarrow> qsize" where
  "in_limits w c s =
     (let (lo, hi) = size_limits w c
      in (max (fst lo) (min (fst hi) (max 1 (fst s))), max (snd lo) (min (snd hi) (max 1 (snd s)))))"

definition sizeForClientSize :: "gworld \<Rightarrow> win \<Rightarrow> qsize \<Rightarrow> Sizemode \<Rightarrow> bool \<Rightarrow> qsize" where
  "sizeForClientSize w c wsz mode noframe =
     (let h = hints (geos w c); (lo, hi) = size_limits w c;
          s1 = in_limits w c wsz;
          inc = resizeIncrements h;
          base_inc = (if hasBaseSize h then hint_baseSize h else hint_minSize h);
          s2 = (multiple_of (fst inc) (fst s1 - fst base_inc) + fst base_inc,
                multiple_of (snd inc) (snd s1 - snd base_inc) + snd base_inc);
          base = hint_baseSize h;
          s3 = (if hasAspect h
                then let a = \<lparr>min_aspect = minAspect h, max_aspect = maxAspect h, incs = inc,
                              min_dim = sub_point lo base, max_dim = sub_point hi base\<rparr>
                     in add_point (aspect_checks mode a (sub_point s2 base)) base
                else s2);
          s4 = (if \<not> wr_checkStrictGeometry (w_rules (geos w c)) (\<not> is_fullscreen (cl w c)) then s1 else s3);
          s5 = (if noframe then s4
                else (fst s4 + (borderLeft w c + borderRight w c), snd s4 + (borderTop w c + borderBottom w c)))
      in wr_checkSize (w_rules (geos w c)) s5 False)"

definition adjustedSize :: "gworld \<Rightarrow> win \<Rightarrow> qsize \<Rightarrow> Sizemode \<Rightarrow> qsize" where
  "adjustedSize w c frame mode =
     (let s = (fst frame - (borderLeft w c + borderRight w c), snd frame - (borderTop w c + borderBottom w c));
          s = (if size_isEmpty s then (max (fst s) 1, max (snd s) 1) else s)
      in sizeForClientSize w c s mode False)"

definition adjustedSizeNow :: "gworld \<Rightarrow> win \<Rightarrow> qsize" where
  "adjustedSizeNow w c = sizeForClientSize w c (client_size (geos w c)) SizemodeAny False"

section \<open>Gravity\<close>

definition calculateGravitation :: "gworld \<Rightarrow> win \<Rightarrow> bool \<Rightarrow> gravity option \<Rightarrow> point" where
  "calculateGravitation w c invert gravity =
     (let g = (case gravity of None \<Rightarrow> windowGravity (hints (geos w c)) | Some g \<Rightarrow> g);
          l = borderLeft w c; t = borderTop w c; r = borderRight w c; b = borderBottom w c;
          (dx, dy) = (case g of
             NorthWestGravity \<Rightarrow> (l, t) | NorthGravity \<Rightarrow> (0, t) | NorthEastGravity \<Rightarrow> (- r, t)
           | WestGravity \<Rightarrow> (l, 0) | CenterGravity \<Rightarrow> (0, 0) | StaticGravity \<Rightarrow> (0, 0)
           | EastGravity \<Rightarrow> (- r, 0) | SouthWestGravity \<Rightarrow> (l, - b) | SouthGravity \<Rightarrow> (0, - b)
           | SouthEastGravity \<Rightarrow> (- r, - b));
          (dx, dy) = (if g \<noteq> CenterGravity then (dx - l, dy - t)
                      else (- c_div (l + r) 2, - c_div (t + b) 2))
      in if \<not> invert then (wx w c + dx, wy w c + dy) else (wx w c - dx, wy w c - dy))"

section \<open>Moving and resizing\<close>

definition areGeometryUpdatesBlocked :: "gworld \<Rightarrow> win \<Rightarrow> bool" where
  "areGeometryUpdatesBlocked w c = (block_geometry (geos w c) \<noteq> 0)"

definition shaded :: "gworld \<Rightarrow> win \<Rightarrow> bool" where
  "shaded w c = isShade w c"

text \<open>The screen of a window follows its geometry, except during an interactive move or resize.\<close>

definition checkScreen :: "win \<Rightarrow> gworld \<Rightarrow> gworld" where
  "checkScreen c w =
     (let s = (if screens_count w = 1 then 0 else screen_number w (rcenter (geometry w c)))
      in if t_screen (cl w c) = s then w else upd_cl c (\<lambda>r. r\<lparr>t_screen := s\<rparr>) w)"

definition emit_checked :: "win \<Rightarrow> gcall \<Rightarrow> gworld \<Rightarrow> gworld" where
  "emit_checked c e w =
     (let w = gcall e w in if move_resize (geos w c) then w else checkScreen c w)"

text \<open>The client part of the size that is set; a shaded window keeps the height of its borders.\<close>

definition set_client_size :: "win \<Rightarrow> qsize \<Rightarrow> gworld \<Rightarrow> qsize \<times> gworld" where
  "set_client_size c s w =
     (let bw = borderLeft w c + borderRight w c; bh = borderTop w c + borderBottom w c;
          inner = (fst s - borderLeft w c - borderRight w c, snd s - borderTop w c - borderBottom w c)
      in if shade_geometry_change (geos w c) then (s, w)
         else if shaded w c then
           (if snd s = bh then (s, w) else ((fst s, bh), upd_geo c (\<lambda>g. g\<lparr>client_size := inner\<rparr>) w))
         else (s, upd_geo c (\<lambda>g. g\<lparr>client_size := inner\<rparr>) w))"

definition note_pending :: "win \<Rightarrow> ForceGeometry \<Rightarrow> gworld \<Rightarrow> gworld" where
  "note_pending c force w =
     (if pending_geometry (geos w c) = PendingGeometryForced then w
      else upd_geo c (\<lambda>g. g\<lparr>pending_geometry :=
             if force = ForceGeometrySet then PendingGeometryForced else PendingGeometryNormal\<rparr>) w)"

definition frame_setGeometry :: "win \<Rightarrow> rect \<Rightarrow> gworld \<Rightarrow> gworld" where
  "frame_setGeometry c g w = gcall (FrameSetGeometry c g) (upd_geo c (\<lambda>r. r\<lparr>frame_geometry := g\<rparr>) w)"

definition frame_move :: "win \<Rightarrow> point \<Rightarrow> gworld \<Rightarrow> gworld" where
  "frame_move c p w = gcall (FrameMove c p) (upd_geo c (\<lambda>r. r\<lparr>frame_geometry := moveTopLeft p (frame_geometry r)\<rparr>) w)"

definition frame_resize :: "win \<Rightarrow> qsize \<Rightarrow> gworld \<Rightarrow> gworld" where
  "frame_resize c s w = gcall (FrameResize c s) (upd_geo c (\<lambda>r. r\<lparr>frame_geometry := setSize s (frame_geometry r)\<rparr>) w)"

text \<open>The end of every change of geometry: repaint, the geometry before the next blocking, the
  other tabs, and the signal.\<close>

definition geometry_done :: "win \<Rightarrow> gworld \<Rightarrow> gworld" where
  "geometry_done c w =
     (let w = gcall (AddRepaint c) w;
          w = upd_geo c (\<lambda>g. g\<lparr>geom_before_block := geometry w c\<rparr>) w;
          w = (if tab_group (cl w c) \<noteq> None then gcall (TabGroupGeometry c) w else w)
      in emit_checked c (GeometryChanged c) w)"

text \<open>What is sent to the X server: the new geometry, or the position when the size is the same.\<close>

definition send_geometry :: "win \<Rightarrow> rect \<Rightarrow> bool \<Rightarrow> gworld \<Rightarrow> gworld" where
  "send_geometry c g resized w =
     (if resized
      then let w = frame_setGeometry c g (gcall (ResizeDecoration c) w);
               w = (if \<not> shaded w c
                    then let cs = client_size (geos w c);
                             w = gcall (WrapperSetGeometry c (mk_rect (clientPos w c) cs)) w;
                             w = (if \<not> isResize w c \<or> \<not> has_sync_counter (geos w c)
                                  then gcall (ClientSetGeometry c cs) w else w)
                         in gcall (SyntheticConfigure c) w
                    else w)
           in gcall (UpdateShape c) w
      else let w = (if move_resize (geos w c)
                    then if compositing w then upd_geo c (\<lambda>g. g\<lparr>needs_x_move := True\<rparr>) w
                         else frame_move c (topLeft g) w
                    else gcall (SyntheticConfigure c) (frame_move c (topLeft g) w))
           in gcall (InputMove c (topLeft g)) w)"

definition setGeometry :: "win \<Rightarrow> rect \<Rightarrow> ForceGeometry \<Rightarrow> gworld \<Rightarrow> gworld" where
  "setGeometry c g force w =
     (let (s, w) = set_client_size c (rect_size g) w;
          g = mk_rect (topLeft g) s
      in if force = NormalGeometrySet \<and> geometry w c = g \<and> pending_geometry (geos w c) = PendingGeometryNone
         then w
         else let w = set_geom c g w in
           if areGeometryUpdatesBlocked w c then note_pending c force w
           else
             let old_size = rect_size (frame_geometry (geos w c));
                 resized = (rect_size (geom_before_block (geos w c)) \<noteq> s \<or>
                            pending_geometry (geos w c) = PendingGeometryForced);
                 w = send_geometry c g resized w;
                 w = gcall (UpdateRules c [Rules.RuleType.Position, Size]) w;
                 w = gcall UpdateStackingOrder (screens_setCurrentClient c (gcall (ScreensSetCurrent c) w));
                 w = (if resized
                      then emit_checked c (GeometryShapeChanged c (geom_before_block (geos w c)))
                             (if old_size \<noteq> s then gcall (DiscardWindowPixmap c) w else w)
                      else w)
             in geometry_done c w)"

definition plainResize :: "win \<Rightarrow> qsize \<Rightarrow> ForceGeometry \<Rightarrow> gworld \<Rightarrow> gworld" where
  "plainResize c sz force w =
     (let (s, w) = set_client_size c sz w
      in if force = NormalGeometrySet \<and> rect_size (geometry w c) = s then w
         else let w = set_geom c (setSize s (geometry w c)) w in
           if areGeometryUpdatesBlocked w c then note_pending c force w
           else
             let old_size = rect_size (frame_geometry (geos w c));
                 w = frame_resize c s (gcall (ResizeDecoration c) w);
                 w = (if \<not> shaded w c
                      then let cs = client_size (geos w c)
                           in gcall (ClientSetGeometry c cs) (gcall (WrapperSetGeometry c (mk_rect (clientPos w c) cs)) w)
                      else w);
                 w = gcall (SyntheticConfigure c) (gcall (UpdateShape c) w);
                 w = gcall (UpdateRules c [Rules.RuleType.Position, Size]) w;
                 w = gcall UpdateStackingOrder (screens_setCurrentClient c (gcall (ScreensSetCurrent c) w));
                 w = (if old_size \<noteq> s then gcall (DiscardWindowPixmap c) w else w);
                 w = emit_checked c (GeometryShapeChanged c (geom_before_block (geos w c))) w
             in geometry_done c w)"

definition move :: "win \<Rightarrow> point \<Rightarrow> ForceGeometry \<Rightarrow> gworld \<Rightarrow> gworld" where
  "move c p force w =
     (if force = NormalGeometrySet \<and> topLeft (geometry w c) = p then w
      else let w = set_geom c (moveTopLeft p (geometry w c)) w in
        if areGeometryUpdatesBlocked w c then note_pending c force w
        else
          let w = gcall (SyntheticConfigure c) (frame_move c p w);
              w = gcall (UpdateRules c [Rules.RuleType.Position]) w;
              w = gcall UpdateStackingOrder (screens_setCurrentClient c (gcall (ScreensSetCurrent c) w));
              w = gcall CheckUnredirect w
          in geometry_done c w)"

definition blockGeometryUpdates :: "win \<Rightarrow> gworld \<Rightarrow> gworld" where
  "blockGeometryUpdates c w =
     upd_geo c (\<lambda>g. g\<lparr>pending_geometry :=
         if block_geometry g = 0 then PendingGeometryNone else pending_geometry g,
       block_geometry := block_geometry g + 1\<rparr>) w"

definition unblockGeometryUpdates :: "win \<Rightarrow> gworld \<Rightarrow> gworld" where
  "unblockGeometryUpdates c w =
     (let w = upd_geo c (\<lambda>g. g\<lparr>block_geometry := block_geometry g - 1\<rparr>) w
      in if block_geometry (geos w c) = 0
         then if pending_geometry (geos w c) \<noteq> PendingGeometryNone
              then let w = (if shaded w c
                            then setGeometry c (mk_rect (topLeft (geometry w c)) (adjustedSizeNow w c)) NormalGeometrySet w
                            else setGeometry c (geometry w c) NormalGeometrySet w)
                   in upd_geo c (\<lambda>g. g\<lparr>pending_geometry := PendingGeometryNone\<rparr>) w
              else w
         else w)"

text \<open>The scope of a \<open>GeometryUpdatesBlocker\<close>.\<close>

definition with_geometry_blocked :: "win \<Rightarrow> (gworld \<Rightarrow> gworld) \<Rightarrow> gworld \<Rightarrow> gworld" where
  "with_geometry_blocked c f w = unblockGeometryUpdates c (f (blockGeometryUpdates c w))"

end
