(* ===== verification/Positioning.thy ===== *)
theory Positioning
  imports Sizing
begin

text \<open>
  Where a window may be (\<^verbatim>\<open>geometry.cpp\<close>, \<^verbatim>\<open>abstract_client.cpp\<close>): what may be moved and
  resized, resizing with the constraints of the client and the workspace, keeping a window in
  an area, and \<open>checkWorkspacePosition\<close>, which finds the place of a window after the screens,
  the struts or the desktop have changed.
\<close>

section \<open>What may be done to a window\<close>

definition forced_position :: "gworld \<Rightarrow> win \<Rightarrow> bool" where
  "forced_position w c = (wr_checkPosition (w_rules (geos w c)) invalidPoint False \<noteq> invalidPoint)"

definition isMovable :: "gworld \<Rightarrow> win \<Rightarrow> bool" where
  "isMovable w c =
     (if \<not> net_support (geos w c) \<and> \<not> motif_move (geos w c) then False
      else if is_fullscreen (cl w c) then False
      else if isSpecialWindow w c \<and> \<not> isSplash w c \<and> \<not> isToolbar w c then False
      else if forced_position w c then False
      else True)"

definition isMovableAcrossScreens :: "gworld \<Rightarrow> win \<Rightarrow> bool" where
  "isMovableAcrossScreens w c =
     (if \<not> net_support (geos w c) \<and> \<not> motif_move (geos w c) then False
      else if isSpecialWindow w c \<and> \<not> isSplash w c \<and> \<not> isToolbar w c then False
      else if forced_position w c then False
      else True)"

definition isResizable :: "gworld \<Rightarrow> win \<Rightarrow> bool" where
  "isResizable w c =
     (if \<not> net_support (geos w c) \<and> \<not> motif_resize (geos w c) then False
      else if is_fullscreen (cl w c) then False
      else if isSpecialWindow w c \<or> isSplash w c \<or> isToolbar w c then False
      else if size_isValid (wr_checkSize (w_rules (geos w c)) noSize False) then False
      else if pointer_mode (geos w c) \<in> {PositionTop, PositionTopLeft, PositionTopRight, PositionLeft, PositionBottomLeft}
              \<and> forced_position w c then False
      else fst (min_limit w c) < fst (max_limit w c) \<or> snd (min_limit w c) < snd (max_limit w c))"

definition MaximizeRestore :: MaximizeMode where
  "MaximizeRestore = Maximize False False"

definition MaximizeFull :: MaximizeMode where
  "MaximizeFull = Maximize True True"

definition MaximizeVertical :: MaximizeMode where
  "MaximizeVertical = Maximize True False"

definition MaximizeHorizontal :: MaximizeMode where
  "MaximizeHorizontal = Maximize False True"

definition isMaximizable :: "gworld \<Rightarrow> win \<Rightarrow> bool" where
  "isMaximizable w c =
     (if \<not> isResizable w c \<or> isToolbar w c then False
      else if wr_checkMaximize (w_rules (geos w c)) MaximizeRestore False = MaximizeRestore \<and>
              wr_checkMaximize (w_rules (geos w c)) MaximizeFull False \<noteq> MaximizeRestore then True
      else False)"

section \<open>Resizing with the constraints\<close>

text \<open>The point of the frame that keeps its place; \<open>None\<close>: the gravity the client asks for.\<close>

definition gravity_pos :: "gravity \<Rightarrow> rect \<Rightarrow> qsize \<Rightarrow> point" where
  "gravity_pos g a s =
     (let x = rx1 a; y = ry1 a; w = fst s; h = snd s;
          mid_x = x + c_div (rwidth a) 2 - c_div w 2; mid_y = y + c_div (rheight a) 2 - c_div h 2;
          far_x = x + rwidth a - w; far_y = y + rheight a - h
      in case g of
           NorthWestGravity \<Rightarrow> (x, y)
         | NorthGravity \<Rightarrow> (mid_x, y)
         | NorthEastGravity \<Rightarrow> (far_x, y)
         | WestGravity \<Rightarrow> (x, mid_y)
         | CenterGravity \<Rightarrow> (mid_x, mid_y)
         | StaticGravity \<Rightarrow> (x, y)
         | EastGravity \<Rightarrow> (far_x, mid_y)
         | SouthWestGravity \<Rightarrow> (x, far_y)
         | SouthGravity \<Rightarrow> (mid_x, far_y)
         | SouthEastGravity \<Rightarrow> (far_x, far_y))"

definition resizeWithChecks :: "win \<Rightarrow> qsize \<Rightarrow> gravity option \<Rightarrow> ForceGeometry \<Rightarrow> gworld \<Rightarrow> gworld" where
  "resizeWithChecks c s gravity force w =
     (let area = clientAreaOf w WorkArea c;
          s = (if fst s > rwidth area then rwidth area else fst s,
               if snd s > rheight area then rheight area else snd s);
          s = adjustedSize w c s SizemodeAny;
          g = (case gravity of None \<Rightarrow> windowGravity (hints (geos w c)) | Some g \<Rightarrow> g)
      in setGeometry c (mk_rect (gravity_pos g (geometry w c) s) s) force w)"

text \<open>An area grown so that 100 pixels of the window are enough, and the place inside an area.\<close>

definition partial_area :: "gworld \<Rightarrow> win \<Rightarrow> rect \<Rightarrow> rect" where
  "partial_area w c area =
     (let a = setLeft (min (rx1 area - wwidth w c + 100) (rx1 area)) area;
          a = setTop (min (ry1 a - wheight w c + 100) (ry1 a)) a;
          a = setRight (max (rx2 a + wwidth w c - 100) (rx2 a)) a
      in setBottom (max (ry2 a + wheight w c - 100) (ry2 a)) a)"

definition kept_pos :: "rect \<Rightarrow> rect \<Rightarrow> point" where
  "kept_pos g area =
     (let tx = (if rx2 g > rx2 area \<and> rwidth g \<le> rwidth area then rx2 area - rwidth g + 1 else rx1 g);
          ty = (if ry2 g > ry2 area \<and> rheight g \<le> rheight area then ry2 area - rheight g + 1 else ry1 g)
      in if \<not> contains_point area (topLeft g)
         then (if tx < rx1 area then rx1 area else tx, if ty < ry1 area then ry1 area else ty)
         else (tx, ty))"

definition keepInArea :: "win \<Rightarrow> rect \<Rightarrow> bool \<Rightarrow> gworld \<Rightarrow> gworld" where
  "keepInArea c area partial w =
     (let area = (if partial then partial_area w c area else area);
          w = (if \<not> partial \<and> (rwidth area < wwidth w c \<or> rheight area < wheight w c)
               then resizeWithChecks c (min (rwidth area) (wwidth w c), min (rheight area) (wheight w c))
                      None NormalGeometrySet w
               else w);
          p = kept_pos (geometry w c) area
      in if fst p \<noteq> wx w c \<or> snd p \<noteq> wy w c then move c p NormalGeometrySet w else w)"

definition checkOffscreenPosition :: "rect \<Rightarrow> rect \<Rightarrow> rect" where
  "checkOffscreenPosition g screen =
     (let g = (if rx1 g > rx2 screen then moveLeft (rx2 screen - c_div (rwidth screen) 4) g
               else if rx2 g < rx1 screen then moveRight (rx1 screen + c_div (rwidth screen) 4) g
               else g)
      in if ry1 g > ry2 screen then moveTop (ry2 screen - c_div (rheight screen) 4) g
         else if ry2 g < ry1 screen then moveBottom (ry1 screen + c_div (rwidth screen) 4) g
         else g)"

section \<open>Quick tiles\<close>

text \<open>Opposite sides at once are no side; \<open>QuickTileMaximize\<close> is all four.\<close>

definition sane_tile :: "QuickTileMode \<Rightarrow> QuickTileMode" where
  "sane_tile m =
     Tile (tLeft m \<and> \<not> tRight m) (tRight m \<and> \<not> tLeft m) (tTop m \<and> \<not> tBottom m) (tBottom m \<and> \<not> tTop m)"

definition setElectricBorderMode :: "win \<Rightarrow> QuickTileMode \<Rightarrow> gworld \<Rightarrow> gworld" where
  "setElectricBorderMode c m w =
     upd_geo c (\<lambda>g. g\<lparr>electric_mode := if m \<noteq> QuickTileMaximize then sane_tile m else m\<rparr>) w"

definition tile_of :: "QuickTileMode \<Rightarrow> rect \<Rightarrow> rect" where
  "tile_of m a =
     (let r = (if tLeft m then setRight (rx1 a + c_div (rwidth a) 2 - 1) a
               else if tRight m then setLeft (rx2 a - (rwidth a - c_div (rwidth a) 2) + 1) a
               else a)
      in if tTop m then setBottom (ry1 r + c_div (rheight r) 2 - 1) r
         else if tBottom m then setTop (ry2 r - (rheight r - c_div (rheight r) 2) + 1) r
         else r)"

definition electricBorderMaximizeGeometry :: "gworld \<Rightarrow> win \<Rightarrow> point \<Rightarrow> int \<Rightarrow> rect" where
  "electricBorderMaximizeGeometry w c p desktop =
     (if electric_mode (geos w c) = QuickTileMaximize
      then if max_mode (geos w c) = MaximizeFull then geom_restore (geos w c)
           else clientAreaAt w MaximizeArea p desktop
      else tile_of (electric_mode (geos w c)) (clientAreaAt w MaximizeArea p desktop))"

definition setElectricBorderMaximizing :: "win \<Rightarrow> bool \<Rightarrow> gworld \<Rightarrow> gworld" where
  "setElectricBorderMaximizing c maximizing w =
     (let w = upd_geo c (\<lambda>g. g\<lparr>electric_maximizing := maximizing\<rparr>) w;
          w = (if maximizing
               then gcall (OutlineShow (electricBorderMaximizeGeometry w c (cursor_pos w) (m_desktop (cl w c)))) w
               else gcall OutlineHide w)
      in gcall (Elevate c maximizing) w)"

section \<open>The position after a change of the workspace\<close>

text \<open>The sides of an area, the right and the bottom one exclusive, and a choice of sides.\<close>

record edges =
  e_left :: int
  e_top :: int
  e_right :: int
  e_bottom :: int

record sides =
  at_left :: bool
  at_top :: bool
  at_right :: bool
  at_bottom :: bool

definition rect_edges :: "rect \<Rightarrow> edges" where
  "rect_edges a = \<lparr>e_left = rx1 a, e_top = ry1 a, e_right = rx1 a + rwidth a, e_bottom = ry1 a + rheight a\<rparr>"

text \<open>
  The sides when the struts \<open>f\<close> are taken away that meet the window's column (\<open>tall\<close>) or row
  (\<open>wide\<close>).  The code runs over the disjoint pieces of the region of the struts, whose outermost
  sides are those of the struts.
\<close>

definition strut_edges :: "(StrutArea \<Rightarrow> rect list) \<Rightarrow> rect \<Rightarrow> rect \<Rightarrow> edges \<Rightarrow> edges" where
  "strut_edges f tall wide e =
     (let within = (\<lambda>a area. filter (\<lambda>r. \<not> rect_isEmpty r) (map (\<lambda>r. intersected r area) (f a)))
      in \<lparr>e_left = fold (\<lambda>r m. max m (rx1 r + rwidth r)) (within StrutAreaLeft wide) (e_left e),
          e_top = fold (\<lambda>r m. max m (ry1 r + rheight r)) (within StrutAreaTop tall) (e_top e),
          e_right = fold (\<lambda>r m. min m (rx1 r)) (within StrutAreaRight wide) (e_right e),
          e_bottom = fold (\<lambda>r m. min m (ry1 r)) (within StrutAreaBottom tall) (e_bottom e)\<rparr>)"

text \<open>The screen a window was on before the screens changed.\<close>

definition old_screen_area :: "gworld \<Rightarrow> rect \<Rightarrow> rect" where
  "old_screen_area w g =
     fst (fold (\<lambda>r (a, distance).
         let d = (if contains_point r (rcenter g) then 0
                  else manhattanLength (sub_point (rcenter r) (rcenter g)))
         in if d < distance then (r, d) else (a, distance))
       (oldscreensizes w) (mk_rect (0, 0) (olddisplaysize w), INT_MAX))"

definition client_part :: "gworld \<Rightarrow> win \<Rightarrow> rect \<Rightarrow> rect" where
  "client_part w c g = adjusted (borderLeft w c) (borderTop w c) (- borderRight w c) (- borderBottom w c) g"

definition old_edges :: "gworld \<Rightarrow> rect \<Rightarrow> int \<Rightarrow> edges" where
  "old_edges w old desktop =
     (let inside = inUpdateClientArea w;
          area = (if inside then old_screen_area w old else clientAreaAt w ScreenArea (rcenter old) desktop);
          (dw, dh) = (if inside then olddisplaysize w else display_size w)
      in strut_edges (if inside then previousRestrictedMoveArea w desktop else restrictedMoveArea w desktop)
           (mk_rect (rx1 old, 0) (rwidth old, dh)) (mk_rect (0, ry1 old) (dw, rheight old)) (rect_edges area))"

definition new_edges :: "gworld \<Rightarrow> rect \<Rightarrow> rect \<Rightarrow> int \<Rightarrow> edges" where
  "new_edges w screen new desktop =
     strut_edges (restrictedMoveArea w desktop)
       (mk_rect (rx1 new, 0) (rwidth new, snd (display_size w)))
       (mk_rect (0, ry1 new) (fst (display_size w), rheight new)) (rect_edges screen)"

text \<open>The sides the window was inside of and now is not.\<close>

definition to_save :: "rect \<Rightarrow> edges \<Rightarrow> rect \<Rightarrow> edges \<Rightarrow> sides" where
  "to_save old oe new ne =
     \<lparr>at_left = (rx1 old \<ge> e_left oe \<and> rx1 new < e_left ne),
      at_top = (ry1 old \<ge> e_top oe \<and> ry1 new < e_top ne),
      at_right = (rx2 old \<le> e_right oe - 1 \<and> rx2 new > e_right ne - 1),
      at_bottom = (ry2 old \<le> e_bottom oe - 1 \<and> ry2 new > e_bottom ne - 1)\<rparr>"

text \<open>The sides the window touched with its frame or, at second best, with the client.\<close>

definition touch :: "int \<Rightarrow> int \<Rightarrow> int \<Rightarrow> int \<Rightarrow> int \<Rightarrow> int \<Rightarrow> int \<Rightarrow> bool \<times> int" where
  "touch old old_client old_edge new new_client new_edge border =
     (if old = old_edge then (new \<noteq> new_edge, 0)
      else if old_client = old_edge \<and> new_client \<noteq> new_edge then (True, border)
      else (False, 0))"

text \<open>The third number for the top is the width of the left border, as in the code.\<close>

definition to_keep :: "gworld \<Rightarrow> win \<Rightarrow> rect \<Rightarrow> rect \<Rightarrow> edges \<Rightarrow> rect \<Rightarrow> rect \<Rightarrow> edges \<Rightarrow> sides \<times> edges" where
  "to_keep w c old oldc oe new newc ne =
     (let (kl, pl) = touch (rx1 old) (rx1 oldc) (e_left oe) (rx1 new) (rx1 newc) (e_left ne) (borderLeft w c);
          (kt, pt) = touch (ry1 old) (ry1 oldc) (e_top oe) (ry1 new) (ry1 newc) (e_top ne) (borderLeft w c);
          (kr, pr) = touch (rx2 old) (rx2 oldc) (e_right oe - 1) (rx2 new) (rx2 newc) (e_right ne - 1) (borderRight w c);
          (kb, pb) = touch (ry2 old) (ry2 oldc) (e_bottom oe - 1) (ry2 new) (ry2 newc) (e_bottom ne - 1) (borderBottom w c);
          (kl, kr, pl, pr) = (if kl \<and> kr then (False, False, 0, 0) else (kl, kr, pl, pr));
          (kt, kb, pt, pb) = (if kt \<and> kb then (False, False, 0, 0) else (kt, kb, pt, pb))
      in (\<lparr>at_left = kl, at_top = kt, at_right = kr, at_bottom = kb\<rparr>,
          \<lparr>e_left = pl, e_top = pt, e_right = pr, e_bottom = pb\<rparr>))"

definition on_screens :: "gworld \<Rightarrow> rect \<Rightarrow> bool" where
  "on_screens w g = (intersecting w g > 1)"

text \<open>The moves to the sides; \<open>oc\<close> is the client's part of the old geometry.\<close>

definition fit_sides :: "gworld \<Rightarrow> win \<Rightarrow> rect \<Rightarrow> rect \<Rightarrow> edges \<Rightarrow> sides \<Rightarrow> sides \<Rightarrow> edges \<Rightarrow>
    rect \<Rightarrow> edges \<Rightarrow> rect \<Rightarrow> rect" where
  "fit_sides w c old oldc oe save keep pad screen ne g =
     (let left = max (e_left ne) (rx1 screen); top = max (e_top ne) (ry1 screen);
          right = min (e_right ne - 1) (rx2 screen); bottom = min (e_bottom ne - 1) (ry2 screen);
          g = (if at_left save \<or> at_left keep then moveLeft (left - e_left pad) g else g);
          g = (if e_left pad \<noteq> 0 \<and> on_screens w g then moveLeft (rx1 g + e_left pad) g else g);
          g = (if at_top save \<or> at_top keep then moveTop (top - e_top pad) g else g);
          g = (if e_top pad \<noteq> 0 \<and> on_screens w g then moveTop (ry1 g + e_top pad) g else g);
          g = (if at_right save \<or> at_right keep then moveRight (right + e_right pad) g else g);
          g = (if e_right pad \<noteq> 0 \<and> on_screens w g then moveRight (rx2 g - e_right pad) g else g);
          g = (if rx1 old \<ge> e_left oe \<and> rx1 g < e_left ne then setLeft left g
               else if rx1 oldc \<ge> e_left oe \<and> rx1 g + borderLeft w c < e_left ne
               then let g = setLeft (left - borderLeft w c) g
                    in if on_screens w g then setLeft (rx1 g + borderLeft w c) g else g
               else g);
          g = (if at_bottom save \<or> at_bottom keep then moveBottom (bottom + e_bottom pad) g else g);
          g = (if e_bottom pad \<noteq> 0 \<and> on_screens w g then moveBottom (ry2 g - e_bottom pad) g else g)
      in if ry1 old \<ge> e_top oe \<and> ry1 g < e_top ne then setTop top g
         else if ry1 oldc \<ge> e_top oe \<and> ry1 g + borderTop w c < e_top ne
         then let g = setTop (top - borderTop w c) g
              in if on_screens w g then setTop (ry1 g + borderTop w c) g else g
         else g)"

definition workspace_position :: "gworld \<Rightarrow> win \<Rightarrow> rect \<Rightarrow> int \<Rightarrow> rect \<Rightarrow> rect" where
  "workspace_position w c old oldDesktop oldc =
     (let oe = old_edges w old oldDesktop;
          screen = clientAreaAt w ScreenArea (rcenter (geom_restore (geos w c))) (m_desktop (cl w c));
          new = geom_restore (geos w c); newc = client_part w c new;
          ne = new_edges w screen new (m_desktop (cl w c));
          save = to_save old oe new ne; (keep, pad) = to_keep w c old oldc oe new newc ne;
          g = fit_sides w c old oldc oe save keep pad screen ne new;
          g = checkOffscreenPosition g screen
      in if \<not> isShade w c then setSize (adjustedSize w c (rect_size g) SizemodeAny) g else g)"

text \<open>
  \<open>cm\<close> is \<open>changeMaximize\<close>, which may have to place the window.  Without arguments, the old
  geometry is the present one, and the old desktop too (\<open>-2\<close>).
\<close>

type_synonym change_maximize = "win \<Rightarrow> bool \<Rightarrow> bool \<Rightarrow> bool \<Rightarrow> gworld \<Rightarrow> gworld option"

definition checkWorkspacePosition ::
    "change_maximize \<Rightarrow> win \<Rightarrow> rect \<Rightarrow> int \<Rightarrow> rect \<Rightarrow> gworld \<Rightarrow> gworld option" where
  "checkWorkspacePosition cm c oldGeometry oldDesktop oldClientGeometry w =
     (let old = (if rect_isValid oldGeometry then oldGeometry else geometry w c);
          desktop = (if oldDesktop = - 2 then m_desktop (cl w c) else oldDesktop);
          oldc = (if rect_isValid oldClientGeometry then oldClientGeometry else client_part w c old)
      in if isDesktop w c then Some w
         else if is_fullscreen (cl w c)
         then let area = clientAreaOf w FullScreenArea c
              in Some (if geometry w c \<noteq> area then setGeometry c area NormalGeometrySet w else w)
         else if isDock w c then Some w
         else if max_mode (geos w c) \<noteq> MaximizeRestore
         then do {
                w \<leftarrow> cm c False False True w;
                Some (setGeometry c (checkOffscreenPosition (geometry w c) (clientAreaOf w ScreenArea c))
                        NormalGeometrySet w)
              }
         else if quick_tile_mode (geos w c) \<noteq> QuickTileNone
         then Some (setGeometry c (electricBorderMaximizeGeometry w c (rcenter (geometry w c)) (m_desktop (cl w c)))
                      NormalGeometrySet w)
         else if initializing w then Some w
         else let g = workspace_position w c old desktop oldc
              in Some (if g \<noteq> geometry w c then setGeometry c g NormalGeometrySet w else w))"

end
