(* ===== verification/Smart.thy ===== *)
theory Smart
  imports Sizing "HOL-Library.Monad_Syntax"
begin

text \<open>
  Smart placement and packing (\<^verbatim>\<open>placement.cpp\<close>): the search for the place where a window
  overlaps the other windows least, and the positions a window is packed to.
\<close>

section \<open>Windows to be considered\<close>

definition isCurrentTab :: "gworld \<Rightarrow> win \<Rightarrow> bool" where
  "isCurrentTab w c = (case tab_group (cl w c) of None \<Rightarrow> True | Some t \<Rightarrow> tab_current w t = c)"

definition isIrrelevant :: "gworld \<Rightarrow> win \<Rightarrow> win \<Rightarrow> int \<Rightarrow> bool" where
  "isIrrelevant w client regarding desktop =
     (if \<not> isClient w client then True
      else if client = regarding then True
      else if \<not> isCurrentTab w client then True
      else if \<not> isShown w client False then True
      else if \<not> isOnDesktop w client desktop then True
      else if \<not> isOnCurrentActivity w client then True
      else if isDesktop w client then True
      else False)"

definition desktop_of :: "gworld \<Rightarrow> win \<Rightarrow> int" where
  "desktop_of w c =
     (if m_desktop (cl w c) = 0 \<or> isOnAllDesktops w c then uint (current_desktop w) else m_desktop (cl w c))"

definition checkArea :: "gworld \<Rightarrow> win \<Rightarrow> rect \<Rightarrow> rect" where
  "checkArea w c area =
     (if null_rect area
      then clientAreaAt w PlacementArea (rcenter (geometry w c)) (m_desktop (cl w c))
      else area)"

section \<open>The search\<close>

text \<open>
  What the loop does not change: the relevant windows from the bottom of the stack, the area,
  and the width and height of the window less one.
\<close>

record search =
  others :: "win list"
  max_rect :: rect
  cw :: int
  ch :: int

definition start_search :: "gworld \<Rightarrow> win \<Rightarrow> rect \<Rightarrow> search" where
  "start_search w c area =
     \<lparr>others = filter (\<lambda>l. \<not> isIrrelevant w l c (desktop_of w c)) (stacking_order w),
      max_rect = checkArea w c area, cw = wwidth w c - 1, ch = wheight w c - 1\<rparr>"

definition overlap_with :: "gworld \<Rightarrow> search \<Rightarrow> int \<Rightarrow> int \<Rightarrow> win \<Rightarrow> int" where
  "overlap_with w s x y l =
     (let cxl = x; cxr = x + cw s; cyt = y; cyb = y + ch s;
          xl = wx w l; yt = wy w l; xr = xl + wwidth w l; yb = yt + wheight w l
      in if cxl < xr \<and> cxr > xl \<and> cyt < yb \<and> cyb > yt
         then let xl = max cxl xl; xr = min cxr xr; yt = max cyt yt; yb = min cyb yb
              in if m_keepAbove (cl w l) then 16 * (xr - xl) * (yb - yt)
                 else if m_keepBelow (cl w l) \<and> \<not> isDock w l then 0
                 else (xr - xl) * (yb - yt)
         else 0)"

text \<open>The overlap of a window put at \<open>(x, y)\<close>; negative where there is no room for it.\<close>

definition h_wrong :: int where
  "h_wrong = - 1"

definition w_wrong :: int where
  "w_wrong = - 2"

definition overlap_at :: "gworld \<Rightarrow> search \<Rightarrow> int \<Rightarrow> int \<Rightarrow> int" where
  "overlap_at w s x y =
     (if y + ch s > ry2 (max_rect s) \<and> ch s < rheight (max_rect s) then h_wrong
      else if x + cw s > rx2 (max_rect s) then w_wrong
      else sum_list (map (overlap_with w s x y) (others s)))"

text \<open>The next position to the right, and the next row.\<close>

definition next_x :: "gworld \<Rightarrow> search \<Rightarrow> int \<Rightarrow> int \<Rightarrow> int" where
  "next_x w s x y =
     (let possible = rx2 (max_rect s);
          possible = (if possible - cw s > x then possible - cw s else possible)
      in fold (\<lambda>l possible.
           let xl = wx w l; yt = wy w l; xr = xl + wwidth w l; yb = yt + wheight w l in
           if y < yb \<and> yt < ch s + y
           then let possible = (if xr > x \<and> possible > xr then xr else possible);
                    basket = xl - cw s
                in if basket > x \<and> possible > basket then basket else possible
           else possible) (others s) possible)"

definition next_y :: "gworld \<Rightarrow> search \<Rightarrow> int \<Rightarrow> int" where
  "next_y w s y =
     (let possible = ry2 (max_rect s);
          possible = (if possible - ch s > y then possible - ch s else possible)
      in fold (\<lambda>l possible.
           let yt = wy w l; yb = yt + wheight w l;
               possible = (if yb > y \<and> possible > yb then yb else possible);
               basket = yt - ch s
           in if basket > y \<and> possible > basket then basket else possible) (others s) possible)"

text \<open>The loop, at \<open>(x, y)\<close> with the best position so far and the least overlap, once there is one.\<close>

partial_function (option) smart_loop ::
    "gworld \<Rightarrow> search \<Rightarrow> int \<Rightarrow> int \<Rightarrow> point \<Rightarrow> int option \<Rightarrow> point option" where
  "smart_loop w s x y best least =
     (let ov = overlap_at w s x y in
      if ov = 0 then Some (x, y)
      else
        let better = (case least of None \<Rightarrow> False | Some m \<Rightarrow> ov \<ge> 0 \<and> ov < m);
            best = (if better then (x, y) else best);
            least = (if least = None \<or> better then Some (ov) else least);
            (x, y) = (if ov > 0 then (next_x w s x y, y)
                      else if ov = w_wrong then (rx1 (max_rect s), next_y w s y) else (x, y))
        in if ov \<noteq> h_wrong \<and> y < ry2 (max_rect s) then smart_loop w s x y best least else Some best)"

declare smart_loop.simps [code]

definition smart_position :: "gworld \<Rightarrow> win \<Rightarrow> rect \<Rightarrow> point option" where
  "smart_position w c area =
     (let s = start_search w c area; x = rx1 (max_rect s); y = ry1 (max_rect s) in
      do {
        p \<leftarrow> smart_loop w s x y (x, y) None;
        Some (fst p, if ch s \<ge> rheight (max_rect s) then ry1 (max_rect s) else snd p)
      })"

definition placeSmart :: "win \<Rightarrow> rect \<Rightarrow> gworld \<Rightarrow> gworld option" where
  "placeSmart c area w = do { p \<leftarrow> smart_position w c area; Some (move c p NormalGeometrySet w) }"

section \<open>The search returns\<close>

definition search_ok :: "gworld \<Rightarrow> search \<Rightarrow> bool" where
  "search_ok w s \<longleftrightarrow> 0 \<le> cw s \<and> 0 \<le> ch s \<and> (\<forall>l\<in>set (others s). 1 \<le> wwidth w l \<and> 1 \<le> wheight w l)"

lemma overlap_with_nonneg:
  assumes "search_ok w s" "l \<in> set (others s)"
  shows "0 \<le> overlap_with w s x y l"
proof -
  have "1 \<le> wwidth w l" "1 \<le> wheight w l" "0 \<le> cw s" "0 \<le> ch s"
    using assms by (auto simp: search_ok_def)
  then show ?thesis by (auto simp: overlap_with_def Let_def intro!: mult_nonneg_nonneg)
qed

lemma overlap_sum_nonneg:
  "search_ok w s \<Longrightarrow> 0 \<le> sum_list (map (overlap_with w s x y) (others s))"
  using overlap_with_nonneg by (auto intro!: sum_list_nonneg)

text \<open>A window that is one pixel wide or high overlaps nothing.\<close>

lemma overlap_sum_thin:
  assumes "search_ok w s" "cw s = 0 \<or> ch s = 0"
  shows "sum_list (map (overlap_with w s x y) (others s)) = 0"
proof -
  have z: "overlap_with w s x y l = 0" for l
    using assms(2) by (auto simp: overlap_with_def Let_def)
  have "map (overlap_with w s x y) (others s) = map (\<lambda>_. 0) (others s)" by (simp add: z)
  then show ?thesis by (simp only: sum_list_0)
qed

lemma overlap_at_positive:
  assumes "search_ok w s" "0 < overlap_at w s x y"
  shows "1 \<le> cw s" "1 \<le> ch s" "x + cw s \<le> rx2 (max_rect s)"
proof -
  have o: "overlap_at w s x y = sum_list (map (overlap_with w s x y) (others s))"
      "x + cw s \<le> rx2 (max_rect s)"
    using assms(2) by (auto simp: overlap_at_def h_wrong_def w_wrong_def split: if_splits)
  show "x + cw s \<le> rx2 (max_rect s)" by (rule o(2))
  have "cw s \<noteq> 0" "ch s \<noteq> 0" using overlap_sum_thin [OF assms(1)] o(1) assms(2) by auto
  then show "1 \<le> cw s" "1 \<le> ch s" using assms(1) by (auto simp: search_ok_def)
qed

lemma overlap_at_cases:
  assumes "search_ok w s"
  shows "0 \<le> overlap_at w s x y \<or> overlap_at w s x y = h_wrong \<or> overlap_at w s x y = w_wrong"
  using overlap_sum_nonneg [OF assms] by (auto simp: overlap_at_def)

text \<open>The loops over the windows only bring the next position nearer, never up to the present one.\<close>

lemma fold_between:
  assumes "\<And>l p. lo < p \<Longrightarrow> lo < f l p \<and> f l p \<le> p" "lo < p"
  shows "lo < fold f ls p \<and> fold f ls p \<le> (p :: int)"
  using assms(2)
proof (induction ls arbitrary: p)
  case (Cons l ls)
  have "lo < f l p" "f l p \<le> p" using assms(1) Cons.prems by auto
  then show ?case using Cons.IH [of "f l p"] by auto
qed simp

lemma next_x_between:
  assumes "search_ok w s" "x < rx2 (max_rect s)"
  shows "x < next_x w s x y \<and> next_x w s x y \<le> rx2 (max_rect s)"
proof -
  let ?p = "if rx2 (max_rect s) - cw s > x then rx2 (max_rect s) - cw s else rx2 (max_rect s)"
  have p: "x < ?p" "?p \<le> rx2 (max_rect s)" using assms by (auto simp: search_ok_def)
  have "x < next_x w s x y \<and> next_x w s x y \<le> ?p"
    unfolding next_x_def Let_def by (rule fold_between) (use p in auto)
  then show ?thesis using p(2) by linarith
qed

lemma next_y_between:
  assumes "search_ok w s" "y < ry2 (max_rect s)"
  shows "y < next_y w s y \<and> next_y w s y \<le> ry2 (max_rect s)"
proof -
  let ?p = "if ry2 (max_rect s) - ch s > y then ry2 (max_rect s) - ch s else ry2 (max_rect s)"
  have p: "y < ?p" "?p \<le> ry2 (max_rect s)" using assms by (auto simp: search_ok_def)
  have "y < next_y w s y \<and> next_y w s y \<le> ?p"
    unfolding next_y_def Let_def by (rule fold_between) (use p in auto)
  then show ?thesis using p(2) by linarith
qed

lemma next_y_end:
  assumes "search_ok w s" "ry2 (max_rect s) \<le> y"
  shows "next_y w s y = ry2 (max_rect s)"
proof -
  have "fold f ls p = p" if "\<And>l p. p \<le> y \<Longrightarrow> f l p = p" "p \<le> y" for f :: "win \<Rightarrow> int \<Rightarrow> int" and ls p
    using that(2) by (induction ls) (auto simp: that(1))
  note f = this
  have "\<not> ry2 (max_rect s) - ch s > y" using assms by (auto simp: search_ok_def)
  then show ?thesis unfolding next_y_def Let_def by (simp, intro f) (use assms(2) in auto)
qed

text \<open>One round of the loop.\<close>

definition next_position :: "gworld \<Rightarrow> search \<Rightarrow> int \<Rightarrow> int \<Rightarrow> int \<times> int" where
  "next_position w s x y =
     (if overlap_at w s x y > 0 then (next_x w s x y, y)
      else if overlap_at w s x y = w_wrong then (rx1 (max_rect s), next_y w s y) else (x, y))"

lemma next_position_advances:
  assumes "search_ok w s" "(x', y') = next_position w s x y" "overlap_at w s x y \<noteq> h_wrong"
    "overlap_at w s x y \<noteq> 0" "y' < ry2 (max_rect s)"
  shows "((nat (ry2 (max_rect s) - y'), nat (rx2 (max_rect s) - x')),
          (nat (ry2 (max_rect s) - y), nat (rx2 (max_rect s) - x))) \<in> less_than <*lex*> less_than"
proof (cases "overlap_at w s x y > 0")
  case True
  then have n: "x' = next_x w s x y" "y' = y" using assms(2) by (simp_all add: next_position_def)
  have "x < rx2 (max_rect s)" using overlap_at_positive [OF assms(1) True] by linarith
  from next_x_between [OF assms(1) this, of y] n show ?thesis by auto
next
  case False
  then have o: "overlap_at w s x y = w_wrong"
    using overlap_at_cases [OF assms(1), of x y] assms(3,4) by linarith
  then have n: "y' = next_y w s y" using assms(2) by (simp add: next_position_def w_wrong_def)
  show ?thesis
  proof (cases "y < ry2 (max_rect s)")
    case True
    from next_y_between [OF assms(1) this] n show ?thesis by auto
  next
    case False
    then show ?thesis using next_y_end [OF assms(1)] n assms(5) by auto
  qed
qed

definition in_search :: "search \<Rightarrow> point \<Rightarrow> bool" where
  "in_search s p \<longleftrightarrow> rx1 (max_rect s) \<le> fst p \<and> ry1 (max_rect s) \<le> snd p"

lemma next_position_in_search:
  assumes "search_ok w s" "in_search s (x, y)" "overlap_at w s x y \<noteq> h_wrong" "overlap_at w s x y \<noteq> 0"
  shows "in_search s (next_position w s x y) \<or> \<not> snd (next_position w s x y) < ry2 (max_rect s)"
proof (cases "overlap_at w s x y > 0")
  case True
  have "x < rx2 (max_rect s)" using overlap_at_positive [OF assms(1) True] by linarith
  from next_x_between [OF assms(1) this, of y] show ?thesis
    using True assms(2) by (auto simp: next_position_def in_search_def)
next
  case False
  then have o: "overlap_at w s x y = w_wrong"
    using overlap_at_cases [OF assms(1), of x y] assms(3,4) by linarith
  then show ?thesis
    using next_y_between [OF assms(1), of y] next_y_end [OF assms(1), of y] assms(2)
    by (cases "y < ry2 (max_rect s)") (auto simp: next_position_def in_search_def w_wrong_def)
qed

lemma smart_loop_round:
  assumes "overlap_at w s x y \<noteq> 0"
  shows "smart_loop w s x y best least =
    (let ov = overlap_at w s x y;
         better = (case least of None \<Rightarrow> False | Some m \<Rightarrow> ov \<ge> 0 \<and> ov < m);
         best = (if better then (x, y) else best);
         least = (if least = None \<or> better then Some ov else least);
         p = next_position w s x y
     in if ov \<noteq> h_wrong \<and> snd p < ry2 (max_rect s) then smart_loop w s (fst p) (snd p) best least else Some best)"
  unfolding smart_loop.simps [of w s x y] next_position_def Let_def case_prod_beta
  using assms by (simp only: if_False)

text \<open>What the position that is found is worth: \<open>m0\<close> is the overlap at the corner.\<close>

definition candidate :: "gworld \<Rightarrow> search \<Rightarrow> point \<Rightarrow> bool" where
  "candidate w s p \<longleftrightarrow> in_search s p \<and>
     (let m0 = overlap_at w s (rx1 (max_rect s)) (ry1 (max_rect s))
      in 0 \<le> m0 \<longrightarrow> 0 \<le> overlap_at w s (fst p) (snd p) \<and> overlap_at w s (fst p) (snd p) \<le> m0)"

lemma smart_loop_result:
  assumes "search_ok w s" "in_search s (x, y)"
    "least = None \<Longrightarrow> best = (x, y) \<and> (x, y) = (rx1 (max_rect s), ry1 (max_rect s))"
    "\<And>m. least = Some m \<Longrightarrow> candidate w s best \<and> overlap_at w s (fst best) (snd best) = m"
  shows "\<exists>p. smart_loop w s x y best least = Some p \<and> candidate w s p"
  using assms(2-4)
proof (induction "(nat (ry2 (max_rect s) - y), nat (rx2 (max_rect s) - x))" arbitrary: x y best least
    rule: wf_induct_rule [OF wf_lex_prod [OF wf_less_than wf_less_than]])
  case (1 x y best least)
  let ?ov = "overlap_at w s x y"
  let ?m0 = "overlap_at w s (rx1 (max_rect s)) (ry1 (max_rect s))"
  have m0: "?ov \<le> ?m0" if "least = None" using 1(3) that by simp
  show ?case
  proof (cases "?ov = 0")
    case True
    have "candidate w s (x, y)" using 1(2) True by (auto simp: candidate_def Let_def)
    then show ?thesis using True by (subst smart_loop.simps) (simp add: Let_def)
  next
    case False
    define better where "better = (case least of None \<Rightarrow> False | Some m \<Rightarrow> 0 \<le> ?ov \<and> ?ov < m)"
    define best' where "best' = (if better then (x, y) else best)"
    define least' where "least' = (if least = None \<or> better then Some ?ov else least)"
    obtain x' y' where n: "(x', y') = next_position w s x y" by (metis surj_pair)
    have best': "candidate w s best' \<and> overlap_at w s (fst best') (snd best') = m"
      if "least' = Some m" for m
    proof (cases least)
      case None
      then have "m = ?ov" "best' = (x, y)" "(x, y) = (rx1 (max_rect s), ry1 (max_rect s))"
        using that 1(3) by (auto simp: least'_def best'_def better_def)
      then show ?thesis using 1(2) by (auto simp: candidate_def Let_def)
    next
      case (Some m1)
      have c: "candidate w s best" "overlap_at w s (fst best) (snd best) = m1" using 1(4) [OF Some] by auto
      show ?thesis
      proof (cases better)
        case True
        then have "0 \<le> ?ov" "?ov < m1" "m = ?ov" "best' = (x, y)"
          using that Some by (auto simp: better_def least'_def best'_def)
        then show ?thesis using c 1(2) by (auto simp: candidate_def Let_def)
      next
        case False
        then show ?thesis using c that Some by (auto simp: least'_def best'_def)
      qed
    qed
    have "least' \<noteq> None" by (auto simp: least'_def)
    then obtain m' where m': "least' = Some m'" by blast
    have run: "smart_loop w s x y best least =
        (if ?ov \<noteq> h_wrong \<and> y' < ry2 (max_rect s) then smart_loop w s x' y' best' least' else Some best')"
      by (simp only: smart_loop_round [OF False] Let_def best'_def least'_def better_def n [symmetric]
            fst_conv snd_conv)
    show ?thesis
    proof (cases "?ov \<noteq> h_wrong \<and> y' < ry2 (max_rect s)")
      case True
      have adv: "((nat (ry2 (max_rect s) - y'), nat (rx2 (max_rect s) - x')),
          (nat (ry2 (max_rect s) - y), nat (rx2 (max_rect s) - x))) \<in> less_than <*lex*> less_than"
        using next_position_advances [OF assms(1) n] True False by blast
      have ins: "in_search s (x', y')"
        using next_position_in_search [OF assms(1) 1(2)] True False n by (metis snd_conv)
      have "\<exists>p. smart_loop w s x' y' best' least' = Some p \<and> candidate w s p"
      proof (rule 1(1) [OF adv ins])
        show "best' = (x', y') \<and> (x', y') = (rx1 (max_rect s), ry1 (max_rect s))" if "least' = None"
          using that m' by simp
      qed (rule best')
      then show ?thesis using True run by simp
    next
      case False
      then show ?thesis using run best' [OF m'] by (intro exI [of _ best']) auto
    qed
  qed
qed

text \<open>
  The weight of a window, and its overlap with the reference definition: the loop counts the
  window to be placed without its last column and its last row.
\<close>

definition overlap_weight :: "gworld \<Rightarrow> win \<Rightarrow> int" where
  "overlap_weight w l =
     (if m_keepAbove (cl w l) then 16 else if m_keepBelow (cl w l) \<and> \<not> isDock w l then 0 else 1)"

definition common_area :: "rect \<Rightarrow> rect \<Rightarrow> int" where
  "common_area a b = (let i = intersected a b in rwidth i * rheight i)"

lemma overlap_with_is_area:
  assumes "1 \<le> cw s" "1 \<le> ch s" "1 \<le> wwidth w l" "1 \<le> wheight w l"
  shows "overlap_with w s x y l =
    overlap_weight w l * common_area (mk_rect (x, y) (cw s, ch s)) (geometry w l)"
proof -
  define a where "a = mk_rect (x, y) (cw s, ch s)"
  define g where "g = geometry w l"
  have va: "rect_isValid a" and vg: "rect_isValid g"
    using assms by (auto simp: a_def g_def rect_isValid_def mk_rect_def wwidth_def wheight_def rwidth_def rheight_def)
  have ca: "rx1 a = x" "rx2 a = x + cw s - 1" "ry1 a = y" "ry2 a = y + ch s - 1"
    by (simp_all add: a_def rect_simps)
  have cg: "wx w l = rx1 g" "wy w l = ry1 g" "rx1 g + wwidth w l = rx2 g + 1" "ry1 g + wheight w l = ry2 g + 1"
    by (simp_all add: wx_def wy_def wwidth_def wheight_def g_def rwidth_def rheight_def)
  have i: "intersects a g \<longleftrightarrow> x < rx2 g + 1 \<and> x + cw s > rx1 g \<and> y < ry2 g + 1 \<and> y + ch s > ry1 g"
    unfolding intersects_valid [OF va vg] ca by linarith
  show ?thesis
  proof (cases "intersects a g")
    case True
    have m: "min (x + cw s) (rx2 g + 1) = min (x + cw s - 1) (rx2 g) + 1"
        "min (y + ch s) (ry2 g + 1) = min (y + ch s - 1) (ry2 g) + 1" by linarith+
    have "common_area a g = (min (x + cw s) (rx2 g + 1) - max x (rx1 g)) * (min (y + ch s) (ry2 g + 1) - max y (ry1 g))"
      unfolding common_area_def intersected_valid [OF va vg] ca m using True
      by (simp add: Let_def rwidth_def rheight_def algebra_simps)
    then show ?thesis using True
      unfolding overlap_with_def a_def [symmetric] g_def [symmetric] cg Let_def overlap_weight_def i by simp
  next
    case False
    then have "common_area a g = 0"
      by (simp add: common_area_def intersected_valid [OF va vg] no_rect_def rwidth_def rheight_def)
    moreover have "\<not> (x < rx2 g + 1 \<and> x + cw s > rx1 g \<and> y < ry2 g + 1 \<and> y + ch s > ry1 g)"
      using False i by simp
    ultimately show ?thesis
      unfolding overlap_with_def a_def [symmetric] g_def [symmetric] cg Let_def
      by (simp only: if_False mult_zero_right)
  qed
qed

section \<open>Where the window is put\<close>

definition relevant_windows :: "gworld \<Rightarrow> win \<Rightarrow> win list" where
  "relevant_windows w c = filter (\<lambda>l. \<not> isIrrelevant w l c (desktop_of w c)) (stacking_order w)"

text \<open>What a window at \<open>p\<close> covers of the relevant windows.\<close>

definition covered_at :: "gworld \<Rightarrow> win \<Rightarrow> point \<Rightarrow> int" where
  "covered_at w c p =
     sum_list (map (\<lambda>l. overlap_weight w l *
         common_area (mk_rect p (wwidth w c - 1, wheight w c - 1)) (geometry w l)) (relevant_windows w c))"

definition fits :: "gworld \<Rightarrow> win \<Rightarrow> rect \<Rightarrow> bool" where
  "fits w c a \<longleftrightarrow> wwidth w c \<le> rwidth a \<and> wheight w c \<le> rheight a"

lemma overlap_at_covered:
  assumes "2 \<le> wwidth w c" "2 \<le> wheight w c"
    "\<forall>l\<in>set (relevant_windows w c). 1 \<le> wwidth w l \<and> 1 \<le> wheight w l"
  shows "overlap_at w (start_search w c area) x y =
    (if y + wheight w c - 1 > ry2 (checkArea w c area) \<and> wheight w c \<le> rheight (checkArea w c area) then h_wrong
     else if x + wwidth w c - 1 > rx2 (checkArea w c area) then w_wrong else covered_at w c (x, y))"
proof -
  let ?s = "start_search w c area"
  have s: "others ?s = relevant_windows w c" "max_rect ?s = checkArea w c area"
      "cw ?s = wwidth w c - 1" "ch ?s = wheight w c - 1"
    by (simp_all add: start_search_def relevant_windows_def)
  have m: "map (overlap_with w ?s x y) (others ?s) =
      map (\<lambda>l. overlap_weight w l * common_area (mk_rect (x, y) (wwidth w c - 1, wheight w c - 1)) (geometry w l))
        (relevant_windows w c)"
    unfolding s(1) by (rule map_cong [OF refl]) (use assms in \<open>simp add: overlap_with_is_area s\<close>)
  have "y + (wheight w c - 1) > b \<and> wheight w c - 1 < h \<longleftrightarrow> y + wheight w c - 1 > b \<and> wheight w c \<le> h"
      "x + (wwidth w c - 1) > b \<longleftrightarrow> x + wwidth w c - 1 > b" for b h by arith+
  then show ?thesis unfolding overlap_at_def covered_at_def s m [unfolded s(1)] by (simp only:)
qed

lemma search_result:
  fixes area :: rect
  assumes "1 \<le> wwidth w c" "1 \<le> wheight w c"
    "\<forall>l\<in>set (relevant_windows w c). 1 \<le> wwidth w l \<and> 1 \<le> wheight w l"
  defines "s \<equiv> start_search w c area"
  shows "\<exists>p. smart_loop w s (rx1 (max_rect s)) (ry1 (max_rect s)) (rx1 (max_rect s), ry1 (max_rect s)) None = Some p
    \<and> candidate w s p"
proof (rule smart_loop_result)
  show "search_ok w s"
    using assms by (auto simp: search_ok_def s_def start_search_def relevant_windows_def)
qed (auto simp: in_search_def)

text \<open>C23: Smart placement returns: the search for the position ends.  When the window fits into the
  area, the window is put inside it, at a place where it covers no more of the other windows
  than at the corner of the area.\<close>

theorem smart_placement_correct:
  fixes area :: rect
  assumes "2 \<le> wwidth w c" "2 \<le> wheight w c"
    "\<forall>l\<in>set (relevant_windows w c). 1 \<le> wwidth w l \<and> 1 \<le> wheight w l"
  defines "a \<equiv> checkArea w c area"
  shows "\<exists>p. placeSmart c area w = Some (move c p NormalGeometrySet w) \<and>
    (fits w c a \<longrightarrow>
       rx1 a \<le> fst p \<and> ry1 a \<le> snd p \<and> fst p + wwidth w c - 1 \<le> rx2 a \<and>
       snd p + wheight w c - 1 \<le> ry2 a \<and> covered_at w c p \<le> covered_at w c (topLeft a))"
proof -
  define s where "s = start_search w c area"
  have s: "max_rect s = a" "cw s = wwidth w c - 1" "ch s = wheight w c - 1"
    by (simp_all add: s_def start_search_def a_def)
  obtain p where p: "smart_loop w s (rx1 a) (ry1 a) (rx1 a, ry1 a) None = Some p" "candidate w s p"
    using search_result [of w c area] assms(1-3) unfolding s_def [symmetric] s by auto
  define q where "q = (fst p, if ch s \<ge> rheight a then ry1 a else snd p)"
  have "placeSmart c area w = Some (move c q NormalGeometrySet w)"
    using p(1) by (simp add: placeSmart_def smart_position_def s_def [symmetric] s q_def Let_def)
  moreover have "rx1 a \<le> fst q \<and> ry1 a \<le> snd q \<and> fst q + wwidth w c - 1 \<le> rx2 a \<and>
       snd q + wheight w c - 1 \<le> ry2 a \<and> covered_at w c q \<le> covered_at w c (topLeft a)" if f: "fits w c a"
  proof -
    have q: "q = p" using f by (simp add: q_def s fits_def)
    have ov: "overlap_at w s x y =
        (if y + wheight w c - 1 > ry2 a then h_wrong else if x + wwidth w c - 1 > rx2 a then w_wrong
         else covered_at w c (x, y))" for x y
      using overlap_at_covered [OF assms(1-3), of area x y] f unfolding s_def [symmetric] a_def [symmetric]
      by (simp add: fits_def)
    have corner: "overlap_at w s (rx1 a) (ry1 a) = covered_at w c (topLeft a)"
      using f by (simp add: ov fits_def rwidth_def rheight_def topLeft_def)
    have "search_ok w s"
      using assms(1-3) by (auto simp: search_ok_def s_def start_search_def relevant_windows_def)
    moreover have "overlap_at w s (rx1 a) (ry1 a) = sum_list (map (overlap_with w s (rx1 a) (ry1 a)) (others s))"
      using f by (simp add: overlap_at_def s fits_def rwidth_def rheight_def)
    ultimately have "0 \<le> overlap_at w s (rx1 a) (ry1 a)" using overlap_sum_nonneg by simp
    then have c: "in_search s p" "0 \<le> overlap_at w s (fst p) (snd p)"
        "overlap_at w s (fst p) (snd p) \<le> covered_at w c (topLeft a)"
      using p(2) corner by (auto simp: candidate_def s Let_def)
    have "snd p + wheight w c - 1 \<le> ry2 a" "fst p + wwidth w c - 1 \<le> rx2 a"
      using c(2) by (auto simp: ov h_wrong_def w_wrong_def split: if_splits)
    then show ?thesis using c unfolding q by (auto simp: ov in_search_def s)
  qed
  ultimately show ?thesis by blast
qed


text \<open>Two windows of 100 by 100 pixels on a screen of 400 by 300 pixels, the first at the corner.\<close>

definition no_hints :: size_hints where
  "no_hints = \<lparr>h_minSize = None, h_maxSize = None, h_increments = None, h_aspect = None,
     h_baseSize = None, h_gravity = None\<rparr>"

definition no_strut :: strut where
  "no_strut = \<lparr>left_strut = (0, 0, 0), right_strut = (0, 0, 0), top_strut = (0, 0, 0), bottom_strut = (0, 0, 0)\<rparr>"

definition plain_geo :: geo where
  "plain_geo =
     \<lparr>decorated = True, borders = (2, 20, 2, 2), client_size = (96, 78), hints = no_hints, w_rules = [],
      max_mode = Maximize False False, geom_restore = no_rect, quick_tile_mode = QuickTileNone,
      electric_mode = QuickTileNone, electric_maximizing = False, block_geometry = 0,
      pending_geometry = PendingGeometryNone, geom_before_block = mk_rect (0, 0) (100, 100),
      frame_geometry = mk_rect (0, 0) (100, 100), shade_geometry_change = False, move_resize = False,
      pointer_mode = PositionCenter, has_sync_counter = False, needs_x_move = False, net_support = True,
      motif_move = True, motif_resize = True, motif_no_border = False, app_noborder = False,
      no_border = False, ext_strut = no_strut, simple_strut = (0, 0, 0, 0), placement_pos = (0, 0),
      tab_sizes = None, plugin_borders = (\<lambda>_. Some (2, 20, 2, 2)),
      fullscreen_hack = False, geom_fs_restore = no_rect, fullscreen_monitors = None,
      resize_geom = no_rect, initial_resize_geom = no_rect, move_resize_screen = 0, unrestricted_move = False,
      move_offset = (0, 0), inverted_offset = (0, 0), sync_pending = False, button_down = False\<rparr>"

definition example_screen :: gworld where
  "example_screen = world.extend (empty_session\<lparr>clients := [1, 2], stacking_order := [1, 2],
       screen_geometry := (\<lambda>_. mk_rect (0, 0) (400, 300))\<rparr>)
     \<lparr>geos = (\<lambda>_. plain_geo), all_clients = [1, 2], screens_count = 1, m_current_screen = 0,
      follows_mouse = False, cursor_pos = (10, 10), display_size = (400, 300), desktop_count = 1,
      workarea = [no_rect, mk_rect (0, 0) (400, 300)], screenarea = [[], [mk_rect (0, 0) (400, 300)]],
      restrictedmovearea = [[], []], oldrestrictedmovearea = [], oldscreensizes = [], olddisplaysize = (400, 300),
      is_multihead = False, multihead_screen = 0, initializing = False, compositing = True,
      borderSnapZone = 10, windowSnapZone = 10, centerSnapZone = 0, snapOnlyWhenOverlapping = False,
      borderlessMaximizedWindows = False, electricBorderMaximize = True,
      legacyFullscreenSupport = False, have_resize_effect = False, startDragDistance = 4, placement_option = Smart,
      cascading = [], random_pos = (24, 48), gcalls = []\<rparr>"

lemma smart_placement_correct_witness:
  "\<exists>p. placeSmart 2 no_rect example_screen = Some (move 2 p NormalGeometrySet example_screen)"
proof -
  have "relevant_windows example_screen 2 = [1]" by code_simp
  moreover have "wwidth example_screen 2 = 100" "wheight example_screen 2 = 100"
    "wwidth example_screen 1 = 100" "wheight example_screen 1 = 100" by code_simp+
  ultimately show ?thesis
    using smart_placement_correct [of example_screen 2 no_rect] by auto
qed

lemma smart_example:
  "smart_position example_screen 2 no_rect = Some (100, 0)"
  by code_simp

text \<open>The last column of the window is not looked at: it is put over the first one of its neighbour.\<close>

lemma smart_shares_a_column:
  "let w = set_geom 1 (mk_rect (99, 0) (100, 100)) example_screen
   in smart_position w 2 no_rect = Some (0, 0) \<and>
      intersects (mk_rect (0, 0) (100, 100)) (geometry w 1)"
  by code_simp

end
