(* ===== verification/Maximizing.thy ===== *)
theory Maximizing
  imports Positioning Smart
begin

text \<open>
  Decorations (\<^verbatim>\<open>client.cpp\<close>) and maximization (\<^verbatim>\<open>geometry.cpp\<close>).  Both move and resize the
  window and each may call the other: a change of the maximization tells the decoration, which
  may get other borders.  What \<open>changeMaximize\<close> calls to place a window is an argument here.
\<close>

section \<open>Decorations\<close>

definition noBorder :: "gworld \<Rightarrow> win \<Rightarrow> bool" where
  "noBorder w c = (no_border (geos w c) \<or> is_fullscreen (cl w c))"

definition userCanSetNoBorder :: "gworld \<Rightarrow> win \<Rightarrow> bool" where
  "userCanSetNoBorder w c = (\<not> is_fullscreen (cl w c) \<and> \<not> isShade w c \<and> tab_group (cl w c) = None)"

definition current_frame_size :: "gworld \<Rightarrow> win \<Rightarrow> qsize" where
  "current_frame_size w c = sizeForClientSize w c (client_size (geos w c)) SizemodeAny False"

definition discard_if_composited :: "win \<Rightarrow> gworld \<Rightarrow> gworld" where
  "discard_if_composited c w = (if compositing w then gcall (DiscardWindowPixmap c) w else w)"

text \<open>The decoration plugin answers with the borders of a decoration, or with none.\<close>

definition createDecoration :: "win \<Rightarrow> rect \<Rightarrow> gworld \<Rightarrow> gworld" where
  "createDecoration c oldgeom w =
     (let b = plugin_borders (geos w c) (max_mode (geos w c));
          w = upd_geo c (\<lambda>g. g\<lparr>decorated := b \<noteq> None, borders := (case b of None \<Rightarrow> (0, 0, 0, 0) | Some b \<Rightarrow> b)\<rparr>) w;
          w = move c (calculateGravitation w c False None) NormalGeometrySet w;
          w = plainResize c (current_frame_size w c) ForceGeometrySet w
      in emit_checked c (GeometryShapeChanged c oldgeom) (discard_if_composited c w))"

definition destroyDecoration :: "win \<Rightarrow> gworld \<Rightarrow> gworld" where
  "destroyDecoration c w =
     (let oldgeom = geometry w c
      in if decorated (geos w c)
         then let grav = calculateGravitation w c True None;
                  w = upd_geo c (\<lambda>g. g\<lparr>decorated := False\<rparr>) w;
                  w = plainResize c (current_frame_size w c) ForceGeometrySet w;
                  w = move c grav NormalGeometrySet w
              in emit_checked c (GeometryShapeChanged c oldgeom) (discard_if_composited c w)
         else w)"

definition updateDecoration :: "change_maximize \<Rightarrow> win \<Rightarrow> bool \<Rightarrow> bool \<Rightarrow> gworld \<Rightarrow> gworld option" where
  "updateDecoration cm c check_workspace_pos force w =
     (if \<not> force \<and> (\<not> decorated (geos w c) \<and> noBorder w c \<or> decorated (geos w c) \<and> \<not> noBorder w c)
      then Some w
      else
        let oldgeom = geometry w c; oldclient = client_part w c oldgeom;
            w = blockGeometryUpdates c w;
            w = (if force then destroyDecoration c w else w);
            w = (if \<not> noBorder w c then createDecoration c oldgeom w else destroyDecoration c w);
            w = gcall (GetShadow c) w
        in do {
          w \<leftarrow> (if check_workspace_pos then checkWorkspacePosition cm c oldgeom (- 2) oldclient w else Some w);
          Some (gcall (UpdateFrameExtents c) (unblockGeometryUpdates c (gcall (UpdateInputWindow c) w)))
        })"

definition setNoBorder :: "change_maximize \<Rightarrow> win \<Rightarrow> bool \<Rightarrow> gworld \<Rightarrow> gworld option" where
  "setNoBorder cm c set_to w =
     (if \<not> userCanSetNoBorder w c then Some w
      else let set_to = wr_checkNoBorder (w_rules (geos w c)) set_to False
           in if no_border (geos w c) = set_to then Some w
              else do {
                w \<leftarrow> updateDecoration cm c True False (upd_geo c (\<lambda>g. g\<lparr>no_border := set_to\<rparr>) w);
                Some (gcall (UpdateRules c [NoBorder]) w)
              })"

definition checkNoBorder :: "change_maximize \<Rightarrow> win \<Rightarrow> gworld \<Rightarrow> gworld option" where
  "checkNoBorder cm c w = setNoBorder cm c (app_noborder (geos w c)) w"

text \<open>What \<open>createDecoration\<close> connects to the signal \<open>bordersChanged\<close>.\<close>

definition bordersChanged :: "change_maximize \<Rightarrow> win \<Rightarrow> gworld \<Rightarrow> gworld option" where
  "bordersChanged cm c w =
     (let w = blockGeometryUpdates c (gcall (UpdateFrameExtents c) w); oldgeom = geometry w c;
          w = plainResize c (current_frame_size w c) ForceGeometrySet w
      in do {
        w \<leftarrow> (if \<not> isShade w c then checkWorkspacePosition cm c oldgeom (- 2) no_rect w else Some w);
        Some (unblockGeometryUpdates c (emit_checked c (GeometryShapeChanged c oldgeom) w))
      })"

text \<open>
  While the decoration hears of a change of the maximization, the static variable
  \<open>changeMaximizeRecursion\<close> is set: \<open>changeMaximize\<close> returns at once.
\<close>

definition recursion_guard :: change_maximize where
  "recursion_guard c v h adjust w = Some w"

definition maximized_signals :: "MaximizeMode \<Rightarrow> MaximizeMode \<Rightarrow> string list" where
  "maximized_signals old m =
     (if maxVert m \<noteq> maxVert old then [''maximizedVerticallyChanged''] else []) @
     (if maxHoriz m \<noteq> maxHoriz old then [''maximizedHorizontallyChanged''] else []) @
     (if (m = MaximizeFull) \<noteq> (old = MaximizeFull) then [''maximizedChanged''] else [])"

definition tell_decoration :: "win \<Rightarrow> MaximizeMode \<Rightarrow> MaximizeMode \<Rightarrow> gworld \<Rightarrow> gworld option" where
  "tell_decoration c old m w =
     (let names = maximized_signals old m
      in if names = [] then Some w
         else let w = gcall (DecorationChanged c names) w
              in case plugin_borders (geos w c) m of
                   None \<Rightarrow> Some w
                 | Some b \<Rightarrow> if b = borders (geos w c) then Some w
                     else bordersChanged recursion_guard c (upd_geo c (\<lambda>g. g\<lparr>borders := b\<rparr>) w))"

section \<open>The mode\<close>

definition maximize_area :: "gworld \<Rightarrow> win \<Rightarrow> rect" where
  "maximize_area w c =
     (if electric_maximizing (geos w c)
      then clientAreaAt w MaximizeArea (cursor_pos w) (m_desktop (cl w c))
      else clientAreaOf w MaximizeArea c)"

text \<open>\<open>n / d > v\<close> in floating point.\<close>

definition ratio_above :: "int \<Rightarrow> int \<Rightarrow> int \<Rightarrow> bool" where
  "ratio_above n d v = (if d > 0 then n > v * d else if d < 0 then n < v * d else n > 0)"

text \<open>One-dimensional maximization of a window with a fixed aspect that would get too big.\<close>

definition obey_aspect :: "gworld \<Rightarrow> win \<Rightarrow> rect \<Rightarrow> MaximizeMode \<Rightarrow> MaximizeMode \<Rightarrow> MaximizeMode" where
  "obey_aspect w c area old m =
     (let h = hints (geos w c)
      in if hasAspect h \<and> (m = MaximizeVertical \<or> m = MaximizeHorizontal) \<and>
            wr_checkStrictGeometry (w_rules (geos w c)) True
         then if m = MaximizeVertical \<or> maxVert old
              then if ratio_above (fst (minAspect h) * rheight area) (snd (maxAspect h)) (rwidth area)
                   then if maxHoriz old then MaximizeRestore else MaximizeFull else m
              else if ratio_above (snd (minAspect h) * rwidth area) (fst (maxAspect h)) (rheight area)
                   then if maxVert old then MaximizeRestore else MaximizeFull else m
         else m)"

definition new_mode :: "gworld \<Rightarrow> win \<Rightarrow> bool \<Rightarrow> bool \<Rightarrow> bool \<Rightarrow> MaximizeMode" where
  "new_mode w c vertical horizontal adjust =
     (let old = max_mode (geos w c);
          m = (if adjust then old
               else Maximize (maxVert old \<noteq> vertical) (maxHoriz old \<noteq> horizontal))
      in wr_checkMaximize (w_rules (geos w c)) (obey_aspect w c (maximize_area w c) old m) False)"

section \<open>The geometry\<close>

definition size_to_restore :: "gworld \<Rightarrow> win \<Rightarrow> qsize" where
  "size_to_restore w c = (if isShade w c then current_frame_size w c else wsize w c)"

definition save_geometry :: "win \<Rightarrow> MaximizeMode \<Rightarrow> bool \<Rightarrow> gworld \<Rightarrow> gworld" where
  "save_geometry c old adjust w =
     (let sz = size_to_restore w c
      in if quick_tile_mode (geos w c) = QuickTileNone
         then let w = (if \<not> adjust \<and> \<not> maxVert old
                       then upd_geo c (\<lambda>g. g\<lparr>geom_restore := setHeight (snd sz) (setTop (wy w c) (geom_restore g))\<rparr>) w
                       else w)
              in if \<not> adjust \<and> \<not> maxHoriz old
                 then upd_geo c (\<lambda>g. g\<lparr>geom_restore := setWidth (fst sz) (setLeft (wx w c) (geom_restore g))\<rparr>) w
                 else w
         else w)"

definition leave_tile :: "win \<Rightarrow> MaximizeMode \<Rightarrow> rect \<Rightarrow> gworld \<Rightarrow> gworld" where
  "leave_tile c old area w =
     (let m = max_mode (geos w c)
      in if quick_tile_mode (geos w c) \<noteq> QuickTileNone
         then if old = MaximizeFull \<and> \<not> contains_point area (rcenter (geom_restore (geos w c))) then w
              else if old = MaximizeVertical \<and> m = MaximizeRestore \<or> old = MaximizeFull \<and> m = MaximizeHorizontal
              then upd_geo c (\<lambda>g. g\<lparr>quick_tile_mode := QuickTileNone\<rparr>) w
              else w
         else w)"

definition geom_mode :: "gworld \<Rightarrow> win \<Rightarrow> ForceGeometry" where
  "geom_mode w c = (if decorated (geos w c) then ForceGeometrySet else NormalGeometrySet)"

definition with_adjusted_size :: "gworld \<Rightarrow> win \<Rightarrow> Sizemode \<Rightarrow> rect \<Rightarrow> rect" where
  "with_adjusted_size w c mode r = setSize (adjustedSize w c (rect_size r) mode) r"

definition ruled_corner :: "gworld \<Rightarrow> win \<Rightarrow> rect \<Rightarrow> point" where
  "ruled_corner w c r = wr_checkPosition (w_rules (geos w c)) (topLeft r) False"

definition maximize_vertically :: "win \<Rightarrow> MaximizeMode \<Rightarrow> rect \<Rightarrow> gworld \<Rightarrow> gworld option" where
  "maximize_vertically c old area w =
     (let restore = geom_restore (geos w c); mode = geom_mode w c
      in do {
        w \<leftarrow> (if maxHoriz old
              then if rwidth restore = 0 \<or> \<not> contains_point area (rcenter restore)
                   then placeSmart c area (plainResize c
                          (adjustedSize w c (c_div (wwidth w c * 2) 3, rheight area) SizemodeFixedH) mode w)
                   else Some (setGeometry c (mk_rect (rx1 restore, ry1 area)
                          (adjustedSize w c (rwidth restore, rheight area) SizemodeFixedH)) mode w)
              else let r = mk_rect (wx w c, ry1 area) (wwidth w c, rheight area);
                       r = setTopLeft (ruled_corner w c r) r
                   in Some (setGeometry c (with_adjusted_size w c SizemodeFixedH r) mode w));
        Some (gcall (SetNetState c [NetMaxVert]) w)
      })"

definition maximize_horizontally :: "win \<Rightarrow> MaximizeMode \<Rightarrow> rect \<Rightarrow> gworld \<Rightarrow> gworld option" where
  "maximize_horizontally c old area w =
     (let restore = geom_restore (geos w c); mode = geom_mode w c
      in do {
        w \<leftarrow> (if maxVert old
              then if rheight restore = 0 \<or> \<not> contains_point area (rcenter restore)
                   then placeSmart c area (plainResize c
                          (adjustedSize w c (rwidth area, c_div (wheight w c * 2) 3) SizemodeFixedW) mode w)
                   else Some (setGeometry c (mk_rect (rx1 area, ry1 restore)
                          (adjustedSize w c (rwidth area, rheight restore) SizemodeFixedW)) mode w)
              else let r = mk_rect (rx1 area, wy w c) (rwidth area, wheight w c);
                       r = setTopLeft (ruled_corner w c r) r
                   in Some (setGeometry c (with_adjusted_size w c SizemodeFixedW r) mode w));
        Some (gcall (SetNetState c [NetMaxHoriz]) w)
      })"

text \<open>The directions that are restored come from \<open>geom_restore\<close>; with nothing to restore the window
  gets two thirds of the area and a place.\<close>

definition restored_rect :: "gworld \<Rightarrow> win \<Rightarrow> MaximizeMode \<Rightarrow> rect" where
  "restored_rect w c old =
     (let back = geom_restore (geos w c); r = geometry w c;
          r = (if maxVert old then setBottom (ry2 back) (setTop (ry1 back) r) else r)
      in if maxHoriz old then setRight (rx2 back) (setLeft (rx1 back) r) else r)"

definition find_restore :: "win \<Rightarrow> rect \<Rightarrow> gworld \<Rightarrow> (rect \<times> gworld) option" where
  "find_restore c area w =
     (let back = geom_restore (geos w c);
          s = (if rwidth back > 0 then rwidth back else c_div (rwidth area * 2) 3,
               if rheight back > 0 then rheight back else c_div (rheight area * 2) 3)
      in do {
        w \<leftarrow> placeSmart c area (plainResize c (adjustedSize w c s SizemodeAny) NormalGeometrySet w);
        let r = geometry w c;
        let r = (if rwidth back > 0 then moveLeft (rx1 back) r else r);
        let r = (if rheight back > 0 then moveTop (ry1 back) r else r);
        Some (r, upd_geo c (\<lambda>g. g\<lparr>geom_restore := r\<rparr>) w)
      })"

definition maximize_restore ::
    "(win \<Rightarrow> rect \<Rightarrow> gworld \<Rightarrow> gworld option) \<Rightarrow> win \<Rightarrow> MaximizeMode \<Rightarrow> rect \<Rightarrow> gworld \<Rightarrow> gworld option" where
  "maximize_restore pl c old area w =
     (let mode = geom_mode w c; r = restored_rect w c old
      in do {
        (r, w) \<leftarrow> (if rect_isValid r then Some (r, w) else find_restore c area w);
        let r = (if hasAspect (hints (geos w c)) then with_adjusted_size w c SizemodeAny r else r);
        let w = setGeometry c r mode w;
        w \<leftarrow> (if contains_point area (rcenter (geom_restore (geos w c))) then Some w else pl c area w);
        Some (upd_geo c (\<lambda>g. g\<lparr>quick_tile_mode := QuickTileNone\<rparr>) (gcall (SetNetState c []) w))
      })"

text \<open>A window that cannot fill the area is put in its middle, or at the edges it nearly reaches.\<close>

definition close_height :: "gworld \<Rightarrow> win \<Rightarrow> rect \<Rightarrow> rect \<Rightarrow> rect \<Rightarrow> rect" where
  "close_height w c area screen r =
     (let over = rheight r > rheight area; pos = titlebarPosition w c;
          at_top = (over \<and> pos = PositionTop \<or> ry1 screen = ry1 area);
          try_bottom = (if at_top then pos = PositionBottom else True);
          r' = (if at_top then setTop (ry1 area) r else r)
      in if try_bottom \<and> (over \<or> ry2 screen = ry2 area) then setBottom (ry2 area) r' else r')"

definition close_width :: "gworld \<Rightarrow> win \<Rightarrow> rect \<Rightarrow> rect \<Rightarrow> rect \<Rightarrow> rect" where
  "close_width w c area screen r =
     (let over = rwidth r > rwidth area; pos = titlebarPosition w c;
          at_right = (over \<and> pos = PositionRight \<or> rx2 screen = rx2 area);
          try_left = (if at_right then pos = PositionLeft else True);
          r' = (if at_right then setRight (rx2 area) r else r)
      in if try_left \<and> (over \<or> rx1 screen = rx1 area) then setLeft (rx1 area) r' else r')"

definition full_rect :: "gworld \<Rightarrow> win \<Rightarrow> rect \<Rightarrow> rect" where
  "full_rect w c area =
     (let r = with_adjusted_size w c SizemodeMax (setTopLeft (ruled_corner w c area) area)
      in if rect_size r \<noteq> rect_size area
         then let r = (if electric_maximizing (geos w c) \<and> rwidth r < rwidth area
                       then let r = moveLeft (max (rx1 area) (fst (cursor_pos w) - c_div (rwidth r) 2)) r
                            in moveRight (min (rx2 area) (rx2 r)) r
                       else let r = moveCenter (rcenter area) r;
                                tall = rheight r > c_div (97 * rheight area) 100;
                                wide = rwidth r > c_div (97 * rwidth area) 100;
                                screen = clientAreaAt w ScreenArea (rcenter area) (m_desktop (cl w c));
                                r = (if tall then close_height w c area screen r else r)
                            in if wide then close_width w c area screen r else r)
              in moveTopLeft (ruled_corner w c r) r
         else r)"

definition maximize_full :: "win \<Rightarrow> rect \<Rightarrow> gworld \<Rightarrow> gworld" where
  "maximize_full c area w =
     (let r = full_rect w c area;
          w = setGeometry c r (geom_mode w c) w;
          tile = (if electricBorderMaximize w \<and> ry1 r = ry1 area then QuickTileMaximize else QuickTileNone)
      in gcall (SetNetState c [NetMaxVert, NetMaxHoriz]) (upd_geo c (\<lambda>g. g\<lparr>quick_tile_mode := tile\<rparr>) w))"

section \<open>The change\<close>

definition in_tab_group :: "win \<Rightarrow> gcall list \<Rightarrow> gworld \<Rightarrow> gworld" where
  "in_tab_group c es w = (if tab_group (cl w c) \<noteq> None then fold gcall es w else w)"

definition apply_mode :: "(win \<Rightarrow> rect \<Rightarrow> gworld \<Rightarrow> gworld option) \<Rightarrow> win \<Rightarrow> MaximizeMode \<Rightarrow> rect \<Rightarrow> gworld \<Rightarrow> gworld option" where
  "apply_mode pl c old area w =
     (case max_mode (geos w c) of
        Maximize True False \<Rightarrow> maximize_vertically c old area w
      | Maximize False True \<Rightarrow> maximize_horizontally c old area w
      | Maximize False False \<Rightarrow> maximize_restore pl c old area w
      | Maximize True True \<Rightarrow> Some (maximize_full c area w))"

text \<open>
  \<open>again\<close> is \<open>changeMaximize\<close> itself, called when the direction changes, and \<open>pl\<close> is the placement
  of a window that does not come back to the same screen.
\<close>

definition change_maximize_once ::
    "change_maximize \<Rightarrow> (win \<Rightarrow> rect \<Rightarrow> gworld \<Rightarrow> gworld option) \<Rightarrow> change_maximize" where
  "change_maximize_once again pl c vertical horizontal adjust w =
     (if \<not> isResizable w c \<or> isToolbar w c then Some w
      else
        let area = maximize_area w c; old = max_mode (geos w c);
            m = new_mode w c vertical horizontal adjust;
            w = upd_geo c (\<lambda>g. g\<lparr>max_mode := m\<rparr>) w
        in if \<not> adjust \<and> m = old then Some w
           else do {
             let w = in_tab_group c [TabGroupBlock c True] (blockGeometryUpdates c w);
             w \<leftarrow> (if old = MaximizeVertical \<and> m = MaximizeHorizontal \<or> old = MaximizeHorizontal \<and> m = MaximizeVertical
                   then again c False False False w else Some w);
             let w = save_geometry c old adjust w;
             let m = max_mode (geos w c);
             w \<leftarrow> (if decorated (geos w c) \<and> \<not> (borderlessMaximizedWindows w \<and> m = MaximizeFull)
                   then tell_decoration c old m w else Some w);
             w \<leftarrow> (if borderlessMaximizedWindows w
                   then setNoBorder recursion_guard c (wr_checkNoBorder (w_rules (geos w c))
                          (app_noborder (geos w c) \<or> motif_no_border (geos w c) \<or> m = MaximizeFull) False) w
                   else Some w);
             let w = leave_tile c old area w;
             w \<leftarrow> apply_mode pl c old area w;
             let w = in_tab_group c [TabGroupBlock c False, TabGroupStates c [''Maximized'', ''QuickTile'']] w;
             let w = gcall (UpdateAllowedActions c) w;
             let w = gcall (UpdateRules c [MaximizeVert, MaximizeHoriz, Rules.RuleType.Position, Size]) w;
             Some (unblockGeometryUpdates c (gcall (QuickTileModeChanged c) w))
           })"

text \<open>The inner call changes no direction by itself and does not get to a third one.\<close>

definition changeMaximize :: "(win \<Rightarrow> rect \<Rightarrow> gworld \<Rightarrow> gworld option) \<Rightarrow> change_maximize" where
  "changeMaximize pl = change_maximize_once (change_maximize_once (\<lambda>c v h a w. None) pl) pl"

definition setMaximize :: "change_maximize \<Rightarrow> win \<Rightarrow> bool \<Rightarrow> bool \<Rightarrow> gworld \<Rightarrow> gworld option" where
  "setMaximize cm c vertically horizontally w =
     (let old = max_mode (geos w c)
      in do {
        w \<leftarrow> cm c (if maxVert old then \<not> vertically else vertically)
                (if maxHoriz old then \<not> horizontally else horizontally) False w;
        let m = max_mode (geos w c);
        Some (if old \<noteq> m
              then gcall (MaximizedStateChanged c (Maximize vertically horizontally)) (gcall (MaximizedStateChanged c m) w)
              else w)
      })"

definition maximize :: "change_maximize \<Rightarrow> win \<Rightarrow> MaximizeMode \<Rightarrow> gworld \<Rightarrow> gworld option" where
  "maximize cm c m w = setMaximize cm c (maxVert m) (maxHoriz m) w"

end
