(* ===== verification/Tiling.thy ===== *)
theory Tiling
  imports Maximizing Stacking
begin

text \<open>
  Quick tiling, sending a window to another screen (\<^verbatim>\<open>geometry.cpp\<close>) and packing windows
  (\<^verbatim>\<open>placement.cpp\<close>).  The argument \<open>cm\<close> is \<open>changeMaximize\<close>.
\<close>

section \<open>Quick tiling\<close>

definition set_tile :: "win \<Rightarrow> QuickTileMode \<Rightarrow> gworld \<Rightarrow> gworld" where
  "set_tile c m w = upd_geo c (\<lambda>g. g\<lparr>quick_tile_mode := m\<rparr>) w"

definition set_restore :: "win \<Rightarrow> rect \<Rightarrow> gworld \<Rightarrow> gworld" where
  "set_restore c g w = upd_geo c (\<lambda>r. r\<lparr>geom_restore := g\<rparr>) w"

text \<open>The scope of a \<open>TabSynchronizer\<close>.\<close>

definition synchronized :: "win \<Rightarrow> string list \<Rightarrow> (gworld \<Rightarrow> gworld option) \<Rightarrow> gworld \<Rightarrow> gworld option" where
  "synchronized c states f w =
     do {
       w \<leftarrow> f (in_tab_group c [TabGroupBlock c True] w);
       Some (in_tab_group c [TabGroupBlock c False, TabGroupStates c states] w)
     }"

definition tile_maximize :: "change_maximize \<Rightarrow> win \<Rightarrow> gworld \<Rightarrow> gworld option" where
  "tile_maximize cm c w =
     synchronized c [''QuickTile'', ''Geometry'', ''Maximized''] (\<lambda>w.
       let w = set_tile c QuickTileNone w
       in do {
         w \<leftarrow> (if max_mode (geos w c) = MaximizeFull then setMaximize cm c False False w
               else let saved = geom_restore (geos w c)
                    in do {
                      w \<leftarrow> setMaximize cm c True True w;
                      let area = clientAreaOf w MaximizeArea c;
                      let w = (if wy w c \<noteq> ry1 area
                               then setGeometry c (moveTop (ry1 area) (geometry w c)) NormalGeometrySet w else w);
                      Some (set_restore c saved (set_tile c QuickTileMaximize w))
                    });
         Some (gcall (QuickTileModeChanged c) w)
       }) w"

definition tile_from_maximized :: "change_maximize \<Rightarrow> win \<Rightarrow> QuickTileMode \<Rightarrow> bool \<Rightarrow> gworld \<Rightarrow> gworld option" where
  "tile_from_maximized cm c mode keyboard w =
     synchronized c [''QuickTile'', ''Geometry'', ''Maximized''] (\<lambda>w.
       do {
         w \<leftarrow> setMaximize cm c False False w;
         let w = (if mode \<noteq> QuickTileNone
                  then let w = set_tile c QuickTileNone w;
                           p = (if keyboard then rcenter (geometry w c) else cursor_pos w)
                       in setGeometry c (electricBorderMaximizeGeometry w c p (m_desktop (cl w c))) (geom_mode w c) w
                  else w);
         Some (gcall (QuickTileModeChanged c) (set_tile c mode w))
       }) w"

text \<open>The screen beside the present one, on the side of the tile.\<close>

definition next_screen :: "gworld \<Rightarrow> int \<Rightarrow> QuickTileMode \<Rightarrow> int" where
  "next_screen w cur mode =
     fold (\<lambda>i nxt.
       let s = screens_geometry w i; k = screens_geometry w cur; n = screens_geometry w nxt;
           x = fst (rcenter s)
       in if i = cur then nxt
          else if ry2 s \<le> ry1 k \<or> ry1 s \<ge> ry2 k then nxt
          else if tLeft mode \<and> \<not> tRight mode
          then if x \<ge> fst (rcenter k) \<or> cur \<noteq> nxt \<and> x \<le> fst (rcenter n) then nxt else i
          else if tRight mode \<and> \<not> tLeft mode
          then if x \<le> fst (rcenter k) \<or> cur \<noteq> nxt \<and> x \<ge> fst (rcenter n) then nxt else i
          else i) (screen_list w) cur"

text \<open>Tiling to the side the window is tiled to: to the next screen and its other side, or untile.\<close>

definition tile_again :: "win \<Rightarrow> QuickTileMode \<Rightarrow> point \<Rightarrow> gworld \<Rightarrow> QuickTileMode \<times> point \<times> gworld" where
  "tile_again c mode p w =
     (let cur = t_screen (cl w c); nxt = next_screen w cur mode
      in if nxt = cur then (QuickTileNone, p, setElectricBorderMode c QuickTileNone w)
         else let k = screens_geometry w cur; n = screens_geometry w nxt;
                  w = setGeometry c (translated (sub_point (topLeft n) (topLeft k)) (geom_restore (geos w c)))
                        NormalGeometrySet w;
                  mode = Tile (\<not> tLeft mode) (\<not> tRight mode) False False
              in (mode, rcenter n, setElectricBorderMode c mode w))"

definition tile_window :: "win \<Rightarrow> QuickTileMode \<Rightarrow> bool \<Rightarrow> gworld \<Rightarrow> QuickTileMode \<times> gworld" where
  "tile_window c mode keyboard w =
     (let p = (if keyboard then rcenter (geometry w c) else cursor_pos w);
          (mode, p, w) =
            (if quick_tile_mode (geos w c) = mode then tile_again c mode p w
             else if quick_tile_mode (geos w c) = QuickTileNone then (mode, p, set_restore c (geometry w c) w)
             else (mode, p, w));
          w = (if mode \<noteq> QuickTileNone
               then let w = set_tile c QuickTileNone w
                    in setGeometry c (electricBorderMaximizeGeometry w c p (m_desktop (cl w c))) (geom_mode w c) w
               else w)
      in (mode, set_tile c mode w))"

definition untile :: "change_maximize \<Rightarrow> win \<Rightarrow> gworld \<Rightarrow> gworld option" where
  "untile cm c w =
     (let w = set_tile c QuickTileNone w;
          w = (if \<not> rect_isValid (geom_restore (geos w c)) then set_restore c (geometry w c) w else w);
          w = setGeometry c (geom_restore (geos w c)) (geom_mode w c) w
      in checkWorkspacePosition cm c no_rect (- 2) no_rect w)"

definition setQuickTileMode :: "change_maximize \<Rightarrow> win \<Rightarrow> QuickTileMode \<Rightarrow> bool \<Rightarrow> gworld \<Rightarrow> gworld option" where
  "setQuickTileMode cm c mode keyboard w =
     (if \<not> isResizable w c \<and> max_mode (geos w c) \<noteq> MaximizeFull then Some w
      else let w = blockGeometryUpdates c (gcall (UpdateFocusMousePosition (cursor_pos w)) w)
      in do {
        w \<leftarrow> (if mode = QuickTileMaximize then tile_maximize cm c w
              else let mode = sane_tile mode; w = setElectricBorderMode c mode w
                   in if max_mode (geos w c) \<noteq> MaximizeRestore then tile_from_maximized cm c mode keyboard w
                      else do {
                        (mode, w) \<leftarrow> (if mode \<noteq> QuickTileNone
                          then do {
                            let w = in_tab_group c [TabGroupBlock c True] w;
                            let (mode, w) = tile_window c mode keyboard w;
                            Some (mode, in_tab_group c
                              [TabGroupBlock c False, TabGroupStates c [''QuickTile'', ''Geometry'']] w)
                          }
                          else Some (mode, w));
                        w \<leftarrow> (if mode = QuickTileNone
                              then synchronized c [''QuickTile'', ''Geometry''] (untile cm c) w else Some w);
                        Some (gcall (QuickTileModeChanged c) w)
                      });
        Some (unblockGeometryUpdates c w)
      })"

text \<open>The shortcuts of the workspace, for the active window.\<close>

definition slotWindowQuickTile :: "change_maximize \<Rightarrow> QuickTileMode \<Rightarrow> gworld \<Rightarrow> gworld option" where
  "slotWindowQuickTile cm mode w =
     (case active_client w of None \<Rightarrow> Some w | Some c \<Rightarrow> setQuickTileMode cm c mode True w)"

section \<open>Another screen\<close>

text \<open>The same place relative to the middle of the area.\<close>

definition scaled_center :: "rect \<Rightarrow> rect \<Rightarrow> point \<Rightarrow> point" where
  "scaled_center old new p =
     (let d = sub_point p (rcenter old)
      in add_point (c_div (fst d * rwidth new) (rwidth old), c_div (snd d * rheight new) (rheight old)) (rcenter new))"

definition move_to_screen :: "change_maximize \<Rightarrow> win \<Rightarrow> int \<Rightarrow> gworld \<Rightarrow> gworld option" where
  "move_to_screen cm c new w =
     (let maxMode = max_mode (geos w c); qtMode = quick_tile_mode (geos w c)
      in do {
        w \<leftarrow> (if maxMode \<noteq> MaximizeRestore then maximize cm c MaximizeRestore w else Some w);
        w \<leftarrow> (if qtMode \<noteq> QuickTileNone then setQuickTileMode cm c QuickTileNone True w else Some w);
        let oldArea = clientAreaOf w MaximizeArea c;
        let area = clientArea w MaximizeArea new (m_desktop (cl w c));
        let w = (if qtMode \<noteq> QuickTileNone then keepInArea c oldArea False w else w);
        let oldGeom = geometry w c;
        let w = setGeometry c (moveCenter (scaled_center oldArea area (rcenter oldGeom)) oldGeom) NormalGeometrySet w;
        let w = (if contains_rect oldArea oldGeom then keepInArea c area False w else w);
        let w = set_restore c (geometry w c) w;
        w \<leftarrow> checkWorkspacePosition cm c oldGeom (- 2) no_rect w;
        let w = set_restore c (geometry w c) w;
        w \<leftarrow> (if maxMode \<noteq> MaximizeRestore then maximize cm c maxMode w else Some w);
        (if qtMode \<noteq> QuickTileNone \<and> qtMode \<noteq> quick_tile_mode (geos w c)
         then setQuickTileMode cm c qtMode True w else Some w)
      })"

text \<open>Transients follow their main window; the first argument bounds the depth of that tree.\<close>

primrec sendToScreen :: "nat \<Rightarrow> change_maximize \<Rightarrow> win \<Rightarrow> int \<Rightarrow> gworld \<Rightarrow> gworld option" where
  "sendToScreen 0 cm c s w = None"
| "sendToScreen (Suc n) cm c s w =
     (let s = wr_checkScreen (screens_count w) (w_rules (geos w c)) s False;
          w = (if m_active (cl w c)
               then fold (\<lambda>cc w. if is_fullscreen (cl w cc) \<and> t_screen (cl w cc) = s then gcall (UpdateLayer cc) w else w)
                      (all_clients w) (screens_setCurrent s w)
               else w)
      in if t_screen (cl w c) = s then Some w
         else do {
           w \<leftarrow> move_to_screen cm c s (blockGeometryUpdates c w);
           w \<leftarrow> foldM (\<lambda>t. sendToScreen n cm t s) (ensureStackingOrderInList (stacking_order w) (m_transients (cl w c))) w;
           Some (unblockGeometryUpdates c w)
         })"

section \<open>Packing\<close>

text \<open>Moving against the next window or the edge of the area, in each of the four directions.\<close>

definition overlap_y :: "rect \<Rightarrow> rect \<Rightarrow> bool" where
  "overlap_y a b = (\<not> (ry1 a > ry2 b \<or> ry2 a < ry1 b))"

definition overlap_x :: "rect \<Rightarrow> rect \<Rightarrow> bool" where
  "overlap_x a b = (\<not> (rx1 a > rx2 b \<or> rx2 a < rx1 b))"

definition pack_others :: "gworld \<Rightarrow> win \<Rightarrow> win list" where
  "pack_others w c = filter (\<lambda>l. \<not> isIrrelevant w l c (desktop_of w c)) (all_clients w)"

definition packPositionLeft :: "gworld \<Rightarrow> win \<Rightarrow> int \<Rightarrow> bool \<Rightarrow> int" where
  "packPositionLeft w c oldx left_edge =
     (let g = geometry w c; newx = rx1 (clientAreaOf w MaximizeArea c);
          newx = (if oldx \<le> newx
                  then rx1 (clientAreaAt w MaximizeArea (rx1 g - 1, snd (rcenter g)) (m_desktop (cl w c))) else newx);
          rgt = newx - fst (clientPos w c);
          newx = (if titlebarPosition w c \<noteq> PositionLeft \<and> intersecting w (moveRight rgt g) < 2 then rgt else newx)
      in if oldx \<le> newx then oldx
         else fold (\<lambda>l newx.
           let x = (if left_edge then rx2 (geometry w l) + 1 else rx1 (geometry w l) - 1)
           in if x > newx \<and> x < oldx \<and> overlap_y g (geometry w l) then x else newx) (pack_others w c) newx)"

definition packPositionRight :: "gworld \<Rightarrow> win \<Rightarrow> int \<Rightarrow> bool \<Rightarrow> int" where
  "packPositionRight w c oldx right_edge =
     (let g = geometry w c; newx = rx2 (clientAreaOf w MaximizeArea c);
          newx = (if oldx \<ge> newx
                  then rx2 (clientAreaAt w MaximizeArea (rx2 g + 1, snd (rcenter g)) (m_desktop (cl w c))) else newx);
          rgt = newx + wwidth w c - (fst (client_size (geos w c)) + fst (clientPos w c));
          newx = (if titlebarPosition w c \<noteq> PositionRight \<and> intersecting w (moveRight rgt g) < 2 then rgt else newx)
      in if oldx \<ge> newx then oldx
         else fold (\<lambda>l newx.
           let x = (if right_edge then rx1 (geometry w l) - 1 else rx2 (geometry w l) + 1)
           in if x < newx \<and> x > oldx \<and> overlap_y g (geometry w l) then x else newx) (pack_others w c) newx)"

definition packPositionUp :: "gworld \<Rightarrow> win \<Rightarrow> int \<Rightarrow> bool \<Rightarrow> int" where
  "packPositionUp w c oldy top_edge =
     (let g = geometry w c; newy = ry1 (clientAreaOf w MaximizeArea c);
          newy = (if oldy \<le> newy
                  then ry1 (clientAreaAt w MaximizeArea (fst (rcenter g), ry1 g - 1) (m_desktop (cl w c))) else newy);
          top = newy - snd (clientPos w c);
          newy = (if titlebarPosition w c \<noteq> PositionTop \<and> intersecting w (moveTop top g) < 2 then top else newy)
      in if oldy \<le> newy then oldy
         else fold (\<lambda>l newy.
           let y = (if top_edge then ry2 (geometry w l) + 1 else ry1 (geometry w l) - 1)
           in if y > newy \<and> y < oldy \<and> overlap_x g (geometry w l) then y else newy) (pack_others w c) newy)"

definition packPositionDown :: "gworld \<Rightarrow> win \<Rightarrow> int \<Rightarrow> bool \<Rightarrow> int" where
  "packPositionDown w c oldy bottom_edge =
     (let g = geometry w c; newy = ry2 (clientAreaOf w MaximizeArea c);
          newy = (if oldy \<ge> newy
                  then ry2 (clientAreaAt w MaximizeArea (fst (rcenter g), ry2 g + 1) (m_desktop (cl w c))) else newy);
          btm = newy + wheight w c - (snd (client_size (geos w c)) + snd (clientPos w c));
          newy = (if titlebarPosition w c \<noteq> PositionBottom \<and> intersecting w (moveBottom btm g) < 2 then btm else newy)
      in if oldy \<ge> newy then oldy
         else fold (\<lambda>l newy.
           let y = (if bottom_edge then ry1 (geometry w l) - 1 else ry2 (geometry w l) + 1)
           in if y < newy \<and> y > oldy \<and> overlap_x g (geometry w l) then y else newy) (pack_others w c) newy)"

definition packTo :: "nat \<Rightarrow> change_maximize \<Rightarrow> win \<Rightarrow> point \<Rightarrow> gworld \<Rightarrow> gworld option" where
  "packTo n cm c p w =
     (let w = gcall (UpdateFocusMousePosition (cursor_pos w)) w; oldScreen = t_screen (cl w c);
          w = move c p NormalGeometrySet w
      in if t_screen (cl w c) \<noteq> oldScreen
         then do {
           w \<leftarrow> sendToScreen n cm c (t_screen (cl w c)) w;
           if max_mode (geos w c) \<noteq> MaximizeRestore then checkWorkspacePosition cm c no_rect (- 2) no_rect w else Some w
         }
         else Some w)"

definition pack_active :: "nat \<Rightarrow> change_maximize \<Rightarrow> (gworld \<Rightarrow> win \<Rightarrow> point) \<Rightarrow> gworld \<Rightarrow> gworld option" where
  "pack_active n cm f w =
     (case active_client w of
        None \<Rightarrow> Some w
      | Some c \<Rightarrow> if isMovable w c then packTo n cm c (f w c) w else Some w)"

definition slotWindowPackLeft :: "nat \<Rightarrow> change_maximize \<Rightarrow> gworld \<Rightarrow> gworld option" where
  "slotWindowPackLeft n cm = pack_active n cm (\<lambda>w c. (packPositionLeft w c (wx w c) True, wy w c))"

definition slotWindowPackRight :: "nat \<Rightarrow> change_maximize \<Rightarrow> gworld \<Rightarrow> gworld option" where
  "slotWindowPackRight n cm = pack_active n cm (\<lambda>w c.
     (packPositionRight w c (rx2 (geometry w c)) True - wwidth w c + 1, wy w c))"

definition slotWindowPackUp :: "nat \<Rightarrow> change_maximize \<Rightarrow> gworld \<Rightarrow> gworld option" where
  "slotWindowPackUp n cm = pack_active n cm (\<lambda>w c. (wx w c, packPositionUp w c (wy w c) True))"

definition slotWindowPackDown :: "nat \<Rightarrow> change_maximize \<Rightarrow> gworld \<Rightarrow> gworld option" where
  "slotWindowPackDown n cm = pack_active n cm (\<lambda>w c.
     (wx w c, packPositionDown w c (ry2 (geometry w c)) True - wheight w c + 1))"

definition focus_and_set :: "win \<Rightarrow> rect \<Rightarrow> gworld \<Rightarrow> gworld" where
  "focus_and_set c g w = setGeometry c g NormalGeometrySet (gcall (UpdateFocusMousePosition (cursor_pos w)) w)"

definition growHorizontal :: "win \<Rightarrow> gworld \<Rightarrow> gworld" where
  "growHorizontal c w =
     (if \<not> isResizable w c \<or> isShade w c then w
      else let g = setRight (packPositionRight w c (rx2 (geometry w c)) True) (geometry w c);
               adj = adjustedSize w c (rect_size g) SizemodeFixedW; inc = fst (resizeIncrements (hints (geos w c)));
               g = (if wsize w c = adj \<and> rect_size g \<noteq> adj \<and> inc > 1
                    then let newright = packPositionRight w c (rx2 g + inc - 1) True
                         in if rx2 (clientAreaAt w MovementArea (c_div (wx w c + newright) 2, snd (rcenter (geometry w c)))
                                 (m_desktop (cl w c))) \<ge> newright
                            then setRight newright g else g
                    else g);
               g = with_adjusted_size w c SizemodeFixedW g;
               g = with_adjusted_size w c SizemodeFixedH g
           in focus_and_set c g w)"

definition shrinkHorizontal :: "win \<Rightarrow> gworld \<Rightarrow> gworld" where
  "shrinkHorizontal c w =
     (if \<not> isResizable w c \<or> isShade w c then w
      else let g = setRight (packPositionLeft w c (rx2 (geometry w c)) False) (geometry w c)
           in if rwidth g \<le> 1 then w
              else let g = with_adjusted_size w c SizemodeFixedW g
                   in if rwidth g > 20 then focus_and_set c g w else w)"

definition growVertical :: "win \<Rightarrow> gworld \<Rightarrow> gworld" where
  "growVertical c w =
     (if \<not> isResizable w c \<or> isShade w c then w
      else let g = setBottom (packPositionDown w c (ry2 (geometry w c)) True) (geometry w c);
               adj = adjustedSize w c (rect_size g) SizemodeFixedH; inc = snd (resizeIncrements (hints (geos w c)));
               g = (if wsize w c = adj \<and> rect_size g \<noteq> adj \<and> inc > 1
                    then let newbottom = packPositionDown w c (ry2 g + inc - 1) True
                         in if ry2 (clientAreaAt w MovementArea (fst (rcenter (geometry w c)), c_div (wy w c + newbottom) 2)
                                 (m_desktop (cl w c))) \<ge> newbottom
                            then setBottom newbottom g else g
                    else g)
           in focus_and_set c (with_adjusted_size w c SizemodeFixedH g) w)"

definition shrinkVertical :: "win \<Rightarrow> gworld \<Rightarrow> gworld" where
  "shrinkVertical c w =
     (if \<not> isResizable w c \<or> isShade w c then w
      else let g = setBottom (packPositionUp w c (ry2 (geometry w c)) False) (geometry w c)
           in if rheight g \<le> 1 then w
              else let g = with_adjusted_size w c SizemodeFixedH g
                   in if rheight g > 20 then focus_and_set c g w else w)"

definition for_active :: "(win \<Rightarrow> gworld \<Rightarrow> gworld) \<Rightarrow> gworld \<Rightarrow> gworld" where
  "for_active f w = (case active_client w of None \<Rightarrow> w | Some c \<Rightarrow> f c w)"

definition slotWindowGrowHorizontal :: "gworld \<Rightarrow> gworld" where
  "slotWindowGrowHorizontal = for_active growHorizontal"

definition slotWindowShrinkHorizontal :: "gworld \<Rightarrow> gworld" where
  "slotWindowShrinkHorizontal = for_active shrinkHorizontal"

definition slotWindowGrowVertical :: "gworld \<Rightarrow> gworld" where
  "slotWindowGrowVertical = for_active growVertical"

definition slotWindowShrinkVertical :: "gworld \<Rightarrow> gworld" where
  "slotWindowShrinkVertical = for_active shrinkVertical"

end
