(* ===== verification/FullScreen.thy ===== *)
theory FullScreen
  imports Tiling
begin

text \<open>
  Full screen windows, requests of clients to be moved and resized, and the end of an interactive
  move (\<^verbatim>\<open>geometry.cpp\<close>).  \<open>cm\<close> is \<open>changeMaximize\<close>.
\<close>

section \<open>Full screen\<close>

definition isFullScreenable :: "gworld \<Rightarrow> win \<Rightarrow> bool \<Rightarrow> bool" where
  "isFullScreenable w c as_hack =
     (let rs = w_rules (geos w c); area = rect_size (clientAreaOf w FullScreenArea c)
      in if \<not> wr_checkFullScreen rs True False then False
         else if as_hack then isNormalWindow w c
         else if wr_checkStrictGeometry rs True \<and> sizeForClientSize w c area SizemodeAny True \<noteq> area then False
         else \<not> isSpecialWindow w c)"

definition is_fullscreen_hack :: "gworld \<Rightarrow> win \<Rightarrow> bool" where
  "is_fullscreen_hack w c = (is_fullscreen (cl w c) \<and> fullscreen_hack (geos w c))"

definition userCanSetFullScreen :: "gworld \<Rightarrow> win \<Rightarrow> bool" where
  "userCanSetFullScreen w c =
     (if is_fullscreen_hack w c then False
      else if \<not> isFullScreenable w c False then False
      else isNormalWindow w c \<or> isDialog w c)"

definition set_fullscreen_mode :: "win \<Rightarrow> bool \<Rightarrow> bool \<Rightarrow> gworld \<Rightarrow> gworld" where
  "set_fullscreen_mode c full hack w =
     upd_geo c (\<lambda>g. g\<lparr>fullscreen_hack := hack\<rparr>) (upd_cl c (\<lambda>r. r\<lparr>is_fullscreen := full\<rparr>) w)"

definition fullscreenMonitorsArea :: "gworld \<Rightarrow> int \<times> int \<times> int \<times> int \<Rightarrow> rect" where
  "fullscreenMonitorsArea w t =
     (let (top, bottom, left, right) = t
      in united (screens_geometry w top) (united (screens_geometry w bottom)
           (united (screens_geometry w left) (screens_geometry w right))))"

text \<open>The geometry of a window that has become full screen, and of one that no longer is.\<close>

definition enter_fullscreen :: "win \<Rightarrow> gworld \<Rightarrow> gworld" where
  "enter_fullscreen c w =
     setGeometry c (case fullscreen_monitors (geos w c) of
         Some t \<Rightarrow> fullscreenMonitorsArea w t | None \<Rightarrow> clientAreaOf w FullScreenArea c) NormalGeometrySet w"

definition leave_fullscreen :: "nat \<Rightarrow> change_maximize \<Rightarrow> win \<Rightarrow> gworld \<Rightarrow> gworld option" where
  "leave_fullscreen n cm c w =
     (let g = geom_fs_restore (geos w c); current = t_screen (cl w c)
      in if \<not> null_rect g
         then let w = setGeometry c (mk_rect (topLeft g) (adjustedSize w c (rect_size g) SizemodeAny)) NormalGeometrySet w
              in if current \<noteq> t_screen (cl w c) then sendToScreen n cm c current w else Some w
         else Some (setGeometry c (clientAreaOf w MaximizeArea c) NormalGeometrySet w))"

definition setFullScreen :: "nat \<Rightarrow> change_maximize \<Rightarrow> win \<Rightarrow> bool \<Rightarrow> bool \<Rightarrow> gworld \<Rightarrow> gworld option" where
  "setFullScreen n cm c set_to user w =
     (let was = is_fullscreen (cl w c)
      in if \<not> was \<and> \<not> set_to then Some w
         else if is_fullscreen_hack w c then Some w
         else if user \<and> \<not> userCanSetFullScreen w c then Some w
         else let set_to = wr_checkFullScreen (w_rules (geos w c)) (set_to \<and> \<not> isSpecialWindow w c) False;
                  w = gcall (SetShade c ShadeNone) w;
                  w = (if was then gcall (UpdateFocusMousePosition (cursor_pos w)) w
                       else upd_geo c (\<lambda>g. g\<lparr>geom_fs_restore := geometry w c\<rparr>) w);
                  w = set_fullscreen_mode c set_to False w
              in if was = set_to then Some w
                 else let w = (if set_to then gcall (RaiseClient c) (gcall (Untab c) w) else w);
                          w = blockGeometryUpdates c (gcall (BlockStackingUpdates True) w);
                          w = gcall (SetNetState c (if set_to then [NetFullScreen] else [])) (gcall (UpdateClientLayer c) w)
                      in do {
                        w \<leftarrow> updateDecoration cm c False False w;
                        w \<leftarrow> (if set_to then Some (enter_fullscreen c w) else leave_fullscreen n cm c w);
                        let w = gcall (UpdateRules c [Fullscreen, Rules.RuleType.Position, Size]) w;
                        let w = gcall (FullScreenChanged c) (gcall (FullScreenSet c set_to user) w);
                        Some (gcall (BlockStackingUpdates False) (unblockGeometryUpdates c w))
                      })"

definition updateFullscreenMonitors :: "win \<Rightarrow> int \<times> int \<times> int \<times> int \<Rightarrow> gworld \<Rightarrow> gworld" where
  "updateFullscreenMonitors c t w =
     (let (top, bottom, left, right) = t; n = screens_count w
      in if top \<ge> n \<or> bottom \<ge> n \<or> left \<ge> n \<or> right \<ge> n then w
         else let w = gcall (SetFullscreenMonitors c t) (upd_geo c (\<lambda>g. g\<lparr>fullscreen_monitors := Some t\<rparr>) w)
              in if is_fullscreen (cl w c) then setGeometry c (fullscreenMonitorsArea w t) NormalGeometrySet w else w)"

text \<open>0: none, 1: the size of a screen, 2: the size of the whole display.\<close>

definition checkFullScreenHack :: "gworld \<Rightarrow> win \<Rightarrow> rect \<Rightarrow> int" where
  "checkFullScreenHack w c g =
     (if \<not> legacyFullscreenSupport w then 0
      else if noBorder w c \<and> app_noborder (geos w c) \<and> isFullScreenable w c True
      then if rect_size g = rect_size (clientAreaAt w FullArea (rcenter g) (m_desktop (cl w c))) then 2
           else if rect_size g = rect_size (clientAreaAt w ScreenArea (rcenter g) (m_desktop (cl w c))) then 1
           else 0
      else 0)"

text \<open>The geometry of the hack: the variable \<open>geom\<close> of the inner block, which is still the null
  rectangle, is the one whose middle selects the screen.\<close>

definition fullscreen_hack_area :: "gworld \<Rightarrow> win \<Rightarrow> int \<Rightarrow> rect" where
  "fullscreen_hack_area w c type =
     (let p = rcenter no_rect; d = m_desktop (cl w c)
      in if wr_checkStrictGeometry (w_rules (geos w c)) False
         then if type = 2 then clientAreaAt w FullArea p d else clientAreaAt w ScreenArea p d
         else clientAreaAt w FullScreenArea p d)"

definition updateFullScreenHack :: "change_maximize \<Rightarrow> win \<Rightarrow> rect \<Rightarrow> gworld \<Rightarrow> gworld option" where
  "updateFullScreenHack cm c g w =
     (let type = checkFullScreenHack w c g
      in do {
        w \<leftarrow> (if \<not> is_fullscreen (cl w c) \<and> type \<noteq> 0
              then do {
                w \<leftarrow> updateDecoration cm c False False (set_fullscreen_mode c True True w);
                Some (gcall (FullScreenChanged c) (setGeometry c (fullscreen_hack_area w c type) NormalGeometrySet w))
              }
              else if is_fullscreen_hack w c \<and> type = 0
              then do {
                w \<leftarrow> updateDecoration cm c False False (set_fullscreen_mode c False False w);
                Some (gcall (FullScreenChanged c) w)
              }
              else Some w);
        Some (gcall (BlockStackingUpdates False) (gcall (UpdateClientLayer c) (gcall (BlockStackingUpdates True) w)))
      })"

section \<open>Requests of the client\<close>

text \<open>Which of the four values a request has.\<close>

record value_mask =
  CWX :: bool
  CWY :: bool
  CWWidth :: bool
  CWHeight :: bool

text \<open>A window that is maximized or tiled keeps its geometry, or the directions that are maximized;
  otherwise it loses that state.\<close>

definition leave_state :: "win \<Rightarrow> gworld \<Rightarrow> gworld" where
  "leave_state c w =
     gcall (QuickTileModeChanged c)
       (upd_geo c (\<lambda>g. g\<lparr>quick_tile_mode := QuickTileNone, max_mode := MaximizeRestore\<rparr>) w)"

definition filter_request :: "gworld \<Rightarrow> win \<Rightarrow> value_mask \<Rightarrow> (value_mask \<times> gworld) option" where
  "filter_request w c vm =
     (let g = geos w c; rs = w_rules g; m = max_mode g;
          ignore = (\<not> app_noborder g \<and> (quick_tile_mode g \<noteq> QuickTileNone \<or> m \<noteq> MaximizeRestore));
          ignore = wr_checkIgnoreGeometry rs ignore False
      in if \<not> ignore then Some (vm, leave_state c w)
         else if \<not> app_noborder g \<and> quick_tile_mode g = QuickTileNone \<and> (m = MaximizeVertical \<or> m = MaximizeHorizontal)
         then if wr_checkIgnoreGeometry rs False False then None
              else let vm = (if m = MaximizeVertical then vm\<lparr>CWY := False, CWHeight := False\<rparr> else vm);
                       vm = (if m = MaximizeHorizontal then vm\<lparr>CWX := False, CWWidth := False\<rparr> else vm)
                   in if \<not> (CWX vm \<or> CWWidth vm \<or> CWY vm \<or> CWHeight vm) then None else Some (vm, w)
         else None)"

definition client_geometry :: "gworld \<Rightarrow> win \<Rightarrow> rect" where
  "client_geometry w c = mk_rect (add_point (topLeft (geometry w c)) (clientPos w c)) (client_size (geos w c))"

definition keeps_visible :: "gworld \<Rightarrow> win \<Rightarrow> bool \<Rightarrow> bool" where
  "keeps_visible w c from_tool =
     (\<not> from_tool \<and> (\<not> isSpecialWindow w c \<or> isToolbar w c) \<and> \<not> is_fullscreen (cl w c))"

definition requested_size :: "gworld \<Rightarrow> win \<Rightarrow> value_mask \<Rightarrow> qsize \<Rightarrow> qsize" where
  "requested_size w c vm s =
     (if CWWidth vm then fst s else fst (client_size (geos w c)),
      if CWHeight vm then snd s else snd (client_size (geos w c)))"

text \<open>A request with a position, and one with a size only.  The first may be refused by a rule for
  the screen: then nothing more is done.  \<open>areas\<close> is \<open>updateClientArea\<close>.\<close>

definition requested_pos :: "gworld \<Rightarrow> win \<Rightarrow> value_mask \<Rightarrow> point \<Rightarrow> gravity \<Rightarrow> bool \<Rightarrow> point" where
  "requested_pos w c vm p g from_tool =
     (let q = calculateGravitation w c True (Some g);
          q = (if CWX vm then fst p else fst q, if CWY vm then snd p else snd q);
          q = (if q = add_point (topLeft (geometry w c)) (clientPos w c) \<and> g = NorthWestGravity \<and> \<not> from_tool
               then topLeft (geometry w c) else q)
      in wr_checkPosition (w_rules (geos w c)) q False)"

definition move_request :: "change_maximize \<Rightarrow> (gworld \<Rightarrow> gworld option) \<Rightarrow> win \<Rightarrow> value_mask \<Rightarrow> rect \<Rightarrow> gravity \<Rightarrow> bool
    \<Rightarrow> gworld \<Rightarrow> (bool \<times> gworld) option" where
  "move_request cm areas c vm r g from_tool w =
     (let p = requested_pos w c vm (topLeft r) g from_tool; n = requested_size w c vm (rect_size r);
          ns = sizeForClientSize w c n SizemodeAny False; s = screen_number w (rcenter (mk_rect p ns))
      in if s \<noteq> wr_checkScreen (screens_count w) (w_rules (geos w c)) s False then Some (False, w)
         else let orig = client_geometry w c; w = blockGeometryUpdates c w;
                  w = plainResize c ns NormalGeometrySet (move c p NormalGeometrySet w);
                  w = setGeometry c (mk_rect (calculateGravitation w c False (Some g)) (wsize w c)) NormalGeometrySet w
              in do {
                w \<leftarrow> updateFullScreenHack cm c (mk_rect p n) w;
                let area = clientAreaOf w WorkArea c;
                let w = (if keeps_visible w c from_tool \<and> contains_rect area orig then keepInArea c area False w else w);
                w \<leftarrow> (if hasStrut w c then areas w else Some w);
                Some (True, unblockGeometryUpdates c w)
              })"

definition resize_request :: "change_maximize \<Rightarrow> win \<Rightarrow> value_mask \<Rightarrow> rect \<Rightarrow> gravity \<Rightarrow> bool \<Rightarrow> gworld \<Rightarrow> gworld option" where
  "resize_request cm c vm r g from_tool w =
     (let n = requested_size w c vm (rect_size r); ns = sizeForClientSize w c n SizemodeAny False
      in if ns = wsize w c then Some w
         else let orig = client_geometry w c;
                  w = resizeWithChecks c ns (Some g) NormalGeometrySet (blockGeometryUpdates c w)
              in do {
                w \<leftarrow> updateFullScreenHack cm c (mk_rect (calculateGravitation w c True None) n) w;
                let keep = keeps_visible w c from_tool;
                let area = clientAreaOf w MovementArea c;
                let w = (if keep \<and> contains_rect area orig then keepInArea c area False w else w);
                let area = clientAreaOf w WorkArea c;
                let w = (if keep \<and> contains_rect area orig then keepInArea c area False w else w);
                Some (unblockGeometryUpdates c w)
              })"

definition configureRequest :: "change_maximize \<Rightarrow> (gworld \<Rightarrow> gworld option) \<Rightarrow> win \<Rightarrow> value_mask \<Rightarrow> rect \<Rightarrow>
    gravity option \<Rightarrow> bool \<Rightarrow> gworld \<Rightarrow> gworld option" where
  "configureRequest cm areas c vm r gravity from_tool w =
     (case filter_request w c vm of
        None \<Rightarrow> Some w
      | Some (vm, w) \<Rightarrow>
          let g = (case gravity of None \<Rightarrow> windowGravity (hints (geos w c)) | Some g \<Rightarrow> g)
          in do {
            (go_on, w) \<leftarrow> (if CWX vm \<or> CWY vm then move_request cm areas c vm r g from_tool w else Some (True, w));
            (if \<not> go_on then Some w
             else do {
               w \<leftarrow> (if (CWWidth vm \<or> CWHeight vm) \<and> \<not> (CWX vm \<or> CWY vm)
                     then resize_request cm c vm r g from_tool w else Some w);
               Some (set_restore c (geometry w c) w)
             })
          })"

text \<open>The gravity and the mask of \<open>_NET_MOVERESIZE_WINDOW\<close>: the low byte, and the bits 8 to 11.  A
  gravity that there is not has no case of its own, like the static one.\<close>

definition gravity_of :: "int \<Rightarrow> gravity option" where
  "gravity_of n =
     (let all = [NorthWestGravity, NorthGravity, NorthEastGravity, WestGravity, CenterGravity, EastGravity,
                 SouthWestGravity, SouthGravity, SouthEastGravity, StaticGravity]
      in if n = 0 then None else if n \<le> 10 then Some (all ! nat (n - 1)) else Some StaticGravity)"

definition NETMoveResizeWindow :: "change_maximize \<Rightarrow> (gworld \<Rightarrow> gworld option) \<Rightarrow> win \<Rightarrow> int \<Rightarrow> rect \<Rightarrow> gworld \<Rightarrow> gworld option" where
  "NETMoveResizeWindow cm areas c flags r w =
     configureRequest cm areas c \<lparr>CWX = bit flags 8, CWY = bit flags 9, CWWidth = bit flags 10, CWHeight = bit flags 11\<rparr>
       r (gravity_of (flags mod 256)) True w"

section \<open>The end of an interactive move or resize\<close>

definition leaveMoveResize :: "win \<Rightarrow> gworld \<Rightarrow> gworld" where
  "leaveMoveResize c w =
     (let w = (if needs_x_move (geos w c)
               then upd_geo c (\<lambda>g. g\<lparr>needs_x_move := False\<rparr>) (frame_move c (topLeft (geometry w c)) w) else w);
          w = (if \<not> isResize w c then gcall (SyntheticConfigure c) w else w);
          w = gcall (LeaveMoveResize c) (upd_geo c (\<lambda>g. g\<lparr>move_resize := False\<rparr>) w)
      in if electric_maximizing (geos w c) then gcall (Elevate c False) (gcall OutlineHide w) else w)"

definition finish_geometry :: "change_maximize \<Rightarrow> win \<Rightarrow> bool \<Rightarrow> bool \<Rightarrow> gworld \<Rightarrow> gworld option" where
  "finish_geometry cm c cancel was_resize w =
     (let new = resize_geom (geos w c); old = initial_resize_geom (geos w c); m = max_mode (geos w c)
      in if cancel then Some (setGeometry c old NormalGeometrySet w)
         else do {
           let h = (was_resize \<and> m = MaximizeHorizontal \<and> rwidth new \<noteq> rwidth old);
           let v = (was_resize \<and> m = MaximizeVertical \<and> rheight new \<noteq> rheight old);
           w \<leftarrow> (if h \<or> v then cm c v h False w else Some w);
           Some (setGeometry c new NormalGeometrySet w)
         })"

definition finish_restore :: "win \<Rightarrow> gworld \<Rightarrow> gworld" where
  "finish_restore c w =
     (let g = geometry w c; m = max_mode (geos w c); r = geom_restore (geos w c);
          r = (if \<not> maxHoriz m then setWidth (rwidth g) (setLeft (rx1 g) r) else r);
          r = (if \<not> maxVert m then setHeight (rheight g) (setTop (ry1 g) r) else r)
      in set_restore c r w)"

definition finishMoveResize :: "nat \<Rightarrow> change_maximize \<Rightarrow> win \<Rightarrow> bool \<Rightarrow> gworld \<Rightarrow> gworld option" where
  "finishMoveResize n cm c cancel w =
     (let was_resize = isResize w c
      in do {
        w \<leftarrow> finish_geometry cm c cancel was_resize (leaveMoveResize c w);
        let w = checkScreen c w;
        w \<leftarrow> (if t_screen (cl w c) \<noteq> move_resize_screen (geos w c)
              then do {
                w \<leftarrow> sendToScreen n cm c (t_screen (cl w c)) w;
                if max_mode (geos w c) \<noteq> MaximizeRestore then checkWorkspacePosition cm c no_rect (- 2) no_rect w else Some w
              }
              else Some w);
        w \<leftarrow> (if electric_maximizing (geos w c)
              then do {
                w \<leftarrow> setQuickTileMode cm c (electric_mode (geos w c)) False w;
                Some (setElectricBorderMaximizing c False w)
              }
              else Some (if \<not> cancel then finish_restore c w else w));
        Some (gcall (FinishUserMovedResized c) w)
      })"

end
