(* ===== verification/Snapping.thy ===== *)
theory Snapping
  imports Positioning Smart
begin

text \<open>
  Snapping (\<^verbatim>\<open>geometry.cpp\<close>): a window that is moved or resized with the mouse is drawn to the
  edges of the screen, to other windows and to the middle of the screen.  The factor \<open>snapAdjust\<close>
  is a function: the number of pixels a zone has after it is multiplied and truncated.
\<close>

section \<open>Moving\<close>

text \<open>The position so far, and the least distance to what it was drawn to.\<close>

record snapped =
  s_x :: int
  s_y :: int
  s_dx :: int
  s_dy :: int

definition snap_x :: "bool \<Rightarrow> int \<Rightarrow> int \<Rightarrow> int \<Rightarrow> snapped \<Rightarrow> snapped" where
  "snap_x ok dist zone target s = (if ok \<and> dist < zone \<and> dist < s_dx s then s\<lparr>s_x := target, s_dx := dist\<rparr> else s)"

definition snap_y :: "bool \<Rightarrow> int \<Rightarrow> int \<Rightarrow> int \<Rightarrow> snapped \<Rightarrow> snapped" where
  "snap_y ok dist zone target s = (if ok \<and> dist < zone \<and> dist < s_dy s then s\<lparr>s_y := target, s_dy := dist\<rparr> else s)"

text \<open>A maximized window is guided along the edges: the area, the directions, and the wider zones.\<close>

definition center_at :: "gworld \<Rightarrow> win \<Rightarrow> point \<Rightarrow> point" where
  "center_at w c pos = add_point pos (rcenter (mk_rect (0, 0) (wsize w c)))"

definition guide :: "gworld \<Rightarrow> win \<Rightarrow> point \<Rightarrow> rect \<times> MaximizeMode \<times> qsize" where
  "guide w c pos =
     (let z = borderSnapZone w; m = max_mode (geos w c)
      in if m = MaximizeRestore then (no_rect, MaximizeRestore, (z, z))
         else let a = clientAreaAt w MaximizeArea (center_at w c pos) (m_desktop (cl w c)); g = geometry w c;
                  h = (maxHoriz m \<and> (rx1 g = rx1 a \<or> rx2 g = rx2 a)); v = (maxVert m \<and> (ry1 g = ry1 a \<or> ry2 g = ry2 a))
              in (a, Maximize v h, (if h then max (z + 2) (c_div (rwidth a) 16) else z,
                                    if v then max (z + 2) (c_div (rheight a) 16) else z)))"

definition move_area :: "gworld \<Rightarrow> win \<Rightarrow> point \<Rightarrow> rect" where
  "move_area w c pos =
     (let a = fst (guide w c pos)
      in if null_rect a then clientArea w MovementArea (screen_number w (center_at w c pos)) (m_desktop (cl w c)) else a)"

text \<open>How far the border may go off the screen: left, right, top, bottom.\<close>

definition border_paddings :: "gworld \<Rightarrow> win \<Rightarrow> rect \<Rightarrow> int \<times> int \<times> int \<times> int" where
  "border_paddings w c a =
     (let g = geometry w c; cp = clientPos w c; cs = sub_point (rect_size g) (client_size (geos w c));
          title = titlebarPosition w c; m = max_mode (geos w c);
          keep = (\<lambda>p at_title maxed dx dy.
            if p \<noteq> 0 \<and> (at_title \<or> maxed \<or> intersecting w (translated (dx, dy) g) > 1) then 0 else p);
          l = fst cp; r = fst cs - fst cp; t = snd cp; b = snd cs - snd cp
      in (keep l (title = PositionLeft) (maxHoriz m) (rx1 a - (l + rx1 g)) 0,
          keep r (title = PositionRight) (maxHoriz m) (rx2 a + r - rx2 g) 0,
          keep t (title = PositionTop) (maxVert m) 0 (ry1 a - (t + ry1 g)),
          keep b (title = PositionBottom) (maxVert m) 0 (ry2 a + b - ry2 g)))"

text \<open>The distance to the first edge is kept with its sign.\<close>

definition border_snap :: "bool \<Rightarrow> qsize \<Rightarrow> int \<times> int \<times> int \<times> int \<Rightarrow> rect \<Rightarrow> rect \<Rightarrow> snapped \<Rightarrow> snapped" where
  "border_snap sOWO zone pad a g s =
     (let (pl, pr, pt, pb) = pad;
          xmin = rx1 a; xmax = rx2 a + 1; ymin = ry1 a; ymax = ry2 a + 1;
          cx = rx1 g; cy = ry1 g; cw = rwidth g; ch = rheight g; rx = cx + cw; ry = cy + ch;
          s = (if (sOWO \<longrightarrow> cx < xmin) \<and> \<bar>xmin - cx\<bar> < fst zone
               then s\<lparr>s_dx := xmin - cx, s_x := xmin - pl\<rparr> else s);
          s = (if (sOWO \<longrightarrow> rx > xmax) \<and> \<bar>rx - xmax\<bar> < fst zone \<and> \<bar>xmax - rx\<bar> < s_dx s
               then s\<lparr>s_dx := rx - xmax, s_x := xmax - cw + pr\<rparr> else s);
          s = (if (sOWO \<longrightarrow> cy < ymin) \<and> \<bar>ymin - cy\<bar> < snd zone
               then s\<lparr>s_dy := ymin - cy, s_y := ymin - pt\<rparr> else s)
      in if (sOWO \<longrightarrow> ry > ymax) \<and> \<bar>ry - ymax\<bar> < snd zone \<and> \<bar>ymax - ry\<bar> < s_dy s
         then s\<lparr>s_dy := ry - ymax, s_y := ymax - ch + pb\<rparr> else s)"

definition snaps_to :: "gworld \<Rightarrow> win \<Rightarrow> win \<Rightarrow> bool" where
  "snaps_to w c l =
     (l \<noteq> c \<and> \<not> isMinimized w l \<and> isCurrentTab w l \<and>
      (isOnDesktop w l (m_desktop (cl w c)) \<or> isOnDesktop w c (m_desktop (cl w l))) \<and>
      isOnCurrentActivity w l \<and> \<not> isDesktop w l \<and> \<not> isSplash w l)"

definition beside :: "int \<Rightarrow> int \<Rightarrow> int \<Rightarrow> int \<Rightarrow> bool" where
  "beside a b l r = (a \<le> r \<and> a \<ge> l \<or> b \<ge> l \<and> b \<le> r \<or> a \<le> l \<and> b \<ge> r)"

text \<open>The sides of another window, then its corners for a window that is at one of its sides.\<close>

definition snap_sides :: "bool \<Rightarrow> int \<Rightarrow> MaximizeMode \<Rightarrow> rect \<Rightarrow> rect \<Rightarrow> snapped \<Rightarrow> snapped" where
  "snap_sides sOWO zone m g o' s =
     (let cx = rx1 g; cy = ry1 g; cw = rwidth g; ch = rheight g; rx = cx + cw; ry = cy + ch;
          lx = rx1 o'; ly = ry1 o'; lrx = lx + rwidth o'; lry = ly + rheight o';
          h = (\<not> maxHoriz m \<and> beside cy ry ly lry); v = (\<not> maxVert m \<and> beside cx rx lx lrx);
          s = snap_x (h \<and> (sOWO \<longrightarrow> cx < lrx)) \<bar>lrx - cx\<bar> zone lrx s;
          s = snap_x (h \<and> (sOWO \<longrightarrow> rx > lx)) \<bar>rx - lx\<bar> zone (lx - cw) s;
          s = snap_y (v \<and> (sOWO \<longrightarrow> cy < lry)) \<bar>lry - cy\<bar> zone lry s
      in snap_y (v \<and> (sOWO \<longrightarrow> ry > ly)) \<bar>ry - ly\<bar> zone (ly - ch) s)"

definition snap_corners_y :: "bool \<Rightarrow> int \<Rightarrow> MaximizeMode \<Rightarrow> rect \<Rightarrow> rect \<Rightarrow> snapped \<Rightarrow> snapped" where
  "snap_corners_y sOWO zone m g o' s =
     (let cx = rx1 g; cy = ry1 g; cw = rwidth g; ch = rheight g; ry = cy + ch;
          lx = rx1 o'; ly = ry1 o'; lrx = lx + rwidth o'; lry = ly + rheight o';
          at_side = (\<not> maxVert m \<and> (s_x s = lrx \<or> s_x s + cw = lx));
          s = snap_y (at_side \<and> (sOWO \<longrightarrow> ry > lry)) \<bar>lry - ry\<bar> zone (lry - ch) s
      in snap_y (at_side \<and> (sOWO \<longrightarrow> cy < ly)) \<bar>cy - ly\<bar> zone ly s)"

definition snap_corners_x :: "bool \<Rightarrow> int \<Rightarrow> MaximizeMode \<Rightarrow> rect \<Rightarrow> rect \<Rightarrow> snapped \<Rightarrow> snapped" where
  "snap_corners_x sOWO zone m g o' s =
     (let cx = rx1 g; cy = ry1 g; cw = rwidth g; ch = rheight g; rx = cx + cw;
          lx = rx1 o'; ly = ry1 o'; lrx = lx + rwidth o'; lry = ly + rheight o';
          at_side = (\<not> maxHoriz m \<and> (s_y s = lry \<or> s_y s + ch = ly));
          s = snap_x (at_side \<and> (sOWO \<longrightarrow> rx > lrx)) \<bar>lrx - rx\<bar> zone (lrx - cw) s
      in snap_x (at_side \<and> (sOWO \<longrightarrow> cx < lx)) \<bar>cx - lx\<bar> zone lx s)"

definition window_snap :: "bool \<Rightarrow> int \<Rightarrow> MaximizeMode \<Rightarrow> rect \<Rightarrow> rect \<Rightarrow> snapped \<Rightarrow> snapped" where
  "window_snap sOWO zone m g o' s =
     snap_corners_x sOWO zone m g o' (snap_corners_y sOWO zone m g o' (snap_sides sOWO zone m g o' s))"

definition center_snap :: "int \<Rightarrow> bool \<Rightarrow> bool \<Rightarrow> rect \<Rightarrow> rect \<Rightarrow> snapped \<Rightarrow> snapped" where
  "center_snap zone border unrestricted a g s =
     (let xmin = rx1 a; xmax = rx2 a + 1; ymin = ry1 a; ymax = ry2 a + 1; cw = rwidth g; ch = rheight g;
          mx = c_div (xmin + xmax) 2 - c_div cw 2; my = c_div (ymin + ymax) 2 - c_div ch 2;
          diffX = \<bar>c_div (xmin + xmax) 2 - (rx1 g + c_div cw 2)\<bar>; diffY = \<bar>c_div (ymin + ymax) 2 - (ry1 g + c_div ch 2)\<bar>
      in if diffX < zone \<and> diffY < zone \<and> diffX < s_dx s \<and> diffY < s_dy s then s\<lparr>s_x := mx, s_y := my\<rparr>
         else if border
         then if (s_x s = xmin \<or> s_x s = xmax - cw) \<and> diffY < zone \<and> diffY < s_dy s then s\<lparr>s_y := my\<rparr>
              else if ((if unrestricted then s_y s = ymin else s_y s \<le> ymin) \<or> s_y s = ymax - ch) \<and>
                      diffX < zone \<and> diffX < s_dx s then s\<lparr>s_x := mx\<rparr>
              else s
         else s)"

definition snap_all :: "gworld \<Rightarrow> win \<Rightarrow> point \<Rightarrow> bool \<Rightarrow> (int \<Rightarrow> int) \<Rightarrow> snapped" where
  "snap_all w c pos unrestricted adj =
     (let (ignored, m, zone) = guide w c pos; a = move_area w c pos; g = mk_rect pos (wsize w c);
          sOWO = snapOnlyWhenOverlapping w;
          s = \<lparr>s_x = fst pos, s_y = snd pos, s_dx = rx2 a + 1, s_dy = ry2 a + 1\<rparr>;
          z = (adj (fst zone), adj (snd zone));
          s = (if fst z \<noteq> 0 \<or> snd z \<noteq> 0 then border_snap sOWO z (border_paddings w c a) a g s else s);
          s = (if adj (windowSnapZone w) \<noteq> 0
               then fold (\<lambda>l. window_snap sOWO (adj (windowSnapZone w)) m g (geometry w l))
                      (filter (snaps_to w c) (all_clients w)) s
               else s)
      in if adj (centerSnapZone w) \<noteq> 0
         then center_snap (adj (centerSnapZone w)) (borderSnapZone w \<noteq> 0) unrestricted a g s else s)"

definition adjustClientPosition :: "gworld \<Rightarrow> win \<Rightarrow> point \<Rightarrow> bool \<Rightarrow> (int \<Rightarrow> int) \<Rightarrow> point" where
  "adjustClientPosition w c pos unrestricted adj =
     (let zone = snd (snd (guide w c pos))
      in if windowSnapZone w \<noteq> 0 \<or> \<not> (fst zone = 0 \<and> snd zone = 0) \<or> centerSnapZone w \<noteq> 0
         then let s = snap_all w c pos unrestricted adj in (s_x s, s_y s)
         else pos)"

section \<open>Resizing\<close>

text \<open>The sides that the pointer moves.\<close>

definition moves_left :: "Position \<Rightarrow> bool" where
  "moves_left p = (p \<in> {PositionLeft, PositionTopLeft, PositionBottomLeft})"

definition moves_right :: "Position \<Rightarrow> bool" where
  "moves_right p = (p \<in> {PositionRight, PositionTopRight, PositionBottomRight})"

definition moves_top :: "Position \<Rightarrow> bool" where
  "moves_top p = (p \<in> {PositionTop, PositionTopLeft, PositionTopRight})"

definition moves_bottom :: "Position \<Rightarrow> bool" where
  "moves_bottom p = (p \<in> {PositionBottom, PositionBottomLeft, PositionBottomRight})"

record resized =
  n_geom :: rect
  n_dx :: int
  n_dy :: int

text \<open>One macro of the code: when the condition holds and the side is nearer, it goes to the target.\<close>

definition snap_side :: "(rect \<Rightarrow> int) \<Rightarrow> (int \<Rightarrow> rect \<Rightarrow> rect) \<Rightarrow> bool \<Rightarrow> (rect \<Rightarrow> bool) \<Rightarrow> int \<Rightarrow> int \<Rightarrow>
    (rect \<Rightarrow> int) \<Rightarrow> resized \<Rightarrow> resized" where
  "snap_side get put horizontal ok line target new_delta s =
     (let d = (if horizontal then n_dx s else n_dy s)
      in if ok (n_geom s) \<and> \<bar>line - get (n_geom s)\<bar> < d
         then (if horizontal then s\<lparr>n_dx := new_delta (n_geom s), n_geom := put target (n_geom s)\<rparr>
               else s\<lparr>n_dy := new_delta (n_geom s), n_geom := put target (n_geom s)\<rparr>)
         else s)"

text \<open>At the bottom, the new distance is computed from the top side.\<close>

definition resize_border :: "bool \<Rightarrow> rect \<Rightarrow> Position \<Rightarrow> resized \<Rightarrow> resized" where
  "resize_border sOWO a p s =
     (let s = (if moves_top p
               then snap_side ry1 setTop False (\<lambda>g. sOWO \<longrightarrow> ry1 g < ry1 a) (ry1 a) (ry1 a) (\<lambda>g. \<bar>ry1 a - ry1 g\<bar>) s else s);
          s = (if moves_bottom p
               then snap_side ry2 setBottom False (\<lambda>g. sOWO \<longrightarrow> ry2 g > ry2 a) (ry2 a) (ry2 a) (\<lambda>g. \<bar>ry2 a - ry1 g\<bar>) s else s);
          s = (if moves_left p
               then snap_side rx1 setLeft True (\<lambda>g. sOWO \<longrightarrow> rx1 g < rx1 a) (rx1 a) (rx1 a) (\<lambda>g. \<bar>rx1 a - rx1 g\<bar>) s else s)
      in if moves_right p
         then snap_side rx2 setRight True (\<lambda>g. sOWO \<longrightarrow> rx2 g > rx2 a) (rx2 a) (rx2 a) (\<lambda>g. \<bar>rx2 a - rx2 g\<bar>) s else s)"

definition resize_window :: "bool \<Rightarrow> rect \<Rightarrow> rect \<Rightarrow> Position \<Rightarrow> resized \<Rightarrow> resized" where
  "resize_window sOWO old o' p s =
     (let lx = rx1 o' - 1; ly = ry1 o' - 1; lrx = rx1 o' + rwidth o'; lry = ry1 o' + rheight o';
          wide = beside (rx1 old) (rx2 old) lx lrx; tall = (\<lambda>g. beside (ry1 g) (ry2 g) ly lry);
          at_x = (\<lambda>g. rx1 g = lrx \<or> rx2 g = lx); at_y = (\<lambda>g. ry1 g = lry \<or> ry2 g = ly);
          s = (if moves_top p then snap_side ry1 setTop False (\<lambda>g. (sOWO \<longrightarrow> ry1 g < lry) \<and> wide) lry lry
                 (\<lambda>g. \<bar>lry - ry1 g\<bar>) s else s);
          s = (if moves_bottom p then snap_side ry2 setBottom False (\<lambda>g. (sOWO \<longrightarrow> ry2 g > ly) \<and> wide) ly ly
                 (\<lambda>g. \<bar>ly - ry2 g\<bar>) s else s);
          s = (if moves_left p then snap_side rx1 setLeft True (\<lambda>g. (sOWO \<longrightarrow> rx1 g < lrx) \<and> tall g) lrx lrx
                 (\<lambda>g. \<bar>lrx - rx1 g\<bar>) s else s);
          s = (if moves_right p then snap_side rx2 setRight True (\<lambda>g. (sOWO \<longrightarrow> rx2 g > lx) \<and> tall g) lx lx
                 (\<lambda>g. \<bar>lx - rx2 g\<bar>) s else s);
          s = (if moves_top p then snap_side ry1 setTop False (\<lambda>g. (sOWO \<longrightarrow> ry1 g < ly) \<and> at_x g) ly (ly + 1)
                 (\<lambda>g. \<bar>ly - ry1 g + 1\<bar>) s else s);
          s = (if moves_bottom p then snap_side ry2 setBottom False (\<lambda>g. (sOWO \<longrightarrow> ry2 g > lry) \<and> at_x g) lry (lry - 1)
                 (\<lambda>g. \<bar>lry - ry2 g - 1\<bar>) s else s);
          s = (if moves_left p then snap_side rx1 setLeft True (\<lambda>g. (sOWO \<longrightarrow> rx1 g < lx) \<and> at_y g) lx (lx + 1)
                 (\<lambda>g. \<bar>lx - rx1 g + 1\<bar>) s else s)
      in if moves_right p then snap_side rx2 setRight True (\<lambda>g. (sOWO \<longrightarrow> rx2 g > lrx) \<and> at_y g) lrx (lrx - 1)
                 (\<lambda>g. \<bar>lrx - rx2 g - 1\<bar>) s else s)"

text \<open>
  The area is that of the screen at the middle of the window's own rectangle, which starts at the
  origin, and not at the window.  A mode without a side aborts: \<open>None\<close>.
\<close>

definition resize_area :: "gworld \<Rightarrow> win \<Rightarrow> rect" where
  "resize_area w c = clientAreaAt w MovementArea (rcenter (mk_rect (0, 0) (wsize w c))) (m_desktop (cl w c))"

definition adjustClientSize :: "gworld \<Rightarrow> win \<Rightarrow> rect \<Rightarrow> Position \<Rightarrow> rect option" where
  "adjustClientSize w c g p =
     (if windowSnapZone w \<noteq> 0 \<or> borderSnapZone w \<noteq> 0
      then let sOWO = snapOnlyWhenOverlapping w; a = resize_area w c; b = borderSnapZone w; z = windowSnapZone w;
               ls = filter (\<lambda>l. isOnDesktop w l (uint (current_desktop w)) \<and> \<not> isMinimized w l \<and> l \<noteq> c) (all_clients w);
               s = \<lparr>n_geom = g, n_dx = b, n_dy = b\<rparr>;
               s = (if b \<noteq> 0 then resize_border sOWO a p s else s);
               s = (if z \<noteq> 0
                    then fold (\<lambda>l. resize_window sOWO g (geometry w l) p) ls (s\<lparr>n_dx := z, n_dy := z\<rparr>) else s)
           in if p = PositionCenter \<and> (b \<noteq> 0 \<or> ls \<noteq> []) then None else Some (n_geom s)
      else Some g)"

section \<open>How far a window is moved\<close>

definition within :: "int \<Rightarrow> int \<Rightarrow> int \<Rightarrow> bool" where
  "within b p q \<longleftrightarrow> q = p \<or> \<bar>q - p\<bar> < b"

lemma within_mono: "within b p q \<Longrightarrow> b \<le> b' \<Longrightarrow> within b' p q"
  by (auto simp: within_def)

lemma snap_x_within:
  assumes "within b p (s_x s)" "zone \<le> b" "\<bar>target - p\<bar> = dist"
  shows "within b p (s_x (snap_x ok dist zone target s))"
  using assms by (auto simp: snap_x_def within_def)

lemma snap_y_within:
  assumes "within b p (s_y s)" "zone \<le> b" "\<bar>target - p\<bar> = dist"
  shows "within b p (s_y (snap_y ok dist zone target s))"
  using assms by (auto simp: snap_y_def within_def)

lemma snap_other [simp]:
  "s_y (snap_x ok dist zone target s) = s_y s" "s_x (snap_y ok dist zone target s) = s_x s"
  by (simp_all add: snap_x_def snap_y_def)

lemma border_snap_within:
  fixes pad :: "int \<times> int \<times> int \<times> int"
  assumes "within bx (rx1 g) (s_x s)" "within by (ry1 g) (s_y s)"
    "fst zone + max \<bar>fst pad\<bar> \<bar>fst (snd pad)\<bar> \<le> bx"
    "snd zone + max \<bar>fst (snd (snd pad))\<bar> \<bar>snd (snd (snd pad))\<bar> \<le> by"
  shows "within bx (rx1 g) (s_x (border_snap sOWO zone pad a g s)) \<and>
    within by (ry1 g) (s_y (border_snap sOWO zone pad a g s))"
proof -
  obtain pl pr pt pb where p: "pad = (pl, pr, pt, pb)" by (metis prod_cases4)
  have x: "within bx (rx1 g) (rx1 a - pl)" if "\<bar>rx1 a - rx1 g\<bar> < fst zone"
    using that assms(3) by (auto simp: within_def p)
  have x': "within bx (rx1 g) (rx2 a + 1 - rwidth g + pr)" if "\<bar>rx1 g + rwidth g - (rx2 a + 1)\<bar> < fst zone"
    using that assms(3) by (auto simp: within_def p)
  have y: "within by (ry1 g) (ry1 a - pt)" if "\<bar>ry1 a - ry1 g\<bar> < snd zone"
    using that assms(4) by (auto simp: within_def p)
  have y': "within by (ry1 g) (ry2 a + 1 - rheight g + pb)" if "\<bar>ry1 g + rheight g - (ry2 a + 1)\<bar> < snd zone"
    using that assms(4) by (auto simp: within_def p)
  show ?thesis unfolding border_snap_def p prod.case Let_def using x x' y y' assms(1,2) by auto
qed

lemma window_snap_within:
  assumes "within bx (rx1 g) (s_x s)" "within by (ry1 g) (s_y s)" "zone \<le> bx" "zone \<le> by"
  shows "within bx (rx1 g) (s_x (window_snap sOWO zone m g o' s)) \<and>
    within by (ry1 g) (s_y (window_snap sOWO zone m g o' s))"
proof -
  have sides: "within bx (rx1 g) (s_x (snap_sides sOWO zone m g o' t)) \<and>
      within by (ry1 g) (s_y (snap_sides sOWO zone m g o' t))"
    if "within bx (rx1 g) (s_x t)" "within by (ry1 g) (s_y t)" for t
    unfolding snap_sides_def Let_def snap_other
    by (intro conjI snap_x_within snap_y_within) (use that assms(3,4) in \<open>simp_all add: algebra_simps\<close>)
  have cy: "within bx (rx1 g) (s_x (snap_corners_y sOWO zone m g o' t)) \<and>
      within by (ry1 g) (s_y (snap_corners_y sOWO zone m g o' t))"
    if "within bx (rx1 g) (s_x t)" "within by (ry1 g) (s_y t)" for t
    unfolding snap_corners_y_def Let_def snap_other
    by (intro conjI snap_y_within) (use that assms(3,4) in \<open>simp_all add: algebra_simps\<close>)
  have cx: "within bx (rx1 g) (s_x (snap_corners_x sOWO zone m g o' t)) \<and>
      within by (ry1 g) (s_y (snap_corners_x sOWO zone m g o' t))"
    if "within bx (rx1 g) (s_x t)" "within by (ry1 g) (s_y t)" for t
    unfolding snap_corners_x_def Let_def snap_other
    by (intro conjI snap_x_within) (use that assms(3,4) in \<open>simp_all add: algebra_simps\<close>)
  show ?thesis unfolding window_snap_def using sides cy cx assms(1,2) by blast
qed

lemma center_snap_within:
  assumes "within bx (rx1 g) (s_x s)" "within by (ry1 g) (s_y s)" "zone \<le> bx" "zone \<le> by"
  shows "within bx (rx1 g) (s_x (center_snap zone border unrestricted a g s)) \<and>
    within by (ry1 g) (s_y (center_snap zone border unrestricted a g s))"
proof -
  define X where "X = c_div (rx1 a + (rx2 a + 1)) 2"
  define Y where "Y = c_div (ry1 a + (ry2 a + 1)) 2"
  define W where "W = c_div (rwidth g) 2"
  define H where "H = c_div (rheight g) 2"
  have x: "within bx (rx1 g) (X - W)" if "\<bar>X - (rx1 g + W)\<bar> < zone" using that assms(3) by (auto simp: within_def)
  have y: "within by (ry1 g) (Y - H)" if "\<bar>Y - (ry1 g + H)\<bar> < zone" using that assms(4) by (auto simp: within_def)
  show ?thesis
    unfolding center_snap_def Let_def X_def [symmetric] Y_def [symmetric] W_def [symmetric] H_def [symmetric]
    using assms(1,2) x y by simp
qed

text \<open>C30: Snapping moves a window in each direction by less than the widest zone and the border that may go
  off the screen, or not at all.\<close>

theorem snapping_bounded:
  "let p = adjustClientPosition w c pos unrestricted adj; zone = snd (snd (guide w c pos));
       (l, r, t, b) = border_paddings w c (move_area w c pos);
       other = max (adj (windowSnapZone w)) (adj (centerSnapZone w));
       bx = max (adj (fst zone) + max \<bar>l\<bar> \<bar>r\<bar>) other; by = max (adj (snd zone) + max \<bar>t\<bar> \<bar>b\<bar>) other
   in (fst p = fst pos \<or> \<bar>fst p - fst pos\<bar> < bx) \<and> (snd p = snd pos \<or> \<bar>snd p - snd pos\<bar> < by)"
proof -
  obtain u m zone where gd: "guide w c pos = (u, m, zone)" by (metis prod_cases3)
  define a where "a = move_area w c pos"
  obtain l r t b where pad: "border_paddings w c a = (l, r, t, b)" by (metis prod_cases4)
  define other where "other = max (adj (windowSnapZone w)) (adj (centerSnapZone w))"
  define bx where "bx = max (adj (fst zone) + max \<bar>l\<bar> \<bar>r\<bar>) other"
  define b' where "b' = max (adj (snd zone) + max \<bar>t\<bar> \<bar>b\<bar>) other"
  define g where "g = mk_rect pos (wsize w c)"
  have g: "rx1 g = fst pos" "ry1 g = snd pos" by (simp_all add: g_def rect_simps)
  let ?ok = "\<lambda>s. within bx (rx1 g) (s_x s) \<and> within b' (ry1 g) (s_y s)"
  have fold_ok: "?ok (fold (\<lambda>l. window_snap so (adj (windowSnapZone w)) m g (f l)) ls s)" if "?ok s" for so ls s and f :: "win \<Rightarrow> rect"
    using that
  proof (induction ls arbitrary: s)
    case (Cons x ls)
    have "?ok (window_snap so (adj (windowSnapZone w)) m g (f x) s)"
      by (rule window_snap_within) (use Cons.prems in \<open>auto simp: bx_def b'_def other_def\<close>)
    then show ?case using Cons.IH by simp
  qed simp
  have border_ok: "?ok (border_snap so (adj (fst zone), adj (snd zone)) (l, r, t, b) a g s)" if "?ok s" for so s
    by (rule border_snap_within) (use that in \<open>auto simp: bx_def b'_def\<close>)
  have center_ok: "?ok (center_snap (adj (centerSnapZone w)) bo un a g s)" if "?ok s" for bo un s
    by (rule center_snap_within) (use that in \<open>auto simp: bx_def b'_def other_def\<close>)
  define s0 where "s0 = \<lparr>s_x = fst pos, s_y = snd pos, s_dx = rx2 a + 1, s_dy = ry2 a + 1\<rparr>"
  have ok0: "?ok s0" by (simp add: s0_def within_def g)
  define s1 where "s1 = (if adj (fst zone) \<noteq> 0 \<or> adj (snd zone) \<noteq> 0
    then border_snap (snapOnlyWhenOverlapping w) (adj (fst zone), adj (snd zone)) (l, r, t, b) a g s0 else s0)"
  have ok1: "?ok s1" using ok0 border_ok by (simp add: s1_def)
  define s2 where "s2 = (if adj (windowSnapZone w) \<noteq> 0
    then fold (\<lambda>l. window_snap (snapOnlyWhenOverlapping w) (adj (windowSnapZone w)) m g (geometry w l))
           (filter (snaps_to w c) (all_clients w)) s1
    else s1)"
  have ok2: "?ok s2" using ok1 fold_ok by (simp add: s2_def)
  have "snap_all w c pos unrestricted adj = (if adj (centerSnapZone w) \<noteq> 0
      then center_snap (adj (centerSnapZone w)) (borderSnapZone w \<noteq> 0) unrestricted a g s2 else s2)"
    by (simp only: snap_all_def gd prod.case Let_def a_def [symmetric] g_def [symmetric] s0_def [symmetric] pad
      s1_def [symmetric] s2_def [symmetric] fst_conv snd_conv)
  then have "?ok (snap_all w c pos unrestricted adj)" using ok2 center_ok by simp
  then have "within bx (fst pos) (fst (adjustClientPosition w c pos unrestricted adj)) \<and>
      within b' (snd pos) (snd (adjustClientPosition w c pos unrestricted adj))"
    by (auto simp: adjustClientPosition_def Let_def g within_def)
  then show ?thesis
    by (simp add: gd pad a_def [symmetric] within_def bx_def b'_def other_def)
qed

text \<open>A window on the right one of two screens is resized: the area it is drawn to is the left screen.\<close>

lemma resize_area_of_another_screen:
  "let w = set_geom 1 (mk_rect (500, 0) (100, 100)) (example_screen\<lparr>screens_count := 2, display_size := (800, 300),
             screen_geometry := (\<lambda>i. mk_rect (400 * i, 0) (400, 300))\<rparr>)
   in resize_area w 1 = mk_rect (0, 0) (400, 300) \<and> screen_number w (rcenter (geometry w 1)) = 1"
  by code_simp

end
