(* ===== verification/GeometryFacts.thy ===== *)
theory GeometryFacts
  imports Positioning Smart
begin

text \<open>
  What the operations on the geometry of windows change and what they leave alone, and the
  agreement between the geometry the window manager keeps and the one the X server has.
\<close>

section \<open>The parts of the state\<close>

lemma upd_geo_sel [simp]:
  "geos (upd_geo c f w) = (geos w)(c := f (geos w c))" "cl (upd_geo c f w) = cl w"
  "gcalls (upd_geo c f w) = gcalls w" "screens_count (upd_geo c f w) = screens_count w"
  "m_current_screen (upd_geo c f w) = m_current_screen w" "compositing (upd_geo c f w) = compositing w"
  "active_client (upd_geo c f w) = active_client w" "screen_geometry (upd_geo c f w) = screen_geometry w"
  by (simp_all add: upd_geo_def)

lemma gcall_sel [simp]:
  "geos (gcall e w) = geos w" "cl (gcall e w) = cl w" "gcalls (gcall e w) = gcalls w @ [e]"
  "screens_count (gcall e w) = screens_count w" "m_current_screen (gcall e w) = m_current_screen w"
  "compositing (gcall e w) = compositing w" "active_client (gcall e w) = active_client w"
  "screen_geometry (gcall e w) = screen_geometry w"
  by (simp_all add: gcall_def)

lemma upd_cl_gsel [simp]:
  "geos (upd_cl c f w) = geos w" "gcalls (upd_cl c f w) = gcalls w"
  "screens_count (upd_cl c f w) = screens_count w" "m_current_screen (upd_cl c f w) = m_current_screen w"
  "compositing (upd_cl c f w) = compositing w"
  by (simp_all add: upd_cl_def)

lemma set_geom_sel [simp]:
  "geos (set_geom c g w) = geos w" "gcalls (set_geom c g w) = gcalls w"
  "compositing (set_geom c g w) = compositing w"
  by (simp_all add: set_geom_def)

lemma geometry_sel [simp]:
  "geometry (upd_geo c f w) d = geometry w d" "geometry (gcall e w) d = geometry w d"
  "geometry (set_geom c g w) d = (if d = c then g else geometry w d)"
  by (simp_all add: geometry_def set_geom_def)

lemma screens_setCurrentClient_sel [simp]:
  "geos (screens_setCurrentClient c w) = geos w" "cl (screens_setCurrentClient c w) = cl w"
  "gcalls (screens_setCurrentClient c w) = gcalls w"
  "geometry (screens_setCurrentClient c w) d = geometry w d"
  "compositing (screens_setCurrentClient c w) = compositing w"
  by (simp_all add: screens_setCurrentClient_def screens_setCurrent_def geometry_def)

lemma checkScreen_sel [simp]:
  "geos (checkScreen c w) = geos w" "gcalls (checkScreen c w) = gcalls w"
  "geometry (checkScreen c w) d = geometry w d" "shaded (checkScreen c w) d = shaded w d"
  by (simp_all add: checkScreen_def Let_def geometry_def shaded_def isShade_def)

lemma shaded_sel [simp]:
  "shaded (upd_geo c f w) d = shaded w d" "shaded (gcall e w) d = shaded w d"
  "shaded (set_geom c g w) d = shaded w d" "shaded (screens_setCurrentClient c w) d = shaded w d"
  by (simp_all add: shaded_def isShade_def set_geom_def)

lemma emit_checked_sel [simp]:
  "geos (emit_checked c e w) = geos w" "gcalls (emit_checked c e w) = gcalls w @ [e]"
  "geometry (emit_checked c e w) d = geometry w d" "shaded (emit_checked c e w) d = shaded w d"
  by (simp_all add: emit_checked_def Let_def)

lemma borders_geo [simp]:
  "borderTop (gcall e w) c = borderTop w c" "borderBottom (gcall e w) c = borderBottom w c"
  "borderTop (set_geom d g w) c = borderTop w c" "borderBottom (set_geom d g w) c = borderBottom w c"
  by (simp_all add: borderTop_def borderBottom_def)

section \<open>The size that is set\<close>

definition effective_size :: "gworld \<Rightarrow> win \<Rightarrow> qsize \<Rightarrow> qsize" where
  "effective_size w c s =
     (if \<not> shade_geometry_change (geos w c) \<and> shaded w c then (fst s, borderTop w c + borderBottom w c) else s)"

lemma set_client_size_fst: "fst (set_client_size c s w) = effective_size w c s"
  by (auto simp: set_client_size_def effective_size_def Let_def prod_eq_iff)

text \<open>The fields of a window that the geometry operations leave alone.\<close>

lemma set_client_size_sel [simp]:
  "geometry (snd (set_client_size c s w)) d = geometry w d"
  "frame_geometry (geos (snd (set_client_size c s w)) d) = frame_geometry (geos w d)"
  "geom_before_block (geos (snd (set_client_size c s w)) d) = geom_before_block (geos w d)"
  "pending_geometry (geos (snd (set_client_size c s w)) d) = pending_geometry (geos w d)"
  "block_geometry (geos (snd (set_client_size c s w)) d) = block_geometry (geos w d)"
  "needs_x_move (geos (snd (set_client_size c s w)) d) = needs_x_move (geos w d)"
  "move_resize (geos (snd (set_client_size c s w)) d) = move_resize (geos w d)"
  "gcalls (snd (set_client_size c s w)) = gcalls w"
  "shaded (snd (set_client_size c s w)) d = shaded w d"
  by (simp_all add: set_client_size_def Let_def)

lemma note_pending_sel [simp]:
  "geometry (note_pending c f w) d = geometry w d"
  "frame_geometry (geos (note_pending c f w) d) = frame_geometry (geos w d)"
  "geom_before_block (geos (note_pending c f w) d) = geom_before_block (geos w d)"
  "block_geometry (geos (note_pending c f w) d) = block_geometry (geos w d)"
  "needs_x_move (geos (note_pending c f w) d) = needs_x_move (geos w d)"
  "pending_geometry (geos (note_pending c f w) c) \<noteq> PendingGeometryNone"
  "d \<noteq> c \<Longrightarrow> geos (note_pending c f w) d = geos w d"
  "gcalls (note_pending c f w) = gcalls w"
  by (simp_all add: note_pending_def)

lemma geometry_done_sel [simp]:
  "geometry (geometry_done c w) d = geometry w d"
  "geos (geometry_done c w) = (geos w)(c := (geos w c)\<lparr>geom_before_block := geometry w c\<rparr>)"
  by (simp_all add: geometry_done_def Let_def)

section \<open>The geometry after an operation\<close>

lemma rect_of_parts: "mk_rect (topLeft g) (rect_size g) = g"
  by (rule rect_eqI) (simp_all add: mk_rect_def topLeft_def rect_size_def)

lemma send_geometry_sel [simp]:
  "geometry (send_geometry c g r w) d = geometry w d"
  "geom_before_block (geos (send_geometry c g r w) d) = geom_before_block (geos w d)"
  "pending_geometry (geos (send_geometry c g r w) d) = pending_geometry (geos w d)"
  "block_geometry (geos (send_geometry c g r w) d) = block_geometry (geos w d)"
  "d \<noteq> c \<Longrightarrow> geos (send_geometry c g r w) d = geos w d"
  "shaded (send_geometry c g r w) d = shaded w d"
  by (simp_all add: send_geometry_def Let_def frame_setGeometry_def frame_move_def)

lemma send_geometry_frame:
  "frame_geometry (geos (send_geometry c g r w) c) =
     (if r then g
      else if needs_x_move (geos (send_geometry c g r w) c) \<and> move_resize (geos w c) \<and> compositing w
      then frame_geometry (geos w c)
      else moveTopLeft (topLeft g) (frame_geometry (geos w c)))"
  by (simp add: send_geometry_def Let_def frame_setGeometry_def frame_move_def)

lemma setGeometry_geometry:
  "geometry (setGeometry c g f w) d =
     (if d = c then mk_rect (topLeft g) (effective_size w c (rect_size g)) else geometry w d)"
proof -
  obtain s u where u: "set_client_size c (rect_size g) w = (s, u)" by (rule prod.exhaust)
  have s: "s = effective_size w c (rect_size g)" using set_client_size_fst [of c "rect_size g" w] u by simp
  have g: "geometry u e = geometry w e" for e using set_client_size_sel(1) [of c "rect_size g" w e] u by simp
  show ?thesis
    by (simp add: setGeometry_def u s g Let_def frame_setGeometry_def frame_move_def)
qed

lemma plainResize_geometry:
  "geometry (plainResize c s f w) d =
     (if d = c then setSize (effective_size w c s) (geometry w c) else geometry w d)"
proof -
  obtain t u where u: "set_client_size c s w = (t, u)" by (rule prod.exhaust)
  have t: "t = effective_size w c s" using set_client_size_fst [of c s w] u by simp
  have g: "geometry u e = geometry w e" for e using set_client_size_sel(1) [of c s w e] u by simp
  have same: "setSize (effective_size w c s) r = r" if "rect_size r = effective_size w c s" for r
    by (rule rect_eqI) (auto simp: that [symmetric] rect_simps rect_size_def)
  show ?thesis
    by (auto simp add: plainResize_def u t g Let_def frame_resize_def same)
qed

lemma moveTopLeft_id: "moveTopLeft (topLeft g) g = g"
  by (rule rect_eqI) (simp_all add: rect_simps topLeft_def rwidth_def rheight_def)

lemma move_geometry:
  "geometry (move c p f w) d = (if d = c then moveTopLeft p (geometry w c) else geometry w d)"
  by (auto simp: move_def Let_def frame_move_def moveTopLeft_id)

lemma block_geometry_op [simp]: "geometry (blockGeometryUpdates c w) d = geometry w d"
  by (simp add: blockGeometryUpdates_def)

section \<open>Agreement with the X server\<close>

text \<open>
  \<open>X server\<close> and window manager agree on the geometry of a window, but for an update that is
  blocked and noted as pending, and for a position that is sent at the end of a move.
\<close>

definition frame_follows :: "gworld \<Rightarrow> win \<Rightarrow> rect \<Rightarrow> bool" where
  "frame_follows w c g \<longleftrightarrow>
     (if needs_x_move (geos w c) then rect_size (frame_geometry (geos w c)) = rect_size g
      else frame_geometry (geos w c) = g)"

definition geometry_ok :: "gworld \<Rightarrow> win \<Rightarrow> bool" where
  "geometry_ok w c \<longleftrightarrow>
     0 \<le> block_geometry (geos w c) \<and>
     (block_geometry (geos w c) = 0 \<longrightarrow> pending_geometry (geos w c) = PendingGeometryNone) \<and>
     (pending_geometry (geos w c) = PendingGeometryNone \<longrightarrow> geom_before_block (geos w c) = geometry w c) \<and>
     frame_follows w c (geom_before_block (geos w c))"

text \<open>The state right before a pending update is done: nothing is blocked, something is pending.\<close>

definition geometry_due :: "gworld \<Rightarrow> win \<Rightarrow> bool" where
  "geometry_due w c \<longleftrightarrow> block_geometry (geos w c) = 0 \<and> frame_follows w c (geom_before_block (geos w c))"

lemma rect_size_parts [simp]: "rect_size (mk_rect p s) = s" "topLeft (mk_rect p s) = p"
  by (simp_all add: rect_size_def mk_rect_def topLeft_def)

lemma moveTopLeft_parts: "moveTopLeft p g = mk_rect p (rect_size g)"
  by (rule rect_eqI) (simp_all add: rect_simps rect_size_def rwidth_def rheight_def)

lemma setSize_parts: "setSize s g = mk_rect (topLeft g) s"
  by (rule rect_eqI) (simp_all add: rect_simps topLeft_def)

lemma rect_eq_parts: "g = mk_rect (topLeft h) (rect_size h) \<longleftrightarrow> g = h"
  by (simp add: rect_of_parts)

lemma setGeometry_update:
  assumes "block_geometry (geos w c) = 0" "frame_follows w c (geom_before_block (geos w c))"
    "\<not> (f = NormalGeometrySet \<and> geometry w c = mk_rect (topLeft g) (effective_size w c (rect_size g)) \<and>
        pending_geometry (geos w c) = PendingGeometryNone)"
  defines "v \<equiv> setGeometry c g f w"
  shows "frame_follows v c (geometry v c)" "geom_before_block (geos v c) = geometry v c"
    "block_geometry (geos v c) = 0" "pending_geometry (geos v c) = pending_geometry (geos w c)"
    "\<And>d. d \<noteq> c \<Longrightarrow> geos v d = geos w d"
proof -
  obtain s u where u: "set_client_size c (rect_size g) w = (s, u)" by (rule prod.exhaust)
  have s: "s = effective_size w c (rect_size g)" using set_client_size_fst [of c "rect_size g" w] u by simp
  note sel = set_client_size_sel [of c "rect_size g" w, unfolded u snd_conv]
  have other: "geos u d = geos w d" if "d \<noteq> c" for d
    using u that by (auto simp: set_client_size_def Let_def split: if_splits)
  have go: "\<not> (f = NormalGeometrySet \<and> geometry u c = mk_rect (topLeft g) s \<and>
      pending_geometry (geos u c) = PendingGeometryNone)" using assms(3) by (simp add: sel s)
  have nb: "\<not> areGeometryUpdatesBlocked (set_geom c (mk_rect (topLeft g) s) u) c"
    using assms(1) by (simp add: areGeometryUpdatesBlocked_def sel)
  define before where "before = geom_before_block (geos w c)"
  define r where "r = (rect_size before \<noteq> s \<or> pending_geometry (geos w c) = PendingGeometryForced)"
  define x where "x = send_geometry c (mk_rect (topLeft g) s) r (set_geom c (mk_rect (topLeft g) s) u)"
  have v: "\<exists>y. v = geometry_done c y \<and> geos y = geos x \<and> (\<forall>d. geometry y d = geometry x d)"
    unfolding v_def setGeometry_def u prod.case Let_def if_not_P [OF go] if_not_P [OF nb]
    by (intro exI conjI, rule refl) (simp_all add: x_def r_def before_def sel)
  have gx: "geometry x c = mk_rect (topLeft g) s" by (simp add: x_def)
  have fx: "frame_geometry (geos x c) =
      (if r then mk_rect (topLeft g) s
       else if needs_x_move (geos x c) \<and> move_resize (geos w c) \<and> compositing u then frame_geometry (geos w c)
       else mk_rect (topLeft g) (rect_size (frame_geometry (geos w c))))"
    by (simp add: x_def send_geometry_frame sel moveTopLeft_parts)
  have fs: "rect_size (frame_geometry (geos w c)) = rect_size before"
    using assms(2) by (auto simp: frame_follows_def before_def split: if_splits)
  have "frame_follows x c (mk_rect (topLeft g) s)"
  proof (cases r)
    case True
    then show ?thesis using fx by (simp add: frame_follows_def)
  next
    case False
    then have "rect_size before = s" by (simp add: r_def)
    then show ?thesis using fx False fs by (simp add: frame_follows_def)
  qed
  then show "frame_follows v c (geometry v c)" using v gx by (auto simp: frame_follows_def)
  show "geom_before_block (geos v c) = geometry v c" using v by auto
  show "block_geometry (geos v c) = 0" "pending_geometry (geos v c) = pending_geometry (geos w c)"
    using v assms(1) by (auto simp: x_def sel)
  show "geos v d = geos w d" if "d \<noteq> c" for d using v that other by (auto simp: x_def)
qed

lemma setGeometry_blocked:
  assumes "block_geometry (geos w c) \<noteq> 0"
    "\<not> (f = NormalGeometrySet \<and> geometry w c = mk_rect (topLeft g) (effective_size w c (rect_size g)) \<and>
        pending_geometry (geos w c) = PendingGeometryNone)"
  shows "setGeometry c g f w = note_pending c f (set_geom c (mk_rect (topLeft g) (effective_size w c (rect_size g)))
      (snd (set_client_size c (rect_size g) w)))"
proof -
  obtain s u where u: "set_client_size c (rect_size g) w = (s, u)" by (rule prod.exhaust)
  have s: "s = effective_size w c (rect_size g)" using set_client_size_fst [of c "rect_size g" w] u by simp
  note sel = set_client_size_sel [of c "rect_size g" w, unfolded u snd_conv]
  have go: "\<not> (f = NormalGeometrySet \<and> geometry u c = mk_rect (topLeft g) s \<and>
      pending_geometry (geos u c) = PendingGeometryNone)" using assms(2) by (simp add: sel s)
  have b: "areGeometryUpdatesBlocked (set_geom c (mk_rect (topLeft g) s) u) c"
    using assms(1) by (simp add: areGeometryUpdatesBlocked_def sel)
  show ?thesis
    unfolding setGeometry_def u prod.case Let_def if_not_P [OF go [unfolded s]] if_P [OF b [unfolded s]] snd_conv s by (rule refl)
qed

lemma setGeometry_noop:
  assumes "f = NormalGeometrySet" "geometry w c = mk_rect (topLeft g) (effective_size w c (rect_size g))"
    "pending_geometry (geos w c) = PendingGeometryNone"
  shows "setGeometry c g f w = snd (set_client_size c (rect_size g) w)"
proof -
  obtain s u where u: "set_client_size c (rect_size g) w = (s, u)" by (rule prod.exhaust)
  have s: "s = effective_size w c (rect_size g)" using set_client_size_fst [of c "rect_size g" w] u by simp
  note sel = set_client_size_sel [of c "rect_size g" w, unfolded u snd_conv]
  show ?thesis using assms by (simp add: setGeometry_def u s sel)
qed

lemma set_client_size_other: "d \<noteq> c \<Longrightarrow> geos (snd (set_client_size c s w)) d = geos w d"
  by (simp add: set_client_size_def Let_def)

lemmas ok_defs = geometry_ok_def frame_follows_def

lemma setGeometry_ok:
  assumes "geometry_ok w c"
  shows "geometry_ok (setGeometry c g f w) c"
proof (cases "f = NormalGeometrySet \<and> geometry w c = mk_rect (topLeft g) (effective_size w c (rect_size g)) \<and>
        pending_geometry (geos w c) = PendingGeometryNone")
  case True
  then have "setGeometry c g f w = snd (set_client_size c (rect_size g) w)" using setGeometry_noop by blast
  then show ?thesis using assms by (simp add: ok_defs)
next
  case False
  show ?thesis
  proof (cases "block_geometry (geos w c) = 0")
    case True
    then show ?thesis
      using setGeometry_update [OF True _ False] assms by (auto simp: geometry_ok_def)
  next
    case False2: False
    show ?thesis using setGeometry_blocked [OF False2 False] assms False2 by (simp add: ok_defs)
  qed
qed

lemma move_ok:
  assumes "geometry_ok w c"
  shows "geometry_ok (move c p f w) c"
  using assms
  by (simp add: move_def Let_def ok_defs frame_move_def areGeometryUpdatesBlocked_def moveTopLeft_parts)

lemma plainResize_ok:
  assumes "geometry_ok w c"
  shows "geometry_ok (plainResize c s f w) c"
proof -
  obtain t u where u: "set_client_size c s w = (t, u)" by (rule prod.exhaust)
  note sel = set_client_size_sel [of c s w, unfolded u snd_conv]
  show ?thesis using assms
    by (simp add: plainResize_def u Let_def ok_defs frame_resize_def areGeometryUpdatesBlocked_def setSize_parts sel)
qed

lemma block_ok: "geometry_ok w c \<Longrightarrow> geometry_ok (blockGeometryUpdates c w) c"
  by (auto simp: blockGeometryUpdates_def ok_defs)

lemma unblock_ok:
  assumes "geometry_ok w c" "0 < block_geometry (geos w c)"
  shows "geometry_ok (unblockGeometryUpdates c w) c"
proof (cases "block_geometry (geos w c) = 1 \<and> pending_geometry (geos w c) \<noteq> PendingGeometryNone")
  case False
  then show ?thesis using assms by (auto simp: unblockGeometryUpdates_def Let_def ok_defs)
next
  case True
  define v where "v = upd_geo c (\<lambda>g. g\<lparr>block_geometry := block_geometry g - 1\<rparr>) w"
  have v: "block_geometry (geos v c) = 0" "frame_follows v c (geom_before_block (geos v c))"
      "pending_geometry (geos v c) \<noteq> PendingGeometryNone"
    using assms True by (simp_all add: v_def geometry_ok_def frame_follows_def)
  obtain g where g: "unblockGeometryUpdates c w =
      upd_geo c (\<lambda>g. g\<lparr>pending_geometry := PendingGeometryNone\<rparr>) (setGeometry c g NormalGeometrySet v)"
    using v(1,3) unfolding unblockGeometryUpdates_def Let_def v_def [symmetric] by (cases "shaded v c") auto
  have "\<not> (NormalGeometrySet = NormalGeometrySet \<and> geometry v c = mk_rect (topLeft g) (effective_size v c (rect_size g))
      \<and> pending_geometry (geos v c) = PendingGeometryNone)" using v(3) by simp
  from setGeometry_update [OF v(1,2) this] show ?thesis unfolding g by (simp add: ok_defs)
qed

section \<open>Steps\<close>

lemma geometry_ok_cong:
  "geos v d = geos w d \<Longrightarrow> geometry v d = geometry w d \<Longrightarrow> geometry_ok v d = geometry_ok w d"
  by (simp add: ok_defs)

lemma setGeometry_other:
  assumes "d \<noteq> c"
  shows "geos (setGeometry c g f w) d = geos w d"
proof -
  obtain s u where u: "set_client_size c (rect_size g) w = (s, u)" by (rule prod.exhaust)
  then have "geos u d = geos w d" using set_client_size_other [OF assms, of "rect_size g" w] by simp
  then show ?thesis using assms by (simp add: setGeometry_def u Let_def)
qed

lemma plainResize_other:
  assumes "d \<noteq> c"
  shows "geos (plainResize c s f w) d = geos w d"
proof -
  obtain t u where u: "set_client_size c s w = (t, u)" by (rule prod.exhaust)
  then have "geos u d = geos w d" using set_client_size_other [OF assms, of s w] by simp
  then show ?thesis using assms by (simp add: plainResize_def u Let_def frame_resize_def)
qed

lemma move_other: "d \<noteq> c \<Longrightarrow> geos (move c p f w) d = geos w d"
  by (simp add: move_def Let_def frame_move_def)

lemma block_other: "d \<noteq> c \<Longrightarrow> geos (blockGeometryUpdates c w) d = geos w d"
  by (simp add: blockGeometryUpdates_def)

lemma unblock_other:
  "d \<noteq> c \<Longrightarrow> geos (unblockGeometryUpdates c w) d = geos w d \<and>
     geometry (unblockGeometryUpdates c w) d = geometry w d"
  by (simp add: unblockGeometryUpdates_def Let_def setGeometry_other setGeometry_geometry)

text \<open>One operation on the geometry of one of the windows; an update is unblocked once for each
  time it was blocked.\<close>

inductive geometry_step :: "gworld \<Rightarrow> gworld \<Rightarrow> bool" where
  set: "geometry_step w (setGeometry c g f w)"
| resized: "geometry_step w (plainResize c s f w)"
| moved: "geometry_step w (move c p f w)"
| block: "geometry_step w (blockGeometryUpdates c w)"
| unblock: "0 < block_geometry (geos w c) \<Longrightarrow> geometry_step w (unblockGeometryUpdates c w)"

lemma geometry_step_ok:
  assumes "geometry_step w v" "\<forall>c. geometry_ok w c"
  shows "geometry_ok v d"
  using assms
proof cases
  case (set c g f)
  then show ?thesis using assms(2) setGeometry_ok geometry_ok_cong [OF setGeometry_other]
    by (cases "d = c") (auto simp: setGeometry_geometry)
next
  case (resized c s f)
  then show ?thesis using assms(2) plainResize_ok geometry_ok_cong [OF plainResize_other]
    by (cases "d = c") (auto simp: plainResize_geometry)
next
  case (moved c p f)
  then show ?thesis using assms(2) move_ok geometry_ok_cong [OF move_other]
    by (cases "d = c") (auto simp: move_geometry)
next
  case (block c)
  then show ?thesis using assms(2) block_ok geometry_ok_cong [OF block_other]
    by (cases "d = c") auto
next
  case (unblock c)
  show ?thesis
  proof (cases "d = c")
    case True
    then show ?thesis using unblock unblock_ok assms(2) by simp
  next
    case False
    from unblock_other [OF this, of w] show ?thesis
      using geometry_ok_cong [of v d w] unblock(1) assms(2) by simp
  qed
qed

lemma keepInArea_eq:
  fixes area :: rect and c :: win and w :: gworld and partial :: bool
  defines "a \<equiv> if partial then partial_area w c area else area"
  defines "v \<equiv> if \<not> partial \<and> (rwidth a < wwidth w c \<or> rheight a < wheight w c)
    then resizeWithChecks c (min (rwidth a) (wwidth w c), min (rheight a) (wheight w c)) None NormalGeometrySet w
    else w"
  defines "p \<equiv> kept_pos (geometry v c) a"
  shows "keepInArea c area partial w =
    (if fst p \<noteq> wx v c \<or> snd p \<noteq> wy v c then move c p NormalGeometrySet v else v)"
  by (simp only: keepInArea_def Let_def a_def v_def p_def)

lemma resizeWithChecks_step: "geometry_step v (resizeWithChecks c s g f v)"
  unfolding resizeWithChecks_def Let_def by (rule geometry_step.set)

lemma keepInArea_steps: "geometry_step\<^sup>*\<^sup>* w (keepInArea c area partial w)"
proof -
  define a where "a = (if partial then partial_area w c area else area)"
  define v where "v = (if \<not> partial \<and> (rwidth a < wwidth w c \<or> rheight a < wheight w c)
    then resizeWithChecks c (min (rwidth a) (wwidth w c), min (rheight a) (wheight w c)) None NormalGeometrySet w
    else w)"
  have v: "geometry_step\<^sup>*\<^sup>* w v" by (simp add: v_def r_into_rtranclp resizeWithChecks_step)
  then have "geometry_step\<^sup>*\<^sup>* w (move c p NormalGeometrySet v)" for p
    using geometry_step.moved rtranclp.rtrancl_into_rtrancl by metis
  then show ?thesis using v
    unfolding keepInArea_eq [of c area partial w, folded a_def, folded v_def] by simp
qed

section \<open>What the wrapper and the client window were given\<close>

text \<open>
  The window of the client and its wrapper within the frame: the rectangle and the size the calls gave
  them last, before any of them \<open>X c\<close>.
\<close>

fun apply_sent :: "win \<Rightarrow> gcall \<Rightarrow> rect \<times> qsize \<Rightarrow> rect \<times> qsize" where
  "apply_sent c (WrapperSetGeometry d g) p = (if d = c then (g, snd p) else p)"
| "apply_sent c (ClientSetGeometry d s) p = (if d = c then (fst p, s) else p)"
| "apply_sent c e p = p"

definition sent_at :: "(win \<Rightarrow> rect \<times> qsize) \<Rightarrow> gworld \<Rightarrow> win \<Rightarrow> rect \<times> qsize" where
  "sent_at X w c = fold (apply_sent c) (gcalls w) (X c)"

definition inner_size :: "gworld \<Rightarrow> win \<Rightarrow> qsize \<Rightarrow> qsize" where
  "inner_size w c s = (fst s - borderLeft w c - borderRight w c, snd s - borderTop w c - borderBottom w c)"

definition synced_resize :: "gworld \<Rightarrow> win \<Rightarrow> bool" where
  "synced_resize w c \<longleftrightarrow> isResize w c \<and> has_sync_counter (geos w c)"

definition sent_ok :: "(win \<Rightarrow> rect \<times> qsize) \<Rightarrow> gworld \<Rightarrow> win \<Rightarrow> bool" where
  "sent_ok X w c \<longleftrightarrow>
     (\<not> shaded w c \<and> \<not> shade_geometry_change (geos w c) \<longrightarrow>
       (let s = inner_size w c (rect_size (geom_before_block (geos w c))) in
        client_size (geos w c) = inner_size w c (rect_size (geometry w c)) \<and>
        fst (sent_at X w c) = mk_rect (clientPos w c) s \<and> (\<not> synced_resize w c \<longrightarrow> snd (sent_at X w c) = s)))"

lemma sent_calls [simp]:
  "sent_at X (gcall e w) d = apply_sent d e (sent_at X w d)" "sent_at X (upd_geo c f w) d = sent_at X w d"
  "sent_at X (set_geom c g w) d = sent_at X w d" "sent_at X (screens_setCurrentClient c w) d = sent_at X w d"
  "sent_at X (emit_checked c e w) d = apply_sent d e (sent_at X w d)"
  "sent_at X (note_pending c force w) d = sent_at X w d" "sent_at X (snd (set_client_size c s w)) d = sent_at X w d"
  by (simp_all add: sent_at_def)

lemma sent_done [simp]: "sent_at X (geometry_done c w) d = sent_at X w d"
  by (simp add: geometry_done_def Let_def)

text \<open>What decides about the inner window and does not change.\<close>

definition inner_frame :: "gworld \<Rightarrow> win \<Rightarrow> bool \<times> (int \<times> int \<times> int \<times> int) \<times> bool \<times> bool \<times> bool \<times> bool" where
  "inner_frame w c = (decorated (geos w c), borders (geos w c), shade_geometry_change (geos w c), shaded w c,
     isResize w c, has_sync_counter (geos w c))"

lemma inner_frame_same:
  assumes "inner_frame v c = inner_frame w c"
  shows "inner_size v c = inner_size w c" "clientPos v c = clientPos w c" "synced_resize v c = synced_resize w c"
    "shaded v c = shaded w c" "shade_geometry_change (geos v c) = shade_geometry_change (geos w c)"
  using assms
  by (simp_all add: inner_frame_def inner_size_def fun_eq_iff clientPos_def synced_resize_def borderLeft_def
      borderTop_def borderRight_def borderBottom_def)

lemma inner_frame_sel [simp]:
  "inner_frame (gcall e w) d = inner_frame w d" "inner_frame (set_geom c g w) d = inner_frame w d"
  "inner_frame (screens_setCurrentClient c w) d = inner_frame w d"
  "inner_frame (emit_checked c e w) d = inner_frame w d"
  "inner_frame (note_pending c f w) d = inner_frame w d" "inner_frame (snd (set_client_size c s w)) d = inner_frame w d"
  "inner_frame (upd_geo c (\<lambda>g. g\<lparr>geom_before_block := h g\<rparr>) w) d = inner_frame w d"
  "inner_frame (upd_geo c (\<lambda>g. g\<lparr>frame_geometry := h g\<rparr>) w) d = inner_frame w d"
  "inner_frame (upd_geo c (\<lambda>g. g\<lparr>needs_x_move := b\<rparr>) w) d = inner_frame w d"
  "inner_frame (upd_geo c (\<lambda>g. g\<lparr>pending_geometry := k g\<rparr>) w) d = inner_frame w d"
  "inner_frame (upd_geo c (\<lambda>g. g\<lparr>block_geometry := n g\<rparr>) w) d = inner_frame w d"
  "inner_frame (upd_geo c (\<lambda>g. g\<lparr>pending_geometry := k g, block_geometry := n g\<rparr>) w) d = inner_frame w d"
  by (simp_all add: inner_frame_def isResize_def note_pending_def set_client_size_def Let_def)

lemma inner_frame_done [simp]: "inner_frame (geometry_done c w) d = inner_frame w d"
  by (simp add: geometry_done_def Let_def)

lemma inner_frame_send [simp]: "inner_frame (send_geometry c g r w) d = inner_frame w d"
  by (simp add: send_geometry_def frame_setGeometry_def frame_move_def Let_def)

lemma set_client_size_client:
  assumes "\<not> shaded w c" "\<not> shade_geometry_change (geos w c)"
  shows "fst (set_client_size c s w) = s" "client_size (geos (snd (set_client_size c s w)) c) = inner_size w c s"
  using assms by (simp_all add: set_client_size_def inner_size_def Let_def)

lemma sent_send:
  "sent_at X (send_geometry c g r w) d =
     (if d = c \<and> r \<and> \<not> shaded w c
      then (mk_rect (clientPos w c) (client_size (geos w c)),
            if synced_resize w c then snd (sent_at X w d) else client_size (geos w c))
      else sent_at X w d)"
  by (auto simp: send_geometry_def frame_setGeometry_def frame_move_def Let_def synced_resize_def isResize_def
      clientPos_def borderLeft_def borderTop_def prod_eq_iff)

lemma client_size_kept [simp]:
  "client_size (geos (send_geometry c g r w) d) = client_size (geos w d)"
  "client_size (geos (note_pending c f w) d) = client_size (geos w d)"
  by (simp_all add: send_geometry_def frame_setGeometry_def frame_move_def note_pending_def Let_def)

text \<open>One operation changes what was sent for its own window only.\<close>

lemma setGeometry_sent:
  assumes "sent_ok X w c"
  shows "sent_ok X (setGeometry c g f w) c" "inner_frame (setGeometry c g f w) d = inner_frame w d"
    "d \<noteq> c \<Longrightarrow> sent_at X (setGeometry c g f w) d = sent_at X w d"
proof -
  obtain s u where u: "set_client_size c (rect_size g) w = (s, u)" by (rule prod.exhaust)
  note sel = set_client_size_sel [of c "rect_size g" w, unfolded u snd_conv]
  have x: "sent_at X u d = sent_at X w d" "inner_frame u d = inner_frame w d" for d
    using sent_calls(7) [of X c "rect_size g" w d] inner_frame_sel(6) [of c "rect_size g" w d] u by simp_all
  show frame: "inner_frame (setGeometry c g f w) d = inner_frame w d" for d
    by (simp add: setGeometry_def u x Let_def)
  show "d \<noteq> c \<Longrightarrow> sent_at X (setGeometry c g f w) d = sent_at X w d"
    by (simp add: setGeometry_def u x Let_def sent_send)
  show "sent_ok X (setGeometry c g f w) c"
  proof (cases "\<not> shaded w c \<and> \<not> shade_geometry_change (geos w c)")
    case True
    then have c: "s = rect_size g" "client_size (geos u c) = inner_size w c s"
      using set_client_size_client [of w c "rect_size g"] u by simp_all
    have old: "fst (sent_at X w c) = mk_rect (clientPos w c) (inner_size w c (rect_size (geom_before_block (geos w c))))"
      "\<not> synced_resize w c \<longrightarrow> snd (sent_at X w c) = inner_size w c (rect_size (geom_before_block (geos w c)))"
      using assms True by (simp_all add: sent_ok_def Let_def)
    note same = inner_frame_same [OF x(2)]
    show ?thesis
      unfolding sent_ok_def Let_def inner_frame_same [OF frame]
      using True old c
      by (simp add: setGeometry_def u x Let_def sent_send sel same inner_frame_same [OF inner_frame_sel(2)] shaded_def [symmetric])
  next
    case False
    then show ?thesis unfolding sent_ok_def inner_frame_same [OF frame] by blast
  qed
qed

lemma plainResize_sent:
  assumes "sent_ok X w c"
  shows "sent_ok X (plainResize c z f w) c" "inner_frame (plainResize c z f w) d = inner_frame w d"
    "d \<noteq> c \<Longrightarrow> sent_at X (plainResize c z f w) d = sent_at X w d"
proof -
  obtain s u where u: "set_client_size c z w = (s, u)" by (rule prod.exhaust)
  note sel = set_client_size_sel [of c z w, unfolded u snd_conv]
  have x: "sent_at X u d = sent_at X w d" "inner_frame u d = inner_frame w d" for d
    using sent_calls(7) [of X c z w d] inner_frame_sel(6) [of c z w d] u by simp_all
  show frame: "inner_frame (plainResize c z f w) d = inner_frame w d" for d
    by (simp add: plainResize_def u x Let_def frame_resize_def)
  show "d \<noteq> c \<Longrightarrow> sent_at X (plainResize c z f w) d = sent_at X w d"
    by (simp add: plainResize_def u x Let_def frame_resize_def)
  show "sent_ok X (plainResize c z f w) c"
  proof (cases "\<not> shaded w c \<and> \<not> shade_geometry_change (geos w c)")
    case True
    then have c: "s = z" "client_size (geos u c) = inner_size w c s"
      using set_client_size_client [of w c z] u by simp_all
    have old: "fst (sent_at X w c) = mk_rect (clientPos w c) (inner_size w c (rect_size (geom_before_block (geos w c))))"
      "\<not> synced_resize w c \<longrightarrow> snd (sent_at X w c) = inner_size w c (rect_size (geom_before_block (geos w c)))"
      using assms True by (simp_all add: sent_ok_def Let_def)
    have pos: "clientPos v c = clientPos w c" if "decorated (geos v c) = decorated (geos u c)" "borders (geos v c) = borders (geos u c)" for v
      using x(2) [of c] that by (simp add: inner_frame_def clientPos_def borderLeft_def borderTop_def)
    show ?thesis
      unfolding sent_ok_def Let_def inner_frame_same [OF frame]
      using True old c
      by (simp add: plainResize_def u x Let_def sel frame_resize_def pos setSize_parts)
  next
    case False
    then show ?thesis unfolding sent_ok_def inner_frame_same [OF frame] by blast
  qed
qed

lemma move_sent:
  assumes "sent_ok X w c" "geometry_ok w c"
  shows "sent_ok X (move c p f w) c" "inner_frame (move c p f w) d = inner_frame w d"
    "d \<noteq> c \<Longrightarrow> sent_at X (move c p f w) d = sent_at X w d"
proof -
  show frame: "inner_frame (move c p f w) d = inner_frame w d" for d
    by (simp add: move_def Let_def frame_move_def)
  show "d \<noteq> c \<Longrightarrow> sent_at X (move c p f w) d = sent_at X w d" by (simp add: move_def Let_def frame_move_def)
  show "sent_ok X (move c p f w) c"
    unfolding sent_ok_def Let_def inner_frame_same [OF frame]
    using assms
    by (auto simp: sent_ok_def geometry_ok_def move_def Let_def frame_move_def moveTopLeft_parts areGeometryUpdatesBlocked_def)
qed

lemma sent_ok_same:
  assumes "sent_ok X w c" "inner_frame v c = inner_frame w c" "sent_at X v c = sent_at X w c"
    and "geom_before_block (geos v c) = geom_before_block (geos w c)" "client_size (geos v c) = client_size (geos w c)"
    and "geometry v c = geometry w c"
  shows "sent_ok X v c"
  using assms(1) unfolding sent_ok_def inner_frame_same [OF assms(2)] assms(3-6) .

lemma block_sent:
  assumes "sent_ok X w c"
  shows "sent_ok X (blockGeometryUpdates c w) c" "inner_frame (blockGeometryUpdates c w) d = inner_frame w d"
    "sent_at X (blockGeometryUpdates c w) d = sent_at X w d"
  using sent_ok_same [OF assms, of "blockGeometryUpdates c w"] by (simp_all add: blockGeometryUpdates_def)

lemma unblock_sent:
  assumes "sent_ok X w c"
  shows "sent_ok X (unblockGeometryUpdates c w) c" "inner_frame (unblockGeometryUpdates c w) d = inner_frame w d"
    "d \<noteq> c \<Longrightarrow> sent_at X (unblockGeometryUpdates c w) d = sent_at X w d"
proof -
  define v where "v = upd_geo c (\<lambda>g. g\<lparr>block_geometry := block_geometry g - 1\<rparr>) w"
  have v: "sent_ok X v c" "inner_frame v d = inner_frame w d" "sent_at X v d = sent_at X w d" for d
    using sent_ok_same [OF assms, of v] by (simp_all add: v_def)
  consider "unblockGeometryUpdates c w = v"
    | g where "unblockGeometryUpdates c w =
        upd_geo c (\<lambda>g. g\<lparr>pending_geometry := PendingGeometryNone\<rparr>) (setGeometry c g NormalGeometrySet v)"
    unfolding unblockGeometryUpdates_def Let_def v_def [symmetric] by metis
  then have "sent_ok X (unblockGeometryUpdates c w) c \<and>
      (\<forall>d. inner_frame (unblockGeometryUpdates c w) d = inner_frame w d) \<and>
      (\<forall>d. d \<noteq> c \<longrightarrow> sent_at X (unblockGeometryUpdates c w) d = sent_at X w d)"
  proof cases
    case 1
    then show ?thesis using v by simp
  next
    case 2
    note set = setGeometry_sent [OF v(1), where g = g and f = NormalGeometrySet]
    have "sent_ok X (unblockGeometryUpdates c w) c" unfolding 2 by (rule sent_ok_same [OF set(1)]) simp_all
    then show ?thesis using set(2,3) v(2,3) by (simp add: 2)
  qed
  then show "sent_ok X (unblockGeometryUpdates c w) c" "inner_frame (unblockGeometryUpdates c w) d = inner_frame w d"
    "d \<noteq> c \<Longrightarrow> sent_at X (unblockGeometryUpdates c w) d = sent_at X w d" by blast+
qed

lemma geometry_step_sent:
  assumes "geometry_step w v" "\<forall>c. geometry_ok w c \<and> sent_ok X w c"
  shows "sent_ok X v d"
proof -
  have other: "sent_ok X v d" if "inner_frame v d = inner_frame w d" "sent_at X v d = sent_at X w d"
      "geos v d = geos w d" "geometry v d = geometry w d"
    using sent_ok_same [of X w d v] assms(2) that by simp
  from assms show ?thesis
  proof cases
    case (set c g f)
    then show ?thesis using assms(2) setGeometry_sent [where X = X and w = w and c = c and g = g and f = f] other
      by (cases "d = c") (simp_all add: setGeometry_other setGeometry_geometry)
  next
    case (resized c s f)
    then show ?thesis using assms(2) plainResize_sent [where X = X and w = w and c = c and z = s and f = f] other
      by (cases "d = c") (simp_all add: plainResize_other plainResize_geometry)
  next
    case (moved c p f)
    then show ?thesis using assms(2) move_sent [where X = X and w = w and c = c and p = p and f = f] other
      by (cases "d = c") (simp_all add: move_other move_geometry)
  next
    case (block c)
    then show ?thesis using assms(2) block_sent [where X = X and w = w and c = c] other
      by (cases "d = c") (simp_all add: block_other)
  next
    case (unblock c)
    show ?thesis
    proof (cases "d = c")
      case True
      then show ?thesis using assms(2) unblock(1) unblock_sent(1) [of X w c] by simp
    next
      case False
      from unblock_other [OF this, of w] show ?thesis
        using other assms(2) unblock(1) unblock_sent(2,3) [of X w c d] False by simp
    qed
  qed
qed

text \<open>C25: After any operations on the geometry of windows, blocked or not, the frame of every window that is not
  blocked has at the X server the geometry the window manager believes in, but for a position that is sent when
  the interactive move ends.  Of a window that is not shaded, the wrapper lies where the decoration ends and
  has the size of the frame without the borders; so has the window of the client, unless it is resized
  interactively and answers by a sync counter.  All this once it was so (\<open>X\<close> has what the wrapper and
  the client were given before).\<close>

theorem geometry_agrees:
  assumes "geometry_step\<^sup>*\<^sup>* w v" "\<forall>c. geometry_ok w c \<and> sent_ok X w c" "block_geometry (geos v c) = 0"
  shows "(if needs_x_move (geos v c) then rect_size (frame_geometry (geos v c)) = rect_size (geometry v c)
      else frame_geometry (geos v c) = geometry v c) \<and>
    (\<not> shaded v c \<and> \<not> shade_geometry_change (geos v c) \<longrightarrow>
      fst (sent_at X v c) = mk_rect (clientPos v c) (inner_size v c (rect_size (geometry v c))) \<and>
      client_size (geos v c) = inner_size v c (rect_size (geometry v c)) \<and>
      (\<not> synced_resize v c \<longrightarrow> snd (sent_at X v c) = inner_size v c (rect_size (geometry v c))))"
proof -
  have "\<forall>d. geometry_ok v d \<and> sent_ok X v d"
    using assms(1,2)
  proof (induction rule: rtranclp_induct)
    case (step y z)
    then have y: "\<forall>d. geometry_ok y d \<and> sent_ok X y d" by blast
    then show ?case using geometry_step_ok [OF step.hyps(2)] geometry_step_sent [OF step.hyps(2) y] by blast
  qed
  then have "geometry_ok v c" "sent_ok X v c" by blast+
  then show ?thesis using assms(3) by (simp add: sent_ok_def ok_defs Let_def)
qed

lemma geometry_agrees_witness:
  "frame_geometry (geos (plainResize 1 (70, 80) NormalGeometrySet example_screen) 1) = mk_rect (0, 0) (70, 80) \<and>
   sent_at (\<lambda>_. (mk_rect (2, 20) (96, 78), (96, 78))) (plainResize 1 (70, 80) NormalGeometrySet example_screen) 1 =
     (mk_rect (2, 20) (66, 58), (66, 58))"
proof -
  let ?X = "\<lambda>_. (mk_rect (2, 20) (96, 78), (96, 78))"
  let ?v = "plainResize 1 (70, 80) NormalGeometrySet example_screen"
  have "\<forall>c. geometry_ok example_screen c \<and> sent_ok ?X example_screen c"
    by (simp add: ok_defs sent_ok_def sent_at_def inner_size_def clientPos_def borderLeft_def borderTop_def borderRight_def
      borderBottom_def rect_size_def rwidth_def rheight_def example_screen_def empty_session_def plain_client_def
      plain_geo_def geometry_def mk_rect_def world.defs Let_def shaded_def isShade_def)
  moreover have "geometry_step\<^sup>*\<^sup>* example_screen ?v" by (rule r_into_rtranclp, rule geometry_step.resized)
  moreover have "geometry ?v 1 = mk_rect (0, 0) (70, 80)" "block_geometry (geos ?v 1) = 0" "\<not> needs_x_move (geos ?v 1)"
    "\<not> shaded ?v 1" "\<not> shade_geometry_change (geos ?v 1)" "\<not> synced_resize ?v 1"
    "inner_size ?v 1 (rect_size (mk_rect (0, 0) (70, 80))) = (66, 58)" "clientPos ?v 1 = (2, 20)" by code_simp+
  ultimately have "frame_geometry (geos ?v 1) = mk_rect (0, 0) (70, 80)" "fst (sent_at ?X ?v 1) = mk_rect (2, 20) (66, 58)"
    "snd (sent_at ?X ?v 1) = (66, 58)"
    using geometry_agrees [of example_screen ?v ?X 1] by simp_all
  then show ?thesis by (metis prod.collapse)
qed

section \<open>Blocked updates\<close>

text \<open>A series of operations on one window, and what each means for its geometry.\<close>

datatype geometry_op =
    OpSetGeometry rect ForceGeometry
  | OpResize qsize ForceGeometry
  | OpMove point ForceGeometry

primrec run_op :: "win \<Rightarrow> geometry_op \<Rightarrow> gworld \<Rightarrow> gworld" where
  "run_op c (OpSetGeometry g f) w = setGeometry c g f w"
| "run_op c (OpResize s f) w = plainResize c s f w"
| "run_op c (OpMove p f) w = move c p f w"

primrec abs_op :: "geometry_op \<Rightarrow> rect \<Rightarrow> rect" where
  "abs_op (OpSetGeometry g f) a = g"
| "abs_op (OpResize s f) a = mk_rect (topLeft a) s"
| "abs_op (OpMove p f) a = mk_rect p (rect_size a)"

text \<open>The requests that move or resize the frame.\<close>

fun is_frame_call :: "gcall \<Rightarrow> bool" where
  "is_frame_call (FrameSetGeometry c g) = True"
| "is_frame_call (FrameMove c p) = True"
| "is_frame_call (FrameResize c s) = True"
| "is_frame_call e = False"

definition frame_calls :: "gworld \<Rightarrow> nat" where
  "frame_calls w = length (filter is_frame_call (gcalls w))"

lemma frame_calls_sel [simp]:
  "frame_calls (gcall e w) = frame_calls w + (if is_frame_call e then 1 else 0)"
  "frame_calls (upd_geo c f w) = frame_calls w" "frame_calls (set_geom c g w) = frame_calls w"
  "frame_calls (screens_setCurrentClient c w) = frame_calls w"
  "frame_calls (snd (set_client_size c s w)) = frame_calls w"
  "frame_calls (note_pending c force w) = frame_calls w"
  "frame_calls (emit_checked c e w) = frame_calls w + (if is_frame_call e then 1 else 0)"
  by (simp_all add: frame_calls_def)

lemma frame_calls_done [simp]: "frame_calls (geometry_done c w) = frame_calls w"
  by (simp add: geometry_done_def Let_def)

lemma frame_calls_send: "frame_calls (send_geometry c g r w) \<le> frame_calls w + 1"
  by (simp add: send_geometry_def Let_def frame_setGeometry_def frame_move_def)

lemma frame_calls_setGeometry: "frame_calls (setGeometry c g f w) \<le> frame_calls w + 1"
proof -
  obtain s u where u: "set_client_size c (rect_size g) w = (s, u)" by (rule prod.exhaust)
  have f: "frame_calls u = frame_calls w" using frame_calls_sel(5) [of c "rect_size g" w] u by simp
  show ?thesis
    using frame_calls_send [of c "mk_rect (topLeft g) s" _ "set_geom c (mk_rect (topLeft g) s) u"]
    by (simp add: setGeometry_def u Let_def f)
qed

definition quiet_change :: "win \<Rightarrow> rect \<Rightarrow> gworld \<Rightarrow> gworld \<Rightarrow> bool" where
  "quiet_change c g w v \<longleftrightarrow>
     geometry v c = g \<and> gcalls v = gcalls w \<and> shaded v c = shaded w c \<and>
     block_geometry (geos v c) = block_geometry (geos w c) \<and> geometry_ok v c"

lemma run_op_quiet:
  assumes "geometry_ok w c" "block_geometry (geos w c) \<noteq> 0" "\<not> shaded w c"
  shows "quiet_change c (abs_op e (geometry w c)) w (run_op c e w)"
proof (cases e)
  case (OpSetGeometry g f)
  have e: "effective_size w c s = s" for s using assms(3) by (simp add: effective_size_def)
  have "gcalls (setGeometry c g f w) = gcalls w \<and> shaded (setGeometry c g f w) c = shaded w c \<and>
      block_geometry (geos (setGeometry c g f w) c) = block_geometry (geos w c)"
    using setGeometry_noop [of f w c g] setGeometry_blocked [OF assms(2), of f g]
    by (cases "f = NormalGeometrySet \<and> geometry w c = mk_rect (topLeft g) (effective_size w c (rect_size g)) \<and>
      pending_geometry (geos w c) = PendingGeometryNone") (auto simp: note_pending_def)
  then show ?thesis
    using OpSetGeometry assms(1) setGeometry_ok by (simp add: quiet_change_def setGeometry_geometry e rect_of_parts)
next
  case (OpResize s f)
  obtain t u where u: "set_client_size c s w = (t, u)" by (rule prod.exhaust)
  note sel = set_client_size_sel [of c s w, unfolded u snd_conv]
  have e: "effective_size w c s = s" using assms(3) by (simp add: effective_size_def)
  have "gcalls (plainResize c s f w) = gcalls w \<and> shaded (plainResize c s f w) c = shaded w c \<and>
      block_geometry (geos (plainResize c s f w) c) = block_geometry (geos w c)"
    using assms(2) by (simp add: plainResize_def u Let_def areGeometryUpdatesBlocked_def sel)
       (simp add: note_pending_def sel)
  then show ?thesis
    using OpResize assms(1) plainResize_ok by (simp add: quiet_change_def plainResize_geometry e setSize_parts)
next
  case (OpMove p f)
  have "gcalls (move c p f w) = gcalls w \<and> shaded (move c p f w) c = shaded w c \<and>
      block_geometry (geos (move c p f w) c) = block_geometry (geos w c)"
    using assms(2) by (simp add: move_def Let_def areGeometryUpdatesBlocked_def note_pending_def)
  then show ?thesis
    using OpMove assms(1) move_ok by (simp add: quiet_change_def move_geometry moveTopLeft_parts)
qed

lemma run_ops_quiet:
  assumes "geometry_ok w c" "block_geometry (geos w c) \<noteq> 0" "\<not> shaded w c"
  shows "quiet_change c (fold abs_op es (geometry w c)) w (fold (run_op c) es w)"
  using assms
proof (induction es arbitrary: w)
  case Nil
  then show ?case by (simp add: quiet_change_def)
next
  case (Cons e es)
  have q: "quiet_change c (abs_op e (geometry w c)) w (run_op c e w)" using Cons.prems by (rule run_op_quiet)
  then have "quiet_change c (fold abs_op es (geometry (run_op c e w) c)) (run_op c e w) (fold (run_op c) es (run_op c e w))"
    using Cons.IH Cons.prems by (simp add: quiet_change_def)
  then show ?case using q by (simp add: quiet_change_def)
qed

lemma with_geometry_blocked_collapse:
  fixes es :: "geometry_op list"
  assumes "geometry_ok w c" "block_geometry (geos w c) = 0" "\<not> shaded w c"
  defines "v \<equiv> with_geometry_blocked c (fold (run_op c) es) w"
  shows "geometry v c = fold abs_op es (geometry w c)" "geometry_ok v c" "block_geometry (geos v c) = 0"
    "frame_calls v \<le> frame_calls w + 1"
proof -
  define b where "b = blockGeometryUpdates c w"
  have b: "geometry_ok b c" "block_geometry (geos b c) = 1" "\<not> shaded b c" "geometry b c = geometry w c"
      "gcalls b = gcalls w"
    using assms(1-3) block_ok by (simp_all add: b_def blockGeometryUpdates_def)
  define x where "x = fold (run_op c) es b"
  have x: "quiet_change c (fold abs_op es (geometry w c)) b x"
    using run_ops_quiet [of b c es] b by (simp add: x_def)
  have ox: "geometry_ok x c" "block_geometry (geos x c) = 1" "\<not> shaded x c" "gcalls x = gcalls w"
      "geometry x c = fold abs_op es (geometry w c)"
    using x b by (simp_all add: quiet_change_def)
  have v: "v = unblockGeometryUpdates c x" by (simp add: v_def with_geometry_blocked_def b_def x_def)
  show "geometry_ok v c" using unblock_ok [OF ox(1)] ox(2) v by simp
  have e: "effective_size y c s = s" if "\<not> shaded y c" for y s using that by (simp add: effective_size_def)
  show "geometry v c = fold abs_op es (geometry w c)"
    using ox(2,3,5) by (simp add: v unblockGeometryUpdates_def Let_def setGeometry_geometry e rect_of_parts)
  define y where "y = upd_geo c (\<lambda>g. g\<lparr>block_geometry := block_geometry g - 1\<rparr>) x"
  have y: "block_geometry (geos y c) = 0" "frame_follows y c (geom_before_block (geos y c))" "\<not> shaded y c"
      "frame_calls y = frame_calls w"
    using ox by (simp_all add: y_def ok_defs frame_calls_def)
  have vy: "v = (if pending_geometry (geos y c) \<noteq> PendingGeometryNone
      then upd_geo c (\<lambda>g. g\<lparr>pending_geometry := PendingGeometryNone\<rparr>)
             (setGeometry c (geometry y c) NormalGeometrySet y)
      else y)"
    using y(1,3) unfolding v unblockGeometryUpdates_def Let_def y_def [symmetric] by simp
  have go: "\<not> (NormalGeometrySet = NormalGeometrySet \<and>
      geometry y c = mk_rect (topLeft (geometry y c)) (effective_size y c (rect_size (geometry y c))) \<and>
      pending_geometry (geos y c) = PendingGeometryNone)" if "pending_geometry (geos y c) \<noteq> PendingGeometryNone"
    using that by simp
  show "block_geometry (geos v c) = 0"
    using vy y(1) setGeometry_update(3) [OF y(1,2) go] by (simp split: if_splits)
  show "frame_calls v \<le> frame_calls w + 1"
    using vy y(4) frame_calls_setGeometry [of c "geometry y c" NormalGeometrySet y] by (simp split: if_splits)
qed

text \<open>C26: Operations on a window while its updates are blocked have together the effect of one
  update: the geometry at the end is that of the operations one after the other, the X server has
  it when the blocking ends, and the frame is changed at most once.\<close>

theorem blocked_updates_collapse:
  fixes es :: "geometry_op list"
  assumes "geometry_ok w c" "block_geometry (geos w c) = 0" "\<not> shaded w c"
  defines "v \<equiv> with_geometry_blocked c (fold (run_op c) es) w"
  shows "geometry v c = fold abs_op es (geometry w c) \<and>
    (\<not> needs_x_move (geos v c) \<longrightarrow> frame_geometry (geos v c) = fold abs_op es (geometry w c)) \<and>
    frame_calls v \<le> frame_calls w + 1"
proof -
  note v = with_geometry_blocked_collapse [OF assms(1-3), of es, folded v_def]
  have "frame_follows v c (geometry v c)" using v(2,3) by (auto simp: geometry_ok_def)
  then show ?thesis using v(1,4) by (auto simp: frame_follows_def)
qed

lemma blocked_updates_collapse_witness:
  "geometry (with_geometry_blocked 1 (fold (run_op 1)
      [OpMove (5, 5) NormalGeometrySet, OpResize (50, 60) NormalGeometrySet]) example_screen) 1 =
    mk_rect (5, 5) (50, 60)"
proof -
  have "geometry_ok example_screen 1" "block_geometry (geos example_screen 1) = 0" "\<not> shaded example_screen 1"
    by (simp_all add: ok_defs example_screen_def empty_session_def plain_client_def plain_geo_def
      geometry_def mk_rect_def world.defs shaded_def isShade_def)
  note c = conjunct1 [OF blocked_updates_collapse [OF this]]
  have "fold abs_op [OpMove (5, 5) NormalGeometrySet, OpResize (50, 60) NormalGeometrySet] (geometry example_screen 1) =
    mk_rect (5, 5) (50, 60)" by code_simp
  then show ?thesis by (rule trans [OF c])
qed

end
