(* ===== verification/PositionFacts.thy ===== *)
theory PositionFacts
  imports GeometryFacts
begin

text \<open>
  Properties of the placement inside areas: \<open>keepInArea\<close>, \<open>checkOffscreenPosition\<close>, the quick
  tiles, the area without struts and the size of a frame.
\<close>

section \<open>Kept in an area\<close>

lemma geometry_keepInArea:
  fixes area :: rect and c :: win and w :: gworld and partial :: bool
  defines "a \<equiv> if partial then partial_area w c area else area"
  shows "\<exists>g. geometry (keepInArea c area partial w) c = mk_rect (kept_pos g a) (rect_size g) \<and>
    (partial \<longrightarrow> g = geometry w c)"
proof -
  define v where "v = (if \<not> partial \<and> (rwidth a < wwidth w c \<or> rheight a < wheight w c)
    then resizeWithChecks c (min (rwidth a) (wwidth w c), min (rheight a) (wheight w c)) None NormalGeometrySet w
    else w)"
  define p where "p = kept_pos (geometry v c) a"
  have k: "keepInArea c area partial w =
      (if fst p \<noteq> wx v c \<or> snd p \<noteq> wy v c then move c p NormalGeometrySet v else v)"
    by (simp only: keepInArea_eq v_def p_def a_def)
  have "mk_rect p (rect_size (geometry v c)) = geometry v c" if "fst p = wx v c" "snd p = wy v c"
    using that rect_of_parts [of "geometry v c"] by (metis prod.collapse topLeft_def wx_def wy_def)
  then have "geometry (keepInArea c area partial w) c = mk_rect p (rect_size (geometry v c))"
    unfolding k by (auto simp: move_geometry moveTopLeft_parts)
  moreover have "partial \<longrightarrow> geometry v c = geometry w c" by (simp add: v_def)
  ultimately show ?thesis unfolding p_def by blast
qed

lemma kept_pos_inside:
  fixes a g :: rect
  assumes "rect_isValid a"
  defines "g' \<equiv> mk_rect (kept_pos g a) (rect_size g)"
  shows "rwidth g \<le> rwidth a \<Longrightarrow> rx1 a \<le> rx1 g' \<and> rx2 g' \<le> rx2 a"
    and "rheight g \<le> rheight a \<Longrightarrow> ry1 a \<le> ry1 g' \<and> ry2 g' \<le> ry2 a"
  using assms(1)
  by (auto simp: g'_def kept_pos_def Let_def rect_simps rect_size_def contains_point_valid topLeft_def
    rwidth_def rheight_def rect_isValid_def split: if_splits)

text \<open>C28: \<open>keepInArea\<close> leaves a window inside the area in each direction in which the window, resized
  as far as its constraints allow, is not larger than the area.  With \<open>partial\<close> at least 100 of
  its columns and rows are inside, or all it has when it has fewer.\<close>

theorem keepInArea_bounds:
  fixes area :: rect and c :: win and w :: gworld
  assumes "rect_isValid area" "100 \<le> rwidth area" "100 \<le> rheight area"
  defines "g \<equiv> geometry (keepInArea c area False w) c" and "p \<equiv> geometry (keepInArea c area True w) c"
  shows "(rwidth g \<le> rwidth area \<longrightarrow> rx1 area \<le> rx1 g \<and> rx2 g \<le> rx2 area) \<and>
    (rheight g \<le> rheight area \<longrightarrow> ry1 area \<le> ry1 g \<and> ry2 g \<le> ry2 area) \<and>
    min 100 (rwidth p) \<le> min (rx2 p) (rx2 area) - max (rx1 p) (rx1 area) + 1 \<and>
    min 100 (rheight p) \<le> min (ry2 p) (ry2 area) - max (ry1 p) (ry1 area) + 1"
proof -
  have sz: "rwidth (mk_rect q (rect_size h)) = rwidth h" "rheight (mk_rect q (rect_size h)) = rheight h" for q h
    by (simp_all add: rect_simps rect_size_def rwidth_def rheight_def)
  obtain h where h: "g = mk_rect (kept_pos h area) (rect_size h)"
    using geometry_keepInArea [of c area False w] by (auto simp: g_def)
  define h' where "h' = geometry w c"
  define a where "a = partial_area w c area"
  have p: "p = mk_rect (kept_pos h' a) (rect_size h')"
    using geometry_keepInArea [of c area True w] by (auto simp: p_def h'_def a_def)
  have a: "rx1 a = min (rx1 area - rwidth h' + 100) (rx1 area)" "rx2 a = max (rx2 area + rwidth h' - 100) (rx2 area)"
      "ry1 a = min (ry1 area - rheight h' + 100) (ry1 area)" "ry2 a = max (ry2 area + rheight h' - 100) (ry2 area)"
    by (simp_all add: a_def partial_area_def rect_simps wwidth_def wheight_def h'_def)
  have va: "rect_isValid a" using assms(1) by (auto simp: rect_isValid_def a)
  have "rwidth h' \<le> rwidth a" "rheight h' \<le> rheight a"
    using assms(2,3) by (auto simp: rwidth_def [of a] rheight_def [of a] a) (auto simp: rwidth_def rheight_def)
  from kept_pos_inside [OF va, of h', folded p] this
  have "rx1 a \<le> rx1 p" "rx2 p \<le> rx2 a" "ry1 a \<le> ry1 p" "ry2 p \<le> ry2 a" by auto
  moreover have "rwidth p = rwidth h'" "rheight p = rheight h'" unfolding p sz by (rule refl)+
  ultimately have "min 100 (rwidth p) \<le> min (rx2 p) (rx2 area) - max (rx1 p) (rx1 area) + 1"
      "min 100 (rheight p) \<le> min (ry2 p) (ry2 area) - max (ry1 p) (ry1 area) + 1"
    using assms(2,3) by (auto simp: a rwidth_def rheight_def)
  then show ?thesis using kept_pos_inside [OF assms(1), of h, folded h] by (simp add: h sz)
qed

section \<open>Off the screen\<close>

text \<open>\<open>checkOffscreenPosition\<close> brings a window that is off a screen back onto it, unless the window
  was above the screen and a quarter of the screen's width, which is used for its height, is more
  than the height of the screen and the window together.\<close>

lemma checkOffscreenPosition_visible:
  assumes "rect_isValid g" "rect_isValid s"
  shows "intersects (checkOffscreenPosition g s) s \<longleftrightarrow>
    \<not> (ry2 g < ry1 s \<and> rheight s + rheight g - 2 < c_div (rwidth s) 4)"
proof -
  define q where "q = c_div (rwidth s) 4"
  define r where "r = c_div (rheight s) 4"
  have q: "0 \<le> q" "q < rwidth s" and r: "0 \<le> r" "r < rheight s"
    using assms(2) by (auto simp: q_def r_def rect_isValid_def rwidth_def rheight_def)
  define h where "h = (if rx1 g > rx2 s then moveLeft (rx2 s - q) g
     else if rx2 g < rx1 s then moveRight (rx1 s + q) g else g)"
  have f: "checkOffscreenPosition g s =
      (if ry1 g > ry2 s then moveTop (ry2 s - r) h else if ry2 g < ry1 s then moveBottom (ry1 s + q) h else h)"
    by (simp add: checkOffscreenPosition_def h_def q_def r_def Let_def rect_simps)
  have h: "ry1 h = ry1 g" "ry2 h = ry2 g" "rwidth h = rwidth g" "rheight h = rheight g"
      "rx1 h \<le> rx2 s" "rx1 s \<le> rx2 h" "rx1 h \<le> rx2 h"
    using q r assms by (auto simp: h_def rect_simps rect_isValid_def rwidth_def rheight_def)
  have v: "rect_isValid (checkOffscreenPosition g s)"
    using assms h by (auto simp: f rect_isValid_def rect_simps rwidth_def rheight_def)
  show ?thesis
    unfolding intersects_valid [OF v assms(2)] q_def [symmetric]
    using assms h q r by (auto simp: f rect_simps rect_isValid_def rwidth_def rheight_def)
qed

lemma keepInArea_bounds_witness:
  "rx2 (geometry (keepInArea 1 (mk_rect (200, 0) (150, 150)) False example_screen) 1) \<le> 349"
proof -
  let ?a = "mk_rect (200, 0) (150, 150)"
  have "rect_isValid ?a" "100 \<le> rwidth ?a" "100 \<le> rheight ?a" by (simp_all add: rect_isValid_def rect_simps)
  moreover have "rwidth (geometry (keepInArea 1 ?a False example_screen) 1) \<le> rwidth ?a" by code_simp
  ultimately show ?thesis using keepInArea_bounds [of ?a 1 example_screen] by (simp add: rect_simps)
qed

lemma checkOffscreenPosition_examples:
  "intersects (checkOffscreenPosition (mk_rect (0, - 300) (100, 100)) (mk_rect (0, 0) (400, 300))) (mk_rect (0, 0) (400, 300))
   \<and> \<not> intersects (checkOffscreenPosition (mk_rect (0, - 300) (100, 100)) (mk_rect (0, 0) (4000, 300))) (mk_rect (0, 0) (4000, 300))"
  using checkOffscreenPosition_visible [of "mk_rect (0, - 300) (100, 100)" "mk_rect (0, 0) (400, 300)"]
    checkOffscreenPosition_visible [of "mk_rect (0, - 300) (100, 100)" "mk_rect (0, 0) (4000, 300)"]
  by (simp add: rect_isValid_def rect_simps c_div_def)

section \<open>Quick tiles\<close>

text \<open>The tiles of an area that two perpendicular sides are asked for.\<close>

definition corner_tiles :: "rect \<Rightarrow> rect list" where
  "corner_tiles a =
     [tile_of (Tile True False True False) a, tile_of (Tile False True True False) a,
      tile_of (Tile True False False True) a, tile_of (Tile False True False True) a]"

text \<open>The four corner tiles of an area share it out: each point of the area is in exactly one of
  them and no other point is in any; two of them make up a side tile.\<close>

lemma tiles_partition_area:
  assumes "2 \<le> rwidth a" "2 \<le> rheight a"
  shows "length (filter (\<lambda>t. contains_point t p) (corner_tiles a)) = (if contains_point a p then 1 else 0) \<and>
    (contains_point (tile_of (Tile True False False False) a) p \<longleftrightarrow>
       contains_point (corner_tiles a ! 0) p \<or> contains_point (corner_tiles a ! 2) p) \<and>
    (contains_point (tile_of (Tile False False True False) a) p \<longleftrightarrow>
       contains_point (corner_tiles a ! 0) p \<or> contains_point (corner_tiles a ! 1) p)"
proof -
  define x where "x = rx1 a + c_div (rwidth a) 2"
  define y where "y = ry1 a + c_div (rheight a) 2"
  have x: "rx1 a < x" "x \<le> rx2 a" and y: "ry1 a < y" "y \<le> ry2 a"
    using assms by (auto simp: x_def y_def rwidth_def rheight_def c_div_def)
  have t: "tile_of (Tile True False v d) a = (if v then a\<lparr>rx2 := x - 1, ry2 := y - 1\<rparr>
        else if d then a\<lparr>rx2 := x - 1, ry1 := y\<rparr> else a\<lparr>rx2 := x - 1\<rparr>)"
      "tile_of (Tile False True v d) a = (if v then a\<lparr>rx1 := x, ry2 := y - 1\<rparr>
        else if d then a\<lparr>rx1 := x, ry1 := y\<rparr> else a\<lparr>rx1 := x\<rparr>)"
      "tile_of (Tile False False True d) a = a\<lparr>ry2 := y - 1\<rparr>" for v d
    by (auto simp: tile_of_def Let_def setRight_def setLeft_def setTop_def setBottom_def x_def y_def
      rwidth_def rheight_def)
  have c: "contains_point \<lparr>rx1 = i, ry1 = j, rx2 = k, ry2 = l\<rparr> p \<longleftrightarrow>
      i \<le> fst p \<and> fst p \<le> k \<and> j \<le> snd p \<and> snd p \<le> l" if "i \<le> k" "j \<le> l" for i j k l
    using that by (simp add: contains_point_valid rect_isValid_def)
  obtain i j k l where a: "a = \<lparr>rx1 = i, ry1 = j, rx2 = k, ry2 = l\<rparr>" by (cases a) auto
  show ?thesis using x y unfolding corner_tiles_def t by (auto simp: a c)
qed

lemma tiles_partition_area_witness:
  "length (filter (\<lambda>t. contains_point t (2, 2)) (corner_tiles (mk_rect (0, 0) (5, 4)))) = 1"
proof -
  have "2 \<le> rwidth (mk_rect (0, 0) (5, 4))" "2 \<le> rheight (mk_rect (0, 0) (5, 4))" by (simp_all add: rect_simps)
  moreover have "contains_point (mk_rect (0, 0) (5, 4)) (2, 2)" by code_simp
  ultimately show ?thesis using tiles_partition_area [of "mk_rect (0, 0) (5, 4)" "(2, 2)"] by (simp only: if_True)
qed

section \<open>Areas without struts\<close>

lemma intersects_iff:
  "rect_isValid b \<Longrightarrow> intersects a b \<longleftrightarrow>
     (let (l, r) = side (rx1 a) (rx2 a); (t, d) = side (ry1 a) (ry2 a)
      in \<not> null_rect a \<and> l \<le> rx2 b \<and> rx1 b \<le> r \<and> t \<le> ry2 b \<and> ry1 b \<le> d)"
  by (simp add: intersects_def valid_rect_facts Let_def case_prod_beta)

text \<open>
  What a window's struts take from an area, in terms of the struts the window has.  A strut takes the whole
  columns (or rows) from the side of the display to its inner side, from an area that has a row (or a
  column) in common with it, and that does not lie before the window's screen.  From the area of the
  whole display it takes nothing unless the window's screen lies at that side of it, but for the bottom, where
  the code makes the comparison the wrong way round.
\<close>

definition common :: "int \<times> int \<times> int \<Rightarrow> int \<Rightarrow> int \<Rightarrow> bool" where
  "common s lo hi \<longleftrightarrow> sstart s \<le> hi \<and> lo \<le> send s"

definition taken_by_strut :: "gworld \<Rightarrow> win \<Rightarrow> rect \<Rightarrow> rect \<Rightarrow> point \<Rightarrow> bool" where
  "taken_by_strut w c desktop area p \<longleftrightarrow>
     (let s = win_strut w c; scr = clientAreaOf w ScreenArea c; whole = (area = mk_rect (0, 0) (display_size w)) in
      fst p < swidth (left_strut s) \<and> common (left_strut s) (ry1 area) (ry2 area) \<and>
        rx1 scr \<le> rx2 area \<and> (whole \<longrightarrow> rx1 scr \<le> 0) \<or>
      fst p > rx2 desktop - swidth (right_strut s) \<and> common (right_strut s) (ry1 area) (ry2 area) \<and>
        rx1 area \<le> rx2 scr \<and> (whole \<longrightarrow> rx2 desktop \<le> rx2 scr) \<or>
      snd p < swidth (top_strut s) \<and> common (top_strut s) (rx1 area) (rx2 area) \<and>
        ry1 scr \<le> ry2 area \<and> (whole \<longrightarrow> ry1 scr \<le> 0) \<or>
      snd p > ry2 desktop - swidth (bottom_strut s) \<and> common (bottom_strut s) (rx1 area) (rx2 area) \<and>
        ry1 area \<le> ry2 scr)"

text \<open>Struts as windows set them: none at a side, or one that reaches into the screen of the window.\<close>

definition reaching :: "int \<times> int \<times> int \<Rightarrow> bool \<Rightarrow> bool" where
  "reaching s b \<longleftrightarrow> sstart s \<le> send s \<and> (swidth s = 0 \<or> 0 < swidth s \<and> b)"

definition struts_reach :: "gworld \<Rightarrow> win \<Rightarrow> rect \<Rightarrow> bool" where
  "struts_reach w c desktop \<longleftrightarrow>
     (let s = win_strut w c; scr = clientAreaOf w ScreenArea c in
      reaching (left_strut s) (rx1 scr < swidth (left_strut s)) \<and>
      reaching (right_strut s) (rx2 desktop - swidth (right_strut s) < rx2 scr) \<and>
      reaching (top_strut s) (ry1 scr < swidth (top_strut s)) \<and>
      reaching (bottom_strut s) (ry2 desktop - swidth (bottom_strut s) < ry2 scr))"

text \<open>Whether a strut is used, and the side it leaves, for a strut at a lower side and at an upper one.\<close>

lemma lower_side:
  assumes "reaching s b" "rect_isValid area" "0 \<le> ry1 area" "0 \<le> rx1 area"
  shows "b = (rx1 scr < swidth s) \<Longrightarrow>
      (let q = (if whole \<and> 0 < rx1 scr then no_rect else mk_rect (0, sstart s) (swidth s, send s - sstart s + 1));
           q = setLeft (max (rx1 q) (rx1 scr)) q
       in rx1 area \<le> x \<and> x \<le> rx2 area \<longrightarrow>
         ((if intersects q area then rx2 q + 1 else rx1 area) \<le> x) =
         (\<not> (x < swidth s \<and> common s (ry1 area) (ry2 area) \<and> rx1 scr \<le> rx2 area \<and> (whole \<longrightarrow> rx1 scr \<le> 0))))"
    "b = (ry1 scr < swidth s) \<Longrightarrow>
      (let q = (if whole \<and> 0 < ry1 scr then no_rect else mk_rect (sstart s, 0) (send s - sstart s + 1, swidth s));
           q = setTop (max (ry1 q) (ry1 scr)) q
       in ry1 area \<le> y \<and> y \<le> ry2 area \<longrightarrow>
         ((if intersects q area then ry2 q + 1 else ry1 area) \<le> y) =
         (\<not> (y < swidth s \<and> common s (rx1 area) (rx2 area) \<and> ry1 scr \<le> ry2 area \<and> (whole \<longrightarrow> ry1 scr \<le> 0))))"
  using assms
  by (auto simp: reaching_def common_def intersects_iff Let_def rect_simps no_rect_def null_rect_def side_def max_def)

lemma upper_side:
  assumes "reaching s b" "rect_isValid area" "0 \<le> ry1 area" "0 \<le> rx1 area"
  shows "rx2 area \<le> d \<Longrightarrow> b = (d - swidth s < rx2 scr) \<Longrightarrow>
      (let q = (if whole \<and> rx2 scr < d then no_rect
                else mk_rect (d - swidth s + 1, sstart s) (swidth s, send s - sstart s + 1));
           q = setRight (min (rx2 q) (rx2 scr)) q
       in rx1 area \<le> x \<and> x \<le> rx2 area \<longrightarrow>
         (x \<le> (if intersects q area then rx1 q - 1 else rx2 area)) =
         (\<not> (d - swidth s < x \<and> common s (ry1 area) (ry2 area) \<and> rx1 area \<le> rx2 scr \<and> (whole \<longrightarrow> d \<le> rx2 scr))))"
    "ry2 area \<le> d \<Longrightarrow> b = (d - swidth s < ry2 scr) \<Longrightarrow> ry2 scr \<le> d \<Longrightarrow>
      (let q = (if whole \<and> d < ry2 scr then no_rect
                else mk_rect (sstart s, d - swidth s + 1) (send s - sstart s + 1, swidth s));
           q = setBottom (min (ry2 q) (ry2 scr)) q
       in ry1 area \<le> y \<and> y \<le> ry2 area \<longrightarrow>
         (y \<le> (if intersects q area then ry1 q - 1 else ry2 area)) =
         (\<not> (d - swidth s < y \<and> common s (rx1 area) (rx2 area) \<and> ry1 area \<le> ry2 scr)))"
  using assms
  by (auto simp: reaching_def common_def intersects_iff Let_def rect_simps no_rect_def null_rect_def side_def min_def)

text \<open>C29: What the struts of a window leave of an area, which lies on the display and of which something is left: of
  the points of the area exactly those that no strut takes.  A strut takes the columns (or rows)
  between the side of the display and its inner side, all of them and no others, from an area it has a row (or
  column) in common with and that does not lie before the window's screen; but nothing from the whole display
  when the window's screen does not lie at that side of it (a strut at the bottom takes from it all the same).
  Each strut the window has is to reach into the screen of the window.\<close>

theorem adjustedClientArea_free:
  fixes w :: gworld and c :: win and desktop area :: rect
  defines "a \<equiv> adjustedClientArea w c desktop area"
  assumes "rect_isValid area" "0 \<le> rx1 area" "0 \<le> ry1 area" "rx2 area \<le> rx2 desktop" "ry2 area \<le> ry2 desktop"
    and "ry2 (clientAreaOf w ScreenArea c) \<le> ry2 desktop" "struts_reach w c desktop"
    and "rect_isValid a" "contains_point area p"
  shows "contains_point a p \<longleftrightarrow> \<not> taken_by_strut w c desktop area p"
proof -
  define s where "s = win_strut w c"
  define scr where "scr = clientAreaOf w ScreenArea c"
  define whole where "whole = (area = mk_rect (0, 0) (display_size w))"
  obtain l r t b where areas: "strut_areas w c desktop area = (l, r, t, b)" by (metis prod_cases4)
  have a: "rx1 a = (if intersects l area then rx2 l + 1 else rx1 area)"
      "rx2 a = (if intersects r area then rx1 r - 1 else rx2 area)"
      "ry1 a = (if intersects t area then ry2 t + 1 else ry1 area)"
      "ry2 a = (if intersects b area then ry1 b - 1 else ry2 area)"
    by (simp_all add: a_def adjustedClientArea_def areas Let_def rect_simps)
  have p: "rx1 area \<le> fst p \<and> fst p \<le> rx2 area" "ry1 area \<le> snd p \<and> snd p \<le> ry2 area"
    using assms(10) by (simp_all add: contains_point_valid assms(2))
  have reach: "reaching (left_strut s) (rx1 scr < swidth (left_strut s))"
      "reaching (right_strut s) (rx2 desktop - swidth (right_strut s) < rx2 scr)"
      "reaching (top_strut s) (ry1 scr < swidth (top_strut s))"
      "reaching (bottom_strut s) (ry2 desktop - swidth (bottom_strut s) < ry2 scr)"
    using assms(8) by (simp_all add: struts_reach_def s_def scr_def Let_def)
  define ql where "ql = (if whole \<and> 0 < rx1 scr then no_rect
    else mk_rect (0, sstart (left_strut s)) (swidth (left_strut s), send (left_strut s) - sstart (left_strut s) + 1))"
  define qr where "qr = (if whole \<and> rx2 scr < rx2 desktop then no_rect
    else mk_rect (rx2 desktop - swidth (right_strut s) + 1, sstart (right_strut s))
      (swidth (right_strut s), send (right_strut s) - sstart (right_strut s) + 1))"
  define qt where "qt = (if whole \<and> 0 < ry1 scr then no_rect
    else mk_rect (sstart (top_strut s), 0) (send (top_strut s) - sstart (top_strut s) + 1, swidth (top_strut s)))"
  define qb where "qb = (if whole \<and> ry2 desktop < ry2 scr then no_rect
    else mk_rect (sstart (bottom_strut s), ry2 desktop - swidth (bottom_strut s) + 1)
      (send (bottom_strut s) - sstart (bottom_strut s) + 1, swidth (bottom_strut s)))"
  have q: "l = setLeft (max (rx1 ql) (rx1 scr)) ql" "r = setRight (min (rx2 qr) (rx2 scr)) qr"
      "t = setTop (max (ry1 qt) (ry1 scr)) qt" "b = setBottom (min (ry2 qb) (ry2 scr)) qb"
    using areas unfolding strut_areas_def Let_def s_def [symmetric] scr_def [symmetric] whole_def [symmetric]
    by (simp_all add: ql_def qr_def qt_def qb_def rect_simps)
  note side = assms(2,4,3)
  have left: "rx1 a \<le> fst p \<longleftrightarrow> \<not> (fst p < swidth (left_strut s) \<and> common (left_strut s) (ry1 area) (ry2 area) \<and>
      rx1 scr \<le> rx2 area \<and> (whole \<longrightarrow> rx1 scr \<le> 0))"
    using lower_side(1) [OF reach(1) side refl, of whole "fst p", folded ql_def, unfolded Let_def, folded q] p(1) a(1) by simp
  have right: "fst p \<le> rx2 a \<longleftrightarrow> \<not> (rx2 desktop - swidth (right_strut s) < fst p \<and>
      common (right_strut s) (ry1 area) (ry2 area) \<and> rx1 area \<le> rx2 scr \<and> (whole \<longrightarrow> rx2 desktop \<le> rx2 scr))"
    using upper_side(1) [OF reach(2) side assms(5) refl, of whole "fst p", folded qr_def, unfolded Let_def, folded q] p(1) a(2)
    by simp
  have top: "ry1 a \<le> snd p \<longleftrightarrow> \<not> (snd p < swidth (top_strut s) \<and> common (top_strut s) (rx1 area) (rx2 area) \<and>
      ry1 scr \<le> ry2 area \<and> (whole \<longrightarrow> ry1 scr \<le> 0))"
    using lower_side(2) [OF reach(3) side refl, of whole "snd p", folded qt_def, unfolded Let_def, folded q] p(2) a(3) by simp
  have bottom: "snd p \<le> ry2 a \<longleftrightarrow> \<not> (ry2 desktop - swidth (bottom_strut s) < snd p \<and>
      common (bottom_strut s) (rx1 area) (rx2 area) \<and> ry1 area \<le> ry2 scr)"
    using upper_side(2) [OF reach(4) side assms(6) refl assms(7) [folded scr_def], of whole "snd p", folded qb_def,
        unfolded Let_def, folded q] p(2) a(4) by simp
  show ?thesis
    unfolding contains_point_valid [OF assms(9)] left right top bottom taken_by_strut_def Let_def s_def scr_def whole_def by blast
qed

text \<open>A panel of 30 pixels at the top of the example screen.\<close>

definition panel_screen :: gworld where
  "panel_screen = upd_geo 1 (\<lambda>g. g\<lparr>ext_strut := no_strut\<lparr>top_strut := (30, 0, 399)\<rparr>\<rparr>) example_screen"

lemma adjustedClientArea_free_witness:
  "\<not> contains_point (adjustedClientArea panel_screen 1 (mk_rect (0, 0) (400, 300)) (mk_rect (0, 0) (400, 300))) (7, 29) \<and>
   contains_point (adjustedClientArea panel_screen 1 (mk_rect (0, 0) (400, 300)) (mk_rect (0, 0) (400, 300))) (7, 30)"
proof -
  let ?d = "mk_rect (0, 0) (400, 300)"
  have "rect_isValid ?d" "rect_isValid (adjustedClientArea panel_screen 1 ?d ?d)" "struts_reach panel_screen 1 ?d"
    "ry2 (clientAreaOf panel_screen ScreenArea 1) \<le> ry2 ?d"
    "contains_point ?d (7, 29)" "contains_point ?d (7, 30)" by code_simp+
  moreover have "taken_by_strut panel_screen 1 ?d ?d (7, 29)" "\<not> taken_by_strut panel_screen 1 ?d ?d (7, 30)" by code_simp+
  ultimately show ?thesis
    using adjustedClientArea_free [of ?d ?d panel_screen 1 "(7, 29)"] adjustedClientArea_free [of ?d ?d panel_screen 1 "(7, 30)"]
    by (simp add: rect_simps)
qed

text \<open>
  Two screens one above the other, with a panel at the bottom of the upper one or at the top of
  the lower one.  The second is left out of the work area of the whole display; for the first the
  comparison is the wrong way round, and the work area loses the lower screen.
\<close>

definition stacked_screens :: "strut \<Rightarrow> int \<Rightarrow> gworld" where
  "stacked_screens s y = set_geom 1 (mk_rect (0, y) (400, 30))
     (upd_geo 1 (\<lambda>g. g\<lparr>ext_strut := s\<rparr>) (example_screen\<lparr>screens_count := 2, display_size := (400, 600),
        screen_geometry := (\<lambda>i. mk_rect (0, 300 * i) (400, 300))\<rparr>))"

lemma bottom_strut_not_ignored:
  "adjustedClientArea (stacked_screens (no_strut\<lparr>top_strut := (330, 0, 399)\<rparr>) 300) 1 (mk_rect (0, 0) (400, 600))
     (mk_rect (0, 0) (400, 600)) = mk_rect (0, 0) (400, 600)"
  "adjustedClientArea (stacked_screens (no_strut\<lparr>bottom_strut := (330, 0, 399)\<rparr>) 270) 1 (mk_rect (0, 0) (400, 600))
     (mk_rect (0, 0) (400, 600)) = mk_rect (0, 0) (400, 270)"
  by code_simp+

section \<open>The size of a frame\<close>

lemma multiple_of_bounds:
  assumes "0 < i" "0 \<le> v"
  shows "0 \<le> multiple_of i v" "multiple_of i v \<le> v" "v - i < multiple_of i v" "i dvd multiple_of i v"
proof -
  have m: "multiple_of i v = v div i * i" using assms by (simp add: multiple_of_def)
  have d: "v div i * i + v mod i = v" "0 \<le> v mod i" "v mod i < i" using assms by simp_all
  show "multiple_of i v \<le> v" "v - i < multiple_of i v" using d m by linarith+
  show "0 \<le> multiple_of i v" "i dvd multiple_of i v" using m assms by (simp_all add: pos_imp_zdiv_nonneg_iff)
qed

text \<open>Without rules and aspect hints the size that a client gets is at most its maximal size, a number of
  increments above its base size, and less than one increment below its minimal size; it is the
  minimal size at least when that is also the base size.\<close>

lemma sizeForClientSize_bounds:
  fixes w :: gworld and c :: win and size :: qsize and mode :: Sizemode
  defines "h \<equiv> hints (geos w c)"
  defines "base \<equiv> if hasBaseSize h then hint_baseSize h else hint_minSize h"
    and "inc \<equiv> resizeIncrements h" and "lo \<equiv> fst (size_limits w c)" and "hi \<equiv> snd (size_limits w c)"
    and "s \<equiv> sizeForClientSize w c size mode True"
  assumes "w_rules (geos w c) = []" "\<not> hasAspect h" "\<not> is_fullscreen (cl w c)"
    "fst base \<le> fst lo" "snd base \<le> snd lo" "fst lo \<le> fst hi" "snd lo \<le> snd hi"
  shows "fst s \<le> fst hi \<and> snd s \<le> snd hi \<and> fst lo - fst inc < fst s \<and> snd lo - snd inc < snd s \<and>
    fst inc dvd fst s - fst base \<and> snd inc dvd snd s - snd base \<and>
    (base = lo \<longrightarrow> fst lo \<le> fst s \<and> snd lo \<le> snd s)"
proof -
  have i: "0 < fst inc" "0 < snd inc" by (auto simp: inc_def resizeIncrements_def split: option.splits)
  define t where "t = in_limits w c size"
  have t: "fst lo \<le> fst t" "fst t \<le> fst hi" "snd lo \<le> snd t" "snd t \<le> snd hi"
    using assms(12,13) by (auto simp: t_def in_limits_def lo_def hi_def case_prod_beta Let_def)
  have s: "s = (multiple_of (fst inc) (fst t - fst base) + fst base, multiple_of (snd inc) (snd t - snd base) + snd base)"
    using assms(7-9)
    by (simp add: s_def sizeForClientSize_def h_def [symmetric] case_prod_beta Let_def inc_def base_def t_def
      wr_checkStrictGeometry_def wr_checkSize_def)
  show ?thesis
    using multiple_of_bounds [OF i(1), of "fst t - fst base"] multiple_of_bounds [OF i(2), of "snd t - snd base"] t
      assms(10,11) by (auto simp: s)
qed

definition terminal_screen :: gworld where
  "terminal_screen = upd_geo 1 (\<lambda>g. g\<lparr>hints := no_hints\<lparr>h_increments := Some (7, 13), h_baseSize := Some (4, 4),
     h_minSize := Some (11, 17), h_maxSize := Some (704, 316)\<rparr>, decorated := False\<rparr>) example_screen"

lemma sizeForClientSize_bounds_witness:
  "7 dvd fst (sizeForClientSize terminal_screen 1 (100, 100) SizemodeAny True) - 4"
proof -
  have "w_rules (geos terminal_screen 1) = []" "\<not> hasAspect (hints (geos terminal_screen 1))"
    "\<not> is_fullscreen (cl terminal_screen 1)" "hasBaseSize (hints (geos terminal_screen 1))"
    "hint_baseSize (hints (geos terminal_screen 1)) = (4, 4)" "size_limits terminal_screen 1 = ((11, 17), (704, 316))"
    "resizeIncrements (hints (geos terminal_screen 1)) = (7, 13)"
    by code_simp+
  then show ?thesis
    using sizeForClientSize_bounds [of terminal_screen 1 "(100, 100)" SizemodeAny] by simp
qed

text \<open>A size below the minimum: the increments start at the base size, the minimum is between two of them.\<close>

lemma size_below_minimum:
  "let w = upd_geo 1 (\<lambda>g. g\<lparr>hints := (hints g)\<lparr>h_minSize := Some (10, 10)\<rparr>\<rparr>) terminal_screen
   in minSize w 1 = (10, 10) \<and> sizeForClientSize w 1 (10, 10) SizemodeAny True = (4, 4)"
  by code_simp

text \<open>The aspect of a client with a largest width of zero: the height is divided by zero.\<close>

lemma zero_aspect_negative_height:
  "snd (sizeForClientSize (upd_geo 1 (\<lambda>g. g\<lparr>hints := no_hints\<lparr>h_aspect := Some ((0, 1), (0, 1))\<rparr>\<rparr>) example_screen) 1
     (100, 100) SizemodeAny True) < 0"
  by code_simp

section \<open>A window whose client touched an edge\<close>

text \<open>
  A window whose title bar is off the screen, so that its client touches the top edge, has to keep
  touching it: the frame is put above the new edge by the width of the left border, not the top one.
\<close>

lemma padding_of_the_left_border:
  assumes "ry1 old \<noteq> e_top oe" "ry1 oldc = e_top oe" "ry1 newc \<noteq> e_top ne"
    "ry2 old \<noteq> e_bottom oe - 1" "ry2 oldc \<noteq> e_bottom oe - 1"
  shows "e_top (snd (to_keep w c old oldc oe new newc ne)) = borderLeft w c"
  using assms by (simp add: to_keep_def touch_def Let_def)

end
