(* ===== verification/MoveResize.thy ===== *)
theory MoveResize
  imports FullScreen Snapping PositionFacts
begin

text \<open>
  Interactive moving and resizing (\<^verbatim>\<open>geometry.cpp\<close>): its start, what a motion of the pointer
  does to the geometry, and the restriction that keeps the title bar reachable.  The library
  splits a region into rectangles; those of the part of the screens without struts (\<open>avail\<close>) and
  of the struts are arguments, and so is the scaling of an offset in floating point.  A loop of
  the code that may run on is a partial function.
\<close>

section \<open>The title bar\<close>

definition transposed_title :: "gworld \<Rightarrow> win \<Rightarrow> bool" where
  "transposed_title w c = (titlebarPosition w c = PositionLeft \<or> titlebarPosition w c = PositionRight)"

text \<open>The title bar relative to the corner of a geometry, and how many of its pixels are to be seen.\<close>

definition titleBarRect :: "gworld \<Rightarrow> win \<Rightarrow> rect \<Rightarrow> rect" where
  "titleBarRect w c g =
     (let r = moveTopLeft (0, 0) g
      in case titlebarPosition w c of
           PositionLeft \<Rightarrow> setWidth (borderLeft w c) r
         | PositionBottom \<Rightarrow> setTop (ry2 r - borderBottom w c) r
         | PositionRight \<Rightarrow> setLeft (rx2 r - borderRight w c) r
         | _ \<Rightarrow> setHeight (borderTop w c) r)"

definition requiredPixels :: "gworld \<Rightarrow> win \<Rightarrow> rect \<Rightarrow> int" where
  "requiredPixels w c g =
     (let r = titleBarRect w c g
      in min (100 * (if transposed_title w c then rwidth r else rheight r)) (rwidth g * rheight g))"

definition visible_part :: "bool \<Rightarrow> rect \<Rightarrow> rect \<Rightarrow> int" where
  "visible_part transposed title a =
     (let r = intersected a title
      in if transposed \<and> rwidth r = rwidth title \<or> \<not> transposed \<and> rheight r = rheight title
         then rwidth r * rheight r else 0)"

definition visiblePixels :: "rect list \<Rightarrow> bool \<Rightarrow> rect \<Rightarrow> int" where
  "visiblePixels avail transposed title = sum_list (map (visible_part transposed title) avail)"

definition realVisiblePixels :: "rect list \<Rightarrow> rect \<Rightarrow> int" where
  "realVisiblePixels avail title =
     sum_list (map (\<lambda>a. rwidth (intersected a title) * rheight (intersected a title)) avail)"

section \<open>Whether the restriction makes sense\<close>

definition checkUnrestrictedMoveResize :: "win \<Rightarrow> gworld \<Rightarrow> gworld" where
  "checkUnrestrictedMoveResize c w =
     (let g = resize_geom (geos w c); a = clientAreaAt w WorkArea (rcenter g) (m_desktop (cl w c));
          left = min (100 + borderRight w c) (rwidth g); right = min (100 + borderLeft w c) (rwidth g);
          titlebar = rheight (initial_resize_geom (geos w c)); top = borderBottom w c; bottom = borderTop w c;
          out = (rx2 g < rx1 a + left \<or> rx1 g > rx2 a - right);
          resizing = (isResize w c \<and> (ry2 g < ry1 a + top \<or> ry1 g > ry2 a - bottom \<or> out \<or> ry1 g < ry1 a));
          moving = (move_resize (geos w c) \<and> pointer_mode (geos w c) = PositionCenter \<and>
                    (ry2 g < ry1 a + titlebar - 1 \<or> ry1 g > ry2 a - bottom + 1 \<or> out))
      in if \<not> unrestricted_move (geos w c) \<and> (resizing \<or> moving)
         then upd_geo c (\<lambda>g. g\<lparr>unrestricted_move := True\<rparr>) w else w)"

section \<open>Start\<close>

text \<open>\<open>grab\<close> is the answer of the X server to the request for a grab, without a popup in the way.\<close>

definition startMoveResize :: "change_maximize \<Rightarrow> win \<Rightarrow> bool \<Rightarrow> gworld \<Rightarrow> (bool \<times> gworld) option" where
  "startMoveResize cm c grab w =
     (if is_fullscreen (cl w c) \<and> (screens_count w < 2 \<or> \<not> isMovableAcrossScreens w c) then Some (False, w)
      else if \<not> grab then Some (False, w)
      else let w = upd_geo c (\<lambda>g. g\<lparr>move_resize := True\<rparr>) w; mode = pointer_mode (geos w c)
           in do {
             w \<leftarrow> (if mode \<noteq> PositionCenter \<and> max_mode (geos w c) = MaximizeFull
                   then setMaximize cm c False False (set_restore c (geometry w c) w) else Some w);
             let w = (if quick_tile_mode (geos w c) \<noteq> QuickTileNone \<and> mode \<noteq> PositionCenter
                      then gcall (QuickTileModeChanged c) (set_restore c (geometry w c) (set_tile c QuickTileNone w))
                      else w);
             let w = upd_geo c (\<lambda>g. g\<lparr>initial_resize_geom := geometry w c, resize_geom := geometry w c,
                       move_resize_screen := t_screen (cl w c)\<rparr>) w;
             Some (True, gcall (StartUserMovedResized c) (checkUnrestrictedMoveResize c w))
           })"

section \<open>Resizing\<close>

text \<open>The rectangle between the side of the pointer and the opposite one, by the mode.\<close>

definition corner_rect :: "point \<Rightarrow> point \<Rightarrow> rect" where
  "corner_rect p q = \<lparr>rx1 = fst p, ry1 = snd p, rx2 = fst q, ry2 = snd q\<rparr>"

definition calculateMoveResizeGeom :: "Position \<Rightarrow> point \<Rightarrow> point \<Rightarrow> rect \<Rightarrow> rect option" where
  "calculateMoveResizeGeom mode tlc brc orig =
     (case mode of
        PositionTopLeft \<Rightarrow> Some (corner_rect tlc (bottomRight orig))
      | PositionBottomRight \<Rightarrow> Some (corner_rect (topLeft orig) brc)
      | PositionBottomLeft \<Rightarrow> Some (corner_rect (fst tlc, ry1 orig) (rx2 orig, snd brc))
      | PositionTopRight \<Rightarrow> Some (corner_rect (rx1 orig, snd tlc) (fst brc, ry2 orig))
      | PositionTop \<Rightarrow> Some (corner_rect (rx1 orig, snd tlc) (bottomRight orig))
      | PositionBottom \<Rightarrow> Some (corner_rect (topLeft orig) (rx2 orig, snd brc))
      | PositionLeft \<Rightarrow> Some (corner_rect (fst tlc, ry1 orig) (bottomRight orig))
      | PositionRight \<Rightarrow> Some (corner_rect (topLeft orig) (fst brc, ry2 orig))
      | PositionCenter \<Rightarrow> None)"

definition resize_sizemode :: "Position \<Rightarrow> Sizemode" where
  "resize_sizemode mode =
     (if mode = PositionTop \<or> mode = PositionBottom then SizemodeFixedH
      else if mode = PositionLeft \<or> mode = PositionRight then SizemodeFixedW else SizemodeAny)"

text \<open>One step back towards the previous geometry, at the side with the title bar (on top) first;
  \<open>None\<close>: no side that may be moved has changed.\<close>

definition step_back :: "bool \<Rightarrow> rect \<Rightarrow> rect \<Rightarrow> rect option" where
  "step_back titleFailed prev g =
     (let major = (ry1 prev \<noteq> ry1 g \<and> \<not> titleFailed)
      in if major then Some (setTop (ry1 g + sgn (ry1 prev - ry1 g)) g)
         else if rx1 prev \<noteq> rx1 g then Some (setLeft (rx1 g + sgn (rx1 prev - rx1 g)) g)
         else if rx2 prev \<noteq> rx2 g then Some (setRight (rx2 g + sgn (rx2 prev - rx2 g)) g)
         else None)"

partial_function (option) restrict_resize ::
    "(rect \<Rightarrow> int) \<Rightarrow> (rect \<Rightarrow> int) \<Rightarrow> int \<Rightarrow> rect \<Rightarrow> int \<Rightarrow> rect \<Rightarrow> bool \<Rightarrow> rect \<Rightarrow> rect option" where
  "restrict_resize visible really required prev last_visible last_try titleFailed g =
     (if visible g \<ge> required then Some g
      else let worse = (really g \<le> last_visible)
      in if worse \<and> titleFailed \<and> really g < last_visible then Some g
         else let h = (if worse \<and> \<not> titleFailed then last_try else g); titleFailed = (titleFailed \<or> worse)
              in case step_back titleFailed prev h of
                   None \<Rightarrow> Some h
                 | Some g' \<Rightarrow> restrict_resize visible really required prev (really g) h titleFailed g')"

declare restrict_resize.simps [code]

definition resize_to :: "rect list \<Rightarrow> win \<Rightarrow> point \<Rightarrow> point \<Rightarrow> gworld \<Rightarrow> rect option" where
  "resize_to avail c tlc brc w =
     (let mode = pointer_mode (geos w c); prev = resize_geom (geos w c); sizemode = resize_sizemode mode
      in do {
        g \<leftarrow> calculateMoveResizeGeom mode tlc brc (initial_resize_geom (geos w c));
        g \<leftarrow> adjustClientSize w c g mode;
        g \<leftarrow> (if unrestricted_move (geos w c) then Some g
              else let title = titleBarRect w c g; t = transposed_title w c
                   in restrict_resize (\<lambda>g. visiblePixels avail t (translated (topLeft g) title))
                        (\<lambda>g. realVisiblePixels avail (translated (topLeft g) title))
                        (requiredPixels w c g) prev (- 1) g False g);
        let s = adjustedSize w c (rect_size g) sizemode;
        let tlc = (rx2 g - fst s + 1, ry2 g - snd s + 1);
        let brc = (rx1 g + fst s - 1, ry1 g + snd s - 1);
        let orig = (if sizemode = SizemodeFixedH then setRight (fst brc) g
                    else if sizemode = SizemodeFixedW then setBottom (snd brc) g else g);
        calculateMoveResizeGeom mode tlc brc orig
      })"

section \<open>Moving\<close>

definition screen_move :: "gworld \<Rightarrow> win \<Rightarrow> point \<Rightarrow> rect" where
  "screen_move w c p =
     (let s = screen_number w p
      in if is_fullscreen (cl w c) then clientArea w FullScreenArea s 0
         else let a = clientArea w MaximizeArea s 0; z = adjustedSize w c (rect_size a) SizemodeMax
              in if z \<noteq> rect_size a then moveCenter (rcenter a) (setSize z a) else a)"

text \<open>A panel at the top that the window is behind: the row below it.\<close>

definition panel_bottom :: "rect list \<Rightarrow> rect \<Rightarrow> int option" where
  "panel_bottom struts g =
     (case filter (\<lambda>r. ry1 r = 0 \<and> rwidth r > rheight r \<and> intersects r g \<and> ry1 g < ry2 r) struts of
        [] \<Rightarrow> None
      | r # rs \<Rightarrow> if ry2 r + 1 > - 1 then Some (ry2 r + 1) else None)"

definition move_back :: "int \<Rightarrow> rect \<Rightarrow> rect \<Rightarrow> rect" where
  "move_back visible prev g =
     (let dx = sgn (rx1 prev - rx1 g); dy = sgn (ry1 prev - ry1 g)
      in translated (if visible \<noteq> 0 \<and> dx \<noteq> 0 then (dx, 0) else if dy \<noteq> 0 then (0, dy) else (dx, dy)) g)"

partial_function (option) restrict_move ::
    "(rect \<Rightarrow> int) \<Rightarrow> int \<Rightarrow> rect list option \<Rightarrow> rect \<Rightarrow> rect \<Rightarrow> rect option" where
  "restrict_move visible required panels prev g =
     (if visible g \<ge> required then Some g
      else case Option.bind panels (\<lambda>s. panel_bottom s g) of
             Some y \<Rightarrow> Some (moveTop y g)
           | None \<Rightarrow> let g' = move_back (visible g) prev g
                     in if g' = prev then Some g' else restrict_move visible required panels prev g')"

declare restrict_move.simps [code]

definition move_to :: "rect list \<Rightarrow> rect list \<Rightarrow> win \<Rightarrow> point \<Rightarrow> point \<Rightarrow> gworld \<Rightarrow> rect option" where
  "move_to avail struts c p tlc w =
     (if \<not> isMovable w c then Some (screen_move w c p)
      else let prev = resize_geom (geos w c); restricted = \<not> unrestricted_move (geos w c);
               g = moveTopLeft tlc prev;
               g = moveTopLeft (adjustClientPosition w c (topLeft g) (\<not> restricted) id) g
           in if restricted
              then let title = titleBarRect w c g; t = transposed_title w c
                   in restrict_move (\<lambda>g. visiblePixels avail t (translated (topLeft g) title)) (requiredPixels w c g)
                        (if screens_count w > 1 then Some struts else None) prev g
              else Some g)"

section \<open>A motion of the pointer\<close>

definition isMove :: "gworld \<Rightarrow> win \<Rightarrow> bool" where
  "isMove w c = (move_resize (geos w c) \<and> pointer_mode (geos w c) = PositionCenter)"

definition performMoveResize :: "win \<Rightarrow> gworld \<Rightarrow> gworld" where
  "performMoveResize c w =
     (let g = resize_geom (geos w c);
          w = (if isMove w c \<or> isResize w c \<and> \<not> have_resize_effect w then setGeometry c g NormalGeometrySet w else w);
          w = (if \<not> has_sync_counter (geos w c) then upd_geo c (\<lambda>r. r\<lparr>sync_pending := False\<rparr>) w else w);
          w = (if isResize w c then gcall (AddRepaint c) w else w)
      in gcall (StepUserMovedResized c g) w)"

definition doResizeSync :: "win \<Rightarrow> gworld \<Rightarrow> gworld" where
  "doResizeSync c w =
     gcall (DoResizeSync c (resize_geom (geos w c))) (upd_geo c (\<lambda>r. r\<lparr>sync_pending := True\<rparr>) w)"

definition set_resize_geom :: "win \<Rightarrow> rect \<Rightarrow> gworld \<Rightarrow> gworld" where
  "set_resize_geom c g w = upd_geo c (\<lambda>r. r\<lparr>resize_geom := g\<rparr>) w"

text \<open>The part after the start: the new geometry, and what is done when it is another one.\<close>

definition apply_motion :: "rect list \<Rightarrow> rect list \<Rightarrow> win \<Rightarrow> point \<Rightarrow> gworld \<Rightarrow> gworld option" where
  "apply_motion avail struts c p w =
     (let mode = pointer_mode (geos w c);
          w = (if mode \<noteq> PositionCenter \<and> m_shade_mode (cl w c) \<noteq> ShadeNone then gcall (SetShade c ShadeNone) w else w);
          tlc = sub_point p (move_offset (geos w c)); brc = add_point p (inverted_offset (geos w c));
          prev = resize_geom (geos w c)
      in do {
        g \<leftarrow> (if isResize w c then resize_to avail c tlc brc w else move_to avail struts c p tlc w);
        let w = set_resize_geom c g w;
        let changed = (if isResize w c then rect_size g \<noteq> rect_size prev else topLeft g \<noteq> topLeft prev);
        Some (if \<not> changed then w
              else let w = (if isResize w c \<and> \<not> have_resize_effect w then doResizeSync c w else performMoveResize c w)
                   in if isMove w c then gcall (ScreenEdgesCheck p) w else w)
      })"

definition handleMotion :: "change_maximize \<Rightarrow> rect list \<Rightarrow> rect list \<Rightarrow> bool \<Rightarrow> win \<Rightarrow> point \<Rightarrow> point \<Rightarrow> gworld \<Rightarrow> gworld option" where
  "handleMotion cm avail struts grab c local p w =
     (let mode = pointer_mode (geos w c)
      in if sync_pending (geos w c) \<and> isResize w c then Some w
         else if mode = PositionCenter \<and> \<not> isMovableAcrossScreens w c \<or>
                 mode \<noteq> PositionCenter \<and> (isShade w c \<or> \<not> isResizable w c) then Some w
         else if \<not> move_resize (geos w c)
         then if manhattanLength (sub_point local (move_offset (geos w c))) \<ge> startDragDistance w
              then do {
                (ok, w) \<leftarrow> startMoveResize cm c grab w;
                (if ok then apply_motion avail struts c p (gcall (UpdateCursor c) w)
                 else Some (gcall (UpdateCursor c) (upd_geo c (\<lambda>g. g\<lparr>button_down := False\<rparr>) w)))
              }
              else Some w
         else apply_motion avail struts c p w)"

text \<open>A tiled window that is moved away gets its restored size, with the pointer at the same relative
  place; \<open>scale a b c\<close> is \<open>a / b * c\<close> in floating point, truncated.\<close>

definition handleMoveResize :: "change_maximize \<Rightarrow> rect list \<Rightarrow> rect list \<Rightarrow> (int \<Rightarrow> int \<Rightarrow> int \<Rightarrow> int) \<Rightarrow> bool \<Rightarrow> win \<Rightarrow>
    point \<Rightarrow> point \<Rightarrow> gworld \<Rightarrow> gworld option" where
  "handleMoveResize cm avail struts scale grab c local p w =
     (let old = geometry w c
      in do {
        w \<leftarrow> handleMotion cm avail struts grab c local p w;
        (if \<not> is_fullscreen (cl w c) \<and> isMove w c
         then if quick_tile_mode (geos w c) \<noteq> QuickTileNone \<and> old \<noteq> geometry w c
              then do {
                w \<leftarrow> setQuickTileMode cm c QuickTileNone False (blockGeometryUpdates c w);
                let r = geom_restore (geos w c);
                let o' = move_offset (geos w c);
                let w = upd_geo c (\<lambda>g. g\<lparr>move_offset := (scale (fst o') (rwidth old) (rwidth r),
                                                        scale (snd o') (rheight old) (rheight r))\<rparr>) w;
                let w = (if wr_checkMaximize (w_rules (geos w c)) MaximizeRestore False = MaximizeRestore
                         then set_resize_geom c r w else w);
                w \<leftarrow> handleMotion cm avail struts grab c local p w;
                Some (unblockGeometryUpdates c w)
              }
              else if quick_tile_mode (geos w c) = QuickTileNone \<and> isResizable w c
              then Some (gcall (CheckQuickTilingZones c p) w)
              else Some w
         else Some w)
      })"

section \<open>The restriction of a move ends\<close>

definition far_from :: "rect \<Rightarrow> rect \<Rightarrow> nat" where
  "far_from prev g = nat (\<bar>rx1 prev - rx1 g\<bar> + \<bar>ry1 prev - ry1 g\<bar>)"

lemma move_back_size: "rect_size (move_back v prev g) = rect_size g"
  by (simp add: move_back_def Let_def translated_def rect_size_def)

lemma move_back_nearer:
  assumes "topLeft g \<noteq> topLeft prev"
  shows "far_from prev (move_back v prev g) < far_from prev g"
  using assms
  by (auto simp: move_back_def Let_def translated_def far_from_def topLeft_def sgn_if)

lemma same_size_and_corner:
  "rect_size g = rect_size h \<Longrightarrow> topLeft g = topLeft h \<Longrightarrow> g = h"
  by (metis rect_of_parts)

text \<open>C31: A restricted move ends for every motion of the pointer: the title bar is visible enough, or the
  window is right below a panel, or it is back where it was before the motion.\<close>

theorem restrict_move_returns:
  assumes "rect_size g = rect_size prev"
  shows "\<exists>g'. restrict_move visible required panels prev g = Some g' \<and> rect_size g' = rect_size prev \<and>
    (required \<le> visible g' \<or> g' = prev \<or> (\<exists>s\<in>set (concat (case panels of None \<Rightarrow> [] | Some p \<Rightarrow> [p])). ry1 g' = ry2 s + 1))"
  using assms
proof (induction "far_from prev g" arbitrary: g rule: less_induct)
  case less
  have size_top: "rect_size (moveTop y g) = rect_size g" for y by (simp add: moveTop_def rect_size_def)
  show ?case
  proof (cases "required \<le> visible g")
    case True
    then show ?thesis using less.prems by (subst restrict_move.simps) simp
  next
    case F: False
    show ?thesis
    proof (cases "Option.bind panels (\<lambda>s. panel_bottom s g)")
      case (Some y)
      then obtain p where p: "panels = Some p" "panel_bottom p g = Some y" by (cases panels) auto
      then obtain r rs where r: "filter (\<lambda>r. ry1 r = 0 \<and> rwidth r > rheight r \<and> intersects r g \<and> ry1 g < ry2 r) p = r # rs"
          "y = ry2 r + 1"
        by (auto simp: panel_bottom_def split: list.splits if_splits)
      have "set (r # rs) \<subseteq> set p" unfolding r(1) [symmetric] by auto
      then have "r \<in> set p" by simp
      moreover have "restrict_move visible required panels prev g = Some (moveTop y g)"
        using F Some by (subst restrict_move.simps) simp
      ultimately show ?thesis using less.prems p(1) r(2) by (auto simp: size_top rect_simps)
    next
      case None
      define h where "h = move_back (visible g) prev g"
      have run: "restrict_move visible required panels prev g =
          (if h = prev then Some h else restrict_move visible required panels prev h)"
        using F None by (subst restrict_move.simps) (simp add: h_def Let_def)
      have h: "rect_size h = rect_size prev" using less.prems by (simp add: h_def move_back_size)
      show ?thesis
      proof (cases "h = prev")
        case True
        then show ?thesis using run by simp
      next
        case False
        have "topLeft g \<noteq> topLeft prev"
        proof
          assume "topLeft g = topLeft prev"
          then have "g = prev" using less.prems same_size_and_corner by blast
          then show False using False by (simp add: h_def move_back_def translated_def Let_def)
        qed
        then have "far_from prev h < far_from prev g" unfolding h_def by (rule move_back_nearer)
        from less.hyps [OF this h] show ?thesis using run False by simp
      qed
    qed
  qed
qed

lemma restrict_move_returns_witness:
  "\<exists>g'. restrict_move (\<lambda>g. 0) 1 None (mk_rect (0, 0) (9, 9)) (mk_rect (30, 20) (9, 9)) = Some g'"
  using restrict_move_returns [of "mk_rect (30, 20) (9, 9)" "mk_rect (0, 0) (9, 9)" "\<lambda>g. 0" 1 None] by auto

end
