(* ===== verification/MaximizeFacts.thy ===== *)
theory MaximizeFacts
  imports GeometryFacts Maximizing
begin

text \<open>
  Maximizing a window and restoring it: what the operations on the geometry leave alone, and the
  round trip.
\<close>

section \<open>What the geometry operations leave alone\<close>

text \<open>All of the state that matters to a window, without its geometry and what belongs to it.\<close>

definition kept_state :: "gworld \<Rightarrow> win \<Rightarrow> gworld" where
  "kept_state w c = w\<lparr>cl := (\<lambda>_. (cl w c)\<lparr>geom := no_rect, t_screen := 0\<rparr>),
     geos := (\<lambda>_. (geos w c)\<lparr>client_size := (0, 0), block_geometry := 0, pending_geometry := PendingGeometryNone,
                geom_before_block := no_rect, frame_geometry := no_rect, needs_x_move := False\<rparr>),
     gcalls := [], m_current_screen := 0\<rparr>"

lemma kept_basic [simp]:
  "kept_state (gcall e w) c = kept_state w c" "kept_state (set_geom c g w) c = kept_state w c"
  "kept_state (screens_setCurrentClient c w) c = kept_state w c" "kept_state (checkScreen c w) c = kept_state w c"
  by (simp_all add: kept_state_def gcall_def set_geom_def upd_cl_def screens_setCurrentClient_def
    screens_setCurrent_def checkScreen_def Let_def)

lemma kept_upd_geo:
  "kept_state (upd_geo c f w) c = (kept_state w c)\<lparr>geos := (\<lambda>_. (f (geos w c))\<lparr>client_size := (0, 0), block_geometry := 0,
     pending_geometry := PendingGeometryNone, geom_before_block := no_rect, frame_geometry := no_rect, needs_x_move := False\<rparr>)\<rparr>"
  by (simp add: kept_state_def upd_geo_def)

lemma kept_geometry_field [simp]:
  "kept_state (upd_geo c (\<lambda>g. g\<lparr>client_size := x1\<rparr>) w) c = kept_state w c"
  "kept_state (upd_geo c (\<lambda>g. g\<lparr>block_geometry := f g\<rparr>) w) c = kept_state w c"
  "kept_state (upd_geo c (\<lambda>g. g\<lparr>pending_geometry := h g\<rparr>) w) c = kept_state w c"
  "kept_state (upd_geo c (\<lambda>g. g\<lparr>pending_geometry := h g, block_geometry := f g\<rparr>) w) c = kept_state w c"
  "kept_state (upd_geo c (\<lambda>g. g\<lparr>geom_before_block := x2\<rparr>) w) c = kept_state w c"
  "kept_state (upd_geo c (\<lambda>g. g\<lparr>frame_geometry := k g\<rparr>) w) c = kept_state w c"
  "kept_state (upd_geo c (\<lambda>g. g\<lparr>needs_x_move := b\<rparr>) w) c = kept_state w c"
  by (simp_all add: kept_state_def upd_geo_def)

lemma kept_ops [simp]:
  "kept_state (emit_checked c e w) c = kept_state w c" "kept_state (snd (set_client_size c s w)) c = kept_state w c"
  "kept_state (note_pending c force w) c = kept_state w c" "kept_state (geometry_done c w) c = kept_state w c"
  "kept_state (send_geometry c g r w) c = kept_state w c"
  by (simp_all add: emit_checked_def set_client_size_def note_pending_def geometry_done_def send_geometry_def
    frame_setGeometry_def frame_move_def Let_def)

lemma kept_setGeometry [simp]: "kept_state (setGeometry c g f w) c = kept_state w c"
proof -
  obtain s u where u: "set_client_size c (rect_size g) w = (s, u)" by (rule prod.exhaust)
  have "kept_state u c = kept_state w c" using kept_ops(2) [of c "rect_size g" w] u by simp
  then show ?thesis by (simp add: setGeometry_def u Let_def)
qed

lemma kept_block [simp]: "kept_state (blockGeometryUpdates c w) c = kept_state w c"
  by (simp add: blockGeometryUpdates_def)

lemma kept_unblock [simp]: "kept_state (unblockGeometryUpdates c w) c = kept_state w c"
  by (simp add: unblockGeometryUpdates_def Let_def)

lemma kept_fold_gcall [simp]: "kept_state (fold gcall es w) c = kept_state w c"
  by (induction es arbitrary: w) simp_all

lemma kept_in_tab_group [simp]: "kept_state (in_tab_group c es w) c = kept_state w c"
  by (simp add: in_tab_group_def)

text \<open>Fields and questions that only look at that part.\<close>

lemma kept_sel [simp]:
  "m_transientForId (cl (kept_state w c) c) = m_transientForId (cl w c)"
  "kind (cl (kept_state w c) c) = kind (cl w c)" "info_type (cl (kept_state w c) c) = info_type (cl w c)"
  "checkType (cl (kept_state w c) c) = checkType (cl w c)" "is_fullscreen (cl (kept_state w c) c) = is_fullscreen (cl w c)"
  "hints (geos (kept_state w c) c) = hints (geos w c)" "w_rules (geos (kept_state w c) c) = w_rules (geos w c)"
  "tab_sizes (geos (kept_state w c) c) = tab_sizes (geos w c)" "pointer_mode (geos (kept_state w c) c) = pointer_mode (geos w c)"
  "net_support (geos (kept_state w c) c) = net_support (geos w c)"
  "motif_resize (geos (kept_state w c) c) = motif_resize (geos w c)"
  by (simp_all add: kept_state_def)

lemma kept_windowType: "windowType (kept_state w c) c = windowType w c"
  by (simp add: windowType_def isClient_def isTransient_def Let_def)

lemma kept_special:
  "isSpecialWindow (kept_state w c) c = isSpecialWindow w c" "isSplash (kept_state w c) c = isSplash w c"
  "isToolbar (kept_state w c) c = isToolbar w c"
  by (simp_all add: isSpecialWindow_def isDesktop_def isDock_def isSplash_def isToolbar_def isNotification_def
    isOnScreenDisplay_def kept_windowType)

lemma kept_limits:
  "min_limit (kept_state w c) c = min_limit w c" "max_limit (kept_state w c) c = max_limit w c"
proof -
  have "minSize (kept_state w c) c = minSize w c" "maxSize (kept_state w c) c = maxSize w c"
    by (simp_all add: minSize_def maxSize_def)
  then show "min_limit (kept_state w c) c = min_limit w c" "max_limit (kept_state w c) c = max_limit w c"
    by (cases "tab_sizes (geos w c)"; simp add: min_limit_def max_limit_def)+
qed

lemma kept_isResizable: "isResizable (kept_state w c) c = isResizable w c"
  by (simp add: isResizable_def forced_position_def kept_special kept_limits)

lemma kept_fields:
  assumes "kept_state v c = kept_state w c"
  shows "max_mode (geos v c) = max_mode (geos w c)"
    "geom_restore (geos v c) = geom_restore (geos w c)"
    "quick_tile_mode (geos v c) = quick_tile_mode (geos w c)"
    "decorated (geos v c) = decorated (geos w c)"
    "borders (geos v c) = borders (geos w c)"
    "plugin_borders (geos v c) = plugin_borders (geos w c)"
    "w_rules (geos v c) = w_rules (geos w c)"
    "hints (geos v c) = hints (geos w c)"
    "electric_maximizing (geos v c) = electric_maximizing (geos w c)"
    "screens_count v = screens_count w" "borderlessMaximizedWindows v = borderlessMaximizedWindows w"
    "shaded v c = shaded w c" "isToolbar v c = isToolbar w c" "isResizable v c = isResizable w c"
proof -
  show "max_mode (geos v c) = max_mode (geos w c)"
    using arg_cong [OF assms, of "\<lambda>u. max_mode (geos u c)"] by (simp add: kept_state_def)
  show "geom_restore (geos v c) = geom_restore (geos w c)"
    using arg_cong [OF assms, of "\<lambda>u. geom_restore (geos u c)"] by (simp add: kept_state_def)
  show "quick_tile_mode (geos v c) = quick_tile_mode (geos w c)"
    using arg_cong [OF assms, of "\<lambda>u. quick_tile_mode (geos u c)"] by (simp add: kept_state_def)
  show "decorated (geos v c) = decorated (geos w c)"
    using arg_cong [OF assms, of "\<lambda>u. decorated (geos u c)"] by (simp add: kept_state_def)
  show "borders (geos v c) = borders (geos w c)"
    using arg_cong [OF assms, of "\<lambda>u. borders (geos u c)"] by (simp add: kept_state_def)
  show "plugin_borders (geos v c) = plugin_borders (geos w c)"
    using arg_cong [OF assms, of "\<lambda>u. plugin_borders (geos u c)"] by (simp add: kept_state_def)
  show "w_rules (geos v c) = w_rules (geos w c)"
    using arg_cong [OF assms, of "\<lambda>u. w_rules (geos u c)"] by (simp add: kept_state_def)
  show "hints (geos v c) = hints (geos w c)"
    using arg_cong [OF assms, of "\<lambda>u. hints (geos u c)"] by (simp add: kept_state_def)
  show "electric_maximizing (geos v c) = electric_maximizing (geos w c)"
    using arg_cong [OF assms, of "\<lambda>u. electric_maximizing (geos u c)"] by (simp add: kept_state_def)
  show "screens_count v = screens_count w" using arg_cong [OF assms, of screens_count] by (simp add: kept_state_def)
  show "borderlessMaximizedWindows v = borderlessMaximizedWindows w" using arg_cong [OF assms, of borderlessMaximizedWindows] by (simp add: kept_state_def)
  show "shaded v c = shaded w c"
    using arg_cong [OF assms, of "\<lambda>u. shaded u c"] by (simp add: kept_state_def shaded_def isShade_def)
  show "isToolbar v c = isToolbar w c" using arg_cong [OF assms, of "\<lambda>u. isToolbar u c"] by (simp add: kept_special)
  show "isResizable v c = isResizable w c"
    using arg_cong [OF assms, of "\<lambda>u. isResizable u c"] by (simp add: kept_isResizable)
qed

lemma one_screen_number:
  assumes "screens_count w = 1"
  shows "screen_number w p = 0"
  using assms by (simp add: screen_number_def screen_list_def Let_def)

lemma kept_maximize_area:
  assumes "kept_state v c = kept_state w c" "screens_count w = 1" "\<not> electric_maximizing (geos w c)"
  shows "maximize_area v c = maximize_area w c"
proof -
  have m: "maximize_area u c = clientArea (kept_state u c) MaximizeArea 0 (m_desktop (cl (kept_state u c) c))"
    if "screens_count u = 1" "\<not> electric_maximizing (geos u c)" for u
    using that
    by (simp add: maximize_area_def clientAreaOf_def clientAreaAt_def one_screen_number clientArea_def kept_state_def
      Let_def real_desktop_def screens_geometry_def)
  have "screens_count v = 1" "\<not> electric_maximizing (geos v c)"
    using kept_fields(9,10) [OF assms(1)] assms(2,3) by auto
  then show ?thesis using m assms by simp
qed

section \<open>One change\<close>

text \<open>A decoration whose borders do not depend on the maximization.\<close>

definition steady_borders :: "gworld \<Rightarrow> win \<Rightarrow> bool" where
  "steady_borders w c \<longleftrightarrow>
     (decorated (geos w c) \<longrightarrow> (\<forall>m. plugin_borders (geos w c) m = Some (borders (geos w c))))"

text \<open>What a window without rules, with free proportions and on one screen needs to be maximized at will.\<close>

definition free_to_maximize :: "gworld \<Rightarrow> win \<Rightarrow> bool" where
  "free_to_maximize w c \<longleftrightarrow>
     isResizable w c \<and> \<not> isToolbar w c \<and> w_rules (geos w c) = [] \<and> \<not> hasAspect (hints (geos w c)) \<and>
     \<not> borderlessMaximizedWindows w \<and> steady_borders w c \<and> \<not> shaded w c \<and>
     screens_count w = 1 \<and> \<not> electric_maximizing (geos w c)"

lemma free_kept:
  assumes "kept_state v c = kept_state w c"
  shows "free_to_maximize v c = free_to_maximize w c"
  unfolding free_to_maximize_def steady_borders_def kept_fields [OF assms] by (rule refl)

lemma free_upd:
  "free_to_maximize (upd_geo c (\<lambda>g. g\<lparr>max_mode := m, geom_restore := r, quick_tile_mode := t\<rparr>) w) c = free_to_maximize w c"
  by (simp add: free_to_maximize_def steady_borders_def isResizable_def isToolbar_def windowType_def isTransient_def
     isClient_def forced_position_def isSpecialWindow_def isDesktop_def isDock_def isSplash_def isNotification_def
     isOnScreenDisplay_def min_limit_def max_limit_def minSize_def maxSize_def upd_geo_def shaded_def isShade_def Let_def
     split: option.split)

lemma tell_decoration_steady:
  assumes "steady_borders w c" "decorated (geos w c)"
  shows "\<exists>u. tell_decoration c old m w = Some u \<and> kept_state u c = kept_state w c \<and> geometry u c = geometry w c"
  using assms by (simp add: tell_decoration_def steady_borders_def Let_def)

lemma unshaded_size: "\<not> shaded w c \<Longrightarrow> effective_size w c s = s"
  by (simp add: effective_size_def)

lemma setGeometry_unshaded: "\<not> shaded w c \<Longrightarrow> geometry (setGeometry c g f w) c = g"
  by (simp add: setGeometry_geometry unshaded_size rect_of_parts)

lemma unblock_unshaded:
  assumes "\<not> shaded w c"
  shows "geometry (unblockGeometryUpdates c w) c = geometry w c"
  using assms by (simp add: unblockGeometryUpdates_def Let_def setGeometry_unshaded)

lemma new_mode_free:
  assumes "w_rules (geos w c) = []" "\<not> hasAspect (hints (geos w c))"
  shows "new_mode w c v h False = Maximize (maxVert (max_mode (geos w c)) \<noteq> v) (maxHoriz (max_mode (geos w c)) \<noteq> h)"
  using assms by (simp add: new_mode_def obey_aspect_def Let_def wr_checkMaximize_def wr_checkMaximizeVert_def
    wr_checkMaximizeHoriz_def)

text \<open>What follows the change of the geometry.\<close>

definition maximize_tail :: "win \<Rightarrow> gworld \<Rightarrow> gworld" where
  "maximize_tail c w =
     unblockGeometryUpdates c (gcall (QuickTileModeChanged c)
       (gcall (UpdateRules c [MaximizeVert, MaximizeHoriz, Rules.RuleType.Position, Size])
         (gcall (UpdateAllowedActions c)
           (in_tab_group c [TabGroupBlock c False, TabGroupStates c [''Maximized'', ''QuickTile'']] w))))"

lemma geometry_fold_gcall [simp]: "geometry (fold gcall es w) d = geometry w d"
  by (induction es arbitrary: w) simp_all

lemma geometry_in_tab_group [simp]: "geometry (in_tab_group c es w) d = geometry w d"
  by (simp add: in_tab_group_def)

lemma shaded_kept_tail: "shaded (fold gcall es w) d = shaded w d"
  by (induction es arbitrary: w) simp_all

lemma tail_facts:
  assumes "\<not> shaded w c"
  shows "geometry (maximize_tail c w) c = geometry w c" "kept_state (maximize_tail c w) c = kept_state w c"
proof -
  have "\<not> shaded (in_tab_group c es w) c" for es using assms by (simp add: in_tab_group_def shaded_kept_tail)
  then show "geometry (maximize_tail c w) c = geometry w c" by (simp add: maximize_tail_def unblock_unshaded)
  show "kept_state (maximize_tail c w) c = kept_state w c" by (simp add: maximize_tail_def)
qed

lemma kept_restore:
  assumes "kept_state v c = kept_state w c"
  shows "kept_state (upd_geo c (\<lambda>g. g\<lparr>geom_restore := r\<rparr>) v) c = kept_state (upd_geo c (\<lambda>g. g\<lparr>geom_restore := r\<rparr>) w) c"
proof -
  have "(geos u c)\<lparr>geom_restore := r, client_size := (0, 0), block_geometry := 0, pending_geometry := PendingGeometryNone,
      geom_before_block := no_rect, frame_geometry := no_rect, needs_x_move := False\<rparr> =
      (geos (kept_state u c) c)\<lparr>geom_restore := r\<rparr>" for u
    by (cases "geos u c") (simp add: kept_state_def)
  then show ?thesis using assms by (simp add: kept_upd_geo)
qed

lemma save_nothing: "save_geometry c (Maximize True True) adjust w = w"
  by (simp add: save_geometry_def Let_def)

lemma save_all:
  assumes "\<not> shaded w c" "quick_tile_mode (geos w c) = QuickTileNone"
  shows "save_geometry c (Maximize False False) False w = upd_geo c (\<lambda>g. g\<lparr>geom_restore := geometry w c\<rparr>) w"
proof -
  have e: "setWidth (rwidth g) (setLeft (rx1 g) (setHeight (rheight g) (setTop (ry1 g) r))) = g" for g r
    by (rule rect_eqI) (simp_all add: setWidth_def setLeft_def setHeight_def setTop_def rwidth_def rheight_def)
  show ?thesis
    using assms by (simp add: e [unfolded rwidth_def rheight_def] Let_def save_geometry_def size_to_restore_def shaded_def wsize_def wx_def wy_def rect_size_def
        upd_geo_def geometry_def)
qed

text \<open>Both directions at once: the work is left to the mode that results.\<close>

lemma flip_both:
  assumes free: "free_to_maximize w c" and old: "max_mode (geos w c) = Maximize b b"
    and tile: "quick_tile_mode (geos w c) = QuickTileNone \<or> b"
  defines "m \<equiv> Maximize (\<not> b) (\<not> b)"
  defines "saved \<equiv> upd_geo c (\<lambda>g. g\<lparr>max_mode := m, geom_restore := if b then geom_restore g else geometry w c\<rparr>) w"
  shows "\<exists>u. kept_state u c = kept_state saved c \<and> geometry u c = geometry w c \<and>
    changeMaximize pl c True True False w =
      map_option (maximize_tail c) (apply_mode pl c (Maximize b b) (maximize_area w c) u)"
proof -
  note f = free [unfolded free_to_maximize_def]
  have go: "\<not> (\<not> isResizable w c \<or> isToolbar w c)" using f by simp
  have nm: "new_mode w c True True False = m" using new_mode_free f old by (simp add: m_def)
  define y where "y = in_tab_group c [TabGroupBlock c True]
    (blockGeometryUpdates c (upd_geo c (\<lambda>g. g\<lparr>max_mode := m\<rparr>) w))"
  have ky: "kept_state y c = kept_state (upd_geo c (\<lambda>g. g\<lparr>max_mode := m\<rparr>) w) c" and gy: "geometry y c = geometry w c"
    by (simp_all add: y_def)
  define x where "x = save_geometry c (Maximize b b) False y"
  have sh: "\<not> shaded y c" "b \<or> quick_tile_mode (geos y c) = QuickTileNone"
    using f tile kept_fields(3,12) [OF ky] by auto
  have "kept_state x c = kept_state saved c \<and> geometry x c = geometry w c"
  proof (cases b)
    case True
    then show ?thesis using ky gy by (simp add: x_def save_nothing saved_def)
  next
    case False
    then have "x = upd_geo c (\<lambda>g. g\<lparr>geom_restore := geometry w c\<rparr>) y"
      using sh gy by (simp add: x_def save_all)
    then show ?thesis using kept_restore [OF ky] gy False by (simp add: saved_def upd_geo_def geometry_def)
  qed
  then have x: "kept_state x c = kept_state saved c" "geometry x c = geometry w c" by simp_all
  have mx: "max_mode (geos x c) = m" using kept_fields [OF x(1)] by (simp add: saved_def)
  have "saved = upd_geo c (\<lambda>g. g\<lparr>max_mode := m, geom_restore := (if b then geom_restore (geos w c) else geometry w c),
      quick_tile_mode := quick_tile_mode (geos w c)\<rparr>) w"
    by (simp add: saved_def upd_geo_def)
  then have fx: "free_to_maximize x c" using free free_kept [OF x(1)] free_upd by simp
  have "\<exists>u. (if decorated (geos x c) \<and> \<not> (borderlessMaximizedWindows x \<and> m = MaximizeFull)
                   then tell_decoration c (Maximize b b) m x else Some x) = Some u \<and>
      kept_state u c = kept_state x c \<and> geometry u c = geometry x c"
    using tell_decoration_steady [of x c "Maximize b b" m] fx by (auto simp: free_to_maximize_def)
  then obtain u where u: "(if decorated (geos x c) \<and> \<not> (borderlessMaximizedWindows x \<and> m = MaximizeFull)
                   then tell_decoration c (Maximize b b) m x else Some x) = Some u"
      "kept_state u c = kept_state x c" "geometry u c = geometry x c" by blast
  have bl: "\<not> borderlessMaximizedWindows u" using fx kept_fields(11) [OF u(2)] by (simp add: free_to_maximize_def)
  have lt: "leave_tile c (Maximize b b) a u = u" for a
    using tile kept_fields(1,3) [OF u(2)] kept_fields(1,3) [OF x(1)]
    by (cases b) (simp_all add: leave_tile_def saved_def Let_def m_def MaximizeFull_def MaximizeHorizontal_def
      MaximizeVertical_def MaximizeRestore_def)
  have ne: "\<not> (\<not> False \<and> m = Maximize b b)" by (simp add: m_def)
  have o: "(Maximize b b = MaximizeVertical \<and> m = MaximizeHorizontal \<or>
      Maximize b b = MaximizeHorizontal \<and> m = MaximizeVertical) = False"
    by (auto simp: MaximizeHorizontal_def MaximizeVertical_def)
  have "changeMaximize pl c True True False w =
      map_option (maximize_tail c) (apply_mode pl c (Maximize b b) (maximize_area w c) u)"
    unfolding changeMaximize_def
    by (subst change_maximize_once_def,
      unfold if_not_P [OF go] Let_def old nm if_not_P [OF ne] y_def [symmetric],
      simp only: o if_False Option.bind.simps x_def [symmetric] mx u(1) bl lt maximize_tail_def [symmetric])
      (cases "apply_mode pl c (Maximize b b) (maximize_area w c) u", simp_all)
  then show ?thesis using u x by auto
qed

section \<open>The round trip\<close>

lemma kept_sizes:
  "size_limits (kept_state w c) c = size_limits w c" "in_limits (kept_state w c) c = in_limits w c"
  "borderLeft (kept_state w c) c = borderLeft w c" "borderTop (kept_state w c) c = borderTop w c"
  "borderRight (kept_state w c) c = borderRight w c" "borderBottom (kept_state w c) c = borderBottom w c"
  subgoal size by (simp add: size_limits_def kept_limits borderLeft_def borderRight_def borderTop_def borderBottom_def)
    (simp add: kept_state_def)
  subgoal by (rule ext) (simp add: in_limits_def size)
  by (simp_all add: borderLeft_def borderRight_def borderTop_def borderBottom_def) (simp_all add: kept_state_def)

lemma kept_adjustedSize: "adjustedSize (kept_state w c) c s mode = adjustedSize w c s mode"
  by (simp add: adjustedSize_def sizeForClientSize_def kept_sizes Let_def)

lemma kept_full_rect:
  assumes "screens_count w = 1" "\<not> electric_maximizing (geos w c)"
  shows "full_rect (kept_state w c) c a = full_rect w c a"
proof -
  have s: "clientAreaAt (kept_state w c) ScreenArea p d = clientAreaAt w ScreenArea p d" for p d
    using assms(1) by (simp add: clientAreaAt_def one_screen_number clientArea_def kept_state_def Let_def screens_geometry_def)
  have d: "m_desktop (cl (kept_state w c) c) = m_desktop (cl w c)"
      "electric_maximizing (geos (kept_state w c) c) = electric_maximizing (geos w c)"
    by (simp_all add: kept_state_def)
  show ?thesis
    using assms(2) by (simp add: full_rect_def with_adjusted_size_def kept_adjustedSize ruled_corner_def s d close_height_def
      close_width_def titlebarPosition_def Let_def)
qed

lemma mode_upd:
  assumes "screens_count w = 1" "\<not> electric_maximizing (geos w c)"
  shows "maximize_area (upd_geo c (\<lambda>g. g\<lparr>max_mode := m, geom_restore := r, quick_tile_mode := t\<rparr>) w) c = maximize_area w c"
    "full_rect (upd_geo c (\<lambda>g. g\<lparr>max_mode := m, geom_restore := r, quick_tile_mode := t\<rparr>) w) c a = full_rect w c a"
proof -
  define u where "u = upd_geo c (\<lambda>g. g\<lparr>max_mode := m, geom_restore := r, quick_tile_mode := t\<rparr>) w"
  have n: "screen_number u p = screen_number w p" for p
    using assms(1) by (simp add: u_def one_screen_number)
  have f: "screenarea u = screenarea w" "workarea u = workarea w" "is_multihead u = is_multihead w"
      "multihead_screen u = multihead_screen w" "current_desktop u = current_desktop w" "display_size u = display_size w"
      "screens_count u = screens_count w" "screen_geometry u = screen_geometry w"
    by (simp_all add: u_def upd_geo_def)
  have g: "screens_geometry u i = screens_geometry w i" "real_desktop u i = real_desktop w i" for i
    by (simp_all add: screens_geometry_def real_desktop_def f)
  have a: "clientArea u opt 0 d = clientArea w opt 0 d" for opt d
    unfolding clientArea_def f g by simp
  have e: "\<not> electric_maximizing (geos u c)" "cl u = cl w" "geometry u c = geometry w c" using assms(2) by (simp_all add: u_def)
  show "maximize_area (upd_geo c (\<lambda>g. g\<lparr>max_mode := m, geom_restore := r, quick_tile_mode := t\<rparr>) w) c = maximize_area w c"
    unfolding u_def [symmetric]
    using assms(2) e by (simp add: maximize_area_def clientAreaOf_def clientAreaAt_def n one_screen_number [OF assms(1)] a)
  have s: "minSize u c = minSize w c" "maxSize u c = maxSize w c" by (simp_all add: minSize_def maxSize_def u_def)
  have l: "min_limit u c = min_limit w c" "max_limit u c = max_limit w c"
    unfolding min_limit_def max_limit_def s by (simp_all add: u_def)
  have b: "borderLeft u c = borderLeft w c" "borderTop u c = borderTop w c" "borderRight u c = borderRight w c"
      "borderBottom u c = borderBottom w c" "hints (geos u c) = hints (geos w c)" "w_rules (geos u c) = w_rules (geos w c)"
      "decorated (geos u c) = decorated (geos w c)"
    by (simp_all add: borderLeft_def borderTop_def borderRight_def borderBottom_def u_def)
  have i: "in_limits u c = in_limits w c" "size_limits u c = size_limits w c"
    by (auto simp: in_limits_def size_limits_def l b)
  have z: "adjustedSize u c = adjustedSize w c"
    by (intro ext) (simp add: adjustedSize_def sizeForClientSize_def i b e Let_def)
  show "full_rect (upd_geo c (\<lambda>g. g\<lparr>max_mode := m, geom_restore := r, quick_tile_mode := t\<rparr>) w) c a = full_rect w c a"
    unfolding u_def [symmetric]
    using assms(2) e by (simp add: full_rect_def with_adjusted_size_def z ruled_corner_def b e clientAreaAt_def n
      one_screen_number [OF assms(1)] a close_height_def close_width_def titlebarPosition_def Let_def)
qed

lemma kept_tile:
  assumes "kept_state v c = kept_state w c"
  shows "kept_state (upd_geo c (\<lambda>g. g\<lparr>quick_tile_mode := t\<rparr>) v) c = kept_state (upd_geo c (\<lambda>g. g\<lparr>quick_tile_mode := t\<rparr>) w) c"
proof -
  have "(geos u c)\<lparr>quick_tile_mode := t, client_size := (0, 0), block_geometry := 0, pending_geometry := PendingGeometryNone,
      geom_before_block := no_rect, frame_geometry := no_rect, needs_x_move := False\<rparr> =
      (geos (kept_state u c) c)\<lparr>quick_tile_mode := t\<rparr>" for u
    by (cases "geos u c") (simp add: kept_state_def)
  then show ?thesis using assms by (simp add: kept_upd_geo)
qed

lemma maximize_full_facts:
  assumes "\<not> shaded w c"
  shows "geometry (maximize_full c a w) c = full_rect w c a"
    "\<exists>t. kept_state (maximize_full c a w) c = kept_state (upd_geo c (\<lambda>g. g\<lparr>quick_tile_mode := t\<rparr>) w) c"
  using assms kept_tile [OF kept_setGeometry]
  by (auto simp: maximize_full_def Let_def setGeometry_unshaded)

lemma restored_full: "restored_rect w c (Maximize True True) = geom_restore (geos w c)"
  by (rule rect_eqI) (simp_all add: restored_rect_def setBottom_def setTop_def setLeft_def setRight_def Let_def)

lemma maximize_restore_facts:
  assumes "\<not> shaded w c" "\<not> hasAspect (hints (geos w c))" "rect_isValid (geom_restore (geos w c))"
    "contains_point a (rcenter (geom_restore (geos w c)))"
  shows "\<exists>u. maximize_restore pl c (Maximize True True) a w = Some u \<and> geometry u c = geom_restore (geos w c) \<and>
    kept_state u c = kept_state (upd_geo c (\<lambda>g. g\<lparr>quick_tile_mode := QuickTileNone\<rparr>) w) c"
proof -
  define v where "v = setGeometry c (geom_restore (geos w c)) (geom_mode w c) w"
  have v: "kept_state v c = kept_state w c" "geometry v c = geom_restore (geos w c)"
    using assms(1) by (simp_all add: v_def setGeometry_unshaded)
  have r: "geom_restore (geos v c) = geom_restore (geos w c)" using kept_fields(2) [OF v(1)] .
  have k: "kept_state (gcall (SetNetState c []) v) c = kept_state w c" using v by simp
  have "maximize_restore pl c (Maximize True True) a w =
      Some (upd_geo c (\<lambda>g. g\<lparr>quick_tile_mode := QuickTileNone\<rparr>) (gcall (SetNetState c []) v))"
    using assms by (simp add: maximize_restore_def restored_full v_def [symmetric] r Let_def)
  then show ?thesis using v kept_tile [OF k] by simp
qed

text \<open>C27: Maximizing a window in both directions and flipping it back is a round trip.  The calls return
  whatever placement would do; in between the window has the geometry for the whole area and
  remembers its own, and in the end geometry and mode are the ones before.\<close>

theorem maximize_restore_roundtrip:
  assumes free: "free_to_maximize w c" and "max_mode (geos w c) = MaximizeRestore"
    and "quick_tile_mode (geos w c) = QuickTileNone" and "rect_isValid (geometry w c)"
    and "contains_point (maximize_area w c) (rcenter (geometry w c))"
  shows "\<exists>v u. changeMaximize pl c True True False w = Some v \<and> max_mode (geos v c) = MaximizeFull \<and>
    geometry v c = full_rect w c (maximize_area w c) \<and> geom_restore (geos v c) = geometry w c \<and>
    changeMaximize pl c True True False v = Some u \<and> max_mode (geos u c) = MaximizeRestore \<and>
    quick_tile_mode (geos u c) = QuickTileNone \<and> geometry u c = geometry w c"
proof -
  have old: "max_mode (geos w c) = Maximize False False" using assms(2) by (simp add: MaximizeRestore_def)
  from flip_both [OF free old, of pl] assms(3) obtain x where
    x: "kept_state x c = kept_state (upd_geo c (\<lambda>g. g\<lparr>max_mode := Maximize True True, geom_restore := geometry w c\<rparr>) w) c"
      "geometry x c = geometry w c"
      "changeMaximize pl c True True False w =
         map_option (maximize_tail c) (apply_mode pl c (Maximize False False) (maximize_area w c) x)"
    by auto
  let ?A = "maximize_area w c"
  have f: "\<not> shaded w c" "screens_count w = 1" "\<not> electric_maximizing (geos w c)" "\<not> hasAspect (hints (geos w c))"
    using free by (auto simp: free_to_maximize_def)
  have kx: "\<not> shaded x c" "max_mode (geos x c) = Maximize True True"
    using kept_fields(1,12) [OF x(1)] f by simp_all
  define v where "v = maximize_tail c (maximize_full c ?A x)"
  have v1: "changeMaximize pl c True True False w = Some v"
    using x(3) kx(2) by (simp add: v_def apply_mode_def)
  obtain t where t: "kept_state (maximize_full c ?A x) c = kept_state (upd_geo c (\<lambda>g. g\<lparr>quick_tile_mode := t\<rparr>) x) c"
    using maximize_full_facts(2) [OF kx(1)] by blast
  have sh: "\<not> shaded (maximize_full c ?A x) c" using kept_fields(12) [OF t] kx by simp
  let ?m = "upd_geo c (\<lambda>g. g\<lparr>max_mode := Maximize True True, geom_restore := geometry w c, quick_tile_mode := t\<rparr>) w"
  have kv: "kept_state v c = kept_state ?m c"
    using tail_facts(2) [OF sh] t kept_tile [OF x(1), of t] by (simp add: v_def upd_geo_def)
  have fv: "free_to_maximize v c" using free_kept [OF kv] free_upd free by simp
  have av: "maximize_area v c = ?A" using kept_maximize_area [OF kv] f mode_upd(1) by simp
  have "screens_count x = 1" "\<not> electric_maximizing (geos x c)" using kept_fields(9,10) [OF x(1)] f by simp_all
  then have "full_rect x c ?A = full_rect (kept_state x c) c ?A" using kept_full_rect by simp
  also have "\<dots> = full_rect (upd_geo c (\<lambda>g. g\<lparr>max_mode := Maximize True True, geom_restore := geometry w c,
      quick_tile_mode := quick_tile_mode g\<rparr>) w) c ?A"
    unfolding x(1) using kept_full_rect f by simp
  finally have gv: "geometry v c = full_rect w c ?A"
    using tail_facts(1) [OF sh] maximize_full_facts(1) [OF kx(1)]
      mode_upd(2) [OF f(2,3), where m = "Maximize True True" and r = "geometry w c" and t = "quick_tile_mode (geos w c)" and a = ?A]
    by (simp add: v_def upd_geo_def)
  have mv: "max_mode (geos v c) = Maximize True True" "geom_restore (geos v c) = geometry w c"
    using kept_fields(1,2) [OF kv] by simp_all
  from flip_both [OF fv mv(1), of pl] obtain y where
    y: "kept_state y c = kept_state (upd_geo c (\<lambda>g. g\<lparr>max_mode := Maximize False False\<rparr>) v) c"
      "changeMaximize pl c True True False v =
         map_option (maximize_tail c) (apply_mode pl c (Maximize True True) ?A y)"
    by (auto simp: av)
  have ky: "\<not> shaded y c" "max_mode (geos y c) = Maximize False False" "geom_restore (geos y c) = geometry w c"
      "\<not> hasAspect (hints (geos y c))"
    using kept_fields(1,2,8,12) [OF y(1)] mv fv by (simp_all add: free_to_maximize_def)
  obtain z where z: "maximize_restore pl c (Maximize True True) ?A y = Some z" "geometry z c = geometry w c"
      "kept_state z c = kept_state (upd_geo c (\<lambda>g. g\<lparr>quick_tile_mode := QuickTileNone\<rparr>) y) c"
    using maximize_restore_facts [OF ky(1,4), of ?A pl] ky(3) assms(4,5) by auto
  have shz: "\<not> shaded z c" using kept_fields(12) [OF z(3)] ky by simp
  have kz: "max_mode (geos z c) = Maximize False False" "quick_tile_mode (geos z c) = QuickTileNone"
    using kept_fields(1,3) [OF z(3)] ky by simp_all
  have u: "changeMaximize pl c True True False v = Some (maximize_tail c z)"
    using y(2) ky(2) z(1) by (simp add: apply_mode_def)
  note kt = kept_fields(1,3) [OF tail_facts(2) [OF shz]]
  show ?thesis
    using v1 u mv gv kt kz tail_facts(1) [OF shz] z(2) by (auto simp: MaximizeFull_def MaximizeRestore_def)
qed

lemma maximize_restore_roundtrip_witness:
  "let pl = (\<lambda>c area w. None) in
     \<exists>v u. changeMaximize pl 1 True True False example_screen = Some v \<and>
     geometry v 1 = full_rect example_screen 1 (mk_rect (0, 0) (400, 300)) \<and>
     changeMaximize pl 1 True True False v = Some u \<and> geometry u 1 = mk_rect (0, 0) (100, 100)"
proof -
  have "free_to_maximize example_screen 1"
    unfolding free_to_maximize_def
  proof (intro conjI)
    show "steady_borders example_screen 1"
      by (simp add: steady_borders_def example_screen_def plain_geo_def world.defs)
  qed code_simp+
  moreover have "max_mode (geos example_screen 1) = MaximizeRestore"
    "quick_tile_mode (geos example_screen 1) = QuickTileNone" "rect_isValid (geometry example_screen 1)"
    "contains_point (maximize_area example_screen 1) (rcenter (geometry example_screen 1))"
    "maximize_area example_screen 1 = mk_rect (0, 0) (400, 300)" "geometry example_screen 1 = mk_rect (0, 0) (100, 100)"
    by code_simp+
  ultimately show ?thesis
    using maximize_restore_roundtrip [of example_screen 1 "\<lambda>c area w. None"] by (auto simp: Let_def)
qed

end
