(* ===== verification/Placement.thy ===== *)
theory Placement
  imports Maximizing Transiency
begin

text \<open>
  The placement of windows (\<^verbatim>\<open>placement.cpp\<close>): the policies, the choice among them and the
  commands for all windows of a desktop.  A policy may hand the window on to another one; the
  functions take the placement by policy, \<open>pl\<close>, as an argument, and \<open>place\<close> bounds the number of
  times it is handed on.  The area, a reference in the code, is not used again by the callers.
\<close>

type_synonym place_policy = "win \<Rightarrow> rect \<Rightarrow> Policy \<Rightarrow> Policy \<Rightarrow> gworld \<Rightarrow> gworld option"

section \<open>Policies that place the window themselves\<close>

definition random_step :: int where
  "random_step = 24"

definition placeAtRandom :: "win \<Rightarrow> rect \<Rightarrow> gworld \<Rightarrow> gworld" where
  "placeAtRandom c area w =
     (let a = checkArea w c area; (px, py) = random_pos w;
          px = (if px < rx1 a then rx1 a else px); py = (if py < ry1 a then ry1 a else py);
          px = px + random_step; py = py + 2 * random_step;
          px = (if px > c_div (rwidth a) 2 then rx1 a + random_step else px);
          py = (if py > c_div (rheight a) 2 then ry1 a + random_step else py);
          (tx, px) = (if px + wwidth w c > rx2 a
                      then (let tx = rx2 a - wwidth w c in if tx < 0 then 0 else tx, rx1 a) else (px, px));
          (ty, py) = (if py + wheight w c > ry2 a
                      then (let ty = ry2 a - wheight w c in if ty < 0 then 0 else ty, ry1 a) else (py, py))
      in move c (tx, ty) NormalGeometrySet (w\<lparr>random_pos := (px, py)\<rparr>))"

definition placeCentered :: "win \<Rightarrow> rect \<Rightarrow> gworld \<Rightarrow> gworld" where
  "placeCentered c area w =
     (let a = checkArea w c area
      in move c (rx1 a + c_div (rwidth a - wwidth w c) 2, ry1 a + c_div (rheight a - wheight w c) 2)
           NormalGeometrySet w)"

definition placeZeroCornered :: "win \<Rightarrow> rect \<Rightarrow> gworld \<Rightarrow> gworld" where
  "placeZeroCornered c area w = move c (topLeft (checkArea w c area)) NormalGeometrySet w"

definition placeOnScreenDisplay :: "win \<Rightarrow> rect \<Rightarrow> gworld \<Rightarrow> gworld" where
  "placeOnScreenDisplay c area w =
     move c (rx1 area + c_div (rwidth area - wwidth w c) 2, ry1 area + c_div (2 * (rheight area - wheight w c)) 3)
       NormalGeometrySet w"

definition placeUnderMouse :: "win \<Rightarrow> rect \<Rightarrow> gworld \<Rightarrow> gworld" where
  "placeUnderMouse c area w =
     (let a = checkArea w c area;
          w = move c (topLeft (moveCenter (cursor_pos w) (geometry w c))) NormalGeometrySet w
      in keepInArea c a False w)"

text \<open>A transient with a hint is put beside its main window, turned over at the edges of the screen;
  without a main window the code dereferences a null pointer.\<close>

definition turn_over :: "win \<Rightarrow> rect \<Rightarrow> (gworld \<Rightarrow> bool) \<Rightarrow> (gworld \<Rightarrow> point) \<Rightarrow> bool \<times> gworld \<Rightarrow> bool \<times> gworld" where
  "turn_over c screen cond p s =
     (case s of (inside, w) \<Rightarrow>
       if inside \<or> \<not> cond w then (inside, w)
       else let w = move c (p w) NormalGeometrySet w in (contains_rect screen (geometry w c), w))"

definition placeTransient :: "win \<Rightarrow> gworld \<Rightarrow> gworld option" where
  "placeTransient c w =
     (case m_transientFor (cl w c) of
        None \<Rightarrow> None
      | Some t \<Rightarrow>
          let target = add_point (add_point (topLeft (geometry w t)) (clientPos w t)) (placement_pos (geos w c));
              w = move c target NormalGeometrySet w;
              screen = screens_geometry w (t_screen (cl w t));
              s = (contains_rect screen (geometry w c), w);
              s = turn_over c screen (\<lambda>w. rx1 screen + rwidth screen < wx w c + wwidth w c)
                    (\<lambda>w. (wx w c - wwidth w c, wy w c)) s;
              s = turn_over c screen (\<lambda>w. ry1 screen + rheight screen < wy w c + wheight w c)
                    (\<lambda>w. (wx w c, wy w c - wheight w c)) s;
              s = turn_over c screen (\<lambda>w. ry1 screen > wy w c) (\<lambda>w. (wx w c, ry1 screen)) s;
              s = turn_over c screen (\<lambda>w. rx1 screen > wx w c) (\<lambda>w. (rx1 screen, wy w c)) s
          in Some (if fst s then snd s else keepInArea c screen False (move c target NormalGeometrySet (snd s))))"

section \<open>Cascading\<close>

definition cascadeOffset :: "gworld \<Rightarrow> win \<Rightarrow> point" where
  "cascadeOffset w c =
     (let a = clientAreaAt w PlacementArea (rcenter (geometry w c)) (m_desktop (cl w c))
      in (c_div (rwidth a) 48, c_div (rheight a) 48))"

definition reinitCascading :: "int \<Rightarrow> gworld \<Rightarrow> gworld" where
  "reinitCascading desktop w =
     (if desktop = 0 then w\<lparr>cascading := replicate (desktop_count w) ((- 1, - 1), 0, 0)\<rparr>
      else w\<lparr>cascading := (cascading w)[nat (desktop - 1) := ((- 1, - 1), 0, 0)]\<rparr>)"

text \<open>The next position with the column and the row; \<open>None\<close>: the window does not fit.\<close>

definition cascade_pos :: "rect \<Rightarrow> qsize \<Rightarrow> point \<Rightarrow> point \<times> int \<times> int \<Rightarrow> point option \<times> point \<times> int \<times> int" where
  "cascade_pos a s delta info =
     (let X = rx1 a; Y = ry1 a; H = rheight a; W = rwidth a; cw = fst s; ch = snd s;
          ((x, y), col, row) = (if fst (fst info) < 0 \<or> fst (fst info) < X \<or> snd (fst info) < Y
                                then ((X, Y), 0, 0) else info);
          xp = x; yp = (if y + ch > H then Y else y)
      in if xp + cw > W \<and> yp = 0 then (None, (x, y), col, row)
         else let xp = (if xp + cw > W then X else xp)
              in if x \<noteq> X \<and> y \<noteq> Y
                 then let (col, xp) = (if xp \<noteq> X \<and> yp = Y then (col + 1, fst delta * (col + 1)) else (col, xp));
                          (row, yp) = (if yp \<noteq> Y \<and> xp = X then (row + 1, snd delta * (row + 1)) else (row, yp))
                      in if xp + cw > W - X \<or> yp + ch > H - Y then (None, (x, y), col, row)
                         else (Some (xp, yp), (xp + fst delta, yp + snd delta), col, row)
                 else (Some (xp, yp), (xp + fst delta, yp + snd delta), col, row))"

definition placeCascaded :: "place_policy \<Rightarrow> win \<Rightarrow> rect \<Rightarrow> Policy \<Rightarrow> gworld \<Rightarrow> gworld option" where
  "placeCascaded pl c area nextPlacement w =
     (let dn = nat (desktop_of w c - 1);
          nextPlacement = (if nextPlacement = Unknown then Smart else nextPlacement);
          (p, info) = cascade_pos (checkArea w c area) (wwidth w c, wheight w c) (cascadeOffset w c) (cascading w ! dn);
          w = w\<lparr>cascading := (cascading w)[dn := info]\<rparr>
      in case p of
           None \<Rightarrow> pl c area nextPlacement Unknown w
         | Some p \<Rightarrow> Some (move c p NormalGeometrySet w))"

section \<open>Choosing a policy\<close>

text \<open>The main window to place on: the only one on the current desktop, or the only one at all.  \<open>None\<close>:
  there are two or more on the current desktop, so the window is centered.\<close>

primrec choose_main :: "gworld \<Rightarrow> bool \<Rightarrow> win list \<Rightarrow> win option \<Rightarrow> win option \<Rightarrow> int \<Rightarrow> (win option \<times> win option \<times> int) option" where
  "choose_main w many [] on on2 mains = Some (on, on2, mains)"
| "choose_main w many (m # ms) on on2 mains =
     (if many \<and> isSpecialWindow w m then choose_main w many ms on on2 mains
      else if isOnCurrentDesktop w m
      then if on = None then choose_main w many ms (Some m) (Some m) (mains + 1) else None
      else choose_main w many ms on (Some m) (mains + 1))"

definition main_to_place_on :: "gworld \<Rightarrow> win \<Rightarrow> win option" where
  "main_to_place_on w c =
     (let mains = mainClients w c
      in case choose_main w (length mains > 1) mains None None 0 of
           None \<Rightarrow> None
         | Some (on, on2, n) \<Rightarrow>
             let p = (if on = None then if n \<noteq> 1 then None else on2 else on)
             in case p of None \<Rightarrow> None | Some m \<Rightarrow> if isDesktop w m then None else Some m)"

definition placeOnMainWindow :: "place_policy \<Rightarrow> (place_policy \<Rightarrow> win \<Rightarrow> rect \<Rightarrow> Policy \<Rightarrow> gworld \<Rightarrow> gworld option) \<Rightarrow>
    win \<Rightarrow> rect \<Rightarrow> Policy \<Rightarrow> gworld \<Rightarrow> gworld option" where
  "placeOnMainWindow pl maximizing c area nextPlacement w =
     do {
       w \<leftarrow> (if nextPlacement = Maximizing then maximizing pl c area NoPlacement w else Some w);
       let area = checkArea w c area;
       (case main_to_place_on w c of
          None \<Rightarrow> pl c area Centered Unknown w
        | Some m \<Rightarrow>
            let w = move c (topLeft (moveCenter (rcenter (geometry w m)) (geometry w c))) NormalGeometrySet w
            in Some (keepInArea c (checkArea w c no_rect) False w))
     }"

text \<open>\<open>Placement::place(c, area)\<close>: the rules first, then the type of the window, then the option.\<close>

definition place_by_type :: "place_policy \<Rightarrow> (place_policy \<Rightarrow> win \<Rightarrow> rect \<Rightarrow> Policy \<Rightarrow> gworld \<Rightarrow> gworld option) \<Rightarrow>
    win \<Rightarrow> rect \<Rightarrow> gworld \<Rightarrow> gworld option" where
  "place_by_type pl maximizing c area w =
     (let policy = wr_checkPlacement (w_rules (geos w c)) Default
      in if policy \<noteq> Default then pl c area policy Unknown w
         else if isUtility w c then pl c area Default Unknown w
         else if isDialog w c then placeOnMainWindow pl maximizing c area (placement_option w) w
         else if isSplash w c then placeOnMainWindow pl maximizing c area Unknown w
         else if isOnScreenDisplay w c \<or> isNotification w c then Some (placeOnScreenDisplay c area w)
         else if isTransient w c \<and> placement_hint (cl w c) then placeTransient c w
         else pl c area (placement_option w) Unknown w)"

text \<open>Maximizing may come back here for a window whose geometry cannot be restored; it does so with
  the same bound, so a loop of the two shows as no result.\<close>

definition bounded_size :: "qsize \<Rightarrow> qsize \<Rightarrow> qsize" where
  "bounded_size s t = (min (fst s) (fst t), min (snd s) (snd t))"

definition maximizing_once :: "change_maximize \<Rightarrow> place_policy \<Rightarrow> win \<Rightarrow> rect \<Rightarrow> Policy \<Rightarrow> gworld \<Rightarrow> gworld option" where
  "maximizing_once cm pl c area nextPlacement w =
     (let nextPlacement = (if nextPlacement = Unknown then Smart else nextPlacement); s = maxSize w c
      in if isMaximizable w c \<and> fst s \<ge> rwidth area \<and> snd s \<ge> rheight area
         then if clientAreaOf w MaximizeArea c = area then maximize cm c MaximizeFull w
              else Some (if isClient w c then setGeometry c area NormalGeometrySet w else w)
         else pl c area nextPlacement Unknown
                (resizeWithChecks c (bounded_size s (rect_size area)) None NormalGeometrySet w))"

text \<open>The number bounds how often maximizing comes back to the placement.\<close>

primrec placeMaximizing :: "nat \<Rightarrow> place_policy \<Rightarrow> win \<Rightarrow> rect \<Rightarrow> Policy \<Rightarrow> gworld \<Rightarrow> gworld option" where
  "placeMaximizing 0 pl c area nextPlacement w = None"
| "placeMaximizing (Suc n) pl c area nextPlacement w =
     maximizing_once (changeMaximize (place_by_type pl (placeMaximizing n))) pl c area nextPlacement w"

text \<open>After the placement the borders at inner edges of the screen are moved outside.\<close>

definition snap_borders :: "win \<Rightarrow> gworld \<Rightarrow> gworld" where
  "snap_borders c w =
     (if borderSnapZone w \<noteq> 0
      then let g = geometry w c; cp = clientPos w c; cs = sub_point (rect_size g) (client_size (geos w c));
               full = clientAreaOf w FullArea c; title = titlebarPosition w c; m = max_mode (geos w c);
               x = (if \<not> maxHoriz m
                    then rx1 g + (if title \<noteq> PositionRight \<and> rx2 g = rx2 full then fst cs - fst cp else 0)
                               - (if title \<noteq> PositionLeft \<and> rx1 g = rx1 full then fst cp else 0)
                    else rx1 g);
               y = (if \<not> maxVert m
                    then ry1 g + (if title \<noteq> PositionBottom \<and> ry2 g = ry2 full then snd cs - snd cp else 0)
                               - (if title \<noteq> PositionTop \<and> ry1 g = ry1 full then snd cp else 0)
                    else ry1 g)
           in move c (x, y) NormalGeometrySet w
      else w)"

definition place_once :: "nat \<Rightarrow> place_policy \<Rightarrow> place_policy" where
  "place_once n pl c area policy nextPlacement w =
     (let policy = (if policy = Unknown then Default else policy);
          policy = (if policy = Default then placement_option w else policy)
      in if policy = NoPlacement then Some w
         else do {
           w \<leftarrow> (if policy = Random then Some (placeAtRandom c area w)
                 else if policy = Cascade then placeCascaded pl c area nextPlacement w
                 else if policy = Centered then Some (placeCentered c area w)
                 else if policy = ZeroCornered then Some (placeZeroCornered c area w)
                 else if policy = UnderMouse then Some (placeUnderMouse c area w)
                 else if policy = OnMainWindow then placeOnMainWindow pl (placeMaximizing n) c area nextPlacement w
                 else if policy = Maximizing then placeMaximizing n pl c area nextPlacement w
                 else placeSmart c area w);
           Some (snap_borders c w)
         })"

primrec place :: "nat \<Rightarrow> place_policy" where
  "place 0 c area policy nextPlacement w = None"
| "place (Suc n) c area policy nextPlacement w = place_once n (place n) c area policy nextPlacement w"

definition placement :: "nat \<Rightarrow> win \<Rightarrow> rect \<Rightarrow> gworld \<Rightarrow> gworld option" where
  "placement n c area w = place_by_type (place n) (placeMaximizing n) c area w"

section \<open>All windows\<close>

definition arranged :: "gworld \<Rightarrow> win \<Rightarrow> bool" where
  "arranged w c =
     (isClient w c \<and> isOnCurrentDesktop w c \<and> \<not> isMinimized w c \<and> \<not> isOnAllDesktops w c \<and> isMovable w c)"

definition cascadeDesktop :: "nat \<Rightarrow> gworld \<Rightarrow> gworld option" where
  "cascadeDesktop n w =
     (let desktop = uint (current_desktop w); w = reinitCascading desktop w;
          area = clientAreaAt w PlacementArea (0, 0) desktop
      in foldM (\<lambda>c w. if arranged w c then placeCascaded (place n) c area Unknown w else Some w) (stacking_order w) w)"

definition unclutterDesktop :: "gworld \<Rightarrow> gworld option" where
  "unclutterDesktop w =
     foldM (\<lambda>c w. if arranged w c then placeSmart c no_rect w else Some w) (rev (clients w)) w"

end
