(* ===== verification/ArrangeFacts.thy ===== *)
theory ArrangeFacts
  imports FullScreen Placement
begin

text \<open>
  Packing a window against its neighbours, the placement of a window by its type, and examples of
  what tiling, cascading and the full screen hack do at the borders of screens.
\<close>

section \<open>Packing\<close>

text \<open>The two loops of the four functions: towards smaller and towards larger coordinates.\<close>

lemma pack_down_fold:
  fixes x :: "'a \<Rightarrow> int" and P :: "'a \<Rightarrow> bool" and old :: int
  defines "r \<equiv> \<lambda>ls n. fold (\<lambda>l n. if x l > n \<and> x l < old \<and> P l then x l else n) ls n"
  assumes "n < old"
  shows "n \<le> r ls n \<and> r ls n < old \<and> (\<forall>l\<in>set ls. P l \<and> x l < old \<longrightarrow> x l \<le> r ls n)"
  using assms(2) unfolding r_def by (induction ls arbitrary: n) fastforce+

lemma pack_up_fold:
  fixes x :: "'a \<Rightarrow> int" and P :: "'a \<Rightarrow> bool" and old :: int
  defines "r \<equiv> \<lambda>ls n. fold (\<lambda>l n. if x l < n \<and> x l > old \<and> P l then x l else n) ls n"
  assumes "old < n"
  shows "r ls n \<le> n \<and> old < r ls n \<and> (\<forall>l\<in>set ls. P l \<and> old < x l \<longrightarrow> r ls n \<le> x l)"
  using assms(2) unfolding r_def by (induction ls arbitrary: n) fastforce+

text \<open>Packing a window moves it in the direction that was asked for, whenever it is not yet at the
  edge of the area, and stops at the first window in its way: no edge of a window beside it lies
  between the place it comes from and the place it gets.\<close>

lemma packing_stops_at_the_first:
  fixes w :: gworld and c :: win and z :: int and edge :: bool
  defines "g \<equiv> geometry w c" and "area \<equiv> clientAreaOf w MaximizeArea c"
    and "L \<equiv> packPositionLeft w c z edge" and "R \<equiv> packPositionRight w c z edge"
    and "U \<equiv> packPositionUp w c z edge" and "D \<equiv> packPositionDown w c z edge"
  assumes "0 \<le> fst (clientPos w c)" "fst (client_size (geos w c)) + fst (clientPos w c) \<le> wwidth w c"
    "snd (client_size (geos w c)) + snd (clientPos w c) \<le> wheight w c"
  shows "L \<le> z \<and> z \<le> R \<and> U \<le> z \<and> z \<le> D \<and>
    (rx1 area < z \<longrightarrow> L < z) \<and> (z < rx2 area \<longrightarrow> z < R) \<and> (ry1 area < z \<longrightarrow> U < z) \<and> (z < ry2 area \<longrightarrow> z < D) \<and>
    (\<forall>l\<in>set (pack_others w c). let h = geometry w l in
       (overlap_y g h \<longrightarrow> (if edge then rx2 h + 1 else rx1 h - 1) \<notin> {L<..<z} \<and>
                            (if edge then rx1 h - 1 else rx2 h + 1) \<notin> {z<..<R}) \<and>
       (overlap_x g h \<longrightarrow> (if edge then ry2 h + 1 else ry1 h - 1) \<notin> {U<..<z} \<and>
                            (if edge then ry1 h - 1 else ry2 h + 1) \<notin> {z<..<D}))"
proof -
  have down: "r \<le> z \<and> (a < z \<longrightarrow> r < z) \<and> (\<forall>l\<in>set ls. P l \<longrightarrow> x l \<notin> {r<..<z})"
    if r: "r = (if z \<le> n then z else fold (\<lambda>l n. if x l > n \<and> x l < z \<and> P l then x l else n) ls n)"
      and "a < z \<longrightarrow> n < z"
    for a r n ls P and x :: "win \<Rightarrow> int"
    using pack_down_fold [of n z x P ls] that(2) by (fastforce simp: r)
  have up: "z \<le> r \<and> (z < a \<longrightarrow> z < r) \<and> (\<forall>l\<in>set ls. P l \<longrightarrow> x l \<notin> {z<..<r})"
    if r: "r = (if z \<ge> n then z else fold (\<lambda>l n. if x l < n \<and> x l > z \<and> P l then x l else n) ls n)"
      and "z < a \<longrightarrow> z < n"
    for a r n ls P and x :: "win \<Rightarrow> int"
    using pack_up_fold [of z n x P ls] that(2) by (fastforce simp: r)
  have l: "L \<le> z \<and> (rx1 area < z \<longrightarrow> L < z) \<and> (\<forall>l\<in>set (pack_others w c). overlap_y g (geometry w l) \<longrightarrow>
      (if edge then rx2 (geometry w l) + 1 else rx1 (geometry w l) - 1) \<notin> {L<..<z})"
    unfolding L_def packPositionLeft_def Let_def g_def [symmetric] area_def [symmetric]
    by (rule down [OF refl]) (use assms(7) in auto)
  have r: "z \<le> R \<and> (z < rx2 area \<longrightarrow> z < R) \<and> (\<forall>l\<in>set (pack_others w c). overlap_y g (geometry w l) \<longrightarrow>
      (if edge then rx1 (geometry w l) - 1 else rx2 (geometry w l) + 1) \<notin> {z<..<R})"
    unfolding R_def packPositionRight_def Let_def g_def [symmetric] area_def [symmetric]
    by (rule up [OF refl]) (use assms(8) in auto)
  have u: "U \<le> z \<and> (ry1 area < z \<longrightarrow> U < z) \<and> (\<forall>l\<in>set (pack_others w c). overlap_x g (geometry w l) \<longrightarrow>
      (if edge then ry2 (geometry w l) + 1 else ry1 (geometry w l) - 1) \<notin> {U<..<z})"
    unfolding U_def packPositionUp_def Let_def g_def [symmetric] area_def [symmetric]
    by (rule down [OF refl]) (use titlebarPosition_def in auto)
  have d: "z \<le> D \<and> (z < ry2 area \<longrightarrow> z < D) \<and> (\<forall>l\<in>set (pack_others w c). overlap_x g (geometry w l) \<longrightarrow>
      (if edge then ry1 (geometry w l) - 1 else ry2 (geometry w l) + 1) \<notin> {z<..<D})"
    unfolding D_def packPositionDown_def Let_def g_def [symmetric] area_def [symmetric]
    by (rule up [OF refl]) (use assms(9) in auto)
  show ?thesis using l r u d by (simp add: Let_def)
qed

lemma packing_stops_at_the_first_witness:
  "let w = set_geom 2 (mk_rect (300, 50) (100, 100)) example_screen; L = packPositionLeft w 2 300 True
   in L < 300 \<and> 100 \<notin> {L<..<300}"
proof -
  define w where "w = set_geom 2 (mk_rect (300, 50) (100, 100)) example_screen"
  have "0 \<le> fst (clientPos w 2)" "fst (client_size (geos w 2)) + fst (clientPos w 2) \<le> wwidth w 2"
    "snd (client_size (geos w 2)) + snd (clientPos w 2) \<le> wheight w 2" "rx1 (clientAreaOf w MaximizeArea 2) < 300"
    "1 \<in> set (pack_others w 2)" "geometry w 1 = mk_rect (0, 0) (100, 100)"
    "overlap_y (geometry w 2) (mk_rect (0, 0) (100, 100))" "rx2 (mk_rect (0, 0) (100, 100)) + 1 = 100"
    unfolding w_def by code_simp+
  then show ?thesis
    using packing_stops_at_the_first [of w 2 300 True] by (auto simp: w_def [symmetric] Let_def)
qed

section \<open>Placement\<close>

text \<open>The smart search, for a window at any state with the same windows.\<close>

definition searchable :: "gworld \<Rightarrow> win \<Rightarrow> bool" where
  "searchable w c \<longleftrightarrow> 1 \<le> wwidth w c \<and> 1 \<le> wheight w c \<and>
     (\<forall>l\<in>set (relevant_windows w c). 1 \<le> wwidth w l \<and> 1 \<le> wheight w l)"

lemma placeSmart_Some:
  assumes "searchable w c"
  shows "\<exists>v. placeSmart c area w = Some v"
  using search_result [of w c area] assms
  by (auto simp: searchable_def placeSmart_def smart_position_def Let_def)

lemma relevant_cascading: "relevant_windows (w\<lparr>cascading := i\<rparr>) c = relevant_windows w c"
proof -
  have "isMinimized (w\<lparr>cascading := i\<rparr>) l = isMinimized w l" "isShade (w\<lparr>cascading := i\<rparr>) l = isShade w l"
    "isOnActivity (w\<lparr>cascading := i\<rparr>) l a = isOnActivity w l a" "windowType (w\<lparr>cascading := i\<rparr>) l = windowType w l" for l a
    by (simp_all add: isMinimized_def isShade_def isOnActivity_def isOnAllActivities_def windowType_def isClient_def
      isTransient_def)
  then have "isShown (w\<lparr>cascading := i\<rparr>) l b = isShown w l b" "isDesktop (w\<lparr>cascading := i\<rparr>) l = isDesktop w l"
    "isOnCurrentActivity (w\<lparr>cascading := i\<rparr>) l = isOnCurrentActivity w l" for l b
    by (simp_all add: isShown_def isDesktop_def isOnCurrentActivity_def split: option.split)
  then have "isIrrelevant (w\<lparr>cascading := i\<rparr>) l c d = isIrrelevant w l c d" for l d
    by (simp add: isIrrelevant_def isClient_def isCurrentTab_def isOnDesktop_def isOnAllDesktops_def split: option.split)
  moreover have "desktop_of (w\<lparr>cascading := i\<rparr>) c = desktop_of w c"
    by (simp add: desktop_of_def isOnAllDesktops_def)
  ultimately show ?thesis by (simp add: relevant_windows_def)
qed

lemma searchable_cascading: "searchable (w\<lparr>cascading := i\<rparr>) c = searchable w c"
  by (simp add: searchable_def relevant_cascading wwidth_def wheight_def geometry_def)

text \<open>The policy that is used in the end.\<close>

definition used_policy :: "gworld \<Rightarrow> Policy \<Rightarrow> Policy" where
  "used_policy w p = (if p = Unknown \<or> p = Default then placement_option w else p)"

lemma place_once_used:
  "place (Suc n) c area p q w = place_once n (place n) c area (used_policy w p) q w" if "used_policy w p \<notin> {Default, Unknown}"
  using that by (auto simp: used_policy_def place_once_def Let_def)

text \<open>One step decides, but for cascading and main windows, which hand the window on once.\<close>

lemma place_last:
  assumes "searchable w c" "p \<notin> {Cascade, OnMainWindow, Maximizing, Default, Unknown}"
  shows "\<exists>v. \<forall>n. place (Suc n) c area p q w = Some v"
proof -
  obtain v where "placeSmart c area w = Some v" using placeSmart_Some assms by blast
  then show ?thesis using assms by (cases p) (auto simp: place_once_def Let_def)
qed

text \<open>An option that names no policy stands for smart placement.\<close>

lemma place_default:
  assumes "searchable w c" "used_policy w p \<in> {Default, Unknown}"
  shows "\<exists>v. \<forall>n. place (Suc n) c area p q w = Some v"
proof -
  obtain v where v: "placeSmart c area w = Some v" using placeSmart_Some [OF assms(1)] by blast
  have "p \<in> {Default, Unknown}" "placement_option w \<in> {Default, Unknown}" using assms(2) by (auto simp: used_policy_def split: if_splits)
  then show ?thesis using v by (intro exI [of _ "snap_borders c v"]) (auto simp: place_once_def Let_def)
qed

lemma place_some:
  assumes "searchable w c" "used_policy w p \<noteq> Maximizing"
  shows "\<exists>v. \<forall>n. place (n + 2) c area p Unknown w = Some v"
proof (cases "used_policy w p \<in> {Default, Unknown}")
  case True
  then show ?thesis using place_default [OF assms(1) True, of area Unknown] by (metis add_2_eq_Suc')
next
  case named: False
  define u where "u = used_policy w p"
  have e: "place (n + 2) c area p Unknown w = place_once (Suc n) (place (Suc n)) c area u Unknown w" for n
    using place_once_used [of w p "Suc n"] named by (simp add: u_def)
  consider "u = Cascade" | "u = OnMainWindow" | "u \<notin> {Cascade, OnMainWindow, Maximizing, Default, Unknown}"
    using assms(2) named by (auto simp: u_def)
  then show ?thesis
  proof cases
    case 1
    define dn where "dn = nat (desktop_of w c - 1)"
    obtain q i where q: "cascade_pos (checkArea w c area) (wwidth w c, wheight w c) (cascadeOffset w c) (cascading w ! dn) = (q, i)"
      by (rule prod.exhaust)
    define x where "x = w\<lparr>cascading := (cascading w)[dn := i]\<rparr>"
    have "searchable x c" using assms(1) by (simp add: x_def searchable_cascading)
    then have "\<exists>v. \<forall>n. place (Suc n) c area Smart Unknown x = Some v" by (rule place_last) simp
    then obtain v where v: "\<forall>n. place (Suc n) c area Smart Unknown x = Some v" by blast
    have "placeCascaded (place (Suc n)) c area Unknown w =
        Some (case q of None \<Rightarrow> v | Some q \<Rightarrow> move c q NormalGeometrySet x)" for n
      using v [rule_format, of n]
      by (simp add: placeCascaded_def Let_def dn_def [symmetric] q x_def [symmetric] del: place.simps split: option.split)
    then show ?thesis unfolding e by (simp add: place_once_def 1 Let_def del: place.simps)
  next
    case 2
    have "\<exists>v. \<forall>n. place (Suc n) c (checkArea w c area) Centered Unknown w = Some v"
      using assms(1) by (rule place_last) simp
    then obtain v where v: "\<forall>n. place (Suc n) c (checkArea w c area) Centered Unknown w = Some v" by blast
    show ?thesis
      unfolding e by (cases "main_to_place_on w c")
        (simp_all add: place_once_def 2 placeOnMainWindow_def v Let_def del: place.simps)
  next
    case 3
    from place_last [OF assms(1) 3, of area Unknown] obtain v where "\<forall>n. place (Suc n) c area u Unknown w = Some v" by blast
    then show ?thesis unfolding e by auto
  qed
qed

lemma returns_if:
  assumes "b \<Longrightarrow> \<exists>v. \<forall>n. f n = Some v" "\<not> b \<Longrightarrow> \<exists>v. \<forall>n. g n = Some v"
  shows "\<exists>v. \<forall>n. (if b then f n else g n) = Some v"
  using assms by (cases b) auto

text \<open>C24: The placement of a window of any type returns, and hands the window on at most once, when neither the
  option nor a rule of the window asks for maximizing.  The windows have to be of at least a pixel,
  and a transient that brings its own position needs a main window.\<close>

theorem placement_returns:
  assumes "searchable w c" "placement_option w \<noteq> Maximizing"
    and "wr_checkPlacement (w_rules (geos w c)) Default \<noteq> Maximizing"
    and "placement_hint (cl w c) \<longrightarrow> m_transientFor (cl w c) \<noteq> None"
  shows "\<exists>v. \<forall>n. placement (n + 2) c area w = Some v"
proof -
  have u: "used_policy w p \<noteq> Maximizing" if "p \<noteq> Maximizing" for p
    using assms(2) that by (auto simp: used_policy_def)
  have some: "\<exists>v. \<forall>n. place (n + 2) c a p Unknown w = Some v" if "p \<noteq> Maximizing" for p a
    using place_some [OF assms(1) u [OF that]] .
  have main: "\<exists>v. \<forall>n. placeOnMainWindow (place (n + 2)) (placeMaximizing (n + 2)) c area q w = Some v"
    if "q \<noteq> Maximizing" for q
    using some [of Centered "checkArea w c area"] that
    by (cases "main_to_place_on w c") (auto simp: placeOnMainWindow_def Let_def simp del: place.simps placeMaximizing.simps)
  have transient: "\<exists>v. placeTransient c w = Some v" if "placement_hint (cl w c)"
    using assms(4) that by (auto simp: placeTransient_def Let_def)
  show ?thesis
    unfolding placement_def place_by_type_def Let_def
    by (intro returns_if some main assms(2,3)) (use transient in simp_all)
qed

lemma placement_returns_witness:
  "\<exists>v. placement 2 2 no_rect example_screen = Some v"
proof -
  have "relevant_windows example_screen 2 = [1]" "wwidth example_screen 2 = 100" "wheight example_screen 2 = 100"
    "wwidth example_screen 1 = 100" "wheight example_screen 1 = 100" "placement_option example_screen = Smart"
    "wr_checkPlacement (w_rules (geos example_screen 2)) Default = Default" "\<not> placement_hint (cl example_screen 2)"
    by code_simp+
  then have "\<exists>v. \<forall>n. placement (n + 2) 2 no_rect example_screen = Some v"
    using placement_returns [of example_screen 2 no_rect] by (auto simp: searchable_def)
  then obtain v where "placement (0 + 2) 2 no_rect example_screen = Some v" by blast
  then show ?thesis by (simp add: numeral_2_eq_2)
qed

section \<open>At the borders of screens\<close>

text \<open>Two screens of 400 by 300 pixels side by side, and a window of 100 by 100 pixels.\<close>

definition two_screens :: "rect \<Rightarrow> gworld" where
  "two_screens g = set_geom 2 g (example_screen\<lparr>screens_count := 2, display_size := (800, 300),
     screen_geometry := (\<lambda>i. mk_rect (400 * i, 0) (400, 300)), workarea := [no_rect, mk_rect (0, 0) (800, 300)],
     screenarea := [[], [mk_rect (0, 0) (400, 300), mk_rect (400, 0) (400, 300)]]\<rparr>)"

text \<open>A window that is tiled to the top a second time goes to the other screen, but with a mode
  that is both left and right: the sides are swapped whether there are any or not.\<close>

lemma tiled_up_twice:
  "fst (tile_again 2 (Tile False False True False) (450, 50) (upd_cl 2 (\<lambda>r. r\<lparr>t_screen := 1\<rparr>)
     (two_screens (mk_rect (400, 0) (400, 150))))) = Tile True True False False"
  by code_simp

text \<open>The full screen hack of a window on the second screen covers the first one.\<close>

lemma fullscreen_hack_of_another_screen:
  "let w = two_screens (mk_rect (400, 0) (400, 300))
   in fullscreen_hack_area w 2 1 = mk_rect (0, 0) (400, 300) \<and> screen_number w (rcenter (geometry w 2)) = 1"
  by code_simp

text \<open>Packing to the left: the test whether the border would show on the next screen looks at a window
  that is wholly on that screen, and lets the border overlap it.\<close>

lemma packed_over_the_border:
  "let w = two_screens (mk_rect (600, 0) (100, 100))
   in packPositionLeft w 2 600 True = 398 \<and> intersecting w (moveLeft 398 (geometry w 2)) = 2"
  by code_simp

text \<open>No window is cascaded on a screen whose left edge is further right than the screen is wide: the
  right edge of the window is compared with the width.\<close>

lemma never_cascaded:
  assumes "rwidth a < rx1 a + fst s" "ry1 a = 0" "fst (fst info) < 0"
  shows "fst (cascade_pos a s delta info) = None"
  using assms by (simp add: cascade_pos_def Let_def case_prod_beta)

text \<open>The call that is to restore a window before it is maximized the other way changes no direction
  and so returns at once.\<close>

lemma restore_first_does_nothing:
  assumes "w_rules (geos w c) = []" "\<not> hasAspect (hints (geos w c))"
  shows "changeMaximize pl c False False False w = Some w"
proof -
  have "new_mode w c False False False = max_mode (geos w c)"
    using assms by (cases "max_mode (geos w c)") (simp add: new_mode_def obey_aspect_def Let_def wr_checkMaximize_def
      wr_checkMaximizeVert_def wr_checkMaximizeHoriz_def)
  then show ?thesis
    by (simp add: changeMaximize_def change_maximize_once_def Let_def upd_geo_def)
qed

end
