(* ===== verification/Activation.thy ===== *)
theory Activation
  imports Stacking
begin

text \<open>
  \<^verbatim>\<open>activation.cpp\<close>, the decisions: which window may take the focus (focus stealing prevention), the
  times of the last user action it is decided by, the windows that demand attention, and the
  utility windows shown with the active window (\<open>updateToolWindows\<close> of \<^verbatim>\<open>workspace.cpp\<close>).

  A time is an X timestamp: \<open>0\<close> is \<open>XCB_TIME_CURRENT_TIME\<close>, but in a window's user time it
  means that the window does not want the focus; \<open>- 1\<close> is an unknown time.  How two timestamps
  compare (\<open>NET::timestampCompare\<close>) is a parameter of the session.  \<open>None\<close> stands for a failing
  assertion, a null pointer, or a search that does not return.
\<close>

section \<open>State\<close>

text \<open>What rules, hints and protocols of a window say to a question of this component.\<close>

record window_prefs =
  info_input :: bool
  info_urgency :: bool
  take_focus_protocol :: bool
  checkAcceptFocus :: "bool \<Rightarrow> bool"
  checkFPP :: "int \<Rightarrow> int"
  checkDisableGlobalShortcuts :: "bool \<Rightarrow> bool"
  checkDesktop :: "int \<Rightarrow> int"
  checkMinimize :: "bool \<Rightarrow> bool"
  creation_time :: "uint option"
  net_user_time :: uint

text \<open>The calls that leave the component.\<close>

datatype fcall =
    FocusToNull
  | FocusWindow win
  | SendTakeFocus win
  | UpdateVisibility win
  | UpdateAllowedActions win
  | UpdateTabStates win string
  | SetShade win ShadeMode
  | SetOpacity win bool
  | UpdateRules win string
  | SetNetDesktop win int
  | DesktopChanged win int bool
  | ToolWindowsTimer bool
  | ClosePopup
  | CloseMenu
  | ActiveWindow xid
  | ClientActivated "win option"
  | BlockGlobalShortcuts bool
  | GrabButtons win
  | NetShowingDesktop bool
  | ShowingDesktopChanged bool
  | NetCurrentDesktop uint
  | CurrentDesktopChanged uint
  | SetCurrentActivity win
  | ActiveScreen int
  | ActiveChanged win
  | DelayTimer bool
  | UpdateFocusMousePosition
  | TabAboutToChange win win
  | MapWindow win
  | UnmapWindow win
  | SetSkipTaskbar win bool
  | NetShaded win bool
  | Minimized win bool
  | CheckWorkspacePosition win int
  | UpdateClientArea
  | SendClientToScreen win int

record focus_world = wm +
  prefs :: "win \<Rightarrow> window_prefs"
  shade_below :: "win \<Rightarrow> win option"
  server_time :: uint
  last_active_client :: "win option"
  delayfocus_client :: "win option"
  delay_timer :: bool
  block_focus :: int
  active_client_recursion :: int
  active_popup :: bool
  active_popup_client :: "win option"
  menu_client :: "win option"
  moving_client :: "win option"
  focusPolicyIsReasonable :: bool
  isNextFocusPrefersMouse :: bool
  isHideUtilityWindowsForInactive :: bool
  cursor_pos :: "int \<times> int"
  screens_number :: int
  desktop_count :: int
  shortcuts_disabled :: bool
  isInactiveTabsSkipTaskbar :: bool
  focus_out_timer :: "win \<Rightarrow> bool"
  net_keepAbove :: "win \<Rightarrow> bool"
  net_keepBelow :: "win \<Rightarrow> bool"
  tab_clients :: "nat \<Rightarrow> win list"
  tab_updates_blocked :: "nat \<Rightarrow> bool"
  fcalls :: "fcall list"

definition fcall :: "fcall \<Rightarrow> focus_world \<Rightarrow> focus_world" where
  "fcall e w = w\<lparr>fcalls := fcalls w @ [e]\<rparr>"

section \<open>Who is about to get the focus\<close>

definition gotFocusIn :: "win \<Rightarrow> 'a world_scheme \<Rightarrow> 'a world_scheme" where
  "gotFocusIn c w =
     (if c \<in> set (should_get_focus w)
      then w\<lparr>should_get_focus := tl (dropWhile (\<lambda>x. x \<noteq> c) (should_get_focus w))\<rparr> else w)"

definition setShouldGetFocus :: "win \<Rightarrow> 'a wm_scheme \<Rightarrow> 'a wm_scheme option" where
  "setShouldGetFocus c w = updateStackingOrder False (w\<lparr>should_get_focus := should_get_focus w @ [c]\<rparr>)"

section \<open>Focus stealing prevention\<close>

text \<open>The levels and protections: \<open>0\<close> none, \<open>1\<close> low, \<open>2\<close> medium, \<open>3\<close> high, \<open>4\<close> extreme.\<close>

definition protection_of :: "focus_world \<Rightarrow> win option \<Rightarrow> int" where
  "protection_of w ac = (case ac of None \<Rightarrow> 0 | Some a \<Rightarrow> checkFPP (prefs w a) 2)"

text \<open>The decision for a window whose desktop is no obstacle, between the active window and it.\<close>

definition decide_activation ::
    "focus_world \<Rightarrow> win \<Rightarrow> uint \<Rightarrow> int \<Rightarrow> int \<Rightarrow> win \<Rightarrow> bool option" where
  "decide_activation w c time level protection a =
     do {
       same \<leftarrow> (if isClient w a then belongToSameApplication w c a True else Some False);
       if same \<and> protection < 3 then Some True
       else if \<not> isOnCurrentDesktop w c then Some False
       else if level > 2 \<and> protection > 1 then Some False
       else if time = - 1 then Some (level < 2 \<and> protection < 3)
       else map_option (\<lambda>user_time. timestampCompare w time user_time \<ge> 0) (userTime w a)
     }"

definition activation_allowed ::
    "focus_world \<Rightarrow> win \<Rightarrow> uint \<Rightarrow> int \<Rightarrow> win option \<Rightarrow> bool \<Rightarrow> bool \<Rightarrow> bool option" where
  "activation_allowed w c time level ac focus_in ignore_desktop =
     (let protection = protection_of w ac in
      if session_saving w \<and> level \<le> 2 then Some True
      else if focus_in \<and> c \<in> set (should_get_focus w) then Some True
      else if time = 0 \<and> \<not> checkAcceptFocus (prefs w c) False then Some False
      else if level = 0 \<or> protection = 0 then Some True
      else if level = 4 \<or> protection = 4 then Some False
      else if \<not> ignore_desktop \<and> \<not> isOnCurrentDesktop w c then Some False
      else case ac of
        None \<Rightarrow> Some True
      | Some a \<Rightarrow> if isDesktop w a then Some True else decide_activation w c time level protection a)"

definition allowClientActivation :: "focus_world \<Rightarrow> win \<Rightarrow> uint \<Rightarrow> bool \<Rightarrow> bool \<Rightarrow> bool option" where
  "allowClientActivation w c time focus_in ignore_desktop =
     do {
       time \<leftarrow> (if time = - 1 then userTime w c else Some time);
       activation_allowed w c time (checkFSP (cl w c) (focusStealingPreventionLevel w))
         (if focus_in then last_active_client w else mostRecentlyActivatedClient w) focus_in ignore_desktop
     }"

section \<open>User times\<close>

definition later_time :: "'a wm_scheme \<Rightarrow> uint \<Rightarrow> uint \<Rightarrow> uint" where
  "later_time w time old =
     (if time \<noteq> - 1 \<and> (old = 0 \<or> timestampCompare w time old > 0) then time else old)"

definition now_if_current :: "focus_world \<Rightarrow> uint \<Rightarrow> uint" where
  "now_if_current w time = (if time = 0 then server_time w else time)"

definition group_updateUserTime :: "nat \<Rightarrow> uint \<Rightarrow> focus_world \<Rightarrow> focus_world" where
  "group_updateUserTime g time w =
     w\<lparr>grp := (grp w)(g := (grp w g)\<lparr>group_time := later_time w (now_if_current w time) (group_time (grp w g))\<rparr>)\<rparr>"

definition updateUserTime :: "win \<Rightarrow> uint \<Rightarrow> focus_world \<Rightarrow> focus_world option" where
  "updateUserTime c time w =
     (let time = now_if_current w time; old = m_userTime (cl w c);
          w = (if time \<noteq> - 1 \<and> (old = 0 \<or> timestampCompare w time old > 0)
               then (upd_cl c (\<lambda>r. r\<lparr>m_userTime := time\<rparr>) w)\<lparr>shade_below := (shade_below w)(c := None)\<rparr> else w)
      in case in_group (cl w c) of
           None \<Rightarrow> None
         | Some g \<Rightarrow> Some (group_updateUserTime g (m_userTime (cl w c)) w))"

text \<open>The startup notification of a group leader; \<open>None\<close>: the notification does not match.\<close>

definition group_startupIdChanged :: "nat \<Rightarrow> uint option \<Rightarrow> focus_world \<Rightarrow> focus_world" where
  "group_startupIdChanged g asn w =
     (case asn of
        None \<Rightarrow> w
      | Some t \<Rightarrow>
          if t \<noteq> 0 \<and> group_time (grp w g) \<noteq> - 1 \<and> timestampCompare w t (group_time (grp w g)) > 0
          then w\<lparr>grp := (grp w)(g := (grp w g)\<lparr>group_time := t\<rparr>)\<rparr> else w)"

definition readUserCreationTime :: "focus_world \<Rightarrow> win \<Rightarrow> uint" where
  "readUserCreationTime w c = (case creation_time (prefs w c) of None \<Rightarrow> - 1 | Some t \<Rightarrow> t)"

text \<open>The time of the property and of the startup notification.\<close>

definition announced_time :: "focus_world \<Rightarrow> win \<Rightarrow> uint option \<Rightarrow> uint" where
  "announced_time w c asn =
     (let time = net_user_time (prefs w c) in
      case asn of
        None \<Rightarrow> time
      | Some t \<Rightarrow>
          if time \<noteq> 0 \<and> t \<noteq> 0 \<and> (time = - 1 \<or> timestampCompare w t time > 0) then t else time)"

text \<open>\<open>sameApplicationActiveHackPredicate\<close>, and the first window of a list it holds of.\<close>

definition sameApplicationActiveHack :: "focus_world \<Rightarrow> win \<Rightarrow> win \<Rightarrow> bool option" where
  "sameApplicationActiveHack w this c =
     (if isSplash w c \<or> isToolbar w c \<or> isUtility w c \<or> windowType w c = NET_Menu \<or> c = this then Some False
      else belongToSameApplication w c this True)"

primrec any_of :: "('a \<Rightarrow> bool option) \<Rightarrow> 'a list \<Rightarrow> bool option" where
  "any_of p [] = Some False"
| "any_of p (x # xs) = do { b \<leftarrow> p x; if b then Some True else any_of p xs }"

definition first_window :: "focus_world \<Rightarrow> win \<Rightarrow> win \<Rightarrow> bool option" where
  "first_window w this act =
     (if isTransient w this then
        if hasTransient w act this True then Some True
        else if groupTransient w this then
          map_option Not (any_of (sameApplicationActiveHack w this) (filter (isClient w) (mainClients w this)))
        else Some False
      else map_option Not (any_of (sameApplicationActiveHack w this) (clients w @ desktops w)))"

definition readUserTimeMapTimestamp :: "focus_world \<Rightarrow> win \<Rightarrow> uint option \<Rightarrow> bool \<Rightarrow> uint option" where
  "readUserTimeMapTimestamp w this asn session =
     (let time = announced_time w this asn in
      if time \<noteq> - 1 then Some time
      else do {
        refuse \<leftarrow> (case mostRecentlyActivatedClient w of
            None \<Rightarrow> Some False
          | Some act \<Rightarrow>
              if \<not> isClient w act then Some False
              else do {
                same \<leftarrow> belongToSameApplication w act this True;
                if same then Some False
                else map_option (\<lambda>first. \<not> first \<and> checkFSP (cl w this) (focusStealingPreventionLevel w) > 0)
                       (first_window w this act)
              });
        Some (if refuse then 0 else if session then - 1 else readUserCreationTime w this)
      })"

text \<open>The user time at the end of \<open>manage\<close>.\<close>

definition manage_readTime :: "win \<Rightarrow> uint option \<Rightarrow> bool \<Rightarrow> focus_world \<Rightarrow> focus_world option" where
  "manage_readTime c asn session w =
     do {
       time \<leftarrow> readUserTimeMapTimestamp w c asn session;
       g \<leftarrow> in_group (cl w c);
       Some (group_updateUserTime g time (upd_cl c (\<lambda>r. r\<lparr>m_userTime := time\<rparr>) w))
     }"

definition manage_oldTime :: "win \<Rightarrow> focus_world \<Rightarrow> focus_world" where
  "manage_oldTime c w =
     (if m_userTime (cl w c) = 0 \<or> m_userTime (cl w c) = - 1
      then let t = server_time w - 1000000
           in upd_cl c (\<lambda>r. r\<lparr>m_userTime := (if t = 0 \<or> t = - 1 then t + 10 else t)\<rparr>) w
      else w)"

end
