(* ===== verification/TransientState.thy ===== *)
theory TransientState
  imports Activation
begin

text \<open>
  States a window shares with its transients and main windows: its layer (\<open>updateLayer\<close>,
  \<open>setKeepAbove\<close>, \<open>setKeepBelow\<close>), its desktop (\<open>setDesktop\<close>), being minimized, of
  \<^verbatim>\<open>abstract_client.cpp\<close> and \<^verbatim>\<open>group.cpp\<close>; and the utility windows shown with the active one
  (\<open>updateToolWindows\<close> of \<^verbatim>\<open>workspace.cpp\<close>).

  The recursions follow the transient relation, which may have circles; they are partial
  functions, \<open>None\<close> stands for a call that does not come back.
\<close>

section \<open>Loops of recursive calls\<close>

lemma foldM_mono [partial_function_mono]:
  assumes "\<And>x w. mono_option (\<lambda>f. g f x w)"
  shows "mono_option (\<lambda>f. foldM (g f) xs w)"
proof (induction xs arbitrary: w)
  case Nil
  show ?case by (simp add: option.const_mono)
next
  case (Cons x xs)
  have "mono_option (\<lambda>f. Option.bind (g f x w) (\<lambda>w. foldM (g f) xs w))"
    by (rule bind_mono [OF assms Cons.IH])
  moreover have "foldM (g f) (x # xs) w = Option.bind (g f x w) (\<lambda>w. foldM (g f) xs w)" for f
    by (cases "g f x w") simp_all
  ultimately show ?case by simp
qed

section \<open>The layer of a window\<close>

partial_function (option) updateLayer :: "win \<Rightarrow> 'a wm_scheme \<Rightarrow> 'a wm_scheme option" where
  "updateLayer c w =
     (let (l, w) = read_layer c w in
      if l = belongsToLayer w c then Some w
      else do {
        w \<leftarrow> blockStackingUpdates True w;
        w \<leftarrow> foldM (\<lambda>t w. updateLayer t w) (m_transients (cl w c)) (upd_cl c (\<lambda>r. r\<lparr>m_layer := UnknownLayer\<rparr>) w);
        blockStackingUpdates False w
      })"

declare updateLayer.simps [code]

definition updateClientLayer :: "win option \<Rightarrow> 'a wm_scheme \<Rightarrow> 'a wm_scheme option" where
  "updateClientLayer c w = (case c of None \<Rightarrow> Some w | Some c \<Rightarrow> updateLayer c w)"

section \<open>Keeping a window above or below the others\<close>

text \<open>
  The two flags exclude each other: setting one takes the other one back, unless a rule forces
  it.  \<open>True\<close> is the flag of \<open>setKeepAbove\<close>, \<open>False\<close> that of \<open>setKeepBelow\<close>.
\<close>

definition checkKeep :: "focus_world \<Rightarrow> bool \<Rightarrow> win \<Rightarrow> bool \<Rightarrow> bool" where
  "checkKeep w hi c b = (if hi then checkKeepAbove (cl w c) b else checkKeepBelow (cl w c) b)"

definition keepFlag :: "focus_world \<Rightarrow> bool \<Rightarrow> win \<Rightarrow> bool" where
  "keepFlag w hi c = (if hi then m_keepAbove (cl w c) else m_keepBelow (cl w c))"

definition hintState :: "bool \<Rightarrow> win \<Rightarrow> focus_world \<Rightarrow> focus_world" where
  "hintState hi c w =
     (let b = keepFlag w hi c in
      if hi then do_call (SetKeepAboveState c b) (w\<lparr>net_keepAbove := (net_keepAbove w)(c := b)\<rparr>)
      else do_call (SetKeepBelowState c b) (w\<lparr>net_keepBelow := (net_keepBelow w)(c := b)\<rparr>))"

definition keepFlagChanged :: "bool \<Rightarrow> win \<Rightarrow> bool \<Rightarrow> focus_world \<Rightarrow> focus_world option" where
  "keepFlagChanged hi c b w =
     do {
       let w = upd_cl c (\<lambda>r. if hi then r\<lparr>m_keepAbove := b\<rparr> else r\<lparr>m_keepBelow := b\<rparr>) w;
       w \<leftarrow> updateLayer c (hintState hi c w);
       Some (do_call (UpdateWindowRules c (if hi then ''Above'' else ''Below'')) w)
     }"

text \<open>
  \<open>doSetKeepAbove\<close> and \<open>doSetKeepBelow\<close> have the tab group copy both flags to the other tabs
  (\<open>updateStates\<close> with \<open>Layer\<close>), or, while its updates are blocked, remember that they are due.
\<close>

definition layerTabs :: "focus_world \<Rightarrow> win \<Rightarrow> win list" where
  "layerTabs w c =
     (case tab_group (cl w c) of
        None \<Rightarrow> [] | Some t \<Rightarrow> if tab_updates_blocked w t then [] else filter (\<lambda>d. d \<noteq> c) (tab_clients w t))"

definition layerDue :: "win \<Rightarrow> focus_world \<Rightarrow> focus_world" where
  "layerDue c w =
     (case tab_group (cl w c) of
        None \<Rightarrow> w | Some t \<Rightarrow> if tab_updates_blocked w t then fcall (UpdateTabStates c ''Layer'') w else w)"

partial_function (option) setKeep :: "bool \<Rightarrow> win \<Rightarrow> bool \<Rightarrow> focus_world \<Rightarrow> focus_world option" where
  "setKeep hi c b w =
     (let b = checkKeep w hi c b in
      do {
        w \<leftarrow> (if b \<and> \<not> checkKeep w (\<not> hi) c False then setKeep (\<not> hi) c False w else Some w);
        if b = keepFlag w hi c
        then Some (if (if hi then net_keepAbove w c else net_keepBelow w c) \<noteq> b then hintState hi c w else w)
        else do {
          w \<leftarrow> keepFlagChanged hi c b w;
          w \<leftarrow> foldM (\<lambda>d w. do {
              w \<leftarrow> (if keepFlag w True d \<noteq> keepFlag w True c then setKeep True d (keepFlag w True c) w else Some w);
              if keepFlag w False d \<noteq> keepFlag w False c then setKeep False d (keepFlag w False c) w else Some w
            }) (layerTabs w c) (layerDue c w);
          Some (do_call (if hi then KeepAboveChanged c (keepFlag w hi c) else KeepBelowChanged c (keepFlag w hi c)) w)
        }
      })"

declare setKeep.simps [code]

definition setKeepAbove :: "win \<Rightarrow> bool \<Rightarrow> focus_world \<Rightarrow> focus_world option" where
  "setKeepAbove = setKeep True"

definition setKeepBelow :: "win \<Rightarrow> bool \<Rightarrow> focus_world \<Rightarrow> focus_world option" where
  "setKeepBelow = setKeep False"

section \<open>The desktop of a window\<close>

definition ruledDesktop :: "focus_world \<Rightarrow> win \<Rightarrow> int \<Rightarrow> int" where
  "ruledDesktop w c desktop =
     min (desktop_count w)
       (checkDesktop (prefs w c)
          (if desktop \<noteq> OnAllDesktops then max 1 (min (desktop_count w) desktop) else desktop))"

definition desktopSet :: "win \<Rightarrow> int \<Rightarrow> bool \<Rightarrow> focus_world \<Rightarrow> focus_world" where
  "desktopSet c was_desk wasOnCurrentDesktop w =
     (let w = fcall (UpdateVisibility c) w;
          w = (if tab_group (cl w c) \<noteq> None then fcall (UpdateTabStates c ''Desktop'') w else w);
          w = w\<lparr>focus := update w c MakeFirst (focus w)\<rparr>
      in fcall (DesktopChanged c was_desk (wasOnCurrentDesktop \<noteq> isOnCurrentDesktop w c))
           (fcall (UpdateRules c ''Desktop'') w))"

text \<open>\<open>setOnAllDesktops\<close> is the argument of \<open>setDesktop\<close> in the loop of
  \<open>updateOnAllDesktopsOfTransients\<close>.\<close>

partial_function (option) setDesktop :: "win \<Rightarrow> int \<Rightarrow> focus_world \<Rightarrow> focus_world option" where
  "setDesktop c desktop w =
     (let d = ruledDesktop w c desktop; was = m_desktop (cl w c); wasOnCurrent = isOnCurrentDesktop w c in
      if was = d then Some w
      else do {
        let w = fcall (SetNetDesktop c d) (upd_cl c (\<lambda>r. r\<lparr>m_desktop := d\<rparr>) w);
        w \<leftarrow> (if (was = OnAllDesktops) \<noteq> (d = OnAllDesktops)
              then foldM (\<lambda>t w. if isOnAllDesktops w t = isOnAllDesktops w c then Some w
                    else setDesktop t (if isOnAllDesktops w c then OnAllDesktops else sint (current_desktop w)) w)
                  (m_transients (cl w c)) w
              else Some w);
        w \<leftarrow> foldM (\<lambda>t w. setDesktop t d w) (ensureStackingOrder w (m_transients (cl w c))) w;
        w \<leftarrow> (if m_modal (cl w c) then foldM (\<lambda>m w. setDesktop m d w) (mainClients w c) w else Some w);
        Some (desktopSet c was wasOnCurrent w)
      })"

declare setDesktop.simps [code]

definition setOnAllDesktops :: "win \<Rightarrow> bool \<Rightarrow> focus_world \<Rightarrow> focus_world option" where
  "setOnAllDesktops c b w =
     (if b = isOnAllDesktops w c then Some w
      else setDesktop c (if b then OnAllDesktops else sint (current_desktop w)) w)"

section \<open>Minimizing\<close>

definition isMinimizable :: "focus_world \<Rightarrow> win \<Rightarrow> bool" where
  "isMinimizable w c =
     (if isSpecialWindow w c \<and> \<not> isTransient w c then False
      else if \<not> checkMinimize (prefs w c) True then False
      else if isTransient w c \<and> \<not> (\<exists>m\<in>set (mainClients w c). isShown w m True) then True
      else wantsTabFocus w c)"

datatype minimize_call = Minimize win | Unminimize win | UpdateTransients win

definition setMinimizedState :: "win \<Rightarrow> bool \<Rightarrow> focus_world \<Rightarrow> focus_world" where
  "setMinimizedState c b w =
     (let w = (if isShade w c then fcall (NetShaded c (\<not> b)) w else w)
      in fcall (UpdateAllowedActions c) (fcall (UpdateVisibility c) (upd_cl c (\<lambda>r. r\<lparr>m_minimized := b\<rparr>) w)))"

definition minimizedSet :: "win \<Rightarrow> bool \<Rightarrow> focus_world \<Rightarrow> focus_world" where
  "minimizedSet c b w =
     (let w = (if tab_group (cl w c) \<noteq> None then fcall (UpdateTabStates c ''Minimized'') w else w);
          w = fcall (UpdateRules c ''Minimize'') w;
          w = (if b then w\<lparr>focus := update w c MakeFirstMinimized (focus w)\<rparr> else w)
      in fcall (Minimized c b) w)"

text \<open>\<open>minimize\<close>, \<open>unminimize\<close> and \<open>Workspace::updateMinimizedOfTransients\<close>, which call each other.\<close>

partial_function (option) minimizing :: "minimize_call \<Rightarrow> focus_world \<Rightarrow> focus_world option" where
  "minimizing op w =
     (case op of
        Minimize c \<Rightarrow>
          if \<not> isMinimizable w c \<or> isMinimized w c then Some w
          else do {
            w \<leftarrow> minimizing (UpdateTransients c) (setMinimizedState c True w);
            Some (minimizedSet c True w)
          }
      | Unminimize c \<Rightarrow>
          if \<not> isMinimized w c \<or> checkMinimize (prefs w c) False then Some w
          else do {
            w \<leftarrow> minimizing (UpdateTransients c) (setMinimizedState c False w);
            Some (minimizedSet c False w)
          }
      | UpdateTransients c \<Rightarrow>
          if isMinimized w c then do {
            w \<leftarrow> foldM (\<lambda>t w. if m_modal (cl w t) \<or> isMinimized w t then Some w
                  else do { w \<leftarrow> minimizing (Minimize t) w; minimizing (UpdateTransients t) w })
                (m_transients (cl w c)) w;
            if m_modal (cl w c) then foldM (\<lambda>m w. minimizing (Minimize m) w) (mainClients w c) w else Some w
          }
          else do {
            w \<leftarrow> foldM (\<lambda>t w. if \<not> isMinimized w t then Some w
                  else do { w \<leftarrow> minimizing (Unminimize t) w; minimizing (UpdateTransients t) w })
                (m_transients (cl w c)) w;
            if m_modal (cl w c) then foldM (\<lambda>m w. minimizing (Unminimize m) w) (mainClients w c) w else Some w
          })"

declare minimizing.simps [code]

definition minimize :: "win \<Rightarrow> focus_world \<Rightarrow> focus_world option" where
  "minimize c = minimizing (Minimize c)"

definition unminimize :: "win \<Rightarrow> focus_world \<Rightarrow> focus_world option" where
  "unminimize c = minimizing (Unminimize c)"

definition updateMinimizedOfTransients :: "win \<Rightarrow> focus_world \<Rightarrow> focus_world option" where
  "updateMinimizedOfTransients c = minimizing (UpdateTransients c)"

section \<open>Utility windows\<close>

definition hideClient :: "win \<Rightarrow> bool \<Rightarrow> focus_world \<Rightarrow> focus_world" where
  "hideClient c b w =
     (if is_hidden (cl w c) = b then w
      else fcall (UpdateVisibility c) (upd_cl c (\<lambda>r. r\<lparr>is_hidden := b\<rparr>) w))"

text \<open>The way up from the active window: the window where it ends and its group, if it ends at a
  group transient.\<close>

partial_function (option) tool_walk ::
    "'a world_scheme \<Rightarrow> win option \<Rightarrow> (nat option \<times> win option) option" where
  "tool_walk w client =
     (case client of
        None \<Rightarrow> Some (None, None)
      | Some c \<Rightarrow>
          if \<not> isTransient w c then Some (None, Some c)
          else if groupTransient w c then Some (in_group (cl w c), Some c)
          else tool_walk w (transientForClient w c))"

declare tool_walk.simps [code]

definition tool_shown :: "'a world_scheme \<Rightarrow> nat option \<Rightarrow> win option \<Rightarrow> win \<Rightarrow> bool" where
  "tool_shown w gr client c =
     (if \<not> isTransient w c then
        length (group_members w c) = 1 \<or>
        (case client of None \<Rightarrow> False | Some a \<Rightarrow> in_group (cl w c) = in_group (cl w a))
      else
        gr \<noteq> None \<and> in_group (cl w c) = gr \<or>
        (case client of None \<Rightarrow> False | Some a \<Rightarrow> hasTransient w a c True))"

definition is_tool :: "'a world_scheme \<Rightarrow> win \<Rightarrow> bool" where
  "is_tool w c = (isClient w c \<and> (isUtility w c \<or> windowType w c = NET_Menu \<or> isToolbar w c))"

text \<open>Hidden are only windows with a main window, none of them a special one.\<close>

definition tool_hidden :: "'a world_scheme \<Rightarrow> nat option \<Rightarrow> win option \<Rightarrow> win \<Rightarrow> bool" where
  "tool_hidden w gr client c =
     (\<not> tool_shown w gr client c \<and> mainClients w c \<noteq> [] \<and>
      \<not> (\<exists>m\<in>set (mainClients w c). isSpecialWindow w m))"

definition updateToolWindows :: "bool \<Rightarrow> focus_world \<Rightarrow> focus_world option" where
  "updateToolWindows also_hide w =
     (if \<not> isHideUtilityWindowsForInactive w then
        Some (fold (\<lambda>c. hideClient c False)
          (filter (\<lambda>c. case tab_group (cl w c) of None \<Rightarrow> True | Some t \<Rightarrow> tab_current w t = c) (clients w)) w)
      else do {
        (gr, client) \<leftarrow> tool_walk w (case active_client w of
            None \<Rightarrow> None | Some a \<Rightarrow> if isClient w a then Some a else None);
        let tools = filter (is_tool w) (stacking_order w);
        let to_hide = (if also_hide then filter (tool_hidden w gr client) tools else []);
        let to_show = filter (\<lambda>c. if also_hide then \<not> tool_hidden w gr client c else tool_shown w gr client c) tools;
        let w = fold (\<lambda>c. hideClient c True) to_hide (fold (\<lambda>c. hideClient c False) (rev to_show) w);
        Some (fcall (ToolWindowsTimer (\<not> also_hide)) w)
      })"

end
