(* ===== verification/FocusMachine.thy ===== *)
theory FocusMachine
  imports TransientState Rects
begin

text \<open>
  The way of the focus: asking for it (\<open>activateClient\<close>, \<open>requestFocus\<close>, \<open>takeActivity\<close>), getting it
  (\<open>setActive\<close>, \<open>setActiveClient\<close>), losing it (\<open>activateNextClient\<close>) and the change of the current
  desktop, which moves it (\<^verbatim>\<open>activation.cpp\<close>, \<^verbatim>\<open>workspace.cpp\<close>, \<^verbatim>\<open>abstract_client.cpp\<close>, \<^verbatim>\<open>client.cpp\<close>).

  These operations call each other.  Each is written with the others as the argument \<open>go\<close>, and
  \<open>run\<close> ties the knot; a call that does not come back is \<open>None\<close>.  What a window does to
  show or hide itself on the X server leaves the model as \<open>UpdateVisibility\<close>.
\<close>

section \<open>Parts that call none of the others\<close>

definition closeActivePopup :: "focus_world \<Rightarrow> focus_world" where
  "closeActivePopup w =
     fcall CloseMenu
       ((if active_popup w then fcall ClosePopup (w\<lparr>active_popup := False, active_popup_client := None\<rparr>) else w)
        \<lparr>menu_client := None\<rparr>)"

definition focusChangeEnabled :: "focus_world \<Rightarrow> bool" where
  "focusChangeEnabled w = (block_focus w = 0)"

definition cancelDelayFocus :: "focus_world \<Rightarrow> focus_world" where
  "cancelDelayFocus w = fcall (DelayTimer False) (w\<lparr>delay_timer := False\<rparr>)"

definition requestDelayFocus :: "win \<Rightarrow> focus_world \<Rightarrow> focus_world" where
  "requestDelayFocus c w = fcall (DelayTimer True) (w\<lparr>delayfocus_client := Some c, delay_timer := True\<rparr>)"

definition clientUnderMouse :: "focus_world \<Rightarrow> int \<Rightarrow> win option" where
  "clientUnderMouse w scr =
     find_last (\<lambda>c. isClient w c \<and>
         (isShown w c False \<and> isOnCurrentDesktop w c \<and> isOnCurrentActivity w c \<and> isOnScreen w c scr) \<and>
         contains_point (geom (cl w c)) (cursor_pos w))
       (stacking_order w)"

definition disableGlobalShortcutsForClient :: "bool \<Rightarrow> focus_world \<Rightarrow> focus_world" where
  "disableGlobalShortcutsForClient disable w =
     (if shortcuts_disabled w = disable then w
      else fold (\<lambda>c. do_call (UpdateMouseGrab c)) (clients w)
             (fcall (BlockGlobalShortcuts disable) (w\<lparr>shortcuts_disabled := disable\<rparr>)))"

section \<open>Showing the desktop\<close>

text \<open>One window of the loop of \<open>setShowingDesktop\<close>, from the top; the second component is \<open>topDesk\<close>.\<close>

definition showDesktopOne :: "win \<Rightarrow> focus_world \<times> win option \<Rightarrow> (focus_world \<times> win option) option" where
  "showDesktopOne c s =
     (case s of (w, topDesk) \<Rightarrow>
        if \<not> isClient w c \<or> \<not> isOnCurrentDesktop w c then Some (w, topDesk)
        else if isDock w c then map_option (\<lambda>w. (w, topDesk)) (updateLayer c w)
        else if isDesktop w c \<and> isShown w c True then do {
          w \<leftarrow> updateLayer c w;
          w \<leftarrow> lowerClient c False w;
          w \<leftarrow> foldM updateLayer (group_members w c) w;
          Some (w, case topDesk of None \<Rightarrow> Some c | Some d \<Rightarrow> Some d)
        }
        else Some (w, topDesk))"

definition showDesktop :: "bool \<Rightarrow> focus_world \<Rightarrow> (focus_world \<times> win option) option" where
  "showDesktop showing w =
     do {
       w \<leftarrow> blockStackingUpdates True (fcall (NetShowingDesktop showing) w\<lparr>showing_desktop := showing\<rparr>);
       (w, topDesk) \<leftarrow> foldM showDesktopOne (rev (stacking_order w)) (w, None);
       w \<leftarrow> blockStackingUpdates False w;
       Some (w, topDesk)
     }"

text \<open>\<open>setShowingDesktop(false)\<close> asks for no focus.\<close>

definition leaveShowingDesktop :: "focus_world \<Rightarrow> focus_world option" where
  "leaveShowingDesktop w =
     do {
       let changed = showing_desktop w;
       (w, topDesk) \<leftarrow> showDesktop False w;
       Some (if changed then fcall (ShowingDesktopChanged False) w else w)
     }"

section \<open>Taking the focus\<close>

definition takeFocus :: "win \<Rightarrow> focus_world \<Rightarrow> focus_world option" where
  "takeFocus c w =
     (let w = (if checkAcceptFocus (prefs w c) (info_input (prefs w c)) then fcall (FocusWindow c) w
               else demandAttention c False w);
          w = (if take_focus_protocol (prefs w c) then fcall (SendTakeFocus c) w else w)
      in do {
        w \<leftarrow> setShouldGetFocus c w;
        if \<not> m_keepAbove (cl w c) \<and> \<not> (\<exists>m\<in>set (group_members w c). isDesktop w m)
        then leaveShowingDesktop w else Some w
      })"

text \<open>Switching the tab of a group (\<^verbatim>\<open>tabgroup.cpp\<close>): the new tab is shown and the others hidden.\<close>

definition setClientShown :: "win \<Rightarrow> bool \<Rightarrow> focus_world \<Rightarrow> focus_world option" where
  "setClientShown c shown w =
     (if shown \<noteq> is_hidden (cl w c) then Some w
      else
        let w = upd_cl c (\<lambda>r. r\<lparr>is_hidden := \<not> shown\<rparr>) w;
            w = (if isInactiveTabsSkipTaskbar w then fcall (SetSkipTaskbar c (\<not> shown)) w else w)
        in if shown then do {
             w \<leftarrow> takeFocus c (fcall (MapWindow c) w);
             w \<leftarrow> raiseClient c False w;
             let w = do_call (CancelAutoRaise c) w;
             Some (w\<lparr>focus := update w c MakeFirst (focus w)\<rparr>)
           }
           else
             let w = fcall (UnmapWindow c) w in
             Some (if (case tab_group (cl w c) of None \<Rightarrow> True | Some t \<Rightarrow> tab_current w t = c)
                   then w\<lparr>focus := update w c MakeLast (focus w)\<rparr> else w))"

definition tab_setCurrent :: "nat \<Rightarrow> win \<Rightarrow> bool \<Rightarrow> focus_world \<Rightarrow> focus_world option" where
  "tab_setCurrent t c force w =
     (if c = tab_current w t \<and> \<not> force \<or> c \<notin> set (tab_clients w t) then Some w
      else do {
        let w = fcall (TabAboutToChange (tab_current w t) c) w;
        w \<leftarrow> setClientShown c True (w\<lparr>tab_current := (tab_current w)(t := c)\<rparr>);
        foldM (\<lambda>i w. setClientShown i (i = tab_current w t) w) (tab_clients w t) w
      })"

definition tab_activateNext :: "nat \<Rightarrow> focus_world \<Rightarrow> focus_world option" where
  "tab_activateNext t w =
     (let cs = tab_clients w t; index = q_indexOf (tab_current w t) cs in
      tab_setCurrent t (cs ! nat (if index < int (length cs) - 1 then index + 1 else 0)) False w)"

definition tab_activatePrev :: "nat \<Rightarrow> focus_world \<Rightarrow> focus_world option" where
  "tab_activatePrev t w =
     (let cs = tab_clients w t; index = q_indexOf (tab_current w t) cs in
      tab_setCurrent t (cs ! nat (if index > 0 then index - 1 else int (length cs) - 1)) False w)"

section \<open>The operations that call each other\<close>

text \<open>The flags of \<open>takeActivity\<close>, one bit each; \<open>ActivityFocusForce\<close> is the first two.\<close>

datatype activity = Activity (a_focus: bool) (a_force: bool) (a_raise: bool)

definition ActivityFocus :: activity where
  "ActivityFocus = Activity True False False"

definition ActivityFocusForce :: activity where
  "ActivityFocusForce = Activity True True False"

definition no_focus :: "activity \<Rightarrow> activity" where
  "no_focus f = Activity False (a_force f) (a_raise f)"

datatype focus_call =
    SetActiveClient "win option"
  | SetActive win bool
  | ActivateClient "win option" bool
  | TakeActivity "win option" activity
  | SetCurrentDesktop int

type_synonym go = "focus_call \<times> focus_world \<Rightarrow> focus_world option"

text \<open>\<open>Workspace::setActiveClient\<close>: the part for the window that becomes the active one.\<close>

definition newActiveClient :: "win \<Rightarrow> focus_world \<Rightarrow> focus_world option" where
  "newActiveClient c w =
     (let w = w\<lparr>last_active_client := Some c, focus := update w c MakeFirst (focus w)\<rparr>;
          w = demandAttention c False w
      in if screens_number w > 1
         then foldM (\<lambda>x w.
             if x = c then Some w
             else let (l, w) = read_layer x w
                  in if l = ActiveLayer \<and> t_screen (cl w x) = t_screen (cl w c) then updateLayer x w else Some w)
           (clients w) w
         else Some w)"

definition closeForActive :: "win option \<Rightarrow> focus_world \<Rightarrow> focus_world" where
  "closeForActive c w =
     (let w = (if active_popup w \<and> active_popup_client w \<noteq> c \<and> active_client_recursion w = 0
               then closeActivePopup w else w)
      in if menu_client w \<noteq> None \<and> menu_client w \<noteq> c \<and> active_client_recursion w = 0
         then fcall CloseMenu (w\<lparr>menu_client := None\<rparr>) else w)"

definition announceActive :: "focus_world \<Rightarrow> focus_world" where
  "announceActive w =
     (let a = active_client w;
          w = fcall (ActiveWindow (case a of None \<Rightarrow> 0 | Some c \<Rightarrow> window (cl w c))) w
      in (fcall (ClientActivated a) w)\<lparr>focus := fc_setActiveClient a (focus w)\<rparr>)"

definition setActiveClient_with :: "go \<Rightarrow> win option \<Rightarrow> focus_world \<Rightarrow> focus_world option" where
  "setActiveClient_with go c w =
     (if active_client w = c then Some w
      else do {
        w \<leftarrow> blockStackingUpdates True (closeForActive c w);
        let w = fcall UpdateFocusMousePosition (w\<lparr>active_client_recursion := active_client_recursion w + 1\<rparr>);
        w \<leftarrow> (case active_client w of None \<Rightarrow> Some w | Some a \<Rightarrow> go (SetActive a False, w));
        let w = w\<lparr>active_client := c\<rparr>;
        w \<leftarrow> (case c of None \<Rightarrow> Some w | Some c \<Rightarrow> if m_active (cl w c) then newActiveClient c w else None);
        w \<leftarrow> updateToolWindows False w;
        let w = disableGlobalShortcutsForClient
          (case c of None \<Rightarrow> False | Some c \<Rightarrow> checkDisableGlobalShortcuts (prefs w c) False) w;
        w \<leftarrow> updateStackingOrder False w;
        let w = announceActive w;
        blockStackingUpdates False (w\<lparr>active_client_recursion := active_client_recursion w - 1\<rparr>)
      })"

text \<open>\<open>AbstractClient::setActive\<close>: the layers of the window and of its full screen main windows.\<close>

definition relayerActive :: "win \<Rightarrow> focus_world \<Rightarrow> focus_world option" where
  "relayerActive c w =
     do {
       w \<leftarrow> blockStackingUpdates True w;
       w \<leftarrow> updateLayer c w;
       w \<leftarrow> foldM (\<lambda>m w. if is_fullscreen (cl w m) then updateLayer m w else Some w) (mainClients w c) w;
       let w = (if info_urgency (prefs w c) then demandAttention c True w else w);
       blockStackingUpdates False (do_call (UpdateMouseGrab c) (fcall (ActiveChanged c) w))
     }"

definition setActive_with :: "go \<Rightarrow> win \<Rightarrow> bool \<Rightarrow> focus_world \<Rightarrow> focus_world option" where
  "setActive_with go c act w =
     (if m_active (cl w c) = act then Some w
      else do {
        let w = fcall (SetOpacity c act) (upd_cl c (\<lambda>r. r\<lparr>m_active := act\<rparr>) w);
        w \<leftarrow> go (SetActiveClient (if act then Some c else None), w);
        let w = (if \<not> m_active (cl w c) then do_call (CancelAutoRaise c) w else w);
        let w = (if \<not> m_active (cl w c) \<and> m_shade_mode (cl w c) = ShadeActivated
                 then fcall (SetShade c ShadeNormal) w else w);
        relayerActive c w
      })"

definition withFocusBlocked :: "(focus_world \<Rightarrow> focus_world option) \<Rightarrow> focus_world \<Rightarrow> focus_world option" where
  "withFocusBlocked f w =
     do {
       w \<leftarrow> f (w\<lparr>block_focus := block_focus w + 1\<rparr>);
       Some (w\<lparr>block_focus := block_focus w - 1\<rparr>)
     }"

definition activateClient_with :: "go \<Rightarrow> win option \<Rightarrow> bool \<Rightarrow> focus_world \<Rightarrow> focus_world option" where
  "activateClient_with go c force w =
     (case c of
        None \<Rightarrow> go (SetActiveClient None, fcall FocusToNull w)
      | Some c \<Rightarrow> do {
          w \<leftarrow> raiseClient c False w;
          w \<leftarrow> (if isOnCurrentDesktop w c then Some w
                else withFocusBlocked (\<lambda>w. go (SetCurrentDesktop (m_desktop (cl w c)), w)) w);
          w \<leftarrow> (if isOnCurrentActivity w c then Some w
                else withFocusBlocked (\<lambda>w. Some (fcall (SetCurrentActivity c) w)) w);
          w \<leftarrow> (if isMinimized w c then unminimize c w else Some w);
          let w = hideClient c False w;
          w \<leftarrow> (if focusPolicyIsReasonable w \<or> force
                then go (TakeActivity (Some c) (if force then ActivityFocusForce else ActivityFocus), w)
                else Some w);
          if isClient w c then updateUserTime c 0 w else Some w
        })"

text \<open>The part of \<open>takeActivity\<close> for a window with a modal dialog: the dialog takes the activity.\<close>

definition modalActivity :: "go \<Rightarrow> win \<Rightarrow> activity \<Rightarrow> focus_world \<Rightarrow> (win \<times> focus_world) option" where
  "modalActivity go c flags w =
     do {
       m \<leftarrow> findModal (Suc (length (known_windows w))) w c False;
       case m of
         None \<Rightarrow> Some (c, w)
       | Some modal \<Rightarrow>
           if modal = c then Some (c, w)
           else do {
             w \<leftarrow> (if isOnDesktop w modal (m_desktop (cl w c)) then Some w
                   else setDesktop modal (m_desktop (cl w c)) w);
             w \<leftarrow> (if \<not> isShown w modal True \<and> \<not> isMinimized w modal
                   then go (ActivateClient (Some modal) False, w) else Some w);
             w \<leftarrow> (if a_raise flags then raiseClient c False w else Some w);
             Some (modal, w)
           }
     }"

definition finishActivity :: "win \<Rightarrow> activity \<Rightarrow> focus_world \<Rightarrow> focus_world option" where
  "finishActivity c flags w =
     do {
       w \<leftarrow> (case tab_group (cl w c) of
           None \<Rightarrow> Some w
         | Some t \<Rightarrow> if tab_current w t = c then Some w else tab_setCurrent t c False w);
       if \<not> isShown w c True then Some w
       else do {
         w \<leftarrow> (if a_focus flags then takeFocus c w else Some w);
         w \<leftarrow> (if a_raise flags then raiseClient c False w else Some w);
         Some (if isOnScreen w c (current_screen w) then w else fcall (ActiveScreen (t_screen (cl w c))) w)
       }
     }"

definition takeActivity_with :: "go \<Rightarrow> win option \<Rightarrow> activity \<Rightarrow> focus_world \<Rightarrow> focus_world option" where
  "takeActivity_with go c flags w =
     (let flags = (if \<not> focusChangeEnabled w \<and> c \<noteq> active_client w then no_focus flags else flags) in
      case c of
        None \<Rightarrow> Some (fcall FocusToNull w)
      | Some c \<Rightarrow> do {
          (c, w) \<leftarrow> (if a_focus flags
              then map_option (\<lambda>(c, w). (c, cancelDelayFocus w)) (modalActivity go c flags w) else Some (c, w));
          let flags = (if \<not> (a_focus flags \<and> a_force flags) \<and> (isDock w c \<or> isSplash w c)
                       then no_focus flags else flags);
          (flags, w) \<leftarrow> (if isShade w c then do {
                w \<leftarrow> (if wants_input (cl w c) \<and> a_focus flags
                      then map_option (fcall FocusToNull) (go (SetActive c True, w)) else Some w);
                Some (no_focus flags, w)
              }
              else Some (flags, w));
          finishActivity c flags w
        })"

text \<open>The change of the current desktop: the slots of the focus chain and of the workspace.\<close>

definition next_on_desktop :: "focus_world \<Rightarrow> uint \<Rightarrow> win option" where
  "next_on_desktop w desktop =
     (let pointed = (if isNextFocusPrefersMouse w
          then find_last (\<lambda>c. isClient w c \<and>
                 (isShown w c False \<and> isOnDesktop w c (sint desktop) \<and> isOnCurrentActivity w c \<and>
                  isOnScreen w c (current_screen w)) \<and>
                 contains_point (geom (cl w c)) (cursor_pos w)) (stacking_order w)
          else None)
      in case pointed of
           Some c \<Rightarrow> if isDesktop w c then getForActivationHere w (focus w) desktop else Some c
         | None \<Rightarrow> getForActivationHere w (focus w) desktop)"

definition findClientToActivateOnDesktop :: "focus_world \<Rightarrow> uint \<Rightarrow> win option" where
  "findClientToActivateOnDesktop w desktop =
     (case active_client w of
        Some a \<Rightarrow>
          if moving_client w = Some a \<and> fc_containsOn (focus w) a desktop \<and>
             isShown w a True \<and> isOnCurrentDesktop w a
          then Some a else next_on_desktop w desktop
      | None \<Rightarrow> next_on_desktop w desktop)"

definition activateClientOnNewDesktop_with :: "go \<Rightarrow> uint \<Rightarrow> focus_world \<Rightarrow> focus_world option" where
  "activateClientOnNewDesktop_with go desktop w =
     (let c = (if focusPolicyIsReasonable w then findClientToActivateOnDesktop w desktop
               else case active_client w of
                 Some a \<Rightarrow> if isShown w a True \<and> isOnCurrentDesktop w a then Some a else None
               | None \<Rightarrow> None);
          c = (if c = None \<and> desktops w \<noteq> [] then findDesktop w True (sint desktop) else c)
      in do {
        w \<leftarrow> (if c \<noteq> active_client w then go (SetActiveClient None, w) else Some w);
        if c \<noteq> None then go (TakeActivity c ActivityFocus, w)
        else if desktops w \<noteq> [] then go (TakeActivity (findDesktop w True (sint desktop)) ActivityFocus, w)
        else Some (fcall FocusToNull w)
      })"

definition updateClientVisibilityOnDesktopChange :: "uint \<Rightarrow> uint \<Rightarrow> focus_world \<Rightarrow> focus_world option" where
  "updateClientVisibilityOnDesktopChange old new w =
     do {
       let leaving = (\<lambda>c. isClient w c \<and> \<not> isOnDesktop w c (sint new) \<and> Some c \<noteq> moving_client w \<and>
         isOnCurrentActivity w c);
       let w = fold (\<lambda>c. fcall (UpdateVisibility c)) (filter leaving (stacking_order w)) w;
       let w = fcall (NetCurrentDesktop (current_desktop w)) w;
       w \<leftarrow> (case moving_client w of
           None \<Rightarrow> Some w
         | Some m \<Rightarrow> if isOnDesktop w m (sint new) then Some w else setDesktop m (sint new) w);
       let coming = (\<lambda>c. isClient w c \<and> isOnDesktop w c (sint new) \<and> isOnCurrentActivity w c);
       let w = fold (\<lambda>c. fcall (UpdateVisibility c)) (filter coming (rev (stacking_order w))) w;
       if showing_desktop w then leaveShowingDesktop w else Some w
     }"

definition slotCurrentDesktopChanged_with :: "go \<Rightarrow> uint \<Rightarrow> uint \<Rightarrow> focus_world \<Rightarrow> focus_world option" where
  "slotCurrentDesktopChanged_with go old new w =
     do {
       w \<leftarrow> withFocusBlocked (\<lambda>w. do {
           w \<leftarrow> blockStackingUpdates True w;
           updateClientVisibilityOnDesktopChange old new w
         }) (closeActivePopup w);
       w \<leftarrow> activateClientOnNewDesktop_with go new w;
       blockStackingUpdates False (fcall (CurrentDesktopChanged old) w)
     }"

definition setCurrentDesktop_with :: "go \<Rightarrow> int \<Rightarrow> focus_world \<Rightarrow> focus_world option" where
  "setCurrentDesktop_with go d w =
     (let old = current_desktop w in
      if d < 1 \<or> d > desktop_count w \<or> d = sint old then Some w
      else
        let new = word_of_int d;
            w = w\<lparr>current_desktop := new, focus := setCurrentDesktop old new (focus w)\<rparr>
        in slotCurrentDesktopChanged_with go old new w)"

definition focus_step :: "go \<Rightarrow> go" where
  "focus_step go cw =
     (case cw of (c, w) \<Rightarrow> (case c of
        SetActiveClient c \<Rightarrow> setActiveClient_with go c w
      | SetActive c act \<Rightarrow> setActive_with go c act w
      | ActivateClient c force \<Rightarrow> activateClient_with go c force w
      | TakeActivity c flags \<Rightarrow> takeActivity_with go c flags w
      | SetCurrentDesktop d \<Rightarrow> setCurrentDesktop_with go d w))"

text \<open>The operations only use what \<open>go\<close> returns: the knot can be tied.\<close>

lemma case_option_mono:
  assumes "mono_option (\<lambda>f. A f)" "\<And>x. mono_option (\<lambda>f. B x f)"
  shows "mono_option (\<lambda>f. case y of None \<Rightarrow> A f | Some x \<Rightarrow> B x f)"
  using assms by (cases y) simp_all

lemma case_prod_mono:
  assumes "\<And>x z. mono_option (\<lambda>f. B x z f)"
  shows "mono_option (\<lambda>f. case y of (x, z) \<Rightarrow> B x z f)"
  using assms by (cases y) simp

lemma map_option_mono':
  assumes "mono_option (\<lambda>f. B f)"
  shows "mono_option (\<lambda>f. map_option g (B f))"
proof -
  have "mono_option (\<lambda>f. Option.bind (B f) (\<lambda>y. Some (g y)))"
    by (rule bind_mono [OF assms option.const_mono])
  then show ?thesis by (simp add: map_conv_bind_option comp_def)
qed

lemmas go_mono = if_mono bind_mono option.const_mono call_mono case_option_mono case_prod_mono map_option_mono' let_mono

lemma setActiveClient_mono: "mono_option (\<lambda>go. setActiveClient_with go c w)"
  unfolding setActiveClient_with_def by (intro go_mono)

lemma setActive_mono: "mono_option (\<lambda>go. setActive_with go c act w)"
  unfolding setActive_with_def by (intro go_mono)

lemma activateClient_mono: "mono_option (\<lambda>go. activateClient_with go c force w)"
  unfolding activateClient_with_def withFocusBlocked_def by (intro go_mono)

lemma takeActivity_mono: "mono_option (\<lambda>go. takeActivity_with go c flags w)"
  unfolding takeActivity_with_def modalActivity_def by (intro go_mono)

lemma setCurrentDesktop_mono: "mono_option (\<lambda>go. setCurrentDesktop_with go d w)"
  unfolding setCurrentDesktop_with_def slotCurrentDesktopChanged_with_def withFocusBlocked_def
    activateClientOnNewDesktop_with_def by (intro go_mono)

lemma focus_step_mono [partial_function_mono]: "mono_option (\<lambda>go. focus_step go cw)"
proof (cases cw)
  case (Pair c w)
  then show ?thesis
    by (cases c) (simp_all add: focus_step_def setActiveClient_mono setActive_mono activateClient_mono
        takeActivity_mono setCurrentDesktop_mono)
qed

partial_function (option) run :: go where
  "run cw = focus_step run cw"

declare run.simps [code]

definition setActiveClient :: "win option \<Rightarrow> focus_world \<Rightarrow> focus_world option" where
  "setActiveClient c w = run (SetActiveClient c, w)"

definition setActive :: "win \<Rightarrow> bool \<Rightarrow> focus_world \<Rightarrow> focus_world option" where
  "setActive c act w = run (SetActive c act, w)"

definition activateClient :: "win option \<Rightarrow> bool \<Rightarrow> focus_world \<Rightarrow> focus_world option" where
  "activateClient c force w = run (ActivateClient c force, w)"

definition takeActivity :: "win option \<Rightarrow> activity \<Rightarrow> focus_world \<Rightarrow> focus_world option" where
  "takeActivity c flags w = run (TakeActivity c flags, w)"

definition switchDesktop :: "int \<Rightarrow> focus_world \<Rightarrow> focus_world option" where
  "switchDesktop d w = run (SetCurrentDesktop d, w)"

definition requestFocus :: "win option \<Rightarrow> bool \<Rightarrow> focus_world \<Rightarrow> focus_world option" where
  "requestFocus c force w = takeActivity c (if force then ActivityFocusForce else ActivityFocus) w"

section \<open>Passing the focus on\<close>

definition tabToFocus :: "win \<Rightarrow> focus_world \<Rightarrow> (win option \<times> focus_world) option" where
  "tabToFocus c w =
     (case tab_group (cl w c) of
        None \<Rightarrow> Some (None, w)
      | Some t \<Rightarrow>
          if \<not> isShown w c False then Some (None, w)
          else do {
            w \<leftarrow> (if c = tab_current w t then tab_activateNext t w else Some w);
            Some (if tab_current w t = c then None else Some (tab_current w t), w)
          })"

definition underMouse :: "win option \<Rightarrow> focus_world \<Rightarrow> win option" where
  "underMouse c w =
     (case clientUnderMouse w (case c of None \<Rightarrow> current_screen w | Some c \<Rightarrow> t_screen (cl w c)) of
        None \<Rightarrow> None
      | Some f \<Rightarrow> if Some f = c \<or> isDesktop w f then None else Some f)"

definition leaderToFocus :: "win option \<Rightarrow> focus_world \<Rightarrow> win option" where
  "leaderToFocus c w =
     (case c of
        None \<Rightarrow> None
      | Some a \<Rightarrow>
          if \<not> isTransient w a then None
          else case mainClients w a of
            [l] \<Rightarrow> if isUsableFocusCandidate w (focus w) l c then Some l else None
          | _ \<Rightarrow> None)"

text \<open>The window that gets the focus after \<open>c\<close>, when it is not another tab.\<close>

definition nextToFocus :: "win option \<Rightarrow> focus_world \<Rightarrow> (win option \<times> focus_world) option" where
  "nextToFocus c w =
     (let desktop = current_desktop w;
          last_chance = (\<lambda>f. case f of None \<Rightarrow> findDesktop w True (sint desktop) | Some f \<Rightarrow> Some f);
          shown = (if showing_desktop w then findDesktop w True (sint desktop) else None);
          pointed = (if shown = None \<and> isNextFocusPrefersMouse w then underMouse c w else None)
      in if shown \<noteq> None then Some (shown, w)
         else if pointed \<noteq> None then Some (pointed, w)
         else case leaderToFocus c w of
           Some l \<Rightarrow> map_option (\<lambda>w. (Some l, w)) (raiseClient l False w)
         | None \<Rightarrow> Some (last_chance (nextForDesktop w (focus w) c desktop), w))"

definition activateNextClient :: "win option \<Rightarrow> focus_world \<Rightarrow> (bool \<times> focus_world) option" where
  "activateNextClient c w =
     (if \<not> (c = active_client w \<or> should_get_focus w \<noteq> [] \<and> c = Some (last (should_get_focus w)))
      then Some (False, w)
      else do {
        let w = closeActivePopup w;
        w \<leftarrow> (case c of
            None \<Rightarrow> Some w
          | Some a \<Rightarrow> do {
              w \<leftarrow> (if c = active_client w then setActiveClient None w else Some w);
              Some (w\<lparr>should_get_focus := removeAll a (should_get_focus w)\<rparr>)
            });
        if \<not> focusChangeEnabled w then Some (True, fcall FocusToNull w)
        else if \<not> focusPolicyIsReasonable w then Some (False, w)
        else do {
          (tab, w) \<leftarrow> (case c of None \<Rightarrow> Some (None, w) | Some a \<Rightarrow> tabToFocus a w);
          (get_focus, w) \<leftarrow> (if tab \<noteq> None then Some (tab, w) else nextToFocus c w);
          w \<leftarrow> (if get_focus \<noteq> None then requestFocus get_focus False w else Some (fcall FocusToNull w));
          Some (True, w)
        }
      })"

definition clientHidden :: "win \<Rightarrow> focus_world \<Rightarrow> (bool \<times> focus_world) option" where
  "clientHidden c w =
     (if isShown w c True \<and> isOnCurrentDesktop w c \<and> isOnCurrentActivity w c then None
      else activateNextClient (Some c) w)"

definition setCurrentScreen :: "int \<Rightarrow> focus_world \<Rightarrow> focus_world option" where
  "setCurrentScreen new_screen w =
     (if new_screen < 0 \<or> new_screen \<ge> screens_number w then Some w
      else if \<not> focusPolicyIsReasonable w then Some w
      else
        let w = closeActivePopup w; desktop = current_desktop w;
            get_focus = (case getForActivation w (focus w) desktop new_screen of
              None \<Rightarrow> findDesktop w True (sint desktop) | Some f \<Rightarrow> Some f)
        in map_option (fcall (ActiveScreen new_screen))
             (if get_focus \<noteq> None \<and> get_focus \<noteq> mostRecentlyActivatedClient w
              then requestFocus get_focus False w else Some w))"

definition restoreFocus :: "focus_world \<Rightarrow> focus_world option" where
  "restoreFocus w =
     (if should_get_focus w \<noteq> [] then requestFocus (Some (last (should_get_focus w))) False w
      else if last_active_client w \<noteq> None then requestFocus (last_active_client w) False w
      else Some w)"

definition delayFocus :: "focus_world \<Rightarrow> focus_world option" where
  "delayFocus w = map_option cancelDelayFocus (requestFocus (delayfocus_client w) False w)"

definition setShowingDesktop :: "bool \<Rightarrow> focus_world \<Rightarrow> focus_world option" where
  "setShowingDesktop showing w =
     do {
       let changed = (showing \<noteq> showing_desktop w);
       (w, topDesk) \<leftarrow> showDesktop showing w;
       w \<leftarrow> (if showing_desktop w \<and> topDesk \<noteq> None then requestFocus topDesk False w else Some w);
       Some (if changed then fcall (ShowingDesktopChanged showing) w else w)
     }"

section \<open>Events and requests\<close>

text \<open>FocusIn: \<open>ours\<close> says that the event is of the window itself, from no grab and not from the pointer.\<close>

definition focusInEvent :: "win \<Rightarrow> bool \<Rightarrow> focus_world \<Rightarrow> focus_world option" where
  "focusInEvent c ours w =
     (if \<not> ours \<or> \<not> isShown w c False \<or> \<not> isOnCurrentDesktop w c then Some w
      else do {
        let w = w\<lparr>focus_out_timer := \<lambda>x. if x \<in> set (clients w) \<or> x \<in> set (desktops w) then False else focus_out_timer w x\<rparr>;
        activate \<leftarrow> allowClientActivation w c (- 1) True False;
        let w = gotFocusIn c w;
        if activate then setActive c True w
        else map_option (demandAttention c True) (restoreFocus w)
      })"

definition focusOutEvent :: "win \<Rightarrow> bool \<Rightarrow> bool \<Rightarrow> focus_world \<Rightarrow> focus_world" where
  "focusOutEvent c ours popup w =
     (if \<not> ours \<or> isShade w c \<or> popup then w else w\<lparr>focus_out_timer := (focus_out_timer w)(c := True)\<rparr>)"

definition focusOutTimeout :: "win \<Rightarrow> focus_world \<Rightarrow> focus_world option" where
  "focusOutTimeout c w = setActive c False (w\<lparr>focus_out_timer := (focus_out_timer w)(c := False)\<rparr>)"

definition activateOrDemand :: "bool \<Rightarrow> win \<Rightarrow> focus_world \<Rightarrow> focus_world option" where
  "activateOrDemand allow c w =
     (if allow then activateClient (Some c) False w else Some (demandAttention c True w))"

text \<open>A request to map a window that is managed already.\<close>

definition mapRequestEvent :: "win \<Rightarrow> focus_world \<Rightarrow> focus_world option" where
  "mapRequestEvent c w =
     do {
       w \<leftarrow> (if isMinimized w c then unminimize c w else Some w);
       let w = (if isShade w c then fcall (SetShade c ShadeNone) w else w);
       if isOnCurrentDesktop w c then Some w
       else do {
         allow \<leftarrow> allowClientActivation w c (- 1) False False;
         activateOrDemand allow c w
       }
     }"

text \<open>
  The message \<^verbatim>\<open>_NET_ACTIVE_WINDOW\<close> (\<^verbatim>\<open>netinfo.cpp\<close>): a pager or a task bar is obeyed.  For an
  application the window's own time is asked first, then the requestor's window, with the result
  of \<open>timestampCompare\<close> as its time.
\<close>

definition requestorAllowed :: "xid \<Rightarrow> uint \<Rightarrow> focus_world \<Rightarrow> bool option" where
  "requestorAllowed active_window timestamp w =
     (if active_window = WINDOW_NONE then Some False
      else case findClientByWindow w active_window of
        None \<Rightarrow> Some False
      | Some c2 \<Rightarrow> do {
          t2 \<leftarrow> userTime w c2;
          allowClientActivation w c2
            (word_of_int (timestampCompare w timestamp (if t2 > 0 then timestamp else t2))) False True
        })"

definition changeActiveWindow ::
    "xid \<Rightarrow> RequestSource \<Rightarrow> uint \<Rightarrow> xid \<Rightarrow> focus_world \<Rightarrow> focus_world option" where
  "changeActiveWindow x src timestamp active_window w =
     (case findClientByWindow w x of
        None \<Rightarrow> Some w
      | Some c \<Rightarrow> do {
          timestamp \<leftarrow> (if timestamp = 0 then userTime w c else Some timestamp);
          if src \<noteq> FromApplication then activateClient (Some c) True w
          else if mostRecentlyActivatedClient w = Some c then Some w
          else do {
            own \<leftarrow> allowClientActivation w c timestamp False True;
            allow \<leftarrow> (if own then Some True else requestorAllowed active_window timestamp w);
            activateOrDemand allow c w
          }
        })"

definition slotActivateAttentionWindow :: "focus_world \<Rightarrow> focus_world option" where
  "slotActivateAttentionWindow w =
     (case attention_chain w of [] \<Rightarrow> Some w | c # _ \<Rightarrow> activateClient (Some c) False w)"

section \<open>Sending windows to other desktops\<close>

definition placeOnDesktop :: "win \<Rightarrow> bool \<Rightarrow> bool \<Rightarrow> focus_world \<Rightarrow> focus_world option" where
  "placeOnDesktop c was_on_desktop dont_activate w =
     (if isOnCurrentDesktop w c then
        if wantsTabFocus w c \<and> focusPolicyIsReasonable w \<and> \<not> was_on_desktop \<and> \<not> dont_activate
        then requestFocus (Some c) False w
        else restackClientUnderActive c w
      else raiseClient c False w)"

partial_function (option) sendClientToDesktop ::
    "win \<Rightarrow> int \<Rightarrow> bool \<Rightarrow> focus_world \<Rightarrow> focus_world option" where
  "sendClientToDesktop c desk dont_activate w =
     (if desk < 1 \<and> desk \<noteq> OnAllDesktops \<or> desk > desktop_count w then Some w
      else do {
        let old_desktop = m_desktop (cl w c);
        let was_on_desktop = (isOnDesktop w c desk \<or> isOnAllDesktops w c);
        w \<leftarrow> setDesktop c desk w;
        if m_desktop (cl w c) \<noteq> desk then Some w
        else do {
          w \<leftarrow> placeOnDesktop c was_on_desktop dont_activate w;
          let w = fcall (CheckWorkspacePosition c old_desktop) w;
          w \<leftarrow> foldM (\<lambda>t w. sendClientToDesktop t desk dont_activate w)
                (if isClient w c then ensureStackingOrder w (m_transients (cl w c)) else []) w;
          Some (fcall UpdateClientArea w)
        }
      })"

declare sendClientToDesktop.simps [code]

definition moveClientsFromRemovedDesktops :: "focus_world \<Rightarrow> focus_world option" where
  "moveClientsFromRemovedDesktops w =
     foldM (\<lambda>c w. if \<not> isOnAllDesktops w c \<and> m_desktop (cl w c) > desktop_count w
         then sendClientToDesktop c (desktop_count w) True w else Some w) (clients w) w"

text \<open>The startup notification of a window: its desktop (0: none), screen (-1: none) and time.\<close>

definition client_startupIdChanged :: "win \<Rightarrow> (int \<times> int \<times> uint) option \<Rightarrow> focus_world \<Rightarrow> focus_world option" where
  "client_startupIdChanged c asn w =
     (case asn of
        None \<Rightarrow> Some w
      | Some (asn_desktop, xinerama, timestamp) \<Rightarrow> do {
          let desktop = (if asn_desktop \<noteq> 0 then asn_desktop else sint (current_desktop w));
          w \<leftarrow> (if isOnAllDesktops w c then Some w else sendClientToDesktop c desktop True w);
          let w = (if xinerama \<noteq> - 1 then fcall (SendClientToScreen c xinerama) w else w);
          if timestamp = 0 then Some w
          else do {
            activate \<leftarrow> allowClientActivation w c timestamp False False;
            activateOrDemand (activate \<and> \<not> (asn_desktop \<noteq> 0 \<and> \<not> isOnCurrentDesktop w c)) c w
          }
        })"

section \<open>Changing the activity\<close>

definition updateCurrentActivity :: "string \<Rightarrow> focus_world \<Rightarrow> focus_world option" where
  "updateCurrentActivity new_activity w =
     (if current_activity w = None then Some w
      else do {
        w \<leftarrow> withFocusBlocked (\<lambda>w. do {
            w \<leftarrow> blockStackingUpdates True w;
            let leaving = (\<lambda>c. isClient w c \<and> \<not> isOnActivity w c new_activity \<and> Some c \<noteq> moving_client w \<and>
              isOnCurrentDesktop w c);
            let w = fold (\<lambda>c. fcall (UpdateVisibility c)) (filter leaving (stacking_order w)) w;
            let coming = (\<lambda>c. isClient w c \<and> isOnActivity w c new_activity);
            let w = fold (\<lambda>c. fcall (UpdateVisibility c)) (filter coming (rev (stacking_order w))) w;
            if showing_desktop w then leaveShowingDesktop w else Some w
          }) w;
        let desktop = current_desktop w;
        let c = (if focusPolicyIsReasonable w then getForActivationHere w (focus w) desktop
          else case active_client w of
            Some a \<Rightarrow> if isShown w a True \<and> isOnCurrentDesktop w a \<and> isOnCurrentActivity w a then Some a else None
          | None \<Rightarrow> None);
        let c = (if c = None \<and> desktops w \<noteq> [] then findDesktop w True (sint desktop) else c);
        w \<leftarrow> (if c \<noteq> active_client w then setActiveClient None w else Some w);
        w \<leftarrow> (if c \<noteq> None then requestFocus c False w
              else if desktops w \<noteq> [] then requestFocus (findDesktop w True (sint desktop)) False w
              else Some (fcall FocusToNull w));
        blockStackingUpdates False w
      })"

end
