(* ===== verification/ActivationFacts.thy ===== *)
theory ActivationFacts
  imports FocusMachine
begin

text \<open>
  Facts about the decisions of \<^verbatim>\<open>Activation\<close>: a higher level of focus stealing prevention refuses
  more; and three requests that are not decided the way the comments of \<^verbatim>\<open>activation.cpp\<close> say.
\<close>

section \<open>The same windows, the same application\<close>

lemma window_state_transientRoot:
  fixes v w :: "'a wm_scheme"
  assumes "window_state v = window_state w"
  shows "transientRoot v c = transientRoot w c"
proof -
  let ?P = "\<lambda>(a :: 'a wm_scheme) c r. \<forall>b :: 'a wm_scheme. window_state b = window_state a \<longrightarrow> transientRoot b c = Some r"
  have rule: "?P a c r"
    if IH: "\<And>a c r. f a c = Some r \<Longrightarrow> ?P a c r"
      and body: "(case transientForClient a c of None \<Rightarrow> Some c | Some t \<Rightarrow> f a t) = Some r"
    for f and a :: "'a wm_scheme" and c r
  proof (intro allI impI)
    fix b :: "'a wm_scheme"
    assume b: "window_state b = window_state a"
    show "transientRoot b c = Some r"
      using body IH b by (subst transientRoot.simps) (auto simp: window_state_queries(5) [OF b] split: option.splits)
  qed
  have step: "transientRoot b c = Some r" if "window_state b = window_state a" "transientRoot a c = Some r"
    for a b :: "'a wm_scheme" and c r
  proof -
    have "?P a c r" by (rule transientRoot.raw_induct [where P = ?P, OF _ that(2)]) (rule rule)
    then show ?thesis using that(1) by blast
  qed
  show ?thesis
  proof (cases "transientRoot w c")
    case None
    then show ?thesis using step [OF assms [symmetric], of c] by (cases "transientRoot v c") simp_all
  next
    case (Some r)
    then show ?thesis using step [OF assms, of c r] by simp
  qed
qed

lemma window_state_same_application:
  fixes v w :: "'a wm_scheme"
  assumes "window_state v = window_state w"
  shows "belongToSameApplication v = belongToSameApplication w"
proof -
  have role: "sameRole v = sameRole w"
    by (intro ext) (simp add: sameRole_def window_state_cl [OF assms])
  have "sameAppWindowRoleMatch v = sameAppWindowRoleMatch w"
    by (intro ext) (simp only: sameAppWindowRoleMatch_def window_state_queries [OF assms] role
        window_state_transientRoot [OF assms] window_state_cl [OF assms])
  note roles = this
  show ?thesis
    by (intro ext) (simp only: roles belongToSameApplication_def resourceMatch_def window_state_queries [OF assms]
        window_state_hasTransient [OF assms] window_state_cl [OF assms])
qed

section \<open>Focus stealing prevention\<close>

text \<open>A session at another level.\<close>

abbreviation at_level :: "int \<Rightarrow> focus_world \<Rightarrow> focus_world" where
  "at_level l w \<equiv> w\<lparr>focusStealingPreventionLevel := l\<rparr>"

lemma at_level_state: "window_state (at_level l w) = window_state w"
  by (simp add: window_state_def)

lemma at_level_queries:
  "mostRecentlyActivatedClient (at_level l w) = mostRecentlyActivatedClient w"
  "isClient (at_level l w) = isClient w" "isDesktop (at_level l w) = isDesktop w"
  "belongToSameApplication (at_level l w) = belongToSameApplication w"
  by (rule window_state_queries [OF at_level_state] window_state_types [OF at_level_state]
      window_state_same_application [OF at_level_state])+

lemma at_level_settings:
  "isOnCurrentDesktop (at_level l w) = isOnCurrentDesktop w" "userTime (at_level l w) = userTime w"
  "protection_of (at_level l w) = protection_of w" "timestampCompare (at_level l w) = timestampCompare w"
  by (simp_all only: fun_eq_iff isOnCurrentDesktop_def isOnDesktop_def isOnAllDesktops_def userTime_def
      protection_of_def at_level_queries) (simp_all cong: if_cong option.case_cong)

lemma decide_antitone:
  assumes "decide_activation w c time l' p a = Some True" "l \<le> l'"
  shows "decide_activation w c time l p a = Some True"
proof -
  obtain same where s: "(if isClient w a then belongToSameApplication w c a True else Some False) = Some same"
    using assms(1) by (auto simp: decide_activation_def bind_eq_Some_conv)
  show ?thesis using assms by (auto simp: decide_activation_def s split: if_splits)
qed

lemma decide_level:
  "decide_activation (at_level l w) c time n p a = decide_activation w c time n p a"
  by (simp only: decide_activation_def at_level_queries at_level_settings)

lemma allowed_level:
  "activation_allowed (at_level l w) c time n ac fi ig = activation_allowed w c time n ac fi ig"
  by (simp only: activation_allowed_def at_level_queries at_level_settings decide_level)
    (simp cong: if_cong option.case_cong)

lemma allowed_antitone:
  assumes "activation_allowed w c time n' ac fi ig = Some True" "0 \<le> n" "n \<le> n'" "n' \<le> 4"
  shows "activation_allowed w c time n ac fi ig = Some True"
proof -
  let ?p = "protection_of w ac"
  consider "n = 0" | "n = n'" | "0 < n" "n < n'" "n' < 4" | "0 < n" "n < n'" "n' = 4" using assms by linarith
  then show ?thesis
  proof cases
    case 3
    then show ?thesis
      using assms(1) decide_antitone [OF _ less_imp_le [OF 3(2)], of w c time ?p]
      by (auto simp: activation_allowed_def Let_def split: if_splits option.splits)
  qed (use assms in \<open>auto simp: activation_allowed_def Let_def split: if_splits\<close>)
qed

text \<open>C12: A higher level of focus stealing prevention never lets a window have the focus that a lower
  level would refuse it: what is allowed at a level (between none and extreme, after the rules) is
  allowed at every lower one, for whatever window, time and origin of the request.\<close>

theorem higher_level_refuses_more:
  assumes "allowClientActivation (at_level l' w) c time focus_in ignore_desktop = Some True"
    and "0 \<le> checkFSP (cl w c) l" "checkFSP (cl w c) l \<le> checkFSP (cl w c) l'" "checkFSP (cl w c) l' \<le> 4"
  shows "allowClientActivation (at_level l w) c time focus_in ignore_desktop = Some True"
proof -
  obtain t where t: "(if time = - 1 then userTime w c else Some time) = Some t"
    using assms(1) unfolding allowClientActivation_def at_level_settings
    by (cases "if time = - 1 then userTime w c else Some time") simp_all
  let ?ac = "if focus_in then last_active_client w else mostRecentlyActivatedClient w"
  have level: "allowClientActivation (at_level n w) c time focus_in ignore_desktop =
      activation_allowed w c t (checkFSP (cl w c) n) ?ac focus_in ignore_desktop" for n
    unfolding allowClientActivation_def at_level_settings at_level_queries allowed_level by (simp add: t)
  show ?thesis using assms allowed_antitone unfolding level by blast
qed

section \<open>A session to evaluate\<close>

text \<open>Three windows of three applications and groups; the first one is active and saw the last user
  action, at time 5000.\<close>

definition plain_prefs :: window_prefs where
  "plain_prefs =
     \<lparr>info_input = True, info_urgency = False, take_focus_protocol = False, checkAcceptFocus = id,
      checkFPP = id, checkDisableGlobalShortcuts = id, checkDesktop = id, checkMinimize = id,
      creation_time = None, net_user_time = - 1\<rparr>"

definition sample_client :: "win \<Rightarrow> client" where
  "sample_client c = plain_client\<lparr>window := 10 + c, frameId := 20 + c, t_pid := int c, in_group := Some c,
     wmClientLeader := 10 + c, m_active := (c = 1), m_userTime := (if c = 1 then 5000 else 1000)\<rparr>"

definition three_windows :: focus_world where
  "three_windows = wm.extend
     (world.extend (empty_session\<lparr>clients := [1, 2, 3], cl := sample_client,
          grp := \<lambda>g. \<lparr>gr_members = [g], leader_wid = 10 + g, leader_client = Some g, refcount = 0, group_time = - 1\<rparr>,
          groups := [1, 2, 3], stacking_order := [1, 2, 3], active_client := Some 1\<rparr>)
        \<lparr>focus = initial_focus_chain, support_window = 0, edge_windows = [], session_saving = False,
         focusStealingPreventionLevel = 1, timestampCompare = (\<lambda>a b. uint a - uint b), attention_chain = []\<rparr>
      \<lparr>unconstrained_stacking_order := [1, 2, 3]\<rparr>)
     \<lparr>prefs = \<lambda>_. plain_prefs, shade_below = \<lambda>_. None, server_time = 9000, last_active_client = Some 1,
      delayfocus_client = None, delay_timer = False, block_focus = 0, active_client_recursion = 0,
      active_popup = False, active_popup_client = None, menu_client = None, moving_client = None,
      focusPolicyIsReasonable = True, isNextFocusPrefersMouse = False, isHideUtilityWindowsForInactive = True,
      cursor_pos = (0, 0), screens_number = 1, desktop_count = 2, shortcuts_disabled = False,
      isInactiveTabsSkipTaskbar = False, focus_out_timer = \<lambda>_. False, net_keepAbove = \<lambda>_. False,
      net_keepBelow = \<lambda>_. False, tab_clients = \<lambda>_. [], tab_updates_blocked = \<lambda>_. False, fcalls = []\<rparr>"

lemma three_windows_eval:
  "(allowClientActivation three_windows 2 6000 False False, allowClientActivation three_windows 2 4000 False False) =
   (Some True, Some False)"
  by code_simp

lemma higher_level_refuses_more_witness:
  "allowClientActivation (at_level 2 three_windows) 2 6000 False False = Some True \<and>
   allowClientActivation (at_level 1 three_windows) 2 6000 False False = Some True"
proof -
  have "allowClientActivation (at_level 2 three_windows) 2 6000 False False = Some True" by code_simp
  moreover have "checkFSP (cl three_windows 2) = id"
    by (simp add: three_windows_def wm.defs world.defs empty_session_def sample_client_def plain_client_def)
  ultimately show ?thesis using higher_level_refuses_more [of 2 three_windows 2 6000 False False 1] by simp
qed

section \<open>Where the decisions are not the ones described\<close>

text \<open>The extreme level is documented to give no window the focus without the user.  When no window
  is active the protection is none, and the test for it comes first: every window that does not
  refuse the focus itself gets it, at the extreme level too and on whatever desktop it is.\<close>

lemma extreme_level_without_active_window:
  assumes "mostRecentlyActivatedClient w = None" "checkFSP (cl w c) (focusStealingPreventionLevel w) = 4"
    and "time \<noteq> 0" "time \<noteq> - 1"
  shows "allowClientActivation w c time False ignore_desktop = Some True"
  using assms by (simp add: allowClientActivation_def activation_allowed_def protection_of_def)

lemma extreme_level_without_active_window_witness:
  "allowClientActivation (three_windows\<lparr>active_client := None, focusStealingPreventionLevel := 4\<rparr>) 2 6000 False False
   = Some True"
proof (rule extreme_level_without_active_window)
  show "mostRecentlyActivatedClient (three_windows\<lparr>active_client := None, focusStealingPreventionLevel := 4\<rparr>) = None"
    by code_simp
qed (simp_all add: three_windows_def wm.defs world.defs empty_session_def sample_client_def plain_client_def)

text \<open>An application that asks to activate a window by \<^verbatim>\<open>_NET_ACTIVE_WINDOW\<close> is meant to be obeyed
  when the window it asks from (the requestor) would be allowed the focus itself.  The time passed
  for that window is the result of a comparison of a time with itself: the window is asked with
  time 0, which means that it wants no focus, and the request is refused however entitled the
  requestor is.\<close>

lemma requestor_never_entitled:
  assumes "findClientByWindow w x = Some c" "mostRecentlyActivatedClient w \<noteq> Some c" "timestamp \<noteq> 0"
    and "allowClientActivation w c timestamp False True = Some False"
    and "r \<noteq> WINDOW_NONE" "findClientByWindow w r = Some c2" "userTime w c2 = Some t2" "0 < t2"
    and "timestampCompare w timestamp timestamp = 0"
    and "\<not> checkAcceptFocus (prefs w c2) False" "\<not> session_saving w"
  shows "changeActiveWindow x FromApplication timestamp r w = Some (demandAttention c True w)"
proof -
  have "requestorAllowed r timestamp w = Some False"
    using assms(5-11) by (simp add: requestorAllowed_def allowClientActivation_def activation_allowed_def Let_def)
  then show ?thesis
    using assms(1-4) by (simp add: changeActiveWindow_def activateOrDemand_def)
qed

text \<open>The active window asks, at a time at which it may have the focus, for the window of another
  application.\<close>

lemma requestor_never_entitled_witness:
  "allowClientActivation three_windows 1 4900 False True = Some True \<and>
   changeActiveWindow 12 FromApplication 4900 11 three_windows = Some (demandAttention 2 True three_windows)"
proof -
  have "changeActiveWindow 12 FromApplication 4900 11 three_windows = Some (demandAttention 2 True three_windows)"
  proof (rule requestor_never_entitled)
    show "allowClientActivation three_windows 2 4900 False True = Some False"
      "findClientByWindow three_windows 12 = Some 2" "findClientByWindow three_windows 11 = Some 1"
      "userTime three_windows 1 = Some 5000" "mostRecentlyActivatedClient three_windows \<noteq> Some 2"
      by code_simp+
  qed (simp_all add: three_windows_def wm.defs world.defs plain_prefs_def WINDOW_NONE_def)
  moreover have "allowClientActivation three_windows 1 4900 False True = Some True" by code_simp
  ultimately show ?thesis by blast
qed

text \<open>A window that asks not to be focused (its \<^verbatim>\<open>_NET_WM_USER_TIME\<close> is 0) is not, but managing it
  sets the time of the last user action of its whole group to now, because a group takes 0 for
  the current time; every other window of the group is from then on as recent as an action of
  the user, and the new window itself is when its mapping is over.\<close>

lemma unfocused_window_renews_group:
  assumes "net_user_time (prefs w c) = 0" "in_group (cl w c) = Some g"
    and "server_time w \<noteq> - 1" "timestampCompare w (server_time w) (group_time (grp w g)) > 0"
    and "isClient w d" "d \<noteq> c" "in_group (cl w d) = Some g" "m_userTime (cl w d) \<noteq> 0"
    and "timestampCompare w (server_time w) (m_userTime (cl w d)) > 0"
  shows "\<exists>v. manage_readTime c asn session w = Some v \<and> m_userTime (cl v c) = 0 \<and>
    userTime v d = Some (server_time w)"
proof -
  have "readUserTimeMapTimestamp w c asn session = Some 0"
    using assms(1) by (simp add: readUserTimeMapTimestamp_def announced_time_def Let_def split: option.split)
  moreover have "later_time w (server_time w) (group_time (grp w g)) = server_time w"
    using assms(3,4) by (simp add: later_time_def)
  ultimately have run: "manage_readTime c asn session w =
      Some (group_updateUserTime g 0 (upd_cl c (\<lambda>r. r\<lparr>m_userTime := 0\<rparr>) w))"
    using assms(2) by (simp add: manage_readTime_def)
  show ?thesis
    using assms
    by (simp add: run group_updateUserTime_def now_if_current_def later_time_def userTime_def isClient_def
        upd_cl_def Let_def)
qed

text \<open>Window 2 is an old one of window 3's group.\<close>

lemma unfocused_window_renews_group_witness:
  "\<exists>v. manage_readTime 3 None False
      (upd_cl 2 (\<lambda>r. r\<lparr>in_group := Some 3\<rparr>)
        (three_windows\<lparr>prefs := \<lambda>_. plain_prefs\<lparr>net_user_time := 0\<rparr>,
          grp := \<lambda>_. \<lparr>gr_members = [2, 3], leader_wid = 13, leader_client = Some 3, refcount = 0, group_time = 2000\<rparr>\<rparr>))
      = Some v \<and> m_userTime (cl v 3) = 0 \<and> userTime v 2 = Some 9000"
proof -
  let ?w = "upd_cl 2 (\<lambda>r. r\<lparr>in_group := Some 3\<rparr>)
    (three_windows\<lparr>prefs := \<lambda>_. plain_prefs\<lparr>net_user_time := 0\<rparr>,
      grp := \<lambda>_. \<lparr>gr_members = [2, 3], leader_wid = 13, leader_client = Some 3, refcount = 0, group_time = 2000\<rparr>\<rparr>)"
  have "\<exists>v. manage_readTime 3 None False ?w = Some v \<and> m_userTime (cl v 3) = 0 \<and> userTime v 2 = Some (server_time ?w)"
    by (rule unfocused_window_renews_group)
      (simp_all add: upd_cl_def isClient_def three_windows_def wm.defs world.defs empty_session_def
        sample_client_def plain_client_def plain_prefs_def)
  moreover have "server_time ?w = 9000" by (simp add: upd_cl_def three_windows_def wm.defs)
  ultimately show ?thesis by simp
qed

end
