(* ===== verification/LayerFacts.thy ===== *)
theory LayerFacts
  imports ActivationFacts
begin

text \<open>
  What the operations on the order of the windows leave alone, and that \<open>updateLayer\<close> ends: the cached
  layers of a window and its transients are computed again, each window at most once.
\<close>

section \<open>What the order and the caches leave alone\<close>

text \<open>A session without the order shown, the cached layers of its clients, the logs and the counters of
  the restacking.\<close>

definition core :: "focus_world \<Rightarrow> focus_world" where
  "core w = w\<lparr>cl := \<lambda>c. if isClient w c then (cl w c)\<lparr>m_layer := UnknownLayer\<rparr> else cl w c,
     stacking_order := [], calls := [], fcalls := [], force_restacking := False,
     blocked_propagating_new_clients := False, x_stacking_dirty := False, block_stacking_updates := 0\<rparr>"

lemma core_simps [simp]:
  "core (do_call e w) = core w" "core (fcall f w) = core w" "core (w\<lparr>stacking_order := xs\<rparr>) = core w"
  "core (w\<lparr>force_restacking := b\<rparr>) = core w" "core (w\<lparr>blocked_propagating_new_clients := b\<rparr>) = core w"
  "core (w\<lparr>x_stacking_dirty := b\<rparr>) = core w" "core (w\<lparr>block_stacking_updates := n\<rparr>) = core w"
  by (simp_all add: core_def do_call_def fcall_def isClient_def fun_eq_iff)

lemma core_propagate [simp]: "core (propagateClients b w) = core w"
  by (simp add: propagateClients_def Let_def)

lemma core_layer [simp]: "isClient w c \<Longrightarrow> core (upd_cl c (\<lambda>r. r\<lparr>m_layer := l\<rparr>) w) = core w"
  by (auto simp: core_def upd_cl_def isClient_def fun_eq_iff)

lemma core_cl:
  assumes "core v = core w"
  obtains f where "cl v = (\<lambda>c. (cl w c)\<lparr>m_layer := f c\<rparr>)" "\<And>c. \<not> isClient w c \<Longrightarrow> f c = m_layer (cl w c)"
proof -
  have eq: "(if isClient v c then (cl v c)\<lparr>m_layer := UnknownLayer\<rparr> else cl v c) =
      (if isClient w c then (cl w c)\<lparr>m_layer := UnknownLayer\<rparr> else cl w c)" for c
    using arg_cong [OF assms, of "\<lambda>u. cl u c"] by (simp add: core_def)
  have kind: "kind (cl v c) = kind (cl w c)" for c
    using arg_cong [OF eq [of c], of kind] by (simp split: if_splits)
  have "cl v c = (cl w c)\<lparr>m_layer := m_layer (cl v c)\<rparr>" for c
    using arg_cong [OF eq [of c], of "\<lambda>r. r\<lparr>m_layer := m_layer (cl v c)\<rparr>"] kind [of c]
    by (simp add: isClient_def split: if_splits)
  moreover have "m_layer (cl v c) = m_layer (cl w c)" if "\<not> isClient w c" for c
    using eq [of c] kind [of c] that by (simp add: isClient_def)
  ultimately show thesis by (intro that [of "\<lambda>c. m_layer (cl v c)"]) auto
qed

lemma core_fields:
  "unconstrained_stacking_order (core w) = unconstrained_stacking_order w"
  "grp (core w) = grp w"
  "active_client (core w) = active_client w"
  "should_get_focus (core w) = should_get_focus w"
  "root_window (core w) = root_window w"
  "clients (core w) = clients w"
  "desktops (core w) = desktops w"
  "showing_desktop (core w) = showing_desktop w"
  "focus (core w) = focus w"
  "last_active_client (core w) = last_active_client w"
  "prefs (core w) = prefs w"
  "active_client_recursion (core w) = active_client_recursion w"
  "screens_number (core w) = screens_number w"
  "attention_chain (core w) = attention_chain w"
  by (simp_all add: core_def)

lemma core_state:
  assumes "core v = core w"
  shows "unconstrained_stacking_order v = unconstrained_stacking_order w" "grp v = grp w"
    "active_client v = active_client w" "should_get_focus v = should_get_focus w" "root_window v = root_window w"
    "clients v = clients w" "desktops v = desktops w" "showing_desktop v = showing_desktop w"
    "focus v = focus w" "last_active_client v = last_active_client w" "prefs v = prefs w"
    "active_client_recursion v = active_client_recursion w" "screens_number v = screens_number w"
    "attention_chain v = attention_chain w"
  by (simp_all only: core_fields [of v, symmetric] core_fields [of w, symmetric] assms)

lemma core_window_state:
  assumes "core v = core w"
  shows "window_state v = window_state (w\<lparr>cl := cl v\<rparr>)"
  by (simp add: window_state_def core_state [OF assms])

lemma window_state_belongsToLayer:
  assumes "window_state v = window_state w"
  shows "belongsToLayer v = belongsToLayer w"
proof -
  have sd: "showing_desktop v = showing_desktop w" using assms by (simp add: window_state_def)
  have fs: "isActiveFullScreen v = isActiveFullScreen w"
    by (intro ext) (simp add: isActiveFullScreen_def window_state_queries [OF assms] window_state_cl [OF assms]
        cong: option.case_cong)
  have bd: "belongsToDesktop v = belongsToDesktop w"
    by (intro ext) (simp add: belongsToDesktop_def window_state_queries [OF assms] window_state_types [OF assms])
  have ld: "layerForDock v = layerForDock w"
    by (intro ext) (simp add: layerForDock_def window_state_cl [OF assms])
  show ?thesis
    by (intro ext) (simp only: belongsToLayer_def window_state_types [OF assms] window_state_cl [OF assms] sd fs bd ld)
qed

text \<open>The questions asked of windows have the same answers in sessions with the same core.\<close>

lemma core_queries:
  assumes "core v = core w"
  shows "isClient v = isClient w" "isTransient v = isTransient w" "groupTransient v = groupTransient w"
    "windowType v = windowType w" "transientForClient v = transientForClient w"
    "belongsToLayer v = belongsToLayer w" "m_transients (cl v c) = m_transients (cl w c)"
    "m_transientFor (cl v c) = m_transientFor (cl w c)" "is_fullscreen (cl v c) = is_fullscreen (cl w c)"
    "m_active (cl v c) = m_active (cl w c)" "in_group (cl v c) = in_group (cl w c)"
    "t_screen (cl v c) = t_screen (cl w c)" "is_hidden (cl v c) = is_hidden (cl w c)"
    "m_demandsAttention (cl v c) = m_demandsAttention (cl w c)" "hasTransient v = hasTransient w"
proof -
  obtain f where f: "cl v = (\<lambda>c. (cl w c)\<lparr>m_layer := f c\<rparr>)" using core_cl [OF assms] by blast
  have s: "window_state v = window_state (w\<lparr>cl := \<lambda>c. (cl w c)\<lparr>m_layer := f c\<rparr>\<rparr>)"
    using core_window_state [OF assms] by (simp add: f)
  show "isClient v = isClient w" "isTransient v = isTransient w" "groupTransient v = groupTransient w"
    "windowType v = windowType w" "transientForClient v = transientForClient w"
    by (simp_all only: window_state_queries [OF s] cache_simps)
  show "belongsToLayer v = belongsToLayer w"
    by (simp only: window_state_belongsToLayer [OF s] cache_simps)
  show "hasTransient v = hasTransient w"
    by (simp only: window_state_hasTransient [OF s] cache_simps)
  show "m_transients (cl v c) = m_transients (cl w c)"
    "m_transientFor (cl v c) = m_transientFor (cl w c)" "is_fullscreen (cl v c) = is_fullscreen (cl w c)"
    "m_active (cl v c) = m_active (cl w c)" "in_group (cl v c) = in_group (cl w c)"
    "t_screen (cl v c) = t_screen (cl w c)" "is_hidden (cl v c) = is_hidden (cl w c)"
    "m_demandsAttention (cl v c) = m_demandsAttention (cl w c)"
    by (simp_all add: f)
qed

lemma core_transients_ok:
  assumes "core v = core w"
  shows "transients_ok v = transients_ok w"
  by (simp only: transients_ok_def core_queries [OF assms])

lemma core_stack_ok:
  assumes eq: "core v = core w" and ok: "stack_ok w"
  shows "stack_ok v"
proof -
  obtain f where f: "cl v = (\<lambda>c. (cl w c)\<lparr>m_layer := f c\<rparr>)" "\<And>c. \<not> isClient w c \<Longrightarrow> f c = m_layer (cl w c)"
    using core_cl [OF eq] by blast
  have "layer_value v c \<noteq> UnknownLayer" if "c \<in> set (unconstrained_stacking_order w)" for c
    using ok that belongsToLayer_known [of w c]
    by (auto simp: stack_ok_def layers_known_def layer_value_def core_queries [OF eq] f)
  then have "layers_known v" by (simp add: layers_known_def core_state [OF eq])
  then show ?thesis
    using ok by (simp add: stack_ok_def core_state [OF eq] core_transients_ok [OF eq])
qed

text \<open>A cached layer is fresh when it is the one the window belongs to, or is to be computed.\<close>

definition fresh :: "'a wm_scheme \<Rightarrow> win \<Rightarrow> bool" where
  "fresh w c \<longleftrightarrow> m_layer (cl w c) = UnknownLayer \<or> m_layer (cl w c) = belongsToLayer w c"

text \<open>What every operation on the order and the caches does at most.\<close>

definition refreshes :: "focus_world \<Rightarrow> focus_world \<Rightarrow> bool" where
  "refreshes w v \<longleftrightarrow> core v = core w \<and> (\<forall>x. fresh w x \<longrightarrow> fresh v x)"

lemma refreshes_refl [simp]: "refreshes w w"
  by (simp add: refreshes_def)

lemma refreshes_trans [trans]: "refreshes u v \<Longrightarrow> refreshes v w \<Longrightarrow> refreshes u w"
  by (simp add: refreshes_def)

lemma refreshes_core: "refreshes w v \<Longrightarrow> core v = core w"
  by (simp add: refreshes_def)

lemma fresh_same:
  assumes "core v = core w" "cl v = cl w"
  shows "fresh v = fresh w"
  by (intro ext) (simp add: fresh_def assms(2) core_queries [OF assms(1)])

lemma refreshes_same:
  assumes "core v = core w" "cl v = cl w"
  shows "refreshes w v"
  by (simp add: refreshes_def fresh_same [OF assms] assms(1))

lemma cached_refreshes:
  assumes "cached w v"
  shows "refreshes w v"
proof -
  obtain f where f: "v = w\<lparr>cl := \<lambda>c. (cl w c)\<lparr>m_layer := f c\<rparr>\<rparr>"
    "\<And>c. f c = m_layer (cl w c) \<or> f c = layer_value w c" using assms by (auto simp: cached_def)
  have "f c = m_layer (cl w c)" if "\<not> isClient w c" for c
    using f(2) [of c] that by (simp add: layer_value_def)
  then have "(if isClient w c then (cl w c)\<lparr>m_layer := UnknownLayer\<rparr> else (cl w c)\<lparr>m_layer := f c\<rparr>) =
      (if isClient w c then (cl w c)\<lparr>m_layer := UnknownLayer\<rparr> else cl w c)" for c by simp
  then have core: "core v = core w" by (simp add: core_def f(1) isClient_def cong: if_cong)
  have "fresh v x" if "fresh w x" for x
    using that f(2) [of x] core_queries(6) [OF core]
    by (auto simp: fresh_def f(1) layer_value_def split: if_splits)
  then show ?thesis using core by (simp add: refreshes_def)
qed

lemma propagateClients_cl: "cl (propagateClients b w) = cl w"
  by (simp add: propagateClients_def Let_def)

lemma updateStackingOrder_refreshes:
  assumes "stack_ok w"
  shows "\<exists>v. updateStackingOrder b w = Some v \<and> refreshes w v \<and> block_stacking_updates v = block_stacking_updates w"
proof (cases "block_stacking_updates w > 0")
  case True
  then show ?thesis by (simp add: updateStackingOrder_def refreshes_same)
next
  case False
  obtain w' order where o': "constrainedStackingOrder w = Some (w', order)" "cached w w'"
    by (rule constrained_result [of w]) (use assms in \<open>simp_all add: stack_ok_def\<close>)
  have "\<exists>v. updateStackingOrder b w = Some v \<and> core v = core w' \<and> cl v = cl w' \<and>
      block_stacking_updates v = block_stacking_updates w'"
    using False by (simp add: updateStackingOrder_def o'(1) Let_def propagateClients_sel propagateClients_cl split: option.split)
  then obtain v where v: "updateStackingOrder b w = Some v" "core v = core w'" "cl v = cl w'"
      "block_stacking_updates v = block_stacking_updates w'" by blast
  have "refreshes w v"
    using cached_refreshes [OF o'(2)] refreshes_same [OF v(2,3)] by (rule refreshes_trans)
  then show ?thesis using v cached_sel(12) [OF o'(2)] by auto
qed

lemma block_refreshes:
  "\<exists>v. blockStackingUpdates True w = Some v \<and> refreshes w v \<and> block_stacking_updates v = block_stacking_updates w + 1"
  by (auto simp: blockStackingUpdates_def intro!: refreshes_same)

lemma unblock_refreshes:
  assumes "stack_ok w"
  shows "\<exists>v. blockStackingUpdates False w = Some v \<and> refreshes w v \<and> block_stacking_updates v = block_stacking_updates w - 1"
proof (cases "block_stacking_updates w = 1")
  case True
  let ?w = "w\<lparr>block_stacking_updates := 0\<rparr>"
  have r: "refreshes w ?w" by (simp add: refreshes_same)
  have "stack_ok ?w" by (rule core_stack_ok [OF _ assms]) simp
  then obtain v where v: "updateStackingOrder (blocked_propagating_new_clients w) ?w = Some v" "refreshes ?w v"
    "block_stacking_updates v = 0" using updateStackingOrder_refreshes [of ?w] by auto
  have "refreshes v (do_call CheckInputWindowStacking v)" by (simp add: refreshes_same)
  with r v(2) have "refreshes w (do_call CheckInputWindowStacking v)" using refreshes_trans by blast
  then show ?thesis using True v by (simp add: blockStackingUpdates_def)
next
  case False
  then show ?thesis by (auto simp: blockStackingUpdates_def Let_def intro!: refreshes_same)
qed

section \<open>Updating a layer ends\<close>

lemma foldM_refreshes:
  assumes "\<And>x u. x \<in> set xs \<Longrightarrow> refreshes w u \<Longrightarrow> block_stacking_updates u = n \<Longrightarrow>
      \<exists>v. f x u = Some v \<and> refreshes u v \<and> block_stacking_updates v = n \<and> P x v"
    and "\<And>x u v. P x u \<Longrightarrow> refreshes u v \<Longrightarrow> P x v" "refreshes w u" "block_stacking_updates u = n"
  shows "\<exists>v. foldM f xs u = Some v \<and> refreshes u v \<and> block_stacking_updates v = n \<and> (\<forall>x\<in>set xs. P x v)"
  using assms(1,3,4)
proof (induction xs arbitrary: u)
  case (Cons x xs)
  obtain v where v: "f x u = Some v" "refreshes u v" "block_stacking_updates v = n" "P x v"
    using Cons.prems(1) [of x u, OF _ Cons.prems(2,3)] by auto
  have "refreshes w v" using Cons.prems(2) v(2) by (rule refreshes_trans)
  then obtain z where "foldM f xs v = Some z" "refreshes v z" "block_stacking_updates z = n" "\<forall>x\<in>set xs. P x z"
    using Cons.IH [OF _ _ v(3)] Cons.prems(1) by auto
  then show ?case
    using v(1) assms(2) [OF v(4), of z] refreshes_trans [OF v(2), of z] by (intro exI [of _ z]) simp
qed simp

text \<open>A set of managed windows: all clients, with their transients.\<close>

definition client_set :: "focus_world \<Rightarrow> win set \<Rightarrow> bool" where
  "client_set w K \<longleftrightarrow> finite K \<and> (\<forall>x\<in>K. isClient w x \<and> set (m_transients (cl w x)) \<subseteq> K)"

lemma core_client_set:
  assumes "core v = core w"
  shows "client_set v K = client_set w K"
  by (simp only: client_set_def core_queries [OF assms])

lemma read_layer_refreshes:
  assumes "isClient w c"
  shows "refreshes w (snd (read_layer c w))"
proof -
  have core: "core (snd (read_layer c w)) = core w" using assms by (simp add: read_layer_def)
  show ?thesis
    using core_queries(6) [OF core] assms by (auto simp: refreshes_def core fresh_def read_layer_def layer_value_def)
qed

definition stale :: "focus_world \<Rightarrow> win set \<Rightarrow> win set" where
  "stale w K = {x \<in> K. \<not> fresh w x}"

lemma stale_fewer: "refreshes w v \<Longrightarrow> stale v K \<subseteq> stale w K"
  by (auto simp: stale_def refreshes_def)

lemma updateLayer_early:
  fixes w :: focus_world
  assumes "isClient w c" "fresh w c"
  shows "updateLayer c w = Some (snd (read_layer c w))"
  using assms core_queries(6) [OF refreshes_core [OF read_layer_refreshes [OF assms(1)]]]
  by (subst updateLayer.simps) (auto simp: read_layer_def layer_value_def fresh_def)

lemma updateLayer_fresh:
  assumes "isClient w c" "fresh w c"
  shows "\<exists>v. updateLayer c w = Some v \<and> refreshes w v \<and> block_stacking_updates v = block_stacking_updates w \<and> fresh v c"
proof -
  have r: "refreshes w (snd (read_layer c w))" by (rule read_layer_refreshes [OF assms(1)])
  then show ?thesis using updateLayer_early [OF assms] assms(2) by (simp add: refreshes_def read_layer_def)
qed

lemma updateLayer_result:
  assumes "stack_ok w" "client_set w K" "c \<in> K"
  shows "\<exists>v. updateLayer c w = Some v \<and> refreshes w v \<and> block_stacking_updates v = block_stacking_updates w \<and>
    fresh v c \<and> (\<not> fresh w c \<longrightarrow> (\<forall>t\<in>set (m_transients (cl w c)). fresh v t))"
  using assms
proof (induction "card (stale w K)" arbitrary: w c rule: less_induct)
  case less
  have client: "isClient w c" and fin: "finite K" using less.prems(2,3) by (simp_all add: client_set_def)
  show ?case
  proof (cases "fresh w c")
    case True
    then show ?thesis using updateLayer_fresh [OF client] by blast
  next
    case False
    let ?ts = "m_transients (cl w c)" and ?n = "block_stacking_updates w + 1"
    have cached: "read_layer c w = (m_layer (cl w c), w)" "m_layer (cl w c) \<noteq> belongsToLayer w c"
      using False by (simp_all add: fresh_def read_layer_def layer_value_def upd_cl_def)
    obtain w1 where w1: "blockStackingUpdates True w = Some w1" "refreshes w w1" "block_stacking_updates w1 = ?n"
      using block_refreshes by blast
    note c1 = refreshes_core [OF w1(2)]
    define w2 where "w2 = upd_cl c (\<lambda>r. r\<lparr>m_layer := UnknownLayer\<rparr>) w1"
    have "isClient w1 c" using client by (simp add: core_queries [OF c1])
    then have c2: "core w2 = core w1" by (simp add: w2_def)
    have f2: "fresh w2 c" by (simp add: w2_def fresh_def)
    have "fresh w2 x" if "fresh w1 x" for x
      using that f2 by (cases "x = c") (simp_all add: fresh_def w2_def core_queries(6) [OF c2, unfolded w2_def])
    then have r2: "refreshes w w2" using w1(2) c2 by (simp add: refreshes_def)
    have "stale w2 K \<subset> stale w K"
      using stale_fewer [OF r2] f2 False less.prems(3) by (auto simp: stale_def)
    then have less_stale: "card (stale w2 K) < card (stale w K)"
      using fin by (intro psubset_card_mono) (simp_all add: stale_def)
    have "\<exists>v. foldM (\<lambda>t w. updateLayer t w) ?ts w2 = Some v \<and> refreshes w2 v \<and> block_stacking_updates v = ?n \<and>
        (\<forall>x\<in>set ?ts. fresh v x)"
    proof (rule foldM_refreshes [where w = w2 and P = "\<lambda>x v. fresh v x"])
      fix x u
      assume u: "x \<in> set ?ts" "refreshes w2 u" "block_stacking_updates u = ?n"
      note cu = refreshes_core [OF refreshes_trans [OF r2 u(2)]]
      have "card (stale u K) < card (stale w K)"
        using card_mono [of "stale w2 K" "stale u K"] stale_fewer [OF u(2)] fin less_stale by (simp add: stale_def)
      moreover have "x \<in> K" using u(1) less.prems(2,3) by (auto simp: client_set_def)
      ultimately show "\<exists>v. updateLayer x u = Some v \<and> refreshes u v \<and> block_stacking_updates v = ?n \<and> fresh v x"
        using less.hyps [of u x] core_stack_ok [OF cu less.prems(1)] core_client_set [OF cu, of K] less.prems(2) u(3) by auto
    qed (use w1(3) in \<open>auto simp: refreshes_def w2_def\<close>)
    then obtain w3 where w3: "foldM (\<lambda>t w. updateLayer t w) ?ts w2 = Some w3" "refreshes w2 w3"
      "block_stacking_updates w3 = ?n" "\<forall>x\<in>set ?ts. fresh w3 x" by blast
    have r3: "refreshes w w3" by (rule refreshes_trans [OF r2 w3(2)])
    obtain v where v: "blockStackingUpdates False w3 = Some v" "refreshes w3 v"
      "block_stacking_updates v = block_stacking_updates w3 - 1"
      using unblock_refreshes [OF core_stack_ok [OF refreshes_core [OF r3] less.prems(1)]] by blast
    have "updateLayer c w = Some v"
      using w1(1) w3(1) v(1) cached core_queries(7) [OF c1, of c]
      by (subst updateLayer.simps) (simp add: w2_def [symmetric])
    moreover have "refreshes w v" by (rule refreshes_trans [OF r3 v(2)])
    ultimately show ?thesis using v w3 f2 by (auto simp: refreshes_def)
  qed
qed

end
