(* ===== verification/FocusFacts.thy ===== *)
theory FocusFacts
  imports LayerFacts
begin

text \<open>
  The way of the focus: \<open>setActive\<close> and \<open>setActiveClient\<close> come back, and leave one active window, the
  one asked for.
\<close>

section \<open>What an activation leaves alone\<close>

text \<open>A session without the marks of activation: flags of the windows, the active client and what is
  derived from it.\<close>

definition shape :: "focus_world \<Rightarrow> focus_world" where
  "shape w = core (w\<lparr>cl := \<lambda>c. (cl w c)\<lparr>m_active := False, m_demandsAttention := False, is_hidden := False\<rparr>,
     active_client := None, last_active_client := None, focus := initial_focus_chain, attention_chain := [],
     shortcuts_disabled := False, active_popup := False, active_popup_client := None, menu_client := None,
     active_client_recursion := 0\<rparr>)"

lemma shape_of_core: "shape (core w) = shape w"
  by (simp add: shape_def core_def isClient_def fun_eq_iff cong: if_cong)

lemma core_shape: "core v = core w \<Longrightarrow> shape v = shape w"
  by (metis shape_of_core)

lemma shape_fields:
  "unconstrained_stacking_order (shape w) = unconstrained_stacking_order w" "grp (shape w) = grp w"
  "should_get_focus (shape w) = should_get_focus w" "root_window (shape w) = root_window w"
  "clients (shape w) = clients w" "desktops (shape w) = desktops w" "prefs (shape w) = prefs w"
  "screens_number (shape w) = screens_number w"
  by (simp_all add: shape_def core_def)

lemma shape_cl_fields:
  "kind (cl (shape w) c) = kind (cl w c)" "m_transients (cl (shape w) c) = m_transients (cl w c)"
  "m_transientFor (cl (shape w) c) = m_transientFor (cl w c)" "in_group (cl (shape w) c) = in_group (cl w c)"
  "m_transientForId (cl (shape w) c) = m_transientForId (cl w c)"
  "\<not> isClient w c \<Longrightarrow> m_layer (cl (shape w) c) = m_layer (cl w c)"
  by (simp_all add: shape_def core_def isClient_def)

lemma shape_sel:
  assumes "shape v = shape w"
  shows "unconstrained_stacking_order v = unconstrained_stacking_order w" "grp v = grp w"
    "should_get_focus v = should_get_focus w" "root_window v = root_window w"
    "clients v = clients w" "desktops v = desktops w" "prefs v = prefs w" "screens_number v = screens_number w"
    "kind (cl v c) = kind (cl w c)" "m_transients (cl v c) = m_transients (cl w c)"
    "m_transientFor (cl v c) = m_transientFor (cl w c)" "in_group (cl v c) = in_group (cl w c)"
    "m_transientForId (cl v c) = m_transientForId (cl w c)"
  by (simp_all only: shape_fields [of v, symmetric] shape_fields [of w, symmetric] assms
      shape_cl_fields(1-5) [of v, symmetric] shape_cl_fields(1-5) [of w, symmetric])

lemma shape_queries:
  assumes "shape v = shape w"
  shows "isClient v = isClient w" "isTransient v = isTransient w" "group_members v = group_members w"
    "transientForClient v = transientForClient w" "groupTransient v = groupTransient w"
  by (simp_all add: fun_eq_iff isClient_def isTransient_def group_members_def transientForClient_def groupTransient_def
      shape_sel [OF assms] cong: option.case_cong)

text \<open>The sessions the focus is passed around in: an order that can be computed, and clients that are
  managed with their transients, main windows and groups.\<close>

definition ready :: "win set \<Rightarrow> focus_world \<Rightarrow> bool" where
  "ready K w \<longleftrightarrow> stack_ok w \<and> client_set w K \<and> set (clients w) \<subseteq> K \<and>
     (\<forall>c\<in>K. set (group_members w c) \<subseteq> K \<and> (\<forall>t. m_transientFor (cl w c) = Some t \<longrightarrow> t \<in> K))"

lemma shape_ready:
  assumes eq: "shape v = shape w" and ok: "ready K w"
  shows "ready K v"
proof -
  have "layer_value v c \<noteq> UnknownLayer" if "c \<in> set (unconstrained_stacking_order w)" for c
  proof (cases "isClient w c")
    case True
    then show ?thesis using belongsToLayer_known [of v c] by (simp add: layer_value_def shape_queries [OF eq])
  next
    case False
    then have "m_layer (cl v c) = m_layer (cl w c)"
      using shape_cl_fields(6) [of v c] shape_cl_fields(6) [of w c] by (simp add: eq shape_queries [OF eq])
    moreover have "layer_value w c \<noteq> UnknownLayer"
      using ok that by (simp add: ready_def stack_ok_def layers_known_def)
    ultimately show ?thesis using False by (simp add: layer_value_def shape_queries [OF eq])
  qed
  then have "layers_known v" by (simp add: layers_known_def shape_sel [OF eq])
  moreover have "transients_ok v = transients_ok w" by (simp only: transients_ok_def shape_sel [OF eq])
  ultimately have "stack_ok v" using ok by (simp add: ready_def stack_ok_def shape_sel [OF eq])
  then show ?thesis
    using ok by (simp add: ready_def client_set_def shape_sel [OF eq] shape_queries [OF eq])
qed

lemma ready_mains: "ready K w \<Longrightarrow> c \<in> K \<Longrightarrow> set (mainClients w c) \<subseteq> K"
  by (auto simp: ready_def mainClients_def split: option.splits if_splits)

text \<open>An operation that keeps the marks.\<close>

definition marks :: "focus_world \<Rightarrow> (win \<Rightarrow> bool) \<times> win option \<times> win option \<times> int \<times> win option" where
  "marks w = (\<lambda>c. m_active (cl w c), active_client w, last_active_client w, active_client_recursion w,
     m_activeClient (focus w))"

definition keeps :: "focus_world \<Rightarrow> focus_world \<Rightarrow> bool" where
  "keeps w v \<longleftrightarrow> shape v = shape w \<and> marks v = marks w"

lemma keeps_refl [simp]: "keeps w w"
  by (simp add: keeps_def)

lemma keeps_trans [trans]: "keeps u v \<Longrightarrow> keeps v w \<Longrightarrow> keeps u w"
  by (simp add: keeps_def)

lemma refreshes_keeps:
  assumes "refreshes w v"
  shows "keeps w v"
proof -
  note c = refreshes_core [OF assms]
  show ?thesis by (simp add: keeps_def core_shape [OF c] marks_def core_state [OF c] core_queries(10) [OF c])
qed

lemma keeps_ready: "keeps w v \<Longrightarrow> ready K w \<Longrightarrow> ready K v"
  by (auto simp: keeps_def intro: shape_ready)

lemma fcall_sel [simp]:
  "cl (fcall f w) = cl w" "block_stacking_updates (fcall f w) = block_stacking_updates w"
  "m_active (cl (fcall f w) c) = m_active (cl w c)"
  by (simp_all add: fcall_def)

lemma keeps_block [simp]: "keeps w (w\<lparr>block_stacking_updates := n\<rparr>)"
  by (intro refreshes_keeps refreshes_same) simp_all

lemma keeps_calls: "keeps w (do_call e w)" "keeps w (fcall f w)"
  by (intro refreshes_keeps refreshes_same; simp)+

text \<open>Changes of what the shape leaves out.\<close>

lemma shape_marks [simp]:
  "shape (upd_cl c (\<lambda>r. r\<lparr>m_active := b\<rparr>) w) = shape w"
  "shape (upd_cl c (\<lambda>r. r\<lparr>m_demandsAttention := b\<rparr>) w) = shape w"
  "shape (upd_cl c (\<lambda>r. r\<lparr>is_hidden := b\<rparr>) w) = shape w"
  "shape (w\<lparr>active_client := a\<rparr>) = shape w" "shape (w\<lparr>last_active_client := a\<rparr>) = shape w"
  "shape (w\<lparr>focus := fc\<rparr>) = shape w" "shape (w\<lparr>attention_chain := xs\<rparr>) = shape w"
  "shape (w\<lparr>shortcuts_disabled := b\<rparr>) = shape w" "shape (w\<lparr>active_popup := b\<rparr>) = shape w"
  "shape (w\<lparr>active_popup_client := a\<rparr>) = shape w" "shape (w\<lparr>menu_client := a\<rparr>) = shape w"
  "shape (w\<lparr>active_client_recursion := n\<rparr>) = shape w"
  by (simp_all add: shape_def core_def upd_cl_def isClient_def fun_eq_iff cong: if_cong)

lemma shape_calls [simp]: "shape (do_call e w) = shape w" "shape (fcall f w) = shape w"
  by (intro core_shape; simp)+

lemma marks_same [simp]:
  "marks (fcall f w) = marks w" "marks (do_call e w) = marks w" "marks (w\<lparr>attention_chain := xs\<rparr>) = marks w"
  "marks (upd_cl c (\<lambda>r. r\<lparr>m_demandsAttention := b\<rparr>) w) = marks w"
  "marks (upd_cl c (\<lambda>r. r\<lparr>is_hidden := b\<rparr>) w) = marks w"
  "marks (w\<lparr>shortcuts_disabled := b\<rparr>) = marks w" "marks (w\<lparr>active_popup := b\<rparr>) = marks w"
  "marks (w\<lparr>active_popup_client := a\<rparr>) = marks w" "marks (w\<lparr>menu_client := a\<rparr>) = marks w"
  by (simp_all add: marks_def fcall_def do_call_def upd_cl_def fun_eq_iff)

lemma blocks_same [simp]:
  "block_stacking_updates (upd_cl c f w) = block_stacking_updates w"
  by simp

lemma keeps_popup: "keeps w (closeForActive c w)" "block_stacking_updates (closeForActive c w) = block_stacking_updates w"
  by (simp_all add: closeForActive_def closeActivePopup_def Let_def keeps_def)

lemma keeps_demandAttention:
  "keeps w (demandAttention c b w)" "block_stacking_updates (demandAttention c b w) = block_stacking_updates w"
  by (simp_all add: demandAttention_def clientAttentionChanged_def Let_def keeps_def)

lemma keeps_hideClient:
  "keeps w (hideClient c b w)" "block_stacking_updates (hideClient c b w) = block_stacking_updates w"
  by (simp_all add: hideClient_def keeps_def)

lemma keeps_fold:
  assumes "\<And>x u. keeps u (f x u) \<and> block_stacking_updates (f x u) = block_stacking_updates u"
  shows "keeps w (fold f xs w) \<and> block_stacking_updates (fold f xs w) = block_stacking_updates w"
proof (induction xs arbitrary: w)
  case (Cons x xs)
  then show ?case using assms [of w x] Cons.IH [of "f x w"] keeps_trans by fastforce
qed simp

lemma keeps_both:
  assumes "keeps w u \<and> block_stacking_updates u = block_stacking_updates w"
    and "keeps u v \<and> block_stacking_updates v = block_stacking_updates u"
  shows "keeps w v \<and> block_stacking_updates v = block_stacking_updates w"
  using assms keeps_trans [of w u v] by simp

lemma keeps_hideClients:
  "keeps w (fold (\<lambda>c. hideClient c b) cs w) \<and>
   block_stacking_updates (fold (\<lambda>c. hideClient c b) cs w) = block_stacking_updates w"
  by (rule keeps_fold) (simp add: keeps_hideClient)

lemma keeps_disableGlobalShortcuts:
  "keeps w (disableGlobalShortcutsForClient b w) \<and>
   block_stacking_updates (disableGlobalShortcutsForClient b w) = block_stacking_updates w"
proof (cases "shortcuts_disabled w = b")
  case True
  then show ?thesis by (simp add: disableGlobalShortcutsForClient_def)
next
  case False
  let ?u = "fcall (BlockGlobalShortcuts b) (w\<lparr>shortcuts_disabled := b\<rparr>)"
  have u: "keeps w ?u" "block_stacking_updates ?u = block_stacking_updates w" by (simp_all add: keeps_def)
  have "keeps ?u (fold (\<lambda>c. do_call (UpdateMouseGrab c)) (clients w) ?u) \<and>
      block_stacking_updates (fold (\<lambda>c. do_call (UpdateMouseGrab c)) (clients w) ?u) = block_stacking_updates ?u"
    by (rule keeps_fold) (simp add: keeps_calls)
  with u False show ?thesis using keeps_trans by (auto simp: disableGlobalShortcutsForClient_def)
qed

text \<open>The way up to the main window of a utility window ends.\<close>

lemma tool_walk_total:
  assumes "transients_ok w"
  shows "\<exists>r. tool_walk w (Some c) = Some r"
proof -
  obtain r where r: "\<forall>c t. m_transientFor (cl w c) = Some t \<longrightarrow> c \<in> set (m_transients (cl w t))"
    "\<forall>p. \<forall>c\<in>set (m_transients (cl w p)). (r p :: nat) < r c"
    using assms by (auto simp: transients_ok_def)
  show ?thesis
  proof (induction "r c" arbitrary: c rule: less_induct)
    case less
    show ?case
    proof (cases "transientForClient w c")
      case None
      have "tool_walk w None = Some (None, None)" by (subst tool_walk.simps) simp
      then show ?thesis using None by (subst tool_walk.simps) simp
    next
      case (Some t)
      then have "m_transientFor (cl w c) = Some t" by (auto simp: transientForClient_def split: option.splits if_splits)
      then have "r t < r c" using r by blast
      then show ?thesis using less [of t] Some by (subst tool_walk.simps) simp
    qed
  qed
qed

lemma updateToolWindows_keeps:
  assumes "stack_ok w"
  shows "\<exists>v. updateToolWindows b w = Some v \<and> keeps w v \<and> block_stacking_updates v = block_stacking_updates w"
proof (cases "isHideUtilityWindowsForInactive w")
  case True
  let ?client = "case active_client w of None \<Rightarrow> None | Some a \<Rightarrow> if isClient w a then Some a else None"
  have "tool_walk w None = Some (None, None)" by (subst tool_walk.simps) simp
  moreover have "transients_ok w" using assms by (simp add: stack_ok_def)
  ultimately have "\<exists>r. tool_walk w ?client = Some r"
  proof (cases ?client)
    case (Some c)
    then show ?thesis using tool_walk_total [OF \<open>transients_ok w\<close>, of c] by (simp only:)
  qed (simp only:, blast)
  then obtain gr client where walk: "tool_walk w ?client = Some (gr, client)" by (metis surj_pair)
  let ?tools = "filter (is_tool w) (stacking_order w)"
  let ?show = "rev (filter (\<lambda>c. if b then \<not> tool_hidden w gr client c else tool_shown w gr client c) ?tools)"
  let ?hide = "if b then filter (tool_hidden w gr client) ?tools else []"
  let ?u = "fold (\<lambda>c. hideClient c False) ?show w"
  let ?v = "fold (\<lambda>c. hideClient c True) ?hide ?u"
  have v: "keeps w ?v \<and> block_stacking_updates ?v = block_stacking_updates w"
    by (rule keeps_both [OF keeps_hideClients keeps_hideClients])
  have called: "keeps ?v (fcall (ToolWindowsTimer (\<not> b)) ?v) \<and>
      block_stacking_updates (fcall (ToolWindowsTimer (\<not> b)) ?v) = block_stacking_updates ?v"
    by (simp only: keeps_calls fcall_sel simp_thms)
  have "updateToolWindows b w = Some (fcall (ToolWindowsTimer (\<not> b)) ?v)"
    using True by (simp add: updateToolWindows_def walk)
  then show ?thesis using keeps_both [OF v called]
    by (intro exI [of _ "fcall (ToolWindowsTimer (\<not> b)) ?v"] conjI) (simp_all only:)
next
  case False
  show ?thesis using False by (simp add: updateToolWindows_def keeps_hideClients)
qed

text \<open>A loop that updates layers of managed windows.\<close>

lemma updateLayers_loop:
  assumes "stack_ok w" "client_set w K" "set xs \<subseteq> K"
    and "\<And>x u. f x u = Some u \<or> f x u = Some (snd (read_layer x u)) \<or> f x u = updateLayer x u \<or>
      f x u = updateLayer x (snd (read_layer x u))"
  shows "\<exists>v. foldM f xs w = Some v \<and> refreshes w v \<and> block_stacking_updates v = block_stacking_updates w"
proof -
  have "\<exists>v. foldM f xs w = Some v \<and> refreshes w v \<and> block_stacking_updates v = block_stacking_updates w \<and>
      (\<forall>x\<in>set xs. True)"
  proof (rule foldM_refreshes [where w = w and P = "\<lambda>_ _. True"])
    fix x u
    assume u: "x \<in> set xs" "refreshes w u" "block_stacking_updates u = block_stacking_updates w"
    have K: "x \<in> K" using u(1) assms(3) by blast
    note c = refreshes_core [OF u(2)]
    have ok: "stack_ok u" "client_set u K" using core_stack_ok [OF c assms(1)] core_client_set [OF c] assms(2) by simp_all
    then have x: "isClient u x" using K by (simp add: client_set_def)
    let ?r = "snd (read_layer x u)"
    have r: "refreshes u ?r" "block_stacking_updates ?r = block_stacking_updates u"
      using read_layer_refreshes [OF x] by (simp_all add: read_layer_def)
    note cr = refreshes_core [OF r(1)]
    obtain v1 where v1: "updateLayer x u = Some v1" "refreshes u v1" "block_stacking_updates v1 = block_stacking_updates u"
      using updateLayer_result [OF ok K] by blast
    obtain v2 where v2: "updateLayer x ?r = Some v2" "refreshes ?r v2" "block_stacking_updates v2 = block_stacking_updates ?r"
      using updateLayer_result [OF core_stack_ok [OF cr ok(1)] core_client_set [OF cr, THEN iffD2, OF ok(2)] K] by blast
    from assms(4) [of x u] show "\<exists>v. f x u = Some v \<and> refreshes u v \<and> block_stacking_updates v = block_stacking_updates w \<and> True"
      using u(3) r v1 v2 refreshes_trans [OF r(1) v2(2)] by (elim disjE) auto
  qed simp_all
  then show ?thesis by blast
qed

lemma update_activeClient: "m_activeClient (update w c b fc) = m_activeClient fc"
  by (simp add: update_def fc_remove_def map_chains_def Let_def)

lemma newActiveClient_result:
  assumes "ready K w" "c \<in> K"
  shows "\<exists>v. newActiveClient c w = Some v \<and> shape v = shape w \<and> block_stacking_updates v = block_stacking_updates w \<and>
    marks v = marks (w\<lparr>last_active_client := Some c\<rparr>)"
proof -
  define u where "u = demandAttention c False (w\<lparr>last_active_client := Some c, focus := update w c MakeFirst (focus w)\<rparr>)"
  have u: "shape u = shape w" "marks u = marks (w\<lparr>last_active_client := Some c\<rparr>)"
    "block_stacking_updates u = block_stacking_updates w"
    using keeps_demandAttention [where w = "w\<lparr>last_active_client := Some c, focus := update w c MakeFirst (focus w)\<rparr>"
      and c = c and b = False]
    by (simp_all add: u_def keeps_def marks_def update_activeClient)
  have ready: "ready K u" by (rule shape_ready [OF u(1) assms(1)])
  let ?f = "\<lambda>x w. if x = c then Some w
     else let (l, w) = read_layer x w
          in if l = ActiveLayer \<and> t_screen (cl w x) = t_screen (cl w c) then updateLayer x w else Some w"
  have "\<exists>v. foldM ?f (clients u) u = Some v \<and> refreshes u v \<and> block_stacking_updates v = block_stacking_updates u"
    by (rule updateLayers_loop [where K = K])
      (use ready in \<open>auto simp: ready_def case_prod_unfold Let_def\<close>)
  then obtain v where v: "foldM ?f (clients u) u = Some v" "refreshes u v" "block_stacking_updates v = block_stacking_updates u"
    by blast
  have "newActiveClient c w = Some (if screens_number u > 1 then v else u)"
    using v(1) by (simp add: newActiveClient_def u_def [symmetric] Let_def)
  moreover have "shape (if screens_number u > 1 then v else u) = shape w \<and>
      block_stacking_updates (if screens_number u > 1 then v else u) = block_stacking_updates w \<and>
      marks (if screens_number u > 1 then v else u) = marks (w\<lparr>last_active_client := Some c\<rparr>)"
    using u v(3) refreshes_keeps [OF v(2)] by (simp add: keeps_def)
  ultimately show ?thesis by blast
qed

lemma relayerActive_keeps:
  assumes "ready K w" "c \<in> K"
  shows "\<exists>v. relayerActive c w = Some v \<and> keeps w v \<and> block_stacking_updates v = block_stacking_updates w"
proof -
  obtain w1 where w1: "blockStackingUpdates True w = Some w1" "refreshes w w1"
    "block_stacking_updates w1 = block_stacking_updates w + 1" using block_refreshes by blast
  have r1: "ready K w1" by (rule keeps_ready [OF refreshes_keeps [OF w1(2)] assms(1)])
  then have "stack_ok w1" "client_set w1 K" by (simp_all add: ready_def)
  then obtain w2 where w2: "updateLayer c w1 = Some w2" "refreshes w1 w2"
    "block_stacking_updates w2 = block_stacking_updates w1" using updateLayer_result assms(2) by blast
  have r2: "ready K w2" by (rule keeps_ready [OF refreshes_keeps [OF w2(2)] r1])
  let ?f = "\<lambda>m w. if is_fullscreen (cl w m) then updateLayer m w else Some w"
  have "\<exists>v. foldM ?f (mainClients w2 c) w2 = Some v \<and> refreshes w2 v \<and> block_stacking_updates v = block_stacking_updates w2"
    by (rule updateLayers_loop [where K = K])
      (use r2 ready_mains [OF r2 assms(2)] in \<open>auto simp: ready_def\<close>)
  then obtain w3 where w3: "foldM ?f (mainClients w2 c) w2 = Some w3" "refreshes w2 w3"
    "block_stacking_updates w3 = block_stacking_updates w2" by blast
  define w4 where "w4 = do_call (UpdateMouseGrab c) (fcall (ActiveChanged c)
    (if info_urgency (prefs w3 c) then demandAttention c True w3 else w3))"
  have w4: "keeps w3 w4" "block_stacking_updates w4 = block_stacking_updates w3"
    using keeps_demandAttention [where w = w3 and c = c and b = True] by (simp_all add: w4_def keeps_def)
  have k4: "keeps w w4"
    by (rule keeps_trans [OF keeps_trans [OF keeps_trans [OF refreshes_keeps [OF w1(2)] refreshes_keeps [OF w2(2)]]
          refreshes_keeps [OF w3(2)]] w4(1)])
  have "stack_ok w4" using keeps_ready [OF k4 assms(1)] by (simp add: ready_def)
  then obtain v where v: "blockStackingUpdates False w4 = Some v" "refreshes w4 v"
    "block_stacking_updates v = block_stacking_updates w4 - 1" using unblock_refreshes by blast
  have "relayerActive c w = Some v"
    using w1(1) w2(1) w3(1) v(1) by (simp add: relayerActive_def w4_def Let_def)
  moreover have "keeps w v" by (rule keeps_trans [OF k4 refreshes_keeps [OF v(2)]])
  ultimately show ?thesis using w1(3) w2(3) w3(3) w4(2) v(3) by simp
qed

section \<open>The active window changes\<close>

text \<open>\<open>setActiveClient\<close> before and after the old window is told.\<close>

definition blocked :: "focus_world \<Rightarrow> focus_world" where
  "blocked w = (if block_stacking_updates w = 0 then w\<lparr>blocked_propagating_new_clients := False\<rparr> else w)
     \<lparr>block_stacking_updates := block_stacking_updates w + 1\<rparr>"

lemma blockStackingUpdates_True: "blockStackingUpdates True w = Some (blocked w)"
  by (simp add: blockStackingUpdates_def blocked_def)

lemma blocked_result [simp]:
  "shape (blocked w) = shape w" "marks (blocked w) = marks w"
  "block_stacking_updates (blocked w) = block_stacking_updates w + 1"
  by (rule core_shape; simp add: blocked_def) (simp_all add: blocked_def marks_def)

definition leaveActive :: "win option \<Rightarrow> focus_world \<Rightarrow> focus_world" where
  "leaveActive c w = (let w = blocked (closeForActive c w)
     in fcall UpdateFocusMousePosition (w\<lparr>active_client_recursion := active_client_recursion w + 1\<rparr>))"

definition enterActive :: "win option \<Rightarrow> focus_world \<Rightarrow> focus_world option" where
  "enterActive c =
     (\<lambda>w. do {
       let w = w\<lparr>active_client := c\<rparr>;
       w \<leftarrow> (case c of None \<Rightarrow> Some w | Some c \<Rightarrow> if m_active (cl w c) then newActiveClient c w else None);
       w \<leftarrow> updateToolWindows False w;
       let w = disableGlobalShortcutsForClient
         (case c of None \<Rightarrow> False | Some c \<Rightarrow> checkDisableGlobalShortcuts (prefs w c) False) w;
       w \<leftarrow> updateStackingOrder False w;
       let w = announceActive w;
       blockStackingUpdates False (w\<lparr>active_client_recursion := active_client_recursion w - 1\<rparr>)
     })"

lemma leaveActive_result:
  "shape (leaveActive c w) = shape w" "block_stacking_updates (leaveActive c w) = block_stacking_updates w + 1"
  "marks (leaveActive c w) = (\<lambda>x. m_active (cl w x), active_client w, last_active_client w,
     active_client_recursion w + 1, m_activeClient (focus w))"
proof -
  let ?u = "blocked (closeForActive c w)"
  have u: "shape ?u = shape w" "marks ?u = marks w" "block_stacking_updates ?u = block_stacking_updates w + 1"
    using keeps_popup [where w = w and c = c] by (simp_all add: keeps_def)
  then show "shape (leaveActive c w) = shape w"
    "block_stacking_updates (leaveActive c w) = block_stacking_updates w + 1"
    by (simp_all add: leaveActive_def Let_def)
  show "marks (leaveActive c w) = (\<lambda>x. m_active (cl w x), active_client w, last_active_client w,
     active_client_recursion w + 1, m_activeClient (focus w))"
    using u(2) by (simp add: leaveActive_def Let_def marks_def fcall_def)
qed

lemma setActiveClient_parts:
  assumes "active_client w \<noteq> c"
  shows "run (SetActiveClient c, w) = Option.bind
    (case active_client w of None \<Rightarrow> Some (leaveActive c w) | Some a \<Rightarrow> run (SetActive a False, leaveActive c w))
    (enterActive c)"
proof -
  have "active_client (leaveActive c w) = active_client w"
    using leaveActive_result(3) [of c w] by (simp add: marks_def)
  moreover have "run (SetActiveClient c, w) = Option.bind
    (case active_client (leaveActive c w) of None \<Rightarrow> Some (leaveActive c w) | Some a \<Rightarrow> run (SetActive a False, leaveActive c w))
    (enterActive c)"
    unfolding leaveActive_def enterActive_def Let_def using assms
    by (subst run.simps) (simp add: focus_step_def setActiveClient_with_def blockStackingUpdates_True Let_def)
  ultimately show ?thesis by simp
qed

lemma enterActive_result:
  assumes ready: "ready K w" and c: "\<And>x. c = Some x \<Longrightarrow> x \<in> K \<and> m_active (cl w x)"
  shows "\<exists>v. enterActive c w = Some v \<and> shape v = shape w \<and> block_stacking_updates v = block_stacking_updates w - 1 \<and>
    marks v = (\<lambda>x. m_active (cl w x), c, if c = None then last_active_client w else c,
      active_client_recursion w - 1, c)"
proof -
  define w0 where "w0 = w\<lparr>active_client := c\<rparr>"
  have w0: "shape w0 = shape w" "block_stacking_updates w0 = block_stacking_updates w" by (simp_all add: w0_def)
  have r0: "ready K w0" by (rule shape_ready [OF w0(1) ready])
  have "\<exists>u. (case c of None \<Rightarrow> Some w0 | Some c \<Rightarrow> if m_active (cl w0 c) then newActiveClient c w0 else None) = Some u \<and>
      shape u = shape w \<and> block_stacking_updates u = block_stacking_updates w \<and>
      marks u = marks (w0\<lparr>last_active_client := if c = None then last_active_client w else c\<rparr>)"
  proof (cases c)
    case None
    then show ?thesis using w0 by (simp add: w0_def marks_def)
  next
    case (Some x)
    then have "x \<in> K" "m_active (cl w0 x)" using c by (simp_all add: w0_def)
    then show ?thesis using newActiveClient_result [OF r0, of x] Some w0 by simp
  qed
  then obtain w1 where w1:
    "(case c of None \<Rightarrow> Some w0 | Some c \<Rightarrow> if m_active (cl w0 c) then newActiveClient c w0 else None) = Some w1"
    "shape w1 = shape w" "block_stacking_updates w1 = block_stacking_updates w"
    "marks w1 = marks (w0\<lparr>last_active_client := if c = None then last_active_client w else c\<rparr>)" by blast
  have r1: "ready K w1" by (rule shape_ready [OF w1(2) ready])
  then have "stack_ok w1" by (simp add: ready_def)
  then obtain w2 where w2: "updateToolWindows False w1 = Some w2" "keeps w1 w2"
    "block_stacking_updates w2 = block_stacking_updates w1" using updateToolWindows_keeps by blast
  define w3 where "w3 = disableGlobalShortcutsForClient
    (case c of None \<Rightarrow> False | Some c \<Rightarrow> checkDisableGlobalShortcuts (prefs w2 c) False) w2"
  have w3: "keeps w2 w3" "block_stacking_updates w3 = block_stacking_updates w2"
    unfolding w3_def using keeps_disableGlobalShortcuts by blast+
  have k3: "keeps w1 w3" by (rule keeps_trans [OF w2(2) w3(1)])
  have "stack_ok w3" using keeps_ready [OF k3 r1] by (simp add: ready_def)
  then obtain w4 where w4: "updateStackingOrder False w3 = Some w4" "refreshes w3 w4"
    "block_stacking_updates w4 = block_stacking_updates w3" using updateStackingOrder_refreshes by blast
  have k4: "keeps w1 w4" by (rule keeps_trans [OF k3 refreshes_keeps [OF w4(2)]])
  define w5 where "w5 = (announceActive w4)\<lparr>active_client_recursion := active_client_recursion w4 - 1\<rparr>"
  have w5: "shape w5 = shape w4" "block_stacking_updates w5 = block_stacking_updates w4"
    by (simp_all add: w5_def announceActive_def Let_def)
  have s5: "shape w5 = shape w" using w5(1) k4 w1(2) by (simp add: keeps_def)
  have "stack_ok w5" using shape_ready [OF s5 ready] by (simp add: ready_def)
  then obtain v where v: "blockStackingUpdates False w5 = Some v" "refreshes w5 v"
    "block_stacking_updates v = block_stacking_updates w5 - 1" using unblock_refreshes by blast
  have "active_client_recursion (announceActive w4) = active_client_recursion w4"
    by (simp add: announceActive_def Let_def fcall_def)
  then have "enterActive c w = Some v"
    unfolding enterActive_def Let_def w0_def [symmetric]
    by (simp add: w1(1) w2(1) w3_def [symmetric] w4(1) w5_def [symmetric] v(1))
  moreover have "shape v = shape w" using refreshes_keeps [OF v(2)] s5 by (simp add: keeps_def)
  moreover have "block_stacking_updates v = block_stacking_updates w - 1"
    using v(3) w5(2) w4(3) w3(2) w2(3) w1(3) by simp
  moreover have "marks v = (\<lambda>x. m_active (cl w x), c, if c = None then last_active_client w else c,
      active_client_recursion w - 1, c)"
  proof -
    have "marks v = marks w5" using refreshes_keeps [OF v(2)] by (simp add: keeps_def)
    moreover have "marks w4 = marks w1" using k4 by (simp add: keeps_def)
    ultimately show ?thesis
      using w1(4)
      by (simp add: marks_def w5_def announceActive_def fc_setActiveClient_def fcall_def w0_def Let_def)
  qed
  ultimately show ?thesis by blast
qed

text \<open>The active window is the one that has the flag.\<close>

definition one_active :: "focus_world \<Rightarrow> bool" where
  "one_active w \<longleftrightarrow> (\<forall>x. m_active (cl w x) = (active_client w = Some x))"

lemma setActive_same: "m_active (cl w c) = act \<Longrightarrow> run (SetActive c act, w) = Some w"
  by (subst run.simps) (simp add: focus_step_def setActive_with_def)

lemma marks_active:
  "marks (upd_cl c (\<lambda>r. r\<lparr>m_active := b\<rparr>) w) = (\<lambda>x. if x = c then b else m_active (cl w x), active_client w,
     last_active_client w, active_client_recursion w, m_activeClient (focus w))"
  by (simp add: marks_def upd_cl_def fun_eq_iff)

lemma setActive_changes:
  assumes "m_active (cl w c) \<noteq> act"
    and u: "run (SetActiveClient (if act then Some c else None),
        fcall (SetOpacity c act) (upd_cl c (\<lambda>r. r\<lparr>m_active := act\<rparr>) w)) = Some u"
    and ready: "ready K u" "c \<in> K"
  shows "\<exists>v. run (SetActive c act, w) = Some v \<and> keeps u v \<and> block_stacking_updates v = block_stacking_updates u"
proof -
  define u1 where "u1 = (if \<not> m_active (cl u c) then do_call (CancelAutoRaise c) u else u)"
  define u2 where "u2 = (if \<not> m_active (cl u1 c) \<and> m_shade_mode (cl u1 c) = ShadeActivated
    then fcall (SetShade c ShadeNormal) u1 else u1)"
  have k: "keeps u u2" "block_stacking_updates u2 = block_stacking_updates u"
    by (simp_all add: u2_def u1_def keeps_def)
  obtain v where v: "relayerActive c u2 = Some v" "keeps u2 v" "block_stacking_updates v = block_stacking_updates u2"
    using relayerActive_keeps [OF keeps_ready [OF k(1) ready(1)] ready(2)] by blast
  have "run (SetActive c act, w) = Some v"
    using assms(1) v(1) unfolding u2_def u1_def
    by (subst run.simps) (simp add: focus_step_def setActive_with_def u [simplified] Let_def)
  then show ?thesis using keeps_trans [OF k(1) v(2)] v(3) k(2) by simp
qed

lemma deactivate_result:
  assumes ready: "ready K w" "a \<in> K" and a: "active_client w = Some a" "m_active (cl w a)"
  shows "\<exists>v. run (SetActive a False, w) = Some v \<and> shape v = shape w \<and>
    block_stacking_updates v = block_stacking_updates w \<and>
    marks v = (\<lambda>x. x \<noteq> a \<and> m_active (cl w x), None, last_active_client w, active_client_recursion w, None)"
proof -
  define u where "u = fcall (SetOpacity a False) (upd_cl a (\<lambda>r. r\<lparr>m_active := False\<rparr>) w)"
  have u: "shape u = shape w" "block_stacking_updates u = block_stacking_updates w"
    "marks u = (\<lambda>x. x \<noteq> a \<and> m_active (cl w x), Some a, last_active_client w, active_client_recursion w,
       m_activeClient (focus w))"
    by (simp_all add: u_def marks_active fun_eq_iff a(1))
  let ?l = "leaveActive None u"
  note l = leaveActive_result [of None u]
  have "\<not> m_active (cl ?l a)" using l(3) u(3) by (simp add: marks_def fun_eq_iff)
  then have same: "run (SetActive a False, ?l) = Some ?l" by (intro setActive_same) simp
  have "ready K ?l" by (rule shape_ready [OF _ ready(1)]) (simp add: l(1) u(1))
  then obtain v where v: "enterActive None ?l = Some v" "shape v = shape ?l"
    "block_stacking_updates v = block_stacking_updates ?l - 1"
    "marks v = (\<lambda>x. m_active (cl ?l x), None, last_active_client ?l, active_client_recursion ?l - 1, None)"
    using enterActive_result [of K ?l None] by auto
  have "active_client u = Some a" using u(3) by (simp add: marks_def)
  then have run: "run (SetActiveClient None, u) = Some v"
    using setActiveClient_parts [of u None] by (simp add: same v(1))
  have sv: "shape v = shape w" using v(2) l(1) u(1) by simp
  have rv: "ready K v" by (rule shape_ready [OF sv ready(1)])
  obtain z where z: "run (SetActive a False, w) = Some z" "keeps v z" "block_stacking_updates z = block_stacking_updates v"
    using setActive_changes [of w a False v K] run a(2) rv ready(2) by (auto simp: u_def)
  have "marks v = (\<lambda>x. x \<noteq> a \<and> m_active (cl w x), None, last_active_client w, active_client_recursion w, None)"
    using v(4) l(3) u(3) by (simp add: marks_def fun_eq_iff)
  then show ?thesis using z sv v(3) l(2) u(2) by (simp add: keeps_def)
qed

lemma activate_result:
  assumes ready: "ready K w" "c \<in> K" "\<And>a. active_client w = Some a \<Longrightarrow> a \<in> K"
    and one: "one_active w" and c: "active_client w \<noteq> Some c"
  shows "\<exists>v. run (SetActive c True, w) = Some v \<and> shape v = shape w \<and>
    block_stacking_updates v = block_stacking_updates w \<and>
    marks v = (\<lambda>x. x = c, Some c, Some c, active_client_recursion w, Some c)"
proof -
  define u where "u = fcall (SetOpacity c True) (upd_cl c (\<lambda>r. r\<lparr>m_active := True\<rparr>) w)"
  have u: "shape u = shape w" "block_stacking_updates u = block_stacking_updates w"
    "marks u = (\<lambda>x. x = c \<or> active_client w = Some x, active_client w, last_active_client w,
       active_client_recursion w, m_activeClient (focus w))"
    using one by (simp_all add: u_def marks_active fun_eq_iff one_active_def)
  let ?l = "leaveActive (Some c) u"
  note l = leaveActive_result [of "Some c" u]
  have rl: "ready K ?l" by (rule shape_ready [OF _ ready(1)]) (simp add: l(1) u(1))
  have ml: "marks ?l = (\<lambda>x. x = c \<or> active_client w = Some x, active_client w, last_active_client w,
       active_client_recursion w + 1, m_activeClient (focus w))"
    using l(3) u(3) by (simp add: marks_def)
  have "\<exists>d. (case active_client u of None \<Rightarrow> Some ?l | Some a \<Rightarrow> run (SetActive a False, ?l)) = Some d \<and>
      shape d = shape w \<and> block_stacking_updates d = block_stacking_updates w + 1 \<and>
      (\<forall>x. m_active (cl d x) = (x = c)) \<and> active_client_recursion d = active_client_recursion w + 1"
  proof (cases "active_client w")
    case None
    then show ?thesis using ml u l(1,2) by (simp add: marks_def fun_eq_iff)
  next
    case (Some a)
    then have "active_client ?l = Some a" "m_active (cl ?l a)" using ml by (auto simp: marks_def fun_eq_iff)
    then obtain d where d: "run (SetActive a False, ?l) = Some d" "shape d = shape ?l"
      "block_stacking_updates d = block_stacking_updates ?l"
      "marks d = (\<lambda>x. x \<noteq> a \<and> m_active (cl ?l x), None, last_active_client ?l, active_client_recursion ?l, None)"
      using deactivate_result [OF rl ready(3) [OF Some]] by blast
    then show ?thesis using Some c ml u l(1,2) by (auto simp: marks_def fun_eq_iff)
  qed
  then obtain d where d: "(case active_client u of None \<Rightarrow> Some ?l | Some a \<Rightarrow> run (SetActive a False, ?l)) = Some d"
    "shape d = shape w" "block_stacking_updates d = block_stacking_updates w + 1"
    "\<And>x. m_active (cl d x) = (x = c)" "active_client_recursion d = active_client_recursion w + 1" by blast
  have "ready K d" by (rule shape_ready [OF d(2) ready(1)])
  then obtain v where v: "enterActive (Some c) d = Some v" "shape v = shape d"
    "block_stacking_updates v = block_stacking_updates d - 1"
    "marks v = (\<lambda>x. m_active (cl d x), Some c, Some c, active_client_recursion d - 1, Some c)"
    using enterActive_result [of K d "Some c"] ready(2) d(4) by auto
  have "active_client u \<noteq> Some c" using u(3) c by (simp add: marks_def)
  then have run: "run (SetActiveClient (Some c), u) = Some v"
    by (simp only: setActiveClient_parts not_False_eq_True d(1) Option.bind.simps v(1))
  have sv: "shape v = shape w" using v(2) d(2) by simp
  have rv: "ready K v" by (rule shape_ready [OF sv ready(1)])
  have "\<not> m_active (cl w c)" using one c by (simp add: one_active_def)
  then obtain z where z: "run (SetActive c True, w) = Some z" "keeps v z" "block_stacking_updates z = block_stacking_updates v"
    using setActive_changes [of w c True v K] run rv ready(2) by (auto simp: u_def)
  then show ?thesis using sv v(3,4) d(3,4,5) by (simp add: keeps_def fun_eq_iff)
qed

text \<open>C9: Giving a managed window the activity ends and leaves one active window: in a session whose active
  client is the one window with the flag, \<open>setActive(true)\<close> comes back with that window as the
  active client and the only one with the flag, with the nesting of \<open>setActiveClient\<close> and the blocks of
  the stacking undone, and the session ready for the next change.\<close>

theorem setActive_one_active:
  assumes "ready K w" "c \<in> K" "\<And>a. active_client w = Some a \<Longrightarrow> a \<in> K" "one_active w"
  shows "\<exists>v. setActive c True w = Some v \<and> active_client v = Some c \<and> one_active v \<and> ready K v \<and>
    active_client_recursion v = active_client_recursion w \<and> block_stacking_updates v = block_stacking_updates w"
proof (cases "active_client w = Some c")
  case True
  then show ?thesis using assms setActive_same [of w c True] by (simp add: setActive_def one_active_def)
next
  case False
  then obtain v where v: "run (SetActive c True, w) = Some v" "shape v = shape w"
    "block_stacking_updates v = block_stacking_updates w"
    "marks v = (\<lambda>x. x = c, Some c, Some c, active_client_recursion w, Some c)"
    using activate_result [OF assms] by blast
  have "ready K v" by (rule shape_ready [OF v(2) assms(1)])
  then show ?thesis using v by (auto simp: setActive_def marks_def one_active_def fun_eq_iff)
qed

text \<open>C11: Taking the activity from a window ends and leaves no other window active: the active client
  becomes none when it was that window and stays when it was another.\<close>

theorem setActive_off:
  assumes "ready K w" "\<And>a. active_client w = Some a \<Longrightarrow> a \<in> K" "one_active w"
  shows "\<exists>v. setActive c False w = Some v \<and> one_active v \<and> ready K v \<and>
    active_client v = (if active_client w = Some c then None else active_client w) \<and>
    active_client_recursion v = active_client_recursion w \<and> block_stacking_updates v = block_stacking_updates w"
proof (cases "active_client w = Some c")
  case True
  then obtain v where v: "run (SetActive c False, w) = Some v" "shape v = shape w"
    "block_stacking_updates v = block_stacking_updates w"
    "marks v = (\<lambda>x. x \<noteq> c \<and> m_active (cl w x), None, last_active_client w, active_client_recursion w, None)"
    using deactivate_result [OF assms(1) assms(2) [OF True] True] assms(3) by (auto simp: one_active_def)
  have "ready K v" by (rule shape_ready [OF v(2) assms(1)])
  then show ?thesis using v True assms(3) by (auto simp: setActive_def marks_def one_active_def fun_eq_iff)
next
  case False
  then show ?thesis using assms setActive_same [of w c False] by (simp add: setActive_def one_active_def)
qed

lemma three_windows_ready: "ready {1, 2, 3} three_windows" "one_active three_windows"
proof -
  have layers: "layers_known three_windows"
    unfolding layers_known_def by (simp add: layer_value_def belongsToLayer_known isClient_def three_windows_def
        wm.defs world.defs empty_session_def sample_client_def plain_client_def)
  show "ready {1, 2, 3} three_windows"
    using layers by (simp add: ready_def stack_ok_def transients_ok_def client_set_def isClient_def group_members_def
        three_windows_def wm.defs world.defs empty_session_def sample_client_def plain_client_def)
  show "one_active three_windows"
    by (auto simp: one_active_def three_windows_def wm.defs world.defs empty_session_def sample_client_def)
qed

lemma setActive_one_active_witness:
  "\<exists>v. setActive 2 True three_windows = Some v \<and> active_client v = Some 2 \<and> one_active v"
  using setActive_one_active [of "{1, 2, 3}" three_windows 2] three_windows_ready
  by (auto simp: three_windows_def wm.defs world.defs empty_session_def)

lemma setActive_off_witness:
  "\<exists>v. setActive 1 False three_windows = Some v \<and> active_client v = None \<and> one_active v"
  using setActive_off [of "{1, 2, 3}" three_windows 1] three_windows_ready
  by (auto simp: three_windows_def wm.defs world.defs empty_session_def)

section \<open>Layers that are out of date\<close>

text \<open>C13: \<open>updateLayer\<close> ends, whatever layers are cached: among managed windows that are transient for
  each other in no circle, it comes back with the blocks of the stacking undone and nothing changed but
  the order and the cached layers.  When the layer cached for the window is out of date, the layers of the
  window and of all its transients are the ones they belong to afterwards, or none, to be computed when they
  are asked for.  When it is not, nothing happens: the transients, stale or not, are not looked at.  No
  layer that was right becomes wrong.\<close>

theorem updateLayer_ends:
  assumes "stack_ok w" "client_set w K" "c \<in> K"
  shows "\<exists>v. updateLayer c w = Some v \<and> core v = core w \<and> block_stacking_updates v = block_stacking_updates w \<and>
    fresh v c \<and> (\<not> fresh w c \<longrightarrow> (\<forall>t\<in>set (m_transients (cl w c)). fresh v t)) \<and>
    (fresh w c \<longrightarrow> v = snd (read_layer c w)) \<and> (\<forall>x. fresh w x \<longrightarrow> fresh v x)"
proof -
  have "isClient w c" using assms(2,3) by (simp add: client_set_def)
  then show ?thesis using updateLayer_result [OF assms] updateLayer_early [of w c] unfolding refreshes_def by auto
qed

lemma updateLayer_ends_witness:
  "\<exists>v. updateLayer 1 (upd_cl 1 (\<lambda>r. r\<lparr>m_layer := BelowLayer\<rparr>) three_windows) = Some v \<and> fresh v 1 \<and>
     block_stacking_updates v = 0"
proof -
  let ?w = "upd_cl 1 (\<lambda>r. r\<lparr>m_layer := BelowLayer\<rparr>) three_windows"
  have client: "isClient three_windows 1" by code_simp
  have eq: "core ?w = core three_windows" by (rule core_layer [OF client])
  have ready: "stack_ok three_windows" "client_set three_windows {1, 2, 3}"
    using three_windows_ready(1) by (simp_all add: ready_def)
  have "stack_ok ?w" "client_set ?w {1, 2, 3}"
    by (rule core_stack_ok [OF eq ready(1)]) (simp only: core_client_set [OF eq] ready(2))
  moreover have "block_stacking_updates ?w = 0" by (simp add: three_windows_def wm.defs world.defs empty_session_def)
  ultimately show ?thesis using updateLayer_ends [of ?w "{1, 2, 3}" 1] by auto
qed

section \<open>The focus arrives\<close>

lemma ready_waiting [simp]:
  "ready K (w\<lparr>should_get_focus := xs\<rparr>) = ready K w" "ready K (w\<lparr>focus_out_timer := t\<rparr>) = ready K w"
proof -
  have *: "ready K v"
    if w: "ready K w" and same: "cl v = cl w" "unconstrained_stacking_order v = unconstrained_stacking_order w"
      "clients v = clients w" "grp v = grp w" "root_window v = root_window w" for v w
  proof -
    have "layers_known v" using w
      by (auto simp: ready_def stack_ok_def layers_known_def layer_value_def isClient_def same belongsToLayer_known
          split: if_splits)
    moreover have "group_members v = group_members w" "transients_ok v = transients_ok w"
      by (simp_all add: fun_eq_iff group_members_def transients_ok_def same cong: option.case_cong)
    ultimately show ?thesis
      using w by (simp add: ready_def stack_ok_def client_set_def isClient_def same)
  qed
  show "ready K (w\<lparr>should_get_focus := xs\<rparr>) = ready K w"
    using * [of w "w\<lparr>should_get_focus := xs\<rparr>"] * [of "w\<lparr>should_get_focus := xs\<rparr>" w] by auto
  show "ready K (w\<lparr>focus_out_timer := t\<rparr>) = ready K w"
    using * [of w "w\<lparr>focus_out_timer := t\<rparr>"] * [of "w\<lparr>focus_out_timer := t\<rparr>" w] by auto
qed

text \<open>C10: A window that was asked to take the focus gets it when its FocusIn event arrives, at every level
  of focus stealing prevention: the event is handled to the end, the
  window is the active one, and it and the windows asked before it no longer wait for the focus.\<close>

theorem focus_arrives:
  assumes "ready K w" "c \<in> K" "\<And>a. active_client w = Some a \<Longrightarrow> a \<in> K" "one_active w"
    and "should_get_focus w = before @ c # after" "c \<notin> set before"
    and "isShown w c False" "isOnCurrentDesktop w c" "userTime w c \<noteq> None"
  shows "\<exists>v. focusInEvent c True w = Some v \<and> active_client v = Some c \<and> one_active v \<and>
    should_get_focus v = after"
proof -
  define w1 where "w1 = w\<lparr>focus_out_timer :=
    \<lambda>x. if x \<in> set (clients w) \<or> x \<in> set (desktops w) then False else focus_out_timer w x\<rparr>"
  have w1: "userTime w1 c = userTime w c" "should_get_focus w1 = should_get_focus w"
    by (simp_all add: w1_def userTime_def isClient_def cong: if_cong option.case_cong)
  have allowed: "allowClientActivation w1 c (- 1) True False = Some True"
    using assms(5,9) w1 by (auto simp: allowClientActivation_def activation_allowed_def Let_def)
  let ?w = "gotFocusIn c w1"
  have drop: "dropWhile (\<lambda>x. x \<noteq> c) (before @ c # after) = c # after"
    using assms(6) by (induction before) auto
  have w: "?w = w1\<lparr>should_get_focus := after\<rparr>"
    using assms(5) by (simp add: gotFocusIn_def w1(2) drop)
  have "ready K w1" unfolding w1_def using assms(1) by simp
  then have "ready K ?w" unfolding w by simp
  moreover have act: "active_client ?w = active_client w" "cl ?w = cl w" unfolding w by (simp_all add: w1_def)
  moreover have "one_active ?w" using assms(4) by (simp add: one_active_def act)
  ultimately have "\<exists>v. run (SetActive c True, ?w) = Some v \<and> active_client v = Some c \<and> one_active v \<and>
      should_get_focus v = after"
  proof (cases "active_client w = Some c")
    case True
    then show ?thesis using setActive_same [of ?w c True] \<open>one_active ?w\<close> act by (auto simp: one_active_def w)
  next
    case False
    then obtain v where v: "run (SetActive c True, ?w) = Some v" "shape v = shape ?w"
      "marks v = (\<lambda>x. x = c, Some c, Some c, active_client_recursion ?w, Some c)"
      using activate_result [of K ?w c] \<open>ready K ?w\<close> \<open>one_active ?w\<close> act assms(2,3) by auto
    then show ?thesis using shape_sel(3) [OF v(2)] by (auto simp: marks_def one_active_def fun_eq_iff w)
  qed
  moreover have "focusInEvent c True w = run (SetActive c True, ?w)"
    using assms(7,8) by (simp add: focusInEvent_def w1_def [symmetric] allowed setActive_def Let_def)
  ultimately show ?thesis by simp
qed

lemma focus_arrives_witness:
  "\<exists>v. focusInEvent 2 True (three_windows\<lparr>should_get_focus := [3, 2]\<rparr>) = Some v \<and> active_client v = Some 2 \<and>
     should_get_focus v = []"
proof -
  let ?w = "three_windows\<lparr>should_get_focus := [3, 2]\<rparr>"
  have shown: "userTime ?w 2 = Some 1000" "isShown ?w 2 False" "isOnCurrentDesktop ?w 2" by code_simp+
  have active: "active_client ?w = Some 1" by (simp add: three_windows_def wm.defs world.defs)
  have one: "one_active ?w" using three_windows_ready(2) by (simp add: one_active_def)
  have ready: "ready {1, 2, 3} ?w" using three_windows_ready(1) by simp
  have "\<exists>v. focusInEvent 2 True ?w = Some v \<and> active_client v = Some 2 \<and> one_active v \<and> should_get_focus v = []"
    by (rule focus_arrives [OF ready _ _ one, where before = "[3]"]) (use active in \<open>simp_all add: shown\<close>)
  then show ?thesis by blast
qed

end
