(* ===== verification/KeepFacts.thy ===== *)
theory KeepFacts
  imports FocusFacts
begin

text \<open>
  Keeping windows above or below the others: the two flags exclude each other, the tabs of a group
  get them together, and setting them ends although every tab that is changed has the group
  change the others in turn.
\<close>

section \<open>Keeping above and below\<close>

lemma stack_ok_same:
  assumes "stack_ok w" "unconstrained_stacking_order v = unconstrained_stacking_order w"
    and "\<And>c. kind (cl v c) = kind (cl w c)" "\<And>c. m_layer (cl v c) = m_layer (cl w c)"
    and "\<And>c. m_transients (cl v c) = m_transients (cl w c)" "\<And>c. m_transientFor (cl v c) = m_transientFor (cl w c)"
  shows "stack_ok v"
proof -
  have "layer_value v c \<noteq> UnknownLayer" if "layer_value w c \<noteq> UnknownLayer" for c
    using that belongsToLayer_known by (auto simp: layer_value_def isClient_def assms split: if_splits)
  then show ?thesis using assms(1) by (simp add: stack_ok_def layers_known_def transients_ok_def assms(2,5,6))
qed

lemma flags_core:
  assumes "core v = core w"
  shows "keepFlag v h x = keepFlag w h x" "checkKeep v h x = checkKeep w h x"
proof -
  obtain f where "cl v = (\<lambda>c. (cl w c)\<lparr>m_layer := f c\<rparr>)" using core_cl [OF assms] by blast
  then show "keepFlag v h x = keepFlag w h x" "checkKeep v h x = checkKeep w h x"
    by (simp_all add: keepFlag_def checkKeep_def fun_eq_iff)
qed

lemma hintState_sel [simp]:
  "cl (hintState h c w) = cl w" "unconstrained_stacking_order (hintState h c w) = unconstrained_stacking_order w"
  "block_stacking_updates (hintState h c w) = block_stacking_updates w"
  "tab_clients (hintState h c w) = tab_clients w" "tab_updates_blocked (hintState h c w) = tab_updates_blocked w"
  by (simp_all add: hintState_def Let_def do_call_def)

text \<open>What a change of the flags keeps.\<close>

definition flags_ok :: "win set \<Rightarrow> focus_world \<Rightarrow> bool" where
  "flags_ok K w \<longleftrightarrow> stack_ok w \<and> client_set w K"

definition kept :: "win set \<Rightarrow> focus_world \<Rightarrow> focus_world \<Rightarrow> bool" where
  "kept K w v \<longleftrightarrow> flags_ok K v \<and> checkKeep v = checkKeep w \<and> layerTabs v = layerTabs w \<and>
     block_stacking_updates v = block_stacking_updates w"

lemma kept_refl: "flags_ok K w \<Longrightarrow> kept K w w"
  by (simp add: kept_def)

lemma kept_trans: "kept K u v \<Longrightarrow> kept K v w \<Longrightarrow> kept K u w"
  by (simp add: kept_def)

lemma kept_ok: "kept K w v \<Longrightarrow> flags_ok K v"
  by (simp add: kept_def)

lemma tabs_same:
  assumes "tab_clients v = tab_clients w" "tab_updates_blocked v = tab_updates_blocked w"
    and "\<And>x. tab_group (cl v x) = tab_group (cl w x)"
  shows "layerTabs v = layerTabs w"
  by (intro ext) (simp add: layerTabs_def assms cong: option.case_cong if_cong)

lemma tabs_core:
  assumes "core v = core w"
  shows "layerTabs v = layerTabs w"
proof -
  obtain f where "cl v = (\<lambda>c. (cl w c)\<lparr>m_layer := f c\<rparr>)" using core_cl [OF assms] by blast
  moreover have "tab_clients v = tab_clients w" "tab_updates_blocked v = tab_updates_blocked w"
    using arg_cong [OF assms, of tab_clients] arg_cong [OF assms, of tab_updates_blocked] by (simp_all add: core_def)
  ultimately show ?thesis by (intro tabs_same) simp_all
qed

lemma kept_same:
  assumes "flags_ok K w" "core v = core w" "block_stacking_updates v = block_stacking_updates w"
  shows "kept K w v" "keepFlag v = keepFlag w"
proof -
  have "flags_ok K v"
    using assms(1) core_stack_ok [OF assms(2)] core_client_set [OF assms(2)] by (simp add: flags_ok_def)
  then show "kept K w v"
    using assms(3) flags_core(2) [OF assms(2)] by (simp add: kept_def fun_eq_iff tabs_core [OF assms(2)])
  show "keepFlag v = keepFlag w" using flags_core(1) [OF assms(2)] by (simp add: fun_eq_iff)
qed

lemma hint_result:
  assumes "flags_ok K w"
  shows "kept K w (hintState h c w) \<and> keepFlag (hintState h c w) = keepFlag w"
proof -
  have "stack_ok (hintState h c w)" by (rule stack_ok_same [of w]) (use assms in \<open>simp_all add: flags_ok_def\<close>)
  moreover have "layerTabs (hintState h c w) = layerTabs w" by (rule tabs_same) simp_all
  ultimately show ?thesis
    using assms by (simp add: kept_def flags_ok_def client_set_def isClient_def fun_eq_iff checkKeep_def keepFlag_def)
qed

lemma keepFlagChanged_result:
  assumes "flags_ok K w" "c \<in> K"
  shows "\<exists>v. keepFlagChanged h c b w = Some v \<and> kept K w v \<and>
    (\<forall>g x. keepFlag v g x = (if g = h \<and> x = c then b else keepFlag w g x))"
proof -
  define u where "u = hintState h c (upd_cl c (\<lambda>r. if h then r\<lparr>m_keepAbove := b\<rparr> else r\<lparr>m_keepBelow := b\<rparr>) w)"
  have cl: "cl u = (cl w)(c := if h then (cl w c)\<lparr>m_keepAbove := b\<rparr> else (cl w c)\<lparr>m_keepBelow := b\<rparr>)"
    by (simp add: u_def upd_cl_def)
  have "stack_ok w" using assms(1) by (simp add: flags_ok_def)
  then have ok: "stack_ok u"
    by (rule stack_ok_same) (simp_all add: cl, simp add: u_def)
  have K: "client_set u K"
    using assms(1) by (simp add: flags_ok_def client_set_def isClient_def cl)
  obtain v where v: "updateLayer c u = Some v" "refreshes u v" "block_stacking_updates v = block_stacking_updates u"
    using updateLayer_result [OF ok K assms(2)] by blast
  let ?v = "do_call (UpdateWindowRules c (if h then ''Above'' else ''Below'')) v"
  have core: "core ?v = core u" using refreshes_core [OF v(2)] by simp
  have *: "kept K u ?v" "keepFlag ?v = keepFlag u"
    using kept_same [OF _ core] ok K v(3) by (simp_all add: flags_ok_def)
  have flag: "keepFlag u g x = (if g = h \<and> x = c then b else keepFlag w g x)" for g x
    by (simp add: keepFlag_def cl)
  have "checkKeep u = checkKeep w" by (simp add: fun_eq_iff checkKeep_def cl)
  moreover have "layerTabs u = layerTabs w"
  proof -
    have "tab_clients u = tab_clients w" "tab_updates_blocked u = tab_updates_blocked w"
      by (simp_all add: u_def upd_cl_def)
    then show ?thesis by (rule tabs_same) (simp add: cl)
  qed
  moreover have "block_stacking_updates u = block_stacking_updates w" by (simp add: u_def)
  ultimately have "kept K w ?v" using *(1) by (simp add: kept_def)
  moreover have "keepFlagChanged h c b w = Some ?v"
    using v(1) by (simp add: keepFlagChanged_def u_def [symmetric] Let_def)
  ultimately show ?thesis using *(2) flag by (intro exI [of _ ?v]) simp
qed

section \<open>One flag for all tabs\<close>

text \<open>What \<open>setKeep\<close> does after the other flag was taken back.\<close>

definition shareFlags :: "win \<Rightarrow> win \<Rightarrow> focus_world \<Rightarrow> focus_world option" where
  "shareFlags c d w =
     do {
       w \<leftarrow> (if keepFlag w True d \<noteq> keepFlag w True c then setKeep True d (keepFlag w True c) w else Some w);
       if keepFlag w False d \<noteq> keepFlag w False c then setKeep False d (keepFlag w False c) w else Some w
     }"

definition keepTail :: "bool \<Rightarrow> win \<Rightarrow> bool \<Rightarrow> focus_world \<Rightarrow> focus_world option" where
  "keepTail h c b w =
     (if b = keepFlag w h c
      then Some (if (if h then net_keepAbove w c else net_keepBelow w c) \<noteq> b then hintState h c w else w)
      else do {
        w \<leftarrow> keepFlagChanged h c b w;
        w \<leftarrow> foldM (shareFlags c) (layerTabs w c) (layerDue c w);
        Some (do_call (if h then KeepAboveChanged c (keepFlag w h c) else KeepBelowChanged c (keepFlag w h c)) w)
      })"

lemma setKeep_step:
  "setKeep h c b w =
     Option.bind (if checkKeep w h c b \<and> \<not> checkKeep w (\<not> h) c False then setKeep (\<not> h) c False w else Some w)
       (keepTail h c (checkKeep w h c b))"
proof -
  have "shareFlags c = (\<lambda>d w. Option.bind
      (if keepFlag w True d \<noteq> keepFlag w True c then setKeep True d (keepFlag w True c) w else Some w)
      (\<lambda>w. if keepFlag w False d \<noteq> keepFlag w False c then setKeep False d (keepFlag w False c) w else Some w))"
    by (simp add: fun_eq_iff shareFlags_def)
  then show ?thesis
    by (subst setKeep.simps) (simp only: Let_def keepTail_def [abs_def])
qed

lemma keepTail_already:
  assumes "flags_ok K w" "keepFlag w h c = b"
  shows "\<exists>v. keepTail h c b w = Some v \<and> kept K w v \<and> keepFlag v = keepFlag w"
  using hint_result [OF assms(1), of h c] kept_refl [OF assms(1)] assms(2) by (simp add: keepTail_def)

text \<open>No flag has to be taken back: a rule keeps the other one, or it is not set.\<close>

definition no_rival :: "focus_world \<Rightarrow> bool \<Rightarrow> win \<Rightarrow> bool \<Rightarrow> bool" where
  "no_rival w h c b \<longleftrightarrow> (b \<longrightarrow> checkKeep w (\<not> h) c False \<or> \<not> keepFlag w (\<not> h) c)"

lemma setKeep_no_rival:
  assumes "flags_ok K w" "checkKeep w h c b = b" "no_rival w h c b"
  shows "\<exists>u. setKeep h c b w = keepTail h c b u \<and> kept K w u \<and> keepFlag u = keepFlag w"
proof (cases "b \<and> \<not> checkKeep w (\<not> h) c False")
  case True
  obtain u where u: "keepTail (\<not> h) c False w = Some u" "kept K w u" "keepFlag u = keepFlag w"
    using keepTail_already [OF assms(1), of "\<not> h" c False] assms(3) True by (auto simp: no_rival_def)
  have "setKeep (\<not> h) c False w = Some u"
    using True u(1) by (subst setKeep_step) simp
  then show ?thesis using u(2,3) True assms(2) by (subst setKeep_step) auto
next
  case False
  then have "setKeep h c b w = keepTail h c b w" using assms(2) by (subst setKeep_step) auto
  then show ?thesis using kept_refl [OF assms(1)] by auto
qed


text \<open>Every window of the set has the others as the tabs its flags go to.\<close>

definition tab_set :: "win set \<Rightarrow> win set \<Rightarrow> focus_world \<Rightarrow> bool" where
  "tab_set K T w \<longleftrightarrow> flags_ok K w \<and> T \<subseteq> K \<and> (\<forall>x\<in>T. set (layerTabs w x) = T - {x})"

lemma tab_set_kept: "tab_set K T w \<Longrightarrow> kept K w v \<Longrightarrow> tab_set K T v"
  by (simp add: tab_set_def kept_def)

text \<open>The windows of \<open>T\<close> may get the flag \<open>h\<close> with the value \<open>b\<close>, with nothing else to change.\<close>

definition may_get :: "win set \<Rightarrow> bool \<Rightarrow> bool \<Rightarrow> focus_world \<Rightarrow> bool" where
  "may_get T h b w \<longleftrightarrow>
     (\<forall>x\<in>T. checkKeep w h x b = b \<and> no_rival w h x b) \<and> (\<forall>x\<in>T. \<forall>y\<in>T. keepFlag w (\<not> h) x = keepFlag w (\<not> h) y)"

definition flags_given :: "win set \<Rightarrow> bool \<Rightarrow> bool \<Rightarrow> focus_world \<Rightarrow> focus_world \<Rightarrow> bool" where
  "flags_given S h b w v \<longleftrightarrow> (\<forall>g x. keepFlag v g x = (if g = h \<and> x \<in> S then b else keepFlag w g x))"

lemma may_getI:
  assumes "\<And>x. x \<in> T \<Longrightarrow> checkKeep w h x b = b" "\<And>x. x \<in> T \<Longrightarrow> no_rival w h x b"
    and "\<And>x y. x \<in> T \<Longrightarrow> y \<in> T \<Longrightarrow> keepFlag w (\<not> h) x = keepFlag w (\<not> h) y"
  shows "may_get T h b w"
  unfolding may_get_def using assms by blast

lemma may_get_kept:
  assumes "may_get T h b w" "kept K w v" "\<And>x. keepFlag v (\<not> h) x = keepFlag w (\<not> h) x"
  shows "may_get T h b v"
proof -
  have "checkKeep v = checkKeep w" using assms(2) by (simp add: kept_def)
  then show ?thesis using assms(1) by (simp only: may_get_def no_rival_def assms(3))
qed

lemma flags_given_trans:
  "flags_given S h b u v \<Longrightarrow> flags_given S' h b v w \<Longrightarrow> flags_given (S \<union> S') h b u w"
  by (auto simp: flags_given_def)

definition lacking :: "win set \<Rightarrow> bool \<Rightarrow> bool \<Rightarrow> focus_world \<Rightarrow> win set" where
  "lacking T h b w = {x \<in> T. keepFlag w h x \<noteq> b}"

text \<open>One tab follows the window the change began with.\<close>

lemma shareFlags_result:
  assumes tabs: "tab_set K T w" and may: "may_get T h b w" and cd: "c \<in> T" "d \<in> T" "keepFlag w h c = b"
    and IH: "\<And>u. tab_set K T u \<Longrightarrow> may_get T h b u \<Longrightarrow> keepFlag u = keepFlag w \<Longrightarrow> keepFlag u h d \<noteq> b \<Longrightarrow>
      \<exists>v. keepTail h d b u = Some v \<and> kept K u v \<and> flags_given T h b u v"
  shows "\<exists>v S. shareFlags c d w = Some v \<and> kept K w v \<and> S \<subseteq> T \<and> d \<in> S \<and> flags_given S h b w v"
proof -
  have ok: "flags_ok K w" using tabs by (simp add: tab_set_def)
  have other: "keepFlag w (\<not> h) d = keepFlag w (\<not> h) c" using may cd(1,2) unfolding may_get_def by blast
  show ?thesis
  proof (cases "keepFlag w h d = b")
    case True
    then have "shareFlags c d w = Some w" using other cd(3) by (cases h) (simp_all add: shareFlags_def)
    moreover have "flags_given {d} h b w w" using True by (simp add: flags_given_def)
    ultimately show ?thesis using kept_refl [OF ok] cd(2) by blast
  next
    case False
    have "checkKeep w h d b = b" "no_rival w h d b" using may cd(2) unfolding may_get_def by blast+
    then obtain u where u: "setKeep h d b w = keepTail h d b u" "kept K w u" "keepFlag u = keepFlag w"
      using setKeep_no_rival [OF ok] by blast
    obtain v where v: "keepTail h d b u = Some v" "kept K u v" "flags_given T h b u v"
      using IH [OF tab_set_kept [OF tabs u(2)] may_get_kept [OF may u(2)] u(3)] u(3) False by auto
    have set: "setKeep h d b w = Some v" using u(1) v(1) by simp
    have given: "flags_given T h b w v" using v(3) u(3) by (simp add: flags_given_def)
    then have "keepFlag v (\<not> h) d = keepFlag v (\<not> h) c" "keepFlag v h c = b" "keepFlag v h d = b"
      using other cd by (simp_all add: flags_given_def)
    then have "shareFlags c d w = Some v"
      using set other cd(3) False by (cases h) (simp_all add: shareFlags_def)
    then show ?thesis using kept_trans [OF u(2) v(2)] given cd(2) by blast
  qed
qed

lemma shareFlags_fold:
  assumes "tab_set K T w" "may_get T h b w" "c \<in> T" "keepFlag w h c = b" "set ds \<subseteq> T"
    and IH: "\<And>u d. tab_set K T u \<Longrightarrow> may_get T h b u \<Longrightarrow> d \<in> T \<Longrightarrow> keepFlag u h d \<noteq> b \<Longrightarrow>
      lacking T h b u \<subseteq> L \<Longrightarrow> \<exists>v. keepTail h d b u = Some v \<and> kept K u v \<and> flags_given T h b u v"
    and "lacking T h b w \<subseteq> L"
  shows "\<exists>v S. foldM (shareFlags c) ds w = Some v \<and> kept K w v \<and> S \<subseteq> T \<and> set ds \<subseteq> S \<and> flags_given S h b w v"
  using assms(1-5,7)
proof (induction ds arbitrary: w)
  case Nil
  then show ?case
    by (intro exI [of _ w] exI [of _ "{}"]) (simp add: kept_refl tab_set_def flags_given_def)
next
  case (Cons d ds)
  have d: "d \<in> T" "set ds \<subseteq> T" using Cons.prems(5) by simp_all
  have "\<exists>v. keepTail h d b u = Some v \<and> kept K u v \<and> flags_given T h b u v"
    if "tab_set K T u" "may_get T h b u" "keepFlag u = keepFlag w" "keepFlag u h d \<noteq> b" for u
    using IH [OF that(1,2) d(1) that(4)] that(3) Cons.prems(6) by (simp add: lacking_def)
  from shareFlags_result [OF Cons.prems(1,2,3) d(1) Cons.prems(4) this]
  obtain u S where u: "shareFlags c d w = Some u" "kept K w u" "S \<subseteq> T" "d \<in> S" "flags_given S h b w u" by blast
  have "tab_set K T u" "may_get T h b u" "keepFlag u h c = b" "lacking T h b u \<subseteq> L"
    using tab_set_kept [OF Cons.prems(1) u(2)] may_get_kept [OF Cons.prems(2) u(2)] u(5) Cons.prems(4,6)
    by (auto simp: flags_given_def lacking_def)
  from Cons.IH [OF this(1,2) Cons.prems(3) this(3) d(2) this(4)]
  obtain v S' where v: "foldM (shareFlags c) ds u = Some v" "kept K u v" "S' \<subseteq> T" "set ds \<subseteq> S'" "flags_given S' h b u v" by blast
  have "foldM (shareFlags c) (d # ds) w = Some v" using u(1) v(1) by simp
  moreover have "kept K w v" by (rule kept_trans [OF u(2) v(2)])
  moreover have "S \<union> S' \<subseteq> T" "set (d # ds) \<subseteq> S \<union> S'" using u(3,4) v(3,4) by auto
  ultimately show ?case using flags_given_trans [OF u(5) v(5)] by blast
qed

lemma layerDue_result:
  assumes "flags_ok K w"
  shows "kept K w (layerDue c w) \<and> keepFlag (layerDue c w) = keepFlag w"
proof -
  have "core (layerDue c w) = core w" "block_stacking_updates (layerDue c w) = block_stacking_updates w"
    by (simp_all add: layerDue_def split: option.splits)
  from kept_same [OF assms this] show ?thesis by (rule conjI)
qed

lemma keepTail_result:
  assumes "tab_set K T w" "may_get T h b w" "c \<in> T" "keepFlag w h c \<noteq> b"
  shows "\<exists>v. keepTail h c b w = Some v \<and> kept K w v \<and> flags_given T h b w v"
  using assms
proof (induction "card (lacking T h b w)" arbitrary: w c rule: less_induct)
  case less
  have K: "flags_ok K w" "T \<subseteq> K" using less.prems(1) by (simp_all add: tab_set_def)
  then have fin: "finite (lacking T h b w)"
    using finite_subset [of "lacking T h b w" K] by (auto simp: flags_ok_def client_set_def lacking_def)
  obtain x where x: "keepFlagChanged h c b w = Some x" "kept K w x"
    "\<And>g y. keepFlag x g y = (if g = h \<and> y = c then b else keepFlag w g y)"
    using keepFlagChanged_result [OF K(1), of c h b] K(2) less.prems(3) by blast
  let ?u = "layerDue c x"
  have u: "kept K w ?u" "keepFlag ?u = keepFlag x"
    using layerDue_result [OF kept_ok [OF x(2)], of c] kept_trans [OF x(2)] by auto
  have tabs: "tab_set K T ?u" by (rule tab_set_kept [OF less.prems(1) u(1)])
  have may: "may_get T h b ?u" by (rule may_get_kept [OF less.prems(2) u(1)]) (simp add: u(2) x(3))
  have lack: "lacking T h b ?u = lacking T h b w - {c}" by (auto simp: lacking_def u(2) x(3))
  have c: "c \<in> lacking T h b w" using less.prems(3,4) by (simp add: lacking_def)
  have IH: "\<exists>v. keepTail h d b y = Some v \<and> kept K y v \<and> flags_given T h b y v"
    if "tab_set K T y" "may_get T h b y" "d \<in> T" "keepFlag y h d \<noteq> b" "lacking T h b y \<subseteq> lacking T h b w - {c}" for y d
  proof (rule less.hyps [OF _ that(1-4)])
    show "card (lacking T h b y) < card (lacking T h b w)"
      using that(5) c by (intro psubset_card_mono [OF fin]) blast
  qed
  have set: "set (layerTabs x c) = T - {c}"
    using less.prems(1,3) x(2) by (simp add: tab_set_def kept_def)
  obtain v S where v: "foldM (shareFlags c) (layerTabs x c) ?u = Some v" "kept K ?u v" "S \<subseteq> T"
    "set (layerTabs x c) \<subseteq> S" "flags_given S h b ?u v"
  proof -
    have "keepFlag ?u h c = b" "set (layerTabs x c) \<subseteq> T" "lacking T h b ?u \<subseteq> lacking T h b w - {c}"
      using set lack x(3) u(2) by auto
    from shareFlags_fold [OF tabs may less.prems(3) this(1,2) IH this(3)] show thesis using that by blast
  qed
  let ?v = "do_call (if h then KeepAboveChanged c (keepFlag v h c) else KeepBelowChanged c (keepFlag v h c)) v"
  have "keepTail h c b w = Some ?v"
    using less.prems(4) x(1) v(1) by (simp add: keepTail_def)
  moreover have "kept K w ?v" "keepFlag ?v = keepFlag v"
    using kept_same [OF kept_ok [OF v(2)], of ?v] kept_trans [OF kept_trans [OF u(1) v(2)]] by simp_all
  moreover have "flags_given T h b w v"
    using v(3-5) set less.prems(3) by (auto simp: flags_given_def u(2) x(3))
  ultimately show ?case by (intro exI [of _ ?v]) (simp add: flags_given_def)
qed

section \<open>The flags exclude each other\<close>

text \<open>The tabs of a group before a change: they agree on both flags and on what their rules make of them.\<close>

definition tabs_alike :: "win set \<Rightarrow> focus_world \<Rightarrow> bool" where
  "tabs_alike T w \<longleftrightarrow> (\<forall>x\<in>T. \<forall>y\<in>T. \<forall>h. keepFlag w h x = keepFlag w h y \<and> checkKeep w h x = checkKeep w h y) \<and>
     (\<forall>x\<in>T. \<forall>h b. checkKeep w h x (checkKeep w h x b) = checkKeep w h x b)"

lemma tabs_alikeD:
  assumes "tabs_alike T w" "x \<in> T" "c \<in> T"
  shows "keepFlag w h x = keepFlag w h c" "checkKeep w h x = checkKeep w h c"
    "checkKeep w h x (checkKeep w h c b) = checkKeep w h c b"
  using assms unfolding tabs_alike_def by (blast, blast, metis)

text \<open>A flag of all tabs, set or cleared where nothing else has to change.\<close>

lemma keepTail_all:
  assumes "tab_set K T w" "may_get T h b w" "c \<in> T" "\<And>x. x \<in> T \<Longrightarrow> keepFlag w h x = keepFlag w h c"
  shows "\<exists>v. keepTail h c b w = Some v \<and> kept K w v \<and> flags_given T h b w v"
proof (cases "keepFlag w h c = b")
  case True
  have "flags_ok K w" using assms(1) by (simp add: tab_set_def)
  from keepTail_already [OF this True] show ?thesis
    using assms(4) True by (auto simp: flags_given_def)
next
  case False
  then show ?thesis by (rule keepTail_result [OF assms(1-3)])
qed

lemma take_back_result:
  assumes "tab_set K T w" "tabs_alike T w" "c \<in> T" "\<not> checkKeep w h c False"
  shows "\<exists>v. setKeep h c False w = Some v \<and> kept K w v \<and> flags_given T h False w v"
proof -
  have "may_get T h False w"
  proof (rule may_getI)
    show "checkKeep w h x False = False" if "x \<in> T" for x
      using assms(4) tabs_alikeD(2) [OF assms(2) that assms(3)] by simp
  qed (simp add: no_rival_def, rule tabs_alikeD(1) [OF assms(2)])
  from keepTail_all [OF assms(1) this assms(3)] tabs_alikeD(1) [OF assms(2) _ assms(3)] assms(4)
  show ?thesis by (subst setKeep_step) simp
qed

text \<open>C14: Keep-above and keep-below exclude each other.  Let \<open>T\<close> be the window with the other tabs of its
  group, whose updates are not blocked (the window alone, when it has none); the tabs agree on their flags
  and rules before the change.  Setting one of the flags on the window ends, although every tab that is
  changed has the group change the others again: all of \<open>T\<close> gets the value the rules make of it; when it
  is set the other flag is taken back from all of \<open>T\<close>, unless a rule forces the other one on, and is
  otherwise as it was; no flag of a window outside \<open>T\<close> changes.  The stacking order is computed again
  with the new layers, and stays computable.\<close>

theorem setKeep_excludes:
  assumes "stack_ok w" "client_set w K" "c \<in> K"
    and "T = insert c (set (layerTabs w c))" "T \<subseteq> K" "\<forall>x\<in>T. set (layerTabs w x) = T - {x}" "tabs_alike T w"
  shows "\<exists>v. setKeep h c b w = Some v \<and> stack_ok v \<and> block_stacking_updates v = block_stacking_updates w \<and>
    (\<forall>x\<in>T. keepFlag v h x = checkKeep w h c b \<and>
      keepFlag v (\<not> h) x =
        (if checkKeep w h c b \<and> \<not> checkKeep w (\<not> h) c False then False else keepFlag w (\<not> h) c)) \<and>
    (\<forall>g x. x \<notin> T \<longrightarrow> keepFlag v g x = keepFlag w g x)"
proof -
  let ?b = "checkKeep w h c b"
  let ?clear = "?b \<and> \<not> checkKeep w (\<not> h) c False"
  have c: "c \<in> T" using assms(4) by simp
  note alike = tabs_alikeD [OF assms(7) _ c]
  have tabs: "tab_set K T w" using assms(1,2,5,6) by (simp add: tab_set_def flags_ok_def)
  obtain u where u: "(if ?clear then setKeep (\<not> h) c False w else Some w) = Some u" "kept K w u"
    "\<And>g x. keepFlag u g x = (if ?clear \<and> g = (\<not> h) \<and> x \<in> T then False else keepFlag w g x)"
  proof (cases ?clear)
    case True
    then obtain u where "setKeep (\<not> h) c False w = Some u" "kept K w u" "flags_given T (\<not> h) False w u"
      using take_back_result [OF tabs assms(7) c, of "\<not> h"] by blast
    with True show ?thesis by (intro that [of u]) (simp_all add: flags_given_def)
  next
    case False
    then show ?thesis using kept_refl [of K w] tabs that by (auto simp: tab_set_def)
  qed
  have same: "checkKeep u = checkKeep w" using u(2) by (simp add: kept_def)
  have "may_get T h ?b u"
  proof (rule may_getI)
    show "checkKeep u h x ?b = ?b" if "x \<in> T" for x using alike(3) [OF that] by (simp add: same)
    show "no_rival u h x ?b" if "x \<in> T" for x
      using that alike(2) [OF that, of "\<not> h"] by (simp add: no_rival_def same u(3))
    show "keepFlag u (\<not> h) x = keepFlag u (\<not> h) y" if "x \<in> T" "y \<in> T" for x y
      using that(1,2) tabs_alikeD(1) [OF assms(7) that, of "\<not> h"] by (simp add: u(3))
  qed
  moreover have "keepFlag u h x = keepFlag u h c" if "x \<in> T" for x using alike(1) [OF that, of h] by (simp add: u(3))
  ultimately obtain v where v: "keepTail h c ?b u = Some v" "kept K u v" "flags_given T h ?b u v"
    using keepTail_all [OF tab_set_kept [OF tabs u(2)] _ c] by blast
  have "setKeep h c b w = Some v" using u(1) v(1) by (subst setKeep_step) simp
  moreover have "stack_ok v" "block_stacking_updates v = block_stacking_updates w"
    using kept_trans [OF u(2) v(2)] by (simp_all add: kept_def flags_ok_def)
  moreover have "keepFlag w (\<not> h) x = keepFlag w (\<not> h) c" if "x \<in> T" for x by (rule alike(1) [OF that])
  ultimately show ?thesis using v(3) by (cases "?b"; cases "checkKeep w (\<not> h) c False") (simp_all add: flags_given_def u(3))
qed

text \<open>Two tabs kept below, and one of them set above: both are above, and none is below.\<close>

definition two_tabs :: focus_world where
  "two_tabs = upd_cl 3 (\<lambda>r. r\<lparr>m_keepBelow := True, tab_group := Some 0\<rparr>)
     (upd_cl 2 (\<lambda>r. r\<lparr>m_keepBelow := True, tab_group := Some 0\<rparr>) (three_windows\<lparr>tab_clients := \<lambda>_. [2, 3]\<rparr>))"

lemma setKeep_excludes_witness:
  "\<exists>v. setKeep True 2 True two_tabs = Some v \<and>
     keepFlag v True 2 \<and> keepFlag v True 3 \<and> \<not> keepFlag v False 2 \<and> \<not> keepFlag v False 3 \<and>
     keepFlag v True 1 = keepFlag two_tabs True 1"
proof -
  have ready: "stack_ok three_windows" "client_set three_windows {1, 2, 3}"
    using three_windows_ready(1) by (simp_all add: ready_def)
  have "stack_ok two_tabs" by (rule stack_ok_same [OF ready(1)]) (simp_all add: two_tabs_def upd_cl_def)
  moreover have "client_set two_tabs {1, 2, 3}"
    using ready(2) by (simp add: client_set_def isClient_def two_tabs_def upd_cl_def)
  moreover have tabs: "layerTabs two_tabs 2 = [3]" "layerTabs two_tabs 3 = [2]" by code_simp+
  have "{2, 3} = insert 2 (set (layerTabs two_tabs 2))" "\<forall>x\<in>{2, 3}. set (layerTabs two_tabs x) = {2, 3} - {x}"
    by (auto simp: tabs)
  moreover have rules: "checkKeep two_tabs h x = id" for h x
    by (simp add: fun_eq_iff checkKeep_def two_tabs_def upd_cl_def three_windows_def wm.defs world.defs
        empty_session_def sample_client_def plain_client_def)
  have "keepFlag two_tabs True 2 = False" "keepFlag two_tabs True 3 = False"
    "keepFlag two_tabs False 2 = True" "keepFlag two_tabs False 3 = True"
    by code_simp+
  then have "tabs_alike {2, 3} two_tabs" by (simp add: tabs_alike_def rules all_bool_eq)
  ultimately obtain v where "setKeep True 2 True two_tabs = Some v"
    "\<forall>x\<in>{2, 3}. keepFlag v True x = checkKeep two_tabs True 2 True \<and> keepFlag v (\<not> True) x =
      (if checkKeep two_tabs True 2 True \<and> \<not> checkKeep two_tabs (\<not> True) 2 False then False
       else keepFlag two_tabs (\<not> True) 2)"
    "\<forall>g x. x \<notin> {2, 3} \<longrightarrow> keepFlag v g x = keepFlag two_tabs g x"
    using setKeep_excludes [of two_tabs "{1, 2, 3}" 2 "{2, 3}" True True] by blast
  then show ?thesis by (intro exI [of _ v]) (simp add: rules)
qed

end
