(* ===== verification/TabGroups.thy ===== *)
theory TabGroups
  imports Tiling
begin

text \<open>
  \<^verbatim>\<open>tabgroup.cpp\<close>, the tabs: windows that share a frame, one of them shown.  Adding a window to the list,
  moving it in the list, taking it out, the sizes a group imposes on its windows, the blocks of the
  synchronization, and \<open>Client::untab\<close>.  A group is a value next to the session; what the session has of it are
  \<open>tab_group\<close> and \<open>tab_sizes\<close> of its windows.

  What a window that joins takes over from the group is modelled for the geometry; whether it gets the
  decoration and takes the shade mode and the desktop is an input of \<open>tab_add\<close>, and the copying of
  states only logged.  What showing a tab does to the session is in \<open>FocusMachine\<close>.
\<close>

section \<open>State\<close>

datatype tab_state =
  TabMinimized | TabMaximized | TabShaded | TabGeometry | TabDesktop | TabActivity | TabLayer | TabQuickTile

record tabs =
  t_id :: nat
  t_clients :: "win list"
  t_current :: win
  t_minSize :: qsize
  t_maxSize :: qsize
  t_blocked :: int
  t_pending :: "tab_state list"

definition setTabGroup :: "win \<Rightarrow> tabs option \<Rightarrow> gworld \<Rightarrow> gworld" where
  "setTabGroup c t w =
     gcall (SetTabGroup c (t \<noteq> None))
       (upd_geo c (\<lambda>g. g\<lparr>tab_sizes := map_option (\<lambda>t. (t_minSize t, t_maxSize t)) t\<rparr>)
         (upd_cl c (\<lambda>r. r\<lparr>tab_group := map_option t_id t\<rparr>) w))"

definition new_tabs :: "nat \<Rightarrow> win \<Rightarrow> gworld \<Rightarrow> tabs \<times> gworld" where
  "new_tabs i c w =
     (let t = \<lparr>t_id = i, t_clients = [c], t_current = c, t_minSize = minSize w c, t_maxSize = maxSize w c,
        t_blocked = 0, t_pending = []\<rparr>
      in (t, gcall (SetClientShown c True) (setTabGroup c (Some t) w)))"

definition tab_contains :: "tabs \<Rightarrow> win option \<Rightarrow> bool" where
  "tab_contains t c = (case c of None \<Rightarrow> False | Some c \<Rightarrow> c \<in> set (t_clients t))"

definition tab_isActive :: "tabs \<Rightarrow> gworld \<Rightarrow> bool" where
  "tab_isActive t w = tab_contains t (active_client w)"

section \<open>Sizes\<close>

definition expanded_size :: "qsize \<Rightarrow> qsize \<Rightarrow> qsize" where
  "expanded_size s t = (max (fst s) (fst t), max (snd s) (snd t))"

definition bounded_by :: "qsize \<Rightarrow> qsize \<Rightarrow> qsize" where
  "bounded_by s t = (min (fst s) (fst t), min (snd s) (snd t))"

definition group_minSize :: "gworld \<Rightarrow> win list \<Rightarrow> qsize" where
  "group_minSize w cs = fold (\<lambda>c s. expanded_size s (minSize w c)) cs (0, 0)"

definition group_maxSize :: "gworld \<Rightarrow> win list \<Rightarrow> qsize" where
  "group_maxSize w cs = fold (\<lambda>c s. bounded_by s (maxSize w c)) cs (INT_MAX, INT_MAX)"

text \<open>The sizes of a group are what its windows see.\<close>

definition share_sizes :: "tabs \<Rightarrow> gworld \<Rightarrow> gworld" where
  "share_sizes t w =
     fold (\<lambda>c. upd_geo c (\<lambda>g. g\<lparr>tab_sizes := Some (t_minSize t, t_maxSize t)\<rparr>)) (t_clients t) w"

definition updateMinMaxSize :: "tabs \<Rightarrow> gworld \<Rightarrow> tabs \<times> gworld" where
  "updateMinMaxSize t w =
     (let lo = group_minSize w (t_clients t);
          hi = expanded_size (group_maxSize w (t_clients t)) lo;
          t = t\<lparr>t_minSize := lo, t_maxSize := hi\<rparr>;
          w = share_sizes t w;
          c = t_current t;
          size = bounded_by (expanded_size (client_size (geos w c)) lo) hi
      in if size = client_size (geos w c) then (t, w)
         else let r = mk_rect (topLeft (geometry w c)) (sizeForClientSize w c size SizemodeAny False)
              in (t, fold (\<lambda>c. setGeometry c r NormalGeometrySet) (t_clients t) w))"

section \<open>Blocks of the synchronization\<close>

definition tab_blockStateUpdates :: "bool \<Rightarrow> tabs \<Rightarrow> tabs" where
  "tab_blockStateUpdates block t =
     (let n = (if block then t_blocked t + 1 else t_blocked t - 1) in t\<lparr>t_blocked := (if n < 0 then 0 else n)\<rparr>)"

definition tab_states_all :: "tab_state list" where
  "tab_states_all =
     [TabMinimized, TabMaximized, TabShaded, TabGeometry, TabDesktop, TabActivity, TabLayer, TabQuickTile]"

text \<open>The head of \<open>updateStates\<close>: the states to copy from \<open>main\<close>, or none while blocked.\<close>

definition tab_states_due :: "win \<Rightarrow> tab_state list \<Rightarrow> win option \<Rightarrow> tabs \<Rightarrow> tab_state list option \<times> tabs" where
  "tab_states_due main states only t =
     (if only = Some main then (None, t)
      else if t_blocked t > 0 then (None, t\<lparr>t_pending := t_pending t @ states\<rparr>)
      else (Some (states @ t_pending t), t\<lparr>t_pending := []\<rparr>))"

section \<open>The list of tabs\<close>

text \<open>Switching the tab: only to one of the group.\<close>

definition tab_show :: "win \<Rightarrow> bool \<Rightarrow> tabs \<Rightarrow> gworld \<Rightarrow> tabs \<times> gworld" where
  "tab_show c force t w =
     (if c = t_current t \<and> \<not> force \<or> \<not> tab_contains t (Some c) then (t, w)
      else (t\<lparr>t_current := c\<rparr>,
            fold (\<lambda>d. gcall (SetClientShown d (d = c))) (t_clients t)
              (gcall (SetClientShown c True) (gcall (TabAboutToChange (t_current t) c) w))))"

definition tab_show_next :: "tabs \<Rightarrow> gworld \<Rightarrow> tabs \<times> gworld" where
  "tab_show_next t w =
     (let index = q_indexOf (t_current t) (t_clients t) in
      tab_show (t_clients t ! nat (if index < int (length (t_clients t)) - 1 then index + 1 else 0)) False t w)"

definition tab_show_prev :: "tabs \<Rightarrow> gworld \<Rightarrow> tabs \<times> gworld" where
  "tab_show_prev t w =
     (let index = q_indexOf (t_current t) (t_clients t) in
      tab_show (t_clients t ! nat (if index > 0 then index - 1 else int (length (t_clients t)) - 1)) False t w)"

text \<open>The end of \<open>add\<close>: where the window goes, and its group.\<close>

definition tab_index :: "tabs \<Rightarrow> win option \<Rightarrow> bool \<Rightarrow> int" where
  "tab_index t other after =
     min (int (length (t_clients t)))
       ((case other of None \<Rightarrow> int (length (t_clients t)) | Some c \<Rightarrow> q_indexOf c (t_clients t)) + of_bool after)"

definition tab_join :: "win \<Rightarrow> win option \<Rightarrow> bool \<Rightarrow> tabs \<Rightarrow> gworld \<Rightarrow> tabs \<times> gworld" where
  "tab_join c other after t w =
     (let t = t\<lparr>t_clients := q_insert (tab_index t other after) c (t_clients t)\<rparr>
      in updateMinMaxSize t (setTabGroup c (Some t) w))"

text \<open>
  \<open>add\<close>.  A window that is in the group already, or another one that is not, changes nothing.  The trial is
  what becomes of the window when it has to take over the looks of the group.
\<close>

record tab_trial =
  tr_decorated :: bool
  tr_states_taken :: bool
  tr_painted :: bool
  tr_focus_reasonable :: bool

definition tab_align :: "win \<Rightarrow> tabs \<Rightarrow> gworld \<Rightarrow> tabs \<times> gworld" where
  "tab_align c t w =
     (case tab_states_due (t_current t) tab_states_all (Some c) t of
        (None, t) \<Rightarrow> (t, w) | (Some _, t) \<Rightarrow> (t, gcall (TabGroupStates (t_current t) [''All'']) w))"

definition tab_shown_first :: "win \<Rightarrow> bool \<Rightarrow> tab_trial \<Rightarrow> tabs \<Rightarrow> gworld \<Rightarrow> tabs \<times> gworld" where
  "tab_shown_first c becomeVisible tr t w =
     (if \<not> becomeVisible then (t, gcall (SetClientShown c False) w)
      else
        let w = gcall (SetClientShown c True) w;
            focus = (\<lambda>c w. if tr_focus_reasonable tr then gcall (RequestTabFocus c) w else w)
        in if tr_painted tr then let (t, w) = tab_show c False t w in (t, focus c w)
           else (t\<lparr>t_current := c\<rparr>, focus (t_current t) w))"

definition tab_add ::
  "win \<Rightarrow> win option \<Rightarrow> bool \<Rightarrow> bool \<Rightarrow> tab_trial \<Rightarrow> tabs \<Rightarrow> gworld \<Rightarrow> bool \<times> tabs \<times> gworld" where
  "tab_add c other after becomeVisible tr t w =
     (if tab_contains t (Some c) \<or> \<not> tab_contains t other then (False, t, w)
      else if \<not> tr_decorated tr then (False, t, w)
      else
        let old = geometry w c;
            w = (if tr_states_taken tr then setGeometry c (geometry w (t_current t)) NormalGeometrySet w else w)
        in if \<not> tr_states_taken tr \<or> geometry w c \<noteq> geometry w (t_current t)
           then (False, t, gcall (TriggerDecorationRepaint (t_current t)) (setGeometry c old NormalGeometrySet w))
           else
             let (t, w) = tab_align c t w;
                 (t, w) = tab_join c other after t w;
                 (t, w) = tab_shown_first c becomeVisible tr t w
             in (True, t, gcall (TriggerDecorationRepaint (t_current t)) w))"

definition tab_move :: "win \<Rightarrow> win option \<Rightarrow> bool \<Rightarrow> tabs \<Rightarrow> gworld \<Rightarrow> tabs \<times> gworld" where
  "tab_move c other after t w =
     (let len = int (length (t_clients t)); from = q_indexOf c (t_clients t);
          to0 = (case other of None \<Rightarrow> len - 1 | Some c \<Rightarrow> q_indexOf c (t_clients t));
          to1 = to0 + of_bool after;
          to = (if to1 \<ge> len then len - 1 else to1)
      in if Some c = other \<or> from < 0 \<or> to0 < 0 \<or> from = to then (t, w)
         else (t\<lparr>t_clients := q_move from to (t_clients t)\<rparr>, gcall (TriggerDecorationRepaint (t_current t)) w))"

definition tab_leave :: "win \<Rightarrow> tabs \<Rightarrow> gworld \<Rightarrow> tabs \<times> gworld" where
  "tab_leave c t w =
     updateMinMaxSize (t\<lparr>t_clients := q_removeAt (q_indexOf c (t_clients t)) (t_clients t)\<rparr>) (setTabGroup c None w)"

lemma updateMinMaxSize_list [simp]:
  "t_clients (fst (updateMinMaxSize t w)) = t_clients t" "t_current (fst (updateMinMaxSize t w)) = t_current t"
  by (simp_all add: updateMinMaxSize_def Let_def)

lemma tab_leave_list [simp]:
  "t_clients (fst (tab_leave c t w)) = q_removeAt (q_indexOf c (t_clients t)) (t_clients t)"
  "t_current (fst (tab_leave c t w)) = t_current t"
  by (simp_all add: tab_leave_def)

text \<open>The window that is shown when the one at \<open>index\<close> has gone.\<close>

definition next_tab :: "win \<Rightarrow> int \<Rightarrow> tabs \<Rightarrow> gworld \<Rightarrow> tabs \<times> gworld" where
  "next_tab c index t w =
     (if c \<noteq> t_current t then (t, w)
      else let n = (if index < int (length (t_clients t)) then t_clients t ! nat index else last (t_clients t))
           in (t\<lparr>t_current := n\<rparr>, gcall (TabAboutToChange c n) (gcall (SetClientShown n True) w)))"

function tab_remove :: "win \<Rightarrow> tabs \<Rightarrow> gworld \<Rightarrow> bool \<times> tabs \<times> gworld" where
  "tab_remove c t w =
     (if c \<notin> set (t_clients t) then (False, t, w)
      else
        let index = q_indexOf c (t_clients t); (t, w) = tab_leave c t w;
            (t, w) = (if length (t_clients t) = 1 then snd (tab_remove (hd (t_clients t)) t w) else (t, w))
        in if t_clients t = [] then (True, t, gcall (SetClientShown c True) w)
           else let (t, w) = next_tab c index t w
                in (True, t, gcall (TriggerDecorationRepaint (t_current t)) (gcall (TabRemoved c (t_current t)) w)))"
  by pat_completeness auto
termination
proof (relation "measure (\<lambda>(c, t, w). length (t_clients t))", simp)
  fix c t and w :: gworld and i :: int and p t1 and w1 :: gworld
  assume c: "\<not> c \<notin> set (t_clients t)" and p: "p = tab_leave c t w" "(t1, w1) = p"
    and one: "length (t_clients t1) = 1"
  have "t_clients t1 = q_removeAt (q_indexOf c (t_clients t)) (t_clients t)"
    using tab_leave_list(1) [of c t w] by (simp flip: p)
  then show "((hd (t_clients t1), t1, w1), c, t, w) \<in> measure (\<lambda>(c, t, w). length (t_clients t))"
    using c one q_indexOf_in [of c "t_clients t"] by (auto simp: q_removeAt_def split: if_splits)
qed

declare tab_remove.simps [simp del]

definition tab_closeAll :: "tabs \<Rightarrow> gworld \<Rightarrow> gworld" where
  "tab_closeAll t w =
     gcall (CloseWindow (t_current t))
       (fold (\<lambda>c w. if c \<noteq> t_current t then gcall (CloseWindow c) w else w) (t_clients t) w)"

section \<open>Leaving a group\<close>

definition untab_restore :: "win \<Rightarrow> rect \<Rightarrow> bool \<Rightarrow> gworld \<Rightarrow> rect" where
  "untab_restore c to kept w =
     (if kept then
        let g = geometry w c; (cx, cy) = cursor_pos w;
            px = c_div ((cx - rx1 to) * rwidth g) (rwidth to);
            py = c_div ((cy - ry1 to) * rheight g) (rheight to)
        in moveTopLeft (cx - px, cy - py) g
      else to)"

definition untab_geometry :: "change_maximize \<Rightarrow> win \<Rightarrow> rect \<Rightarrow> bool \<Rightarrow> bool \<Rightarrow> gworld \<Rightarrow> gworld option" where
  "untab_geometry cm c to keepSize changed w =
     do {
       let changed = (changed \<or> max_mode (geos w c) \<noteq> MaximizeRestore);
       w \<leftarrow> (if max_mode (geos w c) \<noteq> MaximizeRestore then maximize cm c MaximizeRestore w else Some w);
       let w = set_restore c (untab_restore c to (keepSize \<and> changed) w) w;
       let w = setGeometry c (geom_restore (geos w c)) NormalGeometrySet w;
       checkWorkspacePosition cm c no_rect (- 2) no_rect w
     }"

definition untab :: "change_maximize \<Rightarrow> win \<Rightarrow> rect \<Rightarrow> bool \<Rightarrow> tabs option \<Rightarrow> gworld \<Rightarrow> (bool \<times> tabs option \<times> gworld) option" where
  "untab cm c to clientRemoved tg w =
     (case tg of
        None \<Rightarrow> Some (False, None, w)
      | Some t \<Rightarrow>
          let (removed, t, w) = tab_remove c t w in
          if \<not> removed then Some (False, Some t, w)
          else
            let left = (if t_clients t = [] then None else Some t) in
            if clientRemoved then Some (True, left, w)
            else do {
              let w = gcall (SetClientShown c (\<not> (isMinimized w c \<or> isShade w c))) w;
              let keepSize = (rect_size to = wsize w c);
              let changed = (quick_tile_mode (geos w c) \<noteq> QuickTileNone);
              w \<leftarrow> (if changed then setQuickTileMode cm c QuickTileNone False w else Some w);
              w \<leftarrow> (if rect_isValid to then untab_geometry cm c to keepSize changed w else Some w);
              Some (True, left, w)
            })"

section \<open>All groups\<close>

text \<open>The groups there are, by their identity.  No group of that identity is a dangling pointer.\<close>

type_synonym tab_table = "nat \<Rightarrow> tabs option"

definition on_group :: "nat \<Rightarrow> (tabs \<Rightarrow> gworld \<Rightarrow> tabs \<times> gworld) \<Rightarrow> tab_table \<Rightarrow> gworld \<Rightarrow> tab_table \<times> gworld" where
  "on_group i f gs w =
     (case gs i of None \<Rightarrow> (gs, w) | Some t \<Rightarrow> let (t, w) = f t w in (gs(i \<mapsto> t), w))"

text \<open>The part of \<open>untab\<close> that concerns the group: a group that is empty is deleted.\<close>

definition detab :: "win \<Rightarrow> tab_table \<Rightarrow> gworld \<Rightarrow> (bool \<times> tab_table \<times> gworld) option" where
  "detab c gs w =
     (case tab_group (cl w c) of
        None \<Rightarrow> Some (False, gs, w)
      | Some i \<Rightarrow> do {
          t \<leftarrow> gs i;
          let (removed, t, w) = tab_remove c t w in
          Some (removed, gs(i := if t_clients t = [] then None else Some t), w)
        })"

text \<open>
  \<open>tabTo\<close>: the window is moved when both are in a group already; else it leaves its own group and joins
  that of the other window, or a new one of it alone, which goes again when the window cannot join.
  \<open>i\<close> is the identity of the group that is created.
\<close>

definition group_for :: "nat \<Rightarrow> win \<Rightarrow> tab_table \<Rightarrow> gworld \<Rightarrow> nat \<times> tab_table \<times> gworld" where
  "group_for i other gs w =
     (case tab_group (cl w other) of
        Some j \<Rightarrow> (j, gs, w)
      | None \<Rightarrow> let (t, w) = new_tabs i other w in (i, gs(i \<mapsto> t), w))"

definition entab ::
  "nat \<Rightarrow> win \<Rightarrow> win \<Rightarrow> bool \<Rightarrow> bool \<Rightarrow> tab_trial \<Rightarrow> tab_table \<Rightarrow> gworld \<Rightarrow> (bool \<times> tab_table \<times> gworld) option" where
  "entab i c other behind activate tr gs w =
     (let (j, gs, w) = group_for i other gs w in
      do {
        t \<leftarrow> gs j;
        let (joined, t, w) = tab_add c (Some other) behind activate tr t w in
        if \<not> joined \<and> length (t_clients t) < 2
        then let (_, t, w) = tab_remove other t w in Some (False, gs(j := None), w)
        else Some (joined, gs(j \<mapsto> t), w)
      })"

definition tab_to ::
  "nat \<Rightarrow> win \<Rightarrow> win \<Rightarrow> bool \<Rightarrow> bool \<Rightarrow> tab_trial \<Rightarrow> tab_table \<Rightarrow> gworld \<Rightarrow> (bool \<times> tab_table \<times> gworld) option" where
  "tab_to i c other behind activate tr gs w =
     (if tab_group (cl w c) \<noteq> None \<and> tab_group (cl w c) = tab_group (cl w other)
      then let (gs, w) = on_group (the (tab_group (cl w c))) (tab_move c (Some other) behind) gs w in Some (True, gs, w)
      else do {
        (_, gs, w) \<leftarrow> detab c gs w;
        entab i c other behind activate tr gs w
      })"

end
