(* ===== verification/TabFacts.thy ===== *)
theory TabFacts
  imports TabGroups MaximizeFacts Smart
begin

text \<open>
  Tab groups: no window twice, the tab shown is one of them, no group of a single tab after one was taken out,
  and every window of a group sees the sizes of the group.  Where a tab that is moved lands.
\<close>

section \<open>What a geometry keeps of other windows\<close>

lemma kept_other:
  assumes "d \<noteq> c"
  shows "kept_state (upd_geo c f w) d = kept_state w d" "kept_state (set_geom c g w) d = kept_state w d"
    "kept_state (screens_setCurrentClient c w) d = kept_state w d" "kept_state (checkScreen c w) d = kept_state w d"
  using assms by (simp_all add: kept_state_def set_geom_def upd_geo_def upd_cl_def screens_setCurrentClient_def
    screens_setCurrent_def checkScreen_def Let_def)

lemma kept_gcall: "kept_state (gcall e w) d = kept_state w d"
  by (simp add: kept_state_def gcall_def)

lemma kept_emit: "d \<noteq> c \<Longrightarrow> kept_state (emit_checked c e w) d = kept_state w d"
  by (simp add: emit_checked_def kept_gcall kept_other Let_def)

lemma kept_parts_other:
  assumes "d \<noteq> c"
  shows "kept_state (snd (set_client_size c s w)) d = kept_state w d"
    "kept_state (note_pending c force w) d = kept_state w d" "kept_state (geometry_done c w) d = kept_state w d"
    "kept_state (send_geometry c g r w) d = kept_state w d"
  by (simp_all add: set_client_size_def note_pending_def geometry_done_def send_geometry_def
    frame_setGeometry_def frame_move_def Let_def kept_other [OF assms] kept_gcall kept_emit [OF assms])

lemma kept_setGeometry_other:
  assumes "d \<noteq> c"
  shows "kept_state (setGeometry c g f w) d = kept_state w d"
proof -
  obtain s u where u: "set_client_size c (rect_size g) w = (s, u)" by (rule prod.exhaust)
  have "kept_state u d = kept_state w d" using kept_parts_other(1) [OF assms, of "rect_size g" w] u by simp
  then show ?thesis
    by (simp add: setGeometry_def u Let_def kept_other [OF assms] kept_parts_other [OF assms] kept_gcall kept_emit [OF assms])
qed

text \<open>What a window has of its tab group, and its own limits.\<close>

definition tab_view :: "gworld \<Rightarrow> win \<Rightarrow> nat option \<times> (qsize \<times> qsize) option \<times> size_hints \<times> rules list" where
  "tab_view w c = (tab_group (cl w c), tab_sizes (geos w c), hints (geos w c), w_rules (geos w c))"

lemma tab_view_kept: "kept_state v c = kept_state w c \<Longrightarrow> tab_view v c = tab_view w c"
proof -
  have eq: "tab_view u c = (tab_group (cl (kept_state u c) c), tab_sizes (geos (kept_state u c) c),
      hints (geos (kept_state u c) c), w_rules (geos (kept_state u c) c))" for u
    by (simp add: tab_view_def kept_state_def)
  assume "kept_state v c = kept_state w c"
  then show "tab_view v c = tab_view w c" by (simp only: eq)
qed

lemma tab_view_setGeometry [simp]: "tab_view (setGeometry c g f w) d = tab_view w d"
  by (rule tab_view_kept) (cases "d = c"; simp add: kept_setGeometry_other)

lemma tab_view_fold [simp]: "tab_view (fold (\<lambda>c. setGeometry c r f) cs w) d = tab_view w d"
  by (induction cs arbitrary: w) simp_all

lemma tab_view_gcall [simp]: "tab_view (gcall e w) d = tab_view w d"
  by (simp add: tab_view_def gcall_def)

lemma share_sizes_view:
  "tab_view (share_sizes t w) d =
    (if d \<in> set (t_clients t)
     then (tab_group (cl w d), Some (t_minSize t, t_maxSize t), hints (geos w d), w_rules (geos w d))
     else tab_view w d)"
proof -
  let ?f = "\<lambda>c. upd_geo c (\<lambda>g. g\<lparr>tab_sizes := Some (t_minSize t, t_maxSize t)\<rparr>)"
  have "tab_view (fold ?f cs w) d =
      (if d \<in> set cs then (tab_group (cl w d), Some (t_minSize t, t_maxSize t), hints (geos w d), w_rules (geos w d))
       else tab_view w d)" for cs
    by (induction cs arbitrary: w) (auto simp: tab_view_def upd_geo_def)
  then show ?thesis by (simp add: share_sizes_def)
qed

section \<open>Well-formed groups\<close>

text \<open>No window twice, one of them shown, and each window in the group with its sizes.\<close>

definition tabs_ok :: "tabs \<Rightarrow> gworld \<Rightarrow> bool" where
  "tabs_ok t w \<longleftrightarrow> distinct (t_clients t) \<and> (t_clients t \<noteq> [] \<longrightarrow> t_current t \<in> set (t_clients t)) \<and>
     (\<forall>c. tab_group (cl w c) = Some (t_id t) \<longleftrightarrow> c \<in> set (t_clients t)) \<and>
     (\<forall>c\<in>set (t_clients t). tab_sizes (geos w c) = Some (t_minSize t, t_maxSize t))"

lemma tab_viewD:
  "tab_view v c = tab_view w c \<Longrightarrow> tab_group (cl v c) = tab_group (cl w c) \<and> tab_sizes (geos v c) = tab_sizes (geos w c)"
  by (simp add: tab_view_def)

lemma updateMinMaxSize_view:
  fixes t w
  defines "u \<equiv> updateMinMaxSize t w"
  shows "t_id (fst u) = t_id t" "tab_group (cl (snd u) d) = tab_group (cl w d)"
    "d \<in> set (t_clients t) \<Longrightarrow> tab_sizes (geos (snd u) d) = Some (t_minSize (fst u), t_maxSize (fst u))"
    "d \<notin> set (t_clients t) \<Longrightarrow> tab_sizes (geos (snd u) d) = tab_sizes (geos w d)"
proof -
  let ?lo = "group_minSize w (t_clients t)"
  let ?hi = "expanded_size (group_maxSize w (t_clients t)) ?lo"
  let ?t = "t\<lparr>t_minSize := ?lo, t_maxSize := ?hi\<rparr>"
  have t: "fst u = ?t" by (simp add: u_def updateMinMaxSize_def Let_def)
  have v: "tab_view (snd u) d = tab_view (share_sizes ?t w) d" for d
    by (simp add: u_def updateMinMaxSize_def Let_def)
  show "t_id (fst u) = t_id t" by (simp add: t)
  show "tab_group (cl (snd u) d) = tab_group (cl w d)"
    using v [of d] share_sizes_view [of ?t w d] by (auto simp: tab_view_def split: if_splits)
  show "d \<in> set (t_clients t) \<Longrightarrow> tab_sizes (geos (snd u) d) = Some (t_minSize (fst u), t_maxSize (fst u))"
    using v [of d] share_sizes_view [of ?t w d] by (simp add: tab_view_def t)
  show "d \<notin> set (t_clients t) \<Longrightarrow> tab_sizes (geos (snd u) d) = tab_sizes (geos w d)"
    using v [of d] share_sizes_view [of ?t w d] by (simp add: tab_view_def)
qed

lemma setTabGroup_sel:
  "tab_group (cl (setTabGroup c t w) d) = (if d = c then map_option t_id t else tab_group (cl w d))"
  by (simp add: setTabGroup_def gcall_def upd_geo_def upd_cl_def)

text \<open>A group whose list has changed, with its windows marked, after its sizes were computed.\<close>

lemma resized_ok:
  assumes "distinct (t_clients t)" "t_clients t \<noteq> [] \<longrightarrow> t_current t \<in> set (t_clients t)"
    and "\<And>c. tab_group (cl w c) = Some (t_id t) \<longleftrightarrow> c \<in> set (t_clients t)"
  shows "tabs_ok (fst (updateMinMaxSize t w)) (snd (updateMinMaxSize t w))"
  using assms by (simp add: tabs_ok_def updateMinMaxSize_view)

lemma tabs_ok_gcall [simp]: "tabs_ok t (gcall e w) = tabs_ok t w"
  by (simp add: tabs_ok_def gcall_def)

lemma q_removeAt_indexOf:
  "distinct xs \<Longrightarrow> q_removeAt (q_indexOf c xs) xs = removeAll c xs"
proof (induction xs)
  case (Cons x xs)
  then show ?case
    using q_indexOf_ge [of c xs] q_indexOf_in [of c xs]
    by (cases "c \<in> set xs") (auto simp: q_removeAt_def nat_add_distrib)
qed (simp add: q_removeAt_def)

lemma tab_join_ok:
  assumes "tabs_ok t w" "c \<notin> set (t_clients t)" "t_clients t \<noteq> []"
  shows "tabs_ok (fst (tab_join c other after t w)) (snd (tab_join c other after t w))"
  using assms unfolding tab_join_def Let_def
  by (intro resized_ok) (auto simp: tabs_ok_def setTabGroup_sel)

lemma tab_move_ok:
  assumes "tabs_ok t w"
  shows "tabs_ok (fst (tab_move c other after t w)) (snd (tab_move c other after t w))"
proof -
  have "mset (q_move (q_indexOf c xs) to xs) = mset xs" "distinct (q_move (q_indexOf c xs) to xs) = distinct xs"
    if "c \<in> set xs" for to and xs :: "win list"
    using q_indexOf_in [OF that] by (simp_all add: mset_q_move distinct_q_move)
  then have "set (q_move (q_indexOf c xs) to xs) = set xs \<and> distinct (q_move (q_indexOf c xs) to xs) = distinct xs"
    if "c \<in> set xs" for to and xs :: "win list"
    using that mset_eq_setD by blast
  then show ?thesis
    using assms by (auto simp: tab_move_def Let_def tabs_ok_def gcall_def q_indexOf_neg_iff)
qed

text \<open>A group while one of its windows, possibly the one shown, has just left it.\<close>

definition tabs_left :: "tabs \<Rightarrow> gworld \<Rightarrow> bool" where
  "tabs_left t w \<longleftrightarrow> distinct (t_clients t) \<and>
     (\<forall>c. tab_group (cl w c) = Some (t_id t) \<longleftrightarrow> c \<in> set (t_clients t)) \<and>
     (\<forall>c\<in>set (t_clients t). tab_sizes (geos w c) = Some (t_minSize t, t_maxSize t))"

lemma tab_leave_left:
  assumes "tabs_left t w" "c \<in> set (t_clients t)"
  shows "tabs_left (fst (tab_leave c t w)) (snd (tab_leave c t w)) \<and>
    t_clients (fst (tab_leave c t w)) = removeAll c (t_clients t)"
  using assms
  by (simp add: tabs_left_def tab_leave_def updateMinMaxSize_view setTabGroup_sel q_removeAt_indexOf distinct_removeAll)

lemma tabs_left_gcall [simp]: "tabs_left t (gcall e w) = tabs_left t w"
  by (simp add: tabs_left_def gcall_def)

lemma next_tab_ok:
  assumes "tabs_left t w" "t_clients t \<noteq> []" "t_current t \<in> insert c (set (t_clients t))" "c \<notin> set (t_clients t)"
    and "0 \<le> index"
  shows "tabs_ok (fst (next_tab c index t w)) (snd (next_tab c index t w)) \<and>
    t_clients (fst (next_tab c index t w)) = t_clients t"
  using assms by (auto simp: next_tab_def tabs_ok_def tabs_left_def Let_def gcall_def)

lemma remove_last_tab:
  assumes "tabs_left t w" "t_clients t = [d]"
  shows "tabs_left (fst (snd (tab_remove d t w))) (snd (snd (tab_remove d t w))) \<and>
    t_clients (fst (snd (tab_remove d t w))) = [] \<and> fst (tab_remove d t w)"
proof -
  have "tabs_left (fst (tab_leave d t w)) (snd (tab_leave d t w))" "t_clients (fst (tab_leave d t w)) = []"
    using tab_leave_left [OF assms(1), of d] assms(2) by simp_all
  then show ?thesis
    using assms(2) by (subst (1 2 3 4) tab_remove.simps) (simp add: Let_def case_prod_unfold)
qed

lemma remove_last_group:
  assumes "t_clients t = [d]" "e \<noteq> d"
  shows "tab_group (cl (snd (snd (tab_remove d t w))) e) = tab_group (cl w e)"
proof -
  obtain t1 w1 where l: "tab_leave d t w = (t1, w1)" by (rule prod.exhaust)
  have "t_clients t1 = []" using tab_leave_list(1) [of d t w] l assms(1) by (simp add: q_removeAt_def)
  moreover have "tab_group (cl w1 e) = tab_group (cl w e)"
    using l updateMinMaxSize_view(2) [of "t\<lparr>t_clients := q_removeAt (q_indexOf d (t_clients t)) (t_clients t)\<rparr>"
        "setTabGroup d None w" e] assms(2) by (simp add: tab_leave_def setTabGroup_sel)
  ultimately show ?thesis using assms(1) by (subst tab_remove.simps) (simp add: l gcall_def)
qed

text \<open>Taking a window out of its tab group returns and leaves a well-formed group that is empty or has at
  least two tabs: the window is in no group; when one window was left it is taken out too; the tab shown
  is one of the group; and every window of the group still sees the sizes of the group.\<close>

lemma tab_remove_result:
  assumes "tabs_ok t w" "c \<in> set (t_clients t)"
  shows "\<exists>t' w'. tab_remove c t w = (True, t', w') \<and> tabs_ok t' w' \<and>
    t_clients t' = (if length (t_clients t) = 2 then [] else removeAll c (t_clients t)) \<and>
    tab_group (cl w' c) = None"
proof -
  obtain t1 w1 where l: "tab_leave c t w = (t1, w1)" by (rule prod.exhaust)
  have t1: "tabs_left t1 w1" "t_clients t1 = removeAll c (t_clients t)" "t_current t1 = t_current t"
    using tab_leave_left [of t w c] assms l tab_leave_list(2) [of c t w] by (simp_all add: tabs_ok_def tabs_left_def distinct_removeAll)
  have gone: "tab_group (cl w1 c) = None"
    using l updateMinMaxSize_view(2) [of "t\<lparr>t_clients := q_removeAt (q_indexOf c (t_clients t)) (t_clients t)\<rparr>"
        "setTabGroup c None w" c] by (simp add: tab_leave_def setTabGroup_sel)
  have len: "length (t_clients t1) = length (t_clients t) - 1"
    using assms t1(2) by (simp add: tabs_ok_def distinct_remove1_removeAll [symmetric] length_remove1)
  show ?thesis
  proof (cases "length (t_clients t1) = 1")
    case True
    then obtain d where d: "t_clients t1 = [d]" by (auto simp: length_Suc_conv)
    have "c \<notin> set (t_clients t1)" by (simp add: t1(2))
    with d have "d \<noteq> c" by auto
    obtain b t2 w2 where r: "tab_remove d t1 w1 = (b, t2, w2)" by (metis prod.exhaust)
    have t2: "tabs_left t2 w2" "t_clients t2 = []" using remove_last_tab [OF t1(1) d] r by simp_all
    have "tab_group (cl w2 c) = None"
      using remove_last_group [OF d, of c w1] r \<open>d \<noteq> c\<close> gone by simp
    moreover have "tab_remove c t w = (True, t2, gcall (SetClientShown c True) w2)"
      using assms(2) by (subst tab_remove.simps) (simp add: l True d r t2(2))
    moreover have "length (t_clients t) = 2" using True len by linarith
    ultimately show ?thesis
      using t2 by (simp add: tabs_ok_def tabs_left_def gcall_def)
  next
    case False
    then show ?thesis
    proof (cases "t_clients t1 = []")
      case True
      then show ?thesis
        using assms(2) t1 len gone by (subst tab_remove.simps)
          (auto simp: l tabs_ok_def tabs_left_def gcall_def)
    next
      case nonempty: False
      let ?i = "q_indexOf c (t_clients t)"
      obtain t3 w3 where n: "next_tab c ?i t1 w1 = (t3, w3)" by (rule prod.exhaust)
      have "t_current t1 \<in> insert c (set (t_clients t1))"
        using assms t1(2,3) by (auto simp: tabs_ok_def)
      then have ok: "tabs_ok t3 w3" "t_clients t3 = t_clients t1"
        using next_tab_ok [of t1 w1 c ?i] t1(1,2) nonempty n q_indexOf_in [OF assms(2)] by simp_all
      have "tab_group (cl w3 c) = None"
        using n gone by (auto simp: next_tab_def Let_def gcall_def split: if_splits)
      moreover have "tab_remove c t w = (True, t3, gcall (TriggerDecorationRepaint (t_current t3)) (gcall (TabRemoved c (t_current t3)) w3))"
        using assms(2) False nonempty ok(2) by (subst tab_remove.simps) (simp add: l n Let_def)
      ultimately show ?thesis
        using ok t1(2) len False nonempty by (simp add: gcall_def) (simp add: tabs_ok_def)
    qed
  qed
qed

section \<open>Moving a tab\<close>

lemma move_left:
  "q_move (int (length xs + 1 + length ys)) (int (length xs)) (xs @ a # ys @ c # zs) = xs @ c # a # ys @ zs"
  "q_move (int (length xs + 1 + length ys)) (int (length xs) + 1) (xs @ a # ys @ c # zs) = xs @ a # c # ys @ zs"
  by (simp_all add: q_move_def q_insert_def q_removeAt_def nth_append nat_add_distrib)

lemma move_right:
  "q_move (int (length xs)) (int (length xs + 1 + length ys)) (xs @ c # ys @ a # zs) = xs @ ys @ a # c # zs"
  "q_move (int (length xs)) (int (length xs + 1 + length ys) + 1) (xs @ c # ys @ a # z # zs) = xs @ ys @ a # z # c # zs"
  by (simp_all add: q_move_def q_insert_def q_removeAt_def nth_append nat_add_distrib)

lemma places:
  assumes "distinct (xs @ a # ys @ c # zs)"
  shows "q_indexOf a (xs @ a # ys @ c # zs) = int (length xs)"
    "q_indexOf c (xs @ a # ys @ c # zs) = int (length xs + 1 + length ys)"
  using assms by (auto simp: q_indexOf_append)

text \<open>C37: Where a tab lands that is moved before or behind another one.  To the left it lands where it was
  asked for.  To the right it lands one place too far, behind the other one when it was to be before it, and
  behind the next one too when it was to be just behind it: the place is computed in the list that still
  has the tab, and taken in the list without it.\<close>

theorem tab_move_lands:
  assumes "distinct (t_clients t)"
  shows "(t_clients t = xs @ a # ys @ c # zs \<longrightarrow>
      t_clients (fst (tab_move c (Some a) after t w)) = (if after then xs @ a # c # ys @ zs else xs @ c # a # ys @ zs)) \<and>
    (t_clients t = xs @ c # ys @ a # zs \<longrightarrow>
      t_clients (fst (tab_move c (Some a) after t w)) =
        (if after \<and> zs \<noteq> [] then xs @ ys @ a # hd zs # c # tl zs else xs @ ys @ a # c # zs))"
proof (intro conjI impI)
  assume t: "t_clients t = xs @ a # ys @ c # zs"
  have p: "q_indexOf a (t_clients t) = int (length xs)" "q_indexOf c (t_clients t) = int (length xs + 1 + length ys)"
    "length (t_clients t) = length xs + length ys + length zs + 2"
    using places [OF assms [unfolded t]] by (simp_all add: t)
  have m: "q_move (int (length xs + 1 + length ys)) (int (length xs)) (t_clients t) = xs @ c # a # ys @ zs"
    "q_move (int (length xs + 1 + length ys)) (int (length xs) + 1) (t_clients t) = xs @ a # c # ys @ zs"
    unfolding t by (rule move_left)+
  have "a \<noteq> c" using assms t by auto
  then show "t_clients (fst (tab_move c (Some a) after t w)) =
      (if after then xs @ a # c # ys @ zs else xs @ c # a # ys @ zs)"
    using m by (cases "ys = []"; cases after; simp add: tab_move_def p Let_def; simp add: t)
next
  assume t: "t_clients t = xs @ c # ys @ a # zs"
  have p: "q_indexOf c (t_clients t) = int (length xs)" "q_indexOf a (t_clients t) = int (length xs + 1 + length ys)"
    "length (t_clients t) = length xs + length ys + length zs + 2"
    using places [OF assms [unfolded t]] by (simp_all add: t)
  have m: "q_move (int (length xs)) (int (length xs + 1 + length ys)) (t_clients t) = xs @ ys @ a # c # zs"
    unfolding t by (rule move_right)
  have n: "q_move (int (length xs)) (int (length xs + 1 + length ys) + 1) (t_clients t) = xs @ ys @ a # hd zs # c # tl zs"
    if "zs \<noteq> []" using move_right(2) [of xs ys c a "hd zs" "tl zs"] that by (simp add: t)
  have "a \<noteq> c" using assms t by auto
  then show "t_clients (fst (tab_move c (Some a) after t w)) =
      (if after \<and> zs \<noteq> [] then xs @ ys @ a # hd zs # c # tl zs else xs @ ys @ a # c # zs)"
    using m n by (cases "zs = []"; cases after) (simp_all add: tab_move_def p Let_def algebra_simps)
qed

definition sample_tabs :: tabs where
  "sample_tabs = \<lparr>t_id = 7, t_clients = [1, 2, 3], t_current = 2, t_minSize = (0, 0), t_maxSize = (0, 0), t_blocked = 0,
     t_pending = []\<rparr>"

lemma tab_move_lands_witness:
  "t_clients (fst (tab_move 1 (Some 2) False sample_tabs example_screen)) = [2, 1, 3] \<and>
   t_clients (fst (tab_move 1 (Some 2) True sample_tabs example_screen)) = [2, 3, 1] \<and>
   t_clients (fst (tab_move 3 (Some 2) False sample_tabs example_screen)) = [1, 3, 2]"
  using tab_move_lands [of sample_tabs "[]" 2 "[]" 1 "[3]" False example_screen]
    tab_move_lands [of sample_tabs "[]" 2 "[]" 1 "[3]" True example_screen]
    tab_move_lands [of sample_tabs "[1]" 2 "[]" 3 "[]" False example_screen]
  by (simp add: sample_tabs_def)

definition tabbed_screen :: gworld where
  "tabbed_screen = fold (\<lambda>c. setTabGroup c (Some sample_tabs)) [1, 2, 3] example_screen"

lemma tab_remove_example:
  "tabs_ok sample_tabs tabbed_screen \<and>
   (\<exists>t' w'. tab_remove 2 sample_tabs tabbed_screen = (True, t', w') \<and> tabs_ok t' w' \<and> t_clients t' = [1, 3])"
proof -
  have "tabs_ok sample_tabs tabbed_screen"
    by (auto simp: tabs_ok_def tabbed_screen_def setTabGroup_def gcall_def upd_geo_def upd_cl_def sample_tabs_def
        example_screen_def empty_session_def plain_client_def world.defs)
  then show ?thesis using tab_remove_result [of sample_tabs tabbed_screen 2] by (auto simp: sample_tabs_def)
qed

section \<open>What an operation on one group leaves alone\<close>

text \<open>A window that was and is in no group or in this one may have changed; of the others, what they have
  of their group is as it was.\<close>

definition tab_frame :: "nat \<Rightarrow> gworld \<Rightarrow> gworld \<Rightarrow> bool" where
  "tab_frame i w v \<longleftrightarrow>
     (\<forall>d. tab_group (cl w d) \<in> {None, Some i} \<and> tab_group (cl v d) \<in> {None, Some i} \<or>
        tab_group (cl v d) = tab_group (cl w d) \<and> tab_sizes (geos v d) = tab_sizes (geos w d))"

lemma tab_frame_refl [simp]: "tab_frame i w w"
  by (simp add: tab_frame_def)

lemma tab_frame_trans: "tab_frame i u v \<Longrightarrow> tab_frame i v w \<Longrightarrow> tab_frame i u w"
  unfolding tab_frame_def by metis

lemma tab_frame_view: "(\<And>d. tab_view v d = tab_view w d) \<Longrightarrow> tab_frame i w v"
  by (simp add: tab_frame_def tab_view_def)

lemma tab_frame_gcall [simp]:
  "tab_frame i w (gcall e v) = tab_frame i w v" "tab_frame i (gcall e w) v = tab_frame i w v"
  by (simp_all add: tab_frame_def gcall_def)

lemma tab_frame_mark:
  assumes "tab_group (cl w c) \<in> {None, Some i}" "map_option t_id t \<in> {None, Some i}"
  shows "tab_frame i w (setTabGroup c t w)"
  unfolding tab_frame_def
proof
  fix d
  show "tab_group (cl w d) \<in> {None, Some i} \<and> tab_group (cl (setTabGroup c t w) d) \<in> {None, Some i} \<or>
      tab_group (cl (setTabGroup c t w) d) = tab_group (cl w d) \<and>
      tab_sizes (geos (setTabGroup c t w) d) = tab_sizes (geos w d)"
    using assms by (cases "d = c") (simp_all add: setTabGroup_sel setTabGroup_def gcall_def upd_geo_def upd_cl_def)
qed

lemma tab_frame_resize:
  assumes "\<And>d. d \<in> set (t_clients t) \<Longrightarrow> tab_group (cl w d) = Some i"
  shows "tab_frame i w (snd (updateMinMaxSize t w))"
  unfolding tab_frame_def
proof
  fix d
  show "tab_group (cl w d) \<in> {None, Some i} \<and> tab_group (cl (snd (updateMinMaxSize t w)) d) \<in> {None, Some i} \<or>
      tab_group (cl (snd (updateMinMaxSize t w)) d) = tab_group (cl w d) \<and>
      tab_sizes (geos (snd (updateMinMaxSize t w)) d) = tab_sizes (geos w d)"
    using assms updateMinMaxSize_view(2,4) [where t = t and w = w and d = d] by (cases "d \<in> set (t_clients t)") simp_all
qed

lemma tab_frame_leave:
  assumes "\<And>d. tab_group (cl w d) = Some (t_id t) \<longleftrightarrow> d \<in> set (t_clients t)" "distinct (t_clients t)" "c \<in> set (t_clients t)"
  shows "tab_frame (t_id t) w (snd (tab_leave c t w))"
proof -
  have "tab_frame (t_id t) w (setTabGroup c None w)" by (rule tab_frame_mark) (simp_all add: assms)
  moreover have "tab_frame (t_id t) (setTabGroup c None w) (snd (tab_leave c t w))"
    unfolding tab_leave_def
    by (rule tab_frame_resize) (use assms in \<open>simp add: setTabGroup_sel q_removeAt_indexOf\<close>)
  ultimately show ?thesis by (rule tab_frame_trans)
qed

lemma tab_leave_id [simp]: "t_id (fst (tab_leave c t w)) = t_id t"
  by (simp add: tab_leave_def updateMinMaxSize_view)

lemma next_tab_frame: "tab_frame i w (snd (next_tab c index t v)) = tab_frame i w v" "t_id (fst (next_tab c index t v)) = t_id t"
  by (simp_all add: next_tab_def Let_def)

lemma tab_remove_frame:
  assumes "tabs_left t w"
  shows "tab_frame (t_id t) w (snd (snd (tab_remove c t w))) \<and> t_id (fst (snd (tab_remove c t w))) = t_id t"
  using assms
proof (induction c t w rule: tab_remove.induct)
  case (1 c t w)
  show ?case
  proof (cases "c \<in> set (t_clients t)")
    case False
    then show ?thesis by (simp add: tab_remove.simps [of c t w])
  next
    case True
    obtain t1 w1 where l: "tab_leave c t w = (t1, w1)" by (rule prod.exhaust)
    have left: "tabs_left t1 w1" "t_id t1 = t_id t" "tab_frame (t_id t) w w1"
      using tab_leave_left [OF "1.prems" True] tab_leave_id [of c t w] tab_frame_leave [of w t c] "1.prems" True l
      by (auto simp: tabs_left_def)
    obtain t2 w2 where s: "(if length (t_clients t1) = 1 then snd (tab_remove (hd (t_clients t1)) t1 w1) else (t1, w1)) = (t2, w2)"
      by (rule prod.exhaust)
    have "tab_frame (t_id t) w1 w2 \<and> t_id t2 = t_id t"
    proof (cases "length (t_clients t1) = 1")
      case one: True
      then have "snd (tab_remove (hd (t_clients t1)) t1 w1) = (t2, w2)" using s by simp
      with "1.IH" [OF _ refl l [symmetric]] True one left(1,2) show ?thesis by simp
    next
      case False
      then show ?thesis using s left(2) by simp
    qed
    then have "tab_frame (t_id t) w w2" "t_id t2 = t_id t" using tab_frame_trans [OF left(3)] by auto
    then show ?thesis
      using True s by (subst (1 2) tab_remove.simps) (simp add: Let_def l next_tab_frame case_prod_unfold split: if_splits)
  qed
qed

section \<open>Joining a group\<close>

lemma new_tabs_ok:
  assumes "\<And>d. tab_group (cl w d) \<noteq> Some i"
  shows "tabs_ok (fst (new_tabs i c w)) (snd (new_tabs i c w))"
  using assms by (simp add: new_tabs_def tabs_ok_def setTabGroup_def gcall_def upd_geo_def upd_cl_def Let_def)

lemma new_tabs_frame:
  assumes "tab_group (cl w c) = None"
  shows "tab_frame i w (snd (new_tabs i c w)) \<and> t_id (fst (new_tabs i c w)) = i \<and> t_clients (fst (new_tabs i c w)) = [c]"
  using tab_frame_mark [of w c i] assms by (simp add: new_tabs_def Let_def)

lemma tabs_ok_view:
  assumes "tabs_ok t w" "\<And>d. tab_view v d = tab_view w d"
  shows "tabs_ok t v"
  using assms(1) tab_viewD [OF assms(2)] by (simp add: tabs_ok_def)

text \<open>Operations that keep the list, and what the windows have of the group.\<close>

definition tabs_like :: "tabs \<Rightarrow> gworld \<Rightarrow> tabs \<Rightarrow> gworld \<Rightarrow> bool" where
  "tabs_like t w t' w' \<longleftrightarrow> tabs_ok t' w' \<and> t_id t' = t_id t \<and> tab_frame (t_id t) w w' \<and> t_clients t' = t_clients t"

lemma tabs_like_refl: "tabs_ok t w \<Longrightarrow> tabs_like t w t w"
  by (simp add: tabs_like_def)

lemma tabs_like_gcall [simp]:
  "tabs_like t (gcall e w) t' w' = tabs_like t w t' w'" "tabs_like t w t' (gcall e w') = tabs_like t w t' w'"
  by (simp_all add: tabs_like_def)

lemma tab_view_shown:
  "tab_view (fold (\<lambda>d. gcall (SetClientShown d (d = c))) ds w) d = tab_view w d"
  by (induction ds arbitrary: w) simp_all

lemma tab_show_like:
  assumes "tabs_ok t w"
  shows "tabs_like t w (fst (tab_show c force t w)) (snd (tab_show c force t w))"
proof (cases "c = t_current t \<and> \<not> force \<or> \<not> tab_contains t (Some c)")
  case True
  then have "tab_show c force t w = (t, w)" by (simp only: tab_show_def if_True)
  then show ?thesis using tabs_like_refl [OF assms] by simp
next
  case False
  let ?w = "snd (tab_show c force t w)"
  have v: "tab_view ?w d = tab_view w d" for d
    using False by (simp add: tab_show_def tab_view_shown)
  have t: "fst (tab_show c force t w) = t\<lparr>t_current := c\<rparr>" using False by (simp add: tab_show_def)
  have "tabs_ok (t\<lparr>t_current := c\<rparr>) w" using assms False by (auto simp: tabs_ok_def tab_contains_def)
  then have "tabs_ok (t\<lparr>t_current := c\<rparr>) ?w" by (rule tabs_ok_view) (rule v)
  moreover have "tab_frame (t_id t) w ?w" by (rule tab_frame_view) (rule v)
  ultimately show ?thesis by (simp add: tabs_like_def t)
qed

lemma tab_align_ok:
  assumes "tabs_ok t w"
  shows "tabs_like t w (fst (tab_align c t w)) (snd (tab_align c t w))"
  using assms by (simp add: tabs_like_def tab_align_def tab_states_due_def tabs_ok_def)

lemma tab_align_group [simp]: "tab_group (cl (snd (tab_align c t u)) d) = tab_group (cl u d)"
  by (simp add: tab_align_def gcall_def split: prod.splits option.splits)

lemma tab_join_frame:
  assumes "tabs_ok t w" "tab_group (cl w c) = None"
  shows "tab_frame (t_id t) w (snd (tab_join c other after t w))" "t_id (fst (tab_join c other after t w)) = t_id t"
    "set (t_clients (fst (tab_join c other after t w))) = insert c (set (t_clients t))"
proof -
  let ?t = "t\<lparr>t_clients := q_insert (tab_index t other after) c (t_clients t)\<rparr>"
  have "tab_frame (t_id t) w (setTabGroup c (Some ?t) w)" by (rule tab_frame_mark) (simp_all add: assms)
  moreover have "tab_frame (t_id t) (setTabGroup c (Some ?t) w) (snd (updateMinMaxSize ?t (setTabGroup c (Some ?t) w)))"
    by (rule tab_frame_resize) (use assms in \<open>auto simp: setTabGroup_sel tabs_ok_def\<close>)
  ultimately show "tab_frame (t_id t) w (snd (tab_join c other after t w))"
    unfolding tab_join_def Let_def by (rule tab_frame_trans)
  show "t_id (fst (tab_join c other after t w)) = t_id t"
    "set (t_clients (fst (tab_join c other after t w))) = insert c (set (t_clients t))"
    by (simp_all add: tab_join_def updateMinMaxSize_view Let_def)
qed

lemma tab_shown_first_like:
  assumes "tabs_ok t w" "c \<in> set (t_clients t)"
  shows "tabs_like t w (fst (tab_shown_first c becomeVisible tr t w)) (snd (tab_shown_first c becomeVisible tr t w))"
proof -
  have "tabs_like t w (fst (tab_show c False t (gcall (SetClientShown c True) w)))
      (snd (tab_show c False t (gcall (SetClientShown c True) w)))"
    using tab_show_like [of t "gcall (SetClientShown c True) w" c False] assms(1) by simp
  moreover have "tabs_ok (t\<lparr>t_current := c\<rparr>) w" using assms by (simp add: tabs_ok_def)
  ultimately show ?thesis
    using assms(1) by (simp add: tab_shown_first_def tabs_like_def Let_def case_prod_unfold)
qed

lemma tab_add_result:
  assumes ok: "tabs_ok t w" and alone: "tab_group (cl w c) \<in> {None, Some (t_id t)}"
    and add: "tab_add c other after becomeVisible tr t w = (b, t', w')"
  shows "tabs_ok t' w' \<and> t_id t' = t_id t \<and> tab_frame (t_id t) w w' \<and>
    set (t_clients t') = (if b then insert c (set (t_clients t)) else set (t_clients t)) \<and>
    (b \<longrightarrow> t_clients t \<noteq> [] \<and> c \<notin> set (t_clients t))"
proof -
  let ?u = "if tr_states_taken tr then setGeometry c (geometry w (t_current t)) NormalGeometrySet w else w"
  have view: "tab_view ?u d = tab_view w d" for d by simp
  have view': "tab_view (setGeometry c g NormalGeometrySet ?u) d = tab_view w d" for d g by simp
  show ?thesis
  proof (cases "tab_contains t (Some c) \<or> \<not> tab_contains t other \<or> \<not> tr_decorated tr \<or>
      \<not> tr_states_taken tr \<or> geometry ?u c \<noteq> geometry ?u (t_current t)")
    case True
    then have "\<not> b \<and> t' = t \<and> (\<forall>d. tab_view w' d = tab_view w d)"
      using add view' by (auto simp: tab_add_def Let_def split: if_splits)
    then show ?thesis using tabs_ok_view [OF ok] tab_frame_view by simp
  next
    case False
    define t1 where "t1 = fst (tab_align c t ?u)"
    define w1 where "w1 = snd (tab_align c t ?u)"
    define t2 where "t2 = fst (tab_join c other after t1 w1)"
    define w2 where "w2 = snd (tab_join c other after t1 w1)"
    have "tabs_ok t ?u" by (rule tabs_ok_view [OF ok view])
    then have l1: "tabs_like t ?u t1 w1" unfolding t1_def w1_def by (rule tab_align_ok)
    have "tab_group (cl w c) = None" using False ok alone by (auto simp: tabs_ok_def tab_contains_def)
    then have "tab_group (cl ?u c) = None" using tab_viewD [OF view] by simp
    then have a1: "tab_group (cl w1 c) = None" unfolding w1_def by (simp only: tab_align_group)
    have c: "c \<notin> set (t_clients t)" "t_clients t \<noteq> []"
      using False by (auto simp: tab_contains_def split: option.splits)
    have l2: "tabs_ok t2 w2"
      using tab_join_ok [of t1 w1 c other after] l1 c by (simp add: t2_def w2_def tabs_like_def)
    have l3: "tab_frame (t_id t) w1 w2" "t_id t2 = t_id t" "set (t_clients t2) = insert c (set (t_clients t))"
      using tab_join_frame [of t1 w1 c other after] l1 a1 by (simp_all add: t2_def w2_def tabs_like_def)
    have l4: "tabs_like t2 w2 (fst (tab_shown_first c becomeVisible tr t2 w2)) (snd (tab_shown_first c becomeVisible tr t2 w2))"
      by (rule tab_shown_first_like [OF l2]) (simp add: l3)
    have "b \<and> t' = fst (tab_shown_first c becomeVisible tr t2 w2) \<and>
        w' = gcall (TriggerDecorationRepaint (t_current t')) (snd (tab_shown_first c becomeVisible tr t2 w2))"
      using add False by (auto simp: tab_add_def Let_def case_prod_unfold t2_def w2_def t1_def w1_def)
    moreover have "tab_frame (t_id t) w w1"
      using tab_frame_trans [OF tab_frame_view [OF view]] l1 by (simp add: tabs_like_def)
    ultimately show ?thesis
      using l4 tab_frame_trans [OF tab_frame_trans [OF _ l3(1)]] c l3(2,3) by (simp add: tabs_like_def)
  qed
qed

section \<open>All groups\<close>

text \<open>Every window that has a group has an existing one; each group is well-formed and has two tabs at least.\<close>

definition tab_groups_ok :: "tab_table \<Rightarrow> gworld \<Rightarrow> bool" where
  "tab_groups_ok gs w \<longleftrightarrow>
     (\<forall>i t. gs i = Some t \<longrightarrow> t_id t = i \<and> 2 \<le> length (t_clients t) \<and> tabs_ok t w) \<and>
     (\<forall>c i. tab_group (cl w c) = Some i \<longrightarrow> gs i \<noteq> None)"

lemma tab_groups_okD:
  assumes "tab_groups_ok gs w" "gs i = Some t"
  shows "t_id t = i" "2 \<le> length (t_clients t)" "tabs_ok t w"
  using assms by (simp_all add: tab_groups_ok_def)

lemma tabs_ok_frame:
  assumes "tabs_ok t w" "tab_frame i w v" "t_id t \<noteq> i"
  shows "tabs_ok t v"
proof -
  have same: "tab_group (cl v d) = Some (t_id t) \<longleftrightarrow> tab_group (cl w d) = Some (t_id t)"
    "tab_group (cl w d) = Some (t_id t) \<Longrightarrow> tab_sizes (geos v d) = tab_sizes (geos w d)" for d
    using assms(2,3) by (auto simp: tab_frame_def dest: spec [of _ d])
  show ?thesis using assms(1) same by (simp add: tabs_ok_def)
qed

text \<open>One group is changed, deleted, or new.\<close>

lemma put_group:
  assumes "tab_groups_ok gs w" "tab_frame i w v"
    and "case t of None \<Rightarrow> \<forall>c. tab_group (cl v c) \<noteq> Some i
      | Some t \<Rightarrow> t_id t = i \<and> 2 \<le> length (t_clients t) \<and> tabs_ok t v"
  shows "tab_groups_ok (gs(i := t)) v"
proof -
  have "tabs_ok t' v" if "gs j = Some t'" "j \<noteq> i" for j t'
    using tabs_ok_frame [OF _ assms(2)] tab_groups_okD [OF assms(1) that(1)] that(2) by simp
  moreover have "gs j \<noteq> None" if "tab_group (cl v c) = Some j" "j \<noteq> i" for c j
    using assms(1,2) that by (auto simp: tab_frame_def tab_groups_ok_def dest: spec [of _ c])
  moreover have "t \<noteq> None" if "tab_group (cl v c) = Some i" for c
    using assms(3) that by (cases t) auto
  ultimately show ?thesis
    using assms(1,3) by (auto simp: tab_groups_ok_def split: option.splits)
qed

lemma on_group_ok:
  assumes "tab_groups_ok gs w" "on_group i f gs w = (gs', w')"
    and "\<And>t. tabs_ok t w \<Longrightarrow> tabs_ok (fst (f t w)) (snd (f t w)) \<and> t_id (fst (f t w)) = t_id t \<and>
      tab_frame (t_id t) w (snd (f t w)) \<and> length (t_clients (fst (f t w))) = length (t_clients t)"
  shows "tab_groups_ok gs' w'"
proof (cases "gs i")
  case None
  then show ?thesis using assms(1,2) by (simp add: on_group_def)
next
  case (Some t)
  then have "gs' = gs(i := Some (fst (f t w)))" "w' = snd (f t w)"
    using assms(2) by (simp_all add: on_group_def case_prod_unfold Let_def)
  then show ?thesis
    using put_group [OF assms(1), of i w' "Some (fst (f t w))"] tab_groups_okD [OF assms(1) Some] assms(3) [of t] by simp
qed

lemma tabs_like_group:
  assumes "tabs_like t w t' w'"
  shows "tabs_ok t' w' \<and> t_id t' = t_id t \<and> tab_frame (t_id t) w w' \<and> length (t_clients t') = length (t_clients t)"
  using assms by (simp add: tabs_like_def)

lemma tab_move_group:
  assumes "tabs_ok t w"
  shows "tabs_ok (fst (tab_move c other after t w)) (snd (tab_move c other after t w)) \<and>
    t_id (fst (tab_move c other after t w)) = t_id t \<and> tab_frame (t_id t) w (snd (tab_move c other after t w)) \<and>
    length (t_clients (fst (tab_move c other after t w))) = length (t_clients t)"
proof -
  have "length (q_move (q_indexOf c xs) to xs) = length xs" if "c \<in> set xs" for to and xs :: "win list"
    using q_indexOf_in [OF that] mset_q_move [of "q_indexOf c xs" xs to] by (intro mset_eq_length) simp
  then show ?thesis
    using tab_move_ok [OF assms, of c other after] by (auto simp: tab_move_def Let_def q_indexOf_neg_iff)
qed

lemma resize_group:
  assumes "tabs_ok t w"
  shows "tabs_like t w (fst (updateMinMaxSize t w)) (snd (updateMinMaxSize t w))"
  using resized_ok [of t w] tab_frame_resize [of t w "t_id t"] assms
  by (simp add: tabs_like_def tabs_ok_def updateMinMaxSize_view)

lemma detab_ok:
  assumes "tab_groups_ok gs w"
  shows "\<exists>b gs' w'. detab c gs w = Some (b, gs', w') \<and> tab_groups_ok gs' w' \<and> tab_group (cl w' c) = None \<and>
    (\<forall>i. gs i = None \<longrightarrow> gs' i = None)"
proof (cases "tab_group (cl w c)")
  case None
  then have "detab c gs w = Some (False, gs, w)" by (simp add: detab_def)
  then show ?thesis using assms None by blast
next
  case (Some i)
  then have "gs i \<noteq> None" using assms unfolding tab_groups_ok_def by blast
  then obtain t where i: "gs i = Some t" by blast
  note t = tab_groups_okD [OF assms i]
  have c: "c \<in> set (t_clients t)" using t(1,3) Some by (auto simp: tabs_ok_def)
  obtain t' w1 where r: "tab_remove c t w = (True, t', w1)" "tabs_ok t' w1"
    "t_clients t' = (if length (t_clients t) = 2 then [] else removeAll c (t_clients t))" "tab_group (cl w1 c) = None"
    using tab_remove_result [OF t(3) c] by blast
  have "tab_frame i w w1" "t_id t' = i"
    using tab_remove_frame [of t w c] t(1,3) r(1) by (simp_all add: tabs_ok_def tabs_left_def)
  moreover have "2 \<le> length (t_clients t')" if "t_clients t' \<noteq> []"
    using that r(3) t(2,3) c by (auto simp: tabs_ok_def distinct_remove1_removeAll [symmetric] length_remove1)
  ultimately have "tab_groups_ok (gs(i := if t_clients t' = [] then None else Some t')) w1"
    using put_group [OF assms, of i w1 "if t_clients t' = [] then None else Some t'"] r(2) by (auto simp: tabs_ok_def)
  moreover have "detab c gs w = Some (True, gs(i := if t_clients t' = [] then None else Some t'), w1)"
    using i Some r(1) by (simp add: detab_def)
  ultimately show ?thesis using i r(4) by auto
qed

lemma group_for_ok:
  assumes "tab_groups_ok gs w" "gs i = None" "group_for i other gs w = (j, gs1, w1)"
  shows "\<exists>t. gs1 = gs(j := Some t) \<and> tabs_ok t w1 \<and> t_id t = j \<and> tab_frame j w w1 \<and> other \<in> set (t_clients t) \<and>
    (2 \<le> length (t_clients t) \<or> gs j = None \<and> t_clients t = [other])"
proof (cases "tab_group (cl w other)")
  case None
  have "tab_group (cl w d) \<noteq> Some i" for d using assms(1,2) unfolding tab_groups_ok_def by metis
  then have "tabs_ok (fst (new_tabs i other w)) (snd (new_tabs i other w))" by (rule new_tabs_ok)
  moreover have "gs1 = gs(i := Some (fst (new_tabs i other w)))" "w1 = snd (new_tabs i other w)" "j = i"
    using None assms(3) by (auto simp: group_for_def case_prod_unfold Let_def)
  ultimately show ?thesis
    using assms(2) new_tabs_frame [OF None, of i] by (intro exI [of _ "fst (new_tabs i other w)"]) simp
next
  case (Some k)
  then have "gs k \<noteq> None" using assms(1) unfolding tab_groups_ok_def by blast
  then obtain t where t: "gs k = Some t" by blast
  then have "gs1 = gs(k := Some t)" "w1 = w" "j = k" using assms(3) Some by (auto simp: group_for_def)
  then show ?thesis using tab_groups_okD [OF assms(1) t] Some by (auto simp: tabs_ok_def)
qed

lemma entab_ok:
  assumes ok: "tab_groups_ok gs w" and new: "gs i = None" and alone: "tab_group (cl w c) = None"
  shows "\<exists>b gs' w'. entab i c other behind activate tr gs w = Some (b, gs', w') \<and> tab_groups_ok gs' w'"
proof -
  obtain j gs1 w1 where g: "group_for i other gs w = (j, gs1, w1)" by (metis prod.exhaust)
  obtain t where t: "gs1 = gs(j := Some t)" "tabs_ok t w1" "t_id t = j" "tab_frame j w w1" "other \<in> set (t_clients t)"
    "2 \<le> length (t_clients t) \<or> gs j = None \<and> t_clients t = [other]"
    using group_for_ok [OF ok new g] by blast
  obtain joined t2 w2 where a: "tab_add c (Some other) behind activate tr t w1 = (joined, t2, w2)" by (metis prod.exhaust)
  have "tab_group (cl w1 c) \<in> {None, Some (t_id t)}" using t(3,4) alone by (auto simp: tab_frame_def dest: spec [of _ c])
  then have a2: "tabs_ok t2 w2" "t_id t2 = j" "tab_frame j w1 w2"
    "set (t_clients t2) = (if joined then insert c (set (t_clients t)) else set (t_clients t))"
    "joined \<longrightarrow> t_clients t \<noteq> [] \<and> c \<notin> set (t_clients t)"
    using tab_add_result [OF t(2) _ a] t(3) by auto
  have len: "length (t_clients t2) = card (set (t_clients t2))" "length (t_clients t) = card (set (t_clients t))"
    using a2(1) t(2) by (simp_all add: tabs_ok_def distinct_card)
  have frame: "tab_frame j w w2" by (rule tab_frame_trans [OF t(4) a2(3)])
  show ?thesis
  proof (cases "\<not> joined \<and> length (t_clients t2) < 2")
    case True
    then have single: "t_clients t2 = [other]"
    proof -
      have "other \<in> set (t_clients t2)" using True t(5) a2(4) by simp
      then show ?thesis using True by (cases "t_clients t2") (auto simp: less_Suc_eq numeral_2_eq_2)
    qed
    have left: "tabs_left t2 w2" using a2(1) by (simp add: tabs_ok_def tabs_left_def)
    obtain t3 w3 where r: "tab_remove other t2 w2 = (True, t3, w3)" "tabs_left t3 w3" "t_clients t3 = []"
      using remove_last_tab [OF left single] by (metis fst_conv snd_conv prod.exhaust)
    have "tab_frame j w2 w3" "t_id t3 = j" using tab_remove_frame [OF left, of other] r(1) a2(2) by simp_all
    then have "tab_groups_ok (gs(j := None)) w3"
      using put_group [OF ok tab_frame_trans [OF frame], of w3 None] r(2,3) by (simp add: tabs_left_def)
    moreover have "entab i c other behind activate tr gs w = Some (False, gs(j := None), w3)"
      using g t(1) a r(1) True by (simp add: entab_def)
    ultimately show ?thesis by blast
  next
    case False
    have "2 \<le> length (t_clients t2)"
    proof (cases joined)
      case True
      then have "length (t_clients t2) = Suc (length (t_clients t))" using a2(4,5) len by simp
      then show ?thesis using t(5) by (cases "t_clients t") auto
    qed (use False in simp)
    then have "tab_groups_ok (gs(j := Some t2)) w2" using put_group [OF ok frame, of "Some t2"] a2(1,2) by simp
    then show ?thesis using g t(1) a False by (auto simp: entab_def)
  qed
qed

lemma tab_to_ok:
  assumes "tab_groups_ok gs w" "gs i = None"
  shows "\<exists>b gs' w'. tab_to i c other behind activate tr gs w = Some (b, gs', w') \<and> tab_groups_ok gs' w'"
proof (cases "tab_group (cl w c) \<noteq> None \<and> tab_group (cl w c) = tab_group (cl w other)")
  case True
  obtain gs' w' where m: "on_group (the (tab_group (cl w c))) (tab_move c (Some other) behind) gs w = (gs', w')"
    by (metis prod.exhaust)
  have "tab_groups_ok gs' w'" by (rule on_group_ok [OF assms(1) m tab_move_group])
  moreover have "tab_to i c other behind activate tr gs w = Some (True, gs', w')"
    unfolding tab_to_def if_P [OF True] m by simp
  ultimately show ?thesis by blast
next
  case False
  obtain b gs1 w1 where d: "detab c gs w = Some (b, gs1, w1)" "tab_groups_ok gs1 w1" "tab_group (cl w1 c) = None" "gs1 i = None"
    using detab_ok [OF assms(1), of c] assms(2) by blast
  from entab_ok [OF d(2,4,3)] show ?thesis using False d(1) by (simp only: tab_to_def if_False) simp
qed

text \<open>
  The tab groups and the session through what tabs do, with whatever windows: the operations refuse
  themselves what would break a group.  The identity of a new group is that of no other one.
\<close>

inductive tab_session :: "tab_table \<Rightarrow> gworld \<Rightarrow> bool" where
  tab_start: "(\<And>c. tab_group (cl w c) = None) \<Longrightarrow> tab_session (\<lambda>_. None) w"
| tab_joined: "tab_session gs w \<Longrightarrow> gs i = None \<Longrightarrow> tab_to i c other behind activate tr gs w = Some (b, gs', w') \<Longrightarrow>
    tab_session gs' w'"
| tab_left: "tab_session gs w \<Longrightarrow> detab c gs w = Some (b, gs', w') \<Longrightarrow> tab_session gs' w'"
| tab_moved: "tab_session gs w \<Longrightarrow> on_group i (tab_move c other after) gs w = (gs', w') \<Longrightarrow> tab_session gs' w'"
| tab_switched: "tab_session gs w \<Longrightarrow> on_group i (tab_show c force) gs w = (gs', w') \<Longrightarrow> tab_session gs' w'"
| tab_next: "tab_session gs w \<Longrightarrow> on_group i tab_show_next gs w = (gs', w') \<Longrightarrow> tab_session gs' w'"
| tab_prev: "tab_session gs w \<Longrightarrow> on_group i tab_show_prev gs w = (gs', w') \<Longrightarrow> tab_session gs' w'"
| tab_resized: "tab_session gs w \<Longrightarrow> on_group i updateMinMaxSize gs w = (gs', w') \<Longrightarrow> tab_session gs' w'"
| tab_blocked: "tab_session gs w \<Longrightarrow> on_group i (\<lambda>t w. (tab_blockStateUpdates b t, w)) gs w = (gs', w') \<Longrightarrow>
    tab_session gs' w'"
| tab_due: "tab_session gs w \<Longrightarrow> on_group i (\<lambda>t w. (snd (tab_states_due c states only t), w)) gs w = (gs', w') \<Longrightarrow>
    tab_session gs' w'"
| tab_closed: "tab_session gs w \<Longrightarrow> on_group i (\<lambda>t w. (t, tab_closeAll t w)) gs w = (gs', w') \<Longrightarrow> tab_session gs' w'"
| tab_geometry: "tab_session gs w \<Longrightarrow> tab_session gs (setGeometry c g f w)"

inductive_cases tab_sessionE: "tab_session gs w"

lemma tab_closeAll_like:
  assumes "tabs_ok t w"
  shows "tabs_like t w t (tab_closeAll t w)"
proof -
  have "tab_view (fold (\<lambda>c w. if c \<noteq> t_current t then gcall (CloseWindow c) w else w) cs w) d = tab_view w d" for cs d
    by (induction cs arbitrary: w) simp_all
  then have v: "tab_view (tab_closeAll t w) d = tab_view w d" for d by (simp add: tab_closeAll_def)
  show ?thesis
    using tabs_ok_view [OF assms v] tab_frame_view [OF v] by (simp add: tabs_like_def)
qed

lemma tab_marks_like:
  assumes "tabs_ok t w"
  shows "tabs_like t w (tab_blockStateUpdates b t) w" "tabs_like t w (snd (tab_states_due c states only t)) w"
  using assms by (simp_all add: tabs_like_def tabs_ok_def tab_blockStateUpdates_def tab_states_due_def Let_def)

lemma tab_geometry_ok:
  assumes "tab_groups_ok gs w"
  shows "tab_groups_ok gs (setGeometry c g f w)"
proof -
  have v: "tab_view (setGeometry c g f w) d = tab_view w d" for d by simp
  show ?thesis
    unfolding tab_groups_ok_def
  proof (intro conjI allI impI)
    fix i t
    assume t: "gs i = Some t"
    show "t_id t = i" "2 \<le> length (t_clients t)" by (rule tab_groups_okD [OF assms t])+
    show "tabs_ok t (setGeometry c g f w)" by (rule tabs_ok_view [OF tab_groups_okD(3) [OF assms t] v])
  next
    fix d i
    assume "tab_group (cl (setGeometry c g f w) d) = Some i"
    then have "tab_group (cl w d) = Some i" using tab_viewD [OF v [of d]] by simp
    then show "gs i \<noteq> None" using assms by (simp add: tab_groups_ok_def)
  qed
qed

lemma tab_session_groups: "tab_session gs w \<Longrightarrow> tab_groups_ok gs w"
proof (induction rule: tab_session.induct)
  case (tab_start w)
  then show ?case by (simp add: tab_groups_ok_def)
next
  case tab_joined
  then show ?case using tab_to_ok by (metis option.inject prod.inject)
next
  case tab_left
  then show ?case using detab_ok by (metis option.inject prod.inject)
next
  case tab_moved
  show ?case by (rule on_group_ok [OF tab_moved.IH tab_moved.hyps(2) tab_move_group])
next
  case tab_switched
  show ?case by (rule on_group_ok [OF tab_switched.IH tab_switched.hyps(2) tabs_like_group [OF tab_show_like]])
next
  case tab_next
  show ?case
    by (rule on_group_ok [OF tab_next.IH tab_next.hyps(2)])
      (simp only: tab_show_next_def Let_def, rule tabs_like_group [OF tab_show_like])
next
  case tab_prev
  show ?case
    by (rule on_group_ok [OF tab_prev.IH tab_prev.hyps(2)])
      (simp only: tab_show_prev_def Let_def, rule tabs_like_group [OF tab_show_like])
next
  case tab_resized
  show ?case by (rule on_group_ok [OF tab_resized.IH tab_resized.hyps(2) tabs_like_group [OF resize_group]])
next
  case tab_blocked
  show ?case
    by (rule on_group_ok [OF tab_blocked.IH tab_blocked.hyps(2)])
      (unfold fst_conv snd_conv, rule tabs_like_group [OF tab_marks_like(1)])
next
  case tab_due
  show ?case
    by (rule on_group_ok [OF tab_due.IH tab_due.hyps(2)])
      (unfold fst_conv snd_conv, rule tabs_like_group [OF tab_marks_like(2)])
next
  case tab_closed
  show ?case
    by (rule on_group_ok [OF tab_closed.IH tab_closed.hyps(2)])
      (unfold fst_conv snd_conv, rule tabs_like_group [OF tab_closeAll_like])
next
  case tab_geometry
  show ?case by (rule tab_geometry_ok [OF tab_geometry.IH])
qed

text \<open>C36: Every tab group is well-formed and has at least two tabs, through windows that become tabs of
  another one, leave their group, are moved in it or shown, changes of the sizes and of the geometries,
  blocks, and closing, whatever windows these are asked for: in the group, in another one, in none, or the
  window itself.  No window is twice in a group, nor in two; the tab shown is one of the group; exactly the
  windows of its list point to it; no window points to a group that is gone, so that making a window a tab
  and taking it out never follow a dangling pointer.  A group that loses its last but one window is deleted,
  and one that was created for a window that could not join goes again.\<close>

theorem tab_session_ok:
  assumes "tab_session gs w"
  shows "tab_groups_ok gs w \<and> detab c gs w \<noteq> None \<and>
    (gs i = None \<longrightarrow> tab_to i c other behind activate tr gs w \<noteq> None)"
  using tab_session_groups [OF assms] detab_ok [of gs w c] tab_to_ok [of gs w i c other behind activate tr] by auto

text \<open>Two windows become tabs; one of them cannot join again, and no window outside can be shown.\<close>

definition eager_trial :: tab_trial where
  "eager_trial = \<lparr>tr_decorated = True, tr_states_taken = True, tr_painted = True, tr_focus_reasonable = True\<rparr>"

lemma tab_add_joins:
  assumes "c \<notin> set (t_clients t)" "d \<in> set (t_clients t)"
    and "v = setGeometry c (geometry w (t_current t)) NormalGeometrySet w" "geometry v c = geometry v (t_current t)"
  shows "\<exists>t' w'. tab_add c (Some d) after True eager_trial t w = (True, t', w') \<and>
    t_clients t' = q_insert (tab_index t (Some d) after) c (t_clients t) \<and> t_current t' = c"
proof -
  have c: "t_clients (fst (tab_align c t v)) = t_clients t" "t_current (fst (tab_align c t v)) = t_current t"
    by (simp_all add: tab_align_def tab_states_due_def)
  have j: "t_clients (fst (tab_join c (Some d) after t1 w1)) = q_insert (tab_index t1 (Some d) after) c (t_clients t1)" for t1 w1
    by (simp add: tab_join_def Let_def)
  have s: "t_clients (fst (tab_shown_first c True eager_trial t1 w1)) = t_clients t1"
    "c \<in> set (t_clients t1) \<Longrightarrow> t_current (fst (tab_shown_first c True eager_trial t1 w1)) = c" for t1 w1
    by (simp_all add: tab_shown_first_def eager_trial_def tab_show_def tab_contains_def Let_def case_prod_unfold)
  show ?thesis
    using assms(1,2,4)
    by (simp add: tab_add_def tab_contains_def eager_trial_def [THEN arg_cong [where f = tr_decorated]]
        eager_trial_def [THEN arg_cong [where f = tr_states_taken]] flip: assms(3))
      (simp add: Let_def case_prod_unfold s j c tab_index_def)
qed

lemma tab_session_ok_witness:
  "\<exists>gs w t. tab_session gs w \<and> tab_groups_ok gs w \<and> gs 7 = Some t \<and> t_clients t = [2, 1] \<and> t_current t = 1 \<and>
     on_group 7 (tab_show 3 False) gs w = (gs, w)"
proof -
  have none: "tab_group (cl example_screen d) = None" for d
    by (simp add: example_screen_def empty_session_def plain_client_def world.defs)
  let ?t = "fst (new_tabs 7 2 example_screen)"
  let ?w = "snd (new_tabs 7 2 example_screen)"
  have new: "t_clients ?t = [2]" "t_current ?t = 2" "tab_group (cl ?w 1) = None"
    using none by (simp_all add: new_tabs_def Let_def setTabGroup_sel)
  have geo: "geometry (setGeometry 1 (geometry ?w (t_current ?t)) NormalGeometrySet ?w) 1 =
      geometry (setGeometry 1 (geometry ?w (t_current ?t)) NormalGeometrySet ?w) (t_current ?t)"
    by code_simp
  have "tab_index ?t (Some 2) True = 1" by (simp add: tab_index_def new)
  then obtain t w where a: "tab_add 1 (Some 2) True True eager_trial ?t ?w = (True, t, w)" "t_clients t = [2, 1]" "t_current t = 1"
    using tab_add_joins [OF _ _ refl geo, of 2 True] new by (auto simp: q_insert_def)
  define gs :: tab_table where "gs = (\<lambda>_. None)(7 := Some t)"
  have "tab_to 7 1 2 True True eager_trial (\<lambda>_. None) example_screen = Some (True, gs, w)"
    using none a by (simp add: tab_to_def detab_def entab_def group_for_def case_prod_unfold Let_def gs_def)
  then have s: "tab_session gs w" by (rule tab_joined [OF tab_start [OF none] refl])
  have t: "gs 7 = Some t" by (simp add: gs_def)
  have "on_group 7 (tab_show 3 False) gs w = (gs, w)"
    using a(2,3) t by (simp add: on_group_def tab_show_def tab_contains_def fun_upd_idem)
  moreover have "tab_groups_ok gs w" using tab_session_ok [OF s, of 1 8 3] by blast
  ultimately show ?thesis using s t a(2,3) by blast
qed

end
