(* ===== verification/ScreenEdges.thy ===== *)
theory ScreenEdges
  imports Rects VirtualDesktops
begin

text \<open>
  \<^verbatim>\<open>screenedge.cpp\<close>: the edges and corners of the screens that do something when the pointer is pushed
  against them.  An edge is reserved by actions, effects and desktop switching; it is triggered by events
  of the pointer at given times; it stands along the outer borders of the screens.

  A time is a number of milliseconds, \<open>None\<close> an invalid \<open>QDateTime\<close>.  What goes to the X server, to other
  components and to effects is a call.  The answers of effects, the rectangles of a region, and the
  desktop the rules of a window allow are fields of the session.  \<open>None\<close> as a result stands for a failing
  assertion of the desktop navigation.
\<close>

section \<open>State\<close>

datatype ElectricBorder =
    ElectricTop | ElectricTopRight | ElectricRight | ElectricBottomRight
  | ElectricBottom | ElectricBottomLeft | ElectricLeft | ElectricTopLeft | ElectricNone

datatype ElectricBorderAction = ElectricActionNone | ElectricActionShowDesktop | ElectricActionLockScreen

text \<open>An edge; \<open>e_id\<close> names it in the calls.  \<open>e_callbacks\<close> are the objects of the hash in its order.\<close>

record edge =
  e_id :: nat
  e_border :: ElectricBorder
  e_action :: ElectricBorderAction
  e_reserved :: int
  e_geometry :: rect
  e_approach :: rect
  e_lastTrigger :: "int option"
  e_lastReset :: "int option"
  e_triggeredPoint :: point
  e_callbacks :: "nat list"
  e_approaching :: bool
  e_factor :: int
  e_blocked :: bool
  e_pushBackBlocked :: bool
  e_client :: "nat option"
  e_window :: bool
  e_approachWindow :: bool

definition new_edge :: "nat \<Rightarrow> edge" where
  "new_edge i = \<lparr>e_id = i, e_border = ElectricNone, e_action = ElectricActionNone, e_reserved = 0,
     e_geometry = no_rect, e_approach = no_rect, e_lastTrigger = None, e_lastReset = None,
     e_triggeredPoint = (0, 0), e_callbacks = [], e_approaching = False, e_factor = 0, e_blocked = False,
     e_pushBackBlocked = False, e_client = None, e_window = False, e_approachWindow = False\<rparr>"

datatype ecall =
    CreateEdgeWindow nat rect
  | CreateApproachWindow nat rect
  | MapEdgeWindow nat bool
  | MapApproachWindow nat bool
  | ResetWindows nat
  | MoveEdgeWindows nat rect rect
  | MousePolling nat bool
  | Approaching ElectricBorder int rect
  | SetCursor point
  | ShowOnScreenEdge nat
  | ToggleShowingDesktop
  | LockScreen
  | DeleteEdge nat
  | InvokeCallback nat ElectricBorder

record edge_session =
  s_edges :: "edge list"
  s_next :: nat
  s_x11 :: bool
  s_switching :: bool
  s_switchingMoving :: bool
  s_pushBack :: "int \<times> int"
  s_timeThreshold :: int
  s_reactivate :: int
  s_layout :: "bool \<times> bool"
  s_actions :: "ElectricBorder \<Rightarrow> ElectricBorderAction"
  s_cornerOffset :: int
  s_screens :: "rect list"
  s_display :: "int \<times> int"
  s_fullArea :: rect
  s_desktops :: manager
  s_moving :: "(nat \<times> bool) option"
  s_fullscreen :: "rect option"
  s_ruleDesktop :: "nat \<Rightarrow> int \<Rightarrow> int"
  s_callback :: "nat \<Rightarrow> ElectricBorder \<Rightarrow> bool"
  s_parts :: "rect \<Rightarrow> rect list \<Rightarrow> rect list"
  s_client_geometry :: "nat \<Rightarrow> rect"
  s_calls :: "ecall list"

definition ecall :: "ecall \<Rightarrow> edge_session \<Rightarrow> edge_session" where
  "ecall a s = s\<lparr>s_calls := s_calls s @ [a]\<rparr>"

type_synonym edge_op = "edge \<times> edge_session \<Rightarrow> edge \<times> edge_session"

section \<open>An edge\<close>

definition isLeft :: "edge \<Rightarrow> bool" where
  "isLeft e = (e_border e \<in> {ElectricLeft, ElectricTopLeft, ElectricBottomLeft})"

definition isRight :: "edge \<Rightarrow> bool" where
  "isRight e = (e_border e \<in> {ElectricRight, ElectricTopRight, ElectricBottomRight})"

definition isTop :: "edge \<Rightarrow> bool" where
  "isTop e = (e_border e \<in> {ElectricTop, ElectricTopLeft, ElectricTopRight})"

definition isBottom :: "edge \<Rightarrow> bool" where
  "isBottom e = (e_border e \<in> {ElectricBottom, ElectricBottomLeft, ElectricBottomRight})"

definition isCorner :: "edge \<Rightarrow> bool" where
  "isCorner e = (e_border e \<in> {ElectricTopLeft, ElectricTopRight, ElectricBottomRight, ElectricBottomLeft})"

definition isScreenEdge :: "edge \<Rightarrow> bool" where
  "isScreenEdge e = (e_border e \<in> {ElectricLeft, ElectricRight, ElectricTop, ElectricBottom})"

definition isReserved :: "edge \<Rightarrow> bool" where
  "isReserved e = (e_reserved e \<noteq> 0)"

text \<open>The windows of an edge, on X11.\<close>

definition doUpdateBlocking :: edge_op where
  "doUpdateBlocking p =
     (case p of (e, s) \<Rightarrow>
        (e, if \<not> s_x11 s \<or> \<not> isReserved e then s
            else ecall (MapApproachWindow (e_id e) (\<not> e_blocked e)) (ecall (MapEdgeWindow (e_id e) (\<not> e_blocked e)) s)))"

definition createWindow :: edge_op where
  "createWindow p =
     (case p of (e, s) \<Rightarrow>
        if e_window e then (e, s)
        else (e\<lparr>e_window := True\<rparr>, ecall (MapEdgeWindow (e_id e) True) (ecall (CreateEdgeWindow (e_id e) (e_geometry e)) s)))"

definition createApproachWindow :: edge_op where
  "createApproachWindow p =
     (case p of (e, s) \<Rightarrow>
        if e_approachWindow e \<or> \<not> rect_isValid (e_approach e) then (e, s)
        else (e\<lparr>e_approachWindow := True\<rparr>,
              ecall (MapApproachWindow (e_id e) True) (ecall (CreateApproachWindow (e_id e) (e_approach e)) s)))"

definition activate :: edge_op where
  "activate p =
     (if s_x11 (snd p) then doUpdateBlocking (createApproachWindow (createWindow p)) else p)"

definition deactivate :: edge_op where
  "deactivate p =
     (case p of (e, s) \<Rightarrow>
        if s_x11 s then (e\<lparr>e_window := False, e_approachWindow := False\<rparr>, ecall (ResetWindows (e_id e)) s) else (e, s))"

text \<open>Approaching: the factor is that of \<open>updateApproaching\<close>, of 256.\<close>

definition approach_start :: edge_op where
  "approach_start p =
     (case p of (e, s) \<Rightarrow>
        if e_approaching e then (e, s)
        else
          let s = (if s_x11 s then ecall (MousePolling (e_id e) True) (ecall (MapApproachWindow (e_id e) False) s) else s)
          in (e\<lparr>e_approaching := True, e_factor := 0\<rparr>, ecall (Approaching (e_border e) 0 (e_approach e)) s))"

definition approach_stop :: edge_op where
  "approach_stop p =
     (case p of (e, s) \<Rightarrow>
        if \<not> e_approaching e then (e, s)
        else
          let s = (if s_x11 s then ecall (MapApproachWindow (e_id e) True) (ecall (MousePolling (e_id e) False) s) else s)
          in (e\<lparr>e_approaching := False, e_factor := 0\<rparr>, ecall (Approaching (e_border e) 0 (e_approach e)) s))"

definition manhattan :: "point \<Rightarrow> int" where
  "manhattan q = \<bar>fst q\<bar> + \<bar>snd q\<bar>"

definition approach_factor :: "edge \<Rightarrow> point \<Rightarrow> int \<Rightarrow> int" where
  "approach_factor e q edgeDistance =
     (let a = e_approach e; x = fst q; y = snd q; corner = 2 * edgeDistance in
      256 - (case e_border e of
          ElectricTopLeft \<Rightarrow> c_div (manhattan q * 256) corner
        | ElectricTopRight \<Rightarrow> c_div (manhattan (x - rx2 a, y - ry1 a) * 256) corner
        | ElectricBottomRight \<Rightarrow> c_div (manhattan (x - rx2 a, y - ry2 a) * 256) corner
        | ElectricBottomLeft \<Rightarrow> c_div (manhattan (x - rx1 a, y - ry2 a) * 256) corner
        | ElectricTop \<Rightarrow> c_div (\<bar>y - ry1 a\<bar> * 256) edgeDistance
        | ElectricRight \<Rightarrow> c_div (\<bar>x - rx2 a\<bar> * 256) edgeDistance
        | ElectricBottom \<Rightarrow> c_div (\<bar>y - ry2 a\<bar> * 256) edgeDistance
        | ElectricLeft \<Rightarrow> c_div (\<bar>x - rx1 a\<bar> * 256) edgeDistance
        | ElectricNone \<Rightarrow> 0))"

definition updateApproaching :: "point \<Rightarrow> edge_op" where
  "updateApproaching q p =
     (case p of (e, s) \<Rightarrow>
        if contains_point (e_approach e) q then
          let f = approach_factor e q (s_cornerOffset s) in
          if e_factor e = f then (e, s)
          else (e\<lparr>e_factor := f\<rparr>, ecall (Approaching (e_border e) f (e_approach e)) s)
        else approach_stop (e, s))"

section \<open>Reserving an edge\<close>

definition edge_reserve :: edge_op where
  "edge_reserve p =
     (case p of (e, s) \<Rightarrow>
        let e = e\<lparr>e_reserved := e_reserved e + 1\<rparr> in if e_reserved e = 1 then activate (e, s) else (e, s))"

definition edge_unreserve :: edge_op where
  "edge_unreserve p =
     (case p of (e, s) \<Rightarrow>
        let e = e\<lparr>e_reserved := e_reserved e - 1\<rparr> in
        if e_reserved e = 0 then deactivate (approach_stop (e, s)) else (e, s))"

text \<open>By an object with a slot, as effects and scripts do; its key is in the hash once.\<close>

definition edge_reserveFor :: "nat \<Rightarrow> edge_op" where
  "edge_reserveFor obj p =
     (case p of (e, s) \<Rightarrow>
        edge_reserve (e\<lparr>e_callbacks := if obj \<in> set (e_callbacks e) then e_callbacks e else e_callbacks e @ [obj]\<rparr>, s))"

definition edge_unreserveFor :: "nat \<Rightarrow> edge_op" where
  "edge_unreserveFor obj p =
     (case p of (e, s) \<Rightarrow>
        if obj \<in> set (e_callbacks e)
        then edge_unreserve (e\<lparr>e_callbacks := removeAll obj (e_callbacks e)\<rparr>, s) else (e, s))"

section \<open>Triggering an edge\<close>

definition DISTANCE_RESET :: int where
  "DISTANCE_RESET = 30"

definition triggersFor :: "edge \<Rightarrow> point \<Rightarrow> bool" where
  "triggersFor e q =
     (\<not> e_blocked e \<and> contains_point (e_geometry e) q \<and>
      \<not> (isLeft e \<and> fst q \<noteq> rx1 (e_geometry e)) \<and>
      \<not> (isRight e \<and> fst q \<noteq> rx1 (e_geometry e) + rwidth (e_geometry e) - 1) \<and>
      \<not> (isTop e \<and> snd q \<noteq> ry1 (e_geometry e)) \<and>
      \<not> (isBottom e \<and> snd q \<noteq> ry1 (e_geometry e) + rheight (e_geometry e) - 1))"

definition cooling :: "edge_session \<Rightarrow> edge \<Rightarrow> int \<Rightarrow> bool" where
  "cooling s e now =
     (case e_lastTrigger e of None \<Rightarrow> False | Some t \<Rightarrow> now - t < s_reactivate s - s_timeThreshold s)"

definition markAsTriggered :: "point \<Rightarrow> int \<Rightarrow> edge \<Rightarrow> edge" where
  "markAsTriggered q now e = e\<lparr>e_lastTrigger := Some now, e_lastReset := None, e_triggeredPoint := q\<rparr>"

definition canActivate :: "edge_session \<Rightarrow> point \<Rightarrow> int \<Rightarrow> edge \<Rightarrow> bool \<times> edge" where
  "canActivate s q now e =
     (case e_lastReset e of
        None \<Rightarrow> (False, e\<lparr>e_lastReset := Some now\<rparr>)
      | Some r \<Rightarrow>
          if now - r > s_reactivate s then (False, e\<lparr>e_lastReset := Some now\<rparr>)
          else if cooling s e now then (False, e)
          else if now - r < s_timeThreshold s then (False, e)
          else if manhattan (fst q - fst (e_triggeredPoint e), snd q - snd (e_triggeredPoint e)) > DISTANCE_RESET then (False, e)
          else (True, e))"

definition pushCursorBack :: "point \<Rightarrow> edge \<Rightarrow> edge_session \<Rightarrow> edge_session" where
  "pushCursorBack q e s =
     (if e_pushBackBlocked e then s
      else
        let (dx, dy) = s_pushBack s;
            x = fst q + (if isLeft e then dx else 0) - (if isRight e then dx else 0);
            y = snd q + (if isTop e then dy else 0) - (if isBottom e then dy else 0)
        in ecall (SetCursor (x, y)) s)"

definition navigated :: "manager \<Rightarrow> direction \<Rightarrow> uint \<Rightarrow> uint option" where
  "navigated m dir d =
     (case direction_apply m dir d (m_navigationWrapsAround m) of Some (Inr d) \<Rightarrow> Some d | _ \<Rightarrow> None)"

definition switch_across :: "edge_session \<Rightarrow> edge \<Rightarrow> uint \<times> point \<Rightarrow> (uint \<times> point) option" where
  "switch_across s e dp =
     (case dp of (d, x, y) \<Rightarrow>
        if isLeft e then map_option (\<lambda>n. (n, if n \<noteq> d then fst (s_display s) - 1 - 2 else x, y)) (navigated (s_desktops s) DesktopLeft d)
        else if isRight e then map_option (\<lambda>n. (n, if n \<noteq> d then 2 else x, y)) (navigated (s_desktops s) DesktopRight d)
        else Some (d, x, y))"

definition switch_updown :: "edge_session \<Rightarrow> edge \<Rightarrow> uint \<times> point \<Rightarrow> (uint \<times> point) option" where
  "switch_updown s e dp =
     (case dp of (d, x, y) \<Rightarrow>
        if isTop e then map_option (\<lambda>n. (n, x, if n \<noteq> d then snd (s_display s) - 1 - 2 else y)) (navigated (s_desktops s) DesktopAbove d)
        else if isBottom e then map_option (\<lambda>n. (n, x, if n \<noteq> d then 2 else y)) (navigated (s_desktops s) DesktopBelow d)
        else Some (d, x, y))"

text \<open>The block of pushing back ends when the event loop is about to sleep (\<open>unblockPushBack\<close>).\<close>

definition edge_switchDesktop :: "point \<Rightarrow> edge \<times> edge_session \<Rightarrow> (edge \<times> edge_session) option" where
  "edge_switchDesktop q p =
     (case p of (e, s) \<Rightarrow> do {
        let old = m_current (s_desktops s);
        dp \<leftarrow> switch_across s e (old, q);
        (d, pos) \<leftarrow> switch_updown s e dp;
        if (case s_moving s of None \<Rightarrow> False | Some (c, _) \<Rightarrow> s_ruleDesktop s c (sint d) \<noteq> sint d)
        then Some (e, s)
        else
          let s = s\<lparr>s_desktops := fst (setCurrent d (s_desktops s))\<rparr> in
          if m_current (s_desktops s) \<noteq> old
          then Some (e\<lparr>e_pushBackBlocked := True\<rparr>, ecall (SetCursor pos) s) else Some (e, s)
      })"

definition unblockPushBack :: "edge \<Rightarrow> edge" where
  "unblockPushBack e = e\<lparr>e_pushBackBlocked := False\<rparr>"

text \<open>The built-in actions; the objects that reserved the edge are asked in their order.\<close>

definition handleAction :: "edge \<Rightarrow> edge_session \<Rightarrow> bool \<times> edge_session" where
  "handleAction e s =
     (case e_action e of
        ElectricActionShowDesktop \<Rightarrow> (True, ecall ToggleShowingDesktop s)
      | ElectricActionLockScreen \<Rightarrow> (True, ecall LockScreen s)
      | ElectricActionNone \<Rightarrow> (False, s))"

primrec ask_callbacks :: "ElectricBorder \<Rightarrow> nat list \<Rightarrow> edge_session \<Rightarrow> bool \<times> edge_session" where
  "ask_callbacks b [] s = (False, s)"
| "ask_callbacks b (obj # objs) s =
     (let s = ecall (InvokeCallback obj b) s in
      if s_callback s obj b then (True, s) else ask_callbacks b objs s)"

definition handleByCallback :: "edge \<Rightarrow> edge_session \<Rightarrow> bool \<times> edge_session" where
  "handleByCallback e s = ask_callbacks (e_border e) (e_callbacks e) s"

definition edge_handle :: "point \<Rightarrow> edge \<times> edge_session \<Rightarrow> (edge \<times> edge_session) option" where
  "edge_handle q p =
     (case p of (e, s) \<Rightarrow>
        if s_switchingMoving s \<and> (case s_moving s of None \<Rightarrow> False | Some (_, resize) \<Rightarrow> \<not> resize) \<or>
           s_switching s \<and> isScreenEdge e
        then edge_switchDesktop q (e, s)
        else if s_moving s \<noteq> None then Some (e, s)
        else case e_client e of
          Some c \<Rightarrow> Some (edge_unreserve (e, ecall (ShowOnScreenEdge c) (pushCursorBack q e s)))
        | None \<Rightarrow>
            let (acted, s) = handleAction e s;
                (acted, s) = (if acted then (True, s) else handleByCallback e s) in
            if acted then Some (e, pushCursorBack q e s)
            else if s_switching s \<and> isCorner e then edge_switchDesktop q (e, s)
            else Some (e, s))"

definition edge_check :: "point \<Rightarrow> int \<Rightarrow> bool \<Rightarrow> edge \<times> edge_session \<Rightarrow> (bool \<times> edge \<times> edge_session) option" where
  "edge_check q now forceNoPushBack p =
     (case p of (e, s) \<Rightarrow>
        if \<not> triggersFor e q \<or> cooling s e now then Some (False, e, s)
        else
          let direct = (forceNoPushBack \<or> s_pushBack s = (0, 0) \<or> e_client e \<noteq> None);
              (can, e) = (if direct then (True, e) else canActivate s q now e)
          in if can then map_option (Pair True) (edge_handle q (markAsTriggered q now e, s))
             else Some (False, e\<lparr>e_triggeredPoint := q\<rparr>, pushCursorBack q e s))"

section \<open>Where an edge is\<close>

definition approach_rect :: "edge \<Rightarrow> int \<Rightarrow> rect \<Rightarrow> rect" where
  "approach_rect e k g =
     (let x = rx1 g; y = ry1 g; w = rwidth g; h = rheight g in
      if isCorner e then
        mk_rect (if isRight e then x - k + 1 else x, if isBottom e then y - k + 1 else y) (k, k)
      else if isLeft e then mk_rect (x, y + k + 1) (k, h - k * 2)
      else if isRight e then mk_rect (x - k + 1, y + k) (k, h - k * 2)
      else if isTop e then mk_rect (x + k, y) (w - k * 2, k)
      else if isBottom e then mk_rect (x + k, y - k + 1) (w - k * 2, k)
      else mk_rect (x, y) (w, h))"

definition edge_setGeometry :: "rect \<Rightarrow> edge_op" where
  "edge_setGeometry g p =
     (case p of (e, s) \<Rightarrow>
        if e_geometry e = g then (e, s)
        else
          let a = approach_rect e (s_cornerOffset s) g
          in (e\<lparr>e_geometry := g, e_approach := a\<rparr>,
              if s_x11 s then ecall (MoveEdgeWindows (e_id e) g a) s else s))"

text \<open>A full screen window blocks the border it lies at; corners are never blocked.\<close>

definition edge_checkBlocking :: edge_op where
  "edge_checkBlocking p =
     (case p of (e, s) \<Rightarrow>
        if isCorner e then (e, s)
        else
          let new = (case s_fullscreen s of None \<Rightarrow> False | Some g \<Rightarrow> contains_point g (rcenter (e_geometry e)))
          in if new = e_blocked e then (e, s) else doUpdateBlocking (e\<lparr>e_blocked := new\<rparr>, s))"

section \<open>All edges\<close>

definition at_edge :: "edge_op \<Rightarrow> nat \<Rightarrow> edge_session \<Rightarrow> edge_session" where
  "at_edge f i s = (let (e, s) = f (s_edges s ! i, s) in s\<lparr>s_edges := (s_edges s)[i := e]\<rparr>)"

definition each_edge :: "(edge \<Rightarrow> bool) \<Rightarrow> edge_op \<Rightarrow> edge_session \<Rightarrow> edge_session" where
  "each_edge P f s = fold (\<lambda>i s. if P (s_edges s ! i) then at_edge f i s else s) [0..<length (s_edges s)] s"

definition edges_checkBlocking :: "edge_session \<Rightarrow> edge_session" where
  "edges_checkBlocking s = each_edge isScreenEdge edge_checkBlocking s"

definition setActionForBorder :: "ElectricBorder \<Rightarrow> ElectricBorderAction \<Rightarrow> edge_session \<Rightarrow> edge_session" where
  "setActionForBorder b new s =
     (let old = s_actions s b in
      if old = new then s
      else
        let s = (if old = ElectricActionNone then each_edge (\<lambda>e. e_border e = b) edge_reserve s else s);
            s = (if new = ElectricActionNone then each_edge (\<lambda>e. e_border e = b) edge_unreserve s else s);
            s = s\<lparr>s_actions := (s_actions s)(b := new)\<rparr>
        in each_edge (\<lambda>e. e_border e = b) (\<lambda>(e, s). (e\<lparr>e_action := new\<rparr>, s)) s)"

definition switching_edge :: "bool \<times> bool \<Rightarrow> edge \<Rightarrow> bool" where
  "switching_edge layout e =
     (isCorner e \<or> fst layout \<and> (isLeft e \<or> isRight e) \<or> snd layout \<and> (isTop e \<or> isBottom e))"

text \<open>A border edge is reserved by both orientations at most once: it is vertical or horizontal.\<close>

definition reserveDesktopSwitching :: "bool \<Rightarrow> bool \<times> bool \<Rightarrow> edge_session \<Rightarrow> edge_session" where
  "reserveDesktopSwitching isToReserve layout s =
     (if layout = (False, False) then s
      else each_edge (switching_edge (s_layout s)) (if isToReserve then edge_reserve else edge_unreserve) s)"

definition setDesktopSwitching :: "bool \<Rightarrow> edge_session \<Rightarrow> edge_session" where
  "setDesktopSwitching enable s =
     (if enable = s_switching s then s
      else reserveDesktopSwitching enable (s_layout s) (s\<lparr>s_switching := enable\<rparr>))"

definition edges_updateLayout :: "edge_session \<Rightarrow> edge_session" where
  "edges_updateLayout s =
     (let g = m_grid (s_desktops s); layout = (grid_width g > 1, grid_height g > 1) in
      if layout = s_layout s then s
      else
        let s = (if s_switching s then reserveDesktopSwitching False (s_layout s) s else s);
            s = s\<lparr>s_layout := layout\<rparr>
        in if s_switching s then reserveDesktopSwitching True (s_layout s) s else s)"

text \<open>\<open>reconfigure\<close>, after the configuration was read: delay, cooldown, the mode of desktop switching
  (\<open>0\<close> disabled, \<open>1\<close> for moved windows only, \<open>2\<close> always), the distance of pushing back and the actions.\<close>

definition edges_reconfigure ::
    "int \<Rightarrow> int \<Rightarrow> int \<Rightarrow> int \<Rightarrow> (ElectricBorder \<Rightarrow> ElectricBorderAction) \<Rightarrow> edge_session \<Rightarrow> edge_session" where
  "edges_reconfigure delay cooldown mode pushBack actions s =
     (let s = s\<lparr>s_timeThreshold := delay, s_reactivate := max (delay + 50) cooldown\<rparr>;
          s = (if mode = 0 then (setDesktopSwitching False s)\<lparr>s_switchingMoving := False\<rparr>
               else if mode = 1 then (setDesktopSwitching False s)\<lparr>s_switchingMoving := True\<rparr>
               else if mode = 2 then (setDesktopSwitching True s)\<lparr>s_switchingMoving := True\<rparr>
               else s);
          s = s\<lparr>s_pushBack := (pushBack, pushBack)\<rparr>
      in fold (\<lambda>b. setActionForBorder b (actions b))
           [ElectricTopLeft, ElectricTop, ElectricTopRight, ElectricRight, ElectricBottomRight, ElectricBottom,
            ElectricBottomLeft, ElectricLeft] s)"

section \<open>Creating the edges\<close>

definition isLeftScreen :: "edge_session \<Rightarrow> rect \<Rightarrow> rect \<Rightarrow> bool" where
  "isLeftScreen s screen full =
     (length (s_screens s) = 1 \<or> rx1 screen = rx1 full \<or>
      \<not> (\<exists>g\<in>set (s_screens s). g \<noteq> screen \<and> rx1 g + rwidth g \<le> rx1 screen))"

definition isRightScreen :: "edge_session \<Rightarrow> rect \<Rightarrow> rect \<Rightarrow> bool" where
  "isRightScreen s screen full =
     (length (s_screens s) = 1 \<or> rx1 screen + rwidth screen = rx1 full + rwidth full \<or>
      \<not> (\<exists>g\<in>set (s_screens s). g \<noteq> screen \<and> rx1 g \<ge> rx1 screen + rwidth screen))"

definition isTopScreen :: "edge_session \<Rightarrow> rect \<Rightarrow> rect \<Rightarrow> bool" where
  "isTopScreen s screen full =
     (length (s_screens s) = 1 \<or> ry1 screen = ry1 full \<or>
      \<not> (\<exists>g\<in>set (s_screens s). g \<noteq> screen \<and> ry1 g + rheight g \<le> ry1 screen))"

definition isBottomScreen :: "edge_session \<Rightarrow> rect \<Rightarrow> rect \<Rightarrow> bool" where
  "isBottomScreen s screen full =
     (length (s_screens s) = 1 \<or> ry1 screen + rheight screen = ry1 full + rheight full \<or>
      \<not> (\<exists>g\<in>set (s_screens s). g \<noteq> screen \<and> ry1 g \<ge> ry1 screen + rheight screen))"

definition actionForEdge :: "edge_session \<Rightarrow> edge \<Rightarrow> ElectricBorderAction" where
  "actionForEdge s e = (if e_border e = ElectricNone then ElectricActionNone else s_actions s (e_border e))"

definition createEdge :: "ElectricBorder \<Rightarrow> int \<Rightarrow> int \<Rightarrow> int \<Rightarrow> int \<Rightarrow> bool \<Rightarrow> edge_session \<Rightarrow> edge \<times> edge_session" where
  "createEdge b x y width height createAction s =
     (let (e, s) = edge_setGeometry (mk_rect (x, y) (width, height))
            ((new_edge (s_next s))\<lparr>e_border := b\<rparr>, s\<lparr>s_next := s_next s + 1\<rparr>);
          act = actionForEdge s e;
          (e, s) = (if createAction \<and> act \<noteq> ElectricActionNone
            then (case edge_reserve (e, s) of (e, s) \<Rightarrow> (e\<lparr>e_action := act\<rparr>, s)) else (e, s))
      in if s_switching s \<and> switching_edge (s_layout s) e then edge_reserve (e, s) else (e, s))"

definition addEdge :: "ElectricBorder \<Rightarrow> int \<Rightarrow> int \<Rightarrow> int \<Rightarrow> int \<Rightarrow> edge_session \<Rightarrow> edge_session" where
  "addEdge b x y width height s =
     (let (e, s) = createEdge b x y width height True s in s\<lparr>s_edges := s_edges s @ [e]\<rparr>)"

definition createVerticalEdge :: "bool \<Rightarrow> rect \<Rightarrow> rect \<Rightarrow> edge_session \<Rightarrow> edge_session" where
  "createVerticalEdge left screen full s =
     (let k = s_cornerOffset s; upper = isTopScreen s screen full; lower = isBottomScreen s screen full;
          x = (if left then rx1 screen else rx1 screen + rwidth screen - 1);
          y = ry1 screen + (if upper then k else 0);
          height = rheight screen - (if upper then k else 0) - (if lower then k else 0);
          s = (if upper then addEdge (if left then ElectricTopLeft else ElectricTopRight) x (ry1 screen) 1 1 s else s);
          s = (if lower
               then addEdge (if left then ElectricBottomLeft else ElectricBottomRight) x
                 (ry1 screen + rheight screen - 1) 1 1 s else s)
      in addEdge (if left then ElectricLeft else ElectricRight) x y 1 height s)"

definition createHorizontalEdge :: "bool \<Rightarrow> rect \<Rightarrow> rect \<Rightarrow> edge_session \<Rightarrow> edge_session" where
  "createHorizontalEdge upper screen full s =
     (let k = s_cornerOffset s; left = isLeftScreen s screen full; right = isRightScreen s screen full;
          x = rx1 screen + (if left then k else 0);
          width = rwidth screen - (if left then k else 0) - (if right then k else 0);
          y = (if upper then ry1 screen else ry1 screen + rheight screen - 1)
      in addEdge (if upper then ElectricTop else ElectricBottom) x y width 1 s)"

definition part_edges :: "rect \<Rightarrow> rect \<Rightarrow> edge_session \<Rightarrow> edge_session" where
  "part_edges full part s =
     (let s = (if isLeftScreen s part full then createVerticalEdge True part full s else s);
          s = (if isRightScreen s part full then createVerticalEdge False part full s else s);
          s = (if isTopScreen s part full then createHorizontalEdge True part full s else s)
      in if isBottomScreen s part full then createHorizontalEdge False part full s else s)"

text \<open>The parts of the screens that no earlier screen covers.\<close>

primrec screen_parts :: "(rect \<Rightarrow> rect list \<Rightarrow> rect list) \<Rightarrow> rect list \<Rightarrow> rect list \<Rightarrow> rect list" where
  "screen_parts parts done_list [] = []"
| "screen_parts parts done_list (g # gs) = parts g done_list @ screen_parts parts (done_list @ parts g done_list) gs"

text \<open>The reservations of the old edges, for one new edge.\<close>

definition copy_reservations :: "edge list \<Rightarrow> edge_op" where
  "copy_reservations old p =
     fold (\<lambda>d p. case e_client d of
         Some c \<Rightarrow> (fst p, ecall (ShowOnScreenEdge c) (snd p))
       | None \<Rightarrow>
           if e_border d \<noteq> e_border (fst p) then p
           else fold edge_reserveFor (e_callbacks d) p) old p"

definition recreateEdges :: "edge_session \<Rightarrow> edge_session" where
  "recreateEdges s =
     (let old = s_edges s; full = mk_rect (0, 0) (s_display s);
          s = fold (part_edges full) (screen_parts (s_parts s) [] (s_screens s)) (s\<lparr>s_edges := []\<rparr>);
          s = each_edge (\<lambda>_. True) (copy_reservations old) s
      in fold (\<lambda>d. ecall (DeleteEdge (e_id d))) old s)"

section \<open>Reservations\<close>

definition edges_reserve :: "ElectricBorder \<Rightarrow> nat \<Rightarrow> edge_session \<Rightarrow> edge_session" where
  "edges_reserve b obj = each_edge (\<lambda>e. e_border e = b) (edge_reserveFor obj)"

definition edges_unreserve :: "ElectricBorder \<Rightarrow> nat \<Rightarrow> edge_session \<Rightarrow> edge_session" where
  "edges_unreserve b obj = each_edge (\<lambda>e. e_border e = b) (edge_unreserveFor obj)"

definition deleteEdgeForClient :: "nat \<Rightarrow> edge_session \<Rightarrow> edge_session" where
  "deleteEdgeForClient c s =
     (fold (\<lambda>e. ecall (DeleteEdge (e_id e))) (filter (\<lambda>e. e_client e = Some c) (s_edges s)) s)
       \<lparr>s_edges := filter (\<lambda>e. e_client e \<noteq> Some c) (s_edges s)\<rparr>"

text \<open>The strip of a window at one border of its screen; \<open>None\<close>: this screen does not give it one.\<close>

definition client_strip :: "edge_session \<Rightarrow> rect \<Rightarrow> ElectricBorder \<Rightarrow> rect \<Rightarrow> (int \<times> int \<times> int \<times> int) option" where
  "client_strip s geo b screen =
     (let full = s_fullArea s in
      if \<not> contains_rect screen geo then None
      else if ry1 screen = ry1 geo \<and> b = ElectricTop then
        (if isTopScreen s screen full then Some (rx1 geo, ry1 geo, rwidth geo, 1) else None)
      else if ry1 screen + rheight screen = ry1 geo + rheight geo \<and> b = ElectricBottom then
        (if isBottomScreen s screen full then Some (rx1 geo, ry1 geo + rheight geo - 1, rwidth geo, 1) else None)
      else if rx1 screen = rx1 geo \<and> b = ElectricLeft then
        (if isLeftScreen s screen full then Some (rx1 geo, ry1 geo, 1, rheight geo) else None)
      else if rx1 screen + rwidth screen = rx1 geo + rwidth geo \<and> b = ElectricRight then
        (if isRightScreen s screen full then Some (rx1 geo + rwidth geo - 1, ry1 geo, 1, rheight geo) else None)
      else None)"

definition first_strip :: "edge_session \<Rightarrow> rect \<Rightarrow> ElectricBorder \<Rightarrow> (int \<times> int \<times> int \<times> int) option" where
  "first_strip s geo b = Option.bind (find (\<lambda>g. client_strip s geo b g \<noteq> None) (s_screens s)) (client_strip s geo b)"

definition createEdgeForClient :: "nat \<Rightarrow> ElectricBorder \<Rightarrow> edge_session \<Rightarrow> edge_session" where
  "createEdgeForClient c b s =
     (case first_strip s (s_client_geometry s c) b of
        None \<Rightarrow> ecall (ShowOnScreenEdge c) s
      | Some (x, y, width, height) \<Rightarrow>
          if width > 0 \<and> height > 0 then
            let (e, s) = createEdge b x y width height False s; (e, s) = edge_reserve (e\<lparr>e_client := Some c\<rparr>, s)
            in s\<lparr>s_edges := s_edges s @ [e]\<rparr>
          else ecall (ShowOnScreenEdge c) s)"

text \<open>A window asks to be shown by an edge, or no longer (\<open>ElectricNone\<close>): the edges before the first one at the
  border asked for are deleted when they are the window's.\<close>

primrec find_client_edge ::
    "nat \<Rightarrow> ElectricBorder \<Rightarrow> edge list \<Rightarrow> edge_session \<Rightarrow> bool \<times> bool \<times> edge list \<times> edge_session" where
  "find_client_edge c b [] s = (False, False, [], s)"
| "find_client_edge c b (e # es) s =
     (if e_client e = Some c then
        if e_border e = b then
          let (e, s) = (if isReserved e then (e, s) else edge_reserve (e, s)) in (True, True, e # es, s)
        else
          let (hit, had, es, s) = find_client_edge c b es (ecall (DeleteEdge (e_id e)) s) in (hit, True, es, s)
      else let (hit, had, es, s) = find_client_edge c b es s in (hit, had, e # es, s))"

definition reserveForClient :: "nat \<Rightarrow> ElectricBorder \<Rightarrow> edge_session \<Rightarrow> edge_session" where
  "reserveForClient c b s =
     (let (hit, had, es, s) = find_client_edge c b (s_edges s) s; s = s\<lparr>s_edges := es\<rparr> in
      if hit then s
      else if b \<noteq> ElectricNone then createEdgeForClient c b s
      else if had then ecall (ShowOnScreenEdge c) s else s)"

section \<open>Events\<close>

text \<open>A check at one edge, with the session it leaves; \<open>None\<close> as for \<open>edge_switchDesktop\<close>.\<close>

definition check_edge :: "point \<Rightarrow> int \<Rightarrow> bool \<Rightarrow> nat \<Rightarrow> edge_session \<Rightarrow> (bool \<times> edge_session) option" where
  "check_edge q now force i s =
     map_option (\<lambda>(b, e, s). (b, s\<lparr>s_edges := (s_edges s)[i := e]\<rparr>)) (edge_check q now force (s_edges s ! i, s))"

definition mark_edge :: "point \<Rightarrow> int \<Rightarrow> nat \<Rightarrow> edge_session \<Rightarrow> edge_session" where
  "mark_edge q now i s = s\<lparr>s_edges := (s_edges s)[i := markAsTriggered q now (s_edges s ! i)]\<rparr>"

definition check_round :: "point \<Rightarrow> int \<Rightarrow> bool \<Rightarrow> nat \<Rightarrow> bool \<times> edge_session \<Rightarrow> (bool \<times> edge_session) option" where
  "check_round q now force i fs =
     (case fs of (for_client, s) \<Rightarrow>
        if \<not> isReserved (s_edges s ! i) then Some (for_client, s)
        else
          let s = (if contains_point (e_approach (s_edges s ! i)) q then at_edge approach_start i s else s) in
          if e_client (s_edges s ! i) \<noteq> None \<and> for_client then Some (for_client, mark_edge q now i s)
          else map_option (\<lambda>(b, s). (for_client \<or> b \<and> e_client (s_edges s ! i) \<noteq> None, s)) (check_edge q now force i s))"

definition edges_check :: "point \<Rightarrow> int \<Rightarrow> bool \<Rightarrow> edge_session \<Rightarrow> edge_session option" where
  "edges_check q now force s =
     map_option snd (foldM (check_round q now force) [0..<length (s_edges s)] (False, s))"

definition mark_client_edges :: "point \<Rightarrow> int \<Rightarrow> edge_session \<Rightarrow> edge_session" where
  "mark_client_edges q now = each_edge (\<lambda>e. e_client e \<noteq> None) (\<lambda>(e, s). (markAsTriggered q now e, s))"

text \<open>A motion of the pointer, as the Wayland backends report it.\<close>

definition motion_round :: "point \<Rightarrow> int \<Rightarrow> nat \<Rightarrow> bool \<times> edge_session \<Rightarrow> (bool \<times> edge_session) option" where
  "motion_round q now i fs =
     (case fs of (for_client, s) \<Rightarrow>
        let e = s_edges s ! i in
        if \<not> isReserved e then Some (for_client, s)
        else
          let s = (if contains_point (e_approach e) q
                   then at_edge (if e_approaching e then updateApproaching q else approach_start) i s
                   else if e_approaching e then at_edge approach_stop i s else s)
          in if contains_point (e_geometry e) q
             then map_option (\<lambda>(b, s). (for_client \<or> b \<and> e_client (s_edges s ! i) \<noteq> None, s)) (check_edge q now False i s)
             else Some (for_client, s))"

definition isEntered :: "point \<Rightarrow> int \<Rightarrow> edge_session \<Rightarrow> edge_session option" where
  "isEntered q now s =
     map_option (\<lambda>(for_client, s). if for_client then mark_client_edges q now s else s)
       (foldM (motion_round q now) [0..<length (s_edges s)] (False, s))"

text \<open>The pointer enters a window: that of an edge (\<open>Inl\<close>), its approach window (\<open>Inr\<close>), by the name of the edge.\<close>

definition entered_edge :: "nat + nat \<Rightarrow> edge \<Rightarrow> bool" where
  "entered_edge x e =
     (isReserved e \<and> (case x of Inl i \<Rightarrow> e_window e \<and> e_id e = i | Inr i \<Rightarrow> e_approachWindow e \<and> e_id e = i))"

definition handleEnterNotify :: "nat + nat \<Rightarrow> point \<Rightarrow> int \<Rightarrow> edge_session \<Rightarrow> (bool \<times> edge_session) option" where
  "handleEnterNotify x q now s =
     (case find (\<lambda>i. entered_edge x (s_edges s ! i)) [0..<length (s_edges s)] of
        None \<Rightarrow> Some (False, s)
      | Some i \<Rightarrow>
          (case x of
             Inr _ \<Rightarrow> Some (True, at_edge approach_start i s)
           | Inl _ \<Rightarrow> map_option
               (\<lambda>(b, s). (True, if b \<and> e_client (s_edges s ! i) \<noteq> None then mark_client_edges q now s else s))
               (check_edge q now False i s)))"

definition handleDndNotify :: "nat \<Rightarrow> point \<Rightarrow> int \<Rightarrow> edge_session \<Rightarrow> (bool \<times> edge_session) option" where
  "handleDndNotify x q now s =
     (case find (\<lambda>i. entered_edge (Inl x) (s_edges s ! i)) [0..<length (s_edges s)] of
        None \<Rightarrow> Some (False, s)
      | Some i \<Rightarrow> map_option (\<lambda>(b, s). (True, s)) (check_edge q now True i s))"

text \<open>The windows above everything, by the names of their edges.\<close>

definition edge_windows :: "edge_session \<Rightarrow> (nat + nat) list" where
  "edge_windows s =
     concat (map (\<lambda>e. (if e_window e then [Inl (e_id e)] else []) @ (if e_approachWindow e then [Inr (e_id e)] else []))
       (s_edges s))"

end
