(* ===== verification/EdgeFacts.thy ===== *)
theory EdgeFacts
  imports ScreenEdges
begin

text \<open>
  Screen edges: how often an edge is triggered and by what, which pixels of a screen trigger which edge, and
  the reservations that are lost when the edges are created again.
\<close>

section \<open>What an edge keeps when it acts\<close>

text \<open>The part of an edge that decides when it is triggered next, and by which positions.\<close>

definition timing :: "edge \<Rightarrow> int option \<times> int option \<times> nat option \<times> (point \<Rightarrow> bool)" where
  "timing e = (e_lastTrigger e, e_lastReset e, e_client e, triggersFor e)"

lemma triggersFor_place [simp]:
  "triggersFor (e\<lparr>e_lastTrigger := t\<rparr>) = triggersFor e" "triggersFor (e\<lparr>e_lastReset := t\<rparr>) = triggersFor e"
  "triggersFor (e\<lparr>e_triggeredPoint := q\<rparr>) = triggersFor e" "triggersFor (e\<lparr>e_pushBackBlocked := b\<rparr>) = triggersFor e"
  "triggersFor (e\<lparr>e_reserved := n\<rparr>) = triggersFor e" "triggersFor (e\<lparr>e_approaching := b\<rparr>) = triggersFor e"
  "triggersFor (e\<lparr>e_approachWindow := b\<rparr>) = triggersFor e" "triggersFor (e\<lparr>e_window := b\<rparr>) = triggersFor e"
  "triggersFor (e\<lparr>e_factor := n\<rparr>) = triggersFor e"
  by (simp_all add: triggersFor_def fun_eq_iff isLeft_def isRight_def isTop_def isBottom_def)

definition thresholds :: "edge_session \<Rightarrow> int \<times> int \<times> int \<times> int" where
  "thresholds s = (s_timeThreshold s, s_reactivate s, s_pushBack s)"

definition keeps_timing :: "edge \<times> edge_session \<Rightarrow> edge \<times> edge_session \<Rightarrow> bool" where
  "keeps_timing p r \<longleftrightarrow> timing (fst r) = timing (fst p) \<and> thresholds (snd r) = thresholds (snd p)"

lemma thresholds_calls [simp]: "thresholds (ecall c s) = thresholds s" "thresholds (s\<lparr>s_desktops := m\<rparr>) = thresholds s"
  by (simp_all add: thresholds_def ecall_def)

lemma thresholds_pushCursorBack [simp]: "thresholds (pushCursorBack q e s) = thresholds s"
  by (simp add: pushCursorBack_def split: prod.split)

lemma thresholds_callbacks [simp]: "thresholds (snd (ask_callbacks b objs s)) = thresholds s"
  by (induction objs arbitrary: s) (simp_all add: Let_def)

lemma unreserve_timing: "keeps_timing p (edge_unreserve p)"
  by (cases p) (simp add: keeps_timing_def timing_def edge_unreserve_def deactivate_def approach_stop_def Let_def)

lemma switch_timing:
  assumes "edge_switchDesktop q p = Some r"
  shows "keeps_timing p r"
proof -
  obtain e s where p: "p = (e, s)" by (rule prod.exhaust)
  obtain dp where "Option.bind (switch_updown s e dp) (\<lambda>(d, pos).
      if (case s_moving s of None \<Rightarrow> False | Some (c, _) \<Rightarrow> s_ruleDesktop s c (sint d) \<noteq> sint d) then Some (e, s)
      else let s' = s\<lparr>s_desktops := fst (setCurrent d (s_desktops s))\<rparr> in
        if m_current (s_desktops s') \<noteq> m_current (s_desktops s)
        then Some (e\<lparr>e_pushBackBlocked := True\<rparr>, ecall (SetCursor pos) s') else Some (e, s')) = Some r"
    using assms unfolding p edge_switchDesktop_def Let_def prod.case by (rule Option.bind_eq_Some_conv [THEN iffD1, THEN exE]) blast
  then show ?thesis
    unfolding p by (cases "switch_updown s e dp") (auto simp: Let_def keeps_timing_def timing_def split: if_splits)
qed

lemma handle_timing:
  assumes "edge_handle q p = Some r"
  shows "keeps_timing p r"
proof -
  obtain e s where p: "p = (e, s)" by (rule prod.exhaust)
  obtain b1 s1 where a: "handleAction e s = (b1, s1)" by (rule prod.exhaust)
  obtain b2 s2 where c: "(if b1 then (True, s1) else handleByCallback e s1) = (b2, s2)" by (rule prod.exhaust)
  have s1: "thresholds s1 = thresholds s" using a by (auto simp: handleAction_def split: ElectricBorderAction.splits)
  have s2: "thresholds s2 = thresholds s"
    using c s1 thresholds_callbacks [of "e_border e" "e_callbacks e" s1]
    by (cases b1) (simp_all add: handleByCallback_def)
  have move: "keeps_timing (e, s) r" if "keeps_timing (e, u) r" "thresholds u = thresholds s" for u
    using that by (simp add: keeps_timing_def)
  have shown: "keeps_timing (e, s) (edge_unreserve (e, ecall (ShowOnScreenEdge d) (pushCursorBack q e s)))" for d
    using unreserve_timing [of "(e, ecall (ShowOnScreenEdge d) (pushCursorBack q e s))"] by (simp add: keeps_timing_def)
  have same: "keeps_timing (e, s) (e, u)" if "thresholds u = thresholds s" for u
    using that by (simp add: keeps_timing_def)
  have "edge_handle q (e, s) =
    (if s_switchingMoving s \<and> (case s_moving s of None \<Rightarrow> False | Some (_, resize) \<Rightarrow> \<not> resize) \<or>
        s_switching s \<and> isScreenEdge e then edge_switchDesktop q (e, s)
     else if s_moving s \<noteq> None then Some (e, s)
     else case e_client e of
       Some d \<Rightarrow> Some (edge_unreserve (e, ecall (ShowOnScreenEdge d) (pushCursorBack q e s)))
     | None \<Rightarrow>
         if b2 then Some (e, pushCursorBack q e s2)
         else if s_switching s2 \<and> isCorner e then edge_switchDesktop q (e, s2) else Some (e, s2))"
    by (simp add: edge_handle_def a c cong: if_cong option.case_cong)
  then consider "edge_switchDesktop q (e, s) = Some r" | "r = (e, s)"
    | d where "r = edge_unreserve (e, ecall (ShowOnScreenEdge d) (pushCursorBack q e s))"
    | "r = (e, pushCursorBack q e s2)" | "edge_switchDesktop q (e, s2) = Some r" | "r = (e, s2)"
    using assms unfolding p by (simp split: if_splits option.splits)
  then show ?thesis
  proof cases
    case 1
    then show ?thesis unfolding p by (rule switch_timing)
  next
    case 5
    then show ?thesis using switch_timing [OF 5] s2 unfolding p by (intro move)
  qed (use same shown s2 in \<open>simp_all add: p\<close>)
qed

section \<open>When an edge is triggered\<close>

text \<open>Events of the pointer at one edge: the times at which it is triggered, last first.\<close>

primrec run_edge :: "(point \<times> int \<times> bool) list \<Rightarrow> edge \<times> edge_session \<Rightarrow> (int list \<times> edge \<times> edge_session) option" where
  "run_edge [] p = Some ([], p)"
| "run_edge (ev # evs) p =
     (case ev of (q, now, force) \<Rightarrow> do {
        (hit, p) \<leftarrow> edge_check q now force p;
        (times, p) \<leftarrow> run_edge evs p;
        Some (if hit then now # times else times, p)
      })"

lemma check_result:
  assumes "edge_check q now force (e, s) = Some (hit, e', s')"
  shows "thresholds s' = thresholds s \<and> e_client e' = e_client e \<and> triggersFor e' = triggersFor e \<and>
    (if hit then e_lastTrigger e' = Some now \<and> e_lastReset e' = None \<and> triggersFor e q \<and> \<not> cooling s e now \<and>
       (force \<or> s_pushBack s = (0, 0) \<or> e_client e \<noteq> None \<or>
        (\<exists>r. e_lastReset e = Some r \<and> s_timeThreshold s \<le> now - r \<and> now - r \<le> s_reactivate s))
     else e_lastTrigger e' = e_lastTrigger e \<and>
       (e_lastReset e' = e_lastReset e \<or> e_lastReset e' = Some now \<and> triggersFor e q \<and> \<not> cooling s e now))"
proof (cases "\<not> triggersFor e q \<or> cooling s e now")
  case True
  then show ?thesis using assms by (auto simp: edge_check_def)
next
  case False
  let ?direct = "force \<or> s_pushBack s = (0, 0) \<or> e_client e \<noteq> None"
  obtain can e1 where c: "(if ?direct then (True, e) else canActivate s q now e) = (can, e1)" by (rule prod.exhaust)
  have e1: "e_lastTrigger e1 = e_lastTrigger e" "e_client e1 = e_client e" "triggersFor e1 = triggersFor e"
      "e_lastReset e1 = e_lastReset e \<or> e_lastReset e1 = Some now"
    using c by (auto simp: canActivate_def split: if_splits option.splits)
  show ?thesis
  proof (cases can)
    case True
    then have hit: "hit" "edge_handle q (markAsTriggered q now e1, s) = Some (e', s')"
      using assms False c by (auto simp: edge_check_def Let_def)
    then have "timing e' = timing (markAsTriggered q now e1)" "thresholds s' = thresholds s"
      using handle_timing [OF hit(2)] by (simp_all add: keeps_timing_def)
    moreover have "?direct \<or> (\<exists>r. e_lastReset e = Some r \<and> s_timeThreshold s \<le> now - r \<and> now - r \<le> s_reactivate s)"
      using c True by (auto simp: canActivate_def split: if_splits option.splits)
    ultimately show ?thesis using hit(1) False e1(2,3) by (auto simp: timing_def markAsTriggered_def)
  next
    case no: False
    then have "\<not> hit" "e' = e1\<lparr>e_triggeredPoint := q\<rparr>" "s' = pushCursorBack q (e1\<lparr>e_triggeredPoint := q\<rparr>) s \<or> s' = pushCursorBack q e1 s"
      using assms False c by (auto simp: edge_check_def Let_def)
    then show ?thesis using e1 False by auto
  qed
qed

text \<open>The times of a run: far enough apart, and with a first push before each of them.\<close>

definition spaced :: "int \<Rightarrow> int option \<Rightarrow> int list \<Rightarrow> bool" where
  "spaced gap before ts \<longleftrightarrow>
     (\<forall>i. Suc i < length ts \<longrightarrow> gap \<le> ts ! Suc i - ts ! i) \<and>
     (\<forall>t b. before = Some b \<and> ts \<noteq> [] \<and> t = hd ts \<longrightarrow> gap \<le> t - b)"

lemma spaced_Cons:
  assumes "spaced gap (Some t) ts" "\<And>b. before = Some b \<Longrightarrow> gap \<le> t - b"
  shows "spaced gap before (t # ts)"
  using assms by (auto simp: spaced_def nth_Cons hd_conv_nth split: nat.splits)

lemma run_edge_spaced:
  assumes "run_edge evs (e, s) = Some (ts, r)"
  shows "spaced (s_reactivate s - s_timeThreshold s) (e_lastTrigger e) ts"
  using assms
proof (induction evs arbitrary: e s ts r)
  case Nil
  then show ?case by (simp add: spaced_def)
next
  case (Cons ev evs)
  obtain q now force where ev: "ev = (q, now, force)" by (rule prod_cases3)
  obtain hit e1 s1 ts1 where c: "edge_check q now force (e, s) = Some (hit, e1, s1)"
      "run_edge evs (e1, s1) = Some (ts1, r)" "ts = (if hit then now # ts1 else ts1)"
    using Cons.prems by (auto simp: ev bind_eq_Some_conv split: prod.splits)
  note k = check_result [OF c(1)]
  have "spaced (s_reactivate s - s_timeThreshold s) (e_lastTrigger e1) ts1"
    using Cons.IH [OF c(2)] k by (simp add: thresholds_def)
  then show ?case
    using k c(3) by (auto simp: cooling_def intro!: spaced_Cons split: if_splits)
qed

text \<open>The times of the events at the edge.\<close>

definition pushes :: "(point \<times> int \<times> bool) list \<Rightarrow> edge \<Rightarrow> int set" where
  "pushes evs e = {u. \<exists>q force. (q, u, force) \<in> set evs \<and> triggersFor e q}"

text \<open>Each trigger is a push, with a first push before it that comes long enough after the last trigger.\<close>

primrec paced :: "int set \<Rightarrow> int \<Rightarrow> int \<Rightarrow> int option \<Rightarrow> int option \<Rightarrow> int list \<Rightarrow> bool" where
  "paced R time react trigger reset [] = True"
| "paced R time react trigger reset (t # ts) =
     (t \<in> R \<and>
      (\<exists>u. (u \<in> R \<or> reset = Some u) \<and> time \<le> t - u \<and> t - u \<le> react \<and> (\<forall>b. trigger = Some b \<longrightarrow> react - time \<le> u - b)) \<and>
      paced R time react (Some t) None ts)"

lemma paced_mono: "paced R time react trigger reset ts \<Longrightarrow> R \<subseteq> R' \<Longrightarrow> paced R' time react trigger reset ts"
  by (induction ts arbitrary: trigger reset) auto

lemma paced_pushed: "paced R time react trigger (Some u) ts \<Longrightarrow> u \<in> R \<Longrightarrow> paced R time react trigger reset ts"
  by (cases ts) auto

lemma paced_nth:
  assumes "paced R time react trigger None ts" "i < length ts"
  shows "ts ! i \<in> R \<and> (\<exists>u\<in>R. time \<le> ts ! i - u \<and> ts ! i - u \<le> react \<and> (0 < i \<longrightarrow> react - time \<le> u - ts ! (i - 1)))"
  using assms
proof (induction ts arbitrary: trigger i)
  case (Cons t ts)
  show ?case
  proof (cases i)
    case (Suc j)
    then have j: "j < length ts" using Cons.prems(2) by simp
    show ?thesis
    proof (cases j)
      case 0
      then obtain t' ts' where "ts = t' # ts'" using j by (cases ts) auto
      then show ?thesis using Cons.prems(1) Suc 0 by auto
    next
      case (Suc k)
      then show ?thesis using Cons.IH [of "Some t" j] Cons.prems(1) j \<open>i = Suc j\<close> by simp
    qed
  qed (use Cons.prems in auto)
qed simp

definition rested :: "edge_session \<Rightarrow> edge \<Rightarrow> bool" where
  "rested s e \<longleftrightarrow>
     (\<forall>b u. e_lastTrigger e = Some b \<and> e_lastReset e = Some u \<longrightarrow> s_reactivate s - s_timeThreshold s \<le> u - b)"

lemma run_edge_paced:
  assumes "run_edge evs (e, s) = Some (ts, r)" "e_client e = None" "s_pushBack s \<noteq> (0, 0)"
    and "\<forall>(q, now, force)\<in>set evs. \<not> force" "rested s e"
  shows "paced (pushes evs e) (s_timeThreshold s) (s_reactivate s) (e_lastTrigger e) (e_lastReset e) ts"
  using assms
proof (induction evs arbitrary: e s ts r)
  case (Cons ev evs)
  obtain q now where ev: "ev = (q, now, False)" using Cons.prems(4) by (cases ev) auto
  obtain hit e1 s1 ts1 where c: "edge_check q now False (e, s) = Some (hit, e1, s1)"
      "run_edge evs (e1, s1) = Some (ts1, r)" "ts = (if hit then now # ts1 else ts1)"
    using Cons.prems(1) by (auto simp: ev bind_eq_Some_conv split: prod.splits)
  note k = check_result [OF c(1)]
  have s1: "s_timeThreshold s1 = s_timeThreshold s" "s_reactivate s1 = s_reactivate s" "s_pushBack s1 = s_pushBack s"
    using k by (simp_all add: thresholds_def)
  have e1: "e_client e1 = None" "triggersFor e1 = triggersFor e" using k Cons.prems(2) by simp_all
  have "rested s1 e1"
    using k Cons.prems(5) by (auto simp: rested_def s1 cooling_def split: if_splits)
  then have "paced (pushes evs e1) (s_timeThreshold s) (s_reactivate s) (e_lastTrigger e1) (e_lastReset e1) ts1"
    using Cons.IH [OF c(2) e1(1)] Cons.prems(3,4) s1 by simp
  moreover have "pushes evs e1 \<subseteq> pushes (ev # evs) e" by (auto simp: pushes_def e1(2))
  ultimately have p: "paced (pushes (ev # evs) e) (s_timeThreshold s) (s_reactivate s) (e_lastTrigger e1) (e_lastReset e1) ts1"
    by (rule paced_mono)
  have now: "now \<in> pushes (ev # evs) e" if "triggersFor e q"
    using that unfolding pushes_def ev list.set by blast
  show ?case
  proof (cases hit)
    case True
    obtain u where "e_lastReset e = Some u" "s_timeThreshold s \<le> now - u" "now - u \<le> s_reactivate s"
      using k True Cons.prems(2,3) by auto
    moreover have "\<forall>b. e_lastTrigger e = Some b \<longrightarrow> s_reactivate s - s_timeThreshold s \<le> u - b"
      using Cons.prems(5) calculation(1) by (simp add: rested_def)
    ultimately show ?thesis using p now k True c(3) by auto
  next
    case False
    then show ?thesis
      using p now k c(3) paced_pushed [of "pushes (ev # evs) e" _ _ "e_lastTrigger e" now ts1 "e_lastReset e"] by auto
  qed
qed simp

text \<open>C39: A border or corner without a hidden window is triggered by pushing, and not too often.  Whatever events
  of the pointer reach it, none of them with pushing back switched off, the times at which it is triggered
  follow each other after at least the reactivation threshold; each of them is that of an event at the
  edge itself, and touching the edge once is not enough: there was an event at the edge before, by at least the
  time threshold and at most the reactivation threshold, which is itself later than the trigger before by
  at least the difference of the two.\<close>

theorem edge_triggered_by_pushes:
  assumes "run_edge evs (e, s) = Some (ts, r)" "e_client e = None" "s_pushBack s \<noteq> (0, 0)"
    and "\<forall>(q, now, force)\<in>set evs. \<not> force" "e_lastReset e = None"
  shows "(\<forall>i. Suc i < length ts \<longrightarrow> s_reactivate s \<le> ts ! Suc i - ts ! i) \<and>
    (\<forall>i<length ts. (\<exists>q. (q, ts ! i, False) \<in> set evs \<and> triggersFor e q) \<and>
      (\<exists>q u. (q, u, False) \<in> set evs \<and> triggersFor e q \<and> s_timeThreshold s \<le> ts ! i - u \<and> ts ! i - u \<le> s_reactivate s \<and>
        (0 < i \<longrightarrow> s_reactivate s - s_timeThreshold s \<le> u - ts ! (i - 1))))"
proof -
  have p: "paced (pushes evs e) (s_timeThreshold s) (s_reactivate s) (e_lastTrigger e) None ts"
    using run_edge_paced [OF assms(1-4)] assms(5) by (simp add: rested_def)
  have push: "\<exists>q. (q, u, False) \<in> set evs \<and> triggersFor e q" if "u \<in> pushes evs e" for u
  proof -
    obtain q force where q: "(q, u, force) \<in> set evs" "triggersFor e q"
      using \<open>u \<in> pushes evs e\<close> unfolding pushes_def by blast
    then have "\<not> force" using assms(4) by (auto dest: bspec)
    with q show ?thesis by (intro exI [of _ q]) simp
  qed
  have "s_reactivate s \<le> ts ! Suc i - ts ! i" if "Suc i < length ts" for i
    using paced_nth [OF p that] by auto
  moreover have "(\<exists>q. (q, ts ! i, False) \<in> set evs \<and> triggersFor e q) \<and>
      (\<exists>q u. (q, u, False) \<in> set evs \<and> triggersFor e q \<and> s_timeThreshold s \<le> ts ! i - u \<and> ts ! i - u \<le> s_reactivate s \<and>
        (0 < i \<longrightarrow> s_reactivate s - s_timeThreshold s \<le> u - ts ! (i - 1)))" if "i < length ts" for i
    using paced_nth [OF p that] push by meson
  ultimately show ?thesis by blast
qed

definition sample_session :: edge_session where
  "sample_session = \<lparr>s_edges = [], s_next = 0, s_x11 = True, s_switching = False, s_switchingMoving = False,
     s_pushBack = (1, 1), s_timeThreshold = 150, s_reactivate = 350, s_layout = (True, False),
     s_actions = (\<lambda>_. ElectricActionNone), s_cornerOffset = 20,
     s_screens = [mk_rect (0, 0) (800, 600), mk_rect (800, 0) (800, 600)], s_display = (1600, 600),
     s_fullArea = mk_rect (0, 0) (1600, 600), s_desktops = initial_manager (\<lambda>_. []), s_moving = None, s_fullscreen = None,
     s_ruleDesktop = (\<lambda>_ d. d), s_callback = (\<lambda>_ _. True),
     s_parts = (\<lambda>g gs. if g \<in> set gs then [] else [g]), s_client_geometry = (\<lambda>_. no_rect), s_calls = []\<rparr>"

definition sample_edge :: edge where
  "sample_edge = (new_edge 7)\<lparr>e_border := ElectricTop, e_geometry := mk_rect (20, 0) (760, 1),
     e_callbacks := [9], e_reserved := 1\<rparr>"

definition sample_pushes :: "(point \<times> int \<times> bool) list" where
  "sample_pushes = map (\<lambda>t. ((300, 0), t, False)) [1000, 1050, 1150, 1250, 1450, 1700, 1900]"

text \<open>Pushed against for a second: it is triggered after 150 and after 700 milliseconds.\<close>

lemma edge_triggered_by_pushes_witness:
  "\<exists>r. run_edge sample_pushes (sample_edge, sample_session) = Some ([1150, 1700], r) \<and>
   (\<exists>q u. (q, u, False) \<in> set sample_pushes \<and> triggersFor sample_edge q \<and> 150 \<le> 1700 - u \<and> 1700 - u \<le> 350 \<and>
     200 \<le> u - 1150)"
proof -
  have "map_option fst (run_edge sample_pushes (sample_edge, sample_session)) = Some [1150, 1700]" by code_simp
  then obtain r where r: "run_edge sample_pushes (sample_edge, sample_session) = Some ([1150, 1700], r)" by auto
  have "\<forall>i<length [1150, 1700 :: int].
      (\<exists>q. (q, [1150, 1700] ! i, False) \<in> set sample_pushes \<and> triggersFor sample_edge q) \<and>
      (\<exists>q u. (q, u, False) \<in> set sample_pushes \<and> triggersFor sample_edge q \<and>
        s_timeThreshold sample_session \<le> [1150, 1700] ! i - u \<and> [1150, 1700] ! i - u \<le> s_reactivate sample_session \<and>
        (0 < i \<longrightarrow> s_reactivate sample_session - s_timeThreshold sample_session \<le> u - [1150, 1700] ! (i - 1)))"
    by (rule edge_triggered_by_pushes [OF r, THEN conjunct2])
      (simp_all add: sample_edge_def new_edge_def sample_session_def sample_pushes_def)
  then have "\<exists>q u. (q, u, False) \<in> set sample_pushes \<and> triggersFor sample_edge q \<and> 150 \<le> 1700 - u \<and> 1700 - u \<le> 350 \<and>
      200 \<le> u - 1150"
    by (auto dest!: spec [of _ "1 :: nat"] simp: sample_session_def) blast
  with r show ?thesis by blast
qed

text \<open>Without pushing back (or with a hidden window at the edge) an event is enough, and it may come earlier than the
  reactivation threshold after the last trigger, by the time threshold.\<close>

lemma direct_edge_triggers_early:
  "map_option fst (run_edge [((300, 0), 1000, False), ((300, 0), 1200, False)] (sample_edge, sample_session\<lparr>s_pushBack := (0, 0)\<rparr>))
   = Some [1000, 1200] \<and> s_reactivate sample_session = 350"
  by code_simp

section \<open>Reservations\<close>

lemma reserve_sel [simp]:
  "e_border (fst (edge_reserve p)) = e_border (fst p)" "e_callbacks (fst (edge_reserve p)) = e_callbacks (fst p)"
  "e_reserved (fst (edge_reserve p)) = e_reserved (fst p) + 1"
  by (cases p; simp add: edge_reserve_def activate_def doUpdateBlocking_def createApproachWindow_def createWindow_def
      Let_def split: prod.split)+

lemma unreserve_sel [simp]:
  "e_border (fst (edge_unreserve p)) = e_border (fst p)" "e_callbacks (fst (edge_unreserve p)) = e_callbacks (fst p)"
  "e_reserved (fst (edge_unreserve p)) = e_reserved (fst p) - 1"
  by (cases p; simp add: edge_unreserve_def deactivate_def approach_stop_def Let_def)+

lemma reserveFor_sel:
  "e_border (fst (edge_reserveFor x p)) = e_border (fst p)" "e_reserved (fst (edge_reserveFor x p)) = e_reserved (fst p) + 1"
  "e_callbacks (fst (edge_reserveFor x p)) =
     (if x \<in> set (e_callbacks (fst p)) then e_callbacks (fst p) else e_callbacks (fst p) @ [x])"
  by (cases p; simp add: edge_reserveFor_def)+

lemma copy_result:
  assumes "\<forall>d\<in>set old. e_client d = None \<and> (e_border d = e_border (fst p) \<longrightarrow> e_callbacks d = [x])"
    and "e_callbacks (fst p) = [] \<or> e_callbacks (fst p) = [x]"
  shows "e_border (fst (copy_reservations old p)) = e_border (fst p) \<and>
    e_reserved (fst (copy_reservations old p)) =
      e_reserved (fst p) + int (length (filter (\<lambda>d. e_border d = e_border (fst p)) old)) \<and>
    e_callbacks (fst (copy_reservations old p)) =
      (if \<exists>d\<in>set old. e_border d = e_border (fst p) then [x] else e_callbacks (fst p))"
  using assms
proof (induction old arbitrary: p)
  case Nil
  then show ?case by (simp add: copy_reservations_def)
next
  case (Cons d old)
  show ?case
  proof (cases "e_border d = e_border (fst p)")
    case True
    let ?p = "edge_reserveFor x p"
    have step: "copy_reservations (d # old) p = copy_reservations old ?p"
      using Cons.prems(1) True by (simp add: copy_reservations_def)
    have "e_callbacks (fst ?p) = [x]" using Cons.prems(2) by (auto simp: reserveFor_sel)
    then show ?thesis
      using Cons.IH [of ?p] Cons.prems(1) True by (auto simp: step reserveFor_sel)
  next
    case False
    have "copy_reservations (d # old) p = copy_reservations old p"
      using Cons.prems(1) False by (simp add: copy_reservations_def)
    then show ?thesis using Cons.IH [of p] Cons.prems False by simp
  qed
qed

text \<open>C40: When the edges are created again, an object that had reserved a border is counted once for every old
  edge at that border, but can take its reservation back only once: with several old edges at the border
  (several screens side by side), the new edge stays reserved by nobody after the object has left it.\<close>

theorem recreate_leaks_reservation:
  assumes "\<forall>d\<in>set old. e_client d = None \<and> (e_border d = e_border e \<longrightarrow> e_callbacks d = [x])"
    and "e_callbacks e = []" "\<exists>d\<in>set old. e_border d = e_border e"
  shows "e_callbacks (fst (edge_unreserveFor x (copy_reservations old (e, s)))) = [] \<and>
    e_reserved (fst (edge_unreserveFor x (copy_reservations old (e, s)))) =
      e_reserved e + int (length (filter (\<lambda>d. e_border d = e_border e) old)) - 1"
proof -
  obtain e' s' where c: "copy_reservations old (e, s) = (e', s')" by (rule prod.exhaust)
  have "e_callbacks e' = [x]" "e_reserved e' = e_reserved e + int (length (filter (\<lambda>d. e_border d = e_border e) old))"
    using copy_result [of old "(e, s)" x] assms c by simp_all
  then show ?thesis by (simp add: c edge_unreserveFor_def)
qed

text \<open>An effect reserves the upper border of two screens, the screens change, and the effect leaves.\<close>

lemma recreate_leaks_reservation_witness:
  "e_reserved (fst (edge_unreserveFor 9 (copy_reservations [sample_edge, sample_edge]
     (sample_edge\<lparr>e_callbacks := [], e_reserved := 0\<rparr>, sample_session)))) = 1"
  using recreate_leaks_reservation [of "[sample_edge, sample_edge]" "sample_edge\<lparr>e_callbacks := [], e_reserved := 0\<rparr>" 9
      sample_session]
  by (simp add: sample_edge_def new_edge_def)

section \<open>The pixels of a screen\<close>

definition edge_frame :: "edge \<Rightarrow> ElectricBorder \<times> rect \<times> bool" where
  "edge_frame e = (e_border e, e_geometry e, e_blocked e)"

definition layout_of :: "edge_session \<Rightarrow> rect list \<times> int \<times> edge list" where
  "layout_of s = (s_screens s, s_cornerOffset s, s_edges s)"

definition frame_kept :: "edge \<times> edge_session \<Rightarrow> edge \<times> edge_session \<Rightarrow> bool" where
  "frame_kept p r \<longleftrightarrow> edge_frame (fst r) = edge_frame (fst p) \<and> layout_of (snd r) = layout_of (snd p)"

lemma frame_calls [simp]: "layout_of (ecall c s) = layout_of s" "layout_of (s\<lparr>s_next := n\<rparr>) = layout_of s"
  by (simp_all add: layout_of_def ecall_def)

lemma frame_fields [simp]:
  "edge_frame (e\<lparr>e_window := b\<rparr>) = edge_frame e" "edge_frame (e\<lparr>e_approachWindow := b\<rparr>) = edge_frame e"
  "edge_frame (e\<lparr>e_reserved := n\<rparr>) = edge_frame e" "edge_frame (e\<lparr>e_action := a\<rparr>) = edge_frame e"
  by (simp_all add: edge_frame_def)

lemma reserve_frame: "frame_kept p (edge_reserve p)"
  by (cases p) (simp add: frame_kept_def edge_reserve_def activate_def doUpdateBlocking_def createApproachWindow_def
      createWindow_def Let_def split: prod.split)

lemma createEdge_result:
  "edge_frame (fst (createEdge b x y width height a s)) = (b, mk_rect (x, y) (width, height), False) \<and>
   layout_of (snd (createEdge b x y width height a s)) = layout_of s"
proof -
  obtain e1 s1 where p1: "edge_setGeometry (mk_rect (x, y) (width, height))
      ((new_edge (s_next s))\<lparr>e_border := b\<rparr>, s\<lparr>s_next := s_next s + 1\<rparr>) = (e1, s1)" by (rule prod.exhaust)
  have k1: "edge_frame e1 = (b, mk_rect (x, y) (width, height), False)" "layout_of s1 = layout_of s"
    using p1 by (auto simp: edge_setGeometry_def edge_frame_def new_edge_def Let_def split: if_splits)
  obtain e2 s2 where p2: "(if a \<and> actionForEdge s1 e1 \<noteq> ElectricActionNone
    then (case edge_reserve (e1, s1) of (e, s) \<Rightarrow> (e\<lparr>e_action := actionForEdge s1 e1\<rparr>, s)) else (e1, s1)) = (e2, s2)"
    by (rule prod.exhaust)
  have k2: "edge_frame e2 = edge_frame e1 \<and> layout_of s2 = layout_of s1"
    using p2 reserve_frame [of "(e1, s1)"] by (auto simp: frame_kept_def split: prod.splits if_splits)
  have "createEdge b x y width height a s =
      (if s_switching s2 \<and> switching_edge (s_layout s2) e2 then edge_reserve (e2, s2) else (e2, s2))"
    unfolding createEdge_def Let_def p1 prod.case p2 ..
  then show ?thesis using k1 k2 reserve_frame [of "(e2, s2)"] by (simp add: frame_kept_def)
qed

text \<open>The edges as triples, and what a pixel triggers.\<close>

definition edge_list :: "edge_session \<Rightarrow> (ElectricBorder \<times> rect \<times> bool) list" where
  "edge_list s = map edge_frame (s_edges s)"

lemma addEdge_result:
  "edge_list (addEdge b x y width height s) = edge_list s @ [(b, mk_rect (x, y) (width, height), False)]"
  "s_screens (addEdge b x y width height s) = s_screens s" "s_cornerOffset (addEdge b x y width height s) = s_cornerOffset s"
  using createEdge_result [of b x y width height True s]
  by (simp_all add: addEdge_def edge_list_def layout_of_def case_prod_unfold Let_def)

lemma vertical_result:
  assumes "isTopScreen s g full" "isBottomScreen s g full"
  shows "edge_list (createVerticalEdge left g full s) = edge_list s @
     [(if left then ElectricTopLeft else ElectricTopRight, mk_rect (if left then rx1 g else rx1 g + rwidth g - 1, ry1 g) (1, 1), False),
      (if left then ElectricBottomLeft else ElectricBottomRight,
       mk_rect (if left then rx1 g else rx1 g + rwidth g - 1, ry1 g + rheight g - 1) (1, 1), False),
      (if left then ElectricLeft else ElectricRight, mk_rect (if left then rx1 g else rx1 g + rwidth g - 1, ry1 g + s_cornerOffset s)
        (1, rheight g - s_cornerOffset s - s_cornerOffset s), False)] \<and>
    s_screens (createVerticalEdge left g full s) = s_screens s \<and>
    s_cornerOffset (createVerticalEdge left g full s) = s_cornerOffset s"
  by (simp add: createVerticalEdge_def assms addEdge_result Let_def)

lemma horizontal_result:
  assumes "isLeftScreen s g full" "isRightScreen s g full"
  shows "edge_list (createHorizontalEdge upper g full s) = edge_list s @
     [(if upper then ElectricTop else ElectricBottom,
       mk_rect (rx1 g + s_cornerOffset s, if upper then ry1 g else ry1 g + rheight g - 1)
         (rwidth g - s_cornerOffset s - s_cornerOffset s, 1), False)] \<and>
    s_screens (createHorizontalEdge upper g full s) = s_screens s \<and>
    s_cornerOffset (createHorizontalEdge upper g full s) = s_cornerOffset s"
  by (simp add: createHorizontalEdge_def assms addEdge_result Let_def)

lemma only_screen:
  assumes "length (s_screens s) = 1"
  shows "isLeftScreen s g full" "isRightScreen s g full" "isTopScreen s g full" "isBottomScreen s g full"
  using assms by (simp_all add: isLeftScreen_def isRightScreen_def isTopScreen_def isBottomScreen_def)

lemma part_edges_result:
  assumes "length (s_screens s) = 1" "s_cornerOffset s = k" "g = mk_rect (0, 0) (W, H)"
  shows "edge_list (part_edges full g s) = edge_list s @
     [(ElectricTopLeft, mk_rect (0, 0) (1, 1), False), (ElectricBottomLeft, mk_rect (0, H - 1) (1, 1), False),
      (ElectricLeft, mk_rect (0, k) (1, H - k - k), False),
      (ElectricTopRight, mk_rect (W - 1, 0) (1, 1), False), (ElectricBottomRight, mk_rect (W - 1, H - 1) (1, 1), False),
      (ElectricRight, mk_rect (W - 1, k) (1, H - k - k), False),
      (ElectricTop, mk_rect (k, 0) (W - k - k, 1), False), (ElectricBottom, mk_rect (k, H - 1) (W - k - k, 1), False)]"
proof -
  note screens = only_screen [of _ g full]
  let ?s1 = "createVerticalEdge True g full s"
  let ?s2 = "createVerticalEdge False g full ?s1"
  let ?s3 = "createHorizontalEdge True g full ?s2"
  have 1: "edge_list ?s1 = edge_list s @ [(ElectricTopLeft, mk_rect (0, 0) (1, 1), False),
      (ElectricBottomLeft, mk_rect (0, H - 1) (1, 1), False), (ElectricLeft, mk_rect (0, k) (1, H - k - k), False)]"
      "length (s_screens ?s1) = 1" "s_cornerOffset ?s1 = k"
    using vertical_result [of s g full True] screens [of s] assms by (simp_all add: mk_rect_coordinates)
  have 2: "edge_list ?s2 = edge_list ?s1 @ [(ElectricTopRight, mk_rect (W - 1, 0) (1, 1), False),
      (ElectricBottomRight, mk_rect (W - 1, H - 1) (1, 1), False), (ElectricRight, mk_rect (W - 1, k) (1, H - k - k), False)]"
      "length (s_screens ?s2) = 1" "s_cornerOffset ?s2 = k"
    using vertical_result [of ?s1 g full False] screens [of ?s1] 1(2,3) assms(3) by (simp_all add: mk_rect_coordinates)
  have 3: "edge_list ?s3 = edge_list ?s2 @ [(ElectricTop, mk_rect (k, 0) (W - k - k, 1), False)]"
      "length (s_screens ?s3) = 1" "s_cornerOffset ?s3 = k"
    using horizontal_result [of ?s2 g full True] screens [of ?s2] 2(2,3) assms(3) by (simp_all add: mk_rect_coordinates)
  have 4: "edge_list (createHorizontalEdge False g full ?s3) = edge_list ?s3 @ [(ElectricBottom, mk_rect (k, H - 1) (W - k - k, 1), False)]"
    using horizontal_result [of ?s3 g full False] screens [of ?s3] 3(2,3) assms(3) by (simp add: mk_rect_coordinates)
  have "part_edges full g s = createHorizontalEdge False g full ?s3"
    using screens [OF assms(1)] screens [OF 1(2)] screens [OF 2(2)] screens [OF 3(2)] by (simp add: part_edges_def Let_def)
  then show ?thesis by (simp add: 1(1) 2(1) 3(1) 4)
qed

lemma each_edge_nothing:
  assumes "\<And>p. f p = p"
  shows "each_edge P f s = s"
proof -
  have "fold (\<lambda>i s. if P (s_edges s ! i) then at_edge f i s else s) is u = u" for "is" u
    by (induction "is" arbitrary: u) (simp_all add: at_edge_def assms)
  then show ?thesis by (simp add: each_edge_def)
qed

text \<open>The border a pixel of the screen belongs to.\<close>

definition border_at :: "int \<Rightarrow> int \<Rightarrow> int \<Rightarrow> point \<Rightarrow> ElectricBorder list" where
  "border_at W H k q =
     (case q of (x, y) \<Rightarrow>
        if x = 0 \<and> y = 0 then [ElectricTopLeft]
        else if x = 0 \<and> y = H - 1 then [ElectricBottomLeft]
        else if x = W - 1 \<and> y = 0 then [ElectricTopRight]
        else if x = W - 1 \<and> y = H - 1 then [ElectricBottomRight]
        else if x = 0 \<and> k \<le> y \<and> y < H - k then [ElectricLeft]
        else if x = W - 1 \<and> k \<le> y \<and> y < H - k then [ElectricRight]
        else if y = 0 \<and> k \<le> x \<and> x < W - k then [ElectricTop]
        else if y = H - 1 \<and> k \<le> x \<and> x < W - k then [ElectricBottom]
        else [])"

definition frame_triggers :: "point \<Rightarrow> ElectricBorder \<times> rect \<times> bool \<Rightarrow> bool" where
  "frame_triggers q f = triggersFor ((new_edge 0)\<lparr>e_border := fst f, e_geometry := fst (snd f), e_blocked := snd (snd f)\<rparr>) q"

lemma triggers_frame: "triggersFor e q = frame_triggers q (edge_frame e)"
  by (simp add: triggersFor_def frame_triggers_def edge_frame_def isLeft_def isRight_def isTop_def isBottom_def)

lemma frame_pixel:
  assumes "0 < w" "0 < h"
  shows "frame_triggers (a, c) (b, mk_rect (x, y) (w, h), False) \<longleftrightarrow>
    x \<le> a \<and> a < x + w \<and> y \<le> c \<and> c < y + h \<and>
    (b \<in> {ElectricLeft, ElectricTopLeft, ElectricBottomLeft} \<longrightarrow> a = x) \<and>
    (b \<in> {ElectricRight, ElectricTopRight, ElectricBottomRight} \<longrightarrow> a = x + w - 1) \<and>
    (b \<in> {ElectricTop, ElectricTopLeft, ElectricTopRight} \<longrightarrow> c = y) \<and>
    (b \<in> {ElectricBottom, ElectricBottomLeft, ElectricBottomRight} \<longrightarrow> c = y + h - 1)"
proof -
  have "rect_isValid (mk_rect (x, y) (w, h))" using assms by (simp add: rect_isValid_def mk_rect_coordinates)
  then show ?thesis
    by (auto simp: frame_triggers_def triggersFor_def contains_point_valid mk_rect_coordinates isLeft_def isRight_def
        isTop_def isBottom_def new_edge_def)
qed

text \<open>C38: On a single screen every pixel triggers the edge it belongs to and no other: after the edges are created,
  the four corner pixels trigger the corners, the pixels of the outermost rows and columns the border they
  lie at, but for the corner offset at each end, and all other pixels nothing.\<close>

theorem single_screen_pixels:
  assumes "s_screens s = [mk_rect (0, 0) (W, H)]" "s_display s = (W, H)" "s_edges s = []" "s_cornerOffset s = k"
    and "s_parts s (mk_rect (0, 0) (W, H)) [] = [mk_rect (0, 0) (W, H)]" "0 < k" "2 * k < W" "2 * k < H"
  shows "map e_border (filter (\<lambda>e. triggersFor e q) (s_edges (recreateEdges s))) = border_at W H k q"
proof -
  let ?g = "mk_rect (0, 0) (W, H)"
  have "copy_reservations [] = (\<lambda>p. p)" by (simp add: copy_reservations_def fun_eq_iff)
  then have "each_edge (\<lambda>_. True) (copy_reservations []) u = u" for u by (intro each_edge_nothing) simp
  then have "recreateEdges s = part_edges ?g ?g (s\<lparr>s_edges := []\<rparr>)"
    using assms by (simp add: recreateEdges_def Let_def)
  then have "edge_list (recreateEdges s) =
     [(ElectricTopLeft, mk_rect (0, 0) (1, 1), False), (ElectricBottomLeft, mk_rect (0, H - 1) (1, 1), False),
      (ElectricLeft, mk_rect (0, k) (1, H - k - k), False),
      (ElectricTopRight, mk_rect (W - 1, 0) (1, 1), False), (ElectricBottomRight, mk_rect (W - 1, H - 1) (1, 1), False),
      (ElectricRight, mk_rect (W - 1, k) (1, H - k - k), False),
      (ElectricTop, mk_rect (k, 0) (W - k - k, 1), False), (ElectricBottom, mk_rect (k, H - 1) (W - k - k, 1), False)]"
    using part_edges_result [of "s\<lparr>s_edges := []\<rparr>" k ?g W H ?g] assms by (simp add: edge_list_def)
  moreover have "map e_border (filter (\<lambda>e. triggersFor e q) es) = map fst (filter (frame_triggers q) (map edge_frame es))" for es
    by (induction es) (simp_all add: triggers_frame, simp add: edge_frame_def)
  moreover obtain x y where "q = (x, y)" by (rule prod.exhaust)
  ultimately show ?thesis
    using assms(6-8) by (auto simp: edge_list_def frame_pixel border_at_def)
qed

definition one_screen :: edge_session where
  "one_screen = sample_session\<lparr>s_screens := [mk_rect (0, 0) (800, 600)], s_display := (800, 600)\<rparr>"

theorem single_screen_pixels_witness:
  "map e_border (filter (\<lambda>e. triggersFor e (0, 0)) (s_edges (recreateEdges one_screen))) = [ElectricTopLeft] \<and>
   map e_border (filter (\<lambda>e. triggersFor e (799, 300)) (s_edges (recreateEdges one_screen))) = [ElectricRight] \<and>
   map e_border (filter (\<lambda>e. triggersFor e (10, 0)) (s_edges (recreateEdges one_screen))) = []"
proof -
  have "map e_border (filter (\<lambda>e. triggersFor e q) (s_edges (recreateEdges one_screen))) = border_at 800 600 20 q" for q
    by (rule single_screen_pixels) (simp_all add: one_screen_def sample_session_def)
  then show ?thesis by (simp add: border_at_def)
qed

end
