(* ===== verification/Spec2Isabelle.thy ===== *)
theory Spec2Isabelle
  imports VirtualDesktops FocusChain Stacking MainWindows RuleBook MoveResize PositionFacts MaximizeFacts ArrangeFacts KeepFacts TabFacts EdgeFacts
begin

text \<open>
  KWin, the window manager and compositor: a model of how it manages windows, and what it
  guarantees.  The source is C++ over Qt, KDE libraries and the X server.  The part that decides
  where windows are, in which order they are stacked, which one gets the focus and which rules
  apply to them is modelled function by function; painting, protocols and toolkit calls are not.

  \<^bold>\<open>Parts of the program and their theories\<close>

  \<^item> \<open>Prelude\<close>: machine integers, the operations of Qt's list class, monadic folds, and the lemmas all
    components share.
  \<^item> \<open>VirtualDesktops\<close> (\<^verbatim>\<open>virtualdesktops.cpp\<close>): the grid of desktops and the manager of their number,
    layout, names and current desktop.  Desktop numbers are 32-bit words and wrap.
  \<^item> \<open>Clients\<close> (\<^verbatim>\<open>toplevel\<close>, \<^verbatim>\<open>abstract_client\<close>, \<^verbatim>\<open>client\<close>): the fields of a window and the questions the
    other parts ask; a pointer is a number, the store \<open>cl\<close> holds the windows.
  \<^item> \<open>Transiency\<close>, \<open>WindowGroups\<close> (\<^verbatim>\<open>group.cpp\<close>): the transient relation and its search; the reference counted
    window groups, the check of \<open>WM_TRANSIENT_FOR\<close> and what a change of it, a new window and a window
    that goes do to both.  \<open>GroupFacts\<close> and \<open>MainWindows\<close> hold the proofs.
  \<^item> \<open>FocusChain\<close> (\<^verbatim>\<open>focuschain.cpp\<close>): who gets the focus next, by desktop and over all.
  \<^item> \<open>Stacking\<close> (\<^verbatim>\<open>layers.cpp\<close>): the stacking order, its layers and constraints, and what raises,
    lowers and restacks windows.
  \<^item> \<open>Activation\<close> (\<^verbatim>\<open>activation.cpp\<close>): focus stealing prevention and the user times it rests on.
  \<^item> \<open>TransientState\<close> (\<^verbatim>\<open>abstract_client.cpp\<close>, \<^verbatim>\<open>group.cpp\<close>, \<^verbatim>\<open>workspace.cpp\<close>): layers, keep above and below,
    desktops, minimizing and utility windows, with the recursions over transients.
  \<^item> \<open>FocusMachine\<close> (\<^verbatim>\<open>activation.cpp\<close>, \<^verbatim>\<open>workspace.cpp\<close>, \<^verbatim>\<open>events.cpp\<close>, \<^verbatim>\<open>netinfo.cpp\<close>, \<^verbatim>\<open>tabgroup.cpp\<close>): asking for
    the focus, getting it, passing it on; the current desktop and activity; showing the desktop;
    switching tabs.  Five operations call each other; \<open>run\<close> ties their knot.  \<open>ActivationFacts\<close>,
    \<open>LayerFacts\<close>, \<open>FocusFacts\<close> and \<open>KeepFacts\<close> hold the proofs.
  \<^item> \<open>Rules\<close>, \<open>RuleStorage\<close>, \<open>RuleBook\<close> (\<^verbatim>\<open>rules.cpp\<close>): the window rules, their configuration files, their
    matching and checks, and the book that shares them with the windows by pointers.
  \<^item> \<open>Rects\<close>, \<open>GeometryState\<close>: Qt's rectangles with their inclusive corners; the size hints
    (\<^verbatim>\<open>xcbutils.h\<close>), the geometry fields of a window, the screens (\<^verbatim>\<open>screens.cpp\<close>, \<^verbatim>\<open>screens_xrandr.cpp\<close>) and
    the state of the workspace as \<^verbatim>\<open>geometry.cpp\<close> sees it.
  \<^item> \<open>Areas\<close>, \<open>Sizing\<close>, \<open>Positioning\<close> (\<^verbatim>\<open>geometry.cpp\<close>, \<^verbatim>\<open>abstract_client.cpp\<close>): struts and the areas they
    leave; sizes under limits, increments and aspect ratios; setting, moving and resizing with
    blocked updates; keeping a window inside an area and \<open>checkWorkspacePosition\<close>.
  \<^item> \<open>Smart\<close>, \<open>Placement\<close>, \<open>PlacementPolicy\<close> (\<^verbatim>\<open>placement.cpp\<close>): the policies for new windows.
  \<^item> \<open>Maximizing\<close> (\<^verbatim>\<open>geometry.cpp\<close>, \<^verbatim>\<open>client.cpp\<close>): \<open>changeMaximize\<close> with decorations coming and going.
  \<^item> \<open>Tiling\<close>: quick tiles, sending a window to a screen, packing, growing and shrinking.
  \<^item> \<open>FullScreen\<close>: full screen and its legacy hack, the requests of clients and pagers.
  \<^item> \<open>TabGroups\<close> (\<^verbatim>\<open>tabgroup.cpp\<close>, \<^verbatim>\<open>client.cpp\<close>): the list of tabs, the sizes of a group, joining and leaving it
    with the guards of \<open>add\<close>, \<open>setCurrent\<close> and \<open>tabTo\<close>, and the table of all groups; \<open>TabFacts\<close> holds the proofs.
  \<^item> \<open>Snapping\<close>, \<open>MoveResize\<close>: snapping, and the interactive move and resize from start to finish.

  \<^item> \<open>ScreenEdges\<close> (\<^verbatim>\<open>screenedge.cpp\<close>): the edges and corners of the screens, their reservations, and what the
    pointer does to them at which times; \<open>EdgeFacts\<close> holds the proofs.

  How they meet: a rule (\<open>w_rules\<close>) is asked before every geometry, mode and policy is set; placement,
  maximizing and the configure requests end in \<open>setGeometry\<close>, \<open>plainResize\<close> or \<open>move\<close>; a change of an
  area calls \<open>checkWorkspacePosition\<close> for every window, which may maximize again; raising, tabs,
  layers and the focus of other parts are logged as calls (\<open>gcall\<close>, in order) where a function of
  the geometry makes them.  \<open>changeMaximize\<close> is an argument (\<open>cm\<close>) of the functions that call it, and
  takes the placement (\<open>pl\<close>) it may fall back to.

  \<^bold>\<open>What is shown\<close>

  \<^item> Stacking: the constrained order is a permutation, sorted by layers, with transients above
    their main windows, and its computation returns; raising and lowering change exactly the
    relative place of one window with its dependents; \<open>ensureStackingOrder\<close> agrees with a sort.
  \<^item> Focus: no chain holds a window twice; where an update puts a window; what is activated next.
  \<^item> Activation: the nested calls of \<open>setActive\<close> and \<open>setActiveClient\<close> come back and leave one active
    window (\<open>setActive_one_active\<close>, \<open>setActive_off\<close>, in sessions \<open>ready\<close> for it); a window that was asked to
    take the focus gets it; keep-above and keep-below exclude each other, for all tabs of a group; a higher
    level of focus stealing prevention refuses more; \<open>updateLayer\<close> ends; requests that are not decided the way the comments say.
  \<^item> Transiency: the search for an indirect transient is reachability, with enough fuel always
    given; through groups it is membership.  A change of \<open>WM_TRANSIENT_FOR\<close> and a window that goes keep
    groups, lists and main windows consistent (\<open>relations_ok\<close>) and fail no assertion; a stale id makes
    the check of the property hang, and group transients can get into a circle.
  \<^item> Desktops: navigation is total and inverse to itself; the grid is a bijection; the count stays
    in bounds; the configuration round trip, and inputs that hang or stop the saving.
  \<^item> Rules: the first rule that uses a setting decides it; round trips of one rule and of the book (for
    ASCII texts of the class, the role and the machine, which are written as bytes and read as UTF-8);
    which operations follow a dangling pointer; temporary rules expire.
  \<^item> Geometry: frame, wrapper and client have the geometry the window manager believes in after every
    operation, or an update is due (\<open>geometry_agrees\<close>), blocked updates collapse to one, maximizing is undone by maximizing again,
    bounds of sizes, kept areas and snapping, what exactly the struts of a window take from an area, tiles partition an area, packing stops at the
    first window, and the loop that pushes a window back on the screen returns.
  \<^item> Tab groups: all groups stay well-formed, whatever windows are asked to become tabs (\<open>tab_session_ok\<close>); a tab moved to the right lands too far.
  \<^item> Screen edges: the pushes an edge needs and how far its triggers are apart (\<open>edge_triggered_by_pushes\<close>), the edge every pixel of a
    screen belongs to, and a reservation that is never given back.
  \<^item> Placement: the smart search returns with a position no worse than the corner, and every policy
    but maximizing places a window after at most one hand-over.

  Examples that end the theories show where the code does not do what it means to (a strut compared
  the wrong way round, a width used for a height, a shadowed variable and the like).

  \<^bold>\<open>Fuel and partial functions\<close>

  A loop without a bound in the code is \<open>partial_function\<close> with \<open>None\<close> for no return:
  the transient loop of the stacking order, walks up main windows, the smart search, the two loops
  of a restricted move or resize, and the operations of the focus and of the states shared with
  transients, which call each other.  \<open>hasTransientInternal\<close> has the number of windows plus two as fuel,
  shown to be enough.  \<open>sendToScreen\<close> recurs over transients and \<open>place\<close> hands a window to another
  policy: their number arguments bound the depth, \<open>None\<close> says it was not enough, and
  \<open>placement_returns\<close> shows that two is enough when neither the option nor a
  rule asks for maximizing.

  \<^bold>\<open>Parameters\<close>

  Configuration coding, text and regular expressions of Qt (record \<open>library\<close> of the rules); the
  rectangles of a difference of regions in a restricted move, and the factor of the snap zones; the
  borders a decoration plugin asks for; whether the X server grants a grab; how two X timestamps
  compare; what rules and hints answer to the focus (\<open>window_prefs\<close>); what callbacks answer to an edge;
  what becomes of a window on trial in a tab group.  Sizes and positions are
  unbounded integers; the code's \<open>int\<close> does not overflow for the coordinates of an X screen, and the
  aspect ratios, computed in floating point, are exact below \<open>2^53\<close>.

  \<^bold>\<open>Not modelled\<close>

  Painting (compositor, scenes, effects), the Wayland server with its shell clients and backends,
  input, X events and properties, menus and D-Bus, decorations as plugins, the configuration
  dialogs and scripting: their effect is outside the program's own state.  Of the modelled files:
  \<open>desktopResized\<close>, \<open>getWmNormalHints\<close> and \<open>fixPositionAfterCrash\<close> talk to the X server;
  \<open>checkQuickTilingMaximizationZones\<close> follows the pointer.  Of the states that tabs share the keep flags are
  copied (\<open>setKeep\<close>, the \<open>Layer\<close> part of \<open>updateStates\<close>, without states that are pending from a block); the other
  states and shading are not modelled.  Where the modelled code calls them, the call is logged.  Whether a
  window that joins a tab group gets a decoration and takes shade mode and desktop is an input (\<open>tab_trial\<close>).
  \<open>untab\<close> and \<open>detab\<close> are the whole of \<open>Client::untab\<close> for one group, and its effect on the table of groups.
\<close>

end
